(* ===== verification/Prelude.thy ===== *)
theory Prelude
  imports Complex_Main
begin

text \<open>
  Shared vocabulary of the development.

  \<^item> Instants are Python datetimes in UTC, held as an \<open>int\<close> of microseconds since the epoch;
    a duration is an \<open>int\<close> of microseconds and a date is its day number.
  \<^item> A function that may raise returns a sum: \<open>Inl\<close> the raised error, \<open>Inr\<close> the result.
    A database transaction that raises leaves nothing behind, so its model returns no state
    beside the error.
  \<^item> A table is a list of rows; \<open>upd_where\<close> is an UPDATE, \<open>filter\<close> a SELECT or a DELETE.
  \<^item> Python's \<open>round\<close> on a number is rounding to the nearest integer, ties to the even one.
\<close>

section \<open>Automation\<close>

named_theorems frame \<open>fields and tables an operation leaves alone\<close>
named_theorems ok_cases \<open>what a successful call tells about its guards\<close>

lemma conj3I: "A \<Longrightarrow> B \<Longrightarrow> C \<Longrightarrow> A \<and> B \<and> C"
  by simp

section \<open>Time\<close>

type_synonym time = int
type_synonym date = int

abbreviation (input) second :: int where
  "second \<equiv> 1000000"

definition day_length :: int where
  "day_length = 86400 * second"

definition days :: "int \<Rightarrow> int" where
  "days n = n * day_length"

definition date_of :: "time \<Rightarrow> date" where
  "date_of t = t div day_length"

lemma day_length_pos [simp]: "0 < day_length"
  by (simp add: day_length_def)

lemma days_mono: "m \<le> n \<Longrightarrow> days m \<le> days n"
  by (simp add: days_def day_length_def)

lemma date_of_mono: "s \<le> t \<Longrightarrow> date_of s \<le> date_of t"
  by (simp add: date_of_def zdiv_mono1)

text \<open>
  The day of the month of a date of the proleptic Gregorian calendar: the date is counted from
  the first of March of the year 0, in eras of 400 years, so that the leap day ends its year.
  \<open>month_start t\<close> is \<open>t.replace(day=1, hour=0, minute=0, second=0, microsecond=0)\<close>.
\<close>

definition day_of_month :: "date \<Rightarrow> int" where
  "day_of_month d =
     (let doe = (d + 719468) mod 146097;
          yoe = (doe - doe div 1460 + doe div 36524 - doe div 146096) div 365;
          doy = doe - (365 * yoe + yoe div 4 - yoe div 100);
          mp = (5 * doy + 2) div 153
      in doy - (153 * mp + 2) div 5 + 1)"

definition month_start :: "time \<Rightarrow> time" where
  "month_start t = (date_of t - (day_of_month (date_of t) - 1)) * day_length"

lemma mult_div_le: "c * (z div c) \<le> z" if "0 < c" for c z :: int
proof -
  have "c * (z div c) = z - z mod c" by (simp add: minus_mod_eq_mult_div)
  with pos_mod_sign [OF that, of z] show ?thesis by simp
qed

lemma day_of_month_pos: "1 \<le> day_of_month d"
proof -
  have le: "(153 * ((5 * y + 2) div 153) + 2) div 5 \<le> y" for y :: int
  proof -
    have "153 * ((5 * y + 2) div 153) + 2 \<le> 5 * y + 4"
      using mult_div_le [of 153 "5 * y + 2"] by simp
    then have "(153 * ((5 * y + 2) div 153) + 2) div 5 \<le> (5 * y + 4) div 5"
      by (rule zdiv_mono1) simp
    also have "\<dots> = y" by simp
    finally show ?thesis .
  qed
  have sub: "a \<le> y \<Longrightarrow> 1 \<le> y - a + 1" for a y :: int by simp
  show ?thesis
    unfolding day_of_month_def Let_def by (rule sub, rule le)
qed

lemma month_start_le: "month_start t \<le> t"
proof -
  have "date_of t - (day_of_month (date_of t) - 1) \<le> date_of t"
    using day_of_month_pos [of "date_of t"] by simp
  then have "month_start t \<le> date_of t * day_length"
    by (simp add: month_start_def mult_right_mono order.strict_implies_order)
  also have "\<dots> \<le> t"
    using mult_div_le [of day_length t] by (simp add: date_of_def mult.commute)
  finally show ?thesis .
qed

lemma month_start_example: "month_start (days 20455 + 3600 * second) = days 20454"
  by (simp add: month_start_def day_of_month_def date_of_def days_def day_length_def Let_def)

section \<open>Results\<close>

fun rbind :: "'e + 'a \<Rightarrow> ('a \<Rightarrow> 'e + 'b) \<Rightarrow> 'e + 'b" where
  "rbind (Inl e) f = Inl e"
| "rbind (Inr a) f = f a"

definition ensure :: "bool \<Rightarrow> 'e \<Rightarrow> 'e + unit" where
  "ensure c e = (if c then Inr () else Inl e)"

definition is_ok :: "'e + 'a \<Rightarrow> bool" where
  "is_ok r = (case r of Inl _ \<Rightarrow> False | Inr _ \<Rightarrow> True)"

lemma rbind_cong [fundef_cong]:
  "r = r' \<Longrightarrow> (\<And>a. r' = Inr a \<Longrightarrow> f a = g a) \<Longrightarrow> rbind r f = rbind r' g"
  by (cases r') auto

lemma rbind_Inr_iff: "rbind r f = Inr b \<longleftrightarrow> (\<exists>a. r = Inr a \<and> f a = Inr b)"
  by (cases r) auto

lemma rbind_Inl_iff: "rbind r f = Inl e \<longleftrightarrow> r = Inl e \<or> (\<exists>a. r = Inr a \<and> f a = Inl e)"
  by (cases r) auto

lemma ensure_Inr_iff [simp]: "ensure c e = Inr u \<longleftrightarrow> c"
  by (simp add: ensure_def)

lemma ensure_Inl_iff [simp]: "ensure c e = Inl e' \<longleftrightarrow> \<not> c \<and> e' = e"
  by (auto simp: ensure_def)

lemma is_ok_simps [simp]: "is_ok (Inl e) = False" "is_ok (Inr a) = True"
  by (simp_all add: is_ok_def)

lemma is_ok_iff: "is_ok r \<longleftrightarrow> (\<exists>a. r = Inr a)"
  by (cases r) auto

section \<open>Tables\<close>

definition upd_where :: "('r \<Rightarrow> bool) \<Rightarrow> ('r \<Rightarrow> 'r) \<Rightarrow> 'r list \<Rightarrow> 'r list" where
  "upd_where p f xs = map (\<lambda>r. if p r then f r else r) xs"

lemma upd_where_simps [simp]:
  "upd_where p f [] = []"
  "upd_where p f (x # xs) = (if p x then f x else x) # upd_where p f xs"
  by (simp_all add: upd_where_def)

lemma length_upd_where [simp]: "length (upd_where p f xs) = length xs"
  by (simp add: upd_where_def)

lemma set_upd_where: "set (upd_where p f xs) = (\<lambda>r. if p r then f r else r) ` set xs"
  by (simp add: upd_where_def)

lemma bex_upd_where:
  "(\<exists>r \<in> set (upd_where p f xs). Q r) \<longleftrightarrow> (\<exists>r \<in> set xs. Q (if p r then f r else r))"
  unfolding set_upd_where by blast

lemma ball_upd_where:
  "(\<forall>r \<in> set (upd_where p f xs). Q r) \<longleftrightarrow> (\<forall>r \<in> set xs. Q (if p r then f r else r))"
  unfolding set_upd_where by blast

lemma map_upd_where:
  "(\<And>r. p r \<Longrightarrow> g (f r) = g r) \<Longrightarrow> map g (upd_where p f xs) = map g xs"
  by (induction xs) auto

lemma upd_where_none: "(\<And>r. r \<in> set xs \<Longrightarrow> \<not> p r) \<Longrightarrow> upd_where p f xs = xs"
  by (induction xs) auto

lemma upd_where_id: "(\<And>r. r \<in> set xs \<Longrightarrow> p r \<Longrightarrow> f r = r) \<Longrightarrow> upd_where p f xs = xs"
  by (induction xs) auto

lemma in_upd_whereE:
  assumes "r \<in> set (upd_where p f xs)"
  obtains r0 where "r0 \<in> set xs" and "r = (if p r0 then f r0 else r0)"
  using assms by (auto simp: set_upd_where)

lemma find_SomeD: "find p xs = Some x \<Longrightarrow> x \<in> set xs \<and> p x"
  by (auto simp: find_Some_iff)

lemma distinct_map_eq:
  "distinct (map f xs) \<Longrightarrow> x \<in> set xs \<Longrightarrow> y \<in> set xs \<Longrightarrow> f x = f y \<Longrightarrow> x = y"
  by (auto simp: distinct_map inj_on_def)

lemma find_key:
  "distinct (map f xs) \<Longrightarrow> x \<in> set xs \<Longrightarrow> find (\<lambda>r. f r = f x) xs = Some x"
  by (induction xs) auto

text \<open>
  A sum over the rows of a table keyed by a distinct column: the row with a given key taken
  out, and put back changed.
\<close>

lemma sum_list_remove_key:
  fixes g :: "'r \<Rightarrow> int"
  assumes "distinct (map f xs)" and "x \<in> set xs"
  shows "sum_list (map g xs) = g x + sum_list (map g (filter (\<lambda>r. f r \<noteq> f x) xs))"
  using assms
proof (induction xs)
  case Nil
  then show ?case by simp
next
  case (Cons y ys)
  show ?case
  proof (cases "f y = f x")
    case True
    with Cons.prems have "y = x" by (auto simp: distinct_map inj_on_def)
    moreover from True Cons.prems have "filter (\<lambda>r. f r \<noteq> f x) ys = ys"
      by (auto simp: filter_id_conv image_iff)
    ultimately show ?thesis by simp
  next
    case False
    with Cons show ?thesis by auto
  qed
qed

lemma filter_upd_where_other:
  "(\<And>r. p r \<Longrightarrow> \<not> q r) \<Longrightarrow> (\<And>r. p r \<Longrightarrow> \<not> q (f r)) \<Longrightarrow>
   filter q (upd_where p f xs) = filter q xs"
  by (induction xs) auto

lemma sum_list_filter_zero:
  fixes g :: "'r \<Rightarrow> int"
  shows "(\<And>x. \<not> p x \<Longrightarrow> g x = 0) \<Longrightarrow> sum_list (map g (filter p xs)) = sum_list (map g xs)"
  by (induction xs) auto

lemma sum_list_mono_rows:
  fixes g h :: "'r \<Rightarrow> int"
  shows "(\<And>x. x \<in> set xs \<Longrightarrow> g x \<le> h x) \<Longrightarrow> sum_list (map g xs) \<le> sum_list (map h xs)"
  by (induction xs) (auto intro: add_mono)

lemma length_filter_upd_le:
  "(\<And>r. r \<in> set xs \<Longrightarrow> p r \<Longrightarrow> q (f r) \<Longrightarrow> q r) \<Longrightarrow>
   length (filter q (upd_where p f xs)) \<le> length (filter q xs)"
  by (induction xs) (auto intro: le_SucI)

section \<open>Python rounding\<close>

definition py_round :: "rat \<Rightarrow> int" where
  "py_round x =
     (let f = \<lfloor>x\<rfloor>; d = x - of_int f
      in if d < 1 / 2 then f
         else if 1 / 2 < d then f + 1
         else if even f then f else f + 1)"

lemma py_round_bounds: "x - 1 / 2 \<le> of_int (py_round x) \<and> of_int (py_round x) \<le> x + 1 / 2"
  unfolding py_round_def Let_def by (auto) (linarith+)?

lemma py_round_of_int [simp]: "py_round (of_int n) = n"
  by (simp add: py_round_def)

lemma py_round_near: "of_int n - 1 / 2 < x \<Longrightarrow> x < of_int n + 1 / 2 \<Longrightarrow> py_round x = n"
  using py_round_bounds [of x] by linarith

lemma py_round_mono:
  assumes "x \<le> y" shows "py_round x \<le> py_round y"
proof (cases "\<lfloor>x\<rfloor> = \<lfloor>y\<rfloor>")
  case True
  with assms show ?thesis by (auto simp: py_round_def Let_def)
next
  case False
  with assms have "\<lfloor>x\<rfloor> + 1 \<le> \<lfloor>y\<rfloor>"
    by (metis floor_mono order_le_less zless_imp_add1_zle)
  moreover have "py_round x \<le> \<lfloor>x\<rfloor> + 1" and "\<lfloor>y\<rfloor> \<le> py_round y"
    by (auto simp: py_round_def Let_def)
  ultimately show ?thesis by linarith
qed

end
