(* ===== verification/Py_Text.thy ===== *)
theory Py_Text
  imports Prelude
begin

text \<open>
  The Python string operations the source relies on, on the 7-bit characters: \<open>lower\<close>,
  \<open>strip\<close>, \<open>startswith\<close>, \<open>endswith\<close>, \<open>split\<close> at a one-character separator, \<open>int\<close> of a
  string and \<open>str\<close> of an integer, each with the laws the components use (idempotence of the
  normalisations, what a parsed integer prints as).
\<close>

definition ascii_lower :: "char \<Rightarrow> char" where
  "ascii_lower c =
     (let n = (of_char c :: nat) in if 65 \<le> n \<and> n \<le> 90 then char_of (n + 32) else c)"

definition lower :: "string \<Rightarrow> string" where
  "lower s = map ascii_lower s"

definition is_space :: "char \<Rightarrow> bool" where
  "is_space c = (let n = (of_char c :: nat) in n = 32 \<or> (9 \<le> n \<and> n \<le> 13) \<or> (28 \<le> n \<and> n \<le> 31))"

definition strip :: "string \<Rightarrow> string" where
  "strip s = rev (dropWhile is_space (rev (dropWhile is_space s)))"

fun startswith :: "string \<Rightarrow> string \<Rightarrow> bool" where
  "startswith s [] = True"
| "startswith [] (p # ps) = False"
| "startswith (c # cs) (p # ps) = (c = p \<and> startswith cs ps)"

definition endswith :: "string \<Rightarrow> string \<Rightarrow> bool" where
  "endswith s t = startswith (rev s) (rev t)"

fun contains :: "string \<Rightarrow> string \<Rightarrow> bool" where
  "contains [] t = (t = [])"
| "contains (c # cs) t = (startswith (c # cs) t \<or> contains cs t)"

text \<open>The part before the first separator, as \<open>s.split(c)[0]\<close>.\<close>

definition before :: "char \<Rightarrow> string \<Rightarrow> string" where
  "before c s = takeWhile (\<lambda>x. x \<noteq> c) s"

text \<open>\<open>s.split(c)\<close> and the two halves of \<open>s.partition(c)\<close>, for a one-character separator.\<close>

fun split_on :: "char \<Rightarrow> string \<Rightarrow> string list" where
  "split_on c [] = [[]]"
| "split_on c (x # xs) =
     (if x = c then [] # split_on c xs
      else case split_on c xs of [] \<Rightarrow> [[x]] | w # ws \<Rightarrow> (x # w) # ws)"

definition after :: "char \<Rightarrow> string \<Rightarrow> string" where
  "after c s = drop (Suc (length (before c s))) s"

definition after_last :: "char \<Rightarrow> string \<Rightarrow> string" where
  "after_last c s = rev (before c (rev s))"

definition digit_val :: "char \<Rightarrow> int option" where
  "digit_val c = (let n = (of_char c :: nat) in if 48 \<le> n \<and> n \<le> 57 then Some (int n - 48) else None)"

text \<open>
  \<open>int(s)\<close>: surrounding blanks, a sign, digits, single underscores between digits. The flag
  says that the last character read was a digit.
\<close>

fun parse_digits :: "int \<Rightarrow> bool \<Rightarrow> string \<Rightarrow> int option" where
  "parse_digits acc ok [] = (if ok then Some acc else None)"
| "parse_digits acc ok (c # cs) =
     (if c = CHR ''_'' then (if ok then parse_digits acc False cs else None)
      else case digit_val c of None \<Rightarrow> None | Some d \<Rightarrow> parse_digits (10 * acc + d) True cs)"

definition py_int :: "string \<Rightarrow> int option" where
  "py_int s =
     (case strip s of
        [] \<Rightarrow> None
      | c # cs \<Rightarrow>
          if c = CHR ''-'' then map_option uminus (parse_digits 0 False cs)
          else if c = CHR ''+'' then parse_digits 0 False cs
          else parse_digits 0 False (c # cs))"

definition digit_char :: "nat \<Rightarrow> char" where
  "digit_char n = char_of (48 + n)"

fun show_nat :: "nat \<Rightarrow> string" where
  "show_nat n = (if n < 10 then [digit_char n] else show_nat (n div 10) @ [digit_char (n mod 10)])"

declare show_nat.simps [simp del]

definition show_int :: "int \<Rightarrow> string" where
  "show_int n = (if n < 0 then CHR ''-'' # show_nat (nat (- n)) else show_nat (nat n))"

section \<open>Laws\<close>

lemma ascii_lower_idem [simp]: "ascii_lower (ascii_lower c) = ascii_lower c"
proof -
  have "n + 32 < 256" if "n \<le> 90" for n :: nat using that by simp
  then show ?thesis by (auto simp: ascii_lower_def Let_def of_char_of take_bit_nat_def)
qed

lemma lower_idem [simp]: "lower (lower s) = lower s"
  by (simp add: lower_def)

lemma is_space_lower [simp]: "is_space (ascii_lower c) = is_space c"
  by (auto simp: ascii_lower_def is_space_def Let_def take_bit_nat_def)

lemma lower_strip: "lower (strip s) = strip (lower s)"
  by (simp add: lower_def strip_def rev_map dropWhile_map comp_def)

lemma dropWhile_fixed: "xs = [] \<or> \<not> p (hd xs) \<Longrightarrow> dropWhile p xs = xs"
  by (cases xs) auto

lemma strip_idem [simp]: "strip (strip s) = strip s"
proof -
  define a where "a = dropWhile is_space s"
  define b where "b = rev (dropWhile is_space (rev a))"
  have a: "a = [] \<or> \<not> is_space (hd a)"
    using hd_dropWhile[of is_space s] by (auto simp: a_def simp del: hd_dropWhile)
  have pre: "\<exists>zs. a = b @ zs"
    by (metis b_def rev_append rev_rev_ident takeWhile_dropWhile_id)
  have "b = [] \<or> \<not> is_space (hd b)"
    using a pre by (metis append_is_Nil_conv hd_append2)
  then have "dropWhile is_space b = b" by (rule dropWhile_fixed)
  moreover have "dropWhile is_space (rev b) = rev b"
    by (rule dropWhile_fixed) (metis b_def dropWhile_eq_Nil_conv hd_dropWhile rev_rev_ident)
  moreover have "strip s = b" by (simp add: strip_def a_def b_def)
  ultimately show ?thesis by (simp add: strip_def)
qed

lemma startswith_iff: "startswith s t \<longleftrightarrow> (\<exists>u. s = t @ u)"
  by (induction s t rule: startswith.induct) auto

lemma endswith_iff: "endswith s t \<longleftrightarrow> (\<exists>u. s = u @ t)"
  by (auto simp: endswith_def startswith_iff) (metis rev_append rev_rev_ident)

lemma digit_val_char: "n < 10 \<Longrightarrow> digit_val (digit_char n) = Some (int n)"
  by (auto simp: digit_val_def digit_char_def Let_def take_bit_nat_def)

lemma digit_char_not_underscore: "n < 10 \<Longrightarrow> digit_char n \<noteq> CHR ''_''"
  by (auto dest!: digit_val_char simp: digit_val_def Let_def split: if_splits)

lemma parse_digits_snoc:
  assumes "parse_digits acc b s = Some v" and "d < 10"
  shows "parse_digits acc b (s @ [digit_char d]) = Some (10 * v + int d)"
  using assms
proof (induction acc b s arbitrary: v rule: parse_digits.induct)
  case (1 acc ok)
  then show ?case
    by (auto simp: digit_val_char digit_char_not_underscore split: if_splits)
next
  case (2 acc ok c cs)
  then show ?case
    by (auto split: if_splits option.splits)
qed

lemma parse_show_nat: "parse_digits 0 False (show_nat n) = Some (int n)"
proof (induction n rule: show_nat.induct)
  case (1 n)
  show ?case
  proof (cases "n < 10")
    case True
    then show ?thesis
      by (simp add: show_nat.simps digit_val_char digit_char_not_underscore)
  next
    case False
    with 1 have "parse_digits 0 False (show_nat (n div 10)) = Some (int (n div 10))" by blast
    moreover have "10 * int (n div 10) + int (n mod 10) = int n" by presburger
    ultimately show ?thesis
      using parse_digits_snoc [of 0 False "show_nat (n div 10)" "int (n div 10)" "n mod 10"] False
      by (subst show_nat.simps) simp
  qed
qed

end
