(* ===== verification/Settings.thy ===== *)
theory Settings
  imports Py_Text
begin

text \<open>
  Operating settings (platform_admin/settings_registry.py and the two writers of
  platform_admin/services.py): a setting is declared in code with its kind and bounds, its
  value lives in a table read through a cache, and a setting never changed falls back on the
  environment. Labels and help texts are left out.
\<close>

datatype setval = IntV int | BoolV bool | TextV string | NullV

datatype raw = RInt int | RBool bool | RStr string | RNull

datatype setting_kind = KInt | KBool | KText

record setting_spec =
  sp_key :: string
  sp_kind :: setting_kind
  sp_django_setting :: string
  sp_default :: setval
  sp_minimum :: "int option"
  sp_maximum :: "int option"
  sp_sensitive :: bool

datatype setting_error =
    Unknown_setting string
  | Not_an_integer string
  | Below_minimum string int
  | Above_maximum string int
  | Not_a_boolean string
  | Not_a_mode string string
  | Too_long string

definition MONITORED_SLOT_POOL :: string where "MONITORED_SLOT_POOL = ''monitored_slot_pool''"
definition MONTHLY_SCAN_CAP :: string where "MONTHLY_SCAN_CAP = ''monthly_scan_cap''"
definition TRIAL_DAYS :: string where "TRIAL_DAYS = ''trial_days''"
definition TRIAL_PLAN_CODE :: string where "TRIAL_PLAN_CODE = ''trial_plan_code''"
definition SECRET_RETENTION_DAYS :: string where "SECRET_RETENTION_DAYS = ''secret_retention_days''"
definition REVEAL_AUDIT_RETENTION_DAYS :: string where "REVEAL_AUDIT_RETENTION_DAYS = ''reveal_audit_retention_days''"
definition ALERT_WARNING_RATIO :: string where "ALERT_WARNING_RATIO = ''alert_warning_ratio''"
definition ALERT_CRITICAL_RATIO :: string where "ALERT_CRITICAL_RATIO = ''alert_critical_ratio''"
definition SIGNUP_OPEN :: string where "SIGNUP_OPEN = ''signup_open''"
definition MAINTENANCE_MESSAGE :: string where "MAINTENANCE_MESSAGE = ''maintenance_message''"
definition TRASH_RETENTION_DAYS :: string where "TRASH_RETENTION_DAYS = ''trash_retention_days''"
definition CTI_MODE :: string where "CTI_MODE = ''cti_mode''"
definition SCAN_COOLDOWN_MINUTES :: string where "SCAN_COOLDOWN_MINUTES = ''scan_cooldown_minutes''"

lemmas setting_keys =
  MONITORED_SLOT_POOL_def MONTHLY_SCAN_CAP_def TRIAL_DAYS_def TRIAL_PLAN_CODE_def
  SECRET_RETENTION_DAYS_def REVEAL_AUDIT_RETENTION_DAYS_def ALERT_WARNING_RATIO_def
  ALERT_CRITICAL_RATIO_def SIGNUP_OPEN_def MAINTENANCE_MESSAGE_def TRASH_RETENTION_DAYS_def
  CTI_MODE_def SCAN_COOLDOWN_MINUTES_def

definition int_spec :: "string \<Rightarrow> string \<Rightarrow> setval \<Rightarrow> int \<Rightarrow> int \<Rightarrow> bool \<Rightarrow> setting_spec" where
  "int_spec k dj dflt lo hi sens =
     \<lparr>sp_key = k, sp_kind = KInt, sp_django_setting = dj, sp_default = dflt,
      sp_minimum = Some lo, sp_maximum = Some hi, sp_sensitive = sens\<rparr>"

definition plain_spec :: "string \<Rightarrow> setting_kind \<Rightarrow> string \<Rightarrow> setval \<Rightarrow> bool \<Rightarrow> setting_spec" where
  "plain_spec k knd dj dflt sens =
     \<lparr>sp_key = k, sp_kind = knd, sp_django_setting = dj, sp_default = dflt,
      sp_minimum = None, sp_maximum = None, sp_sensitive = sens\<rparr>"

definition settings_registry :: "setting_spec list" where
  "settings_registry =
     [int_spec MONITORED_SLOT_POOL ''BREACHSENSE_MONITORED_ASSET_POOL_SIZE'' NullV 0 10000 True,
      int_spec SCAN_COOLDOWN_MINUTES ''BREACHSENSE_SCAN_COOLDOWN_MINUTES'' NullV 0 525600 False,
      int_spec MONTHLY_SCAN_CAP ''PLATFORM_MONTHLY_SCAN_CAP'' NullV 0 1000000 True,
      int_spec TRIAL_DAYS ''BILLING_TRIAL_DAYS'' NullV 0 365 False,
      plain_spec TRIAL_PLAN_CODE KText ''BILLING_DEFAULT_TRIAL_PLAN_CODE'' NullV False,
      int_spec SECRET_RETENTION_DAYS ''BREACH_SECRET_RETENTION_DAYS'' NullV 1 3650 True,
      int_spec REVEAL_AUDIT_RETENTION_DAYS ''BREACH_REVEAL_AUDIT_RETENTION_DAYS'' NullV 1 3650 True,
      int_spec ALERT_WARNING_RATIO '''' (IntV 80) 1 100 False,
      int_spec ALERT_CRITICAL_RATIO '''' (IntV 95) 1 100 False,
      plain_spec SIGNUP_OPEN KBool '''' (BoolV True) False,
      plain_spec MAINTENANCE_MESSAGE KText '''' (TextV '''') False,
      plain_spec CTI_MODE KText ''BREACHSENSE_MODE'' NullV True,
      int_spec TRASH_RETENTION_DAYS '''' (IntV 30) 1 365 False]"

definition spec_of :: "string \<Rightarrow> setting_spec option" where
  "spec_of k = find (\<lambda>s. sp_key s = k) settings_registry"

text \<open>The table of changed settings and the cached copy every reader goes through.\<close>

record settings_store =
  st_rows :: "(string \<times> setval) list"
  st_cache :: "(string \<times> setval) list option"

text \<open>The values of the environment file, by the name of the Django setting.\<close>

type_synonym environ = "string \<Rightarrow> setval option"

definition fallback :: "environ \<Rightarrow> setting_spec \<Rightarrow> setval" where
  "fallback en spec =
     (if sp_django_setting spec \<noteq> ''''
      then (case en (sp_django_setting spec) of Some v \<Rightarrow> v | None \<Rightarrow> sp_default spec)
      else sp_default spec)"

definition stored :: "settings_store \<Rightarrow> (string \<times> setval) list \<times> settings_store" where
  "stored st =
     (case st_cache st of
        Some vs \<Rightarrow> (vs, st)
      | None \<Rightarrow> (st_rows st, st\<lparr>st_cache := Some (st_rows st)\<rparr>))"

definition invalidate_cache :: "settings_store \<Rightarrow> settings_store" where
  "invalidate_cache st = st\<lparr>st_cache := None\<rparr>"

definition setting_get ::
  "environ \<Rightarrow> settings_store \<Rightarrow> string \<Rightarrow> setting_error + setval \<times> settings_store" where
  "setting_get en st k =
     (case spec_of k of
        None \<Rightarrow> Inl (Unknown_setting k)
      | Some spec \<Rightarrow>
          (case stored st of (vs, st') \<Rightarrow>
             Inr ((case map_of vs k of Some v \<Rightarrow> v | None \<Rightarrow> fallback en spec), st')))"

definition raw_int :: "raw \<Rightarrow> int option" where
  "raw_int r =
     (case r of RInt n \<Rightarrow> Some n | RBool b \<Rightarrow> Some (if b then 1 else 0)
      | RStr s \<Rightarrow> py_int s | RNull \<Rightarrow> None)"

definition raw_text :: "raw \<Rightarrow> string" where
  "raw_text r =
     (case r of RNull \<Rightarrow> '''' | RStr s \<Rightarrow> strip s | RInt n \<Rightarrow> show_int n
      | RBool b \<Rightarrow> (if b then ''True'' else ''False''))"

definition cti_modes :: "string list" where
  "cti_modes = [''live'', ''replay'', ''null'', ''auto'']"

definition coerce_int :: "setting_spec \<Rightarrow> raw \<Rightarrow> setting_error + setval" where
  "coerce_int spec r =
     (case raw_int r of
        None \<Rightarrow> Inl (Not_an_integer (sp_key spec))
      | Some v \<Rightarrow>
          (case sp_minimum spec of
             Some lo \<Rightarrow>
               (if v < lo then Inl (Below_minimum (sp_key spec) lo)
                else (case sp_maximum spec of
                        Some hi \<Rightarrow> (if hi < v then Inl (Above_maximum (sp_key spec) hi) else Inr (IntV v))
                      | None \<Rightarrow> Inr (IntV v)))
           | None \<Rightarrow>
               (case sp_maximum spec of
                  Some hi \<Rightarrow> (if hi < v then Inl (Above_maximum (sp_key spec) hi) else Inr (IntV v))
                | None \<Rightarrow> Inr (IntV v))))"

definition coerce :: "setting_spec \<Rightarrow> raw \<Rightarrow> setting_error + setval" where
  "coerce spec r =
     (case sp_kind spec of
        KInt \<Rightarrow> coerce_int spec r
      | KBool \<Rightarrow>
          (case r of
             RBool b \<Rightarrow> Inr (BoolV b)
           | RStr s \<Rightarrow>
               (if lower s \<in> set [''true'', ''false'', ''1'', ''0'']
                then Inr (BoolV (lower s \<in> set [''true'', ''1'']))
                else Inl (Not_a_boolean (sp_key spec)))
           | _ \<Rightarrow> Inl (Not_a_boolean (sp_key spec)))
      | KText \<Rightarrow>
          (let value = raw_text r
           in if sp_key spec = CTI_MODE
              then (if lower value \<in> set cti_modes then Inr (TextV (lower value))
                    else Inl (Not_a_mode (sp_key spec) value))
              else if 2000 < length value then Inl (Too_long (sp_key spec))
              else Inr (TextV value)))"

text \<open>\<open>update_or_create\<close> on the unique column \<open>key\<close>.\<close>

definition update_or_create :: "string \<Rightarrow> setval \<Rightarrow> (string \<times> setval) list \<Rightarrow> (string \<times> setval) list" where
  "update_or_create k v rows =
     (if k \<in> fst ` set rows then upd_where (\<lambda>r. fst r = k) (\<lambda>r. (k, v)) rows else (k, v) # rows)"

definition update_setting ::
  "environ \<Rightarrow> settings_store \<Rightarrow> string \<Rightarrow> raw \<Rightarrow> setting_error + (setval \<times> setval) \<times> settings_store" where
  "update_setting en st k r =
     (case spec_of k of
        None \<Rightarrow> Inl (Unknown_setting k)
      | Some spec \<Rightarrow>
          rbind (setting_get en st k) (\<lambda>(old, st1).
          rbind (coerce spec r) (\<lambda>value.
            Inr ((old, value),
                 invalidate_cache (st1\<lparr>st_rows := update_or_create k value (st_rows st1)\<rparr>)))))"

definition reset_setting :: "settings_store \<Rightarrow> string \<Rightarrow> settings_store" where
  "reset_setting st k =
     invalidate_cache (st\<lparr>st_rows := filter (\<lambda>r. fst r \<noteq> k) (st_rows st)\<rparr>)"


section \<open>The value in force\<close>

definition in_force :: "settings_store \<Rightarrow> string \<Rightarrow> setval option" where
  "in_force st k = map_of (fst (stored st)) k"

definition setting_value :: "environ \<Rightarrow> settings_store \<Rightarrow> string \<Rightarrow> setval option" where
  "setting_value en st k =
     (case setting_get en st k of Inl _ \<Rightarrow> None | Inr (v, _) \<Rightarrow> Some v)"

text \<open>The cache holds nothing, or what the table holds.\<close>

definition coherent :: "settings_store \<Rightarrow> bool" where
  "coherent st = (st_cache st = None \<or> st_cache st = Some (st_rows st))"

definition write_setting :: "string \<Rightarrow> setval \<Rightarrow> settings_store \<Rightarrow> settings_store" where
  "write_setting k v st =
     invalidate_cache ((snd (stored st))\<lparr>st_rows := update_or_create k v (st_rows (snd (stored st)))\<rparr>)"

definition valid_value :: "setting_spec \<Rightarrow> setval \<Rightarrow> bool" where
  "valid_value spec v =
     (case sp_kind spec of
        KInt \<Rightarrow> (case v of
            IntV n \<Rightarrow> (case sp_minimum spec of Some lo \<Rightarrow> lo \<le> n | None \<Rightarrow> True) \<and>
                      (case sp_maximum spec of Some hi \<Rightarrow> n \<le> hi | None \<Rightarrow> True)
          | _ \<Rightarrow> False)
      | KBool \<Rightarrow> (case v of BoolV _ \<Rightarrow> True | _ \<Rightarrow> False)
      | KText \<Rightarrow> (case v of
            TextV s \<Rightarrow> if sp_key spec = CTI_MODE then s \<in> set cti_modes else length s \<le> 2000
          | _ \<Rightarrow> False))"

definition settings_ok :: "settings_store \<Rightarrow> bool" where
  "settings_ok st = (\<forall>(k, v) \<in> set (st_rows st). \<exists>spec. spec_of k = Some spec \<and> valid_value spec v)"

text \<open>
  The interface its readers rely on: a store of overrides that is a map, whatever cache it
  keeps in front of its table.
\<close>

locale override_store =
  fixes look :: "'s \<Rightarrow> 'k \<Rightarrow> 'v option"
    and put :: "'k \<Rightarrow> 'v \<Rightarrow> 's \<Rightarrow> 's"
    and drop :: "'k \<Rightarrow> 's \<Rightarrow> 's"
    and inv :: "'s \<Rightarrow> bool"
  assumes inv_put: "inv s \<Longrightarrow> inv (put k v s)"
    and inv_drop: "inv s \<Longrightarrow> inv (drop k s)"
    and look_put: "inv s \<Longrightarrow> look (put k v s) = (look s)(k \<mapsto> v)"
    and look_drop: "inv s \<Longrightarrow> look (drop k s) = (look s)(k := None)"
begin

text \<open>A sequence of writes: \<open>Some v\<close> stores a value, \<open>None\<close> drops the override.\<close>

fun run :: "('k \<times> 'v option) list \<Rightarrow> 's \<Rightarrow> 's" where
  "run [] s = s"
| "run ((k, Some v) # ws) s = run ws (put k v s)"
| "run ((k, None) # ws) s = run ws (drop k s)"

fun spec_run :: "('k \<times> 'v option) list \<Rightarrow> ('k \<Rightarrow> 'v option) \<Rightarrow> ('k \<Rightarrow> 'v option)" where
  "spec_run [] m = m"
| "spec_run ((k, w) # ws) m = spec_run ws (m(k := w))"

lemma run_refines: "inv s \<Longrightarrow> inv (run ws s) \<and> look (run ws s) = spec_run ws (look s)"
  by (induction ws s rule: run.induct) (auto simp: inv_put inv_drop look_put look_drop)

lemma read_your_write: "inv s \<Longrightarrow> look (put k v s) k = Some v"
  by (simp add: look_put)

lemma write_keeps_others: "inv s \<Longrightarrow> k' \<noteq> k \<Longrightarrow> look (put k v s) k' = look s k'"
  by (simp add: look_put)

lemma drop_restores: "inv s \<Longrightarrow> look s k = None \<Longrightarrow> look (drop k (put k v s)) = look s"
  by (auto simp: look_put look_drop inv_put)

end

lemma map_of_update_or_create: "map_of (update_or_create k v rows) = (map_of rows)(k \<mapsto> v)"
proof (cases "k \<in> fst ` set rows")
  case True
  then have "map_of (upd_where (\<lambda>r. fst r = k) (\<lambda>r. (k, v)) rows) = (map_of rows)(k \<mapsto> v)"
  proof (induction rows)
    case (Cons r rs)
    show ?case
    proof (cases "k \<in> fst ` set rs")
      case True
      with Cons.IH show ?thesis by (cases r) (auto simp: fun_eq_iff)
    next
      case False
      then have "upd_where (\<lambda>r. fst r = k) (\<lambda>r. (k, v)) rs = rs"
        by (auto intro: upd_where_none)
      with Cons.prems False show ?thesis by (cases r) (auto simp: fun_eq_iff)
    qed
  qed simp
  with True show ?thesis by (simp add: update_or_create_def)
qed (simp add: update_or_create_def)

lemma map_of_filter_key: "map_of (filter (\<lambda>r. fst r \<noteq> k) rows) = (map_of rows)(k := None)"
  by (induction rows) (auto simp: fun_eq_iff)

lemma stored_coherent: "coherent st \<Longrightarrow> fst (stored st) = st_rows st"
  by (auto simp: coherent_def stored_def)

lemma stored_rows [simp]: "st_rows (snd (stored st)) = st_rows st"
  by (simp add: stored_def split: option.splits)

lemma in_force_coherent: "coherent st \<Longrightarrow> in_force st = map_of (st_rows st)"
  by (simp add: in_force_def stored_coherent fun_eq_iff)

lemma coherent_invalidate [simp]: "coherent (invalidate_cache st)"
  by (simp add: coherent_def invalidate_cache_def)

lemma rows_invalidate [simp]: "st_rows (invalidate_cache st) = st_rows st"
  by (simp add: invalidate_cache_def)

interpretation console: override_store in_force write_setting "\<lambda>k st. reset_setting st k" coherent
  by unfold_locales
    (simp_all add: write_setting_def reset_setting_def in_force_coherent map_of_update_or_create
      map_of_filter_key)

lemma setting_value_eq:
  "setting_value en st k =
     (case spec_of k of None \<Rightarrow> None
      | Some spec \<Rightarrow> Some (case in_force st k of Some v \<Rightarrow> v | None \<Rightarrow> fallback en spec))"
  by (simp add: setting_value_def setting_get_def in_force_def case_prod_unfold split: option.splits)

lemma update_setting_cases [ok_cases]:
  assumes "update_setting en st k r = Inr ((old, new), st')"
  obtains spec where "spec_of k = Some spec" and "coerce spec r = Inr new"
    and "setting_value en st k = Some old" and "st' = write_setting k new st"
  using assms
  by (auto simp: update_setting_def rbind_Inr_iff write_setting_def setting_get_def setting_value_def
      case_prod_unfold split: option.splits)

lemma coerce_valid: "coerce spec r = Inr v \<Longrightarrow> valid_value spec v"
  by (auto simp: coerce_def coerce_int_def valid_value_def Let_def
      split: setting_kind.splits option.splits if_splits raw.splits)

section \<open>Properties\<close>

lemma coerce_int_value: "coerce spec r = Inr v \<Longrightarrow> sp_kind spec = KInt \<Longrightarrow> map_option IntV (raw_int r) = Some v"
  by (auto simp: coerce_def coerce_int_def split: option.splits if_splits)

text \<open>
  C4: A setting changed from the console is what every later read returns, whether or not the
  cache was warm: the value in force of that key is what \<open>coerce\<close> makes of the submitted value for the
  declared setting (for an integer, the submitted number itself, never clamped), it is within the
  declared kind and bounds, the returned old value is what was in force before, no other key moves,
  and the cache is coherent again.
\<close>

theorem update_setting_read_back:
  assumes "coherent st" and "update_setting en st k r = Inr ((old, new), st')"
  shows "coherent st' \<and> setting_value en st' k = Some new \<and> setting_value en st k = Some old \<and>
         (\<exists>spec. spec_of k = Some spec \<and> coerce spec r = Inr new \<and> valid_value spec new \<and>
            (sp_kind spec = KInt \<longrightarrow> map_option IntV (raw_int r) = Some new)) \<and>
         (\<forall>k'. k' \<noteq> k \<longrightarrow> setting_value en st' k' = setting_value en st k')"
proof -
  obtain spec where spec: "spec_of k = Some spec" "coerce spec r = Inr new"
      and old: "setting_value en st k = Some old" and st': "st' = write_setting k new st"
    by (rule update_setting_cases [OF assms(2)])
  from spec coerce_valid coerce_int_value
  have "\<exists>spec. spec_of k = Some spec \<and> coerce spec r = Inr new \<and> valid_value spec new \<and>
      (sp_kind spec = KInt \<longrightarrow> map_option IntV (raw_int r) = Some new)" by blast
  with assms(1) spec old show ?thesis
    by (auto simp: st' setting_value_eq console.look_put console.inv_put split: option.splits)
qed

theorem update_setting_read_back_witness:
  "\<exists>st'. update_setting (\<lambda>_. Some (IntV 15)) \<lparr>st_rows = [], st_cache = Some []\<rparr>
           MONITORED_SLOT_POOL (RStr '' 20 '') = Inr ((IntV 15, IntV 20), st') \<and>
         setting_value (\<lambda>_. Some (IntV 15)) st' MONITORED_SLOT_POOL = Some (IntV 20) \<and>
         (\<exists>spec. spec_of MONITORED_SLOT_POOL = Some spec \<and> coerce spec (RStr '' 20 '') = Inr (IntV 20))"
proof -
  let ?en = "\<lambda>_ :: string. Some (IntV 15)"
  let ?st = "\<lparr>st_rows = [], st_cache = Some []\<rparr>"
  let ?st' = "\<lparr>st_rows = [(MONITORED_SLOT_POOL, IntV 20)], st_cache = None\<rparr>"
  have upd: "update_setting ?en ?st MONITORED_SLOT_POOL (RStr '' 20 '') =
      Inr ((IntV 15, IntV 20), ?st')"
    by (simp add: update_setting_def setting_get_def spec_of_def settings_registry_def int_spec_def
        stored_def fallback_def coerce_def coerce_int_def raw_int_def py_int_def strip_def
        is_space_def digit_val_def update_or_create_def invalidate_cache_def MONITORED_SLOT_POOL_def)
  have "coherent ?st" by (simp add: coherent_def)
  from update_setting_read_back [OF this upd] upd show ?thesis by blast
qed

text \<open>
  Whatever is typed in the console, every stored setting stays within its declared kind and
  bounds: an update that is accepted keeps the table valid, and so does a reset.
\<close>

theorem settings_stay_valid:
  assumes "settings_ok st"
  shows "settings_ok (reset_setting st k) \<and>
         (update_setting en st k r = Inr (p, st') \<longrightarrow> settings_ok st')"
proof -
  have "settings_ok (reset_setting st k)"
    using assms by (auto simp: settings_ok_def reset_setting_def)
  moreover have "settings_ok st'" if upd: "update_setting en st k r = Inr (p, st')"
  proof -
    obtain old new where "p = (old, new)" by (cases p)
    with upd obtain spec where "spec_of k = Some spec" "coerce spec r = Inr new"
        and st': "st' = write_setting k new st"
      by (auto elim: update_setting_cases)
    then have "\<exists>spec. spec_of k = Some spec \<and> valid_value spec new"
      using coerce_valid by blast
    with assms show ?thesis
      by (auto simp: st' settings_ok_def write_setting_def update_or_create_def set_upd_where)
  qed
  ultimately show ?thesis by blast
qed

theorem settings_stay_valid_example:
  "\<exists>st'. update_setting (\<lambda>_. None) \<lparr>st_rows = [(TRASH_RETENTION_DAYS, IntV 7)], st_cache = None\<rparr>
           ALERT_WARNING_RATIO (RInt 90) = Inr ((IntV 80, IntV 90), st') \<and> settings_ok st'"
proof -
  let ?st = "\<lparr>st_rows = [(TRASH_RETENTION_DAYS, IntV 7)], st_cache = None\<rparr>"
  let ?st' = "\<lparr>st_rows = [(ALERT_WARNING_RATIO, IntV 90), (TRASH_RETENTION_DAYS, IntV 7)], st_cache = None\<rparr>"
  have ok: "settings_ok ?st"
    by (simp add: settings_ok_def spec_of_def settings_registry_def int_spec_def plain_spec_def
        valid_value_def setting_keys)
  have upd: "update_setting (\<lambda>_. None) ?st ALERT_WARNING_RATIO (RInt 90) = Inr ((IntV 80, IntV 90), ?st')"
    by (simp add: update_setting_def setting_get_def spec_of_def settings_registry_def int_spec_def
        plain_spec_def stored_def fallback_def coerce_def coerce_int_def raw_int_def
        update_or_create_def invalidate_cache_def setting_keys)
  from settings_stay_valid [OF ok, where en = "\<lambda>_. None" and k = ALERT_WARNING_RATIO] upd
  show ?thesis by blast
qed

end
