(* ===== verification/Features.thy ===== *)
theory Features
  imports Py_Text
begin

text \<open>
  The registry of sellable features (billing/features.py): the keys declared in code, in the
  order of the registry, the dependency and quota tables between them, and \<open>sanitize\<close>, the
  single filter that keeps an unknown key of the database from doing anything. A feature's
  label and teaser are display texts and are not modelled.
\<close>

definition ASSISTANT :: string where "ASSISTANT = ''assistant''"
definition EXPOSURE_SYNTHESIS :: string where "EXPOSURE_SYNTHESIS = ''exposure_synthesis''"
definition PDF_EXPORT :: string where "PDF_EXPORT = ''pdf_export''"
definition REUSE_CORRELATION :: string where "REUSE_CORRELATION = ''reuse_correlation''"
definition SECRET_REVEAL :: string where "SECRET_REVEAL = ''secret_reveal''"
definition ANSSI_ASSESSMENT :: string where "ANSSI_ASSESSMENT = ''anssi_assessment''"
definition CHARTER_GENERATION :: string where "CHARTER_GENERATION = ''charter_generation''"
definition REALTIME_MONITORING :: string where "REALTIME_MONITORING = ''realtime_monitoring''"
definition WATCHED_ACCOUNTS :: string where "WATCHED_ACCOUNTS = ''watched_accounts''"
definition TRAINING :: string where "TRAINING = ''training''"
definition TRAINING_STUDIO :: string where "TRAINING_STUDIO = ''training_studio''"

lemmas feature_keys =
  ASSISTANT_def EXPOSURE_SYNTHESIS_def PDF_EXPORT_def REUSE_CORRELATION_def SECRET_REVEAL_def
  ANSSI_ASSESSMENT_def CHARTER_GENERATION_def REALTIME_MONITORING_def WATCHED_ACCOUNTS_def
  TRAINING_def TRAINING_STUDIO_def

definition feature_registry :: "string list" where
  "feature_registry =
     [ASSISTANT, EXPOSURE_SYNTHESIS, PDF_EXPORT, REUSE_CORRELATION, SECRET_REVEAL,
      ANSSI_ASSESSMENT, CHARTER_GENERATION, WATCHED_ACCOUNTS, REALTIME_MONITORING,
      TRAINING, TRAINING_STUDIO]"

text \<open>A feature and the features it needs.\<close>

definition DEPEND_DE :: "string \<Rightarrow> string list" where
  "DEPEND_DE k = (if k = TRAINING_STUDIO then [TRAINING] else [])"

datatype quota_attr = Watched_accounts_quota | Monitored_assets_quota

text \<open>A feature and the subscription quota without which each of its actions is refused.\<close>

definition QUOTA_REQUIS :: "(string \<times> quota_attr) list" where
  "QUOTA_REQUIS =
     [(WATCHED_ACCOUNTS, Watched_accounts_quota), (REALTIME_MONITORING, Monitored_assets_quota)]"

definition is_known :: "string \<Rightarrow> bool" where
  "is_known k = (k \<in> set feature_registry)"

definition sanitize :: "string list \<Rightarrow> string list" where
  "sanitize keys = filter (\<lambda>k. k \<in> set keys) feature_registry"

section \<open>Laws\<close>

lemma distinct_registry [simp]: "distinct feature_registry"
  by (simp add: feature_registry_def feature_keys)

lemma set_sanitize: "set (sanitize keys) = set keys \<inter> set feature_registry"
  by (auto simp: sanitize_def)

lemma in_sanitize_iff: "k \<in> set (sanitize keys) \<longleftrightarrow> k \<in> set keys \<and> is_known k"
  by (auto simp: sanitize_def is_known_def)

lemma sanitize_idem [simp]: "sanitize (sanitize keys) = sanitize keys"
  by (auto simp: sanitize_def intro: filter_cong)

lemma distinct_sanitize [simp]: "distinct (sanitize keys)"
  by (simp add: sanitize_def)

lemma sanitize_cong: "set ks = set ls \<Longrightarrow> sanitize ks = sanitize ls"
  by (simp add: sanitize_def)

end
