(* ===== verification/Tables.thy ===== *)
theory Tables
  imports Features
begin

text \<open>
  The rows shared by the billing, tenants and accounts components, one record per Django model,
  and the database they live in. A foreign key is the id it refers to; a table is held in its
  default order (most recent row first for the models ordered by \<open>-created_at\<close>).
  Columns that only time-stamp a row (\<open>created_at\<close>, \<open>updated_at\<close>) are kept where code reads them.
\<close>

section \<open>tenants/models.py\<close>

record tenant =
  te_id :: int
  te_name :: string
  te_slug :: string
  te_sector :: string
  te_headcount :: "int option"
  te_is_active :: bool
  te_ai_enabled :: bool
  te_scan_cooldown_minutes :: "int option"
  te_contact_email :: string
  te_contact_phone :: string
  te_address :: string
  te_website :: string
  te_account_manager :: string
  te_internal_notes :: string
  te_archived_at :: "time option"
  te_archived_by :: "int option"
  te_archive_reason :: string

definition is_archived :: "tenant \<Rightarrow> bool" where
  "is_archived t = (te_archived_at t \<noteq> None)"

datatype role = Admin | Contributor | Reader

record membership =
  me_id :: int
  me_tenant :: int
  me_user :: int
  me_role :: role

section \<open>accounts/models.py\<close>

record user =
  us_id :: int
  us_email :: string
  us_first_name :: string
  us_last_name :: string
  us_is_active :: bool
  us_is_staff :: bool
  us_password :: "string option"

datatype purpose = Invitation | Reset

record invitation =
  in_id :: int
  in_user :: int
  in_purpose :: purpose
  in_token_hash :: string
  in_expires_at :: time
  in_used_at :: "time option"
  in_created_by :: "int option"

definition invitation_is_usable :: "time \<Rightarrow> invitation \<Rightarrow> bool" where
  "invitation_is_usable now i = (in_used_at i = None \<and> now < in_expires_at i)"

section \<open>billing/models.py\<close>

datatype plan_status = Draft | Published | Retired | Internal

record plan =
  pl_id :: int
  pl_code :: string
  pl_name :: string
  pl_tagline :: string
  pl_description :: string
  pl_price_monthly :: int
  pl_price_yearly :: int
  pl_currency :: string
  pl_is_quote_only :: bool
  pl_status :: plan_status
  pl_display_order :: int
  pl_is_highlighted :: bool
  pl_monitored_assets :: int
  pl_monthly_scans :: int
  pl_max_users :: int
  pl_watched_accounts :: int
  pl_monthly_watched_account_scans :: int
  pl_features :: "string list"

definition enabled_features :: "plan \<Rightarrow> string list" where
  "enabled_features p = sanitize (pl_features p)"

definition plan_has_feature :: "plan \<Rightarrow> string \<Rightarrow> bool" where
  "plan_has_feature p k = (k \<in> set (enabled_features p))"

datatype sub_status = Trial | Active | Suspended | Cancelled | Expired

datatype period = Monthly | Yearly

record subscription =
  su_id :: int
  su_tenant :: int
  su_plan :: int
  su_status :: sub_status
  su_period :: period
  su_started_at :: time
  su_trial_ends_at :: "time option"
  su_renews_at :: "time option"
  su_ends_at :: "time option"
  su_override_monitored_assets :: "int option"
  su_override_monthly_scans :: "int option"
  su_override_max_users :: "int option"
  su_override_watched_accounts :: "int option"
  su_override_monthly_watched_account_scans :: "int option"
  su_override_features :: "string list option"
  su_billing_provider :: string
  su_external_customer_ref :: string
  su_external_subscription_ref :: string
  su_internal_notes :: string

text \<open>
  The quota in force: the negotiated value where there is one, the plan's otherwise. The plan is
  the row the foreign key points to.
\<close>

definition or_plan :: "'a option \<Rightarrow> 'a \<Rightarrow> 'a" where
  "or_plan override p = (case override of Some v \<Rightarrow> v | None \<Rightarrow> p)"

definition monitored_assets_quota :: "plan \<Rightarrow> subscription \<Rightarrow> int" where
  "monitored_assets_quota p s = or_plan (su_override_monitored_assets s) (pl_monitored_assets p)"

definition monthly_scans_quota :: "plan \<Rightarrow> subscription \<Rightarrow> int" where
  "monthly_scans_quota p s = or_plan (su_override_monthly_scans s) (pl_monthly_scans p)"

definition watched_accounts_quota :: "plan \<Rightarrow> subscription \<Rightarrow> int" where
  "watched_accounts_quota p s = or_plan (su_override_watched_accounts s) (pl_watched_accounts p)"

definition monthly_watched_account_scans_quota :: "plan \<Rightarrow> subscription \<Rightarrow> int" where
  "monthly_watched_account_scans_quota p s =
     or_plan (su_override_monthly_watched_account_scans s) (pl_monthly_watched_account_scans p)"

definition max_users_quota :: "plan \<Rightarrow> subscription \<Rightarrow> int" where
  "max_users_quota p s = or_plan (su_override_max_users s) (pl_max_users p)"

definition effective_features :: "plan \<Rightarrow> subscription \<Rightarrow> string list" where
  "effective_features p s = sanitize (or_plan (su_override_features s) (pl_features p))"

definition is_operational :: "subscription \<Rightarrow> bool" where
  "is_operational s = (su_status s \<in> {Trial, Active})"

text \<open>
  The reason written in the log: a text given by the caller, cut at 255 characters, or one of the
  sentences the services write by default (with the values they interpolate).
\<close>

datatype reason =
    Given string
  | Trial_opened int
  | Activated | Suspended_by_default | Cancelled_by_default
  | Plan_changed string string
  | Trial_over
  | Trial_end_moved time "time option"
  | Quotas_changed | Features_composed | Features_reset
  | Tenant_archived | Trial_switch

record sub_event =
  ev_subscription :: int
  ev_from_status :: "sub_status option"
  ev_to_status :: sub_status
  ev_from_plan :: string
  ev_to_plan :: string
  ev_reason :: reason
  ev_actor :: "int option"
  ev_created_at :: time

record payment =
  pa_subscription :: int
  pa_amount :: int
  pa_currency :: string
  pa_received_at :: date
  pa_reference :: string
  pa_note :: string
  pa_recorded_by :: "int option"

section \<open>The rows of threat_intelligence the quotas count\<close>

datatype triggered_by = Initial | Manual | By_operator

record ti_usage =
  ui_tenant :: int
  ui_endpoint :: string
  ui_requests_consumed :: int
  ui_remaining_after :: "int option"
  ui_triggered_by :: triggered_by
  ui_findings_created :: int
  ui_created_at :: time

record monitored_asset =
  mo_id :: int
  mo_tenant :: int
  mo_asset :: int
  mo_provider_ref :: string
  mo_provider_asset_type :: string
  mo_is_active :: bool

record watched_account =
  wa_id :: int
  wa_tenant :: int
  wa_value :: string
  wa_label :: string
  wa_category :: string
  wa_legal_basis :: string
  wa_purpose :: string
  wa_declaration_text :: string
  wa_declaration_version :: string
  wa_declared_by :: "int option"
  wa_declared_at :: time
  wa_is_active :: bool
  wa_last_scanned_at :: "time option"
  wa_first_scanned_at :: "time option"
  wa_removed_at :: "time option"
  wa_removed_by :: "int option"
  wa_removal_reason :: string

section \<open>assessments/models.py and platform_admin/models.py: what tenants and administrators refer to\<close>

datatype ref_kind = Open_content | Licensed | Custom

record referential =
  rf_id :: int
  rf_slug :: string
  rf_name :: string
  rf_kind :: ref_kind
  rf_owner_tenant :: "int option"
  rf_is_active :: bool

record assignment =
  as_tenant :: int
  as_referential :: int
  as_granted_by :: "int option"
  as_revoked_at :: "time option"
  as_revoked_by :: "int option"
  as_note :: string

datatype admin_level = Full | Commercial

record admin_profile =
  ap_user :: int
  ap_level :: admin_level
  ap_invited_by :: "int option"

section \<open>The database\<close>

datatype resource = Monitored_slots | Monthly_scans

text \<open>
  \<open>d_alerts\<close> is the part of the cache that remembers the capacity alerts already sent (resource,
  month, threshold in percent), \<open>d_mails\<close> the mails handed to the mail backend; \<open>d_seq\<close> is the
  last primary key given out.
\<close>

record db =
  d_seq :: int
  d_tenants :: "tenant list"
  d_users :: "user list"
  d_memberships :: "membership list"
  d_invitations :: "invitation list"
  d_plans :: "plan list"
  d_subs :: "subscription list"
  d_events :: "sub_event list"
  d_payments :: "payment list"
  d_usages :: "ti_usage list"
  d_monitored :: "monitored_asset list"
  d_watched :: "watched_account list"
  d_referentials :: "referential list"
  d_assignments :: "assignment list"
  d_admins :: "admin_profile list"
  d_alerts :: "(resource \<times> time \<times> int) list"
  d_mails :: "(resource \<times> int \<times> int \<times> int) list"

definition empty_db :: db where
  "empty_db = \<lparr>d_seq = 0, d_tenants = [], d_users = [], d_memberships = [], d_invitations = [],
     d_plans = [], d_subs = [], d_events = [], d_payments = [], d_usages = [], d_monitored = [],
     d_watched = [], d_referentials = [], d_assignments = [], d_admins = [], d_alerts = [], d_mails = []\<rparr>"

text \<open>
  The row a foreign key to the catalogue points to. The database protects the key
  (\<open>on_delete=PROTECT\<close>); \<open>blank_plan\<close> stands for the row that integrity rules out.
\<close>

definition blank_plan :: plan where
  "blank_plan = \<lparr>pl_id = 0, pl_code = '''', pl_name = '''', pl_tagline = '''', pl_description = '''',
     pl_price_monthly = 0, pl_price_yearly = 0, pl_currency = ''EUR'', pl_is_quote_only = False,
     pl_status = Draft, pl_display_order = 0, pl_is_highlighted = False, pl_monitored_assets = 1,
     pl_monthly_scans = 20, pl_max_users = 3, pl_watched_accounts = 0,
     pl_monthly_watched_account_scans = 0, pl_features = []\<rparr>"

definition plan_row :: "plan list \<Rightarrow> int \<Rightarrow> plan" where
  "plan_row ps pid = (case find (\<lambda>p. pl_id p = pid) ps of Some p \<Rightarrow> p | None \<Rightarrow> blank_plan)"

definition plan_of :: "db \<Rightarrow> subscription \<Rightarrow> plan" where
  "plan_of d s = plan_row (d_plans d) (su_plan s)"

definition get_subscription :: "db \<Rightarrow> int \<Rightarrow> subscription option" where
  "get_subscription d t = find (\<lambda>s. su_tenant s = t) (d_subs d)"

text \<open>
  What the database guarantees by its own constraints: primary keys are unique and at most the
  last one given out, a tenant has one subscription, plan codes are unique and every foreign key
  to the catalogue points to a row.
\<close>

definition integrity :: "db \<Rightarrow> bool" where
  "integrity d =
     (distinct (map su_id (d_subs d)) \<and> distinct (map su_tenant (d_subs d)) \<and>
      distinct (map pl_id (d_plans d)) \<and> distinct (map pl_code (d_plans d)) \<and>
      su_plan ` set (d_subs d) \<subseteq> pl_id ` set (d_plans d) \<and>
      (\<forall>s \<in> set (d_subs d). su_id s \<le> d_seq d) \<and>
      (\<forall>p \<in> set (d_plans d). pl_id p \<le> d_seq d) \<and>
      ev_subscription ` set (d_events d) \<subseteq> su_id ` set (d_subs d))"

lemma integrityD:
  assumes "integrity d"
  shows "distinct (map su_id (d_subs d))" and "distinct (map su_tenant (d_subs d))"
    and "distinct (map pl_id (d_plans d))" and "distinct (map pl_code (d_plans d))"
    and "\<And>s. s \<in> set (d_subs d) \<Longrightarrow> su_plan s \<in> pl_id ` set (d_plans d)"
    and "\<And>s. s \<in> set (d_subs d) \<Longrightarrow> su_id s \<le> d_seq d"
    and "\<And>p. p \<in> set (d_plans d) \<Longrightarrow> pl_id p \<le> d_seq d"
    and "\<And>e. e \<in> set (d_events d) \<Longrightarrow> ev_subscription e \<in> su_id ` set (d_subs d)"
  using assms by (auto simp: integrity_def)

lemma plan_row_in:
  assumes "distinct (map pl_id ps)" and "p \<in> set ps"
  shows "plan_row ps (pl_id p) = p"
  using find_key [OF assms] by (simp add: plan_row_def)

lemma plan_row_ex:
  "pid \<in> pl_id ` set ps \<Longrightarrow> plan_row ps pid \<in> set ps \<and> pl_id (plan_row ps pid) = pid"
proof -
  assume "pid \<in> pl_id ` set ps"
  then have "find (\<lambda>p. pl_id p = pid) ps \<noteq> None" by (auto simp: find_None_iff)
  then obtain p where "find (\<lambda>p. pl_id p = pid) ps = Some p" by blast
  with find_SomeD [OF this] show ?thesis by (simp add: plan_row_def)
qed

lemma plan_row_map:
  assumes "\<And>p. pl_id (f p) = pl_id p"
  shows "plan_row (map f ps) pid = (if pid \<in> pl_id ` set ps then f (plan_row ps pid) else blank_plan)"
proof -
  have "find (\<lambda>p. pl_id p = pid) (map f ps) = map_option f (find (\<lambda>p. pl_id p = pid) ps)"
    by (induction ps) (auto simp: assms)
  moreover have "find (\<lambda>p. pl_id p = pid) ps = None \<longleftrightarrow> pid \<notin> pl_id ` set ps"
    by (auto simp: find_None_iff)
  ultimately show ?thesis by (auto simp: plan_row_def split: option.split)
qed

end
