(* ===== verification/Capacity.thy ===== *)
theory Capacity
  imports Settings Tables
begin

text \<open>
  The scarce resources of the platform (billing/capacity.py): the slots of continuous monitoring
  and the monthly scan budget are caps on the whole platform, and every operation that engages
  them asks \<open>ensure_monitored_slots_available\<close> before it writes. Ratios are exact rationals; a
  threshold is kept in percent, as the console stores it. The interface \<open>slot_guard\<close> is what the
  billing services rely on.
\<close>

datatype composition_problem = Missing_dependency string string | Missing_quota string quota_attr

datatype billing_error =
    Bad_setting string
  | Slots_exceeded int int int
  | Scan_budget_exceeded int int int
  | Already_subscribed
  | No_plan_available
  | Not_in_trial
  | Composition "composition_problem list"
  | Code_taken string
  | Plan_in_use nat

text \<open>What a call sees of its surroundings: the clock, the settings and the mail backend.\<close>

record env =
  e_now :: time
  e_settings :: settings_store
  e_environ :: environ
  e_trial_days :: int
  e_trial_plan_code :: string
  e_alert_email :: string
  e_mail_ok :: "resource \<Rightarrow> int \<Rightarrow> bool"

text \<open>\<open>int(settings_registry.get(key))\<close>: a value that is no integer raises.\<close>

definition int_setting :: "env \<Rightarrow> string \<Rightarrow> billing_error + int" where
  "int_setting e k =
     (case setting_value (e_environ e) (e_settings e) k of
        Some (IntV n) \<Rightarrow> Inr n
      | Some (BoolV b) \<Rightarrow> Inr (if b then 1 else 0)
      | Some (TextV s) \<Rightarrow> (case py_int s of Some n \<Rightarrow> Inr n | None \<Rightarrow> Inl (Bad_setting k))
      | _ \<Rightarrow> Inl (Bad_setting k))"

text \<open>The two ratios as a sorted tuple without duplicates.\<close>

definition alert_thresholds :: "env \<Rightarrow> billing_error + int list" where
  "alert_thresholds e =
     rbind (int_setting e ALERT_WARNING_RATIO) (\<lambda>w.
     rbind (int_setting e ALERT_CRITICAL_RATIO) (\<lambda>c.
       Inr (if w = c then [w] else if w < c then [w, c] else [c, w])))"

record resource_usage =
  ru_resource :: resource
  ru_used :: int
  ru_capacity :: int

definition ru_remaining :: "resource_usage \<Rightarrow> int" where
  "ru_remaining u = max 0 (ru_capacity u - ru_used u)"

definition ru_ratio :: "resource_usage \<Rightarrow> rat" where
  "ru_ratio u = (if ru_capacity u = 0 then 0 else of_int (ru_used u) / of_int (ru_capacity u))"

definition monitored_slot_capacity :: "env \<Rightarrow> billing_error + int" where
  "monitored_slot_capacity e = int_setting e MONITORED_SLOT_POOL"

definition monthly_scan_capacity :: "env \<Rightarrow> billing_error + int" where
  "monthly_scan_capacity e = int_setting e MONTHLY_SCAN_CAP"

definition monitored_slots_used :: "db \<Rightarrow> int" where
  "monitored_slots_used d = int (length (filter mo_is_active (d_monitored d)))"

definition projected_monitored_slots :: "db \<Rightarrow> int \<Rightarrow> int option \<Rightarrow> int" where
  "projected_monitored_slots d additional excluding =
     sum_list (map (\<lambda>s. monitored_assets_quota (plan_of d s) s)
       (filter (\<lambda>s. is_operational s \<and> excluding \<noteq> Some (su_id s)) (d_subs d))) + additional"

definition monitored_slots_committed :: "db \<Rightarrow> int" where
  "monitored_slots_committed d = projected_monitored_slots d 0 None"

definition platform_scans_used :: "env \<Rightarrow> db \<Rightarrow> int" where
  "platform_scans_used e d =
     sum_list (map ui_requests_consumed
       (filter (\<lambda>u. month_start (e_now e) \<le> ui_created_at u) (d_usages d)))"

definition snapshot :: "env \<Rightarrow> db \<Rightarrow> billing_error + resource_usage list" where
  "snapshot e d =
     rbind (monitored_slot_capacity e) (\<lambda>slots.
     rbind (monthly_scan_capacity e) (\<lambda>scans.
       Inr [\<lparr>ru_resource = Monitored_slots, ru_used = monitored_slots_committed d,
             ru_capacity = slots\<rparr>,
            \<lparr>ru_resource = Monthly_scans, ru_used = platform_scans_used e d,
             ru_capacity = scans\<rparr>]))"

definition ensure_monitored_slots_available ::
  "env \<Rightarrow> db \<Rightarrow> int \<Rightarrow> int option \<Rightarrow> billing_error + unit" where
  "ensure_monitored_slots_available e d additional excluding =
     (if additional \<le> 0 then Inr ()
      else rbind (monitored_slot_capacity e) (\<lambda>capacity.
        let projected = projected_monitored_slots d additional excluding
        in if capacity < projected
           then Inl (Slots_exceeded projected capacity (max 0 (capacity - (projected - additional))))
           else Inr ()))"

definition ensure_scan_budget_available :: "env \<Rightarrow> db \<Rightarrow> int \<Rightarrow> billing_error + unit" where
  "ensure_scan_budget_available e d additional =
     (if additional \<le> 0 then Inr ()
      else rbind (monthly_scan_capacity e) (\<lambda>capacity.
        let used = platform_scans_used e d
        in if capacity < used + additional
           then Inl (Scan_budget_exceeded used capacity (max 0 (capacity - used)))
           else Inr ()))"

text \<open>
  One resource against one threshold: below it, already told this month, or told now; a mail the
  backend refuses is logged and tried again at the next call.
\<close>

definition alert_one ::
  "env \<Rightarrow> resource_usage \<Rightarrow> int \<Rightarrow> db \<times> (resource \<times> int) list \<Rightarrow> db \<times> (resource \<times> int) list" where
  "alert_one e u n acc =
     (case acc of (d, sent) \<Rightarrow>
       let key = (ru_resource u, month_start (e_now e), n)
       in if ru_ratio u < of_int n / 100 then (d, sent)
          else if key \<in> set (d_alerts d) then (d, sent)
          else if e_mail_ok e (ru_resource u) n
          then (d\<lparr>d_mails := (ru_resource u, \<lfloor>ru_ratio u * 100\<rfloor>, ru_used u, ru_capacity u) # d_mails d,
                  d_alerts := key # d_alerts d\<rparr>,
                sent @ [(ru_resource u, n)])
          else (d, sent))"

definition check_alert_thresholds :: "env \<Rightarrow> db \<Rightarrow> billing_error + (resource \<times> int) list \<times> db" where
  "check_alert_thresholds e d =
     (if e_alert_email e = '''' then Inr ([], d)
      else rbind (snapshot e d) (\<lambda>usages.
        rbind (alert_thresholds e) (\<lambda>ts.
          case fold (\<lambda>(u, n). alert_one e u n) (List.product usages ts) (d, []) of
            (d', sent) \<Rightarrow> Inr (sent, d'))))"

section \<open>The interface of the guard\<close>

text \<open>
  \<open>engaged d\<close> is what the contracts in force engage, \<open>engaged_but d i\<close> the same without the
  subscription \<open>i\<close>. A guard that lets an addition pass promises that the addition fits; the
  lemmas are what an operation needs to keep the engagement within the cap.
\<close>

locale slot_guard =
  fixes guard :: "'d \<Rightarrow> int \<Rightarrow> int option \<Rightarrow> 'e + unit"
    and engaged :: "'d \<Rightarrow> int"
    and engaged_but :: "'d \<Rightarrow> int \<Rightarrow> int"
    and cap :: "int"
  assumes guard_new: "guard d n None = Inr u \<Longrightarrow> 0 < n \<Longrightarrow> engaged d + n \<le> cap"
    and guard_swap: "guard d n (Some i) = Inr u \<Longrightarrow> 0 < n \<Longrightarrow> engaged_but d i + n \<le> cap"
begin

lemma add_within:
  assumes "engaged d \<le> cap" and "guard d n None = Inr u" and "engaged d' \<le> engaged d + n"
  shows "engaged d' \<le> cap"
  using assms guard_new [of d n u] by (cases "0 < n") auto

lemma swap_within:
  assumes "engaged d \<le> cap" and "guard d n (Some i) = Inr u"
    and "engaged_but d i \<le> engaged d" and "engaged d' \<le> engaged_but d i + n"
  shows "engaged d' \<le> cap"
  using assms guard_swap [of d n i u] by (cases "0 < n") auto

lemma shrink_within: "engaged d \<le> cap \<Longrightarrow> engaged d' \<le> engaged d \<Longrightarrow> engaged d' \<le> cap"
  by simp

end

lemma projected_additional:
  "projected_monitored_slots d n ex = projected_monitored_slots d 0 ex + n"
  by (simp add: projected_monitored_slots_def)

lemma ensure_slots_ok:
  "ensure_monitored_slots_available e d n ex = Inr u \<Longrightarrow> monitored_slot_capacity e = Inr c \<Longrightarrow>
   0 < n \<Longrightarrow> projected_monitored_slots d n ex \<le> c"
  by (auto simp: ensure_monitored_slots_available_def Let_def split: if_splits)

text \<open>The guard of the code, at a platform whose cap is \<open>c\<close>.\<close>

definition guard_at :: "int \<Rightarrow> db \<Rightarrow> int \<Rightarrow> int option \<Rightarrow> (int \<times> int) + unit" where
  "guard_at c d n ex =
     (if 0 < n \<and> c < projected_monitored_slots d n ex
      then Inl (projected_monitored_slots d n ex, c) else Inr ())"

lemma ensure_slots_guard_at:
  "monitored_slot_capacity e = Inr c \<Longrightarrow>
   ensure_monitored_slots_available e d n ex = Inr () \<longleftrightarrow> guard_at c d n ex = Inr ()"
  by (auto simp: ensure_monitored_slots_available_def guard_at_def Let_def)

interpretation pool: slot_guard "guard_at c" monitored_slots_committed
  "\<lambda>d i. projected_monitored_slots d 0 (Some i)" c for c
proof unfold_locales
  fix d n u
  assume "guard_at c d n None = Inr u" "0 < n"
  then show "monitored_slots_committed d + n \<le> c"
    using projected_additional [of d n None]
    by (simp add: guard_at_def monitored_slots_committed_def split: if_splits)
next
  fix d n i u
  assume "guard_at c d n (Some i) = Inr u" "0 < n"
  then show "projected_monitored_slots d 0 (Some i) + n \<le> c"
    using projected_additional [of d n "Some i"] by (simp add: guard_at_def split: if_splits)
qed

section \<open>Alerts\<close>

text \<open>Two databases that differ in the sent mails and their memory at most.\<close>

definition alerts_only :: "db \<Rightarrow> db \<Rightarrow> bool" where
  "alerts_only d d' = (d'\<lparr>d_mails := [], d_alerts := []\<rparr> = d\<lparr>d_mails := [], d_alerts := []\<rparr>)"

lemma alerts_only_refl [simp]: "alerts_only d d"
  by (simp add: alerts_only_def)

lemma alerts_only_trans: "alerts_only d d1 \<Longrightarrow> alerts_only d1 d2 \<Longrightarrow> alerts_only d d2"
  by (simp add: alerts_only_def)

lemma alerts_onlyD [frame]:
  assumes "alerts_only d d'"
  shows "d_subs d' = d_subs d" and "d_plans d' = d_plans d" and "d_events d' = d_events d"
    and "d_tenants d' = d_tenants d" and "d_seq d' = d_seq d" and "d_users d' = d_users d"
    and "d_memberships d' = d_memberships d" and "d_invitations d' = d_invitations d"
    and "d_payments d' = d_payments d" and "d_usages d' = d_usages d"
    and "d_monitored d' = d_monitored d" and "d_watched d' = d_watched d"
    and "d_referentials d' = d_referentials d" and "d_assignments d' = d_assignments d"
    and "d_admins d' = d_admins d"
  using assms unfolding alerts_only_def by (cases d; cases d'; simp)+

lemma alert_one_frame: "alerts_only d (fst (alert_one e u n (d, sent)))"
  by (simp add: alert_one_def alerts_only_def Let_def)

lemma alerts_frame: "alerts_only d (fst (fold (\<lambda>(u, n). alert_one e u n) xs (d, sent)))"
proof (induction xs arbitrary: d sent)
  case Nil
  then show ?case by simp
next
  case (Cons x xs)
  obtain u n where x: "x = (u, n)" by (cases x)
  obtain d1 s1 where d1: "alert_one e u n (d, sent) = (d1, s1)" by (cases "alert_one e u n (d, sent)")
  with alert_one_frame [of d e u n sent] Cons.IH [of d1 s1] show ?case
    by (auto simp: x intro: alerts_only_trans)
qed

lemma check_alerts_cases [ok_cases]:
  assumes "check_alert_thresholds e d = Inr (sent, d')"
  obtains "d' = d" and "sent = []"
    | us ts where "fold (\<lambda>(u, n). alert_one e u n) (List.product us ts) (d, []) = (d', sent)"
proof (cases "e_alert_email e = ''''")
  case True
  with assms that(1) show ?thesis by (simp add: check_alert_thresholds_def)
next
  case False
  with assms obtain us ts where
    "(case fold (\<lambda>(u, n). alert_one e u n) (List.product us ts) (d, []) of
        (d', sent) \<Rightarrow> Inr (sent, d')) = (Inr (sent, d') :: billing_error + _)"
    by (auto simp: check_alert_thresholds_def rbind_Inr_iff)
  then show ?thesis
    by (cases "fold (\<lambda>(u, n). alert_one e u n) (List.product us ts) (d, [])") (simp add: that(2))
qed

text \<open>The alerts touch nothing but their memory and the mailbox.\<close>

lemma check_alerts_frame: "check_alert_thresholds e d = Inr (sent, d') \<Longrightarrow> alerts_only d d'"
  by (erule check_alerts_cases) (simp, metis alerts_frame fst_conv)

lemma projected_cong:
  "d_subs d' = d_subs d \<Longrightarrow> d_plans d' = d_plans d \<Longrightarrow>
   projected_monitored_slots d' n ex = projected_monitored_slots d n ex"
  by (simp add: projected_monitored_slots_def plan_of_def)

lemma alert_one_distinct:
  "distinct (d_alerts d) \<Longrightarrow> alert_one e u n (d, sent) = (d', sent') \<Longrightarrow> distinct (d_alerts d')"
  by (auto simp: alert_one_def Let_def split: if_splits)

lemma alert_one_count:
  "alert_one e u n (d, sent) = (d', sent') \<Longrightarrow>
   length (d_mails d') + length (d_alerts d) = length (d_mails d) + length (d_alerts d')"
  by (auto simp: alert_one_def Let_def split: if_splits)

lemma alerts_fold_inv:
  "fold (\<lambda>(u, n). alert_one e u n) xs (d, sent) = (d', sent') \<Longrightarrow> distinct (d_alerts d) \<Longrightarrow>
   distinct (d_alerts d') \<and>
   length (d_mails d') + length (d_alerts d) = length (d_mails d) + length (d_alerts d')"
proof (induction xs arbitrary: d sent)
  case Nil
  then show ?case by simp
next
  case (Cons x xs)
  obtain u n where x: "x = (u, n)" by (cases x)
  obtain d1 s1 where d1: "alert_one e u n (d, sent) = (d1, s1)" by (cases "alert_one e u n (d, sent)")
  from Cons.prems x d1 have "fold (\<lambda>(u, n). alert_one e u n) xs (d1, s1) = (d', sent')" by simp
  from Cons.IH [OF this] alert_one_distinct [OF Cons.prems(2) d1] alert_one_count [OF d1]
  show ?case by linarith
qed

section \<open>Properties\<close>

text \<open>
  One alert per resource, threshold and month: however often the thresholds are checked, the
  memory of sent alerts holds no key twice, and the number of mails sent is exactly the number of
  keys remembered since.
\<close>

theorem alerts_sent_once:
  assumes "distinct (d_alerts d)" and "check_alert_thresholds e d = Inr (sent, d')"
  shows "distinct (d_alerts d') \<and>
         length (d_mails d') - length (d_mails d) = length (d_alerts d') - length (d_alerts d)"
proof -
  show ?thesis
    using assms(2)
  proof (rule check_alerts_cases)
    assume "d' = d"
    with assms(1) show ?thesis by simp
  next
    fix us ts
    assume "fold (\<lambda>(u, n). alert_one e u n) (List.product us ts) (d, []) = (d', sent)"
    from alerts_fold_inv [OF this assms(1)] show ?thesis by linarith
  qed
qed

theorem alerts_sent_once_example:
  "\<exists>e d sent d'. check_alert_thresholds e d = Inr (sent, d') \<and> distinct (d_alerts d') \<and>
     length (d_mails d') = 2"
proof -
  let ?e = "\<lparr>e_now = 0, e_settings = \<lparr>st_rows = [], st_cache = None\<rparr>, e_environ = (\<lambda>_. Some (IntV 3)),
     e_trial_days = 14, e_trial_plan_code = '''', e_alert_email = ''ops'', e_mail_ok = (\<lambda>_ _. True)\<rparr>"
  let ?d = "empty_db\<lparr>d_usages := [\<lparr>ui_tenant = 1, ui_endpoint = '''', ui_requests_consumed = 5,
     ui_remaining_after = None, ui_triggered_by = Initial, ui_findings_created = 0, ui_created_at = 0\<rparr>]\<rparr>"
  have set: "int_setting ?e MONITORED_SLOT_POOL = Inr 3" "int_setting ?e MONTHLY_SCAN_CAP = Inr 3"
    "int_setting ?e ALERT_WARNING_RATIO = Inr 80" "int_setting ?e ALERT_CRITICAL_RATIO = Inr 95"
    by (simp_all add: int_setting_def setting_value_def setting_get_def stored_def fallback_def
      spec_of_def settings_registry_def int_spec_def plain_spec_def setting_keys)
  have ok: "\<exists>d'. check_alert_thresholds ?e ?d = Inr ([(Monthly_scans, 80), (Monthly_scans, 95)], d') \<and> length (d_mails d') = 2"
    using month_start_le [of 0]
    by (simp add: check_alert_thresholds_def snapshot_def monitored_slot_capacity_def
      monthly_scan_capacity_def alert_thresholds_def set alert_one_def ru_ratio_def
      monitored_slots_committed_def projected_monitored_slots_def platform_scans_used_def
      empty_db_def)
  then obtain d' where d': "check_alert_thresholds ?e ?d = Inr ([(Monthly_scans, 80), (Monthly_scans, 95)], d')"
    "length (d_mails d') = 2" by blast
  have "distinct (d_alerts d')"
    using alerts_sent_once [OF _ d'(1)] by (simp add: empty_db_def)
  with d' show ?thesis by blast
qed

end
