(* ===== verification/Entitlements.thy ===== *)
theory Entitlements
  imports Capacity "HOL-Library.Product_Lexorder"
begin

text \<open>
  The single point of authorisation by feature and by quota (billing/entitlements.py). A refusal
  is a value: a feature outside the offer (with the cheapest published offer that has it), no
  subscription, a subscription no longer operational, a quota used up. The five quota guards share
  the interface \<open>quota_gate\<close>; they differ in what they count and in what a quota of 0 means.
\<close>

datatype entitlement_error =
    Feature_missing string "string option"
  | No_subscription
  | Not_operational sub_status
  | Quota_used_up int
  | No_slot_in_offer
  | User_quota string int int int

definition cheapest_plan_with :: "db \<Rightarrow> string \<Rightarrow> plan option" where
  "cheapest_plan_with d k =
     (let published = filter (\<lambda>p. plan_has_feature p k)
            (sort_key (\<lambda>p. (pl_price_monthly p, pl_display_order p))
              (filter (\<lambda>p. pl_status p = Published) (d_plans d)));
          priced = filter (\<lambda>p. \<not> pl_is_quote_only p) published
      in case (if priced \<noteq> [] then priced else published) of [] \<Rightarrow> None | p # _ \<Rightarrow> Some p)"

definition has_feature :: "db \<Rightarrow> int \<Rightarrow> string \<Rightarrow> bool" where
  "has_feature d t k =
     (case get_subscription d t of
        None \<Rightarrow> False
      | Some s \<Rightarrow> k \<in> set (effective_features (plan_of d s) s))"

definition ensure_feature :: "db \<Rightarrow> int \<Rightarrow> string \<Rightarrow> entitlement_error + unit" where
  "ensure_feature d t k =
     (if has_feature d t k then Inr ()
      else Inl (Feature_missing k (map_option pl_name (cheapest_plan_with d k))))"

definition ensure_operational :: "db \<Rightarrow> int \<Rightarrow> entitlement_error + unit" where
  "ensure_operational d t =
     (case get_subscription d t of
        None \<Rightarrow> Inl No_subscription
      | Some s \<Rightarrow> if is_operational s then Inr () else Inl (Not_operational (su_status s)))"

definition WATCHED_ACCOUNT_ENDPOINT :: string where "WATCHED_ACCOUNT_ENDPOINT = ''watched_account''"

definition monthly_scans_used :: "time \<Rightarrow> db \<Rightarrow> int \<Rightarrow> int" where
  "monthly_scans_used now d t =
     int (length (filter (\<lambda>u. ui_tenant u = t \<and> month_start now \<le> ui_created_at u \<and>
       ui_endpoint u \<noteq> WATCHED_ACCOUNT_ENDPOINT) (d_usages d)))"

definition watched_account_scans_used :: "time \<Rightarrow> db \<Rightarrow> int \<Rightarrow> int" where
  "watched_account_scans_used now d t =
     int (length (filter (\<lambda>u. ui_tenant u = t \<and> ui_endpoint u = WATCHED_ACCOUNT_ENDPOINT \<and>
       month_start now \<le> ui_created_at u) (d_usages d)))"

definition watched_accounts_used :: "db \<Rightarrow> int \<Rightarrow> int" where
  "watched_accounts_used d t =
     int (length (filter (\<lambda>w. wa_tenant w = t \<and> wa_is_active w) (d_watched d)))"

definition monitored_assets_used :: "db \<Rightarrow> int \<Rightarrow> int" where
  "monitored_assets_used d t =
     int (length (filter (\<lambda>m. mo_tenant m = t \<and> mo_is_active m) (d_monitored d)))"

definition member_count :: "db \<Rightarrow> int \<Rightarrow> int" where
  "member_count d t = int (length (filter (\<lambda>m. me_tenant m = t) (d_memberships d)))"

definition ensure_scan_quota :: "time \<Rightarrow> db \<Rightarrow> int \<Rightarrow> entitlement_error + unit" where
  "ensure_scan_quota now d t =
     (case get_subscription d t of
        None \<Rightarrow> Inl No_subscription
      | Some s \<Rightarrow>
          (let quota = monthly_scans_quota (plan_of d s) s
           in if quota = 0 then Inr ()
              else if quota \<le> monthly_scans_used now d t then Inl (Quota_used_up quota)
              else Inr ()))"

definition ensure_watched_account_quota :: "db \<Rightarrow> int \<Rightarrow> entitlement_error + unit" where
  "ensure_watched_account_quota d t =
     (case get_subscription d t of
        None \<Rightarrow> Inl No_subscription
      | Some s \<Rightarrow>
          (let quota = watched_accounts_quota (plan_of d s) s
           in if quota = 0 then Inl No_slot_in_offer
              else if quota \<le> watched_accounts_used d t then Inl (Quota_used_up quota)
              else Inr ()))"

definition ensure_watched_account_scan_quota :: "time \<Rightarrow> db \<Rightarrow> int \<Rightarrow> entitlement_error + unit" where
  "ensure_watched_account_scan_quota now d t =
     (case get_subscription d t of
        None \<Rightarrow> Inl No_subscription
      | Some s \<Rightarrow>
          (let quota = monthly_watched_account_scans_quota (plan_of d s) s
           in if quota = 0 then Inl No_slot_in_offer
              else if quota \<le> watched_account_scans_used now d t then Inl (Quota_used_up quota)
              else Inr ()))"

definition ensure_monitored_asset_quota :: "db \<Rightarrow> int \<Rightarrow> entitlement_error + unit" where
  "ensure_monitored_asset_quota d t =
     (case get_subscription d t of
        None \<Rightarrow> Inl No_subscription
      | Some s \<Rightarrow>
          (let quota = monitored_assets_quota (plan_of d s) s
           in if quota \<noteq> 0 \<and> quota \<le> monitored_assets_used d t then Inl (Quota_used_up quota)
              else Inr ()))"

definition user_limit_reached :: "db \<Rightarrow> int \<Rightarrow> bool" where
  "user_limit_reached d t =
     (case get_subscription d t of
        None \<Rightarrow> True
      | Some s \<Rightarrow>
          (let quota = max_users_quota (plan_of d s) s
           in if quota = 0 then False else quota \<le> member_count d t))"

definition ensure_user_quota :: "db \<Rightarrow> int \<Rightarrow> int \<Rightarrow> entitlement_error + unit" where
  "ensure_user_quota d t additional =
     (case get_subscription d t of
        None \<Rightarrow> Inl No_subscription
      | Some s \<Rightarrow>
          (let quota = max_users_quota (plan_of d s) s; current = member_count d t
           in if quota = 0 then Inr ()
              else if quota < current + additional
              then Inl (User_quota (pl_name (plan_of d s)) quota current (max 0 (quota - current)))
              else Inr ()))"

text \<open>What the interface shows of every feature of the registry, and of the quotas.\<close>

datatype feature_source = From_plan | From_override

record feature_row =
  fr_key :: string
  fr_included :: bool
  fr_required_plan :: string
  fr_source :: feature_source

definition summary_row :: "db \<Rightarrow> subscription option \<Rightarrow> string \<Rightarrow> feature_row" where
  "summary_row d so k =
     (let included = (case so of Some s \<Rightarrow> set (effective_features (plan_of d s) s) | None \<Rightarrow> {});
          du_plan = (case so of Some s \<Rightarrow> set (sanitize (pl_features (plan_of d s))) | None \<Rightarrow> {});
          compose = (case so of Some s \<Rightarrow> su_override_features s \<noteq> None | None \<Rightarrow> False)
      in if k \<in> included
         then \<lparr>fr_key = k, fr_included = True, fr_required_plan = '''',
               fr_source = (if compose \<and> k \<notin> du_plan then From_override else From_plan)\<rparr>
         else \<lparr>fr_key = k, fr_included = False,
               fr_required_plan = (case cheapest_plan_with d k of Some p \<Rightarrow> pl_name p | None \<Rightarrow> ''''),
               fr_source = (if compose \<and> k \<in> du_plan then From_override else From_plan)\<rparr>)"

record quota_row =
  qr_quota :: int
  qr_used :: int

record entitlement_summary =
  es_subscription :: "(string \<times> string \<times> sub_status \<times> bool \<times> time option \<times> time option) option"
  es_quotas :: "quota_row list"
  es_features :: "feature_row list"

definition summary :: "time \<Rightarrow> db \<Rightarrow> int \<Rightarrow> entitlement_summary" where
  "summary now d t =
     (let so = get_subscription d t; rows = map (summary_row d so) feature_registry
      in case so of
           None \<Rightarrow> \<lparr>es_subscription = None, es_quotas = [], es_features = rows\<rparr>
         | Some s \<Rightarrow>
             (let p = plan_of d s
              in \<lparr>es_subscription = Some (pl_name p, pl_code p, su_status s, is_operational s,
                    su_trial_ends_at s, su_renews_at s),
                  es_quotas =
                    [\<lparr>qr_quota = monitored_assets_quota p s, qr_used = monitored_assets_used d t\<rparr>,
                     \<lparr>qr_quota = monthly_scans_quota p s, qr_used = monthly_scans_used now d t\<rparr>,
                     \<lparr>qr_quota = watched_accounts_quota p s, qr_used = watched_accounts_used d t\<rparr>,
                     \<lparr>qr_quota = monthly_watched_account_scans_quota p s,
                      qr_used = watched_account_scans_used now d t\<rparr>],
                  es_features = rows\<rparr>))"

section \<open>The interface of a quota guard\<close>

locale quota_gate =
  fixes gate :: "'d \<Rightarrow> 't \<Rightarrow> 'e + unit"
    and quota :: "'d \<Rightarrow> 't \<Rightarrow> int option"
    and used :: "'d \<Rightarrow> 't \<Rightarrow> int"
    and zero_is_unlimited :: bool
    and step :: int
  assumes gate_iff: "gate d t = Inr () \<longleftrightarrow>
    (\<exists>q. quota d t = Some q \<and> (if q = 0 then zero_is_unlimited else used d t + step \<le> q))"
begin

lemma needs_subscription: "quota d t = None \<Longrightarrow> gate d t \<noteq> Inr ()"
  by (simp add: gate_iff)

lemma stays_within:
  assumes "gate d t = Inr ()" and "quota d' t = quota d t" and "used d' t \<le> used d t + step"
  shows "\<exists>q. quota d' t = Some q \<and> (q = 0 \<or> used d' t \<le> q)"
  using assms by (auto simp: gate_iff split: if_splits)

lemma refuses_when_full:
  "quota d t = Some q \<Longrightarrow> q \<noteq> 0 \<Longrightarrow> q < used d t + step \<Longrightarrow> gate d t \<noteq> Inr ()"
  by (auto simp: gate_iff)

end

definition quota_of :: "(plan \<Rightarrow> subscription \<Rightarrow> int) \<Rightarrow> db \<Rightarrow> int \<Rightarrow> int option" where
  "quota_of q d t = map_option (\<lambda>s. q (plan_of d s) s) (get_subscription d t)"

interpretation scans: quota_gate "ensure_scan_quota now" "quota_of monthly_scans_quota"
  "monthly_scans_used now" True 1 for now
proof (unfold_locales, goal_cases)
  case (1 d t)
  show ?case
    by (cases "get_subscription d t") (simp_all add: ensure_scan_quota_def quota_of_def Let_def, linarith?)
qed

interpretation watched: quota_gate ensure_watched_account_quota "quota_of watched_accounts_quota"
  watched_accounts_used False 1
proof (unfold_locales, goal_cases)
  case (1 d t)
  show ?case
    by (cases "get_subscription d t") (simp_all add: ensure_watched_account_quota_def quota_of_def Let_def, linarith?)
qed

interpretation watched_scans: quota_gate "ensure_watched_account_scan_quota now"
  "quota_of monthly_watched_account_scans_quota" "watched_account_scans_used now" False 1 for now
proof (unfold_locales, goal_cases)
  case (1 d t)
  show ?case
    by (cases "get_subscription d t") (simp_all add: ensure_watched_account_scan_quota_def quota_of_def Let_def, linarith?)
qed

interpretation monitored: quota_gate ensure_monitored_asset_quota "quota_of monitored_assets_quota"
  monitored_assets_used True 1
proof (unfold_locales, goal_cases)
  case (1 d t)
  show ?case
    by (cases "get_subscription d t") (simp_all add: ensure_monitored_asset_quota_def quota_of_def Let_def, linarith?)
qed

interpretation users: quota_gate "\<lambda>d t. ensure_user_quota d t n" "quota_of max_users_quota"
  member_count True n for n
proof (unfold_locales, goal_cases)
  case (1 d t)
  show ?case
    by (cases "get_subscription d t") (simp_all add: ensure_user_quota_def quota_of_def Let_def, linarith?)
qed

section \<open>Lemmas\<close>

lemma has_feature_known: "has_feature d t k \<Longrightarrow> is_known k"
  by (auto simp: has_feature_def effective_features_def in_sanitize_iff split: option.splits)

lemma hd_filter_sorted:
  fixes f :: "'a \<Rightarrow> 'b :: linorder"
  assumes "sorted (map f xs)" and "filter p xs = y # ys"
  shows "y \<in> set xs \<and> p y \<and> (\<forall>x \<in> set xs. p x \<longrightarrow> f y \<le> f x)"
proof -
  have "sorted (map f (filter p xs))" using assms(1) by (rule sorted_filter)
  with assms(2) have "\<forall>x \<in> set (filter p xs). f y \<le> f x" by auto
  moreover have "y \<in> set (filter p xs)" by (simp add: assms(2))
  ultimately show ?thesis by auto
qed

definition offers :: "db \<Rightarrow> string \<Rightarrow> plan \<Rightarrow> bool" where
  "offers d k p = (p \<in> set (d_plans d) \<and> pl_status p = Published \<and> plan_has_feature p k)"

lemma cheapest_plan_SomeD:
  assumes "cheapest_plan_with d k = Some p"
  shows "offers d k p \<and>
    (\<forall>q. offers d k q \<and> \<not> pl_is_quote_only q \<longrightarrow>
       \<not> pl_is_quote_only p \<and> pl_price_monthly p \<le> pl_price_monthly q)"
proof -
  let ?f = "\<lambda>p. (pl_price_monthly p, pl_display_order p)"
  let ?xs = "sort_key ?f (filter (\<lambda>p. pl_status p = Published) (d_plans d))"
  let ?pub = "filter (\<lambda>p. plan_has_feature p k) ?xs"
  let ?priced = "filter (\<lambda>p. \<not> pl_is_quote_only p) ?pub"
  have off: "q \<in> set ?pub \<longleftrightarrow> offers d k q" for q by (auto simp: offers_def)
  have srt: "sorted (map ?f ?pub)" by (rule sorted_filter) simp
  show ?thesis
  proof (cases "?priced = []")
    case True
    then have none: "\<not> (offers d k q \<and> \<not> pl_is_quote_only q)" for q
      using off by (auto simp: filter_empty_conv)
    from True assms obtain ys where "?pub = p # ys"
      by (auto simp: cheapest_plan_with_def Let_def split: list.splits)
    then have "p \<in> set ?pub" by (metis list.set_intros(1))
    with none off show ?thesis by blast
  next
    case False
    with assms obtain ys where "?priced = p # ys"
      by (auto simp: cheapest_plan_with_def Let_def split: list.splits)
    from hd_filter_sorted [OF srt this] off show ?thesis by (auto simp: less_eq_prod_def)
  qed
qed

lemma cheapest_plan_None_iff: "cheapest_plan_with d k = None \<longleftrightarrow> (\<forall>p. \<not> offers d k p)"
proof -
  let ?pub = "filter (\<lambda>p. plan_has_feature p k)
     (sort_key (\<lambda>p. (pl_price_monthly p, pl_display_order p))
       (filter (\<lambda>p. pl_status p = Published) (d_plans d)))"
  have "cheapest_plan_with d k = None \<longleftrightarrow> ?pub = []"
    by (auto simp: cheapest_plan_with_def Let_def simp del: filter_filter split: list.splits)
  also have "\<dots> \<longleftrightarrow> set ?pub = {}" by (rule set_empty [symmetric])
  also have "\<dots> \<longleftrightarrow> (\<forall>p. \<not> offers d k p)" by (auto simp: offers_def)
  finally show ?thesis .
qed

section \<open>Properties\<close>

text \<open>
  The feature guard refuses exactly the tenants whose effective features lack the key, never
  grants a key the registry does not know, and the offer it names in a refusal is published,
  includes the feature, and is the cheapest of the offers with a displayed price that include it
  (an offer on quotation is named only when there is none).
\<close>

theorem ensure_feature_exact:
  "(ensure_feature d t k = Inr () \<longleftrightarrow> has_feature d t k) \<and>
   (has_feature d t k \<longrightarrow> is_known k) \<and>
   (\<forall>nm. ensure_feature d t k = Inl (Feature_missing k (Some nm)) \<longrightarrow>
      (\<exists>p. offers d k p \<and> pl_name p = nm \<and>
        (\<forall>q. offers d k q \<and> \<not> pl_is_quote_only q \<longrightarrow>
           \<not> pl_is_quote_only p \<and> pl_price_monthly p \<le> pl_price_monthly q))) \<and>
   (ensure_feature d t k = Inl (Feature_missing k None) \<longrightarrow> (\<forall>p. \<not> offers d k p))"
  using has_feature_known [of d t k] cheapest_plan_SomeD [of d k] cheapest_plan_None_iff [of d k]
  by (auto simp: ensure_feature_def) metis

theorem ensure_feature_exact_example:
  "\<exists>d. ensure_feature d 1 TRAINING = Inl (Feature_missing TRAINING (Some ''Pilotage'')) \<and>
       (\<exists>p. offers d TRAINING p \<and> pl_name p = ''Pilotage'')"
proof -
  let ?p = "blank_plan\<lparr>pl_id := 1, pl_name := ''Pilotage'', pl_status := Published, pl_features := [TRAINING]\<rparr>"
  let ?d = "empty_db\<lparr>d_plans := [?p]\<rparr>"
  have "ensure_feature ?d 1 TRAINING = Inl (Feature_missing TRAINING (Some ''Pilotage''))"
    by (simp add: ensure_feature_def has_feature_def get_subscription_def empty_db_def
        cheapest_plan_with_def plan_has_feature_def enabled_features_def sanitize_def
        feature_registry_def blank_plan_def)
  with ensure_feature_exact [of ?d 1 TRAINING] show ?thesis by blast
qed

text \<open>
  What the interface shows agrees with what the guard answers: the summary lists every feature
  of the registry once, in its order, marks as included exactly those the guard grants, and calls
  a missing feature overridden only when the tenant's own plan includes it.
\<close>

theorem summary_agrees_with_guard:
  "map fr_key (es_features (summary now d t)) = feature_registry \<and>
   (\<forall>k. k \<in> set feature_registry \<longrightarrow>
      (\<exists>r. r \<in> set (es_features (summary now d t)) \<and> fr_key r = k \<and>
         (fr_included r \<longleftrightarrow> ensure_feature d t k = Inr ()) \<and>
         (\<not> fr_included r \<and> fr_source r = From_override \<longrightarrow>
            (\<exists>s. get_subscription d t = Some s \<and> plan_has_feature (plan_of d s) k))))"
proof -
  have rows: "es_features (summary now d t) = map (summary_row d (get_subscription d t)) feature_registry"
    by (simp add: summary_def Let_def split: option.split)
  have key: "fr_key (summary_row d so k) = k" for so k
    by (simp add: summary_row_def Let_def)
  have inc: "fr_included (summary_row d (get_subscription d t) k) \<longleftrightarrow> ensure_feature d t k = Inr ()" for k
    by (auto simp: summary_row_def ensure_feature_def has_feature_def Let_def split: option.splits)
  have src: "\<not> fr_included (summary_row d so k) \<Longrightarrow> fr_source (summary_row d so k) = From_override \<Longrightarrow>
      \<exists>s. so = Some s \<and> plan_has_feature (plan_of d s) k" for so k
    by (auto simp: summary_row_def plan_has_feature_def enabled_features_def Let_def
        split: option.splits if_splits)
  show ?thesis
    unfolding rows using key inc src by (auto simp: comp_def)
qed

theorem summary_agrees_with_guard_example:
  "\<exists>r. r \<in> set (es_features (summary 0 empty_db 1)) \<and> fr_key r = ASSISTANT \<and> \<not> fr_included r"
proof -
  have "ASSISTANT \<in> set feature_registry" by (simp add: feature_registry_def)
  with summary_agrees_with_guard [of 0 empty_db 1] obtain r where
    "r \<in> set (es_features (summary 0 empty_db 1))" "fr_key r = ASSISTANT"
    "fr_included r \<longleftrightarrow> ensure_feature empty_db 1 ASSISTANT = Inr ()" by blast
  then show ?thesis
    by (auto simp: ensure_feature_def has_feature_def get_subscription_def empty_db_def)
qed

end
