(* ===== verification/Lifecycle.thy ===== *)
theory Lifecycle
  imports Capacity "HOL-Library.Char_ord" "HOL-Library.List_Lexorder" "HOL-Library.Product_Lexorder"
begin

text \<open>
  The life of a subscription (billing/services.py): opening a trial, activating, suspending,
  cancelling, changing plan, expiring trials, negotiated quotas and the composition of features.
  Every operation takes the in-memory object \<open>s\<close> it is called with and the database, and returns
  the changed object with the changed database; \<open>save_sub\<close> is \<open>save(update_fields=...)\<close>, which writes
  the listed columns of the row with that primary key. An operation runs in a transaction: an
  error leaves the database as it was.
\<close>

definition save_sub :: "(subscription \<Rightarrow> subscription) \<Rightarrow> subscription \<Rightarrow> db \<Rightarrow> db" where
  "save_sub w s d = d\<lparr>d_subs := upd_where (\<lambda>r. su_id r = su_id s) w (d_subs d)\<rparr>"

definition said :: "string \<Rightarrow> reason \<Rightarrow> reason" where
  "said given otherwise = (if given = '''' then otherwise else Given (take 255 given))"

definition record_event ::
  "env \<Rightarrow> subscription \<Rightarrow> sub_status option \<Rightarrow> sub_status \<Rightarrow> string \<Rightarrow> string \<Rightarrow> reason \<Rightarrow> int option
   \<Rightarrow> db \<Rightarrow> db" where
  "record_event e s from to from_plan to_plan why actor d =
     d\<lparr>d_events := \<lparr>ev_subscription = su_id s, ev_from_status = from, ev_to_status = to,
        ev_from_plan = from_plan, ev_to_plan = to_plan, ev_reason = why, ev_actor = actor,
        ev_created_at = e_now e\<rparr> # d_events d\<rparr>"

section \<open>Catalogue\<close>

definition list_published_plans :: "db \<Rightarrow> plan list" where
  "list_published_plans d =
     sort_key (\<lambda>p. (pl_display_order p, pl_price_monthly p))
       (filter (\<lambda>p. pl_status p = Published) (d_plans d))"

definition first :: "'a list \<Rightarrow> 'a option" where
  "first xs = (case xs of [] \<Rightarrow> None | x # _ \<Rightarrow> Some x)"

definition get_default_trial_plan :: "env \<Rightarrow> db \<Rightarrow> plan option" where
  "get_default_trial_plan e d =
     (if e_trial_plan_code e \<noteq> ''''
      then (case find (\<lambda>p. pl_code p = e_trial_plan_code e) (d_plans d) of
              Some p \<Rightarrow> Some p
            | None \<Rightarrow> first (list_published_plans d))
      else first (list_published_plans d))"

section \<open>Life cycle\<close>

definition after_alerts :: "env \<Rightarrow> 'a \<Rightarrow> db \<Rightarrow> billing_error + 'a \<times> db" where
  "after_alerts e x d = rbind (check_alert_thresholds e d) (\<lambda>(_, d'). Inr (x, d'))"

definition new_trial :: "int \<Rightarrow> int \<Rightarrow> int \<Rightarrow> time \<Rightarrow> int \<Rightarrow> subscription" where
  "new_trial i t pid now n =
     \<lparr>su_id = i, su_tenant = t, su_plan = pid, su_status = Trial, su_period = Monthly,
      su_started_at = now, su_trial_ends_at = Some (now + days n), su_renews_at = None,
      su_ends_at = None, su_override_monitored_assets = None, su_override_monthly_scans = None,
      su_override_max_users = None, su_override_watched_accounts = None,
      su_override_monthly_watched_account_scans = None, su_override_features = None,
      su_billing_provider = ''manual'', su_external_customer_ref = '''',
      su_external_subscription_ref = '''', su_internal_notes = ''''\<rparr>"

definition start_trial ::
  "env \<Rightarrow> db \<Rightarrow> int \<Rightarrow> plan option \<Rightarrow> int option \<Rightarrow> int option \<Rightarrow> billing_error + subscription \<times> db" where
  "start_trial e d t plan actor n =
     (if get_subscription d t \<noteq> None then Inl Already_subscribed
      else case (case plan of Some p \<Rightarrow> Some p | None \<Rightarrow> get_default_trial_plan e d) of
        None \<Rightarrow> Inl No_plan_available
      | Some p \<Rightarrow>
          rbind (ensure_monitored_slots_available e d (pl_monitored_assets p) None) (\<lambda>_.
            let n' = (case n of Some m \<Rightarrow> m | None \<Rightarrow> e_trial_days e);
                s = new_trial (d_seq d + 1) t (pl_id p) (e_now e) n';
                d1 = d\<lparr>d_seq := d_seq d + 1, d_subs := s # d_subs d\<rparr>;
                d2 = record_event e s None Trial '''' (pl_name p) (Trial_opened n') actor d1
            in after_alerts e s d2))"

definition activate ::
  "env \<Rightarrow> db \<Rightarrow> subscription \<Rightarrow> period option \<Rightarrow> int option \<Rightarrow> string \<Rightarrow>
   billing_error + subscription \<times> db" where
  "activate e d s per actor why =
     (if su_status s = Active then Inr (s, d)
      else rbind (if is_operational s then Inr ()
                  else ensure_monitored_slots_available e d
                         (monitored_assets_quota (plan_of d s) s) (Some (su_id s))) (\<lambda>_.
        let per' = (case per of Some p \<Rightarrow> p | None \<Rightarrow> su_period s);
            w = (\<lambda>r. r\<lparr>su_status := Active, su_period := per',
                   su_renews_at := Some (e_now e + days (if per' = Yearly then 365 else 30)),
                   su_ends_at := None\<rparr>);
            d1 = save_sub w s d;
            d2 = record_event e s (Some (su_status s)) Active '''' '''' (said why Activated) actor d1
        in after_alerts e (w s) d2))"

definition suspend ::
  "env \<Rightarrow> db \<Rightarrow> subscription \<Rightarrow> int option \<Rightarrow> string \<Rightarrow> subscription \<times> db" where
  "suspend e d s actor why =
     (let w = (\<lambda>r. r\<lparr>su_status := Suspended\<rparr>)
      in (w s, record_event e s (Some (su_status s)) Suspended '''' ''''
                 (said why Suspended_by_default) actor (save_sub w s d)))"

definition cancel_with ::
  "env \<Rightarrow> db \<Rightarrow> subscription \<Rightarrow> int option \<Rightarrow> reason \<Rightarrow> subscription \<times> db" where
  "cancel_with e d s actor why =
     (let w = (\<lambda>r. r\<lparr>su_status := Cancelled, su_ends_at := Some (e_now e)\<rparr>)
      in (w s, record_event e s (Some (su_status s)) Cancelled '''' '''' why actor (save_sub w s d)))"

definition cancel ::
  "env \<Rightarrow> db \<Rightarrow> subscription \<Rightarrow> int option \<Rightarrow> string \<Rightarrow> subscription \<times> db" where
  "cancel e d s actor why = cancel_with e d s actor (said why Cancelled_by_default)"

definition change_plan ::
  "env \<Rightarrow> db \<Rightarrow> subscription \<Rightarrow> plan \<Rightarrow> int option \<Rightarrow> string \<Rightarrow> billing_error + subscription \<times> db" where
  "change_plan e d s p actor why =
     (if pl_id p = su_plan s then Inr (s, d)
      else
        let previous = plan_of d s
        in rbind (if is_operational s \<and> 0 < pl_monitored_assets p - monitored_assets_quota previous s
                  then ensure_monitored_slots_available e d (pl_monitored_assets p) (Some (su_id s))
                  else Inr ()) (\<lambda>_.
          let w = (\<lambda>r. r\<lparr>su_plan := pl_id p, su_override_monitored_assets := None,
                     su_override_monthly_scans := None, su_override_max_users := None,
                     su_override_features := None\<rparr>);
              d1 = save_sub w s d;
              d2 = record_event e s (Some (su_status s)) (su_status s) (pl_name previous) (pl_name p)
                     (said why (Plan_changed (pl_name previous) (pl_name p))) actor d1
          in after_alerts e (w s) d2))"

definition trial_is_due :: "time \<Rightarrow> subscription \<Rightarrow> bool" where
  "trial_is_due now s =
     (su_status s = Trial \<and> (case su_trial_ends_at s of Some t \<Rightarrow> t \<le> now | None \<Rightarrow> False))"

definition expire_one :: "env \<Rightarrow> time \<Rightarrow> subscription \<Rightarrow> db \<Rightarrow> db" where
  "expire_one e now s d =
     record_event e s (Some Trial) Expired '''' '''' Trial_over None
       (save_sub (\<lambda>r. r\<lparr>su_status := Expired, su_ends_at := Some now\<rparr>) s d)"

definition expire_due_trials :: "env \<Rightarrow> db \<Rightarrow> time option \<Rightarrow> nat \<times> db" where
  "expire_due_trials e d on =
     (let now = (case on of Some t \<Rightarrow> t | None \<Rightarrow> e_now e);
          due = filter (trial_is_due now) (d_subs d)
      in (length due, fold (expire_one e now) due d))"

definition record_payment ::
  "db \<Rightarrow> subscription \<Rightarrow> int \<Rightarrow> date \<Rightarrow> string \<Rightarrow> string \<Rightarrow> int option \<Rightarrow> db" where
  "record_payment d s amount received ref note actor =
     d\<lparr>d_payments := \<lparr>pa_subscription = su_id s, pa_amount = amount,
        pa_currency = pl_currency (plan_of d s), pa_received_at = received, pa_reference = ref,
        pa_note = note, pa_recorded_by = actor\<rparr> # d_payments d\<rparr>"

definition set_trial_end ::
  "env \<Rightarrow> db \<Rightarrow> subscription \<Rightarrow> time \<Rightarrow> int option \<Rightarrow> string \<Rightarrow> billing_error + subscription \<times> db" where
  "set_trial_end e d s ends actor why =
     (if su_status s \<noteq> Trial then Inl Not_in_trial
      else
        let w = (\<lambda>r. r\<lparr>su_trial_ends_at := Some ends\<rparr>)
        in Inr (w s, record_event e s (Some (su_status s)) (su_status s) '''' ''''
                  (said why (Trial_end_moved ends (su_trial_ends_at s))) actor (save_sub w s d)))"

section \<open>Negotiated quotas\<close>

text \<open>
  The keyword arguments of \<open>set_quota_overrides\<close>: absent (\<open>None\<close>), or given, where giving \<open>None\<close>
  returns to the plan.
\<close>

record overrides =
  ov_monitored_assets :: "int option option"
  ov_monthly_scans :: "int option option"
  ov_max_users :: "int option option"
  ov_features :: "string list option option"

definition changed :: "'a option \<Rightarrow> 'a \<Rightarrow> 'a option" where
  "changed given current = (case given of Some v \<Rightarrow> if v = current then None else Some v | None \<Rightarrow> None)"

definition changed_overrides :: "overrides \<Rightarrow> subscription \<Rightarrow> overrides" where
  "changed_overrides ov s =
     \<lparr>ov_monitored_assets = changed (ov_monitored_assets ov) (su_override_monitored_assets s),
      ov_monthly_scans = changed (ov_monthly_scans ov) (su_override_monthly_scans s),
      ov_max_users = changed (ov_max_users ov) (su_override_max_users s),
      ov_features = changed (ov_features ov) (su_override_features s)\<rparr>"

definition write_overrides :: "overrides \<Rightarrow> subscription \<Rightarrow> subscription" where
  "write_overrides ch r =
     r\<lparr>su_override_monitored_assets := or_plan (ov_monitored_assets ch) (su_override_monitored_assets r),
       su_override_monthly_scans := or_plan (ov_monthly_scans ch) (su_override_monthly_scans r),
       su_override_max_users := or_plan (ov_max_users ch) (su_override_max_users r),
       su_override_features := or_plan (ov_features ch) (su_override_features r)\<rparr>"

definition nothing_changed :: "overrides \<Rightarrow> bool" where
  "nothing_changed ch =
     (ov_monitored_assets ch = None \<and> ov_monthly_scans ch = None \<and> ov_max_users ch = None \<and>
      ov_features ch = None)"

definition set_quota_overrides ::
  "env \<Rightarrow> db \<Rightarrow> subscription \<Rightarrow> overrides \<Rightarrow> int option \<Rightarrow> billing_error + subscription \<times> db" where
  "set_quota_overrides e d s ov actor =
     (let ch = changed_overrides ov s; p = plan_of d s
      in if nothing_changed ch then Inr (s, d)
         else rbind (case ov_monitored_assets ch of
               None \<Rightarrow> Inr ()
             | Some new_quota \<Rightarrow>
                 (let effective = or_plan new_quota (pl_monitored_assets p)
                  in if is_operational s \<and> monitored_assets_quota p s < effective
                     then ensure_monitored_slots_available e d effective (Some (su_id s))
                     else Inr ())) (\<lambda>_.
           let d1 = save_sub (write_overrides ch) s d;
               d2 = record_event e s (Some (su_status s)) (su_status s) '''' '''' Quotas_changed actor d1
           in after_alerts e (write_overrides ch s) d2))"

section \<open>Composition of features\<close>

definition quota_value :: "plan \<Rightarrow> subscription \<Rightarrow> quota_attr \<Rightarrow> int" where
  "quota_value p s a =
     (case a of Watched_accounts_quota \<Rightarrow> watched_accounts_quota p s
      | Monitored_assets_quota \<Rightarrow> monitored_assets_quota p s)"

definition composition_problems :: "plan \<Rightarrow> subscription \<Rightarrow> string list \<Rightarrow> composition_problem list" where
  "composition_problems p s keys =
     (let kept = sanitize keys
      in concat (map (\<lambda>k. map (Missing_dependency k) (filter (\<lambda>r. r \<notin> set kept) (DEPEND_DE k))) (sort kept))
         @ map (\<lambda>(k, a). Missing_quota k a)
             (filter (\<lambda>(k, a). k \<in> set kept \<and> quota_value p s a = 0) QUOTA_REQUIS))"

definition set_feature_overrides ::
  "env \<Rightarrow> db \<Rightarrow> subscription \<Rightarrow> string list \<Rightarrow> int option \<Rightarrow> billing_error + subscription \<times> db" where
  "set_feature_overrides e d s keys actor =
     (let kept = sanitize keys; problems = composition_problems (plan_of d s) s kept;
          w = (\<lambda>r. r\<lparr>su_override_features := Some kept\<rparr>)
      in if problems \<noteq> [] then Inl (Composition problems)
         else if su_override_features s = Some kept then Inr (s, d)
         else Inr (w s, record_event e s (Some (su_status s)) (su_status s) '''' '''' Features_composed
                     actor (save_sub w s d)))"

definition clear_feature_overrides ::
  "env \<Rightarrow> db \<Rightarrow> subscription \<Rightarrow> int option \<Rightarrow> subscription \<times> db" where
  "clear_feature_overrides e d s actor =
     (if su_override_features s = None then (s, d)
      else
        let w = (\<lambda>r. r\<lparr>su_override_features := None\<rparr>)
        in (w s, record_event e s (Some (su_status s)) (su_status s) '''' '''' Features_reset actor
                   (save_sub w s d)))"

datatype deviation = Same | Added | Removed

record composition_row =
  cr_key :: string
  cr_inherited :: bool
  cr_enabled :: bool
  cr_deviation :: deviation

definition feature_composition :: "plan \<Rightarrow> subscription \<Rightarrow> composition_row list" where
  "feature_composition p s =
     map (\<lambda>k.
        let inherited = k \<in> set (sanitize (pl_features p));
            effective = k \<in> set (effective_features p s);
            overridden = su_override_features s \<noteq> None
        in \<lparr>cr_key = k, cr_inherited = inherited, cr_enabled = effective,
            cr_deviation = (if \<not> overridden \<or> inherited = effective then Same
                            else if effective then Added else Removed)\<rparr>) feature_registry"

definition set_internal_notes :: "db \<Rightarrow> subscription \<Rightarrow> string \<Rightarrow> subscription \<times> db" where
  "set_internal_notes d s notes =
     (let w = (\<lambda>r. r\<lparr>su_internal_notes := notes\<rparr>) in (w s, save_sub w s d))"

section \<open>What the operations leave alone\<close>

lemma save_sub_frame [frame, simp]:
  "d_plans (save_sub w s d) = d_plans d" "d_events (save_sub w s d) = d_events d"
  "d_seq (save_sub w s d) = d_seq d" "d_tenants (save_sub w s d) = d_tenants d"
  "d_memberships (save_sub w s d) = d_memberships d"
  "d_subs (save_sub w s d) = upd_where (\<lambda>r. su_id r = su_id s) w (d_subs d)"
  by (simp_all add: save_sub_def)

lemma record_event_frame [frame, simp]:
  "d_plans (record_event e s f t fp tp r a d) = d_plans d"
  "d_subs (record_event e s f t fp tp r a d) = d_subs d"
  "d_seq (record_event e s f t fp tp r a d) = d_seq d"
  "d_tenants (record_event e s f t fp tp r a d) = d_tenants d"
  "d_memberships (record_event e s f t fp tp r a d) = d_memberships d"
  by (simp_all add: record_event_def)

lemma record_event_events:
  "d_events (record_event e s f t fp tp r a d) =
   \<lparr>ev_subscription = su_id s, ev_from_status = f, ev_to_status = t, ev_from_plan = fp,
    ev_to_plan = tp, ev_reason = r, ev_actor = a, ev_created_at = e_now e\<rparr> # d_events d"
  by (simp add: record_event_def)

lemma after_alerts_Inr [ok_cases]:
  "after_alerts e x d = Inr (y, d') \<Longrightarrow> y = x \<and> alerts_only d d'"
  by (auto simp: after_alerts_def rbind_Inr_iff dest: check_alerts_frame split: prod.splits)

end
