(* ===== verification/Catalogue.thy ===== *)
theory Catalogue
  imports Lifecycle
begin

text \<open>
  The administration of the catalogue (billing/services.py) and the switch of running trials to
  the trial plan (billing/trial_migration.py). A change of plan is a record with one optional
  entry per editable field; a lowered quota is frozen as an override of every subscription that
  has none, so that it only binds the clients to come.
\<close>

section \<open>Changing a plan\<close>

record plan_changes =
  ch_name :: "string option"
  ch_tagline :: "string option"
  ch_description :: "string option"
  ch_price_monthly :: "int option"
  ch_price_yearly :: "int option"
  ch_currency :: "string option"
  ch_is_quote_only :: "bool option"
  ch_status :: "plan_status option"
  ch_display_order :: "int option"
  ch_is_highlighted :: "bool option"
  ch_monitored_assets :: "int option"
  ch_monthly_scans :: "int option"
  ch_max_users :: "int option"
  ch_features :: "string list option"

definition no_changes :: plan_changes where
  "no_changes = \<lparr>ch_name = None, ch_tagline = None, ch_description = None, ch_price_monthly = None,
     ch_price_yearly = None, ch_currency = None, ch_is_quote_only = None, ch_status = None,
     ch_display_order = None, ch_is_highlighted = None, ch_monitored_assets = None,
     ch_monthly_scans = None, ch_max_users = None, ch_features = None\<rparr>"

definition apply_changes :: "plan_changes \<Rightarrow> plan \<Rightarrow> plan" where
  "apply_changes ch p =
     p\<lparr>pl_name := or_plan (ch_name ch) (pl_name p),
       pl_tagline := or_plan (ch_tagline ch) (pl_tagline p),
       pl_description := or_plan (ch_description ch) (pl_description p),
       pl_price_monthly := or_plan (ch_price_monthly ch) (pl_price_monthly p),
       pl_price_yearly := or_plan (ch_price_yearly ch) (pl_price_yearly p),
       pl_currency := or_plan (ch_currency ch) (pl_currency p),
       pl_is_quote_only := or_plan (ch_is_quote_only ch) (pl_is_quote_only p),
       pl_status := or_plan (ch_status ch) (pl_status p),
       pl_display_order := or_plan (ch_display_order ch) (pl_display_order p),
       pl_is_highlighted := or_plan (ch_is_highlighted ch) (pl_is_highlighted p),
       pl_monitored_assets := or_plan (ch_monitored_assets ch) (pl_monitored_assets p),
       pl_monthly_scans := or_plan (ch_monthly_scans ch) (pl_monthly_scans p),
       pl_max_users := or_plan (ch_max_users ch) (pl_max_users p),
       pl_features := or_plan (ch_features ch) (pl_features p)\<rparr>"

text \<open>The three quotas of \<open>QUOTA_FIELDS\<close>, each with its column in the plan, the subscription and the form.\<close>

datatype quota_field = QMonitored | QScans | QUsers

definition QUOTA_FIELDS :: "quota_field list" where
  "QUOTA_FIELDS = [QMonitored, QScans, QUsers]"

fun plan_quota :: "quota_field \<Rightarrow> plan \<Rightarrow> int" where
  "plan_quota QMonitored p = pl_monitored_assets p"
| "plan_quota QScans p = pl_monthly_scans p"
| "plan_quota QUsers p = pl_max_users p"

fun quota_override :: "quota_field \<Rightarrow> subscription \<Rightarrow> int option" where
  "quota_override QMonitored s = su_override_monitored_assets s"
| "quota_override QScans s = su_override_monthly_scans s"
| "quota_override QUsers s = su_override_max_users s"

fun set_quota_override :: "quota_field \<Rightarrow> int \<Rightarrow> subscription \<Rightarrow> subscription" where
  "set_quota_override QMonitored v s = s\<lparr>su_override_monitored_assets := Some v\<rparr>"
| "set_quota_override QScans v s = s\<lparr>su_override_monthly_scans := Some v\<rparr>"
| "set_quota_override QUsers v s = s\<lparr>su_override_max_users := Some v\<rparr>"

fun changed_quota :: "plan_changes \<Rightarrow> quota_field \<Rightarrow> int option" where
  "changed_quota ch QMonitored = ch_monitored_assets ch"
| "changed_quota ch QScans = ch_monthly_scans ch"
| "changed_quota ch QUsers = ch_max_users ch"

definition plan_subscriber_count :: "db \<Rightarrow> plan \<Rightarrow> nat" where
  "plan_subscriber_count d p = length (filter (\<lambda>s. su_plan s = pl_id p) (d_subs d))"

record quota_impact =
  qi_field :: quota_field
  qi_current :: int
  qi_after :: int
  qi_frozen_by_override :: bool

record tenant_impact =
  tp_tenant :: int
  tp_status :: sub_status
  tp_quotas :: "quota_impact list"

record plan_impact =
  pi_subscriber_count :: nat
  pi_lowered :: "quota_field list"
  pi_will_freeze :: bool
  pi_tenants :: "tenant_impact list"

definition quota_lowered :: "plan \<Rightarrow> plan_changes \<Rightarrow> quota_field \<Rightarrow> bool" where
  "quota_lowered p ch f =
     (case changed_quota ch f of None \<Rightarrow> False
      | Some new \<Rightarrow>
          \<not> (plan_quota f p \<le> new \<and> \<not> (plan_quota f p = 0 \<and> new \<noteq> 0)))"

definition quota_impacts :: "plan \<Rightarrow> plan_changes \<Rightarrow> subscription \<Rightarrow> quota_impact list" where
  "quota_impacts p ch s =
     concat (map (\<lambda>f. case changed_quota ch f of None \<Rightarrow> []
       | Some new \<Rightarrow>
           (let current = or_plan (quota_override f s) (plan_quota f p)
            in [\<lparr>qi_field = f, qi_current = current,
                 qi_after = (if quota_override f s \<noteq> None then current else new),
                 qi_frozen_by_override = (quota_override f s \<noteq> None)\<rparr>])) QUOTA_FIELDS)"

definition plan_impact_of :: "db \<Rightarrow> plan \<Rightarrow> plan_changes \<Rightarrow> plan_impact" where
  "plan_impact_of d p ch =
     (let subs = filter (\<lambda>s. su_plan s = pl_id p) (d_subs d);
          lowered = filter (quota_lowered p ch) QUOTA_FIELDS
      in \<lparr>pi_subscriber_count = length subs, pi_lowered = lowered,
          pi_will_freeze = (lowered \<noteq> [] \<and> subs \<noteq> []),
          pi_tenants = map (\<lambda>s. \<lparr>tp_tenant = su_tenant s, tp_status = su_status s,
             tp_quotas = quota_impacts p ch s\<rparr>) subs\<rparr>)"

definition freeze_one :: "plan \<Rightarrow> quota_field \<Rightarrow> subscription \<Rightarrow> subscription" where
  "freeze_one p f s = (if quota_override f s = None then set_quota_override f (plan_quota f p) s else s)"

definition freeze :: "plan \<Rightarrow> quota_field list \<Rightarrow> subscription \<Rightarrow> subscription" where
  "freeze p lowered s = fold (freeze_one p) lowered s"

definition to_freeze :: "quota_field list \<Rightarrow> subscription \<Rightarrow> bool" where
  "to_freeze lowered s = (\<exists>f \<in> set lowered. quota_override f s = None)"

text \<open>The editable fields of a plan under their names, and what changed between two such lists.\<close>

datatype plan_value = VText string | VInt int | VBool bool | VStatus plan_status | VKeys "string list"

definition snapshot_plan :: "plan \<Rightarrow> (string \<times> plan_value) list" where
  "snapshot_plan p =
     [(''name'', VText (pl_name p)), (''tagline'', VText (pl_tagline p)),
      (''description'', VText (pl_description p)), (''price_monthly'', VInt (pl_price_monthly p)),
      (''price_yearly'', VInt (pl_price_yearly p)), (''currency'', VText (pl_currency p)),
      (''is_quote_only'', VBool (pl_is_quote_only p)), (''status'', VStatus (pl_status p)),
      (''display_order'', VInt (pl_display_order p)), (''is_highlighted'', VBool (pl_is_highlighted p)),
      (''monitored_assets'', VInt (pl_monitored_assets p)), (''monthly_scans'', VInt (pl_monthly_scans p)),
      (''max_users'', VInt (pl_max_users p)), (''features'', VKeys (pl_features p))]"

definition diff_fields :: "(string \<times> 'v) list \<Rightarrow> (string \<times> 'v) list \<Rightarrow> (string \<times> 'v option \<times> 'v) list" where
  "diff_fields old new =
     map (\<lambda>(k, v). (k, map_of old k, v)) (filter (\<lambda>(k, v). map_of old k \<noteq> Some v) new)"

text \<open>
  The result lists the changed fields and the tenants whose subscription was frozen. The plan row is saved whole; the
  subscriptions are those the database has for that plan.
\<close>

definition update_plan :: 
  "db \<Rightarrow> plan \<Rightarrow> plan_changes \<Rightarrow> plan \<times> (string \<times> plan_value option \<times> plan_value) list \<times> int list \<times> db" where
  "update_plan d p ch =
     (let impact = plan_impact_of d p ch;
          lowered = (if pi_will_freeze impact then pi_lowered impact else []);
          on_plan = (\<lambda>s. su_plan s = pl_id p);
          frozen = map su_tenant (filter (\<lambda>s. on_plan s \<and> to_freeze lowered s) (d_subs d));
          subs = upd_where on_plan (freeze p lowered) (d_subs d);
          p' = apply_changes ch p
      in (p', diff_fields (snapshot_plan p) (snapshot_plan p'), frozen,
          d\<lparr>d_subs := subs, d_plans := upd_where (\<lambda>r. pl_id r = pl_id p) (\<lambda>_. p') (d_plans d)\<rparr>))"

definition duplicate_plan :: "db \<Rightarrow> plan \<Rightarrow> string \<Rightarrow> string \<Rightarrow> billing_error + plan \<times> db" where
  "duplicate_plan d p code name =
     (if code \<in> pl_code ` set (d_plans d) then Inl (Code_taken code)
      else
        let clone = (plan_row (d_plans d) (pl_id p))\<lparr>pl_id := d_seq d + 1, pl_code := code,
              pl_name := name, pl_status := Draft, pl_is_highlighted := False,
              pl_display_order := pl_display_order p + 1\<rparr>
        in Inr (clone, d\<lparr>d_seq := d_seq d + 1, d_plans := clone # d_plans d\<rparr>))"

definition can_delete_plan :: "db \<Rightarrow> plan \<Rightarrow> nat + unit" where
  "can_delete_plan d p =
     (let n = plan_subscriber_count d p in if n \<noteq> 0 then Inl n else Inr ())"

definition delete_plan :: "db \<Rightarrow> plan \<Rightarrow> billing_error + string \<times> db" where
  "delete_plan d p =
     (case can_delete_plan d p of Inl n \<Rightarrow> Inl (Plan_in_use n)
      | Inr _ \<Rightarrow> Inr (pl_name p, d\<lparr>d_plans := filter (\<lambda>r. pl_id r \<noteq> pl_id p) (d_plans d)\<rparr>))"

section \<open>Switching the running trials to the trial plan\<close>

record bascule =
  ba_tenant :: int
  ba_offre_avant :: string
  ba_offre_apres :: string
  ba_emplacements_avant :: int
  ba_emplacements_apres :: int

definition perd_des_emplacements :: "bascule \<Rightarrow> bool" where
  "perd_des_emplacements b = (ba_emplacements_apres b < ba_emplacements_avant b)"

record rapport =
  ra_basculees :: "bascule list"
  ra_ignorees :: "(int \<times> string) list"
  ra_refusees :: "(int \<times> string) list"
  ra_empechement :: "string option"

definition a_agi :: "rapport \<Rightarrow> bool" where
  "a_agi r = (ra_basculees r \<noteq> [])"

definition refus_de_capacite :: "plan \<Rightarrow> plan \<Rightarrow> bool" where
  "refus_de_capacite source essai = (pl_monitored_assets source < pl_monitored_assets essai)"

definition basculer_un :: "env \<Rightarrow> plan \<Rightarrow> subscription \<Rightarrow> rapport \<times> db \<Rightarrow> rapport \<times> db" where
  "basculer_un e essai s acc =
     (case acc of (r, d) \<Rightarrow>
       let source = plan_of d s
       in if pl_status source = Internal
          then (r\<lparr>ra_ignorees := ra_ignorees r @ [(su_tenant s, pl_code source)]\<rparr>, d)
          else if refus_de_capacite source essai
          then (r\<lparr>ra_refusees := ra_refusees r @ [(su_tenant s, pl_code source)]\<rparr>, d)
          else (r\<lparr>ra_basculees := ra_basculees r @ [\<lparr>ba_tenant = su_tenant s,
                    ba_offre_avant = pl_code source, ba_offre_apres = pl_code essai,
                    ba_emplacements_avant = pl_monitored_assets source,
                    ba_emplacements_apres = pl_monitored_assets essai\<rparr>]\<rparr>,
                record_event e s (Some (su_status s)) (su_status s) (pl_name source) (pl_name essai)
                  Trial_switch None (save_sub (\<lambda>x. x\<lparr>su_plan := pl_id essai\<rparr>) s d)))"

definition basculer_essais :: "env \<Rightarrow> db \<Rightarrow> string \<Rightarrow> rapport \<times> db" where
  "basculer_essais e d code =
     (case find (\<lambda>p. pl_code p = code) (d_plans d) of
        None \<Rightarrow> (\<lparr>ra_basculees = [], ra_ignorees = [], ra_refusees = [], ra_empechement = Some code\<rparr>, d)
      | Some essai \<Rightarrow>
          fold (basculer_un e essai)
            (filter (\<lambda>s. su_status s = Trial \<and> su_plan s \<noteq> pl_id essai) (d_subs d))
            (\<lparr>ra_basculees = [], ra_ignorees = [], ra_refusees = [], ra_empechement = None\<rparr>, d))"

end
