(* ===== verification/BillingSafety.thy ===== *)
theory BillingSafety
  imports Catalogue
begin

text \<open>
  What the billing services keep true of the database, whatever the order in which they are
  called: a step relation with one rule per service, the invariant \<open>billing_inv\<close> (keys, quota
  columns, journal and pool) and its preservation. The capacity part rests on the interface
  \<open>slot_guard\<close> of the guard, interpreted on the code's guard in the theory Capacity.
\<close>

section \<open>The invariant\<close>

text \<open>Positive integer columns: the database refuses a negative quota.\<close>

definition columns_ok :: "db \<Rightarrow> bool" where
  "columns_ok d =
     ((\<forall>p \<in> set (d_plans d). 0 \<le> pl_monitored_assets p) \<and>
      (\<forall>s \<in> set (d_subs d). 0 \<le> or_plan (su_override_monitored_assets s) 0))"

text \<open>The last entry of the journal of a subscription tells its status.\<close>

definition journal_ok :: "db \<Rightarrow> bool" where
  "journal_ok d =
     (\<forall>s \<in> set (d_subs d).
        map_option ev_to_status (find (\<lambda>v. ev_subscription v = su_id s) (d_events d)) = Some (su_status s))"

definition billing_inv :: "int \<Rightarrow> db \<Rightarrow> bool" where
  "billing_inv c d = (integrity d \<and> columns_ok d \<and> journal_ok d \<and> monitored_slots_committed d \<le> c)"

section \<open>Writing one subscription\<close>

text \<open>
  \<open>written s w d d'\<close>: the row of \<open>s\<close> became \<open>w s\<close>, a journal entry says so unless the status stays, and nothing else
  that the invariant reads has moved.
\<close>

definition written :: "subscription \<Rightarrow> (subscription \<Rightarrow> subscription) \<Rightarrow> db \<Rightarrow> db \<Rightarrow> bool" where
  "written s w d d' =
     (d_subs d' = upd_where (\<lambda>r. su_id r = su_id s) w (d_subs d) \<and> d_plans d' = d_plans d \<and>
      d_seq d' = d_seq d \<and>
      (d_events d' = d_events d \<and> su_status (w s) = su_status s \<or>
       (\<exists>v. d_events d' = v # d_events d \<and> ev_subscription v = su_id s \<and>
            ev_to_status v = su_status (w s))))"

lemma written_record:
  "t = su_status (w s) \<Longrightarrow> written s w d (record_event e s f t fp tp r a (save_sub w s d))"
  by (simp add: written_def record_event_events)

lemma written_alerts: "written s w d d1 \<Longrightarrow> alerts_only d1 d' \<Longrightarrow> written s w d d'"
  by (simp add: written_def frame)

lemma only_row:
  "integrity d \<Longrightarrow> s \<in> set (d_subs d) \<Longrightarrow> r \<in> set (d_subs d) \<Longrightarrow> su_id r = su_id s \<longleftrightarrow> r = s"
  using distinct_map_eq [of su_id "d_subs d" r s] by (auto simp: integrity_def)

lemma written_row:
  assumes "integrity d" and "s \<in> set (d_subs d)" and "written s w d d'"
  shows "r \<in> set (d_subs d') \<longleftrightarrow> r = w s \<or> r \<in> set (d_subs d) \<and> r \<noteq> s"
proof -
  have "set (d_subs d') = (\<lambda>r. if su_id r = su_id s then w r else r) ` set (d_subs d)"
    using assms(3) by (simp add: written_def set_upd_where)
  also have "\<dots> = (\<lambda>r. if r = s then w s else r) ` set (d_subs d)"
    by (rule image_cong) (auto simp: only_row [OF assms(1,2)])
  finally show ?thesis using assms(2) by auto
qed

lemma plan_of_written: "written s w d d' \<Longrightarrow> plan_of d' r = plan_of d r"
  by (simp add: written_def plan_of_def)

text \<open>What the other subscriptions engage.\<close>

definition slots_of :: "db \<Rightarrow> subscription \<Rightarrow> int" where
  "slots_of d s = (if is_operational s then monitored_assets_quota (plan_of d s) s else 0)"

lemma sum_operational:
  fixes f :: "subscription \<Rightarrow> int"
  shows "sum_list (map f (filter (\<lambda>s. is_operational s \<and> P s) xs)) =
         sum_list (map (\<lambda>s. if is_operational s then f s else 0) (filter P xs))"
  by (induction xs) auto

lemma projected_slots:
  "projected_monitored_slots d n ex =
   sum_list (map (slots_of d) (filter (\<lambda>s. ex \<noteq> Some (su_id s)) (d_subs d))) + n"
  unfolding projected_monitored_slots_def sum_operational by (simp add: slots_of_def [abs_def])

lemma committed_split:
  assumes "integrity d" and "s \<in> set (d_subs d)"
  shows "monitored_slots_committed d = slots_of d s + projected_monitored_slots d 0 (Some (su_id s))"
  using sum_list_remove_key [OF integrityD(1) [OF assms(1)] assms(2), of "slots_of d"]
  by (simp add: monitored_slots_committed_def projected_slots eq_commute)

lemma others_written:
  assumes "su_id (w s) = su_id s" and "written s w d d'" and "\<And>r. su_id (w r) = su_id r"
  shows "projected_monitored_slots d' n (Some (su_id s)) = projected_monitored_slots d n (Some (su_id s))"
proof -
  have "filter (\<lambda>r. su_id s \<noteq> su_id r) (d_subs d') = filter (\<lambda>r. su_id s \<noteq> su_id r) (d_subs d)"
    using assms(2,3) by (auto simp: written_def intro!: filter_upd_where_other)
  moreover have "slots_of d' = slots_of d"
    using plan_of_written [OF assms(2)] by (simp add: slots_of_def fun_eq_iff)
  ultimately show ?thesis by (simp add: projected_slots)
qed

lemma quota_nonneg:
  assumes "integrity d" and "columns_ok d" and "s \<in> set (d_subs d)"
  shows "0 \<le> monitored_assets_quota (plan_of d s) s"
proof -
  have "plan_of d s \<in> set (d_plans d)"
    using plan_row_ex integrityD(5) [OF assms(1,3)] by (simp add: plan_of_def)
  with assms(2,3) show ?thesis
    by (auto simp: columns_ok_def monitored_assets_quota_def or_plan_def split: option.splits)
qed

lemma slots_of_nonneg: "integrity d \<Longrightarrow> columns_ok d \<Longrightarrow> s \<in> set (d_subs d) \<Longrightarrow> 0 \<le> slots_of d s"
  using quota_nonneg by (simp add: slots_of_def)

lemma written_integrity:
  assumes "integrity d" and "s \<in> set (d_subs d)" and "written s w d d'"
    and "\<And>r. su_id (w r) = su_id r" and "\<And>r. su_tenant (w r) = su_tenant r"
    and "su_plan (w s) \<in> pl_id ` set (d_plans d)"
  shows "integrity d'"
proof -
  have row: "r \<in> set (d_subs d') \<longleftrightarrow> r = w s \<or> r \<in> set (d_subs d) \<and> r \<noteq> s" for r
    by (rule written_row [OF assms(1-3)])
  have keys: "map su_id (d_subs d') = map su_id (d_subs d)"
    "map su_tenant (d_subs d') = map su_tenant (d_subs d)"
    using assms(3-5) by (simp_all add: written_def map_upd_where)
  then have ids: "su_id ` set (d_subs d') = su_id ` set (d_subs d)"
    by (metis list.set_map)
  from assms(3) have v: "ev_subscription ` set (d_events d') \<subseteq> insert (su_id s) (ev_subscription ` set (d_events d))"
    and p: "d_plans d' = d_plans d" "d_seq d' = d_seq d" by (auto simp: written_def)
  from integrityD(5-8) [OF assms(1)] assms(2,4,6) show ?thesis
    unfolding integrity_def using integrityD(1-4) [OF assms(1)]
    by (auto simp: keys p row ids dest!: subsetD [OF v] simp del: set_map)
qed

lemma written_journal:
  assumes "integrity d" and "s \<in> set (d_subs d)" and "written s w d d'"
    and "su_id (w s) = su_id s" and "journal_ok d"
  shows "journal_ok d'"
proof -
  have "s \<in> set (d_subs d) \<Longrightarrow> map_option ev_to_status (find (\<lambda>v. ev_subscription v = su_id s) (d_events d))
    = Some (su_status s)" using assms(5) by (simp add: journal_ok_def)
  with assms(2,3) have v: "map_option ev_to_status (find (\<lambda>v. ev_subscription v = i) (d_events d')) =
    (if i = su_id s then Some (su_status (w s))
     else map_option ev_to_status (find (\<lambda>v. ev_subscription v = i) (d_events d)))" for i
    by (auto simp: written_def)
  show ?thesis
    unfolding journal_ok_def
  proof
    fix r assume "r \<in> set (d_subs d')"
    then consider "r = w s" | "r \<in> set (d_subs d)" "su_id r \<noteq> su_id s"
      using written_row [OF assms(1-3)] only_row [OF assms(1,2)] by auto
    then show "map_option ev_to_status (find (\<lambda>v. ev_subscription v = su_id r) (d_events d')) =
          Some (su_status r)"
      by cases (use assms(4,5) v in \<open>auto simp: journal_ok_def\<close>)
  qed
qed

lemma committed_written:
  assumes "integrity d" and "s \<in> set (d_subs d)" and "written s w d d'"
    and "\<And>r. su_id (w r) = su_id r" and "integrity d'"
  shows "monitored_slots_committed d' =
         projected_monitored_slots d 0 (Some (su_id s)) + slots_of d (w s)"
proof -
  have "w s \<in> set (d_subs d')" by (simp add: written_row [OF assms(1-3)])
  from committed_split [OF assms(5) this] show ?thesis
    by (simp add: assms(4) others_written [OF assms(4) assms(3) assms(4)] slots_of_def
      plan_of_written [OF assms(3)])
qed

lemma written_inv:
  assumes inv: "billing_inv c d" and s: "s \<in> set (d_subs d)" and w: "written s w d d'"
    and keep: "\<And>r. su_id (w r) = su_id r" "\<And>r. su_tenant (w r) = su_tenant r"
    and fk: "su_plan (w s) \<in> pl_id ` set (d_plans d)"
    and col: "0 \<le> or_plan (su_override_monitored_assets (w s)) 0"
    and cap: "monitored_slots_committed d' \<le> c"
  shows "billing_inv c d'"
proof -
  from inv have i: "integrity d" and co: "columns_ok d" and j: "journal_ok d"
    by (simp_all add: billing_inv_def)
  have "integrity d'" by (rule written_integrity [OF i s w keep fk])
  moreover have "columns_ok d'"
    using co col w written_row [OF i s w] by (auto simp: columns_ok_def written_def)
  moreover have "journal_ok d'" by (rule written_journal [OF i s w keep(1) j])
  ultimately show ?thesis using cap by (simp add: billing_inv_def)
qed

lemma inv_parts:
  assumes "billing_inv c d" and "s \<in> set (d_subs d)"
  shows "integrity d" and "monitored_slots_committed d \<le> c" and "0 \<le> slots_of d s"
    and "monitored_slots_committed d = slots_of d s + projected_monitored_slots d 0 (Some (su_id s))"
    and "su_plan s \<in> pl_id ` set (d_plans d)"
    and "0 \<le> or_plan (su_override_monitored_assets s) 0"
  using assms committed_split [of d s] slots_of_nonneg [of d s] integrityD(5) [of d s]
  by (auto simp: billing_inv_def columns_ok_def)

text \<open>A write that engages no more than the row did needs no guard.\<close>

lemma written_inv_shrink:
  assumes "billing_inv c d" and "s \<in> set (d_subs d)" and "written s w d d'"
    and "\<And>r. su_id (w r) = su_id r" "\<And>r. su_tenant (w r) = su_tenant r"
    and "su_plan (w s) \<in> pl_id ` set (d_plans d)"
    and "0 \<le> or_plan (su_override_monitored_assets (w s)) 0"
    and "slots_of d (w s) \<le> slots_of d s"
  shows "billing_inv c d'"
proof (rule written_inv [OF assms(1-7)], rule pool.shrink_within)
  note parts = inv_parts [OF assms(1,2)]
  show "monitored_slots_committed d \<le> c" by (rule parts(2))
  show "monitored_slots_committed d' \<le> monitored_slots_committed d"
    using committed_written [OF parts(1) assms(2-4) written_integrity [OF parts(1) assms(2-6)]]
      parts(4) assms(8) by simp
qed

text \<open>A write whose engagement passed the guard.\<close>

lemma written_inv_guard:
  assumes "billing_inv c d" and "s \<in> set (d_subs d)" and "written s w d d'"
    and "\<And>r. su_id (w r) = su_id r" "\<And>r. su_tenant (w r) = su_tenant r"
    and "su_plan (w s) \<in> pl_id ` set (d_plans d)"
    and "0 \<le> or_plan (su_override_monitored_assets (w s)) 0"
    and "guard_at c d n (Some (su_id s)) = Inr ()" and "slots_of d (w s) \<le> n"
  shows "billing_inv c d'"
proof (rule written_inv [OF assms(1-7)], rule pool.swap_within [where n = n])
  note parts = inv_parts [OF assms(1,2)]
  show "monitored_slots_committed d \<le> c" by (rule parts(2))
  show "guard_at c d n (Some (su_id s)) = Inr ()" by (rule assms(8))
  show "projected_monitored_slots d 0 (Some (su_id s)) \<le> monitored_slots_committed d"
    using parts(3,4) by simp
  show "monitored_slots_committed d' \<le> projected_monitored_slots d 0 (Some (su_id s)) + n"
    using committed_written [OF parts(1) assms(2-4) written_integrity [OF parts(1) assms(2-6)]]
      assms(9) by simp
qed

section \<open>The services keep the invariant\<close>

lemma plan_of_in:
  "integrity d \<Longrightarrow> s \<in> set (d_subs d) \<Longrightarrow> plan_of d s \<in> set (d_plans d) \<and> pl_id (plan_of d s) = su_plan s"
  using plan_row_ex integrityD(5) by (simp add: plan_of_def)

lemma slots_of_simps:
  "\<not> is_operational s \<Longrightarrow> slots_of d s = 0"
  "is_operational s \<Longrightarrow> slots_of d s = monitored_assets_quota (plan_of d s) s"
  by (simp_all add: slots_of_def)

lemma default_plan_in: "get_default_trial_plan e d = Some p \<Longrightarrow> p \<in> set (d_plans d)"
proof -
  have "first (list_published_plans d) = Some p \<Longrightarrow> p \<in> set (d_plans d)" for p
    by (auto simp: first_def list_published_plans_def split: list.splits)
      (metis (no_types, lifting) filter_is_subset list.set_intros(1) set_sort subsetD)
  then show "get_default_trial_plan e d = Some p \<Longrightarrow> p \<in> set (d_plans d)"
    by (auto simp: get_default_trial_plan_def dest: find_SomeD split: if_splits option.splits)
qed

lemma start_trial_result [ok_cases]:
  assumes "start_trial e d t plan actor n = Inr (s, d')"
  obtains p m v where "get_subscription d t = None"
    and "plan = Some p \<or> plan = None \<and> get_default_trial_plan e d = Some p"
    and "ensure_monitored_slots_available e d (pl_monitored_assets p) None = Inr ()"
    and "s = new_trial (d_seq d + 1) t (pl_id p) (e_now e) m"
    and "d_subs d' = s # d_subs d" and "d_plans d' = d_plans d" and "d_seq d' = d_seq d + 1"
    and "d_events d' = v # d_events d" and "ev_subscription v = d_seq d + 1" and "ev_to_status v = Trial"
  using assms
  by (auto simp: start_trial_def Let_def rbind_Inr_iff record_event_events frame new_trial_def
    dest!: after_alerts_Inr split: if_splits option.splits)

lemma start_trial_inv:
  assumes inv: "billing_inv c d" and cap: "monitored_slot_capacity e = Inr c"
    and plan: "\<And>p. plan = Some p \<Longrightarrow> p \<in> set (d_plans d)"
    and ok: "start_trial e d t plan actor n = Inr (s, d')"
  shows "billing_inv c d'"
  using ok
proof (rule start_trial_result)
  fix p m v
  assume none: "get_subscription d t = None"
    and p: "plan = Some p \<or> plan = None \<and> get_default_trial_plan e d = Some p"
    and guard: "ensure_monitored_slots_available e d (pl_monitored_assets p) None = Inr ()"
    and s: "s = new_trial (d_seq d + 1) t (pl_id p) (e_now e) m"
    and d': "d_subs d' = s # d_subs d" "d_plans d' = d_plans d" "d_seq d' = d_seq d + 1"
      "d_events d' = v # d_events d" "ev_subscription v = d_seq d + 1" "ev_to_status v = Trial"
  from inv have i: "integrity d" and co: "columns_ok d" and j: "journal_ok d"
    and le: "monitored_slots_committed d \<le> c" by (simp_all add: billing_inv_def)
  from p plan default_plan_in have pin: "p \<in> set (d_plans d)" by blast
  have ids: "\<And>r. r \<in> set (d_subs d) \<Longrightarrow> su_id r \<le> d_seq d" by (rule integrityD(6) [OF i])
  have fresh: "su_tenant r \<noteq> t" if "r \<in> set (d_subs d)" for r
    using none that by (auto simp: get_subscription_def find_None_iff)
  have "integrity d'"
    using integrityD [OF i] pin fresh
    by (fastforce simp: integrity_def d' s new_trial_def)
  moreover have "columns_ok d'"
    using co by (simp add: columns_ok_def d' s new_trial_def or_plan_def)
  moreover have "journal_ok d'"
    using j ids by (fastforce simp: journal_ok_def d' s new_trial_def)
  moreover have "monitored_slots_committed d' \<le> c"
  proof (rule pool.add_within)
    show "monitored_slots_committed d \<le> c" by (rule le)
    show "guard_at c d (pl_monitored_assets p) None = Inr ()"
      using guard ensure_slots_guard_at [OF cap] by simp
    show "monitored_slots_committed d' \<le> monitored_slots_committed d + pl_monitored_assets p"
      using plan_row_in [OF integrityD(3) [OF i] pin]
      by (simp add: monitored_slots_committed_def projected_monitored_slots_def d' plan_of_def s
        new_trial_def is_operational_def monitored_assets_quota_def or_plan_def)
  qed
  ultimately show ?thesis by (simp add: billing_inv_def)
qed

text \<open>
  The single-row services: each is the identity or one \<open>written\<close> row, with what its guard let
  pass.
\<close>

lemma activate_result [ok_cases]:
  assumes "activate e d s per actor why = Inr (s', d')"
  obtains "d' = d"
    | w where "written s w d d'" and "\<And>r. su_id (w r) = su_id r" and "\<And>r. su_tenant (w r) = su_tenant r"
      and "su_plan (w s) = su_plan s"
      and "su_override_monitored_assets (w s) = su_override_monitored_assets s"
      and "is_operational s \<or> ensure_monitored_slots_available e d
             (monitored_assets_quota (plan_of d s) s) (Some (su_id s)) = Inr ()"
proof (cases "su_status s = Active")
  case True
  with assms show ?thesis by (intro that(1)) (simp add: activate_def)
next
  case False
  let ?p = "case per of Some p \<Rightarrow> p | None \<Rightarrow> su_period s"
  let ?w = "\<lambda>r. r\<lparr>su_status := Active, su_period := ?p,
    su_renews_at := Some (e_now e + days (if ?p = Yearly then 365 else 30)), su_ends_at := None\<rparr>"
  from assms False have "written s ?w d d'"
    by (auto simp: activate_def Let_def rbind_Inr_iff dest!: after_alerts_Inr
      intro: written_alerts [OF written_record])
  moreover from assms False have "is_operational s \<or> ensure_monitored_slots_available e d
      (monitored_assets_quota (plan_of d s) s) (Some (su_id s)) = Inr ()"
    by (auto simp: activate_def rbind_Inr_iff split: if_splits)
  ultimately show ?thesis by (intro that(2) [of ?w]) simp_all
qed

lemma quota_cong:
  "su_plan r = su_plan s \<Longrightarrow> su_override_monitored_assets r = su_override_monitored_assets s \<Longrightarrow>
   monitored_assets_quota (plan_of d r) r = monitored_assets_quota (plan_of d s) s"
  by (simp add: monitored_assets_quota_def plan_of_def)

lemma activate_inv:
  assumes inv: "billing_inv c d" and cap: "monitored_slot_capacity e = Inr c"
    and s: "s \<in> set (d_subs d)" and ok: "activate e d s per actor why = Inr (s', d')"
  shows "billing_inv c d'"
  using ok
proof (rule activate_result)
  assume "d' = d"
  with inv show ?thesis by simp
next
  fix w
  assume w: "written s w d d'" "\<And>r. su_id (w r) = su_id r" "\<And>r. su_tenant (w r) = su_tenant r"
    and pl: "su_plan (w s) = su_plan s"
      "su_override_monitored_assets (w s) = su_override_monitored_assets s"
    and g: "is_operational s \<or> ensure_monitored_slots_available e d
             (monitored_assets_quota (plan_of d s) s) (Some (su_id s)) = Inr ()"
  note parts = inv_parts [OF inv s] and q = quota_cong [OF pl]
  have nonneg: "0 \<le> monitored_assets_quota (plan_of d s) s"
    using quota_nonneg [OF parts(1) _ s] inv by (simp add: billing_inv_def)
  have le: "slots_of d (w s) \<le> monitored_assets_quota (plan_of d s) s"
    using q nonneg by (simp add: slots_of_def)
  show ?thesis
  proof (cases "is_operational s")
    case True
    show ?thesis
      by (rule written_inv_shrink [OF inv s w]) (use le True parts pl in \<open>simp_all add: slots_of_simps\<close>)
  next
    case False
    with g have "guard_at c d (monitored_assets_quota (plan_of d s) s) (Some (su_id s)) = Inr ()"
      using ensure_slots_guard_at [OF cap] by simp
    from written_inv_guard [OF inv s w _ _ this le] show ?thesis using parts pl by simp
  qed
qed

text \<open>The writes that free slots or leave the engagement as it is.\<close>

lemma still_inv:
  assumes inv: "billing_inv c d" and s: "s \<in> set (d_subs d)" and w: "written s w d d'"
    and keep: "\<And>r. su_id (w r) = su_id r" "\<And>r. su_tenant (w r) = su_tenant r"
      "su_plan (w s) = su_plan s"
      "su_override_monitored_assets (w s) = su_override_monitored_assets s"
    and op: "is_operational (w s) \<Longrightarrow> is_operational s"
  shows "billing_inv c d'"
proof (rule written_inv_shrink [OF inv s w keep(1,2)])
  note parts = inv_parts [OF inv s]
  show "su_plan (w s) \<in> pl_id ` set (d_plans d)"
    and "0 \<le> or_plan (su_override_monitored_assets (w s)) 0"
    using parts(5,6) by (simp_all add: keep)
  show "slots_of d (w s) \<le> slots_of d s"
    using op quota_cong [OF keep(3,4), of d] parts(3) by (auto simp: slots_of_def)
qed

lemma suspend_inv:
  "billing_inv c d \<Longrightarrow> s \<in> set (d_subs d) \<Longrightarrow> suspend e d s actor why = (s', d') \<Longrightarrow> billing_inv c d'"
  unfolding suspend_def Let_def
  by (rule still_inv [where w = "\<lambda>r. r\<lparr>su_status := Suspended\<rparr>"])
    (auto simp: is_operational_def intro: written_record)

lemma cancel_with_inv:
  "billing_inv c d \<Longrightarrow> s \<in> set (d_subs d) \<Longrightarrow> cancel_with e d s actor why = (s', d') \<Longrightarrow> billing_inv c d'"
  unfolding cancel_with_def Let_def
  by (rule still_inv [where w = "\<lambda>r. r\<lparr>su_status := Cancelled, su_ends_at := Some (e_now e)\<rparr>"])
    (auto simp: is_operational_def intro: written_record)

lemma set_trial_end_inv:
  "billing_inv c d \<Longrightarrow> s \<in> set (d_subs d) \<Longrightarrow> set_trial_end e d s ends actor why = Inr (s', d') \<Longrightarrow>
   billing_inv c d'"
  unfolding set_trial_end_def Let_def
  by (rule still_inv [where w = "\<lambda>r. r\<lparr>su_trial_ends_at := Some ends\<rparr>"])
    (auto simp: is_operational_def intro: written_record split: if_splits)

lemma set_feature_overrides_inv:
  assumes "billing_inv c d" and "s \<in> set (d_subs d)"
    and "set_feature_overrides e d s keys actor = Inr (s', d')"
  shows "billing_inv c d'"
proof -
  let ?w = "\<lambda>r. r\<lparr>su_override_features := Some (sanitize keys)\<rparr>"
  from assms(3) have "d' = d \<or> written s ?w d d'"
    by (auto simp: set_feature_overrides_def Let_def intro: written_record split: if_splits)
  then show ?thesis
  proof
    assume "d' = d"
    with assms(1) show ?thesis by simp
  next
    assume "written s ?w d d'"
    then show ?thesis by (rule still_inv [OF assms(1,2)]) (simp_all add: is_operational_def)
  qed
qed

lemma clear_feature_overrides_inv:
  assumes "billing_inv c d" and "s \<in> set (d_subs d)"
    and "clear_feature_overrides e d s actor = (s', d')"
  shows "billing_inv c d'"
proof -
  let ?w = "\<lambda>r. r\<lparr>su_override_features := None\<rparr>"
  from assms(3) have "d' = d \<or> written s ?w d d'"
    by (auto simp: clear_feature_overrides_def Let_def intro: written_record split: if_splits)
  then show ?thesis
  proof
    assume "d' = d"
    with assms(1) show ?thesis by simp
  next
    assume "written s ?w d d'"
    then show ?thesis by (rule still_inv [OF assms(1,2)]) (simp_all add: is_operational_def)
  qed
qed

lemma set_internal_notes_inv:
  "billing_inv c d \<Longrightarrow> s \<in> set (d_subs d) \<Longrightarrow> set_internal_notes d s notes = (s', d') \<Longrightarrow> billing_inv c d'"
  unfolding set_internal_notes_def Let_def
  by (rule still_inv [where w = "\<lambda>r. r\<lparr>su_internal_notes := notes\<rparr>"])
    (auto simp: is_operational_def written_def)

lemma record_payment_inv:
  "billing_inv c d \<Longrightarrow> billing_inv c (record_payment d s amount received ref note actor)"
  by (simp add: record_payment_def billing_inv_def integrity_def columns_ok_def journal_ok_def
    monitored_slots_committed_def projected_monitored_slots_def plan_of_def)

text \<open>The two services that may engage more: the new quota is \<open>n\<close>, guarded when it is above the old one.\<close>

lemma requota_inv:
  assumes inv: "billing_inv c d" and s: "s \<in> set (d_subs d)" and w: "written s w d d'"
    and keep: "\<And>r. su_id (w r) = su_id r" "\<And>r. su_tenant (w r) = su_tenant r"
    and fk: "su_plan (w s) \<in> pl_id ` set (d_plans d)"
    and col: "0 \<le> or_plan (su_override_monitored_assets (w s)) 0"
    and cap: "monitored_slot_capacity e = Inr c"
    and st: "su_status (w s) = su_status s"
    and n: "monitored_assets_quota (plan_of d (w s)) (w s) = n"
    and g: "is_operational s \<Longrightarrow> monitored_assets_quota (plan_of d s) s < n \<Longrightarrow>
            ensure_monitored_slots_available e d n (Some (su_id s)) = Inr ()"
  shows "billing_inv c d'"
proof (cases "is_operational s \<and> monitored_assets_quota (plan_of d s) s < n")
  case True
  with g have "guard_at c d n (Some (su_id s)) = Inr ()"
    using ensure_slots_guard_at [OF cap] by simp
  moreover have "slots_of d (w s) \<le> n"
    using True inv_parts(3) [OF inv s] by (simp add: slots_of_def n)
  ultimately show ?thesis by (rule written_inv_guard [OF inv s w keep fk col])
next
  case False
  have "slots_of d (w s) \<le> slots_of d s"
    using False st by (auto simp: slots_of_def n is_operational_def)
  then show ?thesis by (rule written_inv_shrink [OF inv s w keep fk col])
qed

lemma change_plan_inv:
  assumes inv: "billing_inv c d" and cap: "monitored_slot_capacity e = Inr c"
    and s: "s \<in> set (d_subs d)" and p: "p \<in> set (d_plans d)"
    and ok: "change_plan e d s p actor why = Inr (s', d')"
  shows "billing_inv c d'"
proof (cases "pl_id p = su_plan s")
  case True
  with ok inv show ?thesis by (simp add: change_plan_def)
next
  case False
  let ?w = "\<lambda>r. r\<lparr>su_plan := pl_id p, su_override_monitored_assets := None,
                     su_override_monthly_scans := None, su_override_max_users := None,
                     su_override_features := None\<rparr>"
  from ok False have w: "written s ?w d d'"
    by (auto simp: change_plan_def Let_def rbind_Inr_iff dest!: after_alerts_Inr
      intro: written_alerts [OF written_record])
  have n: "monitored_assets_quota (plan_of d (?w s)) (?w s) = pl_monitored_assets p"
    using plan_row_in [OF integrityD(3) p] inv
    by (simp add: plan_of_def monitored_assets_quota_def or_plan_def billing_inv_def)
  show ?thesis
    by (rule requota_inv [OF inv s w _ _ _ _ cap _ n])
      (use ok False p in \<open>auto simp: change_plan_def Let_def rbind_Inr_iff or_plan_def split: if_splits\<close>)
qed

lemma set_quota_overrides_inv:
  assumes inv: "billing_inv c d" and cap: "monitored_slot_capacity e = Inr c"
    and s: "s \<in> set (d_subs d)"
    and col: "\<And>v. ov_monitored_assets ov = Some (Some v) \<Longrightarrow> 0 \<le> v"
    and ok: "set_quota_overrides e d s ov actor = Inr (s', d')"
  shows "billing_inv c d'"
proof (cases "nothing_changed (changed_overrides ov s)")
  case True
  with ok inv show ?thesis by (simp add: set_quota_overrides_def)
next
  case False
  let ?ch = "changed_overrides ov s" let ?w = "write_overrides ?ch"
  from ok False have w: "written s ?w d d'"
    by (auto simp: set_quota_overrides_def Let_def rbind_Inr_iff write_overrides_def
      dest!: after_alerts_Inr intro: written_alerts [OF written_record])
  show ?thesis
  proof (cases "ov_monitored_assets ?ch")
    case None
    then show ?thesis
      by (intro still_inv [OF inv s w]) (simp_all add: write_overrides_def or_plan_def is_operational_def)
  next
    case (Some q)
    have n: "monitored_assets_quota (plan_of d (?w s)) (?w s) = or_plan q (pl_monitored_assets (plan_of d s))"
      by (simp add: write_overrides_def Some or_plan_def monitored_assets_quota_def plan_of_def)
    have q: "0 \<le> or_plan q 0"
      using col Some by (auto simp: changed_overrides_def changed_def or_plan_def split: option.splits if_splits)
    show ?thesis
      by (rule requota_inv [OF inv s w _ _ _ _ cap _ n])
        (use ok False Some q inv_parts(5) [OF inv s] in
          \<open>auto simp: set_quota_overrides_def Let_def rbind_Inr_iff write_overrides_def or_plan_def
             split: if_splits option.splits\<close>)
  qed
qed

section \<open>The batch services\<close>

text \<open>
  A batch walks over rows read once; each step rewrites its own row, so the rows still to come
  are the ones that were read.
\<close>

lemma batch_inv:
  assumes step: "\<And>s a. s \<in> set xs \<Longrightarrow> P (g a) \<Longrightarrow> s \<in> set (d_subs (g a)) \<Longrightarrow>
       P (g (f s a)) \<and> (\<forall>r \<in> set (d_subs (g a)). su_id r \<noteq> su_id s \<longrightarrow> r \<in> set (d_subs (g (f s a))))"
    and "P (g a)" and "set xs \<subseteq> set (d_subs (g a))" and "distinct (map su_id xs)"
  shows "P (g (fold f xs a))"
  using assms
proof (induction xs arbitrary: a)
  case Nil
  then show ?case by simp
next
  case (Cons x xs)
  from Cons.prems(1) [of x a] Cons.prems(2,3) have x: "P (g (f x a))"
    "\<forall>r \<in> set (d_subs (g a)). su_id r \<noteq> su_id x \<longrightarrow> r \<in> set (d_subs (g (f x a)))" by simp_all
  have "set xs \<subseteq> set (d_subs (g (f x a)))"
  proof
    fix r assume r: "r \<in> set xs"
    then have "su_id r \<in> su_id ` set xs" by (rule imageI)
    with Cons.prems(4) have "su_id r \<noteq> su_id x" by auto
    with r x(2) Cons.prems(3) show "r \<in> set (d_subs (g (f x a)))" by auto
  qed
  with Cons.IH [of "f x a"] Cons.prems(1,4) x(1) show ?case by simp
qed

lemma written_others:
  "written s w d d' \<Longrightarrow> r \<in> set (d_subs d) \<Longrightarrow> su_id r \<noteq> su_id s \<Longrightarrow> r \<in> set (d_subs d')"
  by (force simp: written_def set_upd_where)

lemma distinct_filter_ids:
  "integrity d \<Longrightarrow> distinct (map su_id (filter P (d_subs d)))"
  by (intro distinct_map_filter integrityD(1))

lemma expire_written:
  "written s (\<lambda>r. r\<lparr>su_status := Expired, su_ends_at := Some now\<rparr>) d (expire_one e now s d)"
  unfolding expire_one_def by (rule written_record) simp

lemma expire_one_inv:
  "billing_inv c d \<Longrightarrow> s \<in> set (d_subs d) \<Longrightarrow> billing_inv c (expire_one e now s d)"
  by (rule still_inv [OF _ _ expire_written]) (simp_all add: is_operational_def)

lemma expire_due_trials_inv:
  assumes inv: "billing_inv c d"
  shows "billing_inv c (snd (expire_due_trials e d on))"
proof -
  have "billing_inv c (id (fold (expire_one e now) (filter (trial_is_due now) (d_subs d)) d))" for now
    by (rule batch_inv)
      (use inv in \<open>auto simp: billing_inv_def [of c d] intro: expire_one_inv distinct_filter_ids
         dest: written_others [OF expire_written]\<close>)
  then show ?thesis by (simp add: expire_due_trials_def Let_def)
qed

lemma basculer_un_cases:
  obtains "snd (basculer_un e essai s (r, d)) = d"
    | "written s (\<lambda>x. x\<lparr>su_plan := pl_id essai\<rparr>) d (snd (basculer_un e essai s (r, d)))"
      and "pl_monitored_assets essai \<le> pl_monitored_assets (plan_of d s)"
      and "pl_status (plan_of d s) \<noteq> Internal"
proof (cases "pl_status (plan_of d s) = Internal \<or> refus_de_capacite (plan_of d s) essai")
  case True
  then show ?thesis by (intro that(1)) (auto simp: basculer_un_def Let_def)
next
  case False
  then show ?thesis
    by (intro that(2)) (simp_all add: basculer_un_def Let_def refus_de_capacite_def written_record)
qed

lemma basculer_un_inv:
  assumes inv: "billing_inv c d" and s: "s \<in> set (d_subs d)" and p: "essai \<in> set (d_plans d)"
  shows "billing_inv c (snd (basculer_un e essai s (r, d)))"
proof (rule basculer_un_cases [of e essai s r d])
  let ?w = "\<lambda>x. x\<lparr>su_plan := pl_id essai\<rparr>"
  assume w: "written s ?w d (snd (basculer_un e essai s (r, d)))"
    and le: "pl_monitored_assets essai \<le> pl_monitored_assets (plan_of d s)"
  have "plan_of d (?w s) = essai"
    using plan_row_in [OF integrityD(3) p] inv by (simp add: plan_of_def billing_inv_def)
  with le have "slots_of d (?w s) \<le> slots_of d s"
    by (simp add: slots_of_def is_operational_def monitored_assets_quota_def or_plan_def split: option.split)
  then show ?thesis
    by (intro written_inv_shrink [OF inv s w]) (use p inv_parts(6) [OF inv s] in simp_all)
qed (use inv in simp)

lemma basculer_un_plans: "d_plans (snd (basculer_un e essai s (r, d))) = d_plans d"
  by (rule basculer_un_cases [of e essai s r d]) (simp_all add: written_def)

lemma basculer_essais_inv:
  assumes inv: "billing_inv c d"
  shows "billing_inv c (snd (basculer_essais e d code))"
proof (cases "find (\<lambda>p. pl_code p = code) (d_plans d)")
  case None
  with inv show ?thesis by (simp add: basculer_essais_def)
next
  case (Some essai)
  then have p: "essai \<in> set (d_plans d)" by (blast dest: find_SomeD)
  let ?xs = "filter (\<lambda>s. su_status s = Trial \<and> su_plan s \<noteq> pl_id essai) (d_subs d)"
  have "(\<lambda>d. billing_inv c d \<and> essai \<in> set (d_plans d)) (snd (fold (basculer_un e essai) ?xs (r, d)))" for r
  proof (rule batch_inv)
    fix s and a :: "rapport \<times> db"
    assume "billing_inv c (snd a) \<and> essai \<in> set (d_plans (snd a))" and "s \<in> set (d_subs (snd a))"
    then have "billing_inv c (snd (basculer_un e essai s a))"
      and "essai \<in> set (d_plans (snd (basculer_un e essai s a)))"
      by (cases a; simp add: basculer_un_inv basculer_un_plans)+
    moreover have "r \<in> set (d_subs (snd (basculer_un e essai s a)))"
      if "r \<in> set (d_subs (snd a))" "su_id r \<noteq> su_id s" for r
      by (rule basculer_un_cases [of e essai s "fst a" "snd a"]) (use that in \<open>auto dest: written_others\<close>)
    ultimately show "(billing_inv c (snd (basculer_un e essai s a)) \<and>
          essai \<in> set (d_plans (snd (basculer_un e essai s a)))) \<and>
        (\<forall>r \<in> set (d_subs (snd a)). su_id r \<noteq> su_id s \<longrightarrow> r \<in> set (d_subs (snd (basculer_un e essai s a))))"
      by blast
  qed (use inv p in \<open>auto simp: billing_inv_def intro: distinct_filter_ids\<close>)
  then show ?thesis by (simp add: basculer_essais_def Some)
qed

section \<open>The catalogue services\<close>

lemma plan_unchanged_inv:
  assumes inv: "billing_inv c d" and d': "d_subs d' = d_subs d" "d_events d' = d_events d"
    and i: "integrity d'" and co: "\<forall>p \<in> set (d_plans d'). 0 \<le> pl_monitored_assets p"
    and pl: "\<And>s. s \<in> set (d_subs d) \<Longrightarrow> plan_of d' s = plan_of d s"
  shows "billing_inv c d'"
proof -
  have "monitored_slots_committed d' = monitored_slots_committed d"
    unfolding monitored_slots_committed_def projected_monitored_slots_def
    by (rule arg_cong [where f = "\<lambda>x. x + 0"], rule arg_cong [where f = sum_list])
      (auto simp: d' pl intro!: map_cong)
  with inv i co d' show ?thesis by (simp add: billing_inv_def columns_ok_def journal_ok_def)
qed

lemma duplicate_plan_integrity:
  assumes i: "integrity d" and p: "p \<in> set (d_plans d)"
    and ok: "duplicate_plan d p code name = Inr (p', d')"
  obtains q where "integrity d'" and "d' = d\<lparr>d_seq := d_seq d + 1, d_plans := q # d_plans d\<rparr>"
    and "pl_id q = d_seq d + 1" and "pl_monitored_assets q = pl_monitored_assets p"
proof -
  let ?q = "(plan_row (d_plans d) (pl_id p))\<lparr>pl_id := d_seq d + 1, pl_code := code,
              pl_name := name, pl_status := Draft, pl_is_highlighted := False,
              pl_display_order := pl_display_order p + 1\<rparr>"
  from ok have code: "code \<notin> pl_code ` set (d_plans d)"
    and d': "d' = d\<lparr>d_seq := d_seq d + 1, d_plans := ?q # d_plans d\<rparr>"
    by (auto simp: duplicate_plan_def Let_def split: if_splits)
  have row: "plan_row (d_plans d) (pl_id p) = p" by (rule plan_row_in [OF integrityD(3) [OF i] p])
  have fresh: "pl_id r \<noteq> d_seq d + 1" if "r \<in> set (d_plans d)" for r
    using integrityD(7) [OF i that] by simp
  have "integrity d'" using integrityD [OF i] code fresh by (fastforce simp: integrity_def d')
  then show ?thesis by (rule that [OF _ d']) (simp_all add: row)
qed

lemma duplicate_plan_inv:
  assumes inv: "billing_inv c d" and p: "p \<in> set (d_plans d)"
    and ok: "duplicate_plan d p code name = Inr (p', d')"
  shows "billing_inv c d'"
proof -
  from inv have i: "integrity d" and co: "columns_ok d" by (simp_all add: billing_inv_def)
  obtain q where q: "integrity d'" "d' = d\<lparr>d_seq := d_seq d + 1, d_plans := q # d_plans d\<rparr>"
    "pl_id q = d_seq d + 1" "pl_monitored_assets q = pl_monitored_assets p"
    by (rule duplicate_plan_integrity [OF i p ok])
  show ?thesis
  proof (rule plan_unchanged_inv [OF inv _ _ q(1)])
    show "\<forall>r \<in> set (d_plans d'). 0 \<le> pl_monitored_assets r"
      using co p by (auto simp: q(2,4) columns_ok_def)
    fix s assume "s \<in> set (d_subs d)"
    then have "su_plan s \<noteq> d_seq d + 1" using integrityD(5,7) [OF i] by force
    then show "plan_of d' s = plan_of d s" by (simp add: q(2,3) plan_of_def plan_row_def)
  qed (simp_all add: q(2))
qed

lemma find_filter_other: "find P (filter Q xs) = find P xs" if "\<And>x. P x \<Longrightarrow> Q x" for P Q xs
  using that by (induction xs) auto

lemma delete_plan_integrity:
  assumes i: "integrity d" and ok: "delete_plan d p = Inr (name, d')"
  shows "integrity d' \<and> d' = d\<lparr>d_plans := filter (\<lambda>r. pl_id r \<noteq> pl_id p) (d_plans d)\<rparr> \<and>
         (\<forall>s \<in> set (d_subs d). su_plan s \<noteq> pl_id p)"
proof (intro conj3I)
  from ok show none: "\<forall>s \<in> set (d_subs d). su_plan s \<noteq> pl_id p"
    and d': "d' = d\<lparr>d_plans := filter (\<lambda>r. pl_id r \<noteq> pl_id p) (d_plans d)\<rparr>"
    by (auto simp: delete_plan_def can_delete_plan_def plan_subscriber_count_def Let_def filter_empty_conv
      split: if_splits sum.splits)
  show "integrity d'"
    using integrityD [OF i] none by (fastforce simp: integrity_def d' intro: distinct_map_filter)
qed

lemma delete_plan_inv:
  assumes inv: "billing_inv c d" and ok: "delete_plan d p = Inr (name, d')"
  shows "billing_inv c d'"
proof -
  from inv have i: "integrity d" and co: "columns_ok d" by (simp_all add: billing_inv_def)
  from delete_plan_integrity [OF i ok] have i': "integrity d'"
    and none: "\<And>s. s \<in> set (d_subs d) \<Longrightarrow> su_plan s \<noteq> pl_id p"
    and d': "d' = d\<lparr>d_plans := filter (\<lambda>r. pl_id r \<noteq> pl_id p) (d_plans d)\<rparr>" by blast+
  show ?thesis
  proof (rule plan_unchanged_inv [OF inv _ _ i'])
    show "\<forall>r \<in> set (d_plans d'). 0 \<le> pl_monitored_assets r"
      using co by (auto simp: d' columns_ok_def)
    fix s assume "s \<in> set (d_subs d)"
    from none [OF this] show "plan_of d' s = plan_of d s"
      by (simp add: d' plan_of_def plan_row_def) (subst find_filter_other, auto)
  qed (simp_all add: d')
qed


lemma quota_override_freeze_one:
  "quota_override f (freeze_one p g s) =
   (if f = g \<and> quota_override f s = None then Some (plan_quota f p) else quota_override f s)"
  by (cases f; cases g) (simp_all add: freeze_one_def)

lemma freeze_one_keeps [simp]:
  "su_id (freeze_one p g s) = su_id s" "su_tenant (freeze_one p g s) = su_tenant s"
  "su_plan (freeze_one p g s) = su_plan s" "su_status (freeze_one p g s) = su_status s"
  by (cases g; simp add: freeze_one_def)+

lemma freeze_keeps [simp]:
  "su_id (freeze p l s) = su_id s" "su_tenant (freeze p l s) = su_tenant s"
  "su_plan (freeze p l s) = su_plan s" "su_status (freeze p l s) = su_status s"
  unfolding freeze_def by (induction l arbitrary: s) simp_all

lemma quota_override_freeze:
  "quota_override f (freeze p l s) =
   (if f \<in> set l \<and> quota_override f s = None then Some (plan_quota f p) else quota_override f s)"
  unfolding freeze_def
  by (induction l arbitrary: s) (auto simp: quota_override_freeze_one)

definition quota_in_force :: "quota_field \<Rightarrow> plan \<Rightarrow> subscription \<Rightarrow> int" where
  "quota_in_force f p s = or_plan (quota_override f s) (plan_quota f p)"

lemma quota_in_force_simps:
  "quota_in_force QMonitored p s = monitored_assets_quota p s"
  "quota_in_force QScans p s = monthly_scans_quota p s"
  "quota_in_force QUsers p s = max_users_quota p s"
  by (simp_all add: quota_in_force_def monitored_assets_quota_def monthly_scans_quota_def
    max_users_quota_def)

lemma plan_quota_changes:
  "plan_quota f (apply_changes ch p) = or_plan (changed_quota ch f) (plan_quota f p)"
  by (cases f) (simp_all add: apply_changes_def)

lemma apply_changes_keeps [simp]:
  "pl_id (apply_changes ch p) = pl_id p" "pl_code (apply_changes ch p) = pl_code p"
  by (simp_all add: apply_changes_def)

text \<open>The rows after \<open>update_plan\<close>: the other plans and their subscriptions are as before.\<close>

definition updated_sub :: "plan \<Rightarrow> plan_changes \<Rightarrow> subscription \<Rightarrow> subscription" where
  "updated_sub p ch s =
     (if su_plan s = pl_id p then freeze p (filter (quota_lowered p ch) QUOTA_FIELDS) s else s)"

lemma updated_sub_keeps [simp]:
  "su_id (updated_sub p ch s) = su_id s" "su_tenant (updated_sub p ch s) = su_tenant s"
  "su_plan (updated_sub p ch s) = su_plan s" "su_status (updated_sub p ch s) = su_status s"
  by (simp_all add: updated_sub_def)

lemma update_plan_rows:
  assumes "update_plan d p ch = (p', diff, frozen, d')"
  shows "p' = apply_changes ch p" and "d_subs d' = map (updated_sub p ch) (d_subs d)"
    and "d_plans d' = map (\<lambda>r. if pl_id r = pl_id p then apply_changes ch p else r) (d_plans d)"
    and "d_events d' = d_events d" and "d_seq d' = d_seq d"
  using assms
  by (auto simp: update_plan_def plan_impact_of_def Let_def upd_where_def updated_sub_def freeze_def
    filter_empty_conv)

lemma updated_plan_of:
  assumes i: "integrity d" and p: "p \<in> set (d_plans d)" and s: "s \<in> set (d_subs d)"
    and ok: "update_plan d p ch = (p', diff, frozen, d')"
  shows "plan_of d' (updated_sub p ch s) = (if su_plan s = pl_id p then apply_changes ch p else plan_of d s)"
  using plan_row_map [where f = "\<lambda>r. if pl_id r = pl_id p then apply_changes ch p else r"
      and ps = "d_plans d" and pid = "su_plan s"]
    plan_row_ex [OF integrityD(5) [OF i s]] integrityD(5) [OF i s]
  by (simp add: plan_of_def update_plan_rows [OF ok])

lemma quota_override_updated:
  "quota_override f (updated_sub p ch s) =
   (if su_plan s = pl_id p \<and> quota_lowered p ch f \<and> quota_override f s = None
    then Some (plan_quota f p) else quota_override f s)"
proof -
  have "f \<in> set QUOTA_FIELDS" by (cases f) (simp_all add: QUOTA_FIELDS_def)
  then show ?thesis by (simp add: updated_sub_def quota_override_freeze)
qed

lemma own_plan:
  "integrity d \<Longrightarrow> p \<in> set (d_plans d) \<Longrightarrow> su_plan s = pl_id p \<Longrightarrow> plan_of d s = p"
  using plan_row_in [OF integrityD(3)] by (simp add: plan_of_def)

lemma updated_quota:
  assumes "integrity d" and "p \<in> set (d_plans d)" and "s \<in> set (d_subs d)"
    and "update_plan d p ch = (p', diff, frozen, d')"
  shows "quota_in_force f (plan_of d' (updated_sub p ch s)) (updated_sub p ch s) =
         (if su_plan s = pl_id p \<and> quota_override f s = None \<and> \<not> quota_lowered p ch f
          then or_plan (changed_quota ch f) (plan_quota f p)
          else quota_in_force f (plan_of d s) s)"
  unfolding quota_in_force_def updated_plan_of [OF assms] quota_override_updated
  using own_plan [OF assms(1,2), of s]
  by (simp add: plan_quota_changes or_plan_def split: option.split)

text \<open>A change that does not raise the slots leaves every engagement as it was.\<close>

lemma updated_slots:
  assumes "integrity d" and "p \<in> set (d_plans d)" and "s \<in> set (d_subs d)"
    and "update_plan d p ch = (p', diff, frozen, d')"
    and new: "\<And>v. ch_monitored_assets ch = Some v \<Longrightarrow> 0 \<le> v \<and> v \<le> pl_monitored_assets p"
  shows "slots_of d' (updated_sub p ch s) = slots_of d s"
proof -
  have "\<not> quota_lowered p ch QMonitored \<Longrightarrow>
      or_plan (changed_quota ch QMonitored) (plan_quota QMonitored p) = plan_quota QMonitored p"
    using new by (cases "ch_monitored_assets ch") (auto simp: quota_lowered_def or_plan_def)
  with updated_quota [OF assms(1-4), of QMonitored] own_plan [OF assms(1,2), of s]
  have "quota_in_force QMonitored (plan_of d' (updated_sub p ch s)) (updated_sub p ch s) =
        quota_in_force QMonitored (plan_of d s) s"
    by (auto simp: quota_in_force_def [of QMonitored "plan_of d s" s] or_plan_def)
  then show ?thesis by (simp add: slots_of_def is_operational_def quota_in_force_simps)
qed

lemma update_plan_integrity:
  assumes i: "integrity d" and p: "p \<in> set (d_plans d)"
    and ok: "update_plan d p ch = (p', diff, frozen, d')"
  shows "integrity d'"
proof -
  note rows = update_plan_rows [OF ok]
  have keys: "map su_id (d_subs d') = map su_id (d_subs d)"
    "map su_tenant (d_subs d') = map su_tenant (d_subs d)"
    "map pl_id (d_plans d') = map pl_id (d_plans d)"
    "map su_plan (d_subs d') = map su_plan (d_subs d)"
    by (simp_all add: rows)
  have codes: "map pl_code (d_plans d') = map pl_code (d_plans d)"
    using distinct_map_eq [OF integrityD(3) [OF i] _ p] by (auto simp: rows)
  have sets: "su_id ` set (d_subs d') = su_id ` set (d_subs d)"
    "pl_id ` set (d_plans d') = pl_id ` set (d_plans d)"
    "su_plan ` set (d_subs d') = su_plan ` set (d_subs d)"
    using keys by (metis list.set_map)+
  have "\<forall>s \<in> set (d_subs d'). su_id s \<le> d_seq d'" "\<forall>r \<in> set (d_plans d'). pl_id r \<le> d_seq d'"
    using integrityD(6,7) [OF i] integrityD(7) [OF i p] by (auto simp: rows)
  with i show ?thesis
    by (simp add: integrity_def keys codes sets rows(4))
qed

lemma update_plan_inv:
  assumes inv: "billing_inv c d" and p: "p \<in> set (d_plans d)"
    and ok: "update_plan d p ch = (p', diff, frozen, d')"
    and new: "\<And>v. ch_monitored_assets ch = Some v \<Longrightarrow> 0 \<le> v \<and> v \<le> pl_monitored_assets p"
  shows "billing_inv c d'"
proof -
  from inv have i: "integrity d" and co: "columns_ok d" and j: "journal_ok d"
    by (simp_all add: billing_inv_def)
  note rows = update_plan_rows [OF ok]
  have "0 \<le> or_plan (su_override_monitored_assets (updated_sub p ch s)) 0" if "s \<in> set (d_subs d)" for s
    using co that p quota_override_updated [of QMonitored p ch s] by (simp add: columns_ok_def or_plan_def)
  moreover have "0 \<le> pl_monitored_assets (apply_changes ch p)"
    using co p new plan_quota_changes [of QMonitored ch p]
    by (cases "ch_monitored_assets ch") (simp_all add: columns_ok_def or_plan_def)
  ultimately have "columns_ok d'"
    using co by (auto simp: columns_ok_def rows)
  moreover have "journal_ok d'" using j by (simp add: journal_ok_def rows)
  moreover have "monitored_slots_committed d' \<le> c"
  proof (rule pool.shrink_within)
    show "monitored_slots_committed d \<le> c" using inv by (simp add: billing_inv_def)
    show "monitored_slots_committed d' \<le> monitored_slots_committed d"
      using updated_slots [OF i p _ ok new]
      by (simp add: monitored_slots_committed_def projected_slots rows comp_def sum_list_mono_rows)
  qed
  ultimately show ?thesis
    using update_plan_integrity [OF i p ok] by (simp add: billing_inv_def)
qed


section \<open>The services as steps\<close>

text \<open>
  One rule per service, called on rows of the database as it is, on a platform whose pool holds
  \<open>c\<close> slots. \<open>update_plan\<close> is a step as long as it does not raise the slots of the plan: that
  change has no guard in the code (see \<open>update_plan_can_oversell\<close>). A negative quota is refused
  by the column.
\<close>

inductive billing_step :: "int \<Rightarrow> db \<Rightarrow> db \<Rightarrow> bool" for c where
  step_start_trial: "monitored_slot_capacity e = Inr c \<Longrightarrow>
    (\<And>p. plan = Some p \<Longrightarrow> p \<in> set (d_plans d)) \<Longrightarrow>
    start_trial e d t plan actor n = Inr (s', d') \<Longrightarrow> billing_step c d d'"
| step_activate: "monitored_slot_capacity e = Inr c \<Longrightarrow> s \<in> set (d_subs d) \<Longrightarrow>
    activate e d s per actor why = Inr (s', d') \<Longrightarrow> billing_step c d d'"
| step_suspend: "s \<in> set (d_subs d) \<Longrightarrow> suspend e d s actor why = (s', d') \<Longrightarrow> billing_step c d d'"
| step_cancel: "s \<in> set (d_subs d) \<Longrightarrow> cancel_with e d s actor cause = (s', d') \<Longrightarrow> billing_step c d d'"
| step_change_plan: "monitored_slot_capacity e = Inr c \<Longrightarrow> s \<in> set (d_subs d) \<Longrightarrow>
    p \<in> set (d_plans d) \<Longrightarrow> change_plan e d s p actor why = Inr (s', d') \<Longrightarrow> billing_step c d d'"
| step_expire: "billing_step c d (snd (expire_due_trials e d on))"
| step_payment: "billing_step c d (record_payment d s amount received ref note actor)"
| step_trial_end: "s \<in> set (d_subs d) \<Longrightarrow> set_trial_end e d s ends actor why = Inr (s', d') \<Longrightarrow>
    billing_step c d d'"
| step_quotas: "monitored_slot_capacity e = Inr c \<Longrightarrow> s \<in> set (d_subs d) \<Longrightarrow>
    (\<And>v. ov_monitored_assets ov = Some (Some v) \<Longrightarrow> 0 \<le> v) \<Longrightarrow>
    set_quota_overrides e d s ov actor = Inr (s', d') \<Longrightarrow> billing_step c d d'"
| step_features: "s \<in> set (d_subs d) \<Longrightarrow> set_feature_overrides e d s keys actor = Inr (s', d') \<Longrightarrow>
    billing_step c d d'"
| step_clear_features: "s \<in> set (d_subs d) \<Longrightarrow> clear_feature_overrides e d s actor = (s', d') \<Longrightarrow>
    billing_step c d d'"
| step_notes: "s \<in> set (d_subs d) \<Longrightarrow> set_internal_notes d s notes = (s', d') \<Longrightarrow> billing_step c d d'"
| step_switch: "billing_step c d (snd (basculer_essais e d code))"
| step_update_plan: "p \<in> set (d_plans d) \<Longrightarrow> update_plan d p ch = (p', diff, frozen, d') \<Longrightarrow>
    (\<And>v. ch_monitored_assets ch = Some v \<Longrightarrow> 0 \<le> v \<and> v \<le> pl_monitored_assets p) \<Longrightarrow>
    billing_step c d d'"
| step_duplicate: "p \<in> set (d_plans d) \<Longrightarrow> duplicate_plan d p code name = Inr (p', d') \<Longrightarrow>
    billing_step c d d'"
| step_delete: "delete_plan d p = Inr (name, d') \<Longrightarrow> billing_step c d d'"

lemma billing_step_inv: "billing_step c d d' \<Longrightarrow> billing_inv c d \<Longrightarrow> billing_inv c d'"
  by (induction rule: billing_step.induct)
    (blast intro: start_trial_inv activate_inv suspend_inv cancel_with_inv change_plan_inv
      expire_due_trials_inv record_payment_inv set_trial_end_inv set_quota_overrides_inv
      set_feature_overrides_inv clear_feature_overrides_inv set_internal_notes_inv
      basculer_essais_inv update_plan_inv duplicate_plan_inv delete_plan_inv)+

lemma reachable_inv: "(billing_step c)\<^sup>*\<^sup>* d d' \<Longrightarrow> billing_inv c d \<Longrightarrow> billing_inv c d'"
  by (induction rule: rtranclp_induct) (auto intro: billing_step_inv)

section \<open>The journal, whatever the services\<close>

text \<open>
  The journal asks nothing of the pool: \<open>billing_service\<close> is every call of a billing service, on any
  platform \<open>e\<close> (hence any setting of the pool, changed as often as one likes between two calls), any
  quotas, plan edits that raise the slots included. What it keeps is \<open>traced\<close>.
\<close>

inductive billing_service :: "db \<Rightarrow> db \<Rightarrow> bool" where
  serve_start_trial: "(\<And>p. plan = Some p \<Longrightarrow> p \<in> set (d_plans d)) \<Longrightarrow>
    start_trial e d t plan actor n = Inr (s', d') \<Longrightarrow> billing_service d d'"
| serve_activate: "s \<in> set (d_subs d) \<Longrightarrow> activate e d s per actor why = Inr (s', d') \<Longrightarrow> billing_service d d'"
| serve_suspend: "s \<in> set (d_subs d) \<Longrightarrow> suspend e d s actor why = (s', d') \<Longrightarrow> billing_service d d'"
| serve_cancel: "s \<in> set (d_subs d) \<Longrightarrow> cancel_with e d s actor cause = (s', d') \<Longrightarrow> billing_service d d'"
| serve_change_plan: "s \<in> set (d_subs d) \<Longrightarrow> p \<in> set (d_plans d) \<Longrightarrow>
    change_plan e d s p actor why = Inr (s', d') \<Longrightarrow> billing_service d d'"
| serve_expire: "billing_service d (snd (expire_due_trials e d on))"
| serve_payment: "billing_service d (record_payment d s amount received ref note actor)"
| serve_trial_end: "s \<in> set (d_subs d) \<Longrightarrow> set_trial_end e d s ends actor why = Inr (s', d') \<Longrightarrow>
    billing_service d d'"
| serve_quotas: "s \<in> set (d_subs d) \<Longrightarrow> set_quota_overrides e d s ov actor = Inr (s', d') \<Longrightarrow>
    billing_service d d'"
| serve_features: "s \<in> set (d_subs d) \<Longrightarrow> set_feature_overrides e d s keys actor = Inr (s', d') \<Longrightarrow>
    billing_service d d'"
| serve_clear_features: "s \<in> set (d_subs d) \<Longrightarrow> clear_feature_overrides e d s actor = (s', d') \<Longrightarrow>
    billing_service d d'"
| serve_notes: "s \<in> set (d_subs d) \<Longrightarrow> set_internal_notes d s notes = (s', d') \<Longrightarrow> billing_service d d'"
| serve_switch: "billing_service d (snd (basculer_essais e d code))"
| serve_update_plan: "p \<in> set (d_plans d) \<Longrightarrow> update_plan d p ch = (p', diff, frozen, d') \<Longrightarrow>
    billing_service d d'"
| serve_duplicate: "p \<in> set (d_plans d) \<Longrightarrow> duplicate_plan d p code name = Inr (p', d') \<Longrightarrow>
    billing_service d d'"
| serve_delete: "delete_plan d p = Inr (name, d') \<Longrightarrow> billing_service d d'"

definition traced :: "db \<Rightarrow> bool" where
  "traced d = (integrity d \<and> journal_ok d)"

lemma tracedD: "traced d \<Longrightarrow> integrity d" "traced d \<Longrightarrow> journal_ok d"
  by (simp_all add: traced_def)

lemma written_traced:
  assumes "traced d" and "s \<in> set (d_subs d)" and "written s w d d'"
    and "\<And>r. su_id (w r) = su_id r" "\<And>r. su_tenant (w r) = su_tenant r"
    and "su_plan (w s) = su_plan s \<or> su_plan (w s) \<in> pl_id ` set (d_plans d)"
  shows "traced d'"
proof -
  note i = tracedD(1) [OF assms(1)] and j = tracedD(2) [OF assms(1)]
  have fk: "su_plan (w s) \<in> pl_id ` set (d_plans d)"
    using assms(6) integrityD(5) [OF i assms(2)] by auto
  show ?thesis
    unfolding traced_def
    using written_integrity [OF i assms(2-5) fk] written_journal [OF i assms(2,3) assms(4) j] by simp
qed

lemma start_trial_traced:
  assumes tr: "traced d" and plan: "\<And>p. plan = Some p \<Longrightarrow> p \<in> set (d_plans d)"
    and ok: "start_trial e d t plan actor n = Inr (s, d')"
  shows "traced d'"
  using ok
proof (rule start_trial_result)
  fix p m v
  assume none: "get_subscription d t = None"
    and p: "plan = Some p \<or> plan = None \<and> get_default_trial_plan e d = Some p"
    and s: "s = new_trial (d_seq d + 1) t (pl_id p) (e_now e) m"
    and d': "d_subs d' = s # d_subs d" "d_plans d' = d_plans d" "d_seq d' = d_seq d + 1"
      "d_events d' = v # d_events d" "ev_subscription v = d_seq d + 1" "ev_to_status v = Trial"
  note i = tracedD(1) [OF tr] and j = tracedD(2) [OF tr]
  from p plan default_plan_in have pin: "p \<in> set (d_plans d)" by blast
  have fresh: "su_tenant r \<noteq> t" if "r \<in> set (d_subs d)" for r
    using none that by (auto simp: get_subscription_def find_None_iff)
  have "integrity d'" using integrityD [OF i] pin fresh by (fastforce simp: integrity_def d' s new_trial_def)
  moreover have "journal_ok d'"
    using j integrityD(6) [OF i] by (fastforce simp: journal_ok_def d' s new_trial_def)
  ultimately show ?thesis by (simp add: traced_def)
qed

lemma activate_traced:
  assumes "traced d" and "s \<in> set (d_subs d)" and "activate e d s per actor why = Inr (s', d')"
  shows "traced d'"
  using assms(3) by (rule activate_result) (use assms(1,2) written_traced in blast)+

lemma suspend_traced:
  "traced d \<Longrightarrow> s \<in> set (d_subs d) \<Longrightarrow> suspend e d s actor why = (s', d') \<Longrightarrow> traced d'"
  unfolding suspend_def Let_def
  by (rule written_traced [where w = "\<lambda>r. r\<lparr>su_status := Suspended\<rparr>"]) (auto intro: written_record)

lemma cancel_with_traced:
  "traced d \<Longrightarrow> s \<in> set (d_subs d) \<Longrightarrow> cancel_with e d s actor why = (s', d') \<Longrightarrow> traced d'"
  unfolding cancel_with_def Let_def
  by (rule written_traced [where w = "\<lambda>r. r\<lparr>su_status := Cancelled, su_ends_at := Some (e_now e)\<rparr>"])
    (auto intro: written_record)

lemma set_trial_end_traced:
  "traced d \<Longrightarrow> s \<in> set (d_subs d) \<Longrightarrow> set_trial_end e d s ends actor why = Inr (s', d') \<Longrightarrow> traced d'"
  unfolding set_trial_end_def Let_def
  by (rule written_traced [where w = "\<lambda>r. r\<lparr>su_trial_ends_at := Some ends\<rparr>"])
    (auto intro: written_record split: if_splits)

lemma set_internal_notes_traced:
  "traced d \<Longrightarrow> s \<in> set (d_subs d) \<Longrightarrow> set_internal_notes d s notes = (s', d') \<Longrightarrow> traced d'"
  unfolding set_internal_notes_def Let_def
  by (rule written_traced [where w = "\<lambda>r. r\<lparr>su_internal_notes := notes\<rparr>"]) (auto simp: written_def)

lemma record_payment_traced: "traced d \<Longrightarrow> traced (record_payment d s amount received ref note actor)"
  by (simp add: record_payment_def traced_def integrity_def journal_ok_def)

lemma change_plan_traced:
  assumes tr: "traced d" and s: "s \<in> set (d_subs d)" and p: "p \<in> set (d_plans d)"
    and ok: "change_plan e d s p actor why = Inr (s', d')"
  shows "traced d'"
proof (cases "pl_id p = su_plan s")
  case True
  with ok tr show ?thesis by (simp add: change_plan_def)
next
  case False
  let ?w = "\<lambda>r. r\<lparr>su_plan := pl_id p, su_override_monitored_assets := None,
                     su_override_monthly_scans := None, su_override_max_users := None,
                     su_override_features := None\<rparr>"
  from ok False have w: "written s ?w d d'"
    by (auto simp: change_plan_def Let_def rbind_Inr_iff dest!: after_alerts_Inr
      intro: written_alerts [OF written_record])
  show ?thesis by (rule written_traced [OF tr s w]) (use p in simp_all)
qed

lemma write_overrides_keeps:
  "su_id (write_overrides ch r) = su_id r" "su_tenant (write_overrides ch r) = su_tenant r"
  "su_plan (write_overrides ch r) = su_plan r"
  by (simp_all add: write_overrides_def)

lemma set_quota_overrides_traced:
  assumes tr: "traced d" and s: "s \<in> set (d_subs d)"
    and ok: "set_quota_overrides e d s ov actor = Inr (s', d')"
  shows "traced d'"
proof (cases "nothing_changed (changed_overrides ov s)")
  case True
  with ok tr show ?thesis by (simp add: set_quota_overrides_def)
next
  case False
  from ok False have w: "written s (write_overrides (changed_overrides ov s)) d d'"
    by (auto simp: set_quota_overrides_def Let_def rbind_Inr_iff write_overrides_def
      dest!: after_alerts_Inr intro: written_alerts [OF written_record])
  show ?thesis by (rule written_traced [OF tr s w]) (simp_all add: write_overrides_keeps)
qed

lemma set_feature_overrides_traced:
  assumes "traced d" and "s \<in> set (d_subs d)"
    and "set_feature_overrides e d s keys actor = Inr (s', d')"
  shows "traced d'"
proof -
  let ?w = "\<lambda>r. r\<lparr>su_override_features := Some (sanitize keys)\<rparr>"
  from assms(3) have "d' = d \<or> written s ?w d d'"
    by (auto simp: set_feature_overrides_def Let_def intro: written_record split: if_splits)
  with assms(1) written_traced [OF assms(1,2), of ?w d'] show ?thesis by auto
qed

lemma clear_feature_overrides_traced:
  assumes "traced d" and "s \<in> set (d_subs d)"
    and "clear_feature_overrides e d s actor = (s', d')"
  shows "traced d'"
proof -
  let ?w = "\<lambda>r. r\<lparr>su_override_features := None\<rparr>"
  from assms(3) have "d' = d \<or> written s ?w d d'"
    by (auto simp: clear_feature_overrides_def Let_def intro: written_record split: if_splits)
  with assms(1) written_traced [OF assms(1,2), of ?w d'] show ?thesis by auto
qed

lemma expire_one_traced: "traced d \<Longrightarrow> s \<in> set (d_subs d) \<Longrightarrow> traced (expire_one e now s d)"
  by (rule written_traced [OF _ _ expire_written]) simp_all

lemma expire_due_trials_traced:
  assumes tr: "traced d"
  shows "traced (snd (expire_due_trials e d on))"
proof -
  have "traced (id (fold (expire_one e now) (filter (trial_is_due now) (d_subs d)) d))" for now
    by (rule batch_inv)
      (use tr in \<open>auto simp: traced_def [of d] intro: expire_one_traced distinct_filter_ids
         dest: written_others [OF expire_written]\<close>)
  then show ?thesis by (simp add: expire_due_trials_def Let_def)
qed

lemma basculer_un_traced:
  assumes tr: "traced d" and s: "s \<in> set (d_subs d)" and p: "essai \<in> set (d_plans d)"
  shows "traced (snd (basculer_un e essai s (r, d)))"
proof (rule basculer_un_cases [of e essai s r d])
  assume w: "written s (\<lambda>x. x\<lparr>su_plan := pl_id essai\<rparr>) d (snd (basculer_un e essai s (r, d)))"
  show ?thesis by (rule written_traced [OF tr s w]) (use p in simp_all)
qed (use tr in simp)

lemma basculer_essais_traced:
  assumes tr: "traced d"
  shows "traced (snd (basculer_essais e d code))"
proof (cases "find (\<lambda>p. pl_code p = code) (d_plans d)")
  case None
  with tr show ?thesis by (simp add: basculer_essais_def)
next
  case (Some essai)
  then have p: "essai \<in> set (d_plans d)" by (blast dest: find_SomeD)
  let ?xs = "filter (\<lambda>s. su_status s = Trial \<and> su_plan s \<noteq> pl_id essai) (d_subs d)"
  have "(\<lambda>d. traced d \<and> essai \<in> set (d_plans d)) (snd (fold (basculer_un e essai) ?xs (r, d)))" for r
  proof (rule batch_inv)
    fix s and a :: "rapport \<times> db"
    assume "traced (snd a) \<and> essai \<in> set (d_plans (snd a))" and "s \<in> set (d_subs (snd a))"
    then have "traced (snd (basculer_un e essai s a))"
      and "essai \<in> set (d_plans (snd (basculer_un e essai s a)))"
      by (cases a; simp add: basculer_un_traced basculer_un_plans)+
    moreover have "r \<in> set (d_subs (snd (basculer_un e essai s a)))"
      if "r \<in> set (d_subs (snd a))" "su_id r \<noteq> su_id s" for r
      by (rule basculer_un_cases [of e essai s "fst a" "snd a"]) (use that in \<open>auto dest: written_others\<close>)
    ultimately show "(traced (snd (basculer_un e essai s a)) \<and>
          essai \<in> set (d_plans (snd (basculer_un e essai s a)))) \<and>
        (\<forall>r \<in> set (d_subs (snd a)). su_id r \<noteq> su_id s \<longrightarrow> r \<in> set (d_subs (snd (basculer_un e essai s a))))"
      by blast
  qed (use tr p in \<open>auto simp: traced_def intro: distinct_filter_ids\<close>)
  then show ?thesis by (simp add: basculer_essais_def Some)
qed

lemma update_plan_traced:
  assumes "traced d" and "p \<in> set (d_plans d)" and "update_plan d p ch = (p', diff, frozen, d')"
  shows "traced d'"
  using update_plan_integrity [OF tracedD(1) [OF assms(1)] assms(2,3)] tracedD(2) [OF assms(1)]
  by (simp add: traced_def journal_ok_def update_plan_rows [OF assms(3)])

lemma duplicate_plan_traced:
  assumes "traced d" and "p \<in> set (d_plans d)" and "duplicate_plan d p code name = Inr (p', d')"
  shows "traced d'"
  by (rule duplicate_plan_integrity [OF tracedD(1) [OF assms(1)] assms(2,3)])
    (use tracedD(2) [OF assms(1)] in \<open>simp add: traced_def journal_ok_def\<close>)

lemma delete_plan_traced:
  assumes "traced d" and "delete_plan d p = Inr (name, d')"
  shows "traced d'"
  using delete_plan_integrity [OF tracedD(1) [OF assms(1)] assms(2)] tracedD(2) [OF assms(1)]
  by (auto simp: traced_def journal_ok_def)

lemma billing_service_traced: "billing_service d d' \<Longrightarrow> traced d \<Longrightarrow> traced d'"
  by (induction rule: billing_service.induct)
    (blast intro: start_trial_traced activate_traced suspend_traced cancel_with_traced change_plan_traced
      expire_due_trials_traced record_payment_traced set_trial_end_traced set_quota_overrides_traced
      set_feature_overrides_traced clear_feature_overrides_traced set_internal_notes_traced
      basculer_essais_traced update_plan_traced duplicate_plan_traced delete_plan_traced)+

lemma services_traced: "billing_service\<^sup>*\<^sup>* d d' \<Longrightarrow> traced d \<Longrightarrow> traced d'"
  by (induction rule: rtranclp_induct) (auto intro: billing_service_traced)

section \<open>What single services do\<close>

definition quota_le :: "int \<Rightarrow> int \<Rightarrow> bool" where
  "quota_le q q' = (q' = 0 \<or> q \<noteq> 0 \<and> q \<le> q')"

lemma quota_in_force_le:
  assumes "integrity d" and "p \<in> set (d_plans d)" and "s \<in> set (d_subs d)"
    and "update_plan d p ch = (p', diff, frozen, d')"
  shows "quota_le (quota_in_force f (plan_of d s) s)
           (quota_in_force f (plan_of d' (updated_sub p ch s)) (updated_sub p ch s))"
  unfolding updated_quota [OF assms]
  using own_plan [OF assms(1,2), of s]
  by (auto simp: quota_le_def quota_in_force_def quota_lowered_def or_plan_def split: option.splits)

lemma expire_fold:
  "d_subs (fold (expire_one e now) xs d) =
   upd_where (\<lambda>r. su_id r \<in> su_id ` set xs) (\<lambda>r. r\<lparr>su_status := Expired, su_ends_at := Some now\<rparr>) (d_subs d)"
proof (induction xs arbitrary: d)
  case Nil
  then show ?case by (simp add: upd_where_def)
next
  case (Cons x xs)
  have "d_subs (expire_one e now x d) =
      upd_where (\<lambda>r. su_id r = su_id x) (\<lambda>r. r\<lparr>su_status := Expired, su_ends_at := Some now\<rparr>) (d_subs d)"
    by (simp add: expire_one_def)
  with Cons.IH [of "expire_one e now x d"] show ?case by (simp add: upd_where_def)
qed

lemma due_ids:
  assumes "integrity d" and "r \<in> set (d_subs d)"
  shows "su_id r \<in> su_id ` set (filter P (d_subs d)) \<longleftrightarrow> P r"
  using distinct_map_eq [OF integrityD(1) [OF assms(1)] assms(2)] assms(2) by auto

lemma expire_subs:
  assumes "integrity d"
  shows "d_subs (snd (expire_due_trials e d (Some now))) =
         map (\<lambda>r. if trial_is_due now r then r\<lparr>su_status := Expired, su_ends_at := Some now\<rparr> else r) (d_subs d)"
  unfolding expire_due_trials_def
  by (simp add: Let_def expire_fold upd_where_def due_ids [OF assms] cong: map_cong del: set_filter)

definition switches :: "db \<Rightarrow> plan \<Rightarrow> subscription \<Rightarrow> bool" where
  "switches d essai s =
     (su_status s = Trial \<and> su_plan s \<noteq> pl_id essai \<and> pl_status (plan_of d s) \<noteq> Internal \<and>
      \<not> refus_de_capacite (plan_of d s) essai)"

lemma basculer_fold:
  "(\<And>s. s \<in> set xs \<Longrightarrow> su_status s = Trial \<and> su_plan s \<noteq> pl_id essai) \<Longrightarrow>
   fold (basculer_un e essai) xs (r, d) = (r', d') \<Longrightarrow>
   d_plans d' = d_plans d \<and>
   d_subs d' = upd_where (\<lambda>x. su_id x \<in> su_id ` set (filter (switches d essai) xs))
     (\<lambda>x. x\<lparr>su_plan := pl_id essai\<rparr>) (d_subs d) \<and>
   length (ra_basculees r') = length (ra_basculees r) + length (filter (switches d essai) xs) \<and>
   (filter (switches d essai) xs = [] \<longrightarrow> d' = d)"
proof (induction xs arbitrary: r d)
  case Nil
  then show ?case by (simp add: upd_where_def)
next
  case (Cons x xs)
  obtain r1 d1 where one: "basculer_un e essai x (r, d) = (r1, d1)" by (cases "basculer_un e essai x (r, d)")
  have sw: "switches d1 essai = switches d essai"
    using basculer_un_plans [of e essai x r d] by (simp add: one switches_def plan_of_def fun_eq_iff)
  have rest: "fold (basculer_un e essai) xs (r1, d1) = (r', d')" using Cons.prems(2) one by simp
  note ih = Cons.IH [OF _ rest, unfolded sw]
  show ?case
  proof (cases "switches d essai x")
    case True
    then have d1: "d_plans d1 = d_plans d"
      "d_subs d1 = upd_where (\<lambda>y. su_id y = su_id x) (\<lambda>y. y\<lparr>su_plan := pl_id essai\<rparr>) (d_subs d)"
      "length (ra_basculees r1) = Suc (length (ra_basculees r))"
      using one by (auto simp: basculer_un_def switches_def Let_def)
    from ih Cons.prems(1) True show ?thesis by (auto simp: d1 upd_where_def)
  next
    case False
    with Cons.prems(1) [of x] have "d1 = d" "ra_basculees r1 = ra_basculees r"
      using one by (auto simp: basculer_un_def switches_def Let_def split: if_splits)
    with ih Cons.prems(1) False show ?thesis by simp
  qed
qed

lemma basculer_closed:
  assumes i: "integrity d" and p: "find (\<lambda>p. pl_code p = code) (d_plans d) = Some essai"
    and ok: "basculer_essais e d code = (r, d')"
  shows "d_plans d' = d_plans d"
    and "d_subs d' = map (\<lambda>x. if switches d essai x then x\<lparr>su_plan := pl_id essai\<rparr> else x) (d_subs d)"
    and "length (ra_basculees r) = length (filter (switches d essai) (d_subs d))"
    and "filter (switches d essai) (d_subs d) = [] \<Longrightarrow> d' = d"
proof -
  let ?c = "\<lambda>s. su_status s = Trial \<and> su_plan s \<noteq> pl_id essai"
  have sw: "filter (switches d essai) (filter ?c (d_subs d)) = filter (switches d essai) (d_subs d)"
    by (auto simp: switches_def intro!: filter_cong)
  from ok p have "fold (basculer_un e essai) (filter ?c (d_subs d))
      (\<lparr>ra_basculees = [], ra_ignorees = [], ra_refusees = [], ra_empechement = None\<rparr>, d) = (r, d')"
    by (simp add: basculer_essais_def)
  from basculer_fold [OF _ this, unfolded sw] due_ids [OF i]
  show "d_plans d' = d_plans d"
    and "d_subs d' = map (\<lambda>x. if switches d essai x then x\<lparr>su_plan := pl_id essai\<rparr> else x) (d_subs d)"
    and "length (ra_basculees r) = length (filter (switches d essai) (d_subs d))"
    and "filter (switches d essai) (d_subs d) = [] \<Longrightarrow> d' = d"
    by (auto simp: upd_where_def simp del: filter_filter)
qed

definition composition_ok :: "plan \<Rightarrow> subscription \<Rightarrow> string set \<Rightarrow> bool" where
  "composition_ok p s ks =
     ((\<forall>k \<in> ks. set (DEPEND_DE k) \<subseteq> ks) \<and>
      (WATCHED_ACCOUNTS \<in> ks \<longrightarrow> watched_accounts_quota p s \<noteq> 0) \<and>
      (REALTIME_MONITORING \<in> ks \<longrightarrow> monitored_assets_quota p s \<noteq> 0))"

lemma composition_problems_empty:
  "composition_problems p s keys = [] \<longleftrightarrow> composition_ok p s (set (sanitize keys))"
  by (auto simp: composition_problems_def composition_ok_def Let_def QUOTA_REQUIS_def quota_value_def
    filter_empty_conv subset_iff)

section \<open>A platform to try the services on\<close>

definition demo_plan :: plan where
  "demo_plan = blank_plan\<lparr>pl_id := 1, pl_code := ''veille'', pl_name := ''Veille'', pl_status := Published,
     pl_monitored_assets := 3, pl_features := [TRAINING]\<rparr>"

definition demo_trial_plan :: plan where
  "demo_trial_plan = blank_plan\<lparr>pl_id := 2, pl_code := ''essai'', pl_name := ''Essai'', pl_status := Internal,
     pl_monitored_assets := 1\<rparr>"

definition demo_sub :: subscription where
  "demo_sub = new_trial 3 7 1 0 14"

definition demo_db :: db where
  "demo_db = empty_db\<lparr>d_seq := 3, d_plans := [demo_plan, demo_trial_plan], d_subs := [demo_sub],
     d_events := [\<lparr>ev_subscription = 3, ev_from_status = None, ev_to_status = Trial,
       ev_from_plan = '''', ev_to_plan = ''Veille'', ev_reason = Trial_opened 14, ev_actor = None,
       ev_created_at = 0\<rparr>]\<rparr>"

definition demo_env :: env where
  "demo_env = \<lparr>e_now = days 20, e_settings = \<lparr>st_rows = [], st_cache = None\<rparr>,
     e_environ = (\<lambda>_. Some (IntV 3)), e_trial_days = 14, e_trial_plan_code = '''',
     e_alert_email = '''', e_mail_ok = (\<lambda>_ _. True)\<rparr>"

lemmas demo = demo_plan_def demo_trial_plan_def demo_sub_def demo_db_def empty_db_def blank_plan_def
  new_trial_def

lemma demo_inv: "billing_inv 3 demo_db"
  by (simp add: billing_inv_def integrity_def columns_ok_def journal_ok_def demo or_plan_def
    monitored_slots_committed_def projected_monitored_slots_def is_operational_def
    monitored_assets_quota_def plan_of_def plan_row_def)

lemma demo_parts:
  "integrity demo_db" "columns_ok demo_db" "journal_ok demo_db" "monitored_slots_committed demo_db \<le> 3"
  using demo_inv by (simp_all add: billing_inv_def)

lemma demo_plan_in: "demo_plan \<in> set (d_plans demo_db)" and demo_sub_in: "demo_sub \<in> set (d_subs demo_db)"
  by (simp_all add: demo_db_def)

lemma demo_steps:
  "(billing_step 3)\<^sup>*\<^sup>* demo_db (snd (suspend demo_env demo_db demo_sub None ''''))"
proof -
  obtain s' d' where ok: "suspend demo_env demo_db demo_sub None '''' = (s', d')"
    by (metis prod.exhaust)
  from step_suspend [OF demo_sub_in ok] show ?thesis by (simp add: ok r_into_rtranclp)
qed

section \<open>Properties\<close>



text \<open>
  C2: Every transition is traced: from a database with sound keys whose journal tells the statuses,
  whatever billing services run, in any order, with any quotas, plan edits (those that raise the slots
  included) and settings of the pool between two calls, the last journal entry of each subscription
  tells the status the subscription has.
\<close>

theorem journal_tells_status:
  assumes "integrity d" and "journal_ok d" and "billing_service\<^sup>*\<^sup>* d d'" and "s \<in> set (d_subs d')"
  shows "\<exists>v. find (\<lambda>v. ev_subscription v = su_id s) (d_events d') = Some v \<and> ev_to_status v = su_status s"
  using services_traced [OF assms(3)] assms(1,2,4) by (auto simp: traced_def journal_ok_def)

theorem journal_tells_status_witness:
  "\<exists>d'. billing_service\<^sup>*\<^sup>* demo_db d' \<and> pl_monitored_assets (hd (d_plans d')) = 9 \<and>
     (\<exists>v. find (\<lambda>v. ev_subscription v = 3) (d_events d') = Some v \<and> ev_to_status v = Suspended)"
proof -
  let ?ch = "no_changes\<lparr>ch_monitored_assets := Some 9\<rparr>"
  obtain p' diff fr d1 where raise: "update_plan demo_db demo_plan ?ch = (p', diff, fr, d1)"
    by (metis prod.exhaust)
  note rows = update_plan_rows [OF raise]
  have kept: "updated_sub demo_plan ?ch demo_sub = demo_sub"
    by (simp add: updated_sub_def freeze_def QUOTA_FIELDS_def quota_lowered_def no_changes_def demo)
  have sub: "demo_sub \<in> set (d_subs d1)" using kept by (force simp: rows demo_db_def)
  obtain s' d2 where hold: "suspend demo_env d1 demo_sub None '''' = (s', d2)" by (metis prod.exhaust)
  have s': "s' = demo_sub\<lparr>su_status := Suspended\<rparr>" "d_plans d2 = d_plans d1"
    "s' \<in> set (d_subs d2)"
    using hold sub by (auto simp: suspend_def Let_def save_sub_def set_upd_where)
  have run: "billing_service\<^sup>*\<^sup>* demo_db d2"
    using serve_update_plan [OF demo_plan_in raise] serve_suspend [OF sub hold] by (rule rtranclp_trans [OF r_into_rtranclp r_into_rtranclp])
  from journal_tells_status [OF demo_parts(1,3) run s'(3)]
  have "\<exists>v. find (\<lambda>v. ev_subscription v = 3) (d_events d2) = Some v \<and> ev_to_status v = Suspended"
    by (simp add: s'(1) demo_sub_def new_trial_def)
  moreover have "pl_monitored_assets (hd (d_plans d2)) = 9"
    by (simp add: s'(2) rows(3) demo_db_def apply_changes_def or_plan_def no_changes_def)
  ultimately show ?thesis using run by blast
qed

text \<open>
  C3: Changing a plan never takes anything from a client who already has it: each of the three
  quotas in force is the same or larger afterwards, 0 (unlimited) being the largest.
\<close>

theorem update_plan_never_lowers:
  assumes "integrity d" and "p \<in> set (d_plans d)" and "s \<in> set (d_subs d)"
    and "update_plan d p ch = (p', diff, frozen, d')"
    and "s' \<in> set (d_subs d')" and "su_id s' = su_id s"
  shows "quota_le (monitored_assets_quota (plan_of d s) s) (monitored_assets_quota (plan_of d' s') s') \<and>
         quota_le (monthly_scans_quota (plan_of d s) s) (monthly_scans_quota (plan_of d' s') s') \<and>
         quota_le (max_users_quota (plan_of d s) s) (max_users_quota (plan_of d' s') s')"
proof -
  from assms(5) obtain r where r: "r \<in> set (d_subs d)" "s' = updated_sub p ch r"
    by (auto simp: update_plan_rows [OF assms(4)])
  with assms(6) only_row [OF assms(1,3)] have "s' = updated_sub p ch s" by simp
  with quota_in_force_le [OF assms(1-4), of QMonitored] quota_in_force_le [OF assms(1-4), of QScans]
    quota_in_force_le [OF assms(1-4), of QUsers]
  show ?thesis by (simp add: quota_in_force_simps)
qed

theorem update_plan_never_lowers_witness:
  "\<exists>s'. s' \<in> set (d_subs (snd (snd (snd (update_plan demo_db demo_plan (no_changes\<lparr>ch_monitored_assets := Some 1\<rparr>)))))) \<and>
        quota_le 3 (monitored_assets_quota demo_plan s')"
proof -
  let ?ch = "no_changes\<lparr>ch_monitored_assets := Some 1\<rparr>"
  let ?s' = "demo_sub\<lparr>su_override_monitored_assets := Some 3\<rparr>"
  obtain p' diff fr d' where ok: "update_plan demo_db demo_plan ?ch = (p', diff, fr, d')" by (metis prod.exhaust)
  have "updated_sub demo_plan ?ch demo_sub = ?s'"
    by (simp add: updated_sub_def freeze_def freeze_one_def QUOTA_FIELDS_def quota_lowered_def
      no_changes_def demo)
  then have mem: "?s' \<in> set (d_subs d')"
    by (simp add: update_plan_rows [OF ok] demo_db_def)
  from update_plan_never_lowers [OF demo_parts(1) demo_plan_in demo_sub_in ok mem]
  have "quota_le (monitored_assets_quota (plan_of demo_db demo_sub) demo_sub)
      (monitored_assets_quota (plan_of d' ?s') ?s')" by simp
  with mem ok show ?thesis
    by (intro exI [of _ ?s'])
      (simp add: monitored_assets_quota_def or_plan_def plan_of_def plan_row_def demo)
qed

text \<open>
  The pool is not protected against a change of the plan itself: raising the slots of a plan
  on sale engages them for every subscriber at once, without the guard, and can exceed the pool.
\<close>

theorem update_plan_can_oversell:
  "\<exists>d p ch p' diff frozen d'. billing_inv 3 d \<and> p \<in> set (d_plans d) \<and>
     update_plan d p ch = (p', diff, frozen, d') \<and> 3 < monitored_slots_committed d'"
proof -
  let ?ch = "no_changes\<lparr>ch_monitored_assets := Some 4\<rparr>"
  obtain p' diff fr d' where ok: "update_plan demo_db demo_plan ?ch = (p', diff, fr, d')" by (metis prod.exhaust)
  then have "3 < monitored_slots_committed d'"
    by (auto simp: update_plan_def plan_impact_of_def QUOTA_FIELDS_def quota_lowered_def no_changes_def
      demo Let_def monitored_slots_committed_def projected_monitored_slots_def is_operational_def
      monitored_assets_quota_def plan_of_def plan_row_def or_plan_def freeze_def apply_changes_def)
  with ok demo_inv demo_plan_in show ?thesis by blast
qed

text \<open>
  The expiry of trials does what it says and only once: it counts and expires exactly the
  trials whose end has passed, leaves every other subscription as it is, and a second pass at the
  same instant finds nothing and changes nothing.
\<close>

theorem expire_due_trials_once:
  assumes "integrity d" and "expire_due_trials e d (Some now) = (n, d')"
  shows "n = length (filter (trial_is_due now) (d_subs d)) \<and>
         d_subs d' = map (\<lambda>s. if trial_is_due now s
           then s\<lparr>su_status := Expired, su_ends_at := Some now\<rparr> else s) (d_subs d) \<and>
         expire_due_trials e' d' (Some now) = (0, d')"
proof -
  have n: "n = length (filter (trial_is_due now) (d_subs d))"
    using assms(2) by (simp add: expire_due_trials_def Let_def)
  have subs: "d_subs d' = map (\<lambda>s. if trial_is_due now s
      then s\<lparr>su_status := Expired, su_ends_at := Some now\<rparr> else s) (d_subs d)"
    using expire_subs [OF assms(1), of e now] assms(2) by simp
  have "filter (trial_is_due now) (d_subs d') = []"
    by (auto simp: subs filter_empty_conv trial_is_due_def)
  then have "expire_due_trials e' d' (Some now) = (0, d')" by (simp add: expire_due_trials_def)
  then show ?thesis using n subs by blast
qed

theorem expire_due_trials_once_example:
  "fst (expire_due_trials demo_env demo_db (Some (days 15))) = 1"
proof -
  obtain n d' where ok: "expire_due_trials demo_env demo_db (Some (days 15)) = (n, d')"
    by (metis prod.exhaust)
  from expire_due_trials_once [OF demo_parts(1) ok, of demo_env] ok show ?thesis
    by (simp add: demo trial_is_due_def days_def day_length_def)
qed

text \<open>
  The switch to the trial plan moves exactly the trials that are on another, non-internal plan
  with at least as many slots, touches nothing but their plan (negotiated quotas and features
  survive), and is idempotent: a second run moves nobody and leaves the database as it is.
\<close>

theorem basculer_essais_exact:
  assumes "integrity d" and "find (\<lambda>p. pl_code p = code) (d_plans d) = Some essai"
    and "basculer_essais e d code = (r, d')"
  shows "d_subs d' = map (\<lambda>s. if switches d essai s then s\<lparr>su_plan := pl_id essai\<rparr> else s) (d_subs d) \<and>
         a_agi r = (\<exists>s \<in> set (d_subs d). switches d essai s) \<and>
         (\<exists>r'. basculer_essais e' d' code = (r', d') \<and> \<not> a_agi r')"
proof -
  note closed = basculer_closed [OF assms]
  obtain r' d2 where again: "basculer_essais e' d' code = (r', d2)" by (metis prod.exhaust)
  let ?c = "\<lambda>s. su_status s = Trial \<and> su_plan s \<noteq> pl_id essai"
  have p': "find (\<lambda>p. pl_code p = code) (d_plans d') = Some essai" by (simp add: closed(1) assms(2))
  have pl: "plan_of d' s = plan_of d s" for s by (simp add: plan_of_def closed(1))
  have none: "filter (switches d' essai) (filter ?c (d_subs d')) = []"
    by (auto simp: closed(2) filter_empty_conv switches_def pl)
  from again p' have "fold (basculer_un e' essai) (filter ?c (d_subs d'))
      (\<lparr>ra_basculees = [], ra_ignorees = [], ra_refusees = [], ra_empechement = None\<rparr>, d') = (r', d2)"
    by (simp add: basculer_essais_def)
  from basculer_fold [OF _ this] none have "d2 = d'" and "ra_basculees r' = []"
    by (simp_all del: filter_filter)
  with again have "\<exists>r'. basculer_essais e' d' code = (r', d') \<and> \<not> a_agi r'"
    by (auto simp: a_agi_def)
  moreover have "a_agi r = (\<exists>s \<in> set (d_subs d). switches d essai s)"
  proof -
    have "a_agi r \<longleftrightarrow> filter (switches d essai) (d_subs d) \<noteq> []"
      using closed(3) by (metis a_agi_def length_0_conv)
    then show ?thesis by (simp add: filter_empty_conv)
  qed
  ultimately show ?thesis using closed(2) by simp
qed

theorem basculer_essais_exact_example:
  "\<exists>r d' r'. basculer_essais demo_env demo_db ''essai'' = (r, d') \<and> map su_plan (d_subs d') = [2] \<and>
     basculer_essais demo_env d' ''essai'' = (r', d') \<and> \<not> a_agi r'"
proof -
  obtain r d' where ok: "basculer_essais demo_env demo_db ''essai'' = (r, d')" by (metis prod.exhaust)
  have p: "find (\<lambda>p. pl_code p = ''essai'') (d_plans demo_db) = Some demo_trial_plan"
    by (simp add: demo)
  from basculer_essais_exact [OF demo_parts(1) p ok, of demo_env]
  have subs: "d_subs d' = map (\<lambda>s. if switches demo_db demo_trial_plan s
      then s\<lparr>su_plan := pl_id demo_trial_plan\<rparr> else s) (d_subs demo_db)"
    and again: "\<exists>r'. basculer_essais demo_env d' ''essai'' = (r', d') \<and> \<not> a_agi r'" by blast+
  from subs have "map su_plan (d_subs d') = [2]"
    by (simp add: switches_def plan_of_def plan_row_def refus_de_capacite_def demo)
  moreover from again obtain r' where "basculer_essais demo_env d' ''essai'' = (r', d') \<and> \<not> a_agi r'" ..
  ultimately show ?thesis
    using ok by (intro exI [of _ r] exI [of _ d'] exI [of _ r']) simp
qed

text \<open>
  A client's features can only be composed coherently: the composition is accepted exactly
  when every retained feature has the features it needs and a non-zero quota where it needs one,
  and the features in force are then the known keys among those given, whatever the plan offers.
\<close>

theorem set_feature_overrides_exact:
  "is_ok (set_feature_overrides e d s keys actor) =
     composition_ok (plan_of d s) s (set (sanitize keys)) \<and>
   (\<forall>s' d'. set_feature_overrides e d s keys actor = Inr (s', d') \<longrightarrow>
      su_override_features s' = Some (sanitize keys) \<and>
      effective_features (plan_of d' s') s' = sanitize keys \<and>
      composition_ok (plan_of d' s') s' (set (effective_features (plan_of d' s') s')))"
proof -
  have q: "composition_ok p (s\<lparr>su_override_features := x\<rparr>) ks = composition_ok p s ks" for p x ks
    by (simp add: composition_ok_def watched_accounts_quota_def monitored_assets_quota_def)
  have pl: "plan_of (record_event e s f t fp tp r a (save_sub w s d)) (s\<lparr>su_override_features := x\<rparr>) = plan_of d s"
    for f t fp tp r a w x by (simp add: plan_of_def)
  show ?thesis
    unfolding set_feature_overrides_def Let_def composition_problems_empty
    by (auto simp: q pl effective_features_def or_plan_def)
qed

theorem set_feature_overrides_exact_example:
  "\<not> is_ok (set_feature_overrides demo_env demo_db demo_sub [TRAINING_STUDIO] None) \<and>
   effective_features demo_plan
     (fst (projr (set_feature_overrides demo_env demo_db demo_sub [TRAINING, ''bogus''] None))) = [TRAINING]"
proof -
  have san: "sanitize [TRAINING, ''bogus''] = [TRAINING]" "sanitize [TRAINING_STUDIO] = [TRAINING_STUDIO]"
    by (simp_all add: sanitize_def feature_registry_def feature_keys)
  have comp: "composition_ok p s {TRAINING}" "\<not> composition_ok p s {TRAINING_STUDIO}" for p s
    by (simp_all add: composition_ok_def DEPEND_DE_def feature_keys)
  have "is_ok (set_feature_overrides demo_env demo_db demo_sub [TRAINING, ''bogus''] None)"
    using set_feature_overrides_exact [of demo_env demo_db demo_sub "[TRAINING, ''bogus'']" None]
    by (simp add: san comp)
  then obtain s' d' where ok: "set_feature_overrides demo_env demo_db demo_sub [TRAINING, ''bogus''] None = Inr (s', d')"
    by (auto simp: is_ok_iff)
  with set_feature_overrides_exact [of demo_env demo_db demo_sub "[TRAINING, ''bogus'']" None]
  have "su_override_features s' = Some [TRAINING]" by (simp add: san)
  then have "effective_features demo_plan s' = [TRAINING]"
    by (simp add: effective_features_def or_plan_def sanitize_def feature_registry_def feature_keys)
  moreover have "\<not> is_ok (set_feature_overrides demo_env demo_db demo_sub [TRAINING_STUDIO] None)"
    using set_feature_overrides_exact [of demo_env demo_db demo_sub "[TRAINING_STUDIO]" None]
    by (simp add: san comp)
  ultimately show ?thesis by (simp add: ok)
qed


end
