(* ===== verification/Accounts.thy ===== *)
theory Accounts
  imports Tables
begin

text \<open>
  Authentication hardening (accounts/services.py) and the two login views that drive it
  (accounts/views.py): the progressive lockout per account and per address, the second factor
  with its recovery codes, the login challenge and the one-time links that set a password.

  The cache is a map from keys to values with an expiry. What hashes, encrypts and verifies is
  third-party or cryptographic code and comes in as the record \<open>crypto\<close>; random tokens are
  arguments of the calls that draw them.
\<close>

section \<open>The cache\<close>

type_synonym ('k, 'v) cache = "'k \<Rightarrow> ('v \<times> time) option"

definition cache_get :: "time \<Rightarrow> ('k, 'v) cache \<Rightarrow> 'k \<Rightarrow> 'v option" where
  "cache_get now m k =
     (case m k of Some (v, expires) \<Rightarrow> if now < expires then Some v else None | None \<Rightarrow> None)"

definition cache_set :: "time \<Rightarrow> 'k \<Rightarrow> 'v \<Rightarrow> int \<Rightarrow> ('k, 'v) cache \<Rightarrow> ('k, 'v) cache" where
  "cache_set now k v timeout m = m(k := Some (v, now + timeout * second))"

definition cache_delete :: "'k \<Rightarrow> ('k, 'v) cache \<Rightarrow> ('k, 'v) cache" where
  "cache_delete k m = m(k := None)"

text \<open>\<open>incr\<close> keeps the expiry; on a missing key it raises, which is \<open>None\<close> here.\<close>

definition cache_incr :: "time \<Rightarrow> 'k \<Rightarrow> ('k, int) cache \<Rightarrow> (int \<times> ('k, int) cache) option" where
  "cache_incr now k m =
     (case m k of
        Some (n, expires) \<Rightarrow> if now < expires then Some (n + 1, m(k := Some (n + 1, expires))) else None
      | None \<Rightarrow> None)"

section \<open>State\<close>

datatype ident_kind = Account | Ip

type_synonym ident_key = "ident_kind \<times> string"

record totp =
  to_user :: int
  to_encrypted_secret :: string
  to_confirmed :: bool
  to_confirmed_at :: "time option"

record recovery_code =
  rc_user :: int
  rc_code_hash :: string
  rc_used_at :: "time option"

record auth =
  au_fail :: "(ident_key, int) cache"
  au_lock :: "(ident_key, time) cache"
  au_challenge :: "(string, int) cache"
  au_totp :: "totp list"
  au_codes :: "recovery_code list"
  au_db :: db

record crypto =
  cr_sha256 :: "string \<Rightarrow> string"
  cr_make_password :: "string \<Rightarrow> string"
  cr_check_password :: "string \<Rightarrow> string \<Rightarrow> bool"
  cr_key_configured :: bool
  cr_encrypt :: "string \<Rightarrow> string"
  cr_decrypt :: "string \<Rightarrow> string option"
  cr_totp_verify :: "string \<Rightarrow> string \<Rightarrow> time \<Rightarrow> bool"
  cr_authenticate :: "db \<Rightarrow> string \<Rightarrow> string \<Rightarrow> int option"

datatype accounts_error =
    Locked_out int
  | Totp_unavailable
  | Secret_unreadable
  | No_enrollment
  | Invalid_code
  | Link_invalid

section \<open>Progressive lockout\<close>

definition LOCKOUT_LADDER :: "(int \<times> int) list" where
  "LOCKOUT_LADDER = [(5, 60), (10, 5 * 60), (15, 15 * 60), (20, 60 * 60)]"

definition ATTEMPT_WINDOW_SECONDS :: int where
  "ATTEMPT_WINDOW_SECONDS = 15 * 60"

definition hashed_ident :: "crypto \<Rightarrow> string \<Rightarrow> string" where
  "hashed_ident cr ident = cr_sha256 cr (lower (strip ident))"

definition lockout_seconds_for :: "int \<Rightarrow> int option" where
  "lockout_seconds_for failures =
     fold (\<lambda>(threshold, seconds) duration. if threshold \<le> failures then Some seconds else duration)
       LOCKOUT_LADDER None"

text \<open>The cache keys of an attempt; an empty identifier is skipped.\<close>

definition ident_keys :: "crypto \<Rightarrow> string \<Rightarrow> string \<Rightarrow> ident_key list" where
  "ident_keys cr email ip =
     map (\<lambda>(kind, ident). (kind, hashed_ident cr ident))
       (filter (\<lambda>(kind, ident). ident \<noteq> '''') [(Account, email), (Ip, ip)])"

definition lock_remaining :: "time \<Rightarrow> auth \<Rightarrow> ident_key \<Rightarrow> int option" where
  "lock_remaining now st k =
     (case cache_get now (au_lock st) k of
        Some until \<Rightarrow> if 0 < until - now then Some ((until - now) div second) else None
      | None \<Rightarrow> None)"

definition check_not_locked_out ::
  "crypto \<Rightarrow> time \<Rightarrow> auth \<Rightarrow> string \<Rightarrow> string \<Rightarrow> accounts_error + unit" where
  "check_not_locked_out cr now st email ip =
     (case List.map_filter (lock_remaining now st) (ident_keys cr email ip) of
        [] \<Rightarrow> Inr ()
      | r # _ \<Rightarrow> Inl (Locked_out (max 1 r)))"

definition record_failure :: "time \<Rightarrow> ident_key \<Rightarrow> auth \<Rightarrow> auth" where
  "record_failure now k st =
     (case (case cache_incr now k (au_fail st) of
              Some r \<Rightarrow> r
            | None \<Rightarrow> (1, cache_set now k 1 ATTEMPT_WINDOW_SECONDS (au_fail st))) of
        (failures, fails) \<Rightarrow>
          (let st' = st\<lparr>au_fail := fails\<rparr>
           in case lockout_seconds_for failures of
                None \<Rightarrow> st'
              | Some secs \<Rightarrow>
                  st'\<lparr>au_lock := cache_set now k (now + secs * second) secs (au_lock st')\<rparr>))"

definition record_failed_attempt :: "crypto \<Rightarrow> time \<Rightarrow> auth \<Rightarrow> string \<Rightarrow> string \<Rightarrow> auth" where
  "record_failed_attempt cr now st email ip = fold (record_failure now) (ident_keys cr email ip) st"

definition clear_failure :: "ident_key \<Rightarrow> auth \<Rightarrow> auth" where
  "clear_failure k st =
     st\<lparr>au_fail := cache_delete k (au_fail st), au_lock := cache_delete k (au_lock st)\<rparr>"

definition clear_failed_attempts :: "crypto \<Rightarrow> auth \<Rightarrow> string \<Rightarrow> string \<Rightarrow> auth" where
  "clear_failed_attempts cr st email ip = fold clear_failure (ident_keys cr email ip) st"

section \<open>Second factor\<close>

definition encrypt_secret :: "crypto \<Rightarrow> string \<Rightarrow> accounts_error + string" where
  "encrypt_secret cr secret =
     (if cr_key_configured cr then Inr (cr_encrypt cr secret) else Inl Totp_unavailable)"

definition decrypt_secret :: "crypto \<Rightarrow> string \<Rightarrow> accounts_error + string" where
  "decrypt_secret cr encrypted =
     (if \<not> cr_key_configured cr then Inl Totp_unavailable
      else case cr_decrypt cr encrypted of Some s \<Rightarrow> Inr s | None \<Rightarrow> Inl Secret_unreadable)"

text \<open>\<open>update_or_create(user=user, ...)\<close>; \<open>secret\<close> is the one just drawn.\<close>

definition start_totp_enrollment :: "crypto \<Rightarrow> auth \<Rightarrow> int \<Rightarrow> string \<Rightarrow> accounts_error + auth" where
  "start_totp_enrollment cr st u secret =
     rbind (encrypt_secret cr secret) (\<lambda>enc.
       let row = \<lparr>to_user = u, to_encrypted_secret = enc, to_confirmed = False, to_confirmed_at = None\<rparr>
       in Inr (st\<lparr>au_totp := (if u \<in> to_user ` set (au_totp st)
             then upd_where (\<lambda>r. to_user r = u) (\<lambda>_. row) (au_totp st)
             else row # au_totp st)\<rparr>))"

definition verify_totp_code :: "crypto \<Rightarrow> time \<Rightarrow> totp \<Rightarrow> string \<Rightarrow> accounts_error + bool" where
  "verify_totp_code cr now c code =
     (if code = '''' then Inr False
      else rbind (decrypt_secret cr (to_encrypted_secret c)) (\<lambda>s. Inr (cr_totp_verify cr s code now)))"

definition generate_recovery_codes :: "crypto \<Rightarrow> auth \<Rightarrow> int \<Rightarrow> string list \<Rightarrow> auth" where
  "generate_recovery_codes cr st u codes =
     st\<lparr>au_codes := map (\<lambda>c. \<lparr>rc_user = u, rc_code_hash = cr_make_password cr c, rc_used_at = None\<rparr>) codes
          @ filter (\<lambda>r. rc_user r \<noteq> u) (au_codes st)\<rparr>"

definition confirm_totp_enrollment ::
  "crypto \<Rightarrow> time \<Rightarrow> auth \<Rightarrow> int \<Rightarrow> string \<Rightarrow> string list \<Rightarrow> accounts_error + auth" where
  "confirm_totp_enrollment cr now st u code codes =
     (case find (\<lambda>r. to_user r = u \<and> \<not> to_confirmed r) (au_totp st) of
        None \<Rightarrow> Inl No_enrollment
      | Some c \<Rightarrow>
          rbind (verify_totp_code cr now c code) (\<lambda>ok.
            if \<not> ok then Inl Invalid_code
            else Inr (generate_recovery_codes cr
              (st\<lparr>au_totp := upd_where (\<lambda>r. to_user r = u)
                 (\<lambda>r. r\<lparr>to_confirmed := True, to_confirmed_at := Some now\<rparr>) (au_totp st)\<rparr>) u codes)))"

definition disable_totp :: "auth \<Rightarrow> int \<Rightarrow> auth" where
  "disable_totp st u =
     st\<lparr>au_totp := filter (\<lambda>r. to_user r \<noteq> u) (au_totp st),
        au_codes := filter (\<lambda>r. rc_user r \<noteq> u) (au_codes st)\<rparr>"

definition get_confirmed_credential :: "auth \<Rightarrow> int \<Rightarrow> totp option" where
  "get_confirmed_credential st u = find (\<lambda>r. to_user r = u \<and> to_confirmed r) (au_totp st)"

definition is_totp_enabled :: "auth \<Rightarrow> int \<Rightarrow> bool" where
  "is_totp_enabled st u = (\<exists>r \<in> set (au_totp st). to_user r = u \<and> to_confirmed r)"

text \<open>The first unused code of the user that matches is marked as used, in place.\<close>

fun use_code :: "(recovery_code \<Rightarrow> bool) \<Rightarrow> time \<Rightarrow> recovery_code list \<Rightarrow> recovery_code list" where
  "use_code p now [] = []"
| "use_code p now (r # rs) = (if p r then r\<lparr>rc_used_at := Some now\<rparr> # rs else r # use_code p now rs)"

definition consume_recovery_code :: "crypto \<Rightarrow> time \<Rightarrow> auth \<Rightarrow> int \<Rightarrow> string \<Rightarrow> bool \<times> auth" where
  "consume_recovery_code cr now st u code =
     (let p = (\<lambda>r. rc_user r = u \<and> rc_used_at r = None \<and> cr_check_password cr code (rc_code_hash r))
      in if code = '''' then (False, st)
         else if \<exists>r \<in> set (au_codes st). p r
         then (True, st\<lparr>au_codes := use_code p now (au_codes st)\<rparr>)
         else (False, st))"

section \<open>Login challenge and login\<close>

definition MFA_CHALLENGE_TTL_SECONDS :: int where
  "MFA_CHALLENGE_TTL_SECONDS = 5 * 60"

definition create_mfa_challenge :: "time \<Rightarrow> auth \<Rightarrow> int \<Rightarrow> string \<Rightarrow> auth" where
  "create_mfa_challenge now st u token =
     st\<lparr>au_challenge := cache_set now token u MFA_CHALLENGE_TTL_SECONDS (au_challenge st)\<rparr>"

definition resolve_mfa_challenge :: "time \<Rightarrow> auth \<Rightarrow> string \<Rightarrow> user option" where
  "resolve_mfa_challenge now st token =
     (case cache_get now (au_challenge st) token of
        None \<Rightarrow> None
      | Some u \<Rightarrow> find (\<lambda>r. us_id r = u) (d_users (au_db st)))"

definition consume_mfa_challenge :: "auth \<Rightarrow> string \<Rightarrow> auth" where
  "consume_mfa_challenge st token = st\<lparr>au_challenge := cache_delete token (au_challenge st)\<rparr>"

datatype response =
    Too_many | Bad_credentials | Mfa_required string | Tokens int | Session_expired | Bad_code

text \<open>
  \<open>cr_authenticate\<close> is Django's \<open>authenticate\<close> over the user table; \<open>token\<close> is the challenge
  token drawn when there is one to draw.
\<close>

definition login ::
  "crypto \<Rightarrow> time \<Rightarrow> auth \<Rightarrow> string \<Rightarrow> string \<Rightarrow> string \<Rightarrow> string \<Rightarrow> response \<times> auth" where
  "login cr now st email password ip token =
     (case check_not_locked_out cr now st email ip of
        Inl _ \<Rightarrow> (Too_many, st)
      | Inr _ \<Rightarrow>
          (case cr_authenticate cr (au_db st) email password of
             None \<Rightarrow> (Bad_credentials, record_failed_attempt cr now st email ip)
           | Some u \<Rightarrow>
               if \<not> (\<exists>r \<in> set (d_users (au_db st)). us_id r = u \<and> us_is_active r)
               then (Bad_credentials, record_failed_attempt cr now st email ip)
               else
                 (let st' = clear_failed_attempts cr st email ip
                  in if is_totp_enabled st' u
                     then (Mfa_required token, create_mfa_challenge now st' u token)
                     else (Tokens u, st'))))"

definition two_factor_verify ::
  "crypto \<Rightarrow> time \<Rightarrow> auth \<Rightarrow> string \<Rightarrow> string \<Rightarrow> string \<Rightarrow> string \<Rightarrow> accounts_error + response \<times> auth" where
  "two_factor_verify cr now st token ip code recovery =
     (case resolve_mfa_challenge now st token of
        None \<Rightarrow> Inr (Session_expired, st)
      | Some u \<Rightarrow>
          (case check_not_locked_out cr now st (us_email u) ip of
             Inl _ \<Rightarrow> Inr (Too_many, st)
           | Inr _ \<Rightarrow>
               rbind (case get_confirmed_credential st (us_id u) of
                        None \<Rightarrow> Inr False
                      | Some c \<Rightarrow> if code = '''' then Inr False else verify_totp_code cr now c code)
               (\<lambda>by_code.
                 let (verified, st1) =
                       (if \<not> by_code \<and> recovery \<noteq> '''' then consume_recovery_code cr now st (us_id u) recovery
                        else (by_code, st))
                 in if \<not> verified
                    then Inr (Bad_code, record_failed_attempt cr now st1 (us_email u) ip)
                    else Inr (Tokens (us_id u),
                           consume_mfa_challenge (clear_failed_attempts cr st1 (us_email u) ip) token))))"

section \<open>One-time links\<close>

definition INVITATION_TTL_HOURS :: int where "INVITATION_TTL_HOURS = 72"
definition RESET_TTL_HOURS :: int where "RESET_TTL_HOURS = 2"

definition create_access_invitation ::
  "crypto \<Rightarrow> time \<Rightarrow> db \<Rightarrow> int \<Rightarrow> purpose \<Rightarrow> int option \<Rightarrow> int option \<Rightarrow> string \<Rightarrow> invitation \<times> db" where
  "create_access_invitation cr now d u what actor ttl_hours raw =
     (let closed = upd_where (\<lambda>i. in_user i = u \<and> in_purpose i = what \<and> in_used_at i = None)
                     (\<lambda>i. i\<lparr>in_used_at := Some now\<rparr>) (d_invitations d);
          hours = (case ttl_hours of Some h \<Rightarrow> h
                   | None \<Rightarrow> if what = Invitation then INVITATION_TTL_HOURS else RESET_TTL_HOURS);
          i = \<lparr>in_id = d_seq d + 1, in_user = u, in_purpose = what, in_token_hash = cr_sha256 cr raw,
               in_expires_at = now + hours * 3600 * second, in_used_at = None, in_created_by = actor\<rparr>
      in (i, d\<lparr>d_seq := d_seq d + 1, d_invitations := i # closed\<rparr>))"

definition resolve_access_invitation :: "crypto \<Rightarrow> time \<Rightarrow> db \<Rightarrow> string \<Rightarrow> invitation option" where
  "resolve_access_invitation cr now d raw =
     (case find (\<lambda>i. in_token_hash i = cr_sha256 cr raw) (d_invitations d) of
        None \<Rightarrow> None
      | Some i \<Rightarrow> if invitation_is_usable now i then Some i else None)"

definition user_email :: "db \<Rightarrow> int \<Rightarrow> string" where
  "user_email d u = (case find (\<lambda>r. us_id r = u) (d_users d) of Some r \<Rightarrow> us_email r | None \<Rightarrow> '''')"

definition accept_access_invitation ::
  "crypto \<Rightarrow> time \<Rightarrow> auth \<Rightarrow> string \<Rightarrow> string \<Rightarrow> accounts_error + int \<times> auth" where
  "accept_access_invitation cr now st raw password =
     (case resolve_access_invitation cr now (au_db st) raw of
        None \<Rightarrow> Inl Link_invalid
      | Some i \<Rightarrow>
          (let d = au_db st; u = in_user i;
               users = upd_where (\<lambda>r. us_id r = u)
                 (\<lambda>r. r\<lparr>us_password := Some (cr_make_password cr password), us_is_active := True\<rparr>) (d_users d);
               links = upd_where (\<lambda>r. in_id r = in_id i) (\<lambda>r. r\<lparr>in_used_at := Some now\<rparr>) (d_invitations d);
               st1 = st\<lparr>au_db := d\<lparr>d_users := users, d_invitations := links\<rparr>\<rparr>
           in Inr (u, clear_failed_attempts cr st1 (user_email d u) '''')))"

end
