(* ===== verification/Referentials.thy ===== *)
theory Referentials
  imports Tables
begin

text \<open>
  Which compliance referentials a tenant may use and read (assessments/services.py): the
  catalogue, assignment and logical withdrawal. The unique constraint on (tenant, referential)
  makes a pair of ids the key of an assignment.
\<close>

datatype referential_error = Not_assigned | Owned_by_other

definition active_assignment :: "int \<Rightarrow> int \<Rightarrow> assignment \<Rightarrow> bool" where
  "active_assignment t r a = (as_tenant a = t \<and> as_referential a = r \<and> as_revoked_at a = None)"

definition list_catalog :: "db \<Rightarrow> bool \<Rightarrow> referential list" where
  "list_catalog d include_inactive = filter (\<lambda>r. include_inactive \<or> rf_is_active r) (d_referentials d)"

definition assignable_referentials :: "db \<Rightarrow> int \<Rightarrow> referential list" where
  "assignable_referentials d t =
     filter (\<lambda>r. rf_owner_tenant r = None \<or> rf_owner_tenant r = Some t) (list_catalog d False)"

definition default_referentials :: "db \<Rightarrow> referential list" where
  "default_referentials d =
     filter (\<lambda>r. rf_is_active r \<and> rf_kind r = Open_content \<and> rf_owner_tenant r = None) (d_referentials d)"

definition granted_referentials :: "db \<Rightarrow> int \<Rightarrow> referential list" where
  "granted_referentials d t =
     filter (\<lambda>r. rf_is_active r \<and> (\<exists>a \<in> set (d_assignments d). active_assignment t (rf_id r) a))
       (d_referentials d)"

text \<open>\<open>assessed\<close> holds the ids of the referentials the tenant has an assessment on.\<close>

definition readable_referentials :: "db \<Rightarrow> int set \<Rightarrow> int \<Rightarrow> referential list" where
  "readable_referentials d assessed t =
     filter (\<lambda>r. (\<exists>a \<in> set (d_assignments d). active_assignment t (rf_id r) a) \<or> rf_id r \<in> assessed)
       (d_referentials d)"

definition is_granted :: "db \<Rightarrow> int \<Rightarrow> int \<Rightarrow> bool" where
  "is_granted d t r = (\<exists>a \<in> set (d_assignments d). active_assignment t r a)"

definition is_readable :: "db \<Rightarrow> int set \<Rightarrow> int \<Rightarrow> int \<Rightarrow> bool" where
  "is_readable d assessed t r = (is_granted d t r \<or> r \<in> assessed)"

definition ensure_granted :: "db \<Rightarrow> int \<Rightarrow> int \<Rightarrow> referential_error + unit" where
  "ensure_granted d t r = (if is_granted d t r then Inr () else Inl Not_assigned)"

definition assign_referential ::
  "db \<Rightarrow> int \<Rightarrow> referential \<Rightarrow> int option \<Rightarrow> string \<Rightarrow> referential_error + db" where
  "assign_referential d t r granted_by note =
     (if rf_owner_tenant r \<noteq> None \<and> rf_owner_tenant r \<noteq> Some t then Inl Owned_by_other
      else if \<exists>a \<in> set (d_assignments d). as_tenant a = t \<and> as_referential a = rf_id r
      then Inr (d\<lparr>d_assignments :=
             upd_where (\<lambda>a. as_tenant a = t \<and> as_referential a = rf_id r \<and> as_revoked_at a \<noteq> None)
               (\<lambda>a. a\<lparr>as_revoked_at := None, as_revoked_by := None,
                      as_note := (if note \<noteq> '''' then note else as_note a)\<rparr>) (d_assignments d)\<rparr>)
      else Inr (d\<lparr>d_assignments := \<lparr>as_tenant = t, as_referential = rf_id r, as_granted_by = granted_by,
             as_revoked_at = None, as_revoked_by = None, as_note = note\<rparr> # d_assignments d\<rparr>))"

definition revoke_referential :: "time \<Rightarrow> db \<Rightarrow> int \<Rightarrow> int \<Rightarrow> int option \<Rightarrow> db" where
  "revoke_referential now d t r revoked_by =
     d\<lparr>d_assignments := upd_where (active_assignment t r)
         (\<lambda>a. a\<lparr>as_revoked_at := Some now, as_revoked_by := revoked_by\<rparr>) (d_assignments d)\<rparr>"

section \<open>Lemmas\<close>

lemma assign_grants:
  assumes "assign_referential d t r g n = Inr d'"
  shows "is_granted d' t' r' \<longleftrightarrow> is_granted d t' r' \<or> t' = t \<and> r' = rf_id r"
proof (cases "\<exists>a \<in> set (d_assignments d). as_tenant a = t \<and> as_referential a = rf_id r")
  case True
  let ?p = "\<lambda>a. as_tenant a = t \<and> as_referential a = rf_id r \<and> as_revoked_at a \<noteq> None"
  let ?f = "\<lambda>a :: assignment. a\<lparr>as_revoked_at := None, as_revoked_by := None,
      as_note := (if n \<noteq> '''' then n else as_note a)\<rparr>"
  from assms True have "d_assignments d' = upd_where ?p ?f (d_assignments d)"
    by (auto simp: assign_referential_def split: if_splits)
  then have "is_granted d' t' r' \<longleftrightarrow>
      (\<exists>a \<in> set (d_assignments d). active_assignment t' r' (if ?p a then ?f a else a))"
    by (simp add: is_granted_def bex_upd_where)
  also have "\<dots> \<longleftrightarrow> (\<exists>a \<in> set (d_assignments d). active_assignment t' r' a \<or>
      as_tenant a = t \<and> as_referential a = rf_id r \<and> t' = t \<and> r' = rf_id r)"
    by (rule bex_cong) (auto simp: active_assignment_def)
  also have "\<dots> \<longleftrightarrow> is_granted d t' r' \<or> t' = t \<and> r' = rf_id r"
    using True by (auto simp: is_granted_def)
  finally show ?thesis .
next
  case False
  with assms obtain a where "d_assignments d' = a # d_assignments d"
    and "as_tenant a = t" "as_referential a = rf_id r" "as_revoked_at a = None"
    by (auto simp: assign_referential_def split: if_splits)
  then show ?thesis by (auto simp: is_granted_def active_assignment_def [of _ _ a])
qed

lemma revoke_withdraws:
  "is_granted (revoke_referential now d t r by_whom) t' r' \<longleftrightarrow> is_granted d t' r' \<and> \<not> (t' = t \<and> r' = r)"
proof -
  have "is_granted (revoke_referential now d t r by_whom) t' r' \<longleftrightarrow>
      (\<exists>a \<in> set (d_assignments d). active_assignment t' r' a \<and> \<not> (t' = t \<and> r' = r))"
  proof -
    have "d_assignments (revoke_referential now d t r by_whom) = upd_where (active_assignment t r)
         (\<lambda>a. a\<lparr>as_revoked_at := Some now, as_revoked_by := by_whom\<rparr>) (d_assignments d)"
      by (simp add: revoke_referential_def)
    then show ?thesis
      unfolding is_granted_def
      by (simp only: bex_upd_where) (rule bex_cong, auto simp: active_assignment_def)
  qed
  then show ?thesis by (auto simp: is_granted_def)
qed

section \<open>Properties\<close>

text \<open>
  Access to a referential is exactly what was last decided: assigning grants that tenant that
  referential and nothing else, withdrawing takes away exactly that, a referential owned by another
  tenant can never be assigned, and a tenant always keeps reading what it has assessments on.
\<close>

theorem referential_access_exact:
  "(\<forall>d'. assign_referential d t r g n = Inr d' \<longrightarrow>
      (\<forall>t' r'. is_granted d' t' r' \<longleftrightarrow> is_granted d t' r' \<or> t' = t \<and> r' = rf_id r)) \<and>
   (\<forall>t' r'. is_granted (revoke_referential now d t (rf_id r) by_whom) t' r' \<longleftrightarrow>
      is_granted d t' r' \<and> \<not> (t' = t \<and> r' = rf_id r)) \<and>
   (assign_referential d t r g n = Inl Owned_by_other \<longleftrightarrow>
      rf_owner_tenant r \<noteq> None \<and> rf_owner_tenant r \<noteq> Some t) \<and>
   (rf_id r \<in> assessed \<longrightarrow> is_readable (revoke_referential now d t (rf_id r) by_whom) assessed t (rf_id r))"
  by (auto simp: assign_grants revoke_withdraws assign_referential_def is_readable_def)

theorem referential_access_exact_example:
  "\<exists>d'. assign_referential empty_db 1 \<lparr>rf_id = 5, rf_slug = ''anssi'', rf_name = ''ANSSI'',
      rf_kind = Open_content, rf_owner_tenant = None, rf_is_active = True\<rparr> None '''' = Inr d' \<and>
    is_granted d' 1 5 \<and> \<not> is_granted d' 2 5"
proof -
  let ?r = "\<lparr>rf_id = 5, rf_slug = ''anssi'', rf_name = ''ANSSI'', rf_kind = Open_content,
    rf_owner_tenant = None, rf_is_active = True\<rparr>"
  obtain d' where ok: "assign_referential empty_db 1 ?r None '''' = Inr d'"
    by (simp add: assign_referential_def empty_db_def)
  have none: "\<not> is_granted empty_db a b" for a b by (simp add: is_granted_def empty_db_def)
  from ok referential_access_exact [of empty_db 1 ?r None "''''" 0 None "{}"]
  have "\<forall>t' r'. is_granted d' t' r' \<longleftrightarrow> is_granted empty_db t' r' \<or> t' = 1 \<and> r' = rf_id ?r"
    by blast
  with none have "is_granted d' 1 5" "\<not> is_granted d' 2 5" by simp_all
  with ok show ?thesis by blast
qed

end
