(* ===== verification/Tenants.thy ===== *)
theory Tenants
  imports Accounts Catalogue Entitlements Referentials
begin

text \<open>
  The tenants app: creating, editing, archiving and deleting a company, its members and their
  roles (tenants/services.py), the request scoping that isolates one company from another
  (tenants/middleware.py, managers.py, context.py, permissions.py), and the administrators of the
  platform (platform_admin/services.py). A raised error leaves the database as it was. Django's
  \<open>slugify\<close> is the parameter \<open>slugify\<close>.
\<close>

datatype tenant_error =
    Name_required
  | Name_taken string
  | Email_required
  | Unknown_role
  | Already_member
  | Last_admin
  | Not_archived
  | Protected_row
  | Billing_refused billing_error
  | Quota_refused entitlement_error

fun lift_error :: "('e \<Rightarrow> 'f) \<Rightarrow> 'e + 'a \<Rightarrow> 'f + 'a" where
  "lift_error f (Inl e) = Inl (f e)"
| "lift_error f (Inr a) = Inr a"

section \<open>Slugs\<close>

definition numbered :: "string \<Rightarrow> nat \<Rightarrow> string" where
  "numbered base n = base @ ''-'' @ show_nat n"

lemma show_nat_inj: "show_nat m = show_nat n \<Longrightarrow> m = n"
  by (metis of_nat_eq_iff option.inject parse_show_nat)

lemma numbered_inj: "numbered base m = numbered base n \<Longrightarrow> m = n"
  using show_nat_inj by (simp add: numbered_def)

definition numbers_above :: "string \<Rightarrow> nat \<Rightarrow> string list \<Rightarrow> nat set" where
  "numbers_above base counter used = {n. counter < n \<and> numbered base n \<in> set used}"

lemma finite_numbers_above: "finite (numbers_above base counter used)"
proof -
  have "inj_on (numbered base) (numbers_above base counter used)"
    by (intro inj_onI) (rule numbered_inj)
  moreover have "numbered base ` numbers_above base counter used \<subseteq> set used"
    by (auto simp: numbers_above_def)
  ultimately show ?thesis by (metis finite_subset inj_on_finite List.finite_set)
qed

lemma numbers_above_Suc:
  "numbers_above base counter used =
   (if numbered base (Suc counter) \<in> set used then insert (Suc counter) (numbers_above base (Suc counter) used)
    else numbers_above base (Suc counter) used)"
  unfolding numbers_above_def by (auto simp: Suc_lessI less_Suc_eq_le) (metis Suc_lessI)+

function slug_loop :: "string \<Rightarrow> nat \<Rightarrow> string \<Rightarrow> string list \<Rightarrow> string" where
  "slug_loop base counter slug used =
     (if slug \<in> set used then slug_loop base (Suc counter) (numbered base (Suc counter)) used else slug)"
  by pat_completeness auto

termination
proof (relation "measure (\<lambda>(base, counter, slug, used).
    2 * card (numbers_above base counter used) + (if slug \<in> set used then 1 else 0))", goal_cases)
  case 1
  show ?case by simp
next
  case (2 base counter slug used)
  have "Suc counter \<notin> numbers_above base (Suc counter) used" by (simp add: numbers_above_def)
  then show ?case
    using 2 finite_numbers_above [of base "Suc counter" used]
    by (simp add: numbers_above_Suc [of base counter used])
qed

declare slug_loop.simps [simp del]

definition unique_slug :: "(string \<Rightarrow> string) \<Rightarrow> db \<Rightarrow> string \<Rightarrow> string" where
  "unique_slug slugify d name =
     (let s = take 200 (slugify name); base = (if s = '''' then ''entreprise'' else s)
      in slug_loop base 1 base (map te_slug (d_tenants d)))"

section \<open>Companies\<close>

text \<open>The editable columns of a company, each given or not.\<close>

record tenant_fields =
  tf_name :: "string option"
  tf_sector :: "string option"
  tf_headcount :: "int option option"
  tf_contact_email :: "string option"
  tf_contact_phone :: "string option"
  tf_address :: "string option"
  tf_website :: "string option"
  tf_account_manager :: "string option"
  tf_internal_notes :: "string option"
  tf_scan_cooldown_minutes :: "int option option"

definition no_fields :: tenant_fields where
  "no_fields = \<lparr>tf_name = None, tf_sector = None, tf_headcount = None, tf_contact_email = None,
     tf_contact_phone = None, tf_address = None, tf_website = None, tf_account_manager = None,
     tf_internal_notes = None, tf_scan_cooldown_minutes = None\<rparr>"

definition set_fields :: "tenant_fields \<Rightarrow> tenant \<Rightarrow> tenant" where
  "set_fields f t =
     t\<lparr>te_name := or_plan (tf_name f) (te_name t), te_sector := or_plan (tf_sector f) (te_sector t),
       te_headcount := or_plan (tf_headcount f) (te_headcount t),
       te_contact_email := or_plan (tf_contact_email f) (te_contact_email t),
       te_contact_phone := or_plan (tf_contact_phone f) (te_contact_phone t),
       te_address := or_plan (tf_address f) (te_address t),
       te_website := or_plan (tf_website f) (te_website t),
       te_account_manager := or_plan (tf_account_manager f) (te_account_manager t),
       te_internal_notes := or_plan (tf_internal_notes f) (te_internal_notes t),
       te_scan_cooldown_minutes := or_plan (tf_scan_cooldown_minutes f) (te_scan_cooldown_minutes t)\<rparr>"

datatype tenant_value = FText string | FInt "int option"

definition snapshot_tenant :: "tenant \<Rightarrow> (string \<times> tenant_value) list" where
  "snapshot_tenant t =
     [(''name'', FText (te_name t)), (''sector'', FText (te_sector t)),
      (''headcount'', FInt (te_headcount t)), (''contact_email'', FText (te_contact_email t)),
      (''contact_phone'', FText (te_contact_phone t)), (''address'', FText (te_address t)),
      (''website'', FText (te_website t)), (''account_manager'', FText (te_account_manager t)),
      (''internal_notes'', FText (te_internal_notes t)),
      (''scan_cooldown_minutes'', FInt (te_scan_cooldown_minutes t))]"

definition new_tenant :: "int \<Rightarrow> string \<Rightarrow> string \<Rightarrow> tenant" where
  "new_tenant i name slug =
     \<lparr>te_id = i, te_name = name, te_slug = slug, te_sector = '''', te_headcount = None,
      te_is_active = True, te_ai_enabled = True, te_scan_cooldown_minutes = None,
      te_contact_email = '''', te_contact_phone = '''', te_address = '''', te_website = '''',
      te_account_manager = '''', te_internal_notes = '''', te_archived_at = None,
      te_archived_by = None, te_archive_reason = ''''\<rparr>"

definition name_clash :: "db \<Rightarrow> string \<Rightarrow> int option \<Rightarrow> bool" where
  "name_clash d name but =
     (\<exists>t \<in> set (d_tenants d). lower (te_name t) = lower name \<and> \<not> is_archived t \<and> but \<noteq> Some (te_id t))"

definition insert_tenant :: "tenant \<Rightarrow> int \<Rightarrow> db \<Rightarrow> db" where
  "insert_tenant t owner d =
     d\<lparr>d_seq := d_seq d + 2, d_tenants := t # d_tenants d,
       d_memberships := \<lparr>me_id = d_seq d + 2, me_tenant = te_id t, me_user = owner, me_role = Admin\<rparr>
         # d_memberships d\<rparr>"

text \<open>
  A refusal for want of capacity undoes the creation; any other failure to open the trial is
  absorbed, and the free referentials are assigned in their order until one fails.
\<close>

fun assign_all :: "int \<Rightarrow> referential list \<Rightarrow> db \<Rightarrow> db" where
  "assign_all t [] d = d"
| "assign_all t (r # rs) d =
     (case assign_referential d t r None '''' of Inl _ \<Rightarrow> d | Inr d' \<Rightarrow> assign_all t rs d')"

definition create_tenant_with_owner ::
  "(string \<Rightarrow> string) \<Rightarrow> env \<Rightarrow> db \<Rightarrow> string \<Rightarrow> int \<Rightarrow> string \<Rightarrow> int option \<Rightarrow> tenant_error + tenant \<times> db" where
  "create_tenant_with_owner slugify e d name owner sector headcount =
     (let t = (new_tenant (d_seq d + 1) name (unique_slug slugify d name))
            \<lparr>te_sector := sector, te_headcount := headcount\<rparr>;
          d1 = insert_tenant t owner d
      in case start_trial e d1 (te_id t) None (Some owner) None of
           Inl (Slots_exceeded p c r) \<Rightarrow> Inl (Billing_refused (Slots_exceeded p c r))
         | Inl _ \<Rightarrow> Inr (t, assign_all (te_id t) (default_referentials d1) d1)
         | Inr (_, d2) \<Rightarrow> Inr (t, assign_all (te_id t) (default_referentials d2) d2))"

text \<open>The person invited: the account of that address, or a new one that cannot log in yet.\<close>

definition new_user :: "int \<Rightarrow> string \<Rightarrow> string \<Rightarrow> string \<Rightarrow> user" where
  "new_user i email first_name last_name =
     \<lparr>us_id = i, us_email = email, us_first_name = first_name, us_last_name = last_name,
      us_is_active = False, us_is_staff = False, us_password = None\<rparr>"

definition user_by_email :: "db \<Rightarrow> string \<Rightarrow> user option" where
  "user_by_email d email = find (\<lambda>u. lower (us_email u) = lower email) (d_users d)"

definition invitee :: "db \<Rightarrow> string \<Rightarrow> string \<Rightarrow> string \<Rightarrow> user \<times> db" where
  "invitee d email first_name last_name =
     (case user_by_email d email of
        Some u \<Rightarrow> (u, d)
      | None \<Rightarrow>
          (let u = new_user (d_seq d + 1) email first_name last_name
           in (u, d\<lparr>d_seq := d_seq d + 1, d_users := u # d_users d\<rparr>)))"

definition create_client ::
  "crypto \<Rightarrow> (string \<Rightarrow> string) \<Rightarrow> env \<Rightarrow> db \<Rightarrow> string \<Rightarrow> string \<Rightarrow> plan option \<Rightarrow> string \<Rightarrow> int option \<Rightarrow>
   string \<Rightarrow> string \<Rightarrow> int option \<Rightarrow> tenant_fields \<Rightarrow> string \<Rightarrow>
   tenant_error + (tenant \<times> user \<times> subscription \<times> string) \<times> db" where
  "create_client cr slugify e d name0 email0 plan engagement trial_days first_name last_name actor fs raw =
     (let name = strip name0; email = lower (strip email0)
      in if name = '''' then Inl Name_required
         else if name_clash d name None then Inl (Name_taken name)
         else if email = '''' then Inl Email_required
         else
           (case invitee d email first_name last_name of
              (u, d1) \<Rightarrow>
                (let t = set_fields (fs\<lparr>tf_name := None\<rparr>)
                           (new_tenant (d_seq d1 + 1) name (unique_slug slugify d1 name));
                     d2 = insert_tenant t (us_id u) d1
                 in rbind (lift_error Billing_refused (start_trial e d2 (te_id t) plan actor trial_days)) (\<lambda>(s, d3).
                    rbind (if engagement = ''active''
                           then lift_error Billing_refused (activate e d3 s None actor
                                  (''Client cr'' @ [CHR 0xE9, CHR 0xE9] @ '' directement en abonnement actif.''))
                           else Inr (s, d3)) (\<lambda>(s', d4).
                      case create_access_invitation cr (e_now e) d4 (us_id u) Invitation actor None raw of
                        (_, d5) \<Rightarrow> Inr ((t, u, s', raw), d5))))))"

definition update_tenant ::
  "db \<Rightarrow> tenant \<Rightarrow> tenant_fields \<Rightarrow>
   tenant_error + (tenant \<times> (string \<times> tenant_value option \<times> tenant_value) list) \<times> db" where
  "update_tenant d t fs =
     rbind (case tf_name fs of None \<Rightarrow> Inr fs
            | Some n \<Rightarrow>
                (let name = strip n
                 in if name = '''' then Inl Name_required
                    else if name_clash d name (Some (te_id t)) then Inl (Name_taken name)
                    else Inr (fs\<lparr>tf_name := Some name\<rparr>))) (\<lambda>f.
       let t' = set_fields f t
       in Inr ((t', diff_fields (snapshot_tenant t) (snapshot_tenant t')), d\<lparr>d_tenants := upd_where (\<lambda>r. te_id r = te_id t) (\<lambda>_. t') (d_tenants d)\<rparr>))"

definition save_tenant :: "(tenant \<Rightarrow> tenant) \<Rightarrow> tenant \<Rightarrow> db \<Rightarrow> db" where
  "save_tenant w t d = d\<lparr>d_tenants := upd_where (\<lambda>r. te_id r = te_id t) w (d_tenants d)\<rparr>"

definition archive_tenant :: "env \<Rightarrow> db \<Rightarrow> tenant \<Rightarrow> int option \<Rightarrow> string \<Rightarrow> tenant \<times> db" where
  "archive_tenant e d t actor why =
     (if is_archived t then (t, d)
      else
        let d1 = (case get_subscription d (te_id t) of
                    Some s \<Rightarrow> if is_operational s then snd (cancel_with e d s actor Tenant_archived) else d
                  | None \<Rightarrow> d);
            w = (\<lambda>r. r\<lparr>te_archived_at := Some (e_now e), te_archived_by := actor,
                   te_archive_reason := take 200 why, te_is_active := False\<rparr>)
        in (w t, save_tenant w t d1))"

definition restore_tenant :: "db \<Rightarrow> tenant \<Rightarrow> tenant \<times> db" where
  "restore_tenant d t =
     (if \<not> is_archived t then (t, d)
      else
        let w = (\<lambda>r. r\<lparr>te_archived_at := None, te_archived_by := None, te_archive_reason := '''',
                   te_is_active := True\<rparr>)
        in (w t, save_tenant w t d))"

definition purgeable_tenants :: "time \<Rightarrow> db \<Rightarrow> int \<Rightarrow> tenant list" where
  "purgeable_tenants now d retention_days =
     filter (\<lambda>t. case te_archived_at t of Some a \<Rightarrow> a \<le> now - days retention_days | None \<Rightarrow> False)
       (d_tenants d)"

text \<open>
  Deleting a row cascades to the rows that belong to the tenant; a referential of its own that is
  assigned to someone protects it, and so do rows of the assessments, of the action plan and of the
  courses: \<open>held\<close> tells whether there are any (\<open>company_held\<close> of Closure, where the rest of the
  cascade is).
\<close>

definition delete_tenant_permanently :: "bool \<Rightarrow> db \<Rightarrow> tenant \<Rightarrow> tenant_error + string \<times> db" where
  "delete_tenant_permanently held d t =
     (let i = te_id t; own = map rf_id (filter (\<lambda>r. rf_owner_tenant r = Some i) (d_referentials d));
          subs = map su_id (filter (\<lambda>s. su_tenant s = i) (d_subs d))
      in if \<not> is_archived t then Inl Not_archived
         else if held \<or> (\<exists>a \<in> set (d_assignments d). as_referential a \<in> set own) then Inl Protected_row
         else Inr (te_name t, d\<lparr>d_tenants := filter (\<lambda>r. te_id r \<noteq> i) (d_tenants d),
           d_memberships := filter (\<lambda>m. me_tenant m \<noteq> i) (d_memberships d),
           d_subs := filter (\<lambda>s. su_tenant s \<noteq> i) (d_subs d),
           d_events := filter (\<lambda>v. ev_subscription v \<notin> set subs) (d_events d),
           d_payments := filter (\<lambda>p. pa_subscription p \<notin> set subs) (d_payments d),
           d_usages := filter (\<lambda>u. ui_tenant u \<noteq> i) (d_usages d),
           d_monitored := filter (\<lambda>m. mo_tenant m \<noteq> i) (d_monitored d),
           d_watched := filter (\<lambda>w. wa_tenant w \<noteq> i) (d_watched d),
           d_referentials := filter (\<lambda>r. rf_owner_tenant r \<noteq> Some i) (d_referentials d),
           d_assignments := filter (\<lambda>a. as_tenant a \<noteq> i) (d_assignments d)\<rparr>))"

section \<open>Members\<close>

definition role_of :: "string \<Rightarrow> role option" where
  "role_of r = (if r = ''admin'' then Some Admin else if r = ''contributor'' then Some Contributor
     else if r = ''reader'' then Some Reader else None)"

definition invite_member ::
  "crypto \<Rightarrow> time \<Rightarrow> db \<Rightarrow> int \<Rightarrow> string \<Rightarrow> string \<Rightarrow> int option \<Rightarrow> string \<Rightarrow> string \<Rightarrow> string \<Rightarrow>
   tenant_error + (membership \<times> string) \<times> db" where
  "invite_member cr now d t email0 role_name actor first_name last_name raw =
     (let email = lower (strip email0)
      in if email = '''' then Inl Email_required
         else case role_of role_name of
           None \<Rightarrow> Inl Unknown_role
         | Some rl \<Rightarrow>
             rbind (lift_error Quota_refused (ensure_user_quota d t 1)) (\<lambda>_.
               case invitee d email first_name last_name of
                 (u, d1) \<Rightarrow>
                   if \<exists>m \<in> set (d_memberships d1). me_tenant m = t \<and> me_user m = us_id u
                   then Inl Already_member
                   else
                     let m = \<lparr>me_id = d_seq d1 + 1, me_tenant = t, me_user = us_id u, me_role = rl\<rparr>;
                         d2 = d1\<lparr>d_seq := d_seq d1 + 1, d_memberships := m # d_memberships d1\<rparr>
                     in case create_access_invitation cr now d2 (us_id u) Invitation actor None raw of
                          (_, d3) \<Rightarrow> Inr ((m, raw), d3)))"

definition is_last_admin :: "db \<Rightarrow> membership \<Rightarrow> bool" where
  "is_last_admin d m =
     (me_role m = Admin \<and>
      filter (\<lambda>r. me_tenant r = me_tenant m \<and> me_role r = Admin \<and> me_id r \<noteq> me_id m) (d_memberships d) = [])"

definition change_member_role :: "db \<Rightarrow> membership \<Rightarrow> string \<Rightarrow> tenant_error + membership \<times> db" where
  "change_member_role d m role_name =
     (case role_of role_name of
        None \<Rightarrow> Inl Unknown_role
      | Some rl \<Rightarrow>
          if rl \<noteq> Admin \<and> is_last_admin d m then Inl Last_admin
          else Inr (m\<lparr>me_role := rl\<rparr>, d\<lparr>d_memberships :=
                 upd_where (\<lambda>r. me_id r = me_id m) (\<lambda>r. r\<lparr>me_role := rl\<rparr>) (d_memberships d)\<rparr>))"

definition set_member_active :: "db \<Rightarrow> membership \<Rightarrow> bool \<Rightarrow> tenant_error + membership \<times> db" where
  "set_member_active d m active =
     (if \<not> active \<and> is_last_admin d m then Inl Last_admin
      else Inr (m, d\<lparr>d_users := upd_where (\<lambda>u. us_id u = me_user m) (\<lambda>u. u\<lparr>us_is_active := active\<rparr>)
             (d_users d)\<rparr>))"

definition remove_member :: "db \<Rightarrow> membership \<Rightarrow> tenant_error + string \<times> db" where
  "remove_member d m =
     (if is_last_admin d m then Inl Last_admin
      else Inr (user_email d (me_user m),
             d\<lparr>d_memberships := filter (\<lambda>r. me_id r \<noteq> me_id m) (d_memberships d)\<rparr>))"

definition get_membership :: "db \<Rightarrow> int \<Rightarrow> int \<Rightarrow> membership option" where
  "get_membership d u t = find (\<lambda>m. me_user m = u \<and> me_tenant m = t) (d_memberships d)"

section \<open>Scoping of requests\<close>

text \<open>
  \<open>scoped ctx tenant_of rows\<close> is what the default manager of a tenant-scoped model returns under
  the context \<open>ctx\<close>. A request carries the authenticated user and the tenant header; \<open>handler\<close> is
  the rest of the application, run under the context it is given. \<open>parse_uuid\<close> reads the header.
\<close>

definition scoped :: "int option \<Rightarrow> ('r \<Rightarrow> int) \<Rightarrow> 'r list \<Rightarrow> 'r list" where
  "scoped ctx tenant_of rows = (case ctx of None \<Rightarrow> [] | Some t \<Rightarrow> filter (\<lambda>r. tenant_of r = t) rows)"

record request =
  rq_user :: "int option"
  rq_tenant_header :: "string option"
  rq_method :: string

datatype 'a outcome = No_access | Handled 'a

definition resolve_membership :: "(string \<Rightarrow> int option) \<Rightarrow> db \<Rightarrow> int \<Rightarrow> string \<Rightarrow> membership option" where
  "resolve_membership parse_uuid d u header =
     (case parse_uuid header of None \<Rightarrow> None | Some t \<Rightarrow> get_membership d u t)"

definition scoping_middleware ::
  "(string \<Rightarrow> int option) \<Rightarrow> db \<Rightarrow> int option \<Rightarrow> request \<Rightarrow>
   (int option \<Rightarrow> membership option \<Rightarrow> 'a) \<Rightarrow> 'a outcome \<times> int option" where
  "scoping_middleware parse_uuid d ctx rq handler =
     (case (rq_user rq, rq_tenant_header rq) of
        (Some u, Some h) \<Rightarrow>
          if h = '''' then (Handled (handler ctx None), ctx)
          else (case resolve_membership parse_uuid d u h of
                  None \<Rightarrow> (No_access, ctx)
                | Some m \<Rightarrow> (Handled (handler (Some (me_tenant m)) (Some m)), ctx))
      | _ \<Rightarrow> (Handled (handler ctx None), ctx))"

definition is_tenant_member :: "membership option \<Rightarrow> bool" where
  "is_tenant_member m = (m \<noteq> None)"

definition is_tenant_admin :: "membership option \<Rightarrow> bool" where
  "is_tenant_admin m = (is_tenant_member m \<and> (\<exists>x. m = Some x \<and> me_role x = Admin))"

definition SAFE_METHODS :: "string list" where
  "SAFE_METHODS = [''GET'', ''HEAD'', ''OPTIONS'']"

definition read_only_for_reader :: "string \<Rightarrow> membership option \<Rightarrow> bool" where
  "read_only_for_reader method m =
     (case m of None \<Rightarrow> False | Some x \<Rightarrow> method \<in> set SAFE_METHODS \<or> me_role x \<noteq> Reader)"

end
