(* ===== verification/AccountsSafety.thy ===== *)
theory AccountsSafety
  imports Accounts
begin

text \<open>
  What the authentication services guarantee: the lockout as a step relation with a clock and its
  invariant, the second factor, the recovery codes and the one-time links.
\<close>

section \<open>Lockout\<close>

lemma lockout_seconds_cases:
  "lockout_seconds_for n = (if 20 \<le> n then Some 3600 else if 15 \<le> n then Some 900
     else if 10 \<le> n then Some 300 else if 5 \<le> n then Some 60 else None)"
  by (simp add: lockout_seconds_for_def LOCKOUT_LADDER_def)

text \<open>
  The seconds that have passed since the first failure of the window, at the least, once the lock
  of the \<open>n\<close>-th failure is over.
\<close>

definition waited :: "int \<Rightarrow> int" where
  "waited n = (if n < 10 then 60 * (n - 4) else 300 * (n - 8))"

definition key_ok :: "time \<Rightarrow> auth \<Rightarrow> ident_key \<Rightarrow> bool" where
  "key_ok t st k =
     ((\<forall>n ex. au_fail st k = Some (n, ex) \<longrightarrow>
         1 \<le> n \<and> n \<le> 11 \<and> ex \<le> t + 900 * second \<and>
         (5 \<le> n \<longrightarrow> (\<exists>until. au_lock st k = Some (until, until) \<and>
            ex - 900 * second + waited n * second \<le> until))) \<and>
      (\<forall>until ex. au_lock st k = Some (until, ex) \<longrightarrow> ex = until \<and> until \<le> t + 300 * second))"

lemma key_ok_later: "key_ok t st k \<Longrightarrow> t \<le> t' \<Longrightarrow> key_ok t' st k"
  unfolding key_ok_def by (meson add_right_mono order_trans)

lemma key_ok_cong:
  "au_fail st' k = au_fail st k \<Longrightarrow> au_lock st' k = au_lock st k \<Longrightarrow> key_ok t st' k = key_ok t st k"
  by (simp add: key_ok_def)

lemma record_failure_other:
  "k' \<noteq> k \<Longrightarrow> au_fail (record_failure t k st) k' = au_fail st k'"
  "k' \<noteq> k \<Longrightarrow> au_lock (record_failure t k st) k' = au_lock st k'"
  by (auto simp: record_failure_def cache_incr_def cache_set_def Let_def split: option.splits)

lemma record_failure_keeps [simp]:
  "au_challenge (record_failure t k st) = au_challenge st" "au_totp (record_failure t k st) = au_totp st"
  "au_codes (record_failure t k st) = au_codes st" "au_db (record_failure t k st) = au_db st"
  by (auto simp: record_failure_def Let_def split: option.splits)

text \<open>The heart of the ladder: a failure is only recorded once the lock of the one before is over.\<close>

lemma record_failure_ok:
  assumes ok: "key_ok t st k" and free: "lock_remaining t st k = None"
  shows "key_ok t (record_failure t k st) k"
proof (cases "au_fail st k")
  case None
  then show ?thesis
    using ok by (simp add: record_failure_def cache_incr_def cache_set_def lockout_seconds_cases
      ATTEMPT_WINDOW_SECONDS_def key_ok_def)
next
  case (Some p)
  obtain n ex where p: "p = (n, ex)" by (cases p)
  from ok Some p have n: "1 \<le> n" "n \<le> 11" "ex \<le> t + 900 * second"
    and l: "5 \<le> n \<Longrightarrow> \<exists>until. au_lock st k = Some (until, until) \<and>
      ex - 900 * second + waited n * second \<le> until"
    and b: "\<And>until e. au_lock st k = Some (until, e) \<Longrightarrow> e = until \<and> until \<le> t + 300 * second"
    by (auto simp: key_ok_def)
  show ?thesis
  proof (cases "t < ex")
    case False
    with ok Some p show ?thesis
      by (simp add: record_failure_def cache_incr_def cache_set_def lockout_seconds_cases
        ATTEMPT_WINDOW_SECONDS_def key_ok_def)
  next
    case True
    have over: "ex - 900 * second + waited n * second \<le> t" if "5 \<le> n"
    proof -
      from l [OF that] obtain until where u: "au_lock st k = Some (until, until)"
        "ex - 900 * second + waited n * second \<le> until" by blast
      with free have "until \<le> t"
        by (simp add: lock_remaining_def cache_get_def split: if_splits)
      with u(2) show ?thesis by simp
    qed
    with True n(2) have n11: "n \<le> 10"
      by (cases "n = 11") (simp_all add: waited_def)
    show ?thesis
    proof (cases "5 \<le> n + 1")
      case False
      with True Some p n ok b show ?thesis
        by (simp add: record_failure_def cache_incr_def lockout_seconds_cases key_ok_def)
    next
      case five: True
      define secs where "secs = (if 10 \<le> n + 1 then 300 else 60 :: int)"
      have secs: "lockout_seconds_for (n + 1) = Some secs"
        using five n11 by (simp add: lockout_seconds_cases secs_def)
      have "ex - 900 * second + waited (n + 1) * second \<le> t + secs * second"
      proof (cases "5 \<le> n")
        case True
        have "waited (n + 1) = waited n + secs"
          using True n11 by (auto simp: waited_def secs_def)
        with over [OF True] show ?thesis by (simp add: algebra_simps)
      next
        case False
        with five have "n = 4" by simp
        with n(3) show ?thesis by (simp add: waited_def secs_def)
      qed
      moreover have "secs \<le> 300" by (simp add: secs_def)
      ultimately show ?thesis
        using True Some p n n11
        by (simp add: record_failure_def cache_incr_def cache_set_def secs key_ok_def)
    qed
  qed
qed

definition lock_inv :: "time \<Rightarrow> auth \<Rightarrow> bool" where
  "lock_inv t st = (\<forall>k. key_ok t st k)"

lemma lock_invD: "lock_inv t st \<Longrightarrow> key_ok t st k"
  by (simp only: lock_inv_def)

lemma ident_keys_distinct: "distinct (ident_keys cr email ip)"
  by (simp add: ident_keys_def)

lemma record_failures_inv:
  "lock_inv t st \<Longrightarrow> distinct ks \<Longrightarrow> (\<And>k. k \<in> set ks \<Longrightarrow> lock_remaining t st k = None) \<Longrightarrow>
   lock_inv t (fold (record_failure t) ks st)"
proof (induction ks arbitrary: st)
  case Nil
  then show ?case by simp
next
  case (Cons k ks)
  let ?st = "record_failure t k st"
  have "key_ok t ?st k'" for k'
  proof (cases "k' = k")
    case True
    have "key_ok t st k" "lock_remaining t st k = None"
      using lock_invD [OF Cons.prems(1)] Cons.prems(3) [of k] by simp_all
    with True show ?thesis by (simp add: record_failure_ok)
  next
    case False
    then have "key_ok t ?st k' = key_ok t st k'"
      by (intro key_ok_cong) (simp_all add: record_failure_other)
    with lock_invD [OF Cons.prems(1)] show ?thesis by simp
  qed
  moreover have "lock_remaining t ?st k' = None" if "k' \<in> set ks" for k'
  proof -
    from that Cons.prems(2) have "k' \<noteq> k" by auto
    with record_failure_other(2) [of k' k t st] that Cons.prems(3) [of k'] show ?thesis
      by (simp add: lock_remaining_def cache_get_def)
  qed
  ultimately show ?case using Cons.IH [of ?st] Cons.prems(2) by (simp add: lock_inv_def)
qed

lemma not_locked_iff:
  "check_not_locked_out cr t st email ip = Inr u \<longleftrightarrow>
   (\<forall>k \<in> set (ident_keys cr email ip). lock_remaining t st k = None)"
proof -
  have "List.map_filter f xs = [] \<longleftrightarrow> (\<forall>x \<in> set xs. f x = None)" for f :: "ident_key \<Rightarrow> int option" and xs
    by (induction xs) (auto simp: List.map_filter_simps split: option.split)
  from this [of "lock_remaining t st" "ident_keys cr email ip"] show ?thesis
    by (cases "List.map_filter (lock_remaining t st) (ident_keys cr email ip)")
      (simp_all add: check_not_locked_out_def)
qed

lemma record_failed_attempt_inv:
  "lock_inv t st \<Longrightarrow> check_not_locked_out cr t st email ip = Inr u \<Longrightarrow>
   lock_inv t (record_failed_attempt cr t st email ip)"
  unfolding record_failed_attempt_def not_locked_iff
  by (rule record_failures_inv [OF _ ident_keys_distinct]) auto

lemma record_failed_keeps [simp]:
  "au_challenge (record_failed_attempt cr t st email ip) = au_challenge st"
  "au_totp (record_failed_attempt cr t st email ip) = au_totp st"
  "au_codes (record_failed_attempt cr t st email ip) = au_codes st"
  "au_db (record_failed_attempt cr t st email ip) = au_db st"
proof -
  have "au_challenge (fold (record_failure t) ks st) = au_challenge st \<and>
      au_totp (fold (record_failure t) ks st) = au_totp st \<and>
      au_codes (fold (record_failure t) ks st) = au_codes st \<and>
      au_db (fold (record_failure t) ks st) = au_db st" for ks
    by (induction ks arbitrary: st) simp_all
  then show "au_challenge (record_failed_attempt cr t st email ip) = au_challenge st"
    "au_totp (record_failed_attempt cr t st email ip) = au_totp st"
    "au_codes (record_failed_attempt cr t st email ip) = au_codes st"
    "au_db (record_failed_attempt cr t st email ip) = au_db st"
    by (simp_all add: record_failed_attempt_def)
qed

lemma clear_failures_inv: "lock_inv t st \<Longrightarrow> lock_inv t (clear_failed_attempts cr st email ip)"
proof -
  have "lock_inv t st \<Longrightarrow> lock_inv t (fold clear_failure ks st)" for ks
  proof (induction ks arbitrary: st)
    case (Cons k ks)
    have "lock_inv t (clear_failure k st)"
      using Cons.prems by (auto simp: lock_inv_def key_ok_def clear_failure_def cache_delete_def)
    with Cons.IH show ?case by simp
  qed simp
  then show "lock_inv t st \<Longrightarrow> lock_inv t (clear_failed_attempts cr st email ip)"
    by (simp add: clear_failed_attempts_def)
qed

lemma clear_failed_keeps [simp]:
  "au_challenge (clear_failed_attempts cr st email ip) = au_challenge st"
  "au_totp (clear_failed_attempts cr st email ip) = au_totp st"
  "au_codes (clear_failed_attempts cr st email ip) = au_codes st"
  "au_db (clear_failed_attempts cr st email ip) = au_db st"
proof -
  have "au_challenge (fold clear_failure ks st) = au_challenge st \<and>
      au_totp (fold clear_failure ks st) = au_totp st \<and>
      au_codes (fold clear_failure ks st) = au_codes st \<and>
      au_db (fold clear_failure ks st) = au_db st" for ks
    by (induction ks arbitrary: st) (simp_all add: clear_failure_def)
  then show "au_challenge (clear_failed_attempts cr st email ip) = au_challenge st"
    "au_totp (clear_failed_attempts cr st email ip) = au_totp st"
    "au_codes (clear_failed_attempts cr st email ip) = au_codes st"
    "au_db (clear_failed_attempts cr st email ip) = au_db st"
    by (simp_all add: clear_failed_attempts_def)
qed

text \<open>Only the two counters matter to the lockout.\<close>

lemma lock_inv_cong:
  "au_fail st' = au_fail st \<Longrightarrow> au_lock st' = au_lock st \<Longrightarrow> lock_inv t st' = lock_inv t st"
  by (simp add: lock_inv_def key_ok_def)

lemma login_inv:
  assumes "lock_inv t st" and "login cr t st email password ip token = (r, st')"
  shows "lock_inv t st'"
proof (cases "check_not_locked_out cr t st email ip")
  case (Inl e)
  with assms show ?thesis by (simp add: login_def)
next
  case (Inr u)
  from record_failed_attempt_inv [OF assms(1) Inr] clear_failures_inv [OF assms(1), of cr email ip]
    lock_inv_cong [of "create_mfa_challenge t (clear_failed_attempts cr st email ip) v token" for v]
  show ?thesis
    using assms(2) Inr
    by (auto simp: login_def Let_def create_mfa_challenge_def split: option.splits if_splits)
qed

lemma consume_code_lockout:
  "consume_recovery_code cr t st u code = (ok, st') \<Longrightarrow> au_fail st' = au_fail st \<and> au_lock st' = au_lock st"
  by (auto simp: consume_recovery_code_def Let_def split: if_splits)

lemma check_cong:
  "au_lock st' = au_lock st \<Longrightarrow> check_not_locked_out cr t st' email ip = check_not_locked_out cr t st email ip"
  by (simp add: check_not_locked_out_def lock_remaining_def [abs_def])

lemma verify_cases [ok_cases]:
  assumes "two_factor_verify cr t st token ip code recovery = Inr (r, st')"
  obtains "r = Session_expired" "st' = st" | "r = Too_many" "st' = st"
    | u x st1 where "resolve_mfa_challenge t st token = Some u"
      and "check_not_locked_out cr t st (us_email u) ip = Inr x"
      and "st1 = st \<or> (\<exists>ok. consume_recovery_code cr t st (us_id u) recovery = (ok, st1))"
      and "r = Bad_code" and "st' = record_failed_attempt cr t st1 (us_email u) ip"
    | u x st1 where "resolve_mfa_challenge t st token = Some u"
      and "check_not_locked_out cr t st (us_email u) ip = Inr x"
      and "st1 = st \<and> (\<exists>c. get_confirmed_credential st (us_id u) = Some c \<and> verify_totp_code cr t c code = Inr True)
        \<or> consume_recovery_code cr t st (us_id u) recovery = (True, st1)"
      and "r = Tokens (us_id u)"
      and "st' = consume_mfa_challenge (clear_failed_attempts cr st1 (us_email u) ip) token"
proof (cases "resolve_mfa_challenge t st token")
  case None
  with assms that(1) show ?thesis by (simp add: two_factor_verify_def)
next
  case (Some u)
  show ?thesis
  proof (cases "check_not_locked_out cr t st (us_email u) ip")
    case (Inl e)
    with assms that(2) Some show ?thesis by (simp add: two_factor_verify_def)
  next
    case (Inr x)
    let ?by = "case get_confirmed_credential st (us_id u) of None \<Rightarrow> Inr False
       | Some c \<Rightarrow> if code = '''' then Inr False else verify_totp_code cr t c code"
    from assms Some Inr obtain b where b: "?by = Inr b"
      and res: "(let (verified, st1) = (if \<not> b \<and> recovery \<noteq> '''' then consume_recovery_code cr t st (us_id u) recovery
                        else (b, st))
                 in if \<not> verified then Inr (Bad_code, record_failed_attempt cr t st1 (us_email u) ip)
                    else Inr (Tokens (us_id u),
                           consume_mfa_challenge (clear_failed_attempts cr st1 (us_email u) ip) token))
               = (Inr (r, st') :: accounts_error + response \<times> auth)"
      by (auto simp: two_factor_verify_def rbind_Inr_iff)
    obtain v st1 where v: "(if \<not> b \<and> recovery \<noteq> '''' then consume_recovery_code cr t st (us_id u) recovery
                        else (b, st)) = (v, st1)" by (metis prod.exhaust)
    have by_code: "b \<Longrightarrow> \<exists>c. get_confirmed_credential st (us_id u) = Some c \<and> verify_totp_code cr t c code = Inr True"
      using b by (auto split: option.splits if_splits)
    show ?thesis
    proof (cases v)
      case True
      with res v by_code show ?thesis
        by (intro that(4) [OF Some Inr, of st1]) (auto split: if_splits)
    next
      case False
      with res v show ?thesis
        by (intro that(3) [OF Some Inr, of st1]) (auto split: if_splits)
    qed
  qed
qed


lemma verify_inv:
  assumes inv: "lock_inv t st" and ok: "two_factor_verify cr t st token ip code recovery = Inr (r, st')"
  shows "lock_inv t st'"
  using ok
proof (rule verify_cases)
  fix u x st1
  assume free: "check_not_locked_out cr t st (us_email u) ip = Inr x"
    and st1: "st1 = st \<or> (\<exists>ok. consume_recovery_code cr t st (us_id u) recovery = (ok, st1))"
    and st': "st' = record_failed_attempt cr t st1 (us_email u) ip"
  from st1 have same: "au_fail st1 = au_fail st" "au_lock st1 = au_lock st"
    by (auto dest: consume_code_lockout)
  from lock_inv_cong [OF same] inv check_cong [OF same(2)] free show ?thesis
    unfolding st' by (auto intro: record_failed_attempt_inv)
next
  fix u x st1
  assume st1: "st1 = st \<and> (\<exists>c. get_confirmed_credential st (us_id u) = Some c \<and>
      verify_totp_code cr t c code = Inr True) \<or> consume_recovery_code cr t st (us_id u) recovery = (True, st1)"
    and st': "st' = consume_mfa_challenge (clear_failed_attempts cr st1 (us_email u) ip) token"
  from st1 have same: "au_fail st1 = au_fail st" "au_lock st1 = au_lock st"
    by (auto dest: consume_code_lockout)
  have "lock_inv t (clear_failed_attempts cr st1 (us_email u) ip)"
    using lock_inv_cong [OF same] inv by (simp add: clear_failures_inv)
  then show ?thesis
    using lock_inv_cong [of st' "clear_failed_attempts cr st1 (us_email u) ip" t]
    by (simp add: st' consume_mfa_challenge_def)
qed (use inv in simp_all)

lemma accept_cases [ok_cases]:
  assumes "accept_access_invitation cr t st raw password = Inr (u, st')"
  obtains i where "resolve_access_invitation cr t (au_db st) raw = Some i" and "u = in_user i"
    and "st' = clear_failed_attempts cr (st\<lparr>au_db := (au_db st)
      \<lparr>d_users := upd_where (\<lambda>r. us_id r = in_user i)
         (\<lambda>r. r\<lparr>us_password := Some (cr_make_password cr password), us_is_active := True\<rparr>) (d_users (au_db st)),
       d_invitations := upd_where (\<lambda>r. in_id r = in_id i) (\<lambda>r. r\<lparr>in_used_at := Some t\<rparr>)
         (d_invitations (au_db st))\<rparr>\<rparr>) (user_email (au_db st) (in_user i)) ''''"
  using assms by (auto simp: accept_access_invitation_def Let_def split: option.splits)

lemma accept_inv:
  assumes "lock_inv t st" and "accept_access_invitation cr t st raw password = Inr (u, st')"
  shows "lock_inv t st'"
proof -
  have "lock_inv t (st\<lparr>au_db := d\<rparr>)" for d
    using assms(1) lock_inv_cong [of "st\<lparr>au_db := d\<rparr>" st t] by simp
  then have clr: "lock_inv t (clear_failed_attempts cr (st\<lparr>au_db := d\<rparr>) email '''')" for d email
    by (rule clear_failures_inv)
  show ?thesis
    using assms(2) by (rule accept_cases) (simp only: clr)
qed

text \<open>
  Every call of the application that touches authentication, with a clock that only moves forward.
  The services that do not read the counters are one rule.
\<close>

inductive auth_run :: "crypto \<Rightarrow> time \<Rightarrow> auth \<Rightarrow> bool" for cr where
  run_start: "au_fail st = Map.empty \<Longrightarrow> au_lock st = Map.empty \<Longrightarrow> auth_run cr t st"
| run_wait: "auth_run cr t st \<Longrightarrow> t \<le> t' \<Longrightarrow> auth_run cr t' st"
| run_login: "auth_run cr t st \<Longrightarrow> login cr t st email password ip token = (r, st') \<Longrightarrow> auth_run cr t st'"
| run_verify: "auth_run cr t st \<Longrightarrow> two_factor_verify cr t st token ip code recovery = Inr (r, st') \<Longrightarrow>
    auth_run cr t st'"
| run_link: "auth_run cr t st \<Longrightarrow> accept_access_invitation cr t st raw password = Inr (u, st') \<Longrightarrow>
    auth_run cr t st'"
| run_enroll: "auth_run cr t st \<Longrightarrow> start_totp_enrollment cr st u secret = Inr st' \<Longrightarrow> auth_run cr t st'"
| run_confirm: "auth_run cr t st \<Longrightarrow> confirm_totp_enrollment cr t st u code codes = Inr st' \<Longrightarrow>
    auth_run cr t st'"
| run_disable: "auth_run cr t st \<Longrightarrow> auth_run cr t (disable_totp st u)"
| run_database: "auth_run cr t st \<Longrightarrow> auth_run cr t (st\<lparr>au_db := d\<rparr>)"

lemma auth_run_inv: "auth_run cr t st \<Longrightarrow> lock_inv t st"
proof (induction rule: auth_run.induct)
  case (run_start st t)
  then show ?case by (simp add: lock_inv_def key_ok_def)
next
  case (run_wait t st t')
  then show ?case by (auto simp: lock_inv_def intro: key_ok_later)
next
  case (run_login t st email password ip token r st')
  then show ?case by (blast intro: login_inv)
next
  case (run_verify t st token ip code recovery r st')
  then show ?case by (blast intro: verify_inv)
next
  case (run_link t st raw password u st')
  then show ?case by (blast intro: accept_inv)
next
  case (run_enroll t st u secret st')
  then show ?case
    by (auto simp: start_totp_enrollment_def rbind_Inr_iff Let_def lock_inv_def key_ok_def)
next
  case (run_confirm t st u code codes st')
  then show ?case
    by (auto simp: confirm_totp_enrollment_def rbind_Inr_iff generate_recovery_codes_def lock_inv_def
      key_ok_def split: option.splits if_splits)
next
  case (run_disable t st u)
  then show ?case by (simp add: lock_inv_def key_ok_def disable_totp_def)
next
  case (run_database t st d)
  then show ?case by (simp add: lock_inv_def key_ok_def)
qed

section \<open>Recovery codes and links\<close>

definition unused_codes :: "auth \<Rightarrow> int \<Rightarrow> nat" where
  "unused_codes st u = length (filter (\<lambda>r. rc_user r = u \<and> rc_used_at r = None) (au_codes st))"

lemma use_code_count:
  "\<exists>r \<in> set rs. p r \<Longrightarrow> (\<And>r. p r \<Longrightarrow> rc_user r = u \<and> rc_used_at r = None) \<Longrightarrow>
   length (filter (\<lambda>r. rc_user r = u \<and> rc_used_at r = None) rs) =
   Suc (length (filter (\<lambda>r. rc_user r = u \<and> rc_used_at r = None) (use_code p now rs)))"
  by (induction rs) auto

lemma consume_code_counts:
  assumes "consume_recovery_code cr now st u code = (True, st')"
  shows "unused_codes st u = Suc (unused_codes st' u)"
proof -
  let ?p = "\<lambda>r. rc_user r = u \<and> rc_used_at r = None \<and> cr_check_password cr code (rc_code_hash r)"
  from assms have ex: "\<exists>r \<in> set (au_codes st). ?p r"
    and st': "st' = st\<lparr>au_codes := use_code ?p now (au_codes st)\<rparr>"
    by (auto simp: consume_recovery_code_def Let_def split: if_splits)
  show ?thesis
    using use_code_count [OF ex, of u now] by (simp add: st' unused_codes_def)
qed

text \<open>A series of attempts, one after the other: which of them were accepted.\<close>

fun consume_all :: "crypto \<Rightarrow> int \<Rightarrow> (time \<times> string) list \<Rightarrow> auth \<Rightarrow> bool list \<times> auth" where
  "consume_all cr u [] st = ([], st)"
| "consume_all cr u ((now, code) # cs) st =
     (let (ok, st1) = consume_recovery_code cr now st u code;
          (oks, st2) = consume_all cr u cs st1
      in (ok # oks, st2))"

lemma consume_all_count:
  "length (filter id (fst (consume_all cr u cs st))) + unused_codes (snd (consume_all cr u cs st)) u =
   unused_codes st u"
proof (induction cr u cs st rule: consume_all.induct)
  case (1 cr u st)
  then show ?case by simp
next
  case (2 cr u now code cs st)
  obtain ok st1 where one: "consume_recovery_code cr now st u code = (ok, st1)"
    by (metis prod.exhaust)
  have "\<not> ok \<Longrightarrow> st1 = st" using one by (auto simp: consume_recovery_code_def Let_def split: if_splits)
  with 2 [OF one [symmetric] refl] one consume_code_counts [of cr now st u code st1] show ?case
    by (cases ok) (auto simp: case_prod_unfold Let_def)
qed


section \<open>Guessing codes\<close>

text \<open>
  Someone who knows the password and tries second-factor codes, logging in again before each.
\<close>

fun guess ::
  "crypto \<Rightarrow> time \<Rightarrow> string \<Rightarrow> string \<Rightarrow> string \<Rightarrow> string \<Rightarrow> string list \<Rightarrow> auth \<Rightarrow> response list" where
  "guess cr now email password ip token [] st = []"
| "guess cr now email password ip token (c # cs) st =
     (case login cr now st email password ip token of
        (_, st1) \<Rightarrow>
          (case two_factor_verify cr now st1 token ip c '''' of
             Inl _ \<Rightarrow> []
           | Inr (r, st2) \<Rightarrow> r # guess cr now email password ip token cs st2))"

lemma fold_clear:
  "au_fail (fold clear_failure ks st) k = (if k \<in> set ks then None else au_fail st k)"
  "au_lock (fold clear_failure ks st) k = (if k \<in> set ks then None else au_lock st k)"
  by (induction ks arbitrary: st) (auto simp: clear_failure_def cache_delete_def)

lemma clear_failed_none:
  assumes "k \<in> set (ident_keys cr email ip)"
  shows "au_fail (clear_failed_attempts cr st email ip) k = None"
    and "au_lock (clear_failed_attempts cr st email ip) k = None"
  using assms by (simp_all add: clear_failed_attempts_def fold_clear)

lemma first_failure_no_lock:
  "distinct ks \<Longrightarrow> (\<And>k. k \<in> set ks \<Longrightarrow> au_fail st k = None) \<Longrightarrow>
   au_lock (fold (record_failure now) ks st) = au_lock st"
proof (induction ks arbitrary: st)
  case (Cons k ks)
  have "au_lock (record_failure now k st) = au_lock st"
    using Cons.prems(2) [of k] by (simp add: record_failure_def cache_incr_def lockout_seconds_cases Let_def)
  moreover have "au_fail (record_failure now k st) k' = None" if "k' \<in> set ks" for k'
  proof -
    from that Cons.prems(1) have "k' \<noteq> k" by auto
    with that Cons.prems(2) [of k'] show ?thesis by (simp add: record_failure_other)
  qed
  ultimately show ?case using Cons.IH [of "record_failure now k st"] Cons.prems(1) by simp
qed simp

definition may_guess :: "crypto \<Rightarrow> time \<Rightarrow> string \<Rightarrow> string \<Rightarrow> string \<Rightarrow> user \<Rightarrow> totp \<Rightarrow> string \<Rightarrow> auth \<Rightarrow> bool" where
  "may_guess cr now email password ip u c secret st =
     (cr_authenticate cr (au_db st) email password = Some (us_id u) \<and>
      find (\<lambda>r. us_id r = us_id u) (d_users (au_db st)) = Some u \<and> us_is_active u \<and> us_email u = email \<and>
      get_confirmed_credential st (us_id u) = Some c \<and> decrypt_secret cr (to_encrypted_secret c) = Inr secret \<and>
      check_not_locked_out cr now st email ip = Inr ())"

lemma guess_round:
  assumes ok: "may_guess cr now email password ip u c secret st"
    and wrong: "code \<noteq> ''''" "\<not> cr_totp_verify cr secret code now"
  shows "\<exists>st1 st2. login cr now st email password ip token = (Mfa_required token, st1) \<and>
           two_factor_verify cr now st1 token ip code '''' = Inr (Bad_code, st2) \<and>
           may_guess cr now email password ip u c secret st2"
proof -
  let ?clr = "clear_failed_attempts cr st email ip"
  let ?st1 = "create_mfa_challenge now ?clr (us_id u) token"
  let ?st2 = "record_failed_attempt cr now ?st1 email ip"
  from ok have u: "find (\<lambda>r. us_id r = us_id u) (d_users (au_db st)) = Some u" "us_is_active u" "us_email u = email"
    and a: "cr_authenticate cr (au_db st) email password = Some (us_id u)"
    and c: "get_confirmed_credential st (us_id u) = Some c"
    and dec: "decrypt_secret cr (to_encrypted_secret c) = Inr secret"
    and free: "check_not_locked_out cr now st email ip = Inr ()" by (simp_all add: may_guess_def)
  have st1: "au_db ?st1 = au_db st" "au_totp ?st1 = au_totp st" "au_fail ?st1 = au_fail ?clr"
    "au_lock ?st1 = au_lock ?clr"
    by (simp_all add: create_mfa_challenge_def)
  have active: "\<exists>r \<in> set (d_users (au_db st)). us_id r = us_id u \<and> us_is_active r"
    using find_SomeD [OF u(1)] u(2) by blast
  have totp: "is_totp_enabled ?clr (us_id u)"
  proof -
    from find_SomeD [OF c [unfolded get_confirmed_credential_def]]
    have "c \<in> set (au_totp ?clr)" "to_user c = us_id u" "to_confirmed c" by simp_all
    then show ?thesis unfolding is_totp_enabled_def by blast
  qed
  have login: "login cr now st email password ip token = (Mfa_required token, ?st1)"
    using free a active totp by (simp add: login_def Let_def)
  have free1: "check_not_locked_out cr now ?st1 email ip = Inr ()"
    unfolding not_locked_iff
    by (simp add: lock_remaining_def cache_get_def st1 clear_failed_none)
  have res: "resolve_mfa_challenge now ?st1 token = Some u"
    using u(1) by (simp add: resolve_mfa_challenge_def create_mfa_challenge_def cache_get_def cache_set_def
      MFA_CHALLENGE_TTL_SECONDS_def)
  have c1: "get_confirmed_credential ?st1 (us_id u) = Some c"
    using c by (simp add: get_confirmed_credential_def st1)
  have bad: "two_factor_verify cr now ?st1 token ip code '''' = Inr (Bad_code, ?st2)"
    using wrong by (simp add: two_factor_verify_def res u(3) free1 c1 verify_totp_code_def dec)
  have "au_lock ?st2 = au_lock ?st1"
    unfolding record_failed_attempt_def
    by (rule first_failure_no_lock [OF ident_keys_distinct]) (simp add: st1 clear_failed_none)
  from trans [OF check_cong [OF this] free1]
  have "check_not_locked_out cr now ?st2 email ip = Inr ()" .
  then have "may_guess cr now email password ip u c secret ?st2"
    using ok c by (simp add: may_guess_def st1 get_confirmed_credential_def)
  with login bad show ?thesis by blast
qed

section \<open>An instance to try\<close>

definition demo_crypto :: crypto where
  "demo_crypto = \<lparr>cr_sha256 = id, cr_make_password = id, cr_check_password = (=), cr_key_configured = True,
     cr_encrypt = id, cr_decrypt = Some, cr_totp_verify = (\<lambda>_ code _. code = ''123456''),
     cr_authenticate = (\<lambda>_ email password. if email = ''a'' \<and> password = ''pw'' then Some 1 else None)\<rparr>"

definition demo_user :: user where
  "demo_user = \<lparr>us_id = 1, us_email = ''a'', us_first_name = '''', us_last_name = '''', us_is_active = True,
     us_is_staff = False,      us_password = Some ''pw''\<rparr>"

definition demo_totp :: totp where
  "demo_totp = \<lparr>to_user = 1, to_encrypted_secret = ''s'', to_confirmed = True, to_confirmed_at = Some 0\<rparr>"

definition demo_auth :: auth where
  "demo_auth = \<lparr>au_fail = Map.empty, au_lock = Map.empty, au_challenge = Map.empty, au_totp = [demo_totp],
     au_codes = [], au_db = empty_db\<lparr>d_users := [demo_user],
       d_invitations := [\<lparr>in_id = 1, in_user = 1, in_purpose = Reset, in_token_hash = ''tok'',
         in_expires_at = 9, in_used_at = None, in_created_by = None\<rparr>], d_seq := 1\<rparr>\<rparr>"

lemmas demo_defs = demo_crypto_def demo_user_def demo_totp_def demo_auth_def empty_db_def

lemma demo_free [simp]: "check_not_locked_out demo_crypto now demo_auth email ip = Inr ()"
  by (simp add: not_locked_iff lock_remaining_def cache_get_def demo_auth_def)

section \<open>Properties\<close>

text \<open>
  C5: A window of failed attempts holds at most eleven: whatever calls are made, in whatever order
  and at whatever times, a counter never passes eleven and a lock never lasts more than five
  minutes (so that the two upper rungs of the ladder, fifteen and twenty failures, are never reached
  by attempts made one after the other).
\<close>

theorem lockout_bounds_attempts:
  assumes "auth_run cr t st"
  shows "(\<forall>n ex. au_fail st k = Some (n, ex) \<longrightarrow> 1 \<le> n \<and> n \<le> 11 \<and> ex \<le> t + 900 * second) \<and>
         (\<forall>until ex. au_lock st k = Some (until, ex) \<longrightarrow> until \<le> t + 300 * second)"
  using lock_invD [OF auth_run_inv [OF assms], of k] by (auto simp: key_ok_def)

theorem lockout_bounds_attempts_witness:
  "\<exists>n ex. au_fail (record_failed_attempt demo_crypto 0 demo_auth ''a'' '''') (Account, ''a'') = Some (n, ex) \<and>
     1 \<le> n \<and> n \<le> 11"
proof -
  let ?st = "record_failed_attempt demo_crypto 0 demo_auth ''a'' ''''"
  have "login demo_crypto 0 demo_auth ''a'' ''no'' '''' '''' = (Bad_credentials, ?st)"
    by (simp add: login_def) (simp add: demo_crypto_def)
  moreover have "auth_run demo_crypto 0 demo_auth"
    by (rule run_start) (simp_all add: demo_auth_def)
  ultimately have run: "auth_run demo_crypto 0 ?st" by (blast intro: run_login)
  have keys: "ident_keys demo_crypto ''a'' '''' = [(Account, ''a'')]"
    by (simp add: ident_keys_def hashed_ident_def demo_crypto_def lower_def strip_def is_space_def ascii_lower_def)
  have "au_fail ?st (Account, ''a'') = Some (1, 900000000)"
    by (simp add: record_failed_attempt_def keys record_failure_def cache_incr_def cache_set_def
      lockout_seconds_cases ATTEMPT_WINDOW_SECONDS_def Let_def demo_auth_def)
  with lockout_bounds_attempts [OF run, of "(Account, ''a'')"] show ?thesis by blast
qed

text \<open>
  A failed login that is at least the fifth of its window locks the account: for the following
  minute every login of that account is refused without the password being looked at, from any
  address.
\<close>

theorem fifth_failure_locks:
  assumes "email \<noteq> ''''" and "au_fail st (Account, hashed_ident cr email) = Some (n, ex)"
    and "4 \<le> n" and "now < ex" and "login cr now st email password ip token = (Bad_credentials, st')"
    and "now \<le> now'" and "now' < now + 60 * second"
  shows "login cr now' st' email password' ip' token' = (Too_many, st')"
proof -
  let ?k = "(Account, hashed_ident cr email)"
  have k: "?k \<in> set (ident_keys cr email a)" for a using assms(1) by (simp add: ident_keys_def)
  have st': "st' = record_failed_attempt cr now st email ip"
    using assms(5) by (auto simp: login_def Let_def split: sum.splits option.splits if_splits)
  obtain ks where ks: "ident_keys cr email ip = ?k # ks" "?k \<notin> set ks"
    using assms(1) by (auto simp: ident_keys_def)
  have other: "k' \<notin> set ks \<Longrightarrow> au_lock (fold (record_failure now) ks s) k' = au_lock s k'" for k' s ks
    by (induction ks arbitrary: s) (auto simp: record_failure_other)
  define secs where "secs = (if n + 1 \<ge> 20 then 3600 else if n + 1 \<ge> 15 then 900 else if n + 1 \<ge> 10 then 300 else 60 :: int)"
  have secs: "lockout_seconds_for (n + 1) = Some secs" and ge: "60 \<le> secs"
    using assms(3) by (simp_all add: lockout_seconds_cases secs_def)
  have "au_lock (record_failure now ?k st) ?k = Some (now + secs * second, now + secs * second)"
    using assms(2,4) by (simp add: record_failure_def cache_incr_def cache_set_def secs)
  then have "au_lock st' ?k = Some (now + secs * second, now + secs * second)"
    by (simp add: st' record_failed_attempt_def ks other)
  moreover have "now' < now + secs * second" using assms(7) ge by linarith
  ultimately have "lock_remaining now' st' ?k \<noteq> None"
    by (simp add: lock_remaining_def cache_get_def)
  then have "check_not_locked_out cr now' st' email ip' \<noteq> Inr ()"
  proof (intro notI)
    assume "check_not_locked_out cr now' st' email ip' = Inr ()"
    then have "\<forall>k \<in> set (ident_keys cr email ip'). lock_remaining now' st' k = None"
      by (simp only: not_locked_iff)
    then have "lock_remaining now' st' ?k = None" using k by (rule bspec)
    with \<open>lock_remaining now' st' ?k \<noteq> None\<close> show False by contradiction
  qed
  then show ?thesis
    by (cases "check_not_locked_out cr now' st' email ip'") (simp_all add: login_def)
qed


theorem fifth_failure_locks_example:
  "\<exists>st st'. login demo_crypto 10 st ''a'' ''no'' '''' '''' = (Bad_credentials, st') \<and>
     login demo_crypto 20 st' ''a'' ''pw'' ''elsewhere'' '''' = (Too_many, st')"
proof -
  let ?k = "(Account, hashed_ident demo_crypto ''a'')"
  let ?st = "demo_auth\<lparr>au_fail := Map.empty(?k := Some (4, 900))\<rparr>"
  have free: "check_not_locked_out demo_crypto 10 ?st ''a'' '''' = Inr ()"
    by (simp add: not_locked_iff lock_remaining_def cache_get_def demo_auth_def)
  have out: "login demo_crypto 10 ?st ''a'' ''no'' '''' '''' =
      (Bad_credentials, record_failed_attempt demo_crypto 10 ?st ''a'' '''')"
    by (simp add: login_def free) (simp add: demo_crypto_def)
  from fifth_failure_locks [OF _ _ _ _ out, of 4 900 20 "''pw''" "''elsewhere''" "''''"] out
  show ?thesis by auto
qed

text \<open>
  C6: Tokens are only issued after every factor: a login that issues them authenticated a user who
  has no confirmed second factor, and the second step issues them for the user of a live
  challenge whose code was verified or whose unused recovery code was consumed; the challenge is
  then spent, so that replaying it is answered as an expired session.
\<close>

theorem tokens_need_every_factor:
  "(\<forall>st'. login cr now st email password ip token = (Tokens u, st') \<longrightarrow>
      cr_authenticate cr (au_db st) email password = Some u \<and> \<not> is_totp_enabled st u \<and>
      check_not_locked_out cr now st email ip = Inr ()) \<and>
   (\<forall>st'. two_factor_verify cr now st token ip code recovery = Inr (Tokens u, st') \<longrightarrow>
      cache_get now (au_challenge st) token = Some u \<and>
      ((\<exists>c. get_confirmed_credential st u = Some c \<and> verify_totp_code cr now c code = Inr True) \<or>
       Suc (unused_codes st' u) = unused_codes st u) \<and>
      two_factor_verify cr now' st' token ip' code' recovery' = Inr (Session_expired, st'))"
proof (intro conjI allI impI)
  fix st' assume "login cr now st email password ip token = (Tokens u, st')"
  then show "cr_authenticate cr (au_db st) email password = Some u" "\<not> is_totp_enabled st u"
      "check_not_locked_out cr now st email ip = Inr ()"
    by (auto simp: login_def Let_def is_totp_enabled_def split: sum.splits option.splits if_splits)
next
  fix st' assume "two_factor_verify cr now st token ip code recovery = Inr (Tokens u, st')"
  then obtain v st1 where v: "resolve_mfa_challenge now st token = Some v" "us_id v = u"
    and st1: "st1 = st \<and> (\<exists>c. get_confirmed_credential st u = Some c \<and> verify_totp_code cr now c code = Inr True)
        \<or> consume_recovery_code cr now st u recovery = (True, st1)"
    and st': "st' = consume_mfa_challenge (clear_failed_attempts cr st1 (us_email v) ip) token"
    by (auto elim!: verify_cases)
  from v show "cache_get now (au_challenge st) token = Some u"
    by (auto simp: resolve_mfa_challenge_def dest: find_SomeD split: option.splits)
  have "unused_codes st' u = unused_codes st1 u"
    by (simp add: st' unused_codes_def consume_mfa_challenge_def)
  then show "(\<exists>c. get_confirmed_credential st u = Some c \<and> verify_totp_code cr now c code = Inr True) \<or>
       Suc (unused_codes st' u) = unused_codes st u"
    using st1 consume_code_counts [of cr now st u recovery st1] by auto
  show "two_factor_verify cr now' st' token ip' code' recovery' = Inr (Session_expired, st')"
    by (simp add: st' two_factor_verify_def resolve_mfa_challenge_def consume_mfa_challenge_def
      cache_get_def cache_delete_def)
qed

theorem tokens_need_every_factor_witness:
  "\<exists>st1 st2. two_factor_verify demo_crypto 5 st1 ''t'' '''' ''123456'' '''' = Inr (Tokens 1, st2) \<and>
     cache_get 5 (au_challenge st1) ''t'' = Some 1 \<and>
     two_factor_verify demo_crypto 6 st2 ''t'' '''' ''123456'' '''' = Inr (Session_expired, st2)"
proof -
  let ?st1 = "create_mfa_challenge 0 demo_auth 1 ''t''"
  have free: "check_not_locked_out demo_crypto 5 ?st1 email '''' = Inr ()" for email
    by (simp add: not_locked_iff lock_remaining_def cache_get_def demo_auth_def create_mfa_challenge_def)
  have "resolve_mfa_challenge 5 ?st1 ''t'' = Some demo_user"
    by (simp add: resolve_mfa_challenge_def create_mfa_challenge_def cache_get_def cache_set_def
      MFA_CHALLENGE_TTL_SECONDS_def demo_auth_def demo_user_def)
  moreover have "get_confirmed_credential ?st1 1 = Some demo_totp"
    by (simp add: get_confirmed_credential_def create_mfa_challenge_def demo_auth_def demo_totp_def)
  ultimately have "\<exists>st2. two_factor_verify demo_crypto 5 ?st1 ''t'' '''' ''123456'' '''' = Inr (Tokens 1, st2)"
    using free by (simp add: two_factor_verify_def verify_totp_code_def decrypt_secret_def demo_user_def
      demo_crypto_def)
  then obtain st2 where ok: "two_factor_verify demo_crypto 5 ?st1 ''t'' '''' ''123456'' '''' = Inr (Tokens 1, st2)" ..
  from tokens_need_every_factor [where cr = demo_crypto and now = 5 and st = ?st1 and token = "''t''" and ip = "''''"
    and code = "''123456''" and recovery = "''''" and u = 1 and now' = 6 and ip' = "''''"
    and code' = "''123456''" and recovery' = "''''"] ok
  show ?thesis by blast
qed

text \<open>
  The lockout does not bound the guesses of second-factor codes by someone who has the
  password: a successful first factor clears the counters, so that any number of wrong codes can be
  tried at one and the same instant and every one is answered as a wrong code, none as locked.
\<close>

theorem code_guesses_never_locked:
  assumes "may_guess cr now email password ip u c secret st"
    and "\<forall>code \<in> set codes. code \<noteq> '''' \<and> \<not> cr_totp_verify cr secret code now"
  shows "guess cr now email password ip token codes st = replicate (length codes) Bad_code"
  using assms
proof (induction codes arbitrary: st)
  case Nil
  then show ?case by simp
next
  case (Cons code codes)
  from Cons.prems(2) have wrong: "code \<noteq> ''''" "\<not> cr_totp_verify cr secret code now" by simp_all
  from guess_round [OF Cons.prems(1) wrong, of token] obtain st1 st2 where
    "login cr now st email password ip token = (Mfa_required token, st1)"
    "two_factor_verify cr now st1 token ip code '''' = Inr (Bad_code, st2)"
    "may_guess cr now email password ip u c secret st2" by blast
  with Cons show ?case by simp
qed

theorem code_guesses_never_locked_example:
  "guess demo_crypto 0 ''a'' ''pw'' ''ip'' ''t'' (replicate 100 ''000000'') demo_auth = replicate 100 Bad_code"
proof -
  have "may_guess demo_crypto 0 ''a'' ''pw'' ''ip'' demo_user demo_totp ''s'' demo_auth"
    by (simp add: may_guess_def get_confirmed_credential_def decrypt_secret_def)
      (simp add: demo_defs get_confirmed_credential_def)
  moreover have "\<forall>code \<in> set (replicate 100 ''000000''). code \<noteq> '''' \<and> \<not> cr_totp_verify demo_crypto ''s'' code 0"
    by (auto simp: demo_crypto_def dest: in_set_replicate [THEN iffD1])
  ultimately have "guess demo_crypto 0 ''a'' ''pw'' ''ip'' ''t'' (replicate 100 ''000000'') demo_auth =
      replicate (length (replicate 100 ''000000'')) Bad_code"
    by (rule code_guesses_never_locked)
  then show ?thesis by (simp only: length_replicate)
qed

text \<open>
  Starting an enrolment switches a confirmed second factor off at once: after
  \<open>start_totp_enrollment\<close> the user's second factor is not enabled any more, and the next login with
  the password alone gets tokens.
\<close>

theorem enrollment_disables_second_factor:
  assumes "start_totp_enrollment cr st u secret = Inr st'"
    and "cr_authenticate cr (au_db st) email password = Some u"
    and "check_not_locked_out cr now st email ip = Inr ()"
    and "\<exists>r \<in> set (d_users (au_db st)). us_id r = u \<and> us_is_active r"
  shows "\<not> is_totp_enabled st' u \<and> fst (login cr now st' email password ip token) = Tokens u"
proof -
  from assms(1) obtain row where row: "to_user row = u" "\<not> to_confirmed row"
    and st': "st' = st\<lparr>au_totp := (if u \<in> to_user ` set (au_totp st)
        then upd_where (\<lambda>r. to_user r = u) (\<lambda>_. row) (au_totp st) else row # au_totp st)\<rparr>"
    by (auto simp: start_totp_enrollment_def rbind_Inr_iff Let_def intro!: that [of "\<lparr>to_user = u,
      to_encrypted_secret = enc, to_confirmed = False, to_confirmed_at = None\<rparr>" for enc])
  have off: "\<not> is_totp_enabled st' u"
    using row by (cases "u \<in> to_user ` set (au_totp st)")
      (auto simp: st' is_totp_enabled_def set_upd_where image_iff)
  have same: "au_db st' = au_db st" "au_lock st' = au_lock st" by (simp_all add: st')
  have "\<not> is_totp_enabled (clear_failed_attempts cr st' email ip) u"
    using off by (simp add: is_totp_enabled_def)
  then show ?thesis
    using off assms(2-4) check_cong [OF same(2)] same by (simp add: login_def Let_def)
qed

theorem enrollment_disables_second_factor_example:
  "\<exists>st'. is_totp_enabled demo_auth 1 \<and> start_totp_enrollment demo_crypto demo_auth 1 ''new'' = Inr st' \<and>
     fst (login demo_crypto 0 st' ''a'' ''pw'' '''' '''') = Tokens 1"
proof -
  obtain st' where st': "start_totp_enrollment demo_crypto demo_auth 1 ''new'' = Inr st'"
    by (auto simp: start_totp_enrollment_def encrypt_secret_def demo_crypto_def Let_def)
  have "cr_authenticate demo_crypto (au_db demo_auth) ''a'' ''pw'' = Some 1"
    and "\<exists>r \<in> set (d_users (au_db demo_auth)). us_id r = 1 \<and> us_is_active r"
    and "is_totp_enabled demo_auth 1"
    by (simp_all add: demo_defs is_totp_enabled_def)
  with enrollment_disables_second_factor [OF st' this(1) demo_free this(2)] st' show ?thesis by blast
qed

text \<open>
  C7: Recovery codes are used once: in any series of attempts the number of accepted codes plus the
  number of codes still unused is the number that was unused before, so a user never gets more
  second factors out of the codes than were issued.
\<close>

theorem recovery_codes_run_out:
  "length (filter id (fst (consume_all cr u cs st))) + unused_codes (snd (consume_all cr u cs st)) u =
   unused_codes st u"
  by (rule consume_all_count)


lemma cleared_account:
  "\<exists>k. k = (Account, hashed_ident cr email) \<and>
     (email \<noteq> '''' \<longrightarrow> au_fail (clear_failed_attempts cr st email '''') k = None \<and>
        au_lock (clear_failed_attempts cr st email '''') k = None) \<and>
     (\<forall>k'. k' \<noteq> k \<longrightarrow> au_fail (clear_failed_attempts cr st email '''') k' = au_fail st k' \<and>
        au_lock (clear_failed_attempts cr st email '''') k' = au_lock st k')"
  by (simp add: clear_failed_attempts_def ident_keys_def clear_failure_def cache_delete_def)

lemma cleared_not_locked:
  "check_not_locked_out cr t (clear_failed_attempts cr st email '''') email '''' = Inr ()"
  by (simp add: check_not_locked_out_def clear_failed_attempts_def ident_keys_def clear_failure_def
    lock_remaining_def cache_delete_def cache_get_def List.map_filter_def)

text \<open>
  C8: A link sets a password once: after it was accepted the user is active with the new password
  and the link is dead for good, whoever tries it and whenever; the other users keep their row, and
  the account's failed attempts are forgotten: its counter and its lock are gone (the account is not
  locked out, at any time), and the counters and locks of every other account and address are as
  they were.
\<close>

theorem link_works_once:
  assumes "accept_access_invitation cr now st raw password = Inr (u, st')"
    and "distinct (map in_id (d_invitations (au_db st)))" and "\<exists>r \<in> set (d_users (au_db st)). us_id r = u"
  shows "accept_access_invitation cr now' st' raw password' = Inl Link_invalid \<and>
         (\<forall>r \<in> set (d_users (au_db st')). us_id r = u \<longrightarrow>
            us_is_active r \<and> us_password r = Some (cr_make_password cr password)) \<and>
         filter (\<lambda>r. us_id r \<noteq> u) (d_users (au_db st')) = filter (\<lambda>r. us_id r \<noteq> u) (d_users (au_db st)) \<and>
         check_not_locked_out cr t st' (user_email (au_db st) u) '''' = Inr () \<and>
         (\<exists>k. k = (Account, hashed_ident cr (user_email (au_db st) u)) \<and>
            (user_email (au_db st) u \<noteq> '''' \<longrightarrow> au_fail st' k = None \<and> au_lock st' k = None) \<and>
            (\<forall>k'. k' \<noteq> k \<longrightarrow> au_fail st' k' = au_fail st k' \<and> au_lock st' k' = au_lock st k'))"
proof -
  from assms(1) obtain i st1 where i: "resolve_access_invitation cr now (au_db st) raw = Some i" "u = in_user i"
    and st': "st' = clear_failed_attempts cr st1 (user_email (au_db st) u) ''''"
    and st1: "au_fail st1 = au_fail st" "au_lock st1 = au_lock st"
    and db: "au_db st' = (au_db st)
      \<lparr>d_users := upd_where (\<lambda>r. us_id r = in_user i)
         (\<lambda>r. r\<lparr>us_password := Some (cr_make_password cr password), us_is_active := True\<rparr>) (d_users (au_db st)),
       d_invitations := upd_where (\<lambda>r. in_id r = in_id i) (\<lambda>r. r\<lparr>in_used_at := Some now\<rparr>)
         (d_invitations (au_db st))\<rparr>"
    by (rule accept_cases) simp
  let ?p = "\<lambda>r :: invitation. in_token_hash r = cr_sha256 cr raw"
  let ?f = "\<lambda>r :: invitation. if in_id r = in_id i then r\<lparr>in_used_at := Some now\<rparr> else r"
  from i have fnd: "find ?p (d_invitations (au_db st)) = Some i"
    by (auto simp: resolve_access_invitation_def split: option.splits if_splits)
  have "find ?p (map ?f xs) = map_option ?f (find ?p xs)" for xs
    by (induction xs) auto
  with fnd have "find ?p (d_invitations (au_db st')) = Some (i\<lparr>in_used_at := Some now\<rparr>)"
    by (simp add: db upd_where_def)
  then have dead: "accept_access_invitation cr now' st' raw password' = Inl Link_invalid"
    by (simp add: accept_access_invitation_def resolve_access_invitation_def invitation_is_usable_def)
  have others: "filter (\<lambda>r. us_id r \<noteq> u) (d_users (au_db st')) = filter (\<lambda>r. us_id r \<noteq> u) (d_users (au_db st))"
    by (simp add: db i(2) filter_upd_where_other)
  have own: "\<forall>r \<in> set (d_users (au_db st')). us_id r = u \<longrightarrow>
      us_is_active r \<and> us_password r = Some (cr_make_password cr password)"
    by (auto simp: db i(2) set_upd_where)
  show ?thesis
    using dead own others cleared_account [of cr "user_email (au_db st) u" st1]
      cleared_not_locked [of cr t st1 "user_email (au_db st) u"]
    by (simp add: st1 flip: st')
qed

theorem link_works_once_witness:
  "\<exists>st'. accept_access_invitation demo_crypto 5 demo_auth ''tok'' ''new'' = Inr (1, st') \<and>
     accept_access_invitation demo_crypto 6 st' ''tok'' ''other'' = Inl Link_invalid"
proof -
  obtain st' where ok: "accept_access_invitation demo_crypto 5 demo_auth ''tok'' ''new'' = Inr (1, st')"
    by (simp add: accept_access_invitation_def resolve_access_invitation_def invitation_is_usable_def
      demo_defs Let_def)
  from link_works_once [OF ok, of 6 "''other''" 7] ok show ?thesis
    by (simp add: demo_defs)
qed

text \<open>
  Issuing a link revokes the older ones of the same use: afterwards the new token resolves
  until its term, and no other token of that user and purpose resolves, at any time.
\<close>

theorem new_link_revokes_older:
  assumes "create_access_invitation cr now d u what actor ttl raw = (i, d')"
    and "\<forall>j \<in> set (d_invitations d). in_token_hash j \<noteq> cr_sha256 cr raw"
  shows "(resolve_access_invitation cr t d' raw = Some i \<longleftrightarrow> t < in_expires_at i) \<and>
         (\<forall>raw' j. resolve_access_invitation cr t d' raw' = Some j \<and> in_user j = u \<and> in_purpose j = what \<longrightarrow>
            j = i)"
proof -
  have i: "in_user i = u" "in_purpose i = what" "in_token_hash i = cr_sha256 cr raw" "in_used_at i = None"
    and d': "d_invitations d' = i # upd_where (\<lambda>i. in_user i = u \<and> in_purpose i = what \<and> in_used_at i = None)
                     (\<lambda>i. i\<lparr>in_used_at := Some now\<rparr>) (d_invitations d)"
    using assms(1) [symmetric] by (simp_all add: create_access_invitation_def Let_def)
  have "resolve_access_invitation cr t d' raw = Some i \<longleftrightarrow> t < in_expires_at i"
    by (simp add: resolve_access_invitation_def d' i invitation_is_usable_def)
  moreover have "j = i" if "resolve_access_invitation cr t d' raw' = Some j" "in_user j = u" "in_purpose j = what" for raw' j
  proof -
    from that(1) have "j \<in> set (d_invitations d')" "in_used_at j = None"
      by (auto simp: resolve_access_invitation_def invitation_is_usable_def dest: find_SomeD
        split: option.splits if_splits)
    show ?thesis
    proof (rule ccontr)
      assume "j \<noteq> i"
      with \<open>j \<in> set (d_invitations d')\<close>
      have "j \<in> set (upd_where (\<lambda>i. in_user i = u \<and> in_purpose i = what \<and> in_used_at i = None)
                     (\<lambda>i. i\<lparr>in_used_at := Some now\<rparr>) (d_invitations d))"
        by (simp only: d' list.set insert_iff) blast
      then obtain k where
        k: "j = (if in_user k = u \<and> in_purpose k = what \<and> in_used_at k = None
                 then k\<lparr>in_used_at := Some now\<rparr> else k)"
        by (rule in_upd_whereE)
      with \<open>in_used_at j = None\<close> that(2,3) show False by (cases "in_used_at k") (simp_all split: if_splits)
    qed
  qed
  ultimately show ?thesis by blast
qed

theorem new_link_revokes_older_example:
  "\<exists>i d'. create_access_invitation demo_crypto 5 (au_db demo_auth) 1 Reset None None ''new'' = (i, d') \<and>
     resolve_access_invitation demo_crypto 6 d' ''new'' = Some i"
proof -
  obtain i d' where ok: "create_access_invitation demo_crypto 5 (au_db demo_auth) 1 Reset None None ''new'' = (i, d')"
    by (metis prod.exhaust)
  moreover from ok have "in_expires_at i = 5 + 2 * 3600 * second"
    by (auto simp: create_access_invitation_def Let_def RESET_TTL_HOURS_def)
  moreover have "\<forall>j \<in> set (d_invitations (au_db demo_auth)). in_token_hash j \<noteq> cr_sha256 demo_crypto ''new''"
    by (simp add: demo_defs)
  ultimately show ?thesis using new_link_revokes_older [OF ok, of 6] by auto
qed

end
