(* ===== verification/TenantsSafety.thy ===== *)
theory TenantsSafety
  imports Tenants BillingSafety AccountsSafety
begin

text \<open>
  What the tenants app guarantees: slugs, the creation of a client in one piece, archiving and
  deletion, the administrators of a company, and the isolation of requests.
\<close>

section \<open>Slugs\<close>

lemma slug_loop_fresh: "slug_loop base counter slug used \<notin> set used"
  by (induction base counter slug used rule: slug_loop.induct) (subst slug_loop.simps, simp)

lemma unique_slug_fresh: "unique_slug slugify d name \<notin> te_slug ` set (d_tenants d)"
  using slug_loop_fresh [of _ _ _ "map te_slug (d_tenants d)"] by (simp add: unique_slug_def Let_def)

section \<open>Operations and the billing invariant\<close>

text \<open>The invariant of billing reads plans, subscriptions, the journal and the sequence only.\<close>

lemma billing_inv_cong:
  assumes "d_subs d' = d_subs d" and "d_plans d' = d_plans d" and "d_events d' = d_events d"
    and "d_seq d \<le> d_seq d'" and "billing_inv c d"
  shows "billing_inv c d'"
proof -
  have "monitored_slots_committed d' = monitored_slots_committed d"
    by (simp add: monitored_slots_committed_def projected_cong [OF assms(1,2)])
  moreover have "integrity d'"
  proof -
    from assms(5) have i: "integrity d" by (simp add: billing_inv_def)
    have "\<forall>s \<in> set (d_subs d). su_id s \<le> d_seq d'" "\<forall>p \<in> set (d_plans d). pl_id p \<le> d_seq d'"
      using integrityD(6,7) [OF i] assms(4) by (auto intro: order_trans)
    with i show ?thesis by (simp add: integrity_def assms(1-3))
  qed
  ultimately show ?thesis
    using assms(5) by (simp add: billing_inv_def columns_ok_def journal_ok_def assms(1-3))
qed

lemma invitee_frame:
  assumes "invitee d email fst_n lst_n = (u, d')"
  shows "d_subs d' = d_subs d" "d_plans d' = d_plans d" "d_events d' = d_events d" "d_seq d \<le> d_seq d'"
    "d_memberships d' = d_memberships d" "d_tenants d' = d_tenants d" "d_invitations d' = d_invitations d"
    "u \<in> set (d_users d')"
  using assms by (auto simp: invitee_def user_by_email_def Let_def dest: find_SomeD split: option.splits)

lemma link_frame:
  assumes "create_access_invitation cr now d u what actor ttl raw = (i, d')"
  shows "d_subs d' = d_subs d" "d_plans d' = d_plans d" "d_events d' = d_events d" "d_seq d \<le> d_seq d'"
    "d_memberships d' = d_memberships d" "d_tenants d' = d_tenants d" "d_users d' = d_users d"
  using assms by (auto simp: create_access_invitation_def Let_def)

lemma insert_tenant_frame [simp]:
  "d_subs (insert_tenant t o1 d) = d_subs d" "d_plans (insert_tenant t o1 d) = d_plans d"
  "d_events (insert_tenant t o1 d) = d_events d" "d_seq (insert_tenant t o1 d) = d_seq d + 2"
  "d_tenants (insert_tenant t o1 d) = t # d_tenants d"
  by (simp_all add: insert_tenant_def)

lemma start_trial_members:
  assumes "start_trial e d t plan actor n = Inr (s, d')"
  shows "d_memberships d' = d_memberships d" "d_tenants d' = d_tenants d" "d_invitations d' = d_invitations d"
    "su_tenant s = t" "is_operational s" "s \<in> set (d_subs d')" "su_status s = Trial"
  using assms
  by (auto simp: start_trial_def Let_def rbind_Inr_iff frame record_event_def new_trial_def is_operational_def
    dest!: after_alerts_Inr split: if_splits option.splits)

lemma activate_members:
  assumes "activate e d s per actor why = Inr (s', d')"
  shows "d_memberships d' = d_memberships d" "d_tenants d' = d_tenants d" "d_invitations d' = d_invitations d"
    "su_tenant s' = su_tenant s" "is_operational s'" "su_id s' = su_id s" "su_status s' = Active"
    "s \<in> set (d_subs d) \<Longrightarrow> s' \<in> set (d_subs d')"
proof -
  have "d' = d \<and> s' = s \<and> su_status s = Active \<or>
      (\<exists>w v. alerts_only (d\<lparr>d_subs := upd_where (\<lambda>r. su_id r = su_id s) w (d_subs d), d_events := v # d_events d\<rparr>) d' \<and>
        s' = w s \<and> su_tenant (w s) = su_tenant s \<and> su_id (w s) = su_id s \<and> su_status (w s) = Active)"
    using assms by (auto simp: activate_def rbind_Inr_iff Let_def save_sub_def record_event_def is_operational_def
      dest!: after_alerts_Inr split: if_splits)
  then show "d_memberships d' = d_memberships d" "d_tenants d' = d_tenants d" "d_invitations d' = d_invitations d"
    "su_tenant s' = su_tenant s" "is_operational s'" "su_id s' = su_id s" "su_status s' = Active"
    "s \<in> set (d_subs d) \<Longrightarrow> s' \<in> set (d_subs d')"
    by (auto simp: frame set_upd_where image_iff is_operational_def)
qed


lemma lift_error_Inr [simp]: "lift_error f r = Inr x \<longleftrightarrow> r = Inr x"
  by (cases r) simp_all

lemma new_link_resolves:
  assumes "create_access_invitation cr now d u what actor None raw = (i, d')"
  shows "resolve_access_invitation cr now d' raw = Some i \<and> in_user i = u"
proof -
  have "i = \<lparr>in_id = d_seq d + 1, in_user = u, in_purpose = what, in_token_hash = cr_sha256 cr raw,
        in_expires_at = now + (if what = Invitation then INVITATION_TTL_HOURS else RESET_TTL_HOURS) * 3600 * second,
        in_used_at = None, in_created_by = actor\<rparr>" and "\<exists>rest. d_invitations d' = i # rest"
    using assms [symmetric] by (simp_all add: create_access_invitation_def Let_def)
  then show ?thesis
    by (auto simp: resolve_access_invitation_def invitation_is_usable_def INVITATION_TTL_HOURS_def RESET_TTL_HOURS_def)
qed

lemma create_client_steps [ok_cases]:
  assumes "create_client cr slugify e d name0 email0 plan engagement n first_name last_name actor fs raw =
      Inr ((t, u, s, token), d')"
  obtains d1 s0 d3 d4 i where "\<not> name_clash d (strip name0) None"
    and "invitee d (lower (strip email0)) first_name last_name = (u, d1)"
    and "t = set_fields (fs\<lparr>tf_name := None\<rparr>)
           (new_tenant (d_seq d1 + 1) (strip name0) (unique_slug slugify d1 (strip name0)))"
    and "start_trial e (insert_tenant t (us_id u) d1) (te_id t) plan actor n = Inr (s0, d3)"
    and "engagement = ''active'' \<and> (\<exists>why. activate e d3 s0 None actor why = Inr (s, d4)) \<or>
         engagement \<noteq> ''active'' \<and> s = s0 \<and> d4 = d3"
    and "create_access_invitation cr (e_now e) d4 (us_id u) Invitation actor None raw = (i, d')"
    and "token = raw"
proof -
  obtain u' d1 where inv: "invitee d (lower (strip email0)) first_name last_name = (u', d1)" by (metis prod.exhaust)
  let ?t = "set_fields (fs\<lparr>tf_name := None\<rparr>)
     (new_tenant (d_seq d1 + 1) (strip name0) (unique_slug slugify d1 (strip name0)))"
  from assms inv obtain s0 d3 where no: "\<not> name_clash d (strip name0) None"
    and tr: "start_trial e (insert_tenant ?t (us_id u') d1) (te_id ?t) plan actor n = Inr (s0, d3)"
    and rest: "rbind (if engagement = ''active''
                 then lift_error Billing_refused (activate e d3 s0 None actor
                        (''Client cr'' @ [CHR 0xE9, CHR 0xE9] @ '' directement en abonnement actif.''))
                 else Inr (s0, d3)) (\<lambda>(s', d4).
            case create_access_invitation cr (e_now e) d4 (us_id u') Invitation actor None raw of
              (_, d5) \<Rightarrow> Inr ((?t, u', s', raw), d5)) = Inr ((t, u, s, token), d')"
    unfolding create_client_def Let_def
    by (simp only: split: if_splits) (auto simp: rbind_Inr_iff)
  from rest obtain s' d4 where act: "(if engagement = ''active''
                 then lift_error Billing_refused (activate e d3 s0 None actor
                        (''Client cr'' @ [CHR 0xE9, CHR 0xE9] @ '' directement en abonnement actif.''))
                 else Inr (s0, d3)) = Inr (s', d4)"
    and last: "(case create_access_invitation cr (e_now e) d4 (us_id u') Invitation actor None raw of
              (_, d5) \<Rightarrow> Inr ((?t, u', s', raw), d5)) = (Inr ((t, u, s, token), d') :: tenant_error + _)"
    unfolding rbind_Inr_iff by force
  obtain i d5 where link: "create_access_invitation cr (e_now e) d4 (us_id u') Invitation actor None raw = (i, d5)"
    by (metis prod.exhaust)
  from last link have eqs: "t = ?t" "u = u'" "s = s'" "token = raw" "d' = d5" by simp_all
  show ?thesis
    using that [OF no inv [folded eqs(2)] eqs(1)] tr act link
    unfolding eqs by (auto split: if_splits)
qed


lemma set_fields_keeps [simp]:
  "te_id (set_fields fs t) = te_id t" "te_slug (set_fields fs t) = te_slug t"
  "te_archived_at (set_fields fs t) = te_archived_at t"
  by (simp_all add: set_fields_def)

lemma save_tenant_frame [simp]:
  "d_subs (save_tenant w t d) = d_subs d" "d_plans (save_tenant w t d) = d_plans d"
  "d_events (save_tenant w t d) = d_events d" "d_seq (save_tenant w t d) = d_seq d"
  "d_memberships (save_tenant w t d) = d_memberships d"
  by (simp_all add: save_tenant_def)

lemma get_subscription_in: "get_subscription d t = Some s \<Longrightarrow> s \<in> set (d_subs d) \<and> su_tenant s = t"
  by (auto simp: get_subscription_def dest: find_SomeD)

lemma get_subscription_iff:
  assumes "integrity d"
  shows "get_subscription d t = Some s \<longleftrightarrow> s \<in> set (d_subs d) \<and> su_tenant s = t"
  using find_key [OF integrityD(2) [OF assms], of s] get_subscription_in [of d t s]
  by (auto simp: get_subscription_def)

section \<open>Members\<close>

definition has_admin :: "db \<Rightarrow> int \<Rightarrow> bool" where
  "has_admin d t = (\<exists>m \<in> set (d_memberships d). me_tenant m = t \<and> me_role m = Admin)"

definition members_ok :: "db \<Rightarrow> bool" where
  "members_ok d = (distinct (map me_id (d_memberships d)) \<and> (\<forall>m \<in> set (d_memberships d). me_id m \<le> d_seq d))"

text \<open>What the console does to the members of companies.\<close>

inductive member_step :: "db \<Rightarrow> db \<Rightarrow> bool" where
  step_invite: "invite_member cr now d t email role_name actor first_name last_name raw = Inr (r, d') \<Longrightarrow>
    member_step d d'"
| step_role: "m \<in> set (d_memberships d) \<Longrightarrow> change_member_role d m role_name = Inr (m', d') \<Longrightarrow> member_step d d'"
| step_activity: "m \<in> set (d_memberships d) \<Longrightarrow> set_member_active d m active = Inr (m', d') \<Longrightarrow> member_step d d'"
| step_remove: "m \<in> set (d_memberships d) \<Longrightarrow> remove_member d m = Inr (email, d') \<Longrightarrow> member_step d d'"

lemma invite_result [ok_cases]:
  assumes "invite_member cr now d t email0 role_name actor first_name last_name raw = Inr ((m, token), d')"
  obtains u d1 i where "ensure_user_quota d t 1 = Inr ()"
    and "invitee d (lower (strip email0)) first_name last_name = (u, d1)"
    and "\<forall>m \<in> set (d_memberships d1). \<not> (me_tenant m = t \<and> me_user m = us_id u)"
    and "me_tenant m = t" and "me_user m = us_id u" and "me_id m = d_seq d1 + 1"
    and "create_access_invitation cr now (d1\<lparr>d_seq := d_seq d1 + 1, d_memberships := m # d_memberships d1\<rparr>)
           (us_id u) Invitation actor None raw = (i, d')"
proof -
  obtain u d1 where inv: "invitee d (lower (strip email0)) first_name last_name = (u, d1)" by (metis prod.exhaust)
  from assms inv obtain rl where q: "ensure_user_quota d t 1 = Inr ()"
    and no: "\<forall>m \<in> set (d_memberships d1). \<not> (me_tenant m = t \<and> me_user m = us_id u)"
    and res: "(case create_access_invitation cr now (d1\<lparr>d_seq := d_seq d1 + 1, d_memberships :=
         \<lparr>me_id = d_seq d1 + 1, me_tenant = t, me_user = us_id u, me_role = rl\<rparr> # d_memberships d1\<rparr>)
           (us_id u) Invitation actor None raw of
         (_, d3) \<Rightarrow> Inr ((\<lparr>me_id = d_seq d1 + 1, me_tenant = t, me_user = us_id u, me_role = rl\<rparr>, raw), d3)) =
       (Inr ((m, token), d') :: tenant_error + _)"
    unfolding invite_member_def Let_def
    by (simp only: split: if_splits option.splits) (auto simp: rbind_Inr_iff split: if_splits)
  let ?m = "\<lparr>me_id = d_seq d1 + 1, me_tenant = t, me_user = us_id u, me_role = rl\<rparr>"
  obtain i d3 where link: "create_access_invitation cr now (d1\<lparr>d_seq := d_seq d1 + 1, d_memberships :=
      ?m # d_memberships d1\<rparr>) (us_id u) Invitation actor None raw = (i, d3)" by (metis prod.exhaust)
  from res link have eqs: "m = ?m" "d' = d3" by simp_all
  show ?thesis by (rule that [OF q inv no]) (simp_all add: eqs link)
qed

lemma member_step_admin:
  assumes "member_step d d'" and "members_ok d"
  shows "members_ok d' \<and> (has_admin d t \<longrightarrow> has_admin d' t)"
  using assms
proof (cases rule: member_step.cases)
  case (step_invite cr now t' email role_name actor fn1 ln1 raw r)
  obtain m token where "r = (m, token)" by (cases r)
  with step_invite obtain u d1 i where
    inv: "invitee d (lower (strip email)) fn1 ln1 = (u, d1)" and mid: "me_id m = d_seq d1 + 1"
    and link: "create_access_invitation cr now (d1\<lparr>d_seq := d_seq d1 + 1, d_memberships := m # d_memberships d1\<rparr>)
           (us_id u) Invitation actor None raw = (i, d')"
    by (auto elim!: invite_result)
  note f = invitee_frame [OF inv] link_frame [OF link]
  have "d_memberships d' = m # d_memberships d" "d_seq d \<le> d_seq d1" "d_seq d1 + 1 \<le> d_seq d'"
    using f by simp_all
  with assms(2) mid show ?thesis by (fastforce simp: members_ok_def has_admin_def)
next
  case (step_role m role_name m')
  then obtain rl where rl: "role_of role_name = Some rl" and g: "\<not> (rl \<noteq> Admin \<and> is_last_admin d m)"
    and d': "d' = d\<lparr>d_memberships := upd_where (\<lambda>r. me_id r = me_id m) (\<lambda>r. r\<lparr>me_role := rl\<rparr>) (d_memberships d)\<rparr>"
    by (auto simp: change_member_role_def split: option.splits if_splits)
  have "members_ok d'"
    using assms(2) by (auto simp: members_ok_def d' map_upd_where set_upd_where)
  moreover have "has_admin d' t" if "has_admin d t"
  proof -
    from that obtain a where a: "a \<in> set (d_memberships d)" "me_tenant a = t" "me_role a = Admin"
      by (auto simp: has_admin_def)
    have keep: "r \<in> set (d_memberships d) \<Longrightarrow> me_id r \<noteq> me_id m \<Longrightarrow> r \<in> set (d_memberships d')" for r
      by (force simp: d' set_upd_where)
    show ?thesis
    proof (cases "me_id a = me_id m")
      case False
      with keep a show ?thesis by (auto simp: has_admin_def)
    next
      case True
      with assms(2) a(1) step_role(1) have "a = m"
        using distinct_map_eq [of me_id "d_memberships d" a m] by (simp add: members_ok_def)
      with a g consider "rl = Admin" | r where "r \<in> set (d_memberships d)" "me_tenant r = t" "me_role r = Admin"
        "me_id r \<noteq> me_id m"
        by (auto simp: is_last_admin_def filter_empty_conv)
      then show ?thesis
      proof cases
        case 1
        have "a\<lparr>me_role := Admin\<rparr> \<in> set (d_memberships d')"
          using a(1) True 1 by (force simp: d' set_upd_where)
        with a(2) show ?thesis
          unfolding has_admin_def by (intro bexI [of _ "a\<lparr>me_role := Admin\<rparr>"]) simp_all
      next
        case 2
        with keep show ?thesis by (auto simp: has_admin_def)
      qed
    qed
  qed
  ultimately show ?thesis by blast
next
  case (step_activity m active m')
  then show ?thesis
    using assms(2) by (auto simp: set_member_active_def members_ok_def has_admin_def split: if_splits)
next
  case (step_remove m email)
  then have g: "\<not> is_last_admin d m"
    and d': "d' = d\<lparr>d_memberships := filter (\<lambda>r. me_id r \<noteq> me_id m) (d_memberships d)\<rparr>"
    by (auto simp: remove_member_def split: if_splits)
  have "members_ok d'" using assms(2) by (auto simp: members_ok_def d' intro: distinct_map_filter)
  moreover have "has_admin d' t" if "has_admin d t"
  proof -
    from that obtain a where a: "a \<in> set (d_memberships d)" "me_tenant a = t" "me_role a = Admin"
      by (auto simp: has_admin_def)
    show ?thesis
    proof (cases "me_id a = me_id m")
      case False
      with a show ?thesis by (auto simp: has_admin_def d')
    next
      case True
      with assms(2) a(1) step_remove(1) have "a = m"
        using distinct_map_eq [of me_id "d_memberships d" a m] by (simp add: members_ok_def)
      with a g show ?thesis by (auto simp: is_last_admin_def filter_empty_conv has_admin_def d')
    qed
  qed
  ultimately show ?thesis by blast
qed


lemma member_steps_admin:
  "member_step\<^sup>*\<^sup>* d d' \<Longrightarrow> members_ok d \<Longrightarrow> members_ok d' \<and> (has_admin d t \<longrightarrow> has_admin d' t)"
  by (induction rule: rtranclp_induct) (use member_step_admin in \<open>blast+\<close>)

section \<open>Requests\<close>

text \<open>The company a request names: what its header reads as.\<close>

definition names_company :: "(string \<Rightarrow> int option) \<Rightarrow> request \<Rightarrow> int \<Rightarrow> bool" where
  "names_company parse_uuid rq t = (\<exists>h. rq_tenant_header rq = Some h \<and> h \<noteq> '''' \<and> parse_uuid h = Some t)"

lemma middleware_cases:
  assumes "scoping_middleware parse_uuid d None rq handler = (Handled x, ctx')"
  shows "ctx' = None \<and> (x = handler None None \<or>
     (\<exists>u m. rq_user rq = Some u \<and> m \<in> set (d_memberships d) \<and> me_user m = u \<and>
        names_company parse_uuid rq (me_tenant m) \<and> x = handler (Some (me_tenant m)) (Some m)))"
proof (cases "\<exists>u h m. rq_user rq = Some u \<and> rq_tenant_header rq = Some h \<and> h \<noteq> '''' \<and>
    resolve_membership parse_uuid d u h = Some m")
  case True
  then obtain u h m where r: "rq_user rq = Some u" "rq_tenant_header rq = Some h" "h \<noteq> ''''"
    "resolve_membership parse_uuid d u h = Some m" by blast
  then have "m \<in> set (d_memberships d)" "me_user m = u" "names_company parse_uuid rq (me_tenant m)"
    by (auto simp: resolve_membership_def get_membership_def names_company_def dest!: find_SomeD
      split: option.splits)
  with assms r show ?thesis by (auto simp: scoping_middleware_def)
next
  case False
  with assms show ?thesis by (auto simp: scoping_middleware_def split: option.splits if_splits)
qed

lemma stranger_refused:
  assumes "rq_user rq = Some u" and "rq_tenant_header rq = Some h" and "h \<noteq> ''''"
    and "\<And>m. m \<in> set (d_memberships d) \<Longrightarrow> me_user m = u \<Longrightarrow> parse_uuid h \<noteq> Some (me_tenant m)"
  shows "scoping_middleware parse_uuid d ctx rq handler = (No_access, ctx)"
proof -
  have "resolve_membership parse_uuid d u h = None"
    using assms(4) by (auto simp: resolve_membership_def get_membership_def find_None_iff split: option.split)
  with assms(1-3) show ?thesis by (simp add: scoping_middleware_def)
qed

lemma other_key: "j \<noteq> i \<Longrightarrow> filter (\<lambda>r. f r \<noteq> i \<and> f r = j) xs = filter (\<lambda>r. f r = j) xs"
  by (rule filter_cong) auto

section \<open>Properties\<close>

text \<open>
  A client is created whole or not at all: when the creation succeeds the company exists under a
  slug nobody had, the invited person is its administrator, it has an operational subscription
  (active when asked), the returned token resolves to that person, and the pool still holds.
\<close>

theorem create_client_complete:
  assumes "create_client cr slugify e d name0 email0 plan engagement n first_name last_name actor fs raw =
      Inr ((t, u, s, token), d')"
    and "billing_inv c d" and "monitored_slot_capacity e = Inr c"
    and "\<forall>p. plan = Some p \<longrightarrow> p \<in> set (d_plans d)"
  shows "t \<in> set (d_tenants d') \<and> te_slug t \<notin> te_slug ` set (d_tenants d) \<and>
         (\<exists>m \<in> set (d_memberships d'). me_tenant m = te_id t \<and> me_user m = us_id u \<and> me_role m = Admin) \<and>
         get_subscription d' (te_id t) = Some s \<and> is_operational s \<and>
         (engagement = ''active'' \<longrightarrow> su_status s = Active) \<and>
         (\<exists>i. resolve_access_invitation cr (e_now e) d' token = Some i \<and> in_user i = us_id u) \<and>
         billing_inv c d'"
  using assms(1)
proof (rule create_client_steps)
  fix d1 s0 d3 d4 i
  assume inv: "invitee d (lower (strip email0)) first_name last_name = (u, d1)"
    and t: "t = set_fields (fs\<lparr>tf_name := None\<rparr>)
           (new_tenant (d_seq d1 + 1) (strip name0) (unique_slug slugify d1 (strip name0)))"
    and tr: "start_trial e (insert_tenant t (us_id u) d1) (te_id t) plan actor n = Inr (s0, d3)"
    and act: "engagement = ''active'' \<and> (\<exists>why. activate e d3 s0 None actor why = Inr (s, d4)) \<or>
         engagement \<noteq> ''active'' \<and> s = s0 \<and> d4 = d3"
    and link: "create_access_invitation cr (e_now e) d4 (us_id u) Invitation actor None raw = (i, d')"
    and tok: "token = raw"
  note f1 = invitee_frame [OF inv] and f3 = start_trial_members [OF tr] and f5 = link_frame [OF link]
  have "billing_inv c (insert_tenant t (us_id u) d1)"
    by (rule billing_inv_cong [OF _ _ _ _ assms(2)]) (use f1 in simp_all)
  then have i3: "billing_inv c d3"
    using start_trial_inv [OF _ assms(3) _ tr] assms(4) f1(2) by simp
  have i4: "billing_inv c d4" and m4: "d_memberships d4 = d_memberships d3" "d_tenants d4 = d_tenants d3"
    and s: "su_tenant s = te_id t" "is_operational s" "s \<in> set (d_subs d4)"
    "engagement = ''active'' \<longrightarrow> su_status s = Active"
    using act activate_inv [OF i3 assms(3) f3(6)] activate_members [of e d3 s0 None actor _ s d4] i3 f3
    by auto
  have i5: "billing_inv c d'"
    by (rule billing_inv_cong [OF _ _ _ _ i4]) (use f5 in simp_all)
  moreover have "get_subscription d' (te_id t) = Some s"
    using get_subscription_iff [of d'] i5 s f5(1) by (simp add: billing_inv_def)
  moreover have "t \<in> set (d_tenants d')" using f5 m4 f3 by simp
  moreover have "te_slug t \<notin> te_slug ` set (d_tenants d)"
    using unique_slug_fresh [of slugify d1 "strip name0"] f1 by (simp add: t new_tenant_def)
  moreover have "\<exists>m \<in> set (d_memberships d'). me_tenant m = te_id t \<and> me_user m = us_id u \<and> me_role m = Admin"
    using f5 m4 f3 by (simp add: insert_tenant_def)
  moreover have "\<exists>i. resolve_access_invitation cr (e_now e) d' token = Some i \<and> in_user i = us_id u"
    using new_link_resolves [OF link] tok by blast
  ultimately show ?thesis using s(2,4) by simp
qed

lemma demo_capacity: "monitored_slot_capacity demo_env = Inr 3"
  by (simp add: monitored_slot_capacity_def int_setting_def setting_value_def setting_get_def stored_def
    fallback_def spec_of_def settings_registry_def int_spec_def demo_env_def setting_keys)

lemma demo_quiet: "after_alerts demo_env x d = Inr (x, d)"
  by (simp add: after_alerts_def check_alert_thresholds_def demo_env_def)

theorem create_client_complete_example:
  "\<exists>t u s d'. create_client demo_crypto id demo_env (empty_db\<lparr>d_plans := [demo_plan], d_seq := 1\<rparr>)
      ''Acme'' ''a@b'' None ''trial'' None '''' '''' None no_fields ''tok'' = Inr ((t, u, s, ''tok''), d') \<and>
    get_subscription d' (te_id t) = Some s \<and> is_operational s \<and> billing_inv 3 d'"
proof -
  let ?d = "empty_db\<lparr>d_plans := [demo_plan], d_seq := 1\<rparr>"
  have inv: "billing_inv 3 ?d"
    by (simp add: billing_inv_def integrity_def columns_ok_def journal_ok_def demo
      monitored_slots_committed_def projected_monitored_slots_def)
  have plan: "get_default_trial_plan demo_env d = Some demo_plan" if "d_plans d = [demo_plan]" for d
    using that by (simp add: get_default_trial_plan_def demo_env_def list_published_plans_def first_def
      demo_plan_def)
  obtain u d1 where i: "invitee ?d ''a@b'' '''' '''' = (u, d1)" by (metis prod.exhaust)
  note f = invitee_frame [OF i]
  have mail: "lower (strip ''a@b'') = ''a@b''" "strip ''Acme'' = ''Acme''"
    by (simp_all add: lower_def strip_def is_space_def ascii_lower_def)
  define t where "t = set_fields (no_fields\<lparr>tf_name := None\<rparr>)
     (new_tenant (d_seq d1 + 1) ''Acme'' (unique_slug id d1 ''Acme''))"
  let ?d2 = "insert_tenant t (us_id u) d1"
  have none: "get_subscription ?d2 x = None" for x
    using f by (simp add: get_subscription_def empty_db_def)
  have guard: "ensure_monitored_slots_available demo_env ?d2 (pl_monitored_assets demo_plan) None = Inr ()"
    using f by (simp add: ensure_monitored_slots_available_def demo_capacity projected_monitored_slots_def
      empty_db_def demo_plan_def)
  have "\<exists>s d3. start_trial demo_env ?d2 (te_id t) None None None = Inr (s, d3)"
    using f by (simp add: start_trial_def none plan guard demo_quiet Let_def)
  then obtain s d3 where tr: "start_trial demo_env ?d2 (te_id t) None None None = Inr (s, d3)" by blast
  obtain j d' where link: "create_access_invitation demo_crypto (e_now demo_env) d3 (us_id u) Invitation None None ''tok'' = (j, d')"
    by (metis prod.exhaust)
  have "\<not> name_clash ?d ''Acme'' None" by (simp add: name_clash_def empty_db_def)
  then have ok: "create_client demo_crypto id demo_env ?d ''Acme'' ''a@b'' None ''trial'' None '''' '''' None no_fields ''tok'' =
      Inr ((t, u, s, ''tok''), d')"
    unfolding create_client_def Let_def mail using i tr link by (simp add: t_def)
  from create_client_complete [OF ok inv demo_capacity] ok show ?thesis by blast
qed

text \<open>
  C9: A company never loses its last administrator through its membership: whatever sequence of
  invitations, changes of role, deactivations and removals, a company that has a member with the
  administrator role keeps one.
\<close>

theorem company_keeps_an_admin:
  assumes "members_ok d" and "has_admin d t" and "member_step\<^sup>*\<^sup>* d d'"
  shows "has_admin d' t"
  using member_steps_admin [OF assms(3,1)] assms(2) by blast

theorem company_keeps_an_admin_witness:
  "\<exists>d'. remove_member (empty_db\<lparr>d_seq := 2, d_memberships :=
       [\<lparr>me_id = 1, me_tenant = 7, me_user = 1, me_role = Admin\<rparr>,
        \<lparr>me_id = 2, me_tenant = 7, me_user = 2, me_role = Admin\<rparr>]\<rparr>)
     \<lparr>me_id = 1, me_tenant = 7, me_user = 1, me_role = Admin\<rparr> = Inr ('''', d') \<and> has_admin d' 7"
proof -
  let ?m = "\<lambda>i. \<lparr>me_id = i, me_tenant = 7, me_user = i, me_role = Admin\<rparr>"
  let ?d = "empty_db\<lparr>d_seq := 2, d_memberships := [?m 1, ?m 2]\<rparr>"
  let ?d' = "?d\<lparr>d_memberships := [?m 2]\<rparr>"
  have ok: "remove_member ?d (?m 1) = Inr ('''', ?d')"
    by (simp add: remove_member_def is_last_admin_def user_email_def empty_db_def)
  have "member_step\<^sup>*\<^sup>* ?d ?d'"
    by (rule r_into_rtranclp, rule step_remove [OF _ ok]) simp
  moreover have "members_ok ?d" "has_admin ?d 7" by (simp_all add: members_ok_def has_admin_def)
  ultimately have "has_admin ?d' 7" using company_keeps_an_admin by blast
  with ok show ?thesis by blast
qed

definition active_admin :: "db \<Rightarrow> int \<Rightarrow> bool" where
  "active_admin d t =
     (\<exists>m \<in> set (d_memberships d). me_tenant m = t \<and> me_role m = Admin \<and>
        (\<exists>u \<in> set (d_users d). us_id u = me_user m \<and> us_is_active u))"

text \<open>
  The guard counts the role and not the access: two administrators can be deactivated one after
  the other, after which no active account administers the company.
\<close>

theorem admins_can_all_be_deactivated:
  "\<exists>d d' t. members_ok d \<and> active_admin d t \<and> member_step\<^sup>*\<^sup>* d d' \<and> \<not> active_admin d' t"
proof -
  let ?u = "\<lambda>i. demo_user\<lparr>us_id := i\<rparr>"
  let ?m = "\<lambda>i. \<lparr>me_id = i, me_tenant = 7, me_user = i, me_role = Admin\<rparr>"
  let ?d = "empty_db\<lparr>d_seq := 2, d_users := [?u 1, ?u 2], d_memberships := [?m 1, ?m 2]\<rparr>"
  let ?d1 = "?d\<lparr>d_users := [(?u 1)\<lparr>us_is_active := False\<rparr>, ?u 2]\<rparr>"
  let ?d2 = "?d\<lparr>d_users := [(?u 1)\<lparr>us_is_active := False\<rparr>, (?u 2)\<lparr>us_is_active := False\<rparr>]\<rparr>"
  have "set_member_active ?d (?m 1) False = Inr (?m 1, ?d1)"
    by (simp add: set_member_active_def is_last_admin_def demo_user_def)
  then have "member_step ?d ?d1" by (intro step_activity [where m = "?m 1"]) (simp, assumption)
  moreover have "set_member_active ?d1 (?m 2) False = Inr (?m 2, ?d2)"
    by (simp add: set_member_active_def is_last_admin_def demo_user_def)
  then have "member_step ?d1 ?d2" by (intro step_activity [where m = "?m 2"]) (simp, assumption)
  ultimately have "member_step\<^sup>*\<^sup>* ?d ?d2" by simp
  moreover have "members_ok ?d" "active_admin ?d 7" "\<not> active_admin ?d2 7"
    by (simp_all add: members_ok_def active_admin_def demo_user_def)
  ultimately show ?thesis by blast
qed

text \<open>
  C10: Requests are isolated: what a handler reads through the scoped manager is exactly the rows of
  the company its header names, of which the user is a member; without a membership in it nothing is
  read, and a header that names a company the user is not a member of is refused before the handler
  runs; a reader passes no guard for a writing method, and only an administrator of the company named
  passes the administrator guard. The context of the caller is restored.
\<close>

theorem requests_are_isolated:
  assumes "scoping_middleware parse_uuid d ctx rq
             (\<lambda>c m. (scoped c tenant_of rows, m, read_only_for_reader (rq_method rq) m, is_tenant_admin m)) =
           (Handled (seen, m, may_write, may_admin), ctx')"
    and "ctx = None"
  shows "ctx' = ctx \<and> (m = None \<longrightarrow> seen = []) \<and>
         (\<forall>x. m = Some x \<longrightarrow> x \<in> set (d_memberships d) \<and> rq_user rq = Some (me_user x) \<and>
            names_company parse_uuid rq (me_tenant x) \<and>
            seen = filter (\<lambda>r. tenant_of r = me_tenant x) rows) \<and>
         (\<forall>u h. rq_user rq = Some u \<and> rq_tenant_header rq = Some h \<and> h \<noteq> '''' \<longrightarrow>
            (\<exists>x \<in> set (d_memberships d). me_user x = u \<and> parse_uuid h = Some (me_tenant x) \<and> m = Some x)) \<and>
         (\<forall>r \<in> set seen. names_company parse_uuid rq (tenant_of r) \<and>
            (\<exists>x \<in> set (d_memberships d). rq_user rq = Some (me_user x) \<and> me_tenant x = tenant_of r)) \<and>
         (may_write \<and> rq_method rq \<notin> set SAFE_METHODS \<longrightarrow> (\<exists>x. m = Some x \<and> me_role x \<noteq> Reader)) \<and>
         (may_admin \<longrightarrow> (\<exists>x. m = Some x \<and> x \<in> set (d_memberships d) \<and> rq_user rq = Some (me_user x) \<and>
            me_role x = Admin))"
proof -
  note run = assms(1) [unfolded assms(2)]
  have member: "\<exists>x \<in> set (d_memberships d). me_user x = u \<and> parse_uuid h = Some (me_tenant x) \<and> m = Some x"
    if "rq_user rq = Some u" "rq_tenant_header rq = Some h" "h \<noteq> ''''" for u h
    using run that
    by (auto simp: scoping_middleware_def resolve_membership_def get_membership_def dest!: find_SomeD
      split: option.splits)
  show ?thesis
    using middleware_cases [OF run] member assms(2)
    by (auto simp: scoped_def read_only_for_reader_def is_tenant_admin_def is_tenant_member_def)
qed

theorem requests_are_isolated_witness:
  "\<exists>parse_uuid d rq seen m ctx'. scoping_middleware parse_uuid d None rq
      (\<lambda>c m. (scoped c id [7, 8, 9], m, read_only_for_reader (rq_method rq) m, is_tenant_admin m)) =
    (Handled (seen, Some m, False, False), ctx') \<and> seen = [7] \<and> m \<in> set (d_memberships d) \<and>
    me_tenant m = 7 \<and> names_company parse_uuid rq 7"
proof -
  let ?p = "\<lambda>h. if h = ''7'' then Some 7 else if h = ''8'' then Some 8 else None"
  let ?m = "\<lparr>me_id = 1, me_tenant = 7, me_user = 1, me_role = Reader\<rparr>"
  let ?m8 = "\<lparr>me_id = 2, me_tenant = 8, me_user = 1, me_role = Admin\<rparr>"
  let ?d = "empty_db\<lparr>d_memberships := [?m8, ?m]\<rparr>"
  let ?rq = "\<lparr>rq_user = Some 1, rq_tenant_header = Some ''7'', rq_method = ''POST''\<rparr>"
  obtain ctx' where run: "scoping_middleware ?p ?d None ?rq
      (\<lambda>c m. (scoped c id [7, 8, 9], m, read_only_for_reader (rq_method ?rq) m, is_tenant_admin m)) =
      (Handled ([7], Some ?m, False, False), ctx')"
    by (simp add: scoping_middleware_def resolve_membership_def get_membership_def scoped_def
      read_only_for_reader_def SAFE_METHODS_def is_tenant_admin_def is_tenant_member_def)
  have "?m \<in> set (d_memberships ?d) \<and> me_tenant ?m = 7 \<and> names_company ?p ?rq 7"
    using requests_are_isolated [OF run refl] by auto
  with run show ?thesis by blast
qed

definition tenant_rows :: "db \<Rightarrow> int \<Rightarrow> membership list \<times> subscription list \<times> ti_usage list \<times> monitored_asset list \<times> assignment list" where
  "tenant_rows d t =
     (filter (\<lambda>m. me_tenant m = t) (d_memberships d), filter (\<lambda>s. su_tenant s = t) (d_subs d),
      filter (\<lambda>u. ui_tenant u = t) (d_usages d), filter (\<lambda>m. mo_tenant m = t) (d_monitored d),
      filter (\<lambda>a. as_tenant a = t) (d_assignments d))"

text \<open>
  Archiving frees the pool and deleting leaves no trace: an archived company has no operational
  subscription, engages no slot and restoring it engages none either; only an archived company can
  be deleted, and a deletion removes the company's rows and leaves every other company's as they
  were.
\<close>

theorem archive_and_delete:
  assumes "billing_inv c d" and "\<not> is_archived t"
  shows "(case archive_tenant e d t actor why of (t', d') \<Rightarrow>
            is_archived t' \<and> billing_inv c d' \<and>
            (\<forall>s. get_subscription d' (te_id t) = Some s \<longrightarrow> \<not> is_operational s) \<and>
            monitored_slots_committed (snd (restore_tenant d' t')) = monitored_slots_committed d') \<and>
         delete_tenant_permanently held d t = Inl Not_archived \<and>
         (\<forall>held x nm d2. delete_tenant_permanently held d x = Inr (nm, d2) \<longrightarrow>
            is_archived x \<and> tenant_rows d2 (te_id x) = ([], [], [], [], []) \<and>
            (\<forall>j. j \<noteq> te_id x \<longrightarrow> tenant_rows d2 j = tenant_rows d j))"
proof -
  have del: "is_archived x \<and> tenant_rows d2 (te_id x) = ([], [], [], [], []) \<and>
      (\<forall>j. j \<noteq> te_id x \<longrightarrow> tenant_rows d2 j = tenant_rows d j)"
    if "delete_tenant_permanently held d x = Inr (nm, d2)" for held x nm d2
    using that by (auto simp: delete_tenant_permanently_def Let_def tenant_rows_def other_key
      split: if_splits)
  obtain t' d' where ar: "archive_tenant e d t actor why = (t', d')" by (metis prod.exhaust)
  define d1 where "d1 = (case get_subscription d (te_id t) of
      Some s \<Rightarrow> if is_operational s then snd (cancel_with e d s actor Tenant_archived) else d | None \<Rightarrow> d)"
  have i: "integrity d" using assms(1) by (simp add: billing_inv_def)
  have d1: "billing_inv c d1 \<and> (\<forall>s. get_subscription d1 (te_id t) = Some s \<longrightarrow> \<not> is_operational s)"
  proof (cases "\<exists>s. get_subscription d (te_id t) = Some s \<and> is_operational s")
    case True
    then obtain s where s: "get_subscription d (te_id t) = Some s" "is_operational s" by blast
    then have s_in: "s \<in> set (d_subs d)" "su_tenant s = te_id t" using get_subscription_in by blast+
    let ?w = "\<lambda>r. r\<lparr>su_status := Cancelled, su_ends_at := Some (e_now e)\<rparr>"
    have d1: "d1 = snd (cancel_with e d s actor Tenant_archived)" by (simp add: d1_def s)
    have b1: "billing_inv c d1"
      unfolding d1 by (rule cancel_with_inv [OF assms(1) s_in(1)]) (rule prod.collapse [symmetric])
    have "?w s \<in> set (d_subs d1)"
      using s_in by (force simp: d1 cancel_with_def set_upd_where Let_def)
    then have "get_subscription d1 (te_id t) = Some (?w s)"
      using get_subscription_iff [of d1] b1 s_in(2) by (simp add: billing_inv_def)
    with b1 show ?thesis by (simp add: is_operational_def)
  next
    case False
    then show ?thesis using assms(1) by (auto simp: d1_def split: option.splits)
  qed
  from ar assms(2) have t': "is_archived t'" and "\<exists>w. d' = save_tenant w t d1"
    by (auto simp: archive_tenant_def Let_def d1_def [symmetric] is_archived_def)
  then obtain w where d': "d' = save_tenant w t d1" by blast
  have "billing_inv c d'"
    by (rule billing_inv_cong [OF _ _ _ _ conjunct1 [OF d1]]) (simp_all add: d')
  moreover have "\<forall>s. get_subscription d' (te_id t) = Some s \<longrightarrow> \<not> is_operational s"
    using conjunct2 [OF d1] by (simp add: get_subscription_def d')
  moreover have "monitored_slots_committed (snd (restore_tenant d' t')) = monitored_slots_committed d'"
    unfolding monitored_slots_committed_def
    by (rule projected_cong) (simp_all add: restore_tenant_def Let_def)
  moreover have "delete_tenant_permanently held d t = Inl Not_archived"
    using assms(2) by (simp add: delete_tenant_permanently_def Let_def)
  ultimately show ?thesis
    using t' del unfolding ar prod.case by blast
qed


theorem archive_and_delete_example:
  "\<exists>t' d'. archive_tenant demo_env demo_db (new_tenant 7 ''Acme'' ''acme'') None '''' = (t', d') \<and>
     monitored_slots_committed demo_db = 3 \<and> \<not> is_operational (the (get_subscription d' 7))"
proof -
  let ?t = "new_tenant 7 ''Acme'' ''acme''"
  obtain t' d' where ar: "archive_tenant demo_env demo_db ?t None '''' = (t', d')" by (metis prod.exhaust)
  have "\<not> is_archived ?t" by (simp add: is_archived_def new_tenant_def)
  from archive_and_delete [OF demo_inv this, of demo_env None "''''"] ar
  have off: "\<forall>s. get_subscription d' 7 = Some s \<longrightarrow> \<not> is_operational s"
    by (simp add: new_tenant_def)
  have "get_subscription d' 7 \<noteq> None"
    using ar [symmetric] by (simp add: archive_tenant_def is_archived_def new_tenant_def get_subscription_def
      demo is_operational_def cancel_with_def save_tenant_def save_sub_def record_event_def Let_def)
  then obtain s where "get_subscription d' 7 = Some s" by blast
  moreover have "monitored_slots_committed demo_db = 3"
    by (simp add: monitored_slots_committed_def projected_monitored_slots_def demo is_operational_def
      monitored_assets_quota_def plan_of_def plan_row_def or_plan_def)
  ultimately show ?thesis using ar off by (intro exI [of _ t'] exI [of _ d']) simp
qed

end
