(* ===== verification/PlatformAdmins.thy ===== *)
theory PlatformAdmins
  imports Tenants AccountsSafety
begin

text \<open>
  The administrators of the platform (platform_admin/services.py): inviting one, changing the level
  of one, withdrawing the rights of one. An administrator without a profile is a full one.
\<close>

datatype admin_error = Admin_email_required | Unknown_level | Own_level | Own_rights | Last_full_admin

definition level_of :: "string \<Rightarrow> admin_level option" where
  "level_of l = (if l = ''full'' then Some Full else if l = ''commercial'' then Some Commercial else None)"

definition admin_profile_of :: "db \<Rightarrow> int \<Rightarrow> admin_profile option" where
  "admin_profile_of d u = find (\<lambda>p. ap_user p = u) (d_admins d)"

definition is_full_admin :: "db \<Rightarrow> user \<Rightarrow> bool" where
  "is_full_admin d u =
     (us_is_staff u \<and> us_is_active u \<and>
      (case admin_profile_of d (us_id u) of None \<Rightarrow> True | Some p \<Rightarrow> ap_level p = Full))"

definition count_full_admins :: "db \<Rightarrow> int option \<Rightarrow> nat" where
  "count_full_admins d but =
     length (filter (\<lambda>u. is_full_admin d u \<and> but \<noteq> Some (us_id u)) (d_users d))"

definition set_profile :: "int \<Rightarrow> (admin_profile \<Rightarrow> admin_profile) \<Rightarrow> db \<Rightarrow> db" where
  "set_profile u w d =
     d\<lparr>d_admins := (if u \<in> ap_user ` set (d_admins d)
         then upd_where (\<lambda>p. ap_user p = u) w (d_admins d)
         else w \<lparr>ap_user = u, ap_level = Commercial, ap_invited_by = None\<rparr> # d_admins d)\<rparr>"

definition invite_platform_admin ::
  "crypto \<Rightarrow> time \<Rightarrow> db \<Rightarrow> string \<Rightarrow> string \<Rightarrow> int option \<Rightarrow> string \<Rightarrow> admin_error + (int \<times> string) \<times> db" where
  "invite_platform_admin cr now d email0 level_name actor raw =
     (let email = lower (strip email0)
      in if email = '''' then Inl Admin_email_required
         else case level_of level_name of
           None \<Rightarrow> Inl Unknown_level
         | Some lv \<Rightarrow>
             (case invitee d email '''' '''' of
                (u, d1) \<Rightarrow>
                  (let d2 = d1\<lparr>d_users := upd_where (\<lambda>r. us_id r = us_id u) (\<lambda>r. r\<lparr>us_is_staff := True\<rparr>) (d_users d1)\<rparr>;
                       d3 = set_profile (us_id u) (\<lambda>p. p\<lparr>ap_level := lv, ap_invited_by := actor\<rparr>) d2
                   in case create_access_invitation cr now d3 (us_id u) Invitation actor None raw of
                        (_, d4) \<Rightarrow> Inr ((us_id u, raw), d4))))"

definition change_admin_level :: "db \<Rightarrow> user \<Rightarrow> string \<Rightarrow> int option \<Rightarrow> admin_error + db" where
  "change_admin_level d u level_name actor =
     (case level_of level_name of
        None \<Rightarrow> Inl Unknown_level
      | Some lv \<Rightarrow>
          if actor = Some (us_id u) then Inl Own_level
          else if lv \<noteq> Full \<and> count_full_admins d (Some (us_id u)) = 0 then Inl Last_full_admin
          else Inr (set_profile (us_id u) (\<lambda>p. p\<lparr>ap_level := lv\<rparr>) d))"

definition revoke_platform_admin :: "db \<Rightarrow> user \<Rightarrow> int option \<Rightarrow> admin_error + string \<times> db" where
  "revoke_platform_admin d u actor =
     (if actor = Some (us_id u) then Inl Own_rights
      else if count_full_admins d (Some (us_id u)) = 0 then Inl Last_full_admin
      else Inr (us_email u,
             d\<lparr>d_users := upd_where (\<lambda>r. us_id r = us_id u) (\<lambda>r. r\<lparr>us_is_staff := False\<rparr>) (d_users d),
               d_admins := filter (\<lambda>p. ap_user p \<noteq> us_id u) (d_admins d)\<rparr>))"

section \<open>Lemmas\<close>

lemma count_full_pos:
  "count_full_admins d but \<noteq> 0 \<longleftrightarrow> (\<exists>u \<in> set (d_users d). is_full_admin d u \<and> but \<noteq> Some (us_id u))"
  by (auto simp: count_full_admins_def filter_empty_conv)

lemma find_upd_key:
  "(\<And>p. ap_user (w p) = ap_user p) \<Longrightarrow> i \<noteq> u \<Longrightarrow>
   find (\<lambda>p. ap_user p = i) (upd_where (\<lambda>p. ap_user p = u) w ps) = find (\<lambda>p. ap_user p = i) ps"
  by (induction ps) auto

lemma set_profile_other:
  "(\<And>p. ap_user (w p) = ap_user p) \<Longrightarrow> i \<noteq> u \<Longrightarrow> admin_profile_of (set_profile u w d) i = admin_profile_of d i"
  by (auto simp: admin_profile_of_def set_profile_def find_upd_key)

lemma set_profile_full:
  assumes "u = us_id x" and "is_full_admin d x"
  shows "is_full_admin (set_profile u (\<lambda>p. p\<lparr>ap_level := Full\<rparr>) d) x"
proof -
  have "u \<in> ap_user ` set ps \<Longrightarrow>
      \<exists>p. find (\<lambda>p. ap_user p = u) (upd_where (\<lambda>p. ap_user p = u) (\<lambda>p. p\<lparr>ap_level := Full\<rparr>) ps) = Some p \<and>
        ap_level p = Full" for ps
    by (induction ps) auto
  with assms show ?thesis
    by (fastforce simp: is_full_admin_def admin_profile_of_def set_profile_def split: option.splits)
qed

text \<open>The changes the console makes to those who already administer it.\<close>

inductive admin_step :: "db \<Rightarrow> db \<Rightarrow> bool" where
  step_level: "change_admin_level d u level_name actor = Inr d' \<Longrightarrow> admin_step d d'"
| step_revoke: "revoke_platform_admin d u actor = Inr (email, d') \<Longrightarrow> admin_step d d'"

lemma admin_step_keeps:
  assumes "admin_step d d'" and "count_full_admins d None \<noteq> 0"
  shows "count_full_admins d' None \<noteq> 0"
  using assms(1)
proof cases
  case (step_level u level_name actor)
  then obtain lv where lv: "level_of level_name = Some lv"
    and g: "\<not> (lv \<noteq> Full \<and> count_full_admins d (Some (us_id u)) = 0)"
    and d': "d' = set_profile (us_id u) (\<lambda>p. p\<lparr>ap_level := lv\<rparr>) d"
    by (auto simp: change_admin_level_def split: option.splits if_splits)
  have users: "d_users d' = d_users d" by (simp add: d' set_profile_def)
  have other: "is_full_admin d' x = is_full_admin d x" if "us_id x \<noteq> us_id u" for x
    using that by (simp add: is_full_admin_def d' set_profile_other)
  show ?thesis
  proof (cases "\<exists>x \<in> set (d_users d). is_full_admin d x \<and> us_id x \<noteq> us_id u")
    case True
    with other users show ?thesis unfolding count_full_pos by auto
  next
    case False
    with g count_full_pos [of d "Some (us_id u)"] have "lv = Full" by auto
    from assms(2) False obtain x where "x \<in> set (d_users d)" "is_full_admin d x" "us_id x = us_id u"
      unfolding count_full_pos by auto
    with set_profile_full [of "us_id u" x d] \<open>lv = Full\<close> users show ?thesis
      unfolding count_full_pos by (auto simp: d')
  qed
next
  case (step_revoke u actor email)
  then have g: "count_full_admins d (Some (us_id u)) \<noteq> 0"
    and d': "d' = d\<lparr>d_users := upd_where (\<lambda>r. us_id r = us_id u) (\<lambda>r. r\<lparr>us_is_staff := False\<rparr>) (d_users d),
               d_admins := filter (\<lambda>p. ap_user p \<noteq> us_id u) (d_admins d)\<rparr>"
    by (auto simp: revoke_platform_admin_def split: if_splits)
  from g obtain x where x: "x \<in> set (d_users d)" "is_full_admin d x" "us_id x \<noteq> us_id u"
    unfolding count_full_pos by auto
  have same: "find (\<lambda>p. ap_user p = us_id x) (filter (\<lambda>p. ap_user p \<noteq> us_id u) ps) =
      find (\<lambda>p. ap_user p = us_id x) ps" for ps :: "admin_profile list"
    using x(3) by (induction ps) auto
  have "x \<in> set (d_users d')" using x by (force simp: d' set_upd_where)
  moreover have "is_full_admin d' x"
    using x(2) by (simp add: d' is_full_admin_def admin_profile_of_def same)
  ultimately have "\<exists>x \<in> set (d_users d'). is_full_admin d' x" by blast
  then show ?thesis unfolding count_full_pos by auto
qed

section \<open>Properties\<close>

text \<open>
  C11: The console is never left without a full administrator by changing levels and withdrawing
  rights, in whatever order; inviting someone who already administers it has no such guard, and
  inviting the last full administrator at the lower level leaves nobody.
\<close>

theorem console_keeps_a_full_admin:
  "(\<forall>d d'. admin_step\<^sup>*\<^sup>* d d' \<and> count_full_admins d None \<noteq> 0 \<longrightarrow> count_full_admins d' None \<noteq> 0) \<and>
   (\<exists>cr d r d'. count_full_admins d None \<noteq> 0 \<and>
      invite_platform_admin cr 0 d ''a'' ''commercial'' (Some 1) ''tok'' = Inr (r, d') \<and>
      count_full_admins d' None = 0)"
proof (intro conjI allI impI)
  fix d d' assume "admin_step\<^sup>*\<^sup>* d d' \<and> count_full_admins d None \<noteq> 0"
  then have "admin_step\<^sup>*\<^sup>* d d'" and "count_full_admins d None \<noteq> 0" by simp_all
  then show "count_full_admins d' None \<noteq> 0"
    by (induction rule: rtranclp_induct) (auto dest: admin_step_keeps)
next
  let ?d = "empty_db\<lparr>d_seq := 1, d_users := [demo_user\<lparr>us_is_staff := True\<rparr>]\<rparr>"
  have "count_full_admins ?d None \<noteq> 0"
    by (simp add: count_full_admins_def is_full_admin_def admin_profile_of_def empty_db_def demo_user_def)
  moreover have "\<exists>r d'. invite_platform_admin demo_crypto 0 ?d ''a'' ''commercial'' (Some 1) ''tok'' = Inr (r, d') \<and>
      count_full_admins d' None = 0"
    by (simp add: invite_platform_admin_def level_of_def invitee_def user_by_email_def lower_def strip_def
      is_space_def ascii_lower_def demo_user_def set_profile_def empty_db_def create_access_invitation_def
      Let_def count_full_admins_def is_full_admin_def admin_profile_of_def)
  ultimately show "\<exists>cr d r d'. count_full_admins d None \<noteq> 0 \<and>
      invite_platform_admin cr 0 d ''a'' ''commercial'' (Some 1) ''tok'' = Inr (r, d') \<and>
      count_full_admins d' None = 0" by blast
qed

theorem console_keeps_a_full_admin_witness:
  "\<exists>d d' email. revoke_platform_admin d (demo_user\<lparr>us_id := 2\<rparr>) (Some 1) = Inr (email, d') \<and>
     count_full_admins d' None \<noteq> 0"
proof -
  let ?u = "\<lambda>i. demo_user\<lparr>us_id := i, us_is_staff := True\<rparr>"
  let ?d = "empty_db\<lparr>d_users := [?u 1, ?u 2]\<rparr>"
  have ok: "\<exists>d'. revoke_platform_admin ?d (demo_user\<lparr>us_id := 2\<rparr>) (Some 1) = Inr (''a'', d')"
    and pos: "count_full_admins ?d None \<noteq> 0"
    by (simp_all add: revoke_platform_admin_def count_full_admins_def is_full_admin_def admin_profile_of_def
      empty_db_def demo_user_def)
  then obtain d' where d': "revoke_platform_admin ?d (demo_user\<lparr>us_id := 2\<rparr>) (Some 1) = Inr (''a'', d')" by blast
  from step_revoke [OF d'] have "admin_step\<^sup>*\<^sup>* ?d d'" by (rule r_into_rtranclp)
  with console_keeps_a_full_admin pos d' show ?thesis by blast
qed

end
