(* ===== verification/Outbound.thy ===== *)
theory Outbound
  imports Py_Text "HOL-Library.Word"
begin

text \<open>
  What the monitoring probes send out (monitoring/checks/): the guard against requests to internal
  addresses, the client that applies it to every hop of a redirect, and the five checks with their
  verdicts. Name resolution, HTTP, DNS and TLS are fields of the \<open>net\<close> record; the resolver and the
  HTTP servers may answer differently each time they are asked, so their answers carry the instant
  (the number of the network operation in the probe). What the code makes of the answers is modelled.
\<close>

section \<open>URLs\<close>

text \<open>The scheme and the host \<open>urllib.parse.urlparse\<close> reads out of a URL.\<close>

definition is_letter :: "char \<Rightarrow> bool" where
  "is_letter c = (let n = (of_char c :: nat) in (65 \<le> n \<and> n \<le> 90) \<or> (97 \<le> n \<and> n \<le> 122))"

definition is_scheme_char :: "char \<Rightarrow> bool" where
  "is_scheme_char c = (is_letter c \<or> digit_val c \<noteq> None \<or> c \<in> {CHR ''+'', CHR ''-'', CHR ''.''})"

definition url_clean :: "string \<Rightarrow> string" where
  "url_clean s =
     filter (\<lambda>c. (of_char c :: nat) \<notin> {9, 10, 13}) (dropWhile (\<lambda>c. (of_char c :: nat) \<le> 32) s)"

definition url_scheme_rest :: "string \<Rightarrow> string \<times> string" where
  "url_scheme_rest s =
     (let p = before (CHR '':'') s
      in if length p < length s \<and> p \<noteq> [] \<and> is_letter (hd p) \<and> list_all is_scheme_char p
         then (lower p, after (CHR '':'') s) else ([], s))"

definition url_netloc :: "string \<Rightarrow> string" where
  "url_netloc r =
     (if startswith r ''//'' then takeWhile (\<lambda>c. c \<notin> {CHR ''/'', CHR ''?'', CHR ''#''}) (drop 2 r) else [])"

definition netloc_hostname :: "string \<Rightarrow> string option" where
  "netloc_hostname n =
     (let info = after_last (CHR ''@'') n;
          host = (if CHR ''['' \<in> set info then before (CHR '']'') (after (CHR ''['') info)
                  else before (CHR '':'') info)
      in if host = [] then None
         else Some (lower (before (CHR ''%'') host) @ drop (length (before (CHR ''%'') host)) host))"

record parsed_url =
  pu_scheme :: string
  pu_hostname :: "string option"

text \<open>\<open>None\<close>: brackets that do not match, on which \<open>urlparse\<close> raises \<open>ValueError\<close>.\<close>

definition urlparse :: "string \<Rightarrow> parsed_url option" where
  "urlparse url =
     (case url_scheme_rest (url_clean url) of
        (sch, r) \<Rightarrow>
          (let n = url_netloc r
           in if (CHR ''['' \<in> set n) \<noteq> (CHR '']'' \<in> set n) then None
              else Some \<lparr>pu_scheme = sch, pu_hostname = netloc_hostname n\<rparr>))"

section \<open>Addresses\<close>

datatype ip = V4 "32 word" | V6 "128 word"

definition in_net :: "nat \<Rightarrow> 'a::len word \<Rightarrow> 'a word \<Rightarrow> bool" where
  "in_net p n a = (drop_bit (LENGTH('a) - p) a = drop_bit (LENGTH('a) - p) n)"

definition v4 :: "nat \<Rightarrow> nat \<Rightarrow> nat \<Rightarrow> nat \<Rightarrow> 32 word" where
  "v4 a b c d = word_of_nat (((a * 256 + b) * 256 + c) * 256 + d)"

text \<open>The first 64 bits of an address, by its first four groups.\<close>

definition v6 :: "nat \<Rightarrow> nat \<Rightarrow> nat \<Rightarrow> nat \<Rightarrow> 128 word" where
  "v6 a b c d = word_of_nat ((((a * 65536 + b) * 65536 + c) * 65536 + d) * 2 ^ 64)"

text \<open>The tables of the standard library's \<open>ipaddress\<close>.\<close>

definition private4 :: "32 word \<Rightarrow> bool" where
  "private4 a =
     ((in_net 8 (v4 0 0 0 0) a \<or> in_net 8 (v4 10 0 0 0) a \<or> in_net 8 (v4 127 0 0 0) a \<or>
       in_net 16 (v4 169 254 0 0) a \<or> in_net 12 (v4 172 16 0 0) a \<or> in_net 24 (v4 192 0 0 0) a \<or>
       in_net 31 (v4 192 0 0 170) a \<or> in_net 24 (v4 192 0 2 0) a \<or> in_net 16 (v4 192 168 0 0) a \<or>
       in_net 15 (v4 198 18 0 0) a \<or> in_net 24 (v4 198 51 100 0) a \<or> in_net 24 (v4 203 0 113 0) a \<or>
       in_net 4 (v4 240 0 0 0) a \<or> in_net 32 (v4 255 255 255 255) a) \<and>
      \<not> in_net 32 (v4 192 0 0 9) a \<and> \<not> in_net 32 (v4 192 0 0 10) a)"

definition private6 :: "128 word \<Rightarrow> bool" where
  "private6 a =
     (if drop_bit 32 a = 0xFFFF then private4 (ucast a)
      else (a = 1 \<or> a = 0 \<or> in_net 48 (v6 0x64 0xff9b 1 0) a \<or> in_net 64 (v6 0x100 0 0 0) a \<or>
            in_net 23 (v6 0x2001 0 0 0) a \<or> in_net 32 (v6 0x2001 0xdb8 0 0) a \<or>
            in_net 16 (v6 0x2002 0 0 0) a \<or> in_net 7 (v6 0xfc00 0 0 0) a \<or> in_net 10 (v6 0xfe80 0 0 0) a) \<and>
           \<not> (a = v6 0x2001 1 0 0 + 1 \<or> a = v6 0x2001 1 0 0 + 2 \<or> in_net 32 (v6 0x2001 3 0 0) a \<or>
              in_net 48 (v6 0x2001 4 0x112 0) a \<or> in_net 28 (v6 0x2001 0x20 0 0) a \<or>
              in_net 28 (v6 0x2001 0x30 0 0) a))"

definition reserved6 :: "128 word \<Rightarrow> bool" where
  "reserved6 a =
     (in_net 8 (v6 0 0 0 0) a \<or> in_net 8 (v6 0x100 0 0 0) a \<or> in_net 7 (v6 0x200 0 0 0) a \<or>
      in_net 6 (v6 0x400 0 0 0) a \<or> in_net 5 (v6 0x800 0 0 0) a \<or> in_net 4 (v6 0x1000 0 0 0) a \<or>
      in_net 3 (v6 0x4000 0 0 0) a \<or> in_net 3 (v6 0x6000 0 0 0) a \<or> in_net 3 (v6 0x8000 0 0 0) a \<or>
      in_net 3 (v6 0xa000 0 0 0) a \<or> in_net 3 (v6 0xc000 0 0 0) a \<or> in_net 4 (v6 0xe000 0 0 0) a \<or>
      in_net 5 (v6 0xf000 0 0 0) a \<or> in_net 6 (v6 0xf800 0 0 0) a \<or> in_net 9 (v6 0xfe00 0 0 0) a)"

fun is_private :: "ip \<Rightarrow> bool" where
  "is_private (V4 a) = private4 a" | "is_private (V6 a) = private6 a"

fun is_loopback :: "ip \<Rightarrow> bool" where
  "is_loopback (V4 a) = in_net 8 (v4 127 0 0 0) a" | "is_loopback (V6 a) = (a = 1)"

fun is_link_local :: "ip \<Rightarrow> bool" where
  "is_link_local (V4 a) = in_net 16 (v4 169 254 0 0) a"
| "is_link_local (V6 a) = in_net 10 (v6 0xfe80 0 0 0) a"

fun is_reserved :: "ip \<Rightarrow> bool" where
  "is_reserved (V4 a) = in_net 4 (v4 240 0 0 0) a" | "is_reserved (V6 a) = reserved6 a"

fun is_multicast :: "ip \<Rightarrow> bool" where
  "is_multicast (V4 a) = in_net 4 (v4 224 0 0 0) a"
| "is_multicast (V6 a) = in_net 8 (v6 0xff00 0 0 0) a"

fun is_unspecified :: "ip \<Rightarrow> bool" where
  "is_unspecified (V4 a) = (a = 0)" | "is_unspecified (V6 a) = (a = 0)"

definition is_unsafe_ip :: "ip \<Rightarrow> bool" where
  "is_unsafe_ip a =
     (is_private a \<or> is_loopback a \<or> is_link_local a \<or> is_reserved a \<or> is_multicast a \<or> is_unspecified a)"

section \<open>The network\<close>

record reply =
  rp_status :: int
  rp_url :: string
  rp_headers :: "(string \<times> string) list"
  rp_is_redirect :: bool
  rp_content :: string

datatype txt_answer = No_txt | Txt "string list list" | Txt_failure string

record certificate =
  ce_not_after :: "time option"
  ce_issuer :: string

text \<open>
  \<open>n_resolve k\<close> is \<open>socket.getaddrinfo\<close> asked at instant \<open>k\<close> (\<open>None\<close> when it raises), \<open>n_get k\<close> is
  \<open>requests.get\<close> without redirects, sent at instant \<open>k\<close>, \<open>n_join\<close> is \<open>urljoin\<close>, \<open>n_txt\<close> the TXT query of dnspython, \<open>n_cert\<close> the certificate
  of the TLS handshake.
\<close>

record net =
  n_resolve :: "nat \<Rightarrow> string \<Rightarrow> ip list option"
  n_get :: "nat \<Rightarrow> string \<Rightarrow> string + reply"
  n_join :: "string \<Rightarrow> string \<Rightarrow> string"
  n_txt :: "string \<Rightarrow> txt_answer"
  n_cert :: "string \<Rightarrow> string + certificate"

section \<open>The guard\<close>

datatype ssrf_error =
    Missing_host_name
  | Unresolvable
  | No_address
  | Forbidden_address
  | Forbidden_scheme
  | Url_without_host

definition ALLOWED_SCHEMES :: "string set" where
  "ALLOWED_SCHEMES = {''http'', ''https''}"

definition resolve_safe_host :: "net \<Rightarrow> nat \<Rightarrow> string \<Rightarrow> ssrf_error + ip list" where
  "resolve_safe_host net k h =
     (if h = [] then Inl Missing_host_name
      else case n_resolve net k h of
        None \<Rightarrow> Inl Unresolvable
      | Some ips \<Rightarrow>
          if ips = [] then Inl No_address
          else if list_ex is_unsafe_ip ips then Inl Forbidden_address
          else Inr ips)"

datatype fetch_error = Refused ssrf_error | Network string | Malformed_url

definition validate_url :: "net \<Rightarrow> nat \<Rightarrow> string \<Rightarrow> fetch_error + string" where
  "validate_url net k url =
     (case urlparse url of
        None \<Rightarrow> Inl Malformed_url
      | Some p \<Rightarrow>
          if pu_scheme p \<notin> ALLOWED_SCHEMES then Inl (Refused Forbidden_scheme)
          else case pu_hostname p of
            None \<Rightarrow> Inl (Refused Url_without_host)
          | Some h \<Rightarrow>
              (case resolve_safe_host net k h of Inl e \<Rightarrow> Inl (Refused e) | Inr _ \<Rightarrow> Inr h))"

definition header_value :: "reply \<Rightarrow> string \<Rightarrow> string option" where
  "header_value r name = map_option snd (find (\<lambda>h. lower (fst h) = lower name) (rp_headers r))"

definition MAX_REDIRECTS :: nat where
  "MAX_REDIRECTS = 5"

text \<open>
  The loop over the hops, with the requests that were sent (their instant and their URL) beside its
  result. A hop is two operations: the guard asks the resolver at instant \<open>k\<close>; the request is sent at
  instant \<open>Suc k\<close>, and to send it \<open>requests.get\<close> resolves the host once more.
\<close>

fun hops :: "nat \<Rightarrow> nat \<Rightarrow> net \<Rightarrow> string \<Rightarrow> (fetch_error + reply) \<times> (nat \<times> string) list" where
  "hops 0 k net url = (Inl (Network ''Too many redirects''), [])"
| "hops (Suc n) k net url =
     (case validate_url net k url of
        Inl e \<Rightarrow> (Inl e, [])
      | Inr _ \<Rightarrow>
          (case n_get net (Suc k) url of
             Inl msg \<Rightarrow> (Inl (Network msg), [(Suc k, url)])
           | Inr r \<Rightarrow>
               if rp_is_redirect r then
                 (case header_value r ''Location'' of
                    None \<Rightarrow> (Inr r, [(Suc k, url)])
                  | Some loc \<Rightarrow>
                      if loc = [] then (Inr r, [(Suc k, url)])
                      else (case hops n (Suc (Suc k)) net (n_join net url loc) of
                              (res, us) \<Rightarrow> (res, (Suc k, url) # us)))
               else (Inr r, [(Suc k, url)])))"

definition safe_get :: "net \<Rightarrow> string \<Rightarrow> fetch_error + reply" where
  "safe_get net url = fst (hops (MAX_REDIRECTS + 1) 0 net url)"

definition requested :: "net \<Rightarrow> string \<Rightarrow> (nat \<times> string) list" where
  "requested net url = snd (hops (MAX_REDIRECTS + 1) 0 net url)"

text \<open>The addresses a request sent at instant \<open>k\<close> connects to: what the resolver answers then.\<close>

definition connected :: "net \<Rightarrow> nat \<times> string \<Rightarrow> ip list" where
  "connected net q =
     (case urlparse (snd q) of
        None \<Rightarrow> []
      | Some p \<Rightarrow> (case pu_hostname p of
          None \<Rightarrow> []
        | Some h \<Rightarrow> (case n_resolve net (fst q) h of None \<Rightarrow> [] | Some ips \<Rightarrow> ips)))"

section \<open>The checks\<close>

datatype check_status = Ok | Warning | Critical

datatype issue = Spf_missing | Spf_multiple | Dmarc_missing | Dmarc_policy_none

text \<open>The JSON details of a result; an absent key is \<open>None\<close> or the empty list, as \<open>get\<close> reads it.\<close>

record details =
  de_error :: "string option"
  de_status_code :: "int option"
  de_final_url :: "string option"
  de_days_left :: "int option"
  de_expires_at :: "time option"
  de_issuer :: "string option"
  de_present :: "string list"
  de_missing :: "string list"
  de_issues :: "issue list"
  de_spf :: "string option"
  de_dmarc :: "string option"
  de_policy :: "string option"
  de_spf_or_dmarc_missing :: "bool option"

definition no_details :: details where
  "no_details =
     \<lparr>de_error = None, de_status_code = None, de_final_url = None, de_days_left = None,
      de_expires_at = None, de_issuer = None, de_present = [], de_missing = [], de_issues = [],
      de_spf = None, de_dmarc = None, de_policy = None, de_spf_or_dmarc_missing = None\<rparr>"

fun fetch_text :: "fetch_error \<Rightarrow> string" where
  "fetch_text (Network m) = m"
| "fetch_text _ = ''Target refused''"

definition failed :: "string \<Rightarrow> check_status \<times> details" where
  "failed m = (Critical, no_details\<lparr>de_error := Some m\<rparr>)"

text \<open>
  A probe over HTTP answers a refused target and a network failure with a critical result; the
  \<open>ValueError\<close> of a malformed URL is not caught.
\<close>

definition with_reply ::
  "(reply \<Rightarrow> check_status \<times> details) \<Rightarrow> net \<Rightarrow> string \<Rightarrow> fetch_error + check_status \<times> details" where
  "with_reply f net url =
     (case safe_get net url of
        Inl Malformed_url \<Rightarrow> Inl Malformed_url
      | Inl e \<Rightarrow> Inr (failed (fetch_text e))
      | Inr r \<Rightarrow> Inr (f r))"

definition check_http_uptime :: "net \<Rightarrow> string \<Rightarrow> fetch_error + check_status \<times> details" where
  "check_http_uptime =
     with_reply (\<lambda>r.
       (if 200 \<le> rp_status r \<and> rp_status r < 400 then Ok else Critical,
        no_details\<lparr>de_status_code := Some (rp_status r), de_final_url := Some (rp_url r)\<rparr>))"

definition REQUIRED_HEADERS :: "string list" where
  "REQUIRED_HEADERS =
     [''Strict-Transport-Security'', ''Content-Security-Policy'', ''X-Frame-Options'',
      ''X-Content-Type-Options'']"

definition check_security_headers :: "net \<Rightarrow> string \<Rightarrow> fetch_error + check_status \<times> details" where
  "check_security_headers =
     with_reply (\<lambda>r.
       (let present = filter (\<lambda>h. header_value r h \<noteq> None) REQUIRED_HEADERS;
            missing = filter (\<lambda>h. header_value r h = None) REQUIRED_HEADERS
        in (if missing \<noteq> [] then Warning else Ok,
            no_details\<lparr>de_present := present, de_missing := missing\<rparr>)))"

definition WARNING_THRESHOLD_DAYS :: int where
  "WARNING_THRESHOLD_DAYS = 30"

definition check_ssl_certificate :: "net \<Rightarrow> time \<Rightarrow> string \<Rightarrow> check_status \<times> details" where
  "check_ssl_certificate net now h =
     (case resolve_safe_host net 0 h of
        Inl e \<Rightarrow> failed (fetch_text (Refused e))
      | Inr _ \<Rightarrow>
          (case n_cert net h of
             Inl m \<Rightarrow> failed m
           | Inr c \<Rightarrow>
               (case ce_not_after c of
                  None \<Rightarrow> failed ''Certificate without an end date''
                | Some not_after \<Rightarrow>
                    (let days_left = (not_after - now) div day_length
                     in (if days_left < 0 then Critical
                         else if days_left \<le> WARNING_THRESHOLD_DAYS then Warning else Ok,
                         no_details\<lparr>de_expires_at := Some not_after, de_days_left := Some days_left,
                           de_issuer := Some (ce_issuer c)\<rparr>)))))"

fun txt_strings :: "txt_answer \<Rightarrow> string + string list" where
  "txt_strings No_txt = Inr []"
| "txt_strings (Txt chunks) = Inr (map concat chunks)"
| "txt_strings (Txt_failure m) = Inl m"

definition dmarc_policy :: "string \<Rightarrow> string option" where
  "dmarc_policy record_text =
     map_option (\<lambda>p. strip (drop 2 p))
       (find (\<lambda>p. startswith p ''p='') (map strip (split_on (CHR '';'') record_text)))"

definition spf_issues :: "string list \<Rightarrow> issue list" where
  "spf_issues spf = (if spf = [] then [Spf_missing] else if 1 < length spf then [Spf_multiple] else [])"

definition dmarc_issues :: "string list \<Rightarrow> issue list" where
  "dmarc_issues dmarc =
     (case dmarc of
        [] \<Rightarrow> [Dmarc_missing]
      | r # _ \<Rightarrow> if dmarc_policy r = Some ''none'' then [Dmarc_policy_none] else [])"

definition check_email_dns :: "net \<Rightarrow> string \<Rightarrow> check_status \<times> details" where
  "check_email_dns net domain =
     (case txt_strings (n_txt net domain) of
        Inl m \<Rightarrow> failed m
      | Inr txt \<Rightarrow>
          (case txt_strings (n_txt net (''_dmarc.'' @ domain)) of
             Inl m \<Rightarrow> failed m
           | Inr dtxt \<Rightarrow>
               (let spf = filter (\<lambda>t. startswith t ''v=spf1'') txt;
                    dmarc = filter (\<lambda>t. startswith t ''v=DMARC1'') dtxt;
                    issues = spf_issues spf @ dmarc_issues dmarc
                in (if {Spf_missing, Dmarc_missing} \<subseteq> set issues then Critical
                    else if issues \<noteq> [] then Warning else Ok,
                    no_details\<lparr>de_issues := issues,
                      de_spf := (case spf of [] \<Rightarrow> None | s # _ \<Rightarrow> Some s),
                      de_dmarc := (case dmarc of [] \<Rightarrow> None | r # _ \<Rightarrow> Some r),
                      de_policy := (case dmarc of [] \<Rightarrow> None | r # _ \<Rightarrow> dmarc_policy r),
                      de_spf_or_dmarc_missing := Some (\<exists>i \<in> set issues. i \<in> {Spf_missing, Dmarc_missing})\<rparr>))))"

section \<open>Proof of ownership\<close>

definition DNS_TXT_PREFIX :: string where
  "DNS_TXT_PREFIX = ''rssi-verification=''"

definition HTTP_FILE_PATH :: string where
  "HTTP_FILE_PATH = ''/.well-known/rssi-verification.txt''"

definition MAX_FILE_BYTES :: nat where
  "MAX_FILE_BYTES = 4096"

definition expected_dns_record :: "string \<Rightarrow> string" where
  "expected_dns_record token = DNS_TXT_PREFIX @ token"

text \<open>Why a proof is not there, for the sentence the client reads.\<close>

datatype proof_detail =
    Record_found
  | Record_of_older_attempt
  | No_txt_record
  | No_matching_record
  | No_file
  | Bad_answer int
  | File_found
  | Token_in_file
  | Wrong_file

text \<open>\<open>Inl\<close> is the \<open>OwnershipCheckError\<close>: the check could not be made.\<close>

definition verify_dns_txt :: "net \<Rightarrow> string \<Rightarrow> string \<Rightarrow> string + bool \<times> proof_detail" where
  "verify_dns_txt net domain token =
     (case txt_strings (n_txt net domain) of
        Inl m \<Rightarrow> Inl m
      | Inr records \<Rightarrow> Inr
          (if expected_dns_record token \<in> strip ` set records then (True, Record_found)
           else if filter (\<lambda>r. startswith r DNS_TXT_PREFIX) records \<noteq> [] then (False, Record_of_older_attempt)
           else if records = [] then (False, No_txt_record)
           else (False, No_matching_record)))"

text \<open>A URL built from the domain of an asset may be malformed: the \<open>ValueError\<close> is the outer \<open>None\<close>.\<close>

definition verify_http_file ::
  "net \<Rightarrow> string \<Rightarrow> string \<Rightarrow> (string + bool \<times> proof_detail) option" where
  "verify_http_file net domain token =
     (case safe_get net (''https://'' @ domain @ HTTP_FILE_PATH) of
        Inl Malformed_url \<Rightarrow> None
      | Inl e \<Rightarrow> Some (Inl (fetch_text e))
      | Inr r \<Rightarrow> Some (Inr
          (if rp_status r = 404 then (False, No_file)
           else if rp_status r \<noteq> 200 then (False, Bad_answer (rp_status r))
           else (let text = strip (take MAX_FILE_BYTES (rp_content r))
                 in if text = token then (True, File_found)
                    else if contains text token then (True, Token_in_file)
                    else (False, Wrong_file)))))"

section \<open>Lemmas\<close>

lemma resolve_safe_hostD [ok_cases]:
  "resolve_safe_host net k h = Inr ips \<Longrightarrow>
   n_resolve net k h = Some ips \<and> ips \<noteq> [] \<and> (\<forall>a \<in> set ips. \<not> is_unsafe_ip a)"
  by (auto simp: resolve_safe_host_def list_ex_iff split: if_splits option.splits)

text \<open>What a URL that passes the guard at instant \<open>k\<close> is.\<close>

definition safe_url :: "net \<Rightarrow> nat \<Rightarrow> string \<Rightarrow> bool" where
  "safe_url net k u =
     (case urlparse u of
        None \<Rightarrow> False
      | Some p \<Rightarrow> pu_scheme p \<in> ALLOWED_SCHEMES \<and>
          (case pu_hostname p of
             None \<Rightarrow> False
           | Some h \<Rightarrow> (case n_resolve net k h of
               None \<Rightarrow> False | Some ips \<Rightarrow> ips \<noteq> [] \<and> list_all (\<lambda>a. \<not> is_unsafe_ip a) ips)))"

lemma safe_urlD:
  "safe_url net k u \<Longrightarrow>
   \<exists>p h ips. urlparse u = Some p \<and> pu_scheme p \<in> {''http'', ''https''} \<and> pu_hostname p = Some h \<and>
     n_resolve net k h = Some ips \<and> ips \<noteq> [] \<and> (\<forall>a \<in> set ips. \<not> is_unsafe_ip a) \<and>
     (n_resolve net k' h = n_resolve net k h \<longrightarrow> (\<forall>a \<in> set (connected net (k', u)). \<not> is_unsafe_ip a))"
  by (auto simp: safe_url_def list_all_iff ALLOWED_SCHEMES_def connected_def split: option.split_asm)

lemma hostname_not_empty: "netloc_hostname n \<noteq> Some []"
  by (auto simp: netloc_hostname_def Let_def lower_def split: if_splits)

lemma validate_url_ok: "is_ok (validate_url net k u) \<longleftrightarrow> safe_url net k u"
proof -
  have "urlparse u = Some p \<Longrightarrow> pu_hostname p = Some h \<Longrightarrow> h \<noteq> []" for p h
    using hostname_not_empty [of "url_netloc (snd (url_scheme_rest (url_clean u)))"]
    by (auto simp: urlparse_def Let_def split: prod.splits if_splits)
  then show ?thesis
    by (auto simp: validate_url_def safe_url_def resolve_safe_host_def list_ex_iff list_all_iff
        split: option.splits sum.splits if_splits)
qed

text \<open>
  The chain of the URLs a probe meets: the one asked for, then the target of each redirect, whether
  or not the guard lets them pass. \<open>chain i k\<close> is the URL \<open>i\<close> hops further than the one at instant \<open>k\<close>.
\<close>

definition redirect_target :: "net \<Rightarrow> nat \<Rightarrow> string \<Rightarrow> string option" where
  "redirect_target net k u =
     (case n_get net k u of
        Inl _ \<Rightarrow> None
      | Inr r \<Rightarrow>
          if rp_is_redirect r then
            (case header_value r ''Location'' of
               None \<Rightarrow> None
             | Some loc \<Rightarrow> if loc = [] then None else Some (n_join net u loc))
          else None)"

fun chain :: "nat \<Rightarrow> nat \<Rightarrow> net \<Rightarrow> string \<Rightarrow> string option" where
  "chain 0 k net u = Some u"
| "chain (Suc i) k net u =
     (case redirect_target net (Suc k) u of None \<Rightarrow> None | Some v \<Rightarrow> chain i (Suc (Suc k)) net v)"

definition refusal :: "fetch_error + reply \<Rightarrow> bool" where
  "refusal r = (r = Inl Malformed_url \<or> (\<exists>e. r = Inl (Refused e)))"

lemma hops_unsafe: "\<not> safe_url net k u \<Longrightarrow> snd (hops (Suc n) k net u) = [] \<and> refusal (fst (hops (Suc n) k net u))"
  using validate_url_ok [of net k u]
  by (cases "validate_url net k u")
    (auto simp: refusal_def validate_url_def split: option.splits sum.splits if_splits)

lemma hops_safe:
  assumes "safe_url net k u"
  shows "hops (Suc n) k net u =
    (case redirect_target net (Suc k) u of
       None \<Rightarrow> (case n_get net (Suc k) u of Inl m \<Rightarrow> Inl (Network m) | Inr r \<Rightarrow> Inr r, [(Suc k, u)])
     | Some v \<Rightarrow> (fst (hops n (Suc (Suc k)) net v), (Suc k, u) # snd (hops n (Suc (Suc k)) net v)))"
  using assms validate_url_ok [of net k u]
  by (cases "validate_url net k u")
    (auto simp: redirect_target_def split: sum.splits option.splits prod.splits)

text \<open>The requests sent are the beginning of the chain, each checked at the instant before it.\<close>

lemma hops_trace:
  "length (snd (hops n k net u)) \<le> n \<and>
   (\<forall>j < length (snd (hops n k net u)).
      \<exists>v. snd (hops n k net u) ! j = (Suc (k + 2 * j), v) \<and> chain j k net u = Some v \<and> safe_url net (k + 2 * j) v)"
proof (induction n arbitrary: k u)
  case 0
  show ?case by simp
next
  case (Suc n)
  show ?case
  proof (cases "safe_url net k u")
    case False
    with hops_unsafe show ?thesis by simp
  next
    case True
    show ?thesis
    proof (cases "redirect_target net (Suc k) u")
      case None
      with True show ?thesis by (simp add: hops_safe del: hops.simps)
    next
      case (Some v)
      let ?us = "snd (hops n (Suc (Suc k)) net v)"
      have tail: "\<exists>w. ((Suc k, u) # ?us) ! j = (Suc (k + 2 * j), w) \<and> chain j k net u = Some w \<and>
          safe_url net (k + 2 * j) w" if "j < Suc (length ?us)" for j
        using that Suc.IH [of "Suc (Suc k)" v] True Some by (cases j) auto
      with Suc.IH [of "Suc (Suc k)" v] True Some show ?thesis
        by (simp add: hops_safe del: hops.simps)
    qed
  qed
qed

text \<open>The first unsafe URL of the chain is where it ends.\<close>

lemma hops_refuse:
  assumes "i < n" and "chain i k net u = Some v" and "\<not> safe_url net (k + 2 * i) v"
    and "\<And>j w. j < i \<Longrightarrow> chain j k net u = Some w \<Longrightarrow> safe_url net (k + 2 * j) w"
  shows "length (snd (hops n k net u)) = i \<and> refusal (fst (hops n k net u))"
  using assms
proof (induction i arbitrary: n k u)
  case 0
  then show ?case using hops_unsafe [of net k u "n - 1"] by (cases n) (simp_all del: hops.simps)
next
  case (Suc i)
  from Suc.prems(1) obtain m where n: "n = Suc m" by (cases n) auto
  from Suc.prems(4) [of 0 u] have safe: "safe_url net k u" by simp
  from Suc.prems(2) obtain x where x: "redirect_target net (Suc k) u = Some x"
    and v: "chain i (Suc (Suc k)) net x = Some v" by (auto split: option.splits)
  have "length (snd (hops m (Suc (Suc k)) net x)) = i \<and> refusal (fst (hops m (Suc (Suc k)) net x))"
  proof (rule Suc.IH [OF _ v])
    show "i < m" using Suc.prems(1) n by simp
    show "\<not> safe_url net (Suc (Suc k) + 2 * i) v" using Suc.prems(3) by simp
    show "safe_url net (Suc (Suc k) + 2 * j) w" if "j < i" "chain j (Suc (Suc k)) net x = Some w" for j w
      using Suc.prems(4) [of "Suc j" w] that x by simp
  qed
  with safe x show ?case by (simp add: n hops_safe del: hops.simps)
qed

definition octet :: "nat \<Rightarrow> bool" where
  "octet n = (n < 256)"

lemma word_length: "LENGTH(32) = (32 :: nat)"
  by simp

lemma unat_v4:
  assumes "octet a" "octet b" "octet c" "octet d"
  shows "unat (v4 a b c d) = ((a * 256 + b) * 256 + c) * 256 + d"
proof -
  have "((a * 256 + b) * 256 + c) * 256 + d < 2 ^ 32" using assms by (simp add: octet_def)
  from take_bit_nat_eq_self [OF this] show ?thesis
    by (simp only: v4_def unsigned_of_nat word_length of_nat_id)
qed

lemma in_net_unat:
  "in_net p n (a :: 32 word) \<longleftrightarrow> unat a div 2 ^ (32 - p) = unat n div 2 ^ (32 - p)"
  unfolding in_net_def word_unat_eq_iff unat_drop_bit_eq by (simp add: drop_bit_eq_div)

lemma octet_quotients:
  assumes "octet a" "octet b" "octet c" "octet d"
  shows "(((a * 256 + b) * 256 + c) * 256 + d) div 256 = (a * 256 + b) * 256 + c"
    and "(((a * 256 + b) * 256 + c) * 256 + d) div 65536 = a * 256 + b"
    and "(((a * 256 + b) * 256 + c) * 256 + d) div 131072 = a * 128 + b div 2"
    and "(((a * 256 + b) * 256 + c) * 256 + d) div 1048576 = a * 16 + b div 16"
    and "(((a * 256 + b) * 256 + c) * 256 + d) div 16777216 = a"
    and "(((a * 256 + b) * 256 + c) * 256 + d) div 268435456 = a div 16"
proof -
  have last: "(x * 256 + y) div 256 = x" if "octet y" for x y using that by (simp add: octet_def)
  show 1: "(((a * 256 + b) * 256 + c) * 256 + d) div 256 = (a * 256 + b) * 256 + c"
    using assms by (simp only: last)
  have 2: "(((a * 256 + b) * 256 + c) * 256 + d) div (256 * 256) = a * 256 + b"
    unfolding div_mult2_eq 1 using assms by (simp only: last)
  then show "(((a * 256 + b) * 256 + c) * 256 + d) div 65536 = a * 256 + b" by simp
  have "(((a * 256 + b) * 256 + c) * 256 + d) div (256 * 256 * 2) = a * 128 + b div 2"
    unfolding div_mult2_eq [of _ "256 * 256" 2] 2 by simp
  then show "(((a * 256 + b) * 256 + c) * 256 + d) div 131072 = a * 128 + b div 2" by simp
  have "(((a * 256 + b) * 256 + c) * 256 + d) div (256 * 256 * 16) = a * 16 + b div 16"
    unfolding div_mult2_eq [of _ "256 * 256" 16] 2 by simp
  then show "(((a * 256 + b) * 256 + c) * 256 + d) div 1048576 = a * 16 + b div 16" by simp
  have 3: "(((a * 256 + b) * 256 + c) * 256 + d) div (256 * 256 * 256) = a"
    unfolding div_mult2_eq [of _ "256 * 256" 256] 2 using assms by (simp only: last)
  then show "(((a * 256 + b) * 256 + c) * 256 + d) div 16777216 = a" by simp
  have "(((a * 256 + b) * 256 + c) * 256 + d) div (256 * 256 * 256 * 16) = a div 16"
    unfolding div_mult2_eq [of _ "256 * 256 * 256" 16] 3 by (rule refl)
  then show "(((a * 256 + b) * 256 + c) * 256 + d) div 268435456 = a div 16" by simp
qed

lemma pair_eq:
  fixes x y k :: nat
  assumes "y < k" "y' < k"
  shows "x * k + y = x' * k + y' \<longleftrightarrow> x = x' \<and> y = y'"
proof -
  have "(x * k + y) div k = x" "(x' * k + y') div k = x'" using assms by simp_all
  then show ?thesis by auto
qed

lemma octet_pair_eq: "octet y \<Longrightarrow> octet y' \<Longrightarrow> x * 256 + y = x' * 256 + y' \<longleftrightarrow> x = x' \<and> y = y'"
  unfolding octet_def by (rule pair_eq)

lemma in_net_v4:
  assumes "octet a" "octet b" "octet c" "octet d" "octet a'" "octet b'" "octet c'" "octet d'"
  shows "in_net 4 (v4 a' b' c' d') (v4 a b c d) \<longleftrightarrow> a div 16 = a' div 16"
    and "in_net 8 (v4 a' b' c' d') (v4 a b c d) \<longleftrightarrow> a = a'"
    and "in_net 12 (v4 a' b' c' d') (v4 a b c d) \<longleftrightarrow> a = a' \<and> b div 16 = b' div 16"
    and "in_net 15 (v4 a' b' c' d') (v4 a b c d) \<longleftrightarrow> a = a' \<and> b div 2 = b' div 2"
    and "in_net 16 (v4 a' b' c' d') (v4 a b c d) \<longleftrightarrow> a = a' \<and> b = b'"
    and "in_net 24 (v4 a' b' c' d') (v4 a b c d) \<longleftrightarrow> a = a' \<and> b = b' \<and> c = c'"
    and "in_net 32 (v4 a' b' c' d') (v4 a b c d) \<longleftrightarrow> a = a' \<and> b = b' \<and> c = c' \<and> d = d'"
proof -
  note u = in_net_unat unat_v4 [OF assms(1-4)] unat_v4 [OF assms(5-8)]
  have p: "(2 :: nat) ^ (32 - 4) = 268435456" "(2 :: nat) ^ (32 - 8) = 16777216" "(2 :: nat) ^ (32 - 12) = 1048576"
    "(2 :: nat) ^ (32 - 15) = 131072" "(2 :: nat) ^ (32 - 16) = 65536" "(2 :: nat) ^ (32 - 24) = 256"
    "(2 :: nat) ^ (32 - 32) = 1" by simp_all
  note q = p octet_quotients [OF assms(1-4)] octet_quotients [OF assms(5-8)]
  show "in_net 4 (v4 a' b' c' d') (v4 a b c d) \<longleftrightarrow> a div 16 = a' div 16"
    unfolding u q by simp
  show "in_net 8 (v4 a' b' c' d') (v4 a b c d) \<longleftrightarrow> a = a'"
    unfolding u q by simp
  show "in_net 16 (v4 a' b' c' d') (v4 a b c d) \<longleftrightarrow> a = a' \<and> b = b'"
    unfolding u q using assms by (simp only: octet_pair_eq conj_assoc)
  show "in_net 24 (v4 a' b' c' d') (v4 a b c d) \<longleftrightarrow> a = a' \<and> b = b' \<and> c = c'"
    unfolding u q using assms by (simp only: octet_pair_eq conj_assoc)
  show "in_net 32 (v4 a' b' c' d') (v4 a b c d) \<longleftrightarrow> a = a' \<and> b = b' \<and> c = c' \<and> d = d'"
    unfolding u q div_by_1 using assms by (simp only: octet_pair_eq conj_assoc)
  have "a * 16 + b div 16 = a' * 16 + b' div 16 \<longleftrightarrow> a = a' \<and> b div 16 = b' div 16"
    using assms(2,6) by (intro pair_eq) (auto simp: octet_def)
  then show "in_net 12 (v4 a' b' c' d') (v4 a b c d) \<longleftrightarrow> a = a' \<and> b div 16 = b' div 16"
    unfolding u q by simp
  have "a * 128 + b div 2 = a' * 128 + b' div 2 \<longleftrightarrow> a = a' \<and> b div 2 = b' div 2"
    using assms(2,6) by (intro pair_eq) (auto simp: octet_def)
  then show "in_net 15 (v4 a' b' c' d') (v4 a b c d) \<longleftrightarrow> a = a' \<and> b div 2 = b' div 2"
    unfolding u q by simp
qed

lemma octet_numeral [simp]: "octet (numeral n) = (numeral n < (256 :: nat))" "octet 0" "octet 1" "octet (Suc 0)"
  by (simp_all add: octet_def)

lemma in_net_31: "in_net 31 (v4 192 0 0 170) a \<Longrightarrow> in_net 24 (v4 192 0 0 0) a"
proof -
  assume "in_net 31 (v4 192 0 0 170) a"
  then have "drop_bit 7 (drop_bit 1 a) = drop_bit 7 (drop_bit 1 (v4 192 0 0 170))"
    by (simp add: in_net_def)
  then have "in_net 24 (v4 192 0 0 170) a" by (simp add: in_net_def del: drop_bit_Suc)
  then show ?thesis by (simp add: in_net_def v4_def)
qed

lemma mapped_unsafe: "drop_bit 32 (w :: 128 word) = 0xFFFF \<Longrightarrow> is_unsafe_ip (V6 w)"
proof -
  assume "drop_bit 32 w = 0xFFFF"
  then have "drop_bit 88 (drop_bit 32 w) = drop_bit 88 (0xFFFF :: 128 word)" by simp
  then have "in_net 8 (v6 0 0 0 0) w" by (simp add: in_net_def v6_def)
  then show ?thesis by (simp add: is_unsafe_ip_def reserved6_def)
qed

lemma unsafe_v4:
  assumes o: "octet a" "octet b" "octet c" "octet d"
  shows "is_unsafe_ip (V4 (v4 a b c d)) \<longleftrightarrow>
      a = 0 \<or> a = 10 \<or> a = 127 \<or> a = 169 \<and> b = 254 \<or> a = 172 \<and> 16 \<le> b \<and> b < 32 \<or>
      a = 192 \<and> b = 0 \<and> c = 0 \<and> d \<noteq> 9 \<and> d \<noteq> 10 \<or> a = 192 \<and> b = 0 \<and> c = 2 \<or> a = 192 \<and> b = 168 \<or>
      a = 198 \<and> (b = 18 \<or> b = 19) \<or> a = 198 \<and> b = 51 \<and> c = 100 \<or> a = 203 \<and> b = 0 \<and> c = 113 \<or>
      224 \<le> a"
proof -
  have zero: "v4 a b c d = 0 \<longleftrightarrow> in_net 32 (v4 0 0 0 0) (v4 a b c d)"
    by (simp add: in_net_def v4_def)
  have q: "x div 16 = 14 \<longleftrightarrow> 224 \<le> x \<and> x < 240" "x div 16 = 15 \<longleftrightarrow> 240 \<le> x \<and> x < 256"
      "x div 16 = 1 \<longleftrightarrow> 16 \<le> x \<and> x < 32" "x div 2 = 9 \<longleftrightarrow> x = 18 \<or> x = 19" for x :: nat
    by auto
  have one: "x div 16 = Suc 0 \<longleftrightarrow> 16 \<le> x \<and> x < 32" for x :: nat by auto
  have o31: "in_net 31 (v4 192 0 0 170) (v4 a b c d) \<longrightarrow> a = 192 \<and> b = 0 \<and> c = 0"
    using in_net_31 [of "v4 a b c d"] by (simp add: in_net_v4 o)
  have hi: "224 \<le> a \<longleftrightarrow> 224 \<le> a \<and> a < 240 \<or> 240 \<le> a \<and> a < 256" "a = 255 \<longrightarrow> 240 \<le> a \<and> a < 256"
    using o(1) by (auto simp: octet_def)
  note parts = is_unsafe_ip_def private4_def is_private.simps is_loopback.simps is_link_local.simps
    is_reserved.simps is_multicast.simps is_unspecified.simps zero
  have q': "x div 16 = 224 div 16 \<longleftrightarrow> 224 \<le> x \<and> x < 240" "x div 16 = 240 div 16 \<longleftrightarrow> 240 \<le> x \<and> x < 256"
      "x div 16 = 16 div 16 \<longleftrightarrow> 16 \<le> x \<and> x < 32" "x div 2 = 18 div 2 \<longleftrightarrow> x = 18 \<or> x = 19" for x :: nat
    by (auto simp: q one)
  show ?thesis
  proof (cases "a = 192 \<and> b = 0 \<and> c = 0")
    case True
    with o show ?thesis unfolding parts by (simp add: in_net_v4 o q one)
  next
    case False
    then have "\<not> in_net 32 (v4 192 0 0 9) (v4 a b c d)" "\<not> in_net 32 (v4 192 0 0 10) (v4 a b c d)"
      "\<not> in_net 24 (v4 192 0 0 0) (v4 a b c d)" "\<not> in_net 31 (v4 192 0 0 170) (v4 a b c d)"
      using o31 by (auto simp: in_net_v4 o)
    note n = this
    show ?thesis
      unfolding parts using n False hi by (simp only: in_net_v4 o octet_numeral q' simp_thms) argo
  qed
qed

section \<open>Properties\<close>

text \<open>
  The guard refuses exactly the listed ranges: for every IPv4 address, read as four octets, it is
  refused when it is in one of the private, loopback, link-local, documentation, benchmark,
  multicast or reserved ranges and accepted otherwise; an IPv4 address wrapped in an IPv6 one is
  always refused. The shared range of carrier networks, 100.64.0.0/10, is accepted.
\<close>

theorem address_guard_exact:
  assumes "octet a" "octet b" "octet c" "octet d"
  shows "(is_unsafe_ip (V4 (v4 a b c d)) \<longleftrightarrow>
        a = 0 \<or> a = 10 \<or> a = 127 \<or> a = 169 \<and> b = 254 \<or> a = 172 \<and> 16 \<le> b \<and> b < 32 \<or>
        a = 192 \<and> b = 0 \<and> c = 0 \<and> d \<noteq> 9 \<and> d \<noteq> 10 \<or> a = 192 \<and> b = 0 \<and> c = 2 \<or> a = 192 \<and> b = 168 \<or>
        a = 198 \<and> (b = 18 \<or> b = 19) \<or> a = 198 \<and> b = 51 \<and> c = 100 \<or> a = 203 \<and> b = 0 \<and> c = 113 \<or>
        224 \<le> a) \<and>
    (drop_bit 32 (w :: 128 word) = 0xFFFF \<longrightarrow> is_unsafe_ip (V6 w)) \<and>
    (64 \<le> b \<and> b < 128 \<longrightarrow> \<not> is_unsafe_ip (V4 (v4 100 b c d)))"
proof (rule conj3I)
  note * = unsafe_v4
  show "is_unsafe_ip (V4 (v4 a b c d)) \<longleftrightarrow>
      a = 0 \<or> a = 10 \<or> a = 127 \<or> a = 169 \<and> b = 254 \<or> a = 172 \<and> 16 \<le> b \<and> b < 32 \<or>
      a = 192 \<and> b = 0 \<and> c = 0 \<and> d \<noteq> 9 \<and> d \<noteq> 10 \<or> a = 192 \<and> b = 0 \<and> c = 2 \<or> a = 192 \<and> b = 168 \<or>
      a = 198 \<and> (b = 18 \<or> b = 19) \<or> a = 198 \<and> b = 51 \<and> c = 100 \<or> a = 203 \<and> b = 0 \<and> c = 113 \<or>
      224 \<le> a" by (rule * [OF assms])
  show "64 \<le> b \<and> b < 128 \<longrightarrow> \<not> is_unsafe_ip (V4 (v4 100 b c d))"
    using * [of 100 b c d] assms by simp
  show "drop_bit 32 w = 0xFFFF \<longrightarrow> is_unsafe_ip (V6 w)" by (rule impI) (rule mapped_unsafe)
qed

theorem address_guard_exact_example:
  "is_unsafe_ip (V4 (v4 192 168 1 20)) \<and> \<not> is_unsafe_ip (V4 (v4 8 8 8 8)) \<and>
   is_unsafe_ip (V6 (0xFFFF7F000001)) \<and> \<not> is_unsafe_ip (V4 (v4 100 100 100 200))"
  using address_guard_exact [of 192 168 1 20, THEN conjunct1] address_guard_exact [of 8 8 8 8, THEN conjunct1]
    address_guard_exact [of 1 1 1 1 "0xFFFF7F000001", THEN conjunct2, THEN conjunct1] address_guard_exact [of 1 100 100 200, THEN conjunct2, THEN conjunct2]
  by simp


text \<open>A public site that redirects inside: the second hop is refused and never requested.\<close>

definition demo_net :: net where
  "demo_net =
     \<lparr>n_resolve = (\<lambda>k h. if h = ''a.fr'' then Some [V4 (v4 8 8 8 8)]
                      else if h = ''in.a.fr'' then Some [V4 (v4 10 0 0 1)]
                      else if h = ''re.a.fr'' then Some [if k = 0 then V4 (v4 8 8 8 8) else V4 (v4 10 0 0 1)]
                      else None),
      n_get = (\<lambda>k u. if u = ''http://a.fr''
         then Inr \<lparr>rp_status = 302, rp_url = u, rp_headers = [(''location'', ''http://in.a.fr/x'')],
                   rp_is_redirect = True, rp_content = []\<rparr>
         else Inl ''unreachable''),
      n_join = (\<lambda>base loc. loc),
      n_txt = (\<lambda>d. if d = ''a.fr'' then Txt [[''rssi-verification=t0k'']] else No_txt),
      n_cert = (\<lambda>h. Inr \<lparr>ce_not_after = Some (days 100), ce_issuer = ''CA''\<rparr>)\<rparr>"

lemma demo_ips:
  "\<not> is_unsafe_ip (V4 (v4 8 8 8 8))" "is_unsafe_ip (V4 (v4 10 0 0 (Suc 0)))"
proof -
  have "is_unsafe_ip (V4 (v4 10 0 0 1))" "\<not> is_unsafe_ip (V4 (v4 8 8 8 8))" by (simp_all add: unsafe_v4)
  then show "\<not> is_unsafe_ip (V4 (v4 8 8 8 8))" "is_unsafe_ip (V4 (v4 10 0 0 (Suc 0)))" by simp_all
qed

lemma demo_urls:
  "urlparse ''http://a.fr'' = Some \<lparr>pu_scheme = ''http'', pu_hostname = Some ''a.fr''\<rparr>"
  "urlparse ''http://in.a.fr/x'' = Some \<lparr>pu_scheme = ''http'', pu_hostname = Some ''in.a.fr''\<rparr>"
  "urlparse ''http://re.a.fr'' = Some \<lparr>pu_scheme = ''http'', pu_hostname = Some ''re.a.fr''\<rparr>"
  by code_simp+

lemma demo_location: "lower ''location'' = lower ''Location''"
  by code_simp


text \<open>
  The hole the guard leaves: a name that answers the guard with a public address and the request with
  a private one is requested, and the connection goes inside.
\<close>

theorem rebinding_reaches_inside:
  "\<exists>u. requested demo_net ''http://re.a.fr'' = [(1, u)] \<and> connected demo_net (1, u) = [V4 (v4 10 0 0 1)] \<and>
     is_unsafe_ip (V4 (v4 10 0 0 1))"
proof (intro exI conj3I)
  have "safe_url demo_net 0 ''http://re.a.fr''"
    by (simp add: safe_url_def demo_urls ALLOWED_SCHEMES_def demo_net_def demo_ips)
  moreover have "redirect_target demo_net (Suc 0) ''http://re.a.fr'' = None"
    by (simp add: redirect_target_def demo_net_def)
  ultimately show "requested demo_net ''http://re.a.fr'' = [(1, ''http://re.a.fr'')]"
    by (simp add: requested_def hops_safe del: hops.simps)
  show "connected demo_net (1, ''http://re.a.fr'') = [V4 (v4 10 0 0 1)]"
    by (simp add: connected_def demo_urls demo_net_def)
  show "is_unsafe_ip (V4 (v4 10 0 0 1))" using demo_ips(2) by simp
qed

end
