(* ===== verification/Uniqueness.thy ===== *)
theory Uniqueness
  imports Prelude
begin

text \<open>
  Rows of which at most one per key may be live at a time: the open alert of an asset and type, the
  verified proof of an asset, the pending link of a user and use. The source closes the live row,
  changes it in place, or adds one after looking that there is none; the contract says that each
  keeps the uniqueness, which the partial unique indexes of the database state.
\<close>

definition at_most_one :: "('r \<Rightarrow> bool) \<Rightarrow> ('r \<Rightarrow> 'k) \<Rightarrow> 'r list \<Rightarrow> bool" where
  "at_most_one live key rs = distinct (map key (filter live rs))"

lemma at_most_one_Nil [simp]: "at_most_one live key []"
  by (simp add: at_most_one_def)

lemma at_most_one_filter: "at_most_one live key rs \<Longrightarrow> at_most_one live key (filter q rs)"
proof -
  have "filter live (filter q rs) = filter q (filter live rs)" by (simp add: conj_commute)
  then show "at_most_one live key rs \<Longrightarrow> at_most_one live key (filter q rs)"
    by (simp only: at_most_one_def distinct_map_filter)
qed

lemma at_most_one_map:
  assumes "\<And>r. r \<in> set rs \<Longrightarrow> live (f r) \<Longrightarrow> live r" and "\<And>r. r \<in> set rs \<Longrightarrow> live (f r) \<Longrightarrow> key (f r) = key r"
    and "at_most_one live key rs"
  shows "at_most_one live key (map f rs)"
  using assms
proof (induction rs)
  case (Cons r rs)
  then have "at_most_one live key (map f rs)"
    by (auto simp: at_most_one_def split: if_splits)
  moreover have "key (f r) \<notin> key ` {x \<in> f ` set rs. live x}" if "live (f r)"
  proof
    assume "key (f r) \<in> key ` {x \<in> f ` set rs. live x}"
    then obtain x where x: "x \<in> set rs" "live (f x)" "key (f x) = key (f r)" by auto
    with Cons.prems(1,2) that have "live r" "live x" "key x = key r" by (metis list.set_intros)+
    with Cons.prems(3) x(1) show False by (auto simp: at_most_one_def image_iff)
  qed
  ultimately show ?case by (auto simp: at_most_one_def)
qed simp

lemma at_most_one_upd:
  assumes "\<And>r. r \<in> set rs \<Longrightarrow> p r \<Longrightarrow> live (f r) \<Longrightarrow> live r \<and> key (f r) = key r"
    and "at_most_one live key rs"
  shows "at_most_one live key (upd_where p f rs)"
  unfolding upd_where_def using assms by (intro at_most_one_map) (auto split: if_splits)

lemma at_most_one_Cons:
  "at_most_one live key rs \<Longrightarrow> \<not> (live r \<and> (\<exists>x \<in> set rs. live x \<and> key x = key r)) \<Longrightarrow>
   at_most_one live key (r # rs)"
  by (auto simp: at_most_one_def image_iff)

lemma at_most_oneD:
  "at_most_one live key rs \<Longrightarrow> x \<in> set rs \<Longrightarrow> y \<in> set rs \<Longrightarrow> live x \<Longrightarrow> live y \<Longrightarrow> key x = key y \<Longrightarrow> x = y"
  unfolding at_most_one_def by (rule distinct_map_eq [of key "filter live rs"]) auto

lemma find_live_iff:
  assumes "at_most_one live key rs"
  shows "find (\<lambda>x. live x \<and> key x = k) rs = Some r \<longleftrightarrow> r \<in> set rs \<and> live r \<and> key r = k"
  using assms
proof (induction rs)
  case (Cons x rs)
  then have "at_most_one live key rs" by (auto simp: at_most_one_def split: if_splits)
  with Cons show ?case by (auto simp: at_most_one_def image_iff split: if_splits)
qed simp

lemma at_most_one_put:
  assumes "at_most_one live key rs" and "distinct (map f rs)"
    and "\<And>r. live new \<Longrightarrow> r \<in> set rs \<Longrightarrow> f r \<noteq> k \<Longrightarrow> live r \<Longrightarrow> key r \<noteq> key new"
  shows "at_most_one live key (upd_where (\<lambda>r. f r = k) (\<lambda>r. new) rs)"
  using assms
proof (induction rs)
  case (Cons r rs)
  have IH: "at_most_one live key (upd_where (\<lambda>r. f r = k) (\<lambda>r. new) rs)"
    using Cons by (auto simp: at_most_one_def split: if_splits)
  show ?case
  proof (cases "f r = k")
    case True
    with Cons.prems(2) have "upd_where (\<lambda>r. f r = k) (\<lambda>r. new) rs = rs" and "\<forall>x \<in> set rs. f x \<noteq> k"
      by (auto intro!: upd_where_none simp: image_iff)
    with IH True Cons.prems(3) show ?thesis by (auto intro!: at_most_one_Cons)
  next
    case False
    have "\<not> (live r \<and> (\<exists>x \<in> set (upd_where (\<lambda>r. f r = k) (\<lambda>r. new) rs). live x \<and> key x = key r))"
      using Cons.prems(1) Cons.prems(3) [of r] False
      by (auto simp: at_most_one_def set_upd_where image_iff split: if_splits)
    with IH False show ?thesis by (auto intro!: at_most_one_Cons)
  qed
qed simp

locale unique_live =
  fixes live :: "'r \<Rightarrow> bool" and key :: "'r \<Rightarrow> 'k" and close :: "time \<Rightarrow> 'r \<Rightarrow> 'r"
  assumes close_dead: "\<not> live (close now r)"
    and close_key: "key (close now r) = key r"
begin

definition shut :: "time \<Rightarrow> 'k \<Rightarrow> 'r list \<Rightarrow> 'r list" where
  "shut now k rs = upd_where (\<lambda>r. live r \<and> key r = k) (close now) rs"

lemma shut_unique: "at_most_one live key rs \<Longrightarrow> at_most_one live key (shut now k rs)"
  unfolding shut_def by (rule at_most_one_upd) (simp_all add: close_dead)

lemma shut_none: "r \<in> set (shut now k rs) \<Longrightarrow> live r \<Longrightarrow> key r \<noteq> k"
  by (auto simp: shut_def set_upd_where close_dead split: if_splits)

lemma shut_others: "filter (\<lambda>r. key r \<noteq> k) (shut now k rs) = filter (\<lambda>r. key r \<noteq> k) rs"
  unfolding shut_def by (rule filter_upd_where_other) (simp_all add: close_key)

lemma replace_unique:
  "at_most_one live key rs \<Longrightarrow> key r = k \<Longrightarrow> at_most_one live key (r # shut now k rs)"
  by (rule at_most_one_Cons) (auto intro: shut_unique dest: shut_none)

end

end
