(* ===== verification/Monitoring.thy ===== *)
theory Monitoring
  imports Outbound Uniqueness
begin

text \<open>
  The monitoring of the assets a company declared (monitoring/services.py and models.py): declaring
  an asset and the attestation that goes with it, proving the ownership of its domain, the checks
  that are due, the result of a check and the alert engine, uptime and expiring certificates, the
  heartbeat of the worker. The tables hold their newest row first. \<open>mn_mails\<close> are the mails of the proofs
  that were sent: the proof, the address and the code.
\<close>

section \<open>Data\<close>

datatype asset_type = Website | Email_domain

datatype check_type = Http_uptime | Ssl_certificate | Security_headers | Email_dns

datatype alert_type = Down | Ssl_expiring | Headers_missing | Email_misconfigured | Breach_compromise

datatype severity = Sev_warning | Sev_critical

datatype proof_method = Dns_txt | Http_file | Email_code

datatype proof_status = Proof_pending | Proof_verified | Proof_failed

record asset =
  at_id :: int
  at_tenant :: int
  at_type :: asset_type
  at_value :: string
  at_active :: bool
  at_created_by :: "int option"

record attestation =
  an_asset :: int
  an_tenant :: int
  an_user :: "int option"
  an_ip :: "string option"
  an_agent :: string
  an_at :: time

datatype proof_note = No_note | Detail proof_detail | Code_mismatch | Not_checked string | Mail_not_sent

record ownership_proof =
  pr_id :: int
  pr_asset :: int
  pr_method :: proof_method
  pr_status :: proof_status
  pr_token :: string
  pr_recipient :: string
  pr_verified_at :: "time option"
  pr_last_attempt :: "time option"
  pr_error :: proof_note

record check_result =
  ck_asset :: int
  ck_type :: check_type
  ck_status :: check_status
  ck_details :: details
  ck_at :: time

text \<open>The JSON details of an alert, as each kind of alert writes them.\<close>

datatype alert_details =
    Down_details nat "string option"
  | Ssl_details int "time option" "int list"
  | Headers_details "string list"
  | Email_details "issue list"
  | Breach_details int string string string

record alert =
  al_id :: int
  al_asset :: int
  al_type :: alert_type
  al_severity :: severity
  al_open :: bool
  al_details :: alert_details
  al_opened :: time
  al_updated :: time
  al_resolved :: "time option"

record mon =
  mn_seq :: int
  mn_assets :: "asset list"
  mn_attestations :: "attestation list"
  mn_proofs :: "ownership_proof list"
  mn_checks :: "check_result list"
  mn_alerts :: "alert list"
  mn_heartbeat :: "(time \<times> time) option"
  mn_mails :: "(int \<times> string \<times> string) list"

datatype monitoring_error =
    Ownership_not_confirmed
  | Duplicate_asset
  | Unknown_method
  | Already_proven
  | Not_a_generic_address string
  | Ownership_not_proven
  | Second_verified_proof
  | Malformed_value

section \<open>Assets\<close>

text \<open>Declaring an asset writes its row and the attestation of the same transaction.\<close>

definition record_ownership_attestation ::
  "time \<Rightarrow> mon \<Rightarrow> asset \<Rightarrow> int option \<Rightarrow> string \<Rightarrow> string \<Rightarrow> attestation \<times> mon" where
  "record_ownership_attestation now m a user ip agent =
     (let r = \<lparr>an_asset = at_id a, an_tenant = at_tenant a, an_user = user,
               an_ip = (if ip = [] then None else Some ip), an_agent = take 255 agent, an_at = now\<rparr>
      in (r, m\<lparr>mn_attestations := r # mn_attestations m\<rparr>))"

definition create_asset ::
  "time \<Rightarrow> mon \<Rightarrow> int \<Rightarrow> int option \<Rightarrow> asset_type \<Rightarrow> string \<Rightarrow> bool \<Rightarrow> string \<Rightarrow> string \<Rightarrow>
   monitoring_error + asset \<times> mon" where
  "create_asset now m tenant user ty v confirmed ip agent =
     (if \<not> confirmed then Inl Ownership_not_confirmed
      else if \<exists>a \<in> set (mn_assets m). at_tenant a = tenant \<and> at_type a = ty \<and> at_value a = v
      then Inl Duplicate_asset
      else (let a = \<lparr>at_id = mn_seq m + 1, at_tenant = tenant, at_type = ty, at_value = v,
                     at_active = True, at_created_by = user\<rparr>;
                m1 = m\<lparr>mn_seq := mn_seq m + 1, mn_assets := a # mn_assets m\<rparr>
            in Inr (a, snd (record_ownership_attestation now m1 a user ip agent))))"

definition list_assets :: "mon \<Rightarrow> int \<Rightarrow> asset list" where
  "list_assets m tenant = filter (\<lambda>a. at_tenant a = tenant) (mn_assets m)"

definition get_asset :: "mon \<Rightarrow> int \<Rightarrow> int \<Rightarrow> asset option" where
  "get_asset m tenant i = find (\<lambda>a. at_tenant a = tenant \<and> at_id a = i) (mn_assets m)"

definition set_asset_active :: "mon \<Rightarrow> asset \<Rightarrow> bool \<Rightarrow> asset \<times> mon" where
  "set_asset_active m a active =
     (a\<lparr>at_active := active\<rparr>,
      m\<lparr>mn_assets := upd_where (\<lambda>r. at_id r = at_id a) (\<lambda>r. r\<lparr>at_active := active\<rparr>) (mn_assets m)\<rparr>)"

text \<open>Deleting an asset takes the rows that reference it along.\<close>

definition delete_asset :: "mon \<Rightarrow> asset \<Rightarrow> mon" where
  "delete_asset m a =
     m\<lparr>mn_assets := filter (\<lambda>r. at_id r \<noteq> at_id a) (mn_assets m),
       mn_attestations := filter (\<lambda>r. an_asset r \<noteq> at_id a) (mn_attestations m),
       mn_proofs := filter (\<lambda>r. pr_asset r \<noteq> at_id a) (mn_proofs m),
       mn_checks := filter (\<lambda>r. ck_asset r \<noteq> at_id a) (mn_checks m),
       mn_alerts := filter (\<lambda>r. al_asset r \<noteq> at_id a) (mn_alerts m)\<rparr>"

section \<open>Ownership\<close>

definition OWNERSHIP_EMAIL_LOCAL_PARTS :: "string list" where
  "OWNERSHIP_EMAIL_LOCAL_PARTS =
     [''admin'', ''administrator'', ''hostmaster'', ''postmaster'', ''webmaster'']"

text \<open>
  The host of a URL, or the value itself; \<open>None\<close> when the value is a URL \<open>urlparse\<close> rejects.
\<close>

definition asset_domain :: "asset \<Rightarrow> string option" where
  "asset_domain a =
     (if at_type a = Website then
        (case urlparse (at_value a) of
           None \<Rightarrow> None
         | Some p \<Rightarrow> Some (case pu_hostname p of None \<Rightarrow> at_value a | Some h \<Rightarrow> h))
      else Some (at_value a))"

definition is_ownership_proven :: "mon \<Rightarrow> int \<Rightarrow> bool" where
  "is_ownership_proven m a = (\<exists>p \<in> set (mn_proofs m). pr_asset p = a \<and> pr_status p = Proof_verified)"

definition has_ownership_attestation :: "mon \<Rightarrow> int \<Rightarrow> bool" where
  "has_ownership_attestation m a = (\<exists>r \<in> set (mn_attestations m). an_asset r = a)"

definition needs_ownership_review :: "mon \<Rightarrow> int \<Rightarrow> bool" where
  "needs_ownership_review m a = (\<not> is_ownership_proven m a \<and> \<not> has_ownership_attestation m a)"

datatype ownership = Proven | Declared | To_review

definition ownership_state :: "mon \<Rightarrow> int \<Rightarrow> ownership" where
  "ownership_state m a =
     (if is_ownership_proven m a then Proven
      else if has_ownership_attestation m a then Declared else To_review)"

definition assets_needing_ownership_review :: "mon \<Rightarrow> asset list" where
  "assets_needing_ownership_review m =
     filter (\<lambda>a. \<not> (\<exists>p \<in> set (mn_proofs m). pr_asset p = at_id a) \<and>
                 \<not> (\<exists>r \<in> set (mn_attestations m). an_asset r = at_id a)) (mn_assets m)"

text \<open>
  Starting a proof: the token is the \<open>secrets.token_urlsafe\<close> of the call, \<open>sent\<close> tells whether the
  mail could be sent.
\<close>

definition method_of :: "string \<Rightarrow> proof_method option" where
  "method_of s =
     (if s = ''dns_txt'' then Some Dns_txt else if s = ''http_file'' then Some Http_file
      else if s = ''email'' then Some Email_code else None)"

definition send_ownership_email :: "time \<Rightarrow> bool \<Rightarrow> ownership_proof \<Rightarrow> ownership_proof" where
  "send_ownership_email now sent p =
     (if sent then p
      else p\<lparr>pr_status := Proof_failed, pr_last_attempt := Some now, pr_error := Mail_not_sent\<rparr>)"

definition start_ownership_proof ::
  "time \<Rightarrow> mon \<Rightarrow> asset \<Rightarrow> string \<Rightarrow> string \<Rightarrow> string \<Rightarrow> bool \<Rightarrow>
   monitoring_error + ownership_proof \<times> mon" where
  "start_ownership_proof now m a meth recipient token sent =
     (case method_of meth of
        None \<Rightarrow> Inl Unknown_method
      | Some k \<Rightarrow>
          if is_ownership_proven m (at_id a) then Inl Already_proven
          else case asset_domain a of
            None \<Rightarrow> Inl Malformed_value
          | Some domain \<Rightarrow>
              (let local_part = lower (strip (before (CHR ''@'') recipient))
               in if k = Email_code \<and> local_part \<notin> set OWNERSHIP_EMAIL_LOCAL_PARTS
                  then Inl (Not_a_generic_address domain)
                  else (let p = \<lparr>pr_id = mn_seq m + 1, pr_asset = at_id a, pr_method = k,
                                 pr_status = Proof_pending, pr_token = token,
                                 pr_recipient = (if k = Email_code then local_part @ ''@'' @ domain else []),
                                 pr_verified_at = None, pr_last_attempt = None, pr_error = No_note\<rparr>;
                            p1 = (if k = Email_code then send_ownership_email now sent p else p);
                            kept = filter (\<lambda>r. \<not> (pr_asset r = at_id a \<and> pr_method r = k \<and>
                                      pr_status r \<in> {Proof_pending, Proof_failed})) (mn_proofs m)
                        in Inr (p1, m\<lparr>mn_seq := mn_seq m + 1, mn_proofs := p1 # kept,
                                      mn_mails := (if k = Email_code \<and> sent
                                        then (pr_id p, pr_recipient p, pr_token p) # mn_mails m
                                        else mn_mails m)\<rparr>))))"

text \<open>
  What the check of a proof concludes; the outer \<open>None\<close> is an exception the code does not catch.
\<close>

definition check_proof ::
  "net \<Rightarrow> string \<Rightarrow> ownership_proof \<Rightarrow> string \<Rightarrow> (proof_note + bool \<times> proof_note) option" where
  "check_proof net domain p submitted =
     (case pr_method p of
        Dns_txt \<Rightarrow>
          (case verify_dns_txt net domain (pr_token p) of
             Inl e \<Rightarrow> Some (Inl (Not_checked e)) | Inr (ok, d) \<Rightarrow> Some (Inr (ok, Detail d)))
      | Http_file \<Rightarrow>
          (case verify_http_file net domain (pr_token p) of
             None \<Rightarrow> None
           | Some (Inl e) \<Rightarrow> Some (Inl (Not_checked e))
           | Some (Inr (ok, d)) \<Rightarrow> Some (Inr (ok, Detail d)))
      | Email_code \<Rightarrow> Some (Inr (strip submitted = pr_token p, Code_mismatch)))"

text \<open>
  The save of a proof: the partial unique index allows one verified proof per asset.
\<close>

definition save_proof :: "ownership_proof \<Rightarrow> mon \<Rightarrow> monitoring_error + ownership_proof \<times> mon" where
  "save_proof p m =
     (if pr_status p = Proof_verified \<and>
         (\<exists>r \<in> set (mn_proofs m). pr_asset r = pr_asset p \<and> pr_id r \<noteq> pr_id p \<and> pr_status r = Proof_verified)
      then Inl Second_verified_proof
      else Inr (p, m\<lparr>mn_proofs := upd_where (\<lambda>r. pr_id r = pr_id p) (\<lambda>r. p) (mn_proofs m)\<rparr>))"

definition verify_ownership_proof ::
  "net \<Rightarrow> time \<Rightarrow> mon \<Rightarrow> asset \<Rightarrow> ownership_proof \<Rightarrow> string \<Rightarrow> monitoring_error + ownership_proof \<times> mon" where
  "verify_ownership_proof net now m a p submitted =
     (case asset_domain a of
        None \<Rightarrow> Inl Malformed_value
      | Some domain \<Rightarrow>
          (let p0 = p\<lparr>pr_last_attempt := Some now\<rparr>
           in case check_proof net domain p submitted of
                None \<Rightarrow> Inl Malformed_value
              | Some (Inl note) \<Rightarrow> save_proof (p0\<lparr>pr_status := Proof_failed, pr_error := note\<rparr>) m
              | Some (Inr (ok, note)) \<Rightarrow>
                  if ok then save_proof (p0\<lparr>pr_status := Proof_verified, pr_verified_at := Some now, pr_error := No_note\<rparr>) m
                  else save_proof (p0\<lparr>pr_status := Proof_failed, pr_error := note\<rparr>) m))"

definition ensure_ownership_proven :: "mon \<Rightarrow> int \<Rightarrow> monitoring_error + unit" where
  "ensure_ownership_proven m a = ensure (is_ownership_proven m a) Ownership_not_proven"

section \<open>Checks\<close>

definition CONSECUTIVE_FAILURES_FOR_DOWN :: nat where
  "CONSECUTIVE_FAILURES_FOR_DOWN = 3"

definition SSL_NOTIFY_THRESHOLDS :: "int list" where
  "SSL_NOTIFY_THRESHOLDS = [30, 14, 7]"

fun check_interval :: "check_type \<Rightarrow> int" where
  "check_interval Http_uptime = 5 * 60 * second"
| "check_interval _ = 24 * 3600 * second"

fun check_types_of :: "asset_type \<Rightarrow> check_type list" where
  "check_types_of Website = [Http_uptime, Ssl_certificate, Security_headers]"
| "check_types_of Email_domain = [Email_dns]"

definition checks_of :: "mon \<Rightarrow> int \<Rightarrow> check_type \<Rightarrow> check_result list" where
  "checks_of m a ct = filter (\<lambda>c. ck_asset c = a \<and> ck_type c = ct) (mn_checks m)"

text \<open>\<open>Max("checked_at")\<close> of no row is null.\<close>

definition last_checked_at :: "mon \<Rightarrow> int \<Rightarrow> check_type \<Rightarrow> time option" where
  "last_checked_at m a ct =
     (case checks_of m a ct of [] \<Rightarrow> None | c # cs \<Rightarrow> Some (foldr (max \<circ> ck_at) cs (ck_at c)))"

definition list_due_assets :: "time \<Rightarrow> mon \<Rightarrow> check_type \<Rightarrow> asset list" where
  "list_due_assets now m ct =
     filter (\<lambda>a. at_active a \<and> ct \<in> set (check_types_of (at_type a)) \<and>
        (case last_checked_at m (at_id a) ct of None \<Rightarrow> True | Some t \<Rightarrow> t \<le> now - check_interval ct))
       (mn_assets m)"

section \<open>Alerts\<close>

definition open_alert :: "mon \<Rightarrow> int \<Rightarrow> alert_type \<Rightarrow> alert option" where
  "open_alert m a ty = find (\<lambda>r. al_open r \<and> (al_asset r, al_type r) = (a, ty)) (mn_alerts m)"

text \<open>The private opener: the alert and whether anything changed.\<close>

definition open_or_update ::
  "time \<Rightarrow> mon \<Rightarrow> int \<Rightarrow> alert_type \<Rightarrow> severity \<Rightarrow> alert_details \<Rightarrow> (alert \<times> bool) \<times> mon" where
  "open_or_update now m a ty sev det =
     (case open_alert m a ty of
        None \<Rightarrow>
          (let r = \<lparr>al_id = mn_seq m + 1, al_asset = a, al_type = ty, al_severity = sev, al_open = True,
                    al_details = det, al_opened = now, al_updated = now, al_resolved = None\<rparr>
           in ((r, True), m\<lparr>mn_seq := mn_seq m + 1, mn_alerts := r # mn_alerts m\<rparr>))
      | Some r \<Rightarrow>
          if al_severity r \<noteq> sev \<or> al_details r \<noteq> det
          then (let r' = r\<lparr>al_severity := sev, al_details := det, al_updated := now\<rparr>
                in ((r', True), m\<lparr>mn_alerts := upd_where (\<lambda>x. al_id x = al_id r) (\<lambda>x. r') (mn_alerts m)\<rparr>))
          else ((r, False), m))"

definition open_or_update_alert ::
  "time \<Rightarrow> mon \<Rightarrow> int \<Rightarrow> alert_type \<Rightarrow> severity \<Rightarrow> alert_details \<Rightarrow> alert \<times> mon" where
  "open_or_update_alert now m a ty sev det =
     (case open_or_update now m a ty sev det of ((r, _), m') \<Rightarrow> (r, m'))"

definition close_alert :: "time \<Rightarrow> alert \<Rightarrow> alert" where
  "close_alert now r = r\<lparr>al_open := False, al_resolved := Some now\<rparr>"

definition resolve_alert :: "time \<Rightarrow> mon \<Rightarrow> int \<Rightarrow> alert_type \<Rightarrow> mon" where
  "resolve_alert now m a ty =
     m\<lparr>mn_alerts := upd_where (\<lambda>r. al_open r \<and> (al_asset r, al_type r) = (a, ty)) (close_alert now) (mn_alerts m)\<rparr>"

definition evaluate_down_alert :: "time \<Rightarrow> mon \<Rightarrow> int \<Rightarrow> alert option \<times> mon" where
  "evaluate_down_alert now m a =
     (let recent = take CONSECUTIVE_FAILURES_FOR_DOWN (checks_of m a Http_uptime)
      in case recent of
           [] \<Rightarrow> (None, m)
         | c # _ \<Rightarrow>
             if ck_status c = Ok then (None, resolve_alert now m a Down)
             else if length recent < CONSECUTIVE_FAILURES_FOR_DOWN then (None, m)
             else if list_all (\<lambda>r. ck_status r = Critical) recent
             then (case open_or_update now m a Down Sev_critical
                          (Down_details CONSECUTIVE_FAILURES_FOR_DOWN (de_error (ck_details c))) of
                     ((r, changed), m') \<Rightarrow> (if changed then Some r else None, m'))
             else (None, m))"

fun notified_thresholds :: "alert_details \<Rightarrow> int list" where
  "notified_thresholds (Ssl_details _ _ ns) = ns"
| "notified_thresholds _ = []"

definition evaluate_ssl_alert :: "time \<Rightarrow> mon \<Rightarrow> int \<Rightarrow> details \<Rightarrow> alert option \<times> mon" where
  "evaluate_ssl_alert now m a det =
     (case de_days_left det of
        None \<Rightarrow> (None, m)
      | Some days_left \<Rightarrow>
          if Max (set SSL_NOTIFY_THRESHOLDS) < days_left then (None, resolve_alert now m a Ssl_expiring)
          else (let sev = (if days_left \<le> Min (set SSL_NOTIFY_THRESHOLDS) then Sev_critical else Sev_warning);
                    already = (case open_alert m a Ssl_expiring of
                        None \<Rightarrow> {} | Some r \<Rightarrow> set (notified_thresholds (al_details r)));
                    newly = {t \<in> set SSL_NOTIFY_THRESHOLDS. days_left \<le> t} - already
                in if newly = {} then (None, m)
                   else (case open_or_update now m a Ssl_expiring sev
                            (Ssl_details days_left (de_expires_at det) (sorted_list_of_set (already \<union> newly))) of
                           ((r, _), m') \<Rightarrow> (Some r, m'))))"

definition evaluate_headers_alert :: "time \<Rightarrow> mon \<Rightarrow> int \<Rightarrow> details \<Rightarrow> alert option \<times> mon" where
  "evaluate_headers_alert now m a det =
     (if de_missing det = [] then (None, resolve_alert now m a Headers_missing)
      else (case open_or_update now m a Headers_missing Sev_warning (Headers_details (de_missing det)) of
              ((r, changed), m') \<Rightarrow> (if changed then Some r else None, m')))"

definition evaluate_email_alert ::
  "time \<Rightarrow> mon \<Rightarrow> int \<Rightarrow> check_status \<Rightarrow> details \<Rightarrow> alert option \<times> mon" where
  "evaluate_email_alert now m a st det =
     (if de_issues det = [] then (None, resolve_alert now m a Email_misconfigured)
      else (case open_or_update now m a Email_misconfigured
                   (if st = Critical then Sev_critical else Sev_warning) (Email_details (de_issues det)) of
              ((r, changed), m') \<Rightarrow> (if changed then Some r else None, m')))"

definition evaluate_alerts ::
  "time \<Rightarrow> mon \<Rightarrow> int \<Rightarrow> check_type \<Rightarrow> check_status \<Rightarrow> details \<Rightarrow> alert option \<times> mon" where
  "evaluate_alerts now m a ct st det =
     (case ct of
        Http_uptime \<Rightarrow> evaluate_down_alert now m a
      | Ssl_certificate \<Rightarrow> evaluate_ssl_alert now m a det
      | Security_headers \<Rightarrow> evaluate_headers_alert now m a det
      | Email_dns \<Rightarrow> evaluate_email_alert now m a st det)"

text \<open>The check the asset's type and value lead to; only a malformed value raises.\<close>

definition probe :: "net \<Rightarrow> time \<Rightarrow> asset \<Rightarrow> check_type \<Rightarrow> monitoring_error + check_status \<times> details" where
  "probe net now a ct =
     (case ct of
        Http_uptime \<Rightarrow> (case check_http_uptime net (at_value a) of Inl _ \<Rightarrow> Inl Malformed_value | Inr r \<Rightarrow> Inr r)
      | Ssl_certificate \<Rightarrow>
          (case urlparse (at_value a) of
             None \<Rightarrow> Inl Malformed_value
           | Some p \<Rightarrow> Inr (check_ssl_certificate net now
               (case pu_hostname p of None \<Rightarrow> at_value a | Some h \<Rightarrow> h)))
      | Security_headers \<Rightarrow>
          (case check_security_headers net (at_value a) of Inl _ \<Rightarrow> Inl Malformed_value | Inr r \<Rightarrow> Inr r)
      | Email_dns \<Rightarrow> Inr (check_email_dns net (at_value a)))"

definition simulate_check_result ::
  "time \<Rightarrow> mon \<Rightarrow> int \<Rightarrow> check_type \<Rightarrow> check_status \<Rightarrow> details \<Rightarrow> (check_result \<times> alert option) \<times> mon" where
  "simulate_check_result now m a ct st det =
     (let c = \<lparr>ck_asset = a, ck_type = ct, ck_status = st, ck_details = det, ck_at = now\<rparr>
      in case evaluate_alerts now (m\<lparr>mn_checks := c # mn_checks m\<rparr>) a ct st det of
           (alert, m') \<Rightarrow> ((c, alert), m'))"

definition run_check ::
  "net \<Rightarrow> time \<Rightarrow> mon \<Rightarrow> asset \<Rightarrow> check_type \<Rightarrow> monitoring_error + (check_result \<times> alert option) \<times> mon" where
  "run_check net now m a ct =
     (case probe net now a ct of
        Inl e \<Rightarrow> Inl e
      | Inr (st, det) \<Rightarrow> Inr (simulate_check_result now m (at_id a) ct st det))"

text \<open>The task: it runs the check of an asset that still exists and is active.\<close>

definition run_single_check ::
  "net \<Rightarrow> time \<Rightarrow> mon \<Rightarrow> int \<Rightarrow> check_type \<Rightarrow> (monitoring_error + alert option \<times> mon)" where
  "run_single_check net now m i ct =
     (case find (\<lambda>a. at_id a = i) (mn_assets m) of
        None \<Rightarrow> Inr (None, m)
      | Some a \<Rightarrow>
          if \<not> at_active a then Inr (None, m)
          else (case run_check net now m a ct of
                  Inl e \<Rightarrow> Inl e | Inr ((_, alert), m') \<Rightarrow> Inr (alert, m')))"

definition all_check_types :: "check_type list" where
  "all_check_types = [Http_uptime, Ssl_certificate, Security_headers, Email_dns]"

definition dispatch_due_checks :: "time \<Rightarrow> mon \<Rightarrow> (int \<times> check_type) list" where
  "dispatch_due_checks now m =
     concat (map (\<lambda>ct. map (\<lambda>a. (at_id a, ct)) (list_due_assets now m ct)) all_check_types)"

section \<open>Dashboard\<close>

definition list_open_alerts :: "mon \<Rightarrow> int \<Rightarrow> alert list" where
  "list_open_alerts m tenant =
     filter (\<lambda>r. al_open r \<and> al_asset r \<in> at_id ` set (list_assets m tenant)) (mn_alerts m)"

definition get_alert :: "mon \<Rightarrow> int \<Rightarrow> alert option" where
  "get_alert m i = find (\<lambda>r. al_id r = i) (mn_alerts m)"

definition get_latest_check :: "mon \<Rightarrow> int \<Rightarrow> check_type \<Rightarrow> check_result option" where
  "get_latest_check m a ct = (case checks_of m a ct of [] \<Rightarrow> None | c # _ \<Rightarrow> Some c)"

text \<open>A percentage rounded to a number of decimals, as Python's \<open>round(100 * part / whole, n)\<close>.\<close>

definition percentage :: "nat \<Rightarrow> nat \<Rightarrow> nat \<Rightarrow> rat option" where
  "percentage decimals part whole =
     (if whole = 0 then None
      else Some (of_int (py_round (10 ^ decimals * (100 * of_nat part / of_nat whole))) / 10 ^ decimals))"

definition compute_uptime_percentage :: "time \<Rightarrow> mon \<Rightarrow> int \<Rightarrow> int \<Rightarrow> rat option" where
  "compute_uptime_percentage now m a hours =
     (let results = filter (\<lambda>c. now - hours * 3600 * second \<le> ck_at c) (checks_of m a Http_uptime)
      in percentage 1 (length (filter (\<lambda>c. ck_status c = Ok) results)) (length results))"

record asset_dashboard =
  ad_asset :: asset
  ad_latest :: "(check_type \<times> check_result option) list"
  ad_uptime :: "rat option"
  ad_alerts :: "alert list"

definition get_asset_dashboard :: "time \<Rightarrow> mon \<Rightarrow> asset \<Rightarrow> asset_dashboard" where
  "get_asset_dashboard now m a =
     \<lparr>ad_asset = a,
      ad_latest = map (\<lambda>ct. (ct, get_latest_check m (at_id a) ct)) (check_types_of (at_type a)),
      ad_uptime = (if at_type a = Website then compute_uptime_percentage now m (at_id a) 24 else None),
      ad_alerts = filter (\<lambda>r. al_open r \<and> al_asset r = at_id a) (mn_alerts m)\<rparr>"

definition get_tenant_dashboard :: "time \<Rightarrow> mon \<Rightarrow> int \<Rightarrow> asset_dashboard list" where
  "get_tenant_dashboard now m tenant = map (get_asset_dashboard now m) (list_assets m tenant)"

record expiring =
  ex_asset :: int
  ex_value :: string
  ex_days_left :: int
  ex_expires_at :: "time option"

definition expiring_certificates :: "mon \<Rightarrow> int \<Rightarrow> int \<Rightarrow> expiring list" where
  "expiring_certificates m tenant within_days =
     sort_key ex_days_left
       (concat (map (\<lambda>a.
          case get_latest_check m (at_id a) Ssl_certificate of
            None \<Rightarrow> []
          | Some c \<Rightarrow>
              (case de_days_left (ck_details c) of
                 None \<Rightarrow> []
               | Some n \<Rightarrow> if within_days < n then []
                   else [\<lparr>ex_asset = at_id a, ex_value = at_value a, ex_days_left = n,
                          ex_expires_at = de_expires_at (ck_details c)\<rparr>]))
        (filter (\<lambda>a. at_type a = Website \<and> at_active a) (list_assets m tenant))))"

record indicators =
  mi_assets_total :: nat
  mi_assets_active :: nat
  mi_uptime :: "rat option"
  mi_checks :: nat
  mi_failed_checks :: nat
  mi_open_alerts :: nat
  mi_alerts_opened :: nat
  mi_alerts_resolved :: nat
  mi_certificates :: "expiring list"

definition monitoring_indicators :: "mon \<Rightarrow> int \<Rightarrow> time \<Rightarrow> time \<Rightarrow> indicators" where
  "monitoring_indicators m tenant from_t to_t =
     (let mine = at_id ` set (list_assets m tenant);
          inside = (\<lambda>t. from_t \<le> t \<and> t \<le> to_t);
          checks = filter (\<lambda>c. ck_asset c \<in> mine \<and> ck_type c = Http_uptime \<and> inside (ck_at c)) (mn_checks m);
          oks = filter (\<lambda>c. ck_status c = Ok) checks;
          alerts = filter (\<lambda>r. al_asset r \<in> mine) (mn_alerts m)
      in \<lparr>mi_assets_total = length (list_assets m tenant),
          mi_assets_active = length (filter at_active (list_assets m tenant)),
          mi_uptime = percentage 2 (length oks) (length checks),
          mi_checks = length checks,
          mi_failed_checks = length checks - length oks,
          mi_open_alerts = length (filter al_open alerts),
          mi_alerts_opened = length (filter (\<lambda>r. inside (al_opened r)) alerts),
          mi_alerts_resolved = length (filter (\<lambda>r. case al_resolved r of None \<Rightarrow> False | Some t \<Rightarrow> inside t) alerts),
          mi_certificates = expiring_certificates m tenant 60\<rparr>)"

section \<open>Heartbeat\<close>

definition HEARTBEAT_CACHE_TIMEOUT_SECONDS :: int where
  "HEARTBEAT_CACHE_TIMEOUT_SECONDS = 180"

definition record_heartbeat :: "time \<Rightarrow> mon \<Rightarrow> mon" where
  "record_heartbeat now m = m\<lparr>mn_heartbeat := Some (now, now + HEARTBEAT_CACHE_TIMEOUT_SECONDS * second)\<rparr>"

definition is_worker_healthy :: "time \<Rightarrow> mon \<Rightarrow> bool \<times> time option" where
  "is_worker_healthy now m =
     (case mn_heartbeat m of
        None \<Rightarrow> (False, None)
      | Some (seen, until) \<Rightarrow> if now < until then (True, Some seen) else (False, None))"

end
