(* ===== verification/MonitoringSafety.thy ===== *)
theory MonitoringSafety
  imports Monitoring
begin

text \<open>
  What the monitoring keeps: one open alert per asset and type, one verified proof per asset and one
  token per method; when the alert of a site that is down opens and closes; which thresholds of an
  expiring certificate were notified; what proves the ownership of a domain.
\<close>

interpretation alert_rows: unique_live al_open "\<lambda>r. (al_asset r, al_type r)" close_alert
  by unfold_locales (simp_all add: close_alert_def)

section \<open>The tables\<close>

definition empty_mon :: mon where
  "empty_mon =
     \<lparr>mn_seq = 0, mn_assets = [], mn_attestations = [], mn_proofs = [], mn_checks = [], mn_alerts = [],
      mn_heartbeat = None, mn_mails = []\<rparr>"

definition alerts_ok :: "int \<Rightarrow> alert list \<Rightarrow> bool" where
  "alerts_ok n rs =
     (distinct (map al_id rs) \<and> (\<forall>r \<in> set rs. al_id r \<le> n) \<and>
      at_most_one al_open (\<lambda>r. (al_asset r, al_type r)) rs)"

definition proofs_ok :: "int \<Rightarrow> ownership_proof list \<Rightarrow> bool" where
  "proofs_ok n ps =
     (distinct (map pr_id ps) \<and> (\<forall>p \<in> set ps. pr_id p \<le> n) \<and>
      distinct (map (\<lambda>p. (pr_asset p, pr_method p)) ps) \<and>
      at_most_one (\<lambda>p. pr_status p = Proof_verified) pr_asset ps)"

definition mon_ok :: "mon \<Rightarrow> bool" where
  "mon_ok m = (alerts_ok (mn_seq m) (mn_alerts m) \<and> proofs_ok (mn_seq m) (mn_proofs m))"

text \<open>Every service of the module that writes.\<close>

inductive mon_step :: "mon \<Rightarrow> mon \<Rightarrow> bool" where
  step_create: "create_asset now m tenant user ty v confirmed ip agent = Inr (a, m') \<Longrightarrow> mon_step m m'"
| step_activity: "set_asset_active m a active = (a', m') \<Longrightarrow> mon_step m m'"
| step_delete: "mon_step m (delete_asset m a)"
| step_start: "a \<in> set (mn_assets m) \<Longrightarrow> start_ownership_proof now m a meth recipient token sent = Inr (p, m') \<Longrightarrow>
    mon_step m m'"
| step_verify: "p \<in> set (mn_proofs m) \<Longrightarrow> a \<in> set (mn_assets m) \<Longrightarrow> at_id a = pr_asset p \<Longrightarrow>
    verify_ownership_proof net now m a p submitted = Inr (p', m') \<Longrightarrow> mon_step m m'"
| step_check: "run_check net now m a ct = Inr (r, m') \<Longrightarrow> mon_step m m'"
| step_simulate: "simulate_check_result now m i ct st det = (r, m') \<Longrightarrow> mon_step m m'"
| step_alert: "open_or_update_alert now m i ty sev det = (r, m') \<Longrightarrow> mon_step m m'"
| step_heartbeat: "mon_step m (record_heartbeat now m)"

lemma open_alert_iff:
  "alerts_ok n (mn_alerts m) \<Longrightarrow>
   open_alert m a ty = Some r \<longleftrightarrow> r \<in> set (mn_alerts m) \<and> al_open r \<and> al_asset r = a \<and> al_type r = ty"
  using find_live_iff [of al_open "\<lambda>r. (al_asset r, al_type r)" "mn_alerts m" "(a, ty)" r]
  by (auto simp: open_alert_def alerts_ok_def)

lemma open_alertD:
  "open_alert m a ty = Some r \<Longrightarrow> r \<in> set (mn_alerts m) \<and> al_open r \<and> al_asset r = a \<and> al_type r = ty"
  by (auto simp: open_alert_def dest: find_SomeD)

lemma resolve_alert_shut:
  "mn_alerts (resolve_alert now m a ty) = alert_rows.shut now (a, ty) (mn_alerts m)"
  by (simp add: resolve_alert_def alert_rows.shut_def)

lemma alerts_ok_mono: "alerts_ok n rs \<Longrightarrow> n \<le> k \<Longrightarrow> alerts_ok k rs"
  by (force simp: alerts_ok_def)

lemma proofs_ok_mono: "proofs_ok n ps \<Longrightarrow> n \<le> k \<Longrightarrow> proofs_ok k ps"
  by (force simp: proofs_ok_def)

lemma resolve_alert_ok:
  "alerts_ok n (mn_alerts m) \<Longrightarrow> alerts_ok n (mn_alerts (resolve_alert now m a ty))"
  using alert_rows.shut_unique [of "mn_alerts m" now "(a, ty)"]
  by (auto simp: alerts_ok_def resolve_alert_def alert_rows.shut_def map_upd_where close_alert_def
      ball_upd_where)

lemma open_or_update_ok:
  assumes "alerts_ok (mn_seq m) (mn_alerts m)" and "open_or_update now m a ty sev det = (r, m')"
  shows "alerts_ok (mn_seq m') (mn_alerts m') \<and> mn_seq m \<le> mn_seq m' \<and> mn_proofs m' = mn_proofs m"
proof (cases "open_alert m a ty")
  case None
  then have "\<not> (\<exists>x \<in> set (mn_alerts m). al_open x \<and> al_asset x = a \<and> al_type x = ty)"
    by (auto simp: open_alert_def find_None_iff)
  with assms None show ?thesis
    by (fastforce simp: open_or_update_def alerts_ok_def Let_def intro!: at_most_one_Cons)
next
  case (Some r0)
  from open_alertD [OF Some] have r0: "r0 \<in> set (mn_alerts m)" "al_open r0" "al_asset r0 = a" "al_type r0 = ty"
    by simp_all
  have same: "x = r0" if "x \<in> set (mn_alerts m)" "al_id x = al_id r0" for x
    using assms(1) that r0(1) by (auto simp: alerts_ok_def dest: distinct_map_eq)
  define r1 where "r1 = r0\<lparr>al_severity := sev, al_details := det, al_updated := now\<rparr>"
  have ids: "map al_id (upd_where (\<lambda>x. al_id x = al_id r0) (\<lambda>x. r1) (mn_alerts m)) = map al_id (mn_alerts m)"
    by (rule map_upd_where) (simp add: r1_def)
  have "alerts_ok (mn_seq m) (upd_where (\<lambda>x. al_id x = al_id r0) (\<lambda>x. r1) (mn_alerts m))"
    using assms(1) r0
    unfolding alerts_ok_def ids by (auto simp: ball_upd_where r1_def dest: same intro!: at_most_one_upd)
  with assms Some show ?thesis
    by (auto simp: open_or_update_def Let_def r1_def split: if_splits)
qed

lemma evaluate_alerts_ok:
  assumes "alerts_ok (mn_seq m) (mn_alerts m)" and "evaluate_alerts now m a ct st det = (r, m')"
  shows "alerts_ok (mn_seq m') (mn_alerts m') \<and> mn_seq m \<le> mn_seq m' \<and> mn_proofs m' = mn_proofs m"
proof -
  have res: "alerts_ok (mn_seq (resolve_alert now m a ty)) (mn_alerts (resolve_alert now m a ty)) \<and>
      mn_seq m \<le> mn_seq (resolve_alert now m a ty) \<and> mn_proofs (resolve_alert now m a ty) = mn_proofs m" for ty
    using resolve_alert_ok [OF assms(1), of now a ty] by (simp add: resolve_alert_def)
  show ?thesis
    using assms res
    by (cases ct)
      (auto simp: evaluate_alerts_def evaluate_down_alert_def evaluate_ssl_alert_def Let_def
        evaluate_headers_alert_def evaluate_email_alert_def
        dest: open_or_update_ok [OF assms(1)] split: list.splits if_splits prod.splits option.splits)
qed

lemma simulate_ok:
  assumes "mon_ok m" and "simulate_check_result now m i ct st det = (r, m')"
  shows "mon_ok m'"
proof -
  obtain al m1 where ev: "evaluate_alerts now (m\<lparr>mn_checks :=
      \<lparr>ck_asset = i, ck_type = ct, ck_status = st, ck_details = det, ck_at = now\<rparr> # mn_checks m\<rparr>) i ct st det = (al, m1)"
    by fastforce
  from assms(2) ev have "m' = m1" by (auto simp: simulate_check_result_def Let_def)
  with evaluate_alerts_ok [OF _ ev] assms(1) show ?thesis
    by (force simp: mon_ok_def proofs_ok_def)
qed

lemma send_keeps [simp]:
  "pr_id (send_ownership_email now s p) = pr_id p" "pr_asset (send_ownership_email now s p) = pr_asset p"
  "pr_method (send_ownership_email now s p) = pr_method p" "pr_token (send_ownership_email now s p) = pr_token p"
  "pr_recipient (send_ownership_email now s p) = pr_recipient p"
  "pr_status p = Proof_pending \<Longrightarrow> pr_status (send_ownership_email now s p) \<noteq> Proof_verified"
  by (simp_all add: send_ownership_email_def)

lemma start_shape:
  assumes "start_ownership_proof now m a meth recipient token sent = Inr (q, m2)"
  obtains k domain l where "asset_domain a = Some domain" "\<not> is_ownership_proven m (at_id a)"
    "pr_id q = mn_seq m + 1" "pr_asset q = at_id a" "pr_method q = k" "pr_status q \<noteq> Proof_verified"
    "pr_token q = token"
    "k = Email_code \<longrightarrow> l \<in> set OWNERSHIP_EMAIL_LOCAL_PARTS \<and> pr_recipient q = l @ ''@'' @ domain"
    "m2 = m\<lparr>mn_seq := mn_seq m + 1, mn_proofs := q # filter (\<lambda>r. \<not> (pr_asset r = at_id a \<and> pr_method r = k \<and>
       pr_status r \<in> {Proof_pending, Proof_failed})) (mn_proofs m),
       mn_mails := (if k = Email_code \<and> sent then (pr_id q, pr_recipient q, token) # mn_mails m else mn_mails m)\<rparr>"
proof (cases "method_of meth")
  case None
  with assms show thesis by (simp add: start_ownership_proof_def)
next
  case (Some k)
  with assms obtain domain where "\<not> is_ownership_proven m (at_id a)" "asset_domain a = Some domain"
    by (auto simp: start_ownership_proof_def split: if_splits option.splits)
  with assms Some that [of domain k "lower (strip (before (CHR ''@'') recipient))"] show thesis
    by (auto simp: start_ownership_proof_def Let_def split: if_splits)
qed

lemma start_ok:
  assumes "mon_ok m" and "start_ownership_proof now m a meth recipient token sent = Inr (p, m')"
  shows "mon_ok m'"
proof -
  from assms(2) obtain k where fresh: "\<not> is_ownership_proven m (at_id a)"
    and k: "pr_id p = mn_seq m + 1" "pr_asset p = at_id a" "pr_method p = k" "pr_status p \<noteq> Proof_verified"
    and m': "m' = m\<lparr>mn_seq := mn_seq m + 1, mn_proofs := p # filter (\<lambda>r. \<not> (pr_asset r = at_id a \<and> pr_method r = k \<and>
       pr_status r \<in> {Proof_pending, Proof_failed})) (mn_proofs m),
       mn_mails := (if k = Email_code \<and> sent then (pr_id p, pr_recipient p, token) # mn_mails m else mn_mails m)\<rparr>"
    by (rule start_shape)
  define kept where "kept = filter (\<lambda>r. \<not> (pr_asset r = at_id a \<and> pr_method r = k \<and>
       pr_status r \<in> {Proof_pending, Proof_failed})) (mn_proofs m)"
  have "(pr_asset p, pr_method p) \<notin> (\<lambda>p. (pr_asset p, pr_method p)) ` set kept"
    using fresh k by (auto simp: kept_def is_ownership_proven_def) (metis proof_status.exhaust)
  moreover have "proofs_ok (mn_seq m) kept"
    using assms(1) by (auto simp: mon_ok_def proofs_ok_def kept_def distinct_map_filter at_most_one_filter)
  ultimately have "proofs_ok (mn_seq m + 1) (p # kept)"
    using k by (fastforce simp: proofs_ok_def intro!: at_most_one_Cons)
  with assms(1) m' show ?thesis
    by (auto simp: mon_ok_def kept_def intro: alerts_ok_mono)
qed

lemma verify_ok:
  assumes "mon_ok m" and "p \<in> set (mn_proofs m)" and "verify_ownership_proof net now m a p submitted = Inr (p', m')"
  shows "mon_ok m'"
proof -
  have sv: "save_proof p' m = Inr (p', m')" and p': "pr_id p' = pr_id p" "pr_asset p' = pr_asset p" "pr_method p' = pr_method p"
    using assms(3)
    by (auto simp: verify_ownership_proof_def save_proof_def Let_def split: option.splits sum.splits if_splits prod.splits)
  from sv have m': "m' = m\<lparr>mn_proofs := upd_where (\<lambda>r. pr_id r = pr_id p') (\<lambda>r. p') (mn_proofs m)\<rparr>"
    and one: "pr_status p' = Proof_verified \<Longrightarrow>
      \<not> (\<exists>r \<in> set (mn_proofs m). pr_asset r = pr_asset p' \<and> pr_id r \<noteq> pr_id p' \<and> pr_status r = Proof_verified)"
    by (auto simp: save_proof_def split: if_splits)
  have ok: "proofs_ok (mn_seq m) (mn_proofs m)" using assms(1) by (simp add: mon_ok_def)
  have same: "r = p" if "r \<in> set (mn_proofs m)" "pr_id r = pr_id p" for r
    using ok that assms(2) by (auto simp: proofs_ok_def dest: distinct_map_eq)
  have keys: "map (\<lambda>p. (pr_asset p, pr_method p)) (upd_where (\<lambda>r. pr_id r = pr_id p) (\<lambda>r. p') (mn_proofs m)) =
      map (\<lambda>p. (pr_asset p, pr_method p)) (mn_proofs m)"
    by (auto simp: upd_where_def p' dest: same)
  have "at_most_one (\<lambda>p. pr_status p = Proof_verified) pr_asset
      (upd_where (\<lambda>r. pr_id r = pr_id p) (\<lambda>r. p') (mn_proofs m))"
    using ok one p' by (intro at_most_one_put) (auto simp: proofs_ok_def)
  moreover have "map pr_id (upd_where (\<lambda>r. pr_id r = pr_id p) (\<lambda>r. p') (mn_proofs m)) = map pr_id (mn_proofs m)"
    by (rule map_upd_where) (simp add: p')
  ultimately have "proofs_ok (mn_seq m) (upd_where (\<lambda>r. pr_id r = pr_id p) (\<lambda>r. p') (mn_proofs m))"
    using ok keys p' assms(2) by (simp add: proofs_ok_def ball_upd_where)
  with assms(1) show ?thesis by (simp add: mon_ok_def m' p')
qed

lemma mon_step_ok: "mon_step m m' \<Longrightarrow> mon_ok m \<Longrightarrow> mon_ok m'"
proof (induction rule: mon_step.induct)
  case (step_create now m tenant user ty v confirmed ip agent a m')
  then show ?case
    by (auto simp: create_asset_def record_ownership_attestation_def Let_def mon_ok_def
        intro: alerts_ok_mono proofs_ok_mono split: if_splits)
next
  case (step_activity m a active a' m')
  then show ?case by (auto simp: set_asset_active_def mon_ok_def)
next
  case (step_delete m a)
  then show ?case
    by (auto simp: delete_asset_def mon_ok_def alerts_ok_def proofs_ok_def distinct_map_filter
        at_most_one_filter)
next
  case (step_start a m now meth recipient token sent p m')
  then show ?case by (blast intro: start_ok)
next
  case (step_verify p m a net now submitted p' m')
  then show ?case by (blast intro: verify_ok)
next
  case (step_check net now m a ct r m')
  then show ?case
    by (auto simp: run_check_def dest: simulate_ok split: sum.splits prod.splits)
next
  case (step_simulate now m i ct st det r m')
  then show ?case by (blast intro: simulate_ok)
next
  case (step_alert now m i ty sev det r m')
  then obtain c m1 where "open_or_update now m i ty sev det = ((r, c), m1)" and "m' = m1"
    by (auto simp: open_or_update_alert_def split: prod.splits)
  with open_or_update_ok [of m now i ty sev det "(r, c)" m1] step_alert(2) show ?case
    by (auto simp: mon_ok_def proofs_ok_def)
next
  case (step_heartbeat m now)
  then show ?case by (simp add: record_heartbeat_def mon_ok_def)
qed

lemma mon_run_ok: "mon_step\<^sup>*\<^sup>* empty_mon m \<Longrightarrow> mon_ok m"
proof (induction rule: rtranclp_induct)
  case base
  show ?case by (simp add: empty_mon_def mon_ok_def alerts_ok_def proofs_ok_def)
next
  case (step m m')
  then show ?case by (blast intro: mon_step_ok)
qed

section \<open>The mails of the proofs\<close>

text \<open>One of the five generic addresses of the domain of an asset.\<close>

definition generic_address :: "asset \<Rightarrow> string \<Rightarrow> bool" where
  "generic_address a r =
     (\<exists>l domain. l \<in> {''admin'', ''administrator'', ''hostmaster'', ''postmaster'', ''webmaster''} \<and>
        asset_domain a = Some domain \<and> r = l @ ''@'' @ domain)"

definition proof_mail :: "ownership_proof \<Rightarrow> int \<times> string \<times> string" where
  "proof_mail p = (pr_id p, pr_recipient p, pr_token p)"

text \<open>
  An e-mail proof is addressed to a generic address of its own asset, and a mail that carries the number
  of a proof carries the code and the address of that proof.
\<close>

definition mails_ok :: "mon \<Rightarrow> bool" where
  "mails_ok m =
     (distinct (map at_id (mn_assets m)) \<and> (\<forall>a \<in> set (mn_assets m). at_id a \<le> mn_seq m) \<and>
      (\<forall>p \<in> set (mn_proofs m). pr_method p = Email_code \<longrightarrow>
         (\<forall>a \<in> set (mn_assets m). at_id a = pr_asset p \<longrightarrow> generic_address a (pr_recipient p))) \<and>
      (\<forall>p \<in> set (mn_proofs m). pr_asset p \<le> mn_seq m) \<and>
      (\<forall>x \<in> set (mn_mails m). fst x \<le> mn_seq m \<and> (\<forall>p \<in> set (mn_proofs m). pr_id p = fst x \<longrightarrow> x = proof_mail p)))"

definition same_mails :: "mon \<Rightarrow> mon \<Rightarrow> bool" where
  "same_mails m m' =
     (mn_assets m' = mn_assets m \<and> mn_proofs m' = mn_proofs m \<and> mn_mails m' = mn_mails m \<and> mn_seq m \<le> mn_seq m')"

lemma same_mails_ok: "same_mails m m' \<Longrightarrow> mails_ok m \<Longrightarrow> mails_ok m'"
  by (auto simp: same_mails_def mails_ok_def intro: order_trans)

lemma open_or_update_mails: "open_or_update now m a ty sev det = (r, m') \<Longrightarrow> same_mails m m'"
  by (auto simp: open_or_update_def same_mails_def Let_def split: option.splits if_splits)

lemma evaluate_alerts_mails: "evaluate_alerts now m a ct st det = (r, m') \<Longrightarrow> same_mails m m'"
proof -
  have "same_mails m (resolve_alert now m a ty)" "same_mails m m" for ty
    by (simp_all add: same_mails_def resolve_alert_def)
  then show "evaluate_alerts now m a ct st det = (r, m') \<Longrightarrow> same_mails m m'"
    by (cases ct)
      (auto simp: evaluate_alerts_def evaluate_down_alert_def evaluate_ssl_alert_def Let_def
        evaluate_headers_alert_def evaluate_email_alert_def
        dest: open_or_update_mails split: list.splits if_splits prod.splits option.splits)
qed

lemma simulate_mails: "simulate_check_result now m i ct st det = (r, m') \<Longrightarrow> same_mails m m'"
  using evaluate_alerts_mails [of now "m\<lparr>mn_checks := \<lparr>ck_asset = i, ck_type = ct, ck_status = st, ck_details = det,
      ck_at = now\<rparr> # mn_checks m\<rparr>" i ct st det]
  by (fastforce simp: simulate_check_result_def Let_def same_mails_def split: prod.splits)

lemma generic_address_active [simp]: "generic_address (a\<lparr>at_active := b\<rparr>) r = generic_address a r"
proof -
  have "asset_domain (a\<lparr>at_active := b\<rparr>) = asset_domain a"
    by (simp add: asset_domain_def split: option.split)
  then show ?thesis by (simp add: generic_address_def)
qed

lemma start_mails:
  assumes "mails_ok m" and "mon_ok m" and "a \<in> set (mn_assets m)"
    and "start_ownership_proof now m a meth recipient token sent = Inr (q, m2)"
  shows "mails_ok m2"
proof -
  from assms(4) obtain k domain l where q: "asset_domain a = Some domain" "pr_id q = mn_seq m + 1"
    "pr_asset q = at_id a" "pr_method q = k" "pr_token q = token"
    "k = Email_code \<longrightarrow> l \<in> set OWNERSHIP_EMAIL_LOCAL_PARTS \<and> pr_recipient q = l @ ''@'' @ domain"
    and m2: "m2 = m\<lparr>mn_seq := mn_seq m + 1, mn_proofs := q # filter (\<lambda>r. \<not> (pr_asset r = at_id a \<and> pr_method r = k \<and>
       pr_status r \<in> {Proof_pending, Proof_failed})) (mn_proofs m),
       mn_mails := (if k = Email_code \<and> sent then (pr_id q, pr_recipient q, token) # mn_mails m else mn_mails m)\<rparr>"
    by (rule start_shape)
  have ids: "pr_id p \<le> mn_seq m" if "p \<in> set (mn_proofs m)" for p
    using assms(2) that by (auto simp: mon_ok_def proofs_ok_def)
  have own: "b = a" if "b \<in> set (mn_assets m)" "at_id b = at_id a" for b
    using assms(1,3) that by (auto simp: mails_ok_def dest: distinct_map_eq)
  have gen: "generic_address a (pr_recipient q)" if "k = Email_code"
    using q(1,6) that by (auto simp: generic_address_def OWNERSHIP_EMAIL_LOCAL_PARTS_def)
  have seq: "mn_seq m2 = mn_seq m + 1" and same: "mn_assets m2 = mn_assets m"
    and rows: "set (mn_proofs m2) \<subseteq> insert q (set (mn_proofs m))"
    and sent: "set (mn_mails m2) \<subseteq> insert (proof_mail q) (set (mn_mails m))"
    using q(5) by (auto simp: m2 proof_mail_def)
  have old: "fst x \<le> mn_seq m" "\<And>p. p \<in> set (mn_proofs m) \<Longrightarrow> pr_id p = fst x \<Longrightarrow> x = proof_mail p"
    if "x \<in> set (mn_mails m)" for x using assms(1) that by (auto simp: mails_ok_def)
  have new: "fst (proof_mail q) = mn_seq m + 1" by (simp add: proof_mail_def q(2))
  show ?thesis
    unfolding mails_ok_def seq same
  proof (intro conjI ballI impI)
    show "distinct (map at_id (mn_assets m))" using assms(1) by (simp add: mails_ok_def)
    show "at_id b \<le> mn_seq m + 1" if "b \<in> set (mn_assets m)" for b
      using assms(1) that by (auto simp: mails_ok_def)
    show "generic_address b (pr_recipient p)"
      if "p \<in> set (mn_proofs m2)" "pr_method p = Email_code" "b \<in> set (mn_assets m)" "at_id b = pr_asset p" for p b
    proof (cases "p = q")
      case True
      with that own [of b] gen q(3,4) show ?thesis by simp
    next
      case False
      with that rows assms(1) show ?thesis by (auto simp: mails_ok_def)
    qed
    show "pr_asset p \<le> mn_seq m + 1" if "p \<in> set (mn_proofs m2)" for p
      using subsetD [OF rows that] assms(1,3) q(3) by (fastforce simp: mails_ok_def)
    show "fst x \<le> mn_seq m + 1" if "x \<in> set (mn_mails m2)" for x
      using subsetD [OF sent that] old(1) [of x] new by (auto simp del: prod.collapse)
    show "x = proof_mail p" if "x \<in> set (mn_mails m2)" "p \<in> set (mn_proofs m2)" "pr_id p = fst x" for x p
      using that(3) subsetD [OF sent that(1)] subsetD [OF rows that(2)] old [of x] ids [of p] new q(2) by auto
  qed
qed

lemma verify_mails:
  assumes "mails_ok m" and "p \<in> set (mn_proofs m)" and "verify_ownership_proof net now m a p submitted = Inr (p', m')"
  shows "mails_ok m'"
proof -
  have sv: "save_proof p' m = Inr (p', m')" and p': "pr_id p' = pr_id p" "pr_asset p' = pr_asset p"
      "pr_method p' = pr_method p" "pr_recipient p' = pr_recipient p" "pr_token p' = pr_token p"
    using assms(3)
    by (auto simp: verify_ownership_proof_def save_proof_def Let_def split: option.splits sum.splits if_splits prod.splits)
  from sv have "m' = m\<lparr>mn_proofs := upd_where (\<lambda>r. pr_id r = pr_id p') (\<lambda>r. p') (mn_proofs m)\<rparr>"
    by (auto simp: save_proof_def split: if_splits)
  with assms(1,2) p' show ?thesis by (auto simp: mails_ok_def ball_upd_where proof_mail_def)
qed

lemma mails_step: "mon_step m m' \<Longrightarrow> mon_ok m \<Longrightarrow> mails_ok m \<Longrightarrow> mails_ok m'"
proof (induction rule: mon_step.induct)
  case (step_create now m tenant user ty v confirmed ip agent a m')
  then show ?case
    by (fastforce simp: create_asset_def record_ownership_attestation_def Let_def mails_ok_def split: if_splits)
next
  case (step_activity m a active a' m')
  then have "mn_assets m' = upd_where (\<lambda>r. at_id r = at_id a) (\<lambda>r. r\<lparr>at_active := active\<rparr>) (mn_assets m)"
    and "mn_proofs m' = mn_proofs m" "mn_mails m' = mn_mails m" "mn_seq m' = mn_seq m"
    by (auto simp: set_asset_active_def)
  with step_activity(2,3) show ?case by (auto simp: mails_ok_def ball_upd_where map_upd_where)
next
  case (step_delete m a)
  then show ?case by (auto simp: delete_asset_def mails_ok_def distinct_map_filter)
next
  case (step_check net now m a ct r m')
  then show ?case
    by (auto simp: run_check_def intro: same_mails_ok dest: simulate_mails split: sum.splits prod.splits)
next
  case (step_alert now m i ty sev det r m')
  then obtain c m1 where "open_or_update now m i ty sev det = ((r, c), m1)" and "m' = m1"
    by (auto simp: open_or_update_alert_def split: prod.splits)
  with step_alert(3) open_or_update_mails same_mails_ok show ?case by blast
next
  case (step_heartbeat m now)
  then show ?case by (simp add: record_heartbeat_def mails_ok_def)
qed (blast intro: start_mails verify_mails same_mails_ok dest: simulate_mails)+

lemma mon_run_mails: "mon_step\<^sup>*\<^sup>* empty_mon m \<Longrightarrow> mails_ok m"
proof (induction rule: rtranclp_induct)
  case base
  show ?case by (simp add: empty_mon_def mails_ok_def)
next
  case (step m m')
  then show ?case by (blast intro: mails_step mon_run_ok)
qed

section \<open>The alerts a series of checks leaves\<close>

text \<open>A series of results, oldest first, each of an asset and a kind of check.\<close>

record check_event =
  ev_now :: time
  ev_asset :: int
  ev_type :: check_type
  ev_status :: check_status
  ev_details :: details

definition after_event :: "mon \<Rightarrow> check_event \<Rightarrow> mon" where
  "after_event m e = snd (simulate_check_result (ev_now e) m (ev_asset e) (ev_type e) (ev_status e) (ev_details e))"

definition feed :: "check_event list \<Rightarrow> mon \<Rightarrow> mon" where
  "feed es m = foldl after_event m es"

definition statuses :: "int \<Rightarrow> check_event list \<Rightarrow> check_status list" where
  "statuses a es = map ev_status (filter (\<lambda>e. ev_asset e = a \<and> ev_type e = Http_uptime) es)"

definition days_seen :: "int \<Rightarrow> check_event list \<Rightarrow> int list" where
  "days_seen a es =
     List.map_filter (\<lambda>e. if ev_asset e = a \<and> ev_type e = Ssl_certificate then de_days_left (ev_details e) else None) es"

lemma feed_Nil [simp]: "feed [] m = m"
  and feed_snoc [simp]: "feed (es @ [e]) m = after_event (feed es m) e"
  by (simp_all add: feed_def)

lemma after_event_ok: "mon_ok m \<Longrightarrow> mon_ok (after_event m e)"
  unfolding after_event_def by (metis prod.collapse simulate_ok)

lemma feed_ok: "mon_ok m \<Longrightarrow> mon_ok (feed es m)"
  by (induction es rule: rev_induct) (auto intro: after_event_ok)

text \<open>What each kind of check leaves of the alerts of other kinds and assets.\<close>

lemma find_put:
  "find q rs = Some r0 \<Longrightarrow> distinct (map f rs) \<Longrightarrow> q new \<Longrightarrow>
   find q (upd_where (\<lambda>x. f x = f r0) (\<lambda>x. new) rs) = Some new"
  by (induction rs) (auto dest!: find_SomeD simp: image_iff split: if_splits)

lemma find_upd_other:
  "(\<And>r. r \<in> set rs \<Longrightarrow> p r \<Longrightarrow> \<not> q r) \<Longrightarrow> (\<And>r. r \<in> set rs \<Longrightarrow> p r \<Longrightarrow> \<not> q (f r)) \<Longrightarrow> find q (upd_where p f rs) = find q rs"
  by (induction rs) auto

lemma resolve_other [frame]:
  "(i, ty) \<noteq> (a, ty') \<Longrightarrow> open_alert (resolve_alert now m i ty) a ty' = open_alert m a ty'"
  unfolding open_alert_def resolve_alert_def by (auto intro!: find_upd_other simp: close_alert_def)

lemma resolve_same: "open_alert (resolve_alert now m a ty) a ty = None"
  using alert_rows.shut_none [of _ now "(a, ty)" "mn_alerts m"]
  unfolding open_alert_def find_None_iff resolve_alert_shut by blast

lemma open_or_update_result:
  assumes "mon_ok m" and "open_or_update now m i ty sev det = ((r, c), m')"
  shows "al_open r" "al_asset r = i" "al_type r = ty" "al_severity r = sev" "al_details r = det"
proof -
  have "al_open r \<and> al_asset r = i \<and> al_type r = ty \<and> al_severity r = sev \<and> al_details r = det"
  proof (cases "open_alert m i ty")
    case None
    with assms(2) show ?thesis by (auto simp: open_or_update_def Let_def)
  next
    case (Some r0)
    with assms(2) open_alertD [OF Some] show ?thesis
      by (cases "al_severity r0 \<noteq> sev \<or> al_details r0 \<noteq> det") (auto simp: open_or_update_def Let_def)
  qed
  then show "al_open r" "al_asset r = i" "al_type r = ty" "al_severity r = sev" "al_details r = det"
    by simp_all
qed

lemma open_or_update_open:
  assumes "mon_ok m" and "open_or_update now m i ty sev det = ((r, c), m')"
  shows "open_alert m' a ty' = (if (a, ty') = (i, ty) then Some r else open_alert m a ty')"
proof (cases "open_alert m i ty")
  case None
  with assms(2) show ?thesis by (auto simp: open_or_update_def Let_def open_alert_def)
next
  case (Some r0)
  have ok: "distinct (map al_id (mn_alerts m))" using assms(1) by (simp add: mon_ok_def alerts_ok_def)
  from open_alertD [OF Some] have r0: "r0 \<in> set (mn_alerts m)" "al_open r0" "al_asset r0 = i" "al_type r0 = ty"
    by simp_all
  show ?thesis
  proof (cases c)
    case False
    with assms(2) Some show ?thesis by (auto simp: open_or_update_def Let_def split: if_splits)
  next
    case True
    with assms(2) Some have m': "mn_alerts m' = upd_where (\<lambda>x. al_id x = al_id r0) (\<lambda>x. r) (mn_alerts m)"
      by (auto simp: open_or_update_def Let_def split: if_splits)
    show ?thesis
    proof (cases "(a, ty') = (i, ty)")
      case True
      then show ?thesis
        using find_put [OF Some [unfolded open_alert_def] ok] open_or_update_result [OF assms]
        by (simp add: open_alert_def m')
    next
      case False
      then have "open_alert m' a ty' = open_alert m a ty'"
        unfolding open_alert_def m' using r0 open_or_update_result [OF assms] distinct_map_eq [OF ok]
        by (intro find_upd_other) (blast, auto)
      with False show ?thesis by (simp only: if_False)
    qed
  qed
qed

lemma checks_frame [frame]:
  "mn_checks (resolve_alert now m i ty) = mn_checks m"
  "open_or_update now m i ty sev det = (r, m') \<Longrightarrow> mn_checks m' = mn_checks m"
  by (auto simp: resolve_alert_def open_or_update_def Let_def split: option.splits if_splits)

lemma evaluate_checks: "evaluate_alerts now m i ct st det = (r, m') \<Longrightarrow> mn_checks m' = mn_checks m"
  by (cases ct)
    (auto simp: evaluate_alerts_def evaluate_down_alert_def evaluate_ssl_alert_def Let_def
      evaluate_headers_alert_def evaluate_email_alert_def frame
      split: list.splits if_splits prod.splits option.splits)

lemma after_event_checks:
  "mn_checks (after_event m e) =
     \<lparr>ck_asset = ev_asset e, ck_type = ev_type e, ck_status = ev_status e, ck_details = ev_details e,
      ck_at = ev_now e\<rparr> # mn_checks m"
  by (auto simp: after_event_def simulate_check_result_def Let_def dest: evaluate_checks split: prod.splits)

lemma feed_statuses:
  "map ck_status (checks_of (feed es m) a Http_uptime) = rev (statuses a es) @ map ck_status (checks_of m a Http_uptime)"
  by (induction es rule: rev_induct) (auto simp: checks_of_def statuses_def after_event_checks)

fun alert_of :: "check_type \<Rightarrow> alert_type" where
  "alert_of Http_uptime = Down"
| "alert_of Ssl_certificate = Ssl_expiring"
| "alert_of Security_headers = Headers_missing"
| "alert_of Email_dns = Email_misconfigured"

lemma evaluate_other:
  assumes "mon_ok m" and "evaluate_alerts now m i ct st det = (r, m')" and "(i, alert_of ct) \<noteq> (a, ty)"
  shows "open_alert m' a ty = open_alert m a ty"
  using assms(2,3) open_or_update_open [OF assms(1), where a = a and ty' = ty]
  by (cases ct)
    (auto simp: evaluate_alerts_def evaluate_down_alert_def evaluate_ssl_alert_def Let_def
      evaluate_headers_alert_def evaluate_email_alert_def frame
      split: list.splits if_splits prod.splits option.splits)

text \<open>A site is down from three failures in a row on, until a success.\<close>

fun three_failures :: "check_status list \<Rightarrow> bool" where
  "three_failures (a # b # c # ss) =
     (a = Critical \<and> b = Critical \<and> c = Critical \<or> three_failures (b # c # ss))"
| "three_failures _ = False"

definition down_spec :: "check_status list \<Rightarrow> bool" where
  "down_spec newest_first = three_failures (takeWhile (\<lambda>s. s \<noteq> Ok) newest_first)"

lemma down_spec_Cons:
  "down_spec (s # ss) =
     (s \<noteq> Ok \<and> (length ss \<ge> 2 \<and> list_all (\<lambda>x. x = Critical) (take 3 (s # ss)) \<or> down_spec ss))"
proof (cases ss)
  case (Cons b bs)
  then show ?thesis by (cases bs) (auto simp: down_spec_def numeral_3_eq_3)
qed (simp add: down_spec_def)

lemma evaluate_alerts_pair:
  obtains r m' where "evaluate_alerts now m i ct st det = (r, m')"
  by fastforce

lemma after_event_eval:
  "after_event m e = snd (evaluate_alerts (ev_now e) (m\<lparr>mn_checks :=
     \<lparr>ck_asset = ev_asset e, ck_type = ev_type e, ck_status = ev_status e, ck_details = ev_details e,
      ck_at = ev_now e\<rparr> # mn_checks m\<rparr>) (ev_asset e) (ev_type e) (ev_status e) (ev_details e))"
  by (simp add: after_event_def simulate_check_result_def Let_def split: prod.splits)

lemma mon_ok_checks [simp]: "mon_ok (m\<lparr>mn_checks := cs\<rparr>) = mon_ok m"
  by (simp add: mon_ok_def)

lemma open_alert_checks [simp]: "open_alert (m\<lparr>mn_checks := cs\<rparr>) a ty = open_alert m a ty"
  by (simp add: open_alert_def)

lemma after_event_other:
  assumes "mon_ok m" and "(ev_asset e, alert_of (ev_type e)) \<noteq> (a, ty)"
  shows "open_alert (after_event m e) a ty = open_alert m a ty"
proof -
  let ?m = "m\<lparr>mn_checks := \<lparr>ck_asset = ev_asset e, ck_type = ev_type e, ck_status = ev_status e,
    ck_details = ev_details e, ck_at = ev_now e\<rparr> # mn_checks m\<rparr>"
  obtain r m' where "evaluate_alerts (ev_now e) ?m (ev_asset e) (ev_type e) (ev_status e) (ev_details e) = (r, m')"
    by (rule evaluate_alerts_pair)
  with evaluate_other [OF _ this assms(2)] assms(1) show ?thesis by (simp add: after_event_eval)
qed

lemma open_or_update_some:
  assumes "mon_ok m" and "open_or_update now m a ty sev det = ((r, c), m')"
  shows "open_alert m' a ty = Some r"
  using open_or_update_open [OF assms, of a ty] by simp

lemma after_event_down:
  assumes "mon_ok m" and "ev_asset e = a" "ev_type e = Http_uptime"
  shows "(open_alert (after_event m e) a Down \<noteq> None) =
     (let ss = map ck_status (checks_of m a Http_uptime)
      in ev_status e \<noteq> Ok \<and>
         (length ss \<ge> 2 \<and> list_all (\<lambda>x. x = Critical) (take 3 (ev_status e # ss)) \<or> open_alert m a Down \<noteq> None))"
proof -
  let ?c = "\<lparr>ck_asset = a, ck_type = Http_uptime, ck_status = ev_status e, ck_details = ev_details e, ck_at = ev_now e\<rparr>"
  let ?m = "m\<lparr>mn_checks := ?c # mn_checks m\<rparr>"
  have checks: "checks_of ?m a Http_uptime = ?c # checks_of m a Http_uptime" by (simp add: checks_of_def)
  have crit: "list_all (\<lambda>x. x = Critical) (map ck_status cs) = list_all (\<lambda>r. ck_status r = Critical) cs" for cs
    by (simp add: list_all_iff)
  obtain r c m1 where ou: "open_or_update (ev_now e) ?m a Down Sev_critical
      (Down_details CONSECUTIVE_FAILURES_FOR_DOWN (de_error (ev_details e))) = ((r, c), m1)"
    by (metis prod.collapse)
  from open_or_update_some [OF _ ou] assms(1) have m1: "open_alert m1 a Down = Some r" by simp
  have ev: "after_event m e = snd (evaluate_down_alert (ev_now e) ?m a)"
    using assms(2,3) by (simp add: after_event_eval evaluate_alerts_def)
  have len: "(length (take 3 (?c # checks_of m a Http_uptime)) < 3) = (length (checks_of m a Http_uptime) < 2)"
    by (auto simp: min_def)
  show ?thesis
  proof (cases "ev_status e = Ok")
    case True
    then show ?thesis
      unfolding ev evaluate_down_alert_def Let_def checks
      by (simp add: CONSECUTIVE_FAILURES_FOR_DOWN_def resolve_same)
  next
    case False
    then show ?thesis
      unfolding ev evaluate_down_alert_def Let_def checks CONSECUTIVE_FAILURES_FOR_DOWN_def len
      using ou m1 unfolding CONSECUTIVE_FAILURES_FOR_DOWN_def
      by (auto simp: take_map crit)
  qed
qed

lemma feed_down:
  assumes "mon_ok m" and "checks_of m a Http_uptime = []" and "open_alert m a Down = None"
  shows "(open_alert (feed es m) a Down \<noteq> None) = down_spec (rev (statuses a es))"
proof (induction es rule: rev_induct)
  case Nil
  with assms(3) show ?case by (simp add: statuses_def down_spec_def)
next
  case (snoc e es)
  have ok: "mon_ok (feed es m)" using assms(1) by (rule feed_ok)
  show ?case
  proof (cases "ev_asset e = a \<and> ev_type e = Http_uptime")
    case True
    then have "rev (statuses a (es @ [e])) = ev_status e # rev (statuses a es)" by (simp add: statuses_def)
    with after_event_down [OF ok, of e a] True snoc feed_statuses [of es m a] assms(2) show ?thesis
      by (simp add: down_spec_Cons Let_def)
  next
    case False
    then have "statuses a (es @ [e]) = statuses a es" by (auto simp: statuses_def)
    moreover have "(ev_asset e, alert_of (ev_type e)) \<noteq> (a, Down)"
      using False by (cases "ev_type e") auto
    ultimately show ?thesis using after_event_other [OF ok, of e a Down] snoc by simp
  qed
qed

text \<open>An expiring certificate, by the days left that were seen since it last had more than thirty.\<close>

definition ssl_severity :: "int \<Rightarrow> severity" where
  "ssl_severity d = (if d \<le> 7 then Sev_critical else Sev_warning)"

definition ssl_spec :: "int list \<Rightarrow> (severity \<times> int list) option" where
  "ssl_spec newest_first =
     (case takeWhile (\<lambda>d. d \<le> 30) newest_first of
        [] \<Rightarrow> None
      | d # ds \<Rightarrow> Some (ssl_severity (foldr min ds d), filter (\<lambda>t. foldr min ds d \<le> t) [7, 14, 30]))"

definition ssl_next :: "int \<Rightarrow> (severity \<times> int list) option \<Rightarrow> (severity \<times> int list) option" where
  "ssl_next d v =
     (if 30 < d then None
      else case v of
        None \<Rightarrow> Some (ssl_severity d, filter (\<lambda>t. d \<le> t) [7, 14, 30])
      | Some (s, ns) \<Rightarrow>
          if set (filter (\<lambda>t. d \<le> t) [7, 14, 30]) \<subseteq> set ns then v
          else Some (ssl_severity d, filter (\<lambda>t. t \<in> set ns \<or> d \<le> t) [7, 14, 30]))"

lemma foldr_min_swap: "foldr min (d # ds) (e :: int) = foldr min (e # ds) d"
proof -
  have "foldr min ds (min x y) = min x (foldr min ds y)" for x y :: int
    by (induction ds) (auto simp: min_def)
  from this [of d e] this [of e d] show ?thesis by (simp add: min.commute)
qed

lemma ssl_spec_Cons: "ssl_spec (d # ds) = ssl_next d (ssl_spec ds)"
proof (cases "takeWhile (\<lambda>d. d \<le> 30) ds")
  case Nil
  then show ?thesis by (simp add: ssl_spec_def ssl_next_def)
next
  case (Cons e es)
  define w where "w = foldr min es e"
  have "foldr min (e # es) d = min d w" using foldr_min_swap [of d es e] by (simp add: w_def)
  then show ?thesis
    by (auto simp: ssl_spec_def ssl_next_def Cons w_def [symmetric] ssl_severity_def min_def)
qed

definition ssl_view :: "alert \<Rightarrow> severity \<times> int list" where
  "ssl_view r = (al_severity r, notified_thresholds (al_details r))"

lemma after_event_ssl:
  assumes "mon_ok m" and "ev_asset e = a" "ev_type e = Ssl_certificate" and "de_days_left (ev_details e) = Some d"
    and sub: "\<And>r. open_alert m a Ssl_expiring = Some r \<Longrightarrow> set (notified_thresholds (al_details r)) \<subseteq> {7, 14, 30}"
  shows "map_option ssl_view (open_alert (after_event m e) a Ssl_expiring) =
     ssl_next d (map_option ssl_view (open_alert m a Ssl_expiring))"
proof -
  let ?c = "\<lparr>ck_asset = a, ck_type = Ssl_certificate, ck_status = ev_status e, ck_details = ev_details e, ck_at = ev_now e\<rparr>"
  let ?m = "m\<lparr>mn_checks := ?c # mn_checks m\<rparr>"
  define already where "already = (case open_alert m a Ssl_expiring of
      None \<Rightarrow> {} | Some r \<Rightarrow> set (notified_thresholds (al_details r)))"
  have al: "already \<subseteq> {7, 14, 30}" using sub by (auto simp: already_def split: option.splits)
  have thr: "set SSL_NOTIFY_THRESHOLDS = {7, 14, 30}" "Max {7, 14, 30 :: int} = 30" "Min {7, 14, 30 :: int} = 7"
    by (auto simp: SSL_NOTIFY_THRESHOLDS_def)
  have ev: "after_event m e = snd (evaluate_ssl_alert (ev_now e) ?m a (ev_details e))"
    using assms(2,3) by (simp add: after_event_eval evaluate_alerts_def)
  define new where "new = filter (\<lambda>t. t \<in> already \<or> d \<le> t) [7, 14, 30]"
  have "set new = already \<union> ({t \<in> {7, 14, 30}. d \<le> t} - already)" using al unfolding new_def by auto
  moreover have "sorted new" unfolding new_def by (rule sorted_wrt_filter) simp
  moreover have "distinct new" unfolding new_def by (rule distinct_filter) simp
  ultimately have srt: "sorted_list_of_set (already \<union> ({t \<in> {7, 14, 30}. d \<le> t} - already)) = new"
    using sorted_list_of_set.idem_if_sorted_distinct [of new] by simp
  have none: "({t \<in> {7, 14, 30}. d \<le> t} - already = {}) = (set (filter (\<lambda>t. d \<le> t) [7, 14, 30]) \<subseteq> already)"
    by auto
  show ?thesis
  proof (cases "30 < d")
    case True
    then show ?thesis
      unfolding ev evaluate_ssl_alert_def Let_def assms(4) thr
      by (simp add: resolve_same ssl_next_def)
  next
    case False
    obtain r c m1 where ou: "open_or_update (ev_now e) ?m a Ssl_expiring
        (if d \<le> 7 then Sev_critical else Sev_warning)
        (Ssl_details d (de_expires_at (ev_details e)) (new)) = ((r, c), m1)"
      by (metis prod.collapse)
    have m1: "open_alert m1 a Ssl_expiring = Some r"
      using open_or_update_some [OF _ ou] assms(1) by simp
    have r: "ssl_view r = (ssl_severity d, new)"
      using open_or_update_result [OF _ ou] assms(1)
      by (simp only: ssl_view_def ssl_severity_def notified_thresholds.simps mon_ok_checks)
    have "map_option ssl_view (open_alert (after_event m e) a Ssl_expiring) =
        (if set (filter (\<lambda>t. d \<le> t) [7, 14, 30]) \<subseteq> already
         then map_option ssl_view (open_alert m a Ssl_expiring) else Some (ssl_view r))"
      using ou m1 False
      unfolding ev evaluate_ssl_alert_def Let_def assms(4) thr option.case open_alert_checks
        already_def [symmetric] srt none
      by (simp del: filter.simps)
    also have "\<dots> = ssl_next d (map_option ssl_view (open_alert m a Ssl_expiring))"
    proof (cases "open_alert m a Ssl_expiring")
      case None
      then have "already = {}" by (simp add: already_def)
      moreover have "\<not> set (filter (\<lambda>t. d \<le> t) [7, 14, 30]) \<subseteq> {}" using False by auto
      ultimately show ?thesis using None False r
        by (simp only: ssl_next_def if_False option.map option.case new_def empty_iff simp_thms)
    next
      case (Some r0)
      then have "already = set (notified_thresholds (al_details r0))" by (simp add: already_def)
      with Some False r show ?thesis
        by (simp only: ssl_next_def if_False option.map option.case ssl_view_def prod.case new_def)
    qed
    finally show ?thesis .
  qed
qed

lemma ssl_spec_notified: "ssl_spec ds = Some v \<Longrightarrow> set (snd v) \<subseteq> {7, 14, 30}"
  by (auto simp: ssl_spec_def split: list.splits if_splits)

lemma feed_ssl:
  assumes "mon_ok m" and "open_alert m a Ssl_expiring = None"
  shows "map_option ssl_view (open_alert (feed es m) a Ssl_expiring) = ssl_spec (rev (days_seen a es))"
proof (induction es rule: rev_induct)
  case Nil
  with assms(2) show ?case by (simp add: days_seen_def ssl_spec_def List.map_filter_def)
next
  case (snoc e es)
  have ok: "mon_ok (feed es m)" using assms(1) by (rule feed_ok)
  have days: "days_seen a (es @ [e]) = days_seen a es @ days_seen a [e]"
    by (simp add: days_seen_def List.map_filter_def)
  show ?case
  proof (cases "ev_asset e = a \<and> ev_type e = Ssl_certificate")
    case False
    then have "days_seen a [e] = []" by (auto simp: days_seen_def List.map_filter_def)
    moreover have "(ev_asset e, alert_of (ev_type e)) \<noteq> (a, Ssl_expiring)"
      using False by (cases "ev_type e") auto
    ultimately show ?thesis using after_event_other [OF ok, of e a Ssl_expiring] snoc days by simp
  next
    case True
    show ?thesis
    proof (cases "de_days_left (ev_details e)")
      case None
      then have "days_seen a [e] = []" by (auto simp: days_seen_def List.map_filter_def)
      moreover have "open_alert (after_event (feed es m) e) a Ssl_expiring = open_alert (feed es m) a Ssl_expiring"
        using True None by (simp add: after_event_eval evaluate_alerts_def evaluate_ssl_alert_def)
      ultimately show ?thesis using snoc days by simp
    next
      case (Some d)
      with True have "days_seen a [e] = [d]" by (simp add: days_seen_def List.map_filter_def)
      moreover have "set (notified_thresholds (al_details r)) \<subseteq> {7, 14, 30}"
        if "open_alert (feed es m) a Ssl_expiring = Some r" for r
        using snoc ssl_spec_notified [of "rev (days_seen a es)" "ssl_view r"] that by (simp add: ssl_view_def)
      ultimately show ?thesis
        using after_event_ssl [OF ok, of e a d] True Some snoc days by (simp add: ssl_spec_Cons)
    qed
  qed
qed

section \<open>What proves the ownership\<close>

definition controls :: "net \<Rightarrow> asset \<Rightarrow> ownership_proof \<Rightarrow> string \<Rightarrow> bool" where
  "controls net a p submitted =
     (case asset_domain a of
        None \<Rightarrow> False
      | Some domain \<Rightarrow>
          (case pr_method p of
             Dns_txt \<Rightarrow>
               (\<exists>records. txt_strings (n_txt net domain) = Inr records \<and>
                  ''rssi-verification='' @ pr_token p \<in> strip ` set records)
           | Http_file \<Rightarrow>
               (\<exists>r. safe_get net (''https://'' @ domain @ ''/.well-known/rssi-verification.txt'') = Inr r \<and>
                  rp_status r = 200 \<and> contains (strip (take 4096 (rp_content r))) (pr_token p))
           | Email_code \<Rightarrow> strip submitted = pr_token p))"

lemma contains_refl: "contains s s"
proof -
  have "startswith s s" by (simp add: startswith_iff)
  then show ?thesis by (cases s) simp_all
qed

lemma check_proof_controls:
  assumes "asset_domain a = Some domain"
  shows "(\<exists>n. check_proof net domain p submitted = Some (Inr (True, n))) = controls net a p submitted"
  using assms contains_refl [of "pr_token p"]
  by (cases "pr_method p")
    (auto simp: check_proof_def controls_def verify_dns_txt_def verify_http_file_def expected_dns_record_def
      DNS_TXT_PREFIX_def HTTP_FILE_PATH_def MAX_FILE_BYTES_def Let_def
      split: sum.splits option.splits fetch_error.splits if_splits prod.splits)

section \<open>Properties\<close>

text \<open>
  The monitoring tables keep their uniqueness: whatever services ran since the start, an asset has
  at most one open alert of each type, at most one verified proof of ownership, and one proof, hence
  one valid token, per method.
\<close>

theorem monitoring_rows_unique:
  assumes "mon_step\<^sup>*\<^sup>* empty_mon m"
  shows "(\<forall>r \<in> set (mn_alerts m). \<forall>s \<in> set (mn_alerts m).
             al_open r \<and> al_open s \<and> al_asset r = al_asset s \<and> al_type r = al_type s \<longrightarrow> r = s) \<and>
    (\<forall>p \<in> set (mn_proofs m). \<forall>q \<in> set (mn_proofs m).
             pr_asset p = pr_asset q \<and> (pr_method p = pr_method q \<or>
               pr_status p = Proof_verified \<and> pr_status q = Proof_verified) \<longrightarrow> p = q)"
proof (rule conjI)
  from mon_run_ok [OF assms] have a: "at_most_one al_open (\<lambda>r. (al_asset r, al_type r)) (mn_alerts m)"
    and v: "at_most_one (\<lambda>p. pr_status p = Proof_verified) pr_asset (mn_proofs m)"
    and d: "distinct (map (\<lambda>p. (pr_asset p, pr_method p)) (mn_proofs m))"
    by (simp_all add: mon_ok_def alerts_ok_def proofs_ok_def)
  show "\<forall>r \<in> set (mn_alerts m). \<forall>s \<in> set (mn_alerts m).
      al_open r \<and> al_open s \<and> al_asset r = al_asset s \<and> al_type r = al_type s \<longrightarrow> r = s"
    using at_most_oneD [OF a] by simp
  show "\<forall>p \<in> set (mn_proofs m). \<forall>q \<in> set (mn_proofs m).
      pr_asset p = pr_asset q \<and> (pr_method p = pr_method q \<or>
        pr_status p = Proof_verified \<and> pr_status q = Proof_verified) \<longrightarrow> p = q"
    using at_most_oneD [OF v] distinct_map_eq [OF d] by blast
qed

definition demo_site :: asset where
  "demo_site = \<lparr>at_id = 1, at_tenant = 7, at_type = Website, at_value = ''http://a.fr'', at_active = True, at_created_by = None\<rparr>"

lemma demo_domain: "asset_domain demo_site = Some ''a.fr''"
  by code_simp

theorem monitoring_rows_unique_example:
  "\<exists>m. mon_step\<^sup>*\<^sup>* empty_mon m \<and> length (mn_alerts m) = 1 \<and>
     (\<forall>r \<in> set (mn_alerts m). \<forall>s \<in> set (mn_alerts m).
        al_open r \<and> al_open s \<and> al_asset r = al_asset s \<and> al_type r = al_type s \<longrightarrow> r = s)"
proof -
  let ?m = "snd (open_or_update_alert 5 empty_mon 1 Breach_compromise Sev_critical (Breach_details 1 [] [] []))"
  have "mon_step empty_mon ?m" by (rule step_alert) (rule prod.collapse [symmetric])
  then have run: "mon_step\<^sup>*\<^sup>* empty_mon ?m" by (rule r_into_rtranclp)
  moreover have "length (mn_alerts ?m) = 1"
    by (simp add: open_or_update_alert_def open_or_update_def open_alert_def empty_mon_def Let_def)
  ultimately show ?thesis using monitoring_rows_unique [OF run, THEN conjunct1] by blast
qed

text \<open>
  C13: A site is reported down exactly by three failures in a row: for every series of results, of all
  assets and kinds of check mixed, an asset has an open alert after it exactly when, since its last
  success, its availability failed three times in a row; results of other checks never count.
\<close>

theorem down_alert_refines:
  assumes "mon_ok m" and "checks_of m a Http_uptime = []" and "open_alert m a Down = None"
  shows "(open_alert (feed es m) a Down \<noteq> None) = down_spec (rev (statuses a es))"
  by (rule feed_down [OF assms])

definition failure :: "int \<Rightarrow> check_event" where
  "failure t = \<lparr>ev_now = t, ev_asset = 1, ev_type = Http_uptime, ev_status = Critical, ev_details = no_details\<rparr>"

theorem down_alert_refines_witness:
  "open_alert (feed [failure 1, failure 2] empty_mon) 1 Down = None \<and>
   open_alert (feed [failure 1, failure 2, failure 3] empty_mon) 1 Down \<noteq> None \<and>
   open_alert (feed [failure 1, failure 2, failure 3, (failure 4)\<lparr>ev_status := Ok\<rparr>, failure 5] empty_mon) 1 Down = None"
  using down_alert_refines [of empty_mon 1 "[failure 1, failure 2]"]
    down_alert_refines [of empty_mon 1 "[failure 1, failure 2, failure 3]"]
    down_alert_refines [of empty_mon 1 "[failure 1, failure 2, failure 3, (failure 4)\<lparr>ev_status := Ok\<rparr>, failure 5]"]
  by (simp add: failure_def statuses_def down_spec_def empty_mon_def mon_ok_def alerts_ok_def proofs_ok_def
      checks_of_def open_alert_def)

text \<open>
  An expiring certificate is announced once per threshold: after any series of results the open
  alert of an asset carries exactly the thresholds (30, 14, 7) the days left went below since they
  were last above thirty, and is critical exactly when seven was reached; it is open exactly when
  the days left were last at most thirty. In between nothing is withdrawn, so a certificate renewed
  for less than thirty days keeps the alert as it was.
\<close>

theorem ssl_alert_refines:
  assumes "mon_ok m" and "open_alert m a Ssl_expiring = None"
  shows "map_option ssl_view (open_alert (feed es m) a Ssl_expiring) = ssl_spec (rev (days_seen a es))"
  by (rule feed_ssl [OF assms])

definition ssl_result :: "int \<Rightarrow> check_event" where
  "ssl_result d = \<lparr>ev_now = 0, ev_asset = 1, ev_type = Ssl_certificate, ev_status = Warning,
     ev_details = no_details\<lparr>de_days_left := Some d\<rparr>\<rparr>"

theorem ssl_alert_refines_example:
  "map_option ssl_view (open_alert (feed [ssl_result 40, ssl_result 20, ssl_result 12, ssl_result 29] empty_mon) 1 Ssl_expiring) =
     Some (Sev_warning, [14, 30]) \<and>
   map_option ssl_view (open_alert (feed [ssl_result 3, ssl_result 25] empty_mon) 1 Ssl_expiring) =
     Some (Sev_critical, [7, 14, 30])"
  using ssl_alert_refines [of empty_mon 1 "[ssl_result 40, ssl_result 20, ssl_result 12, ssl_result 29]"]
    ssl_alert_refines [of empty_mon 1 "[ssl_result 3, ssl_result 25]"]
  by (simp add: ssl_result_def days_seen_def List.map_filter_def ssl_spec_def ssl_severity_def empty_mon_def
      mon_ok_def alerts_ok_def proofs_ok_def open_alert_def)

lemma verify_controls:
  assumes "verify_ownership_proof net now m a p submitted = Inr (p', m')"
  shows "(pr_status p' = Proof_verified) = controls net a p submitted"
proof -
  obtain domain where dom: "asset_domain a = Some domain"
    using assms by (auto simp: verify_ownership_proof_def split: option.splits)
  have "(pr_status p' = Proof_verified) = (\<exists>n. check_proof net domain p submitted = Some (Inr (True, n)))"
    using assms dom
    by (auto simp: verify_ownership_proof_def save_proof_def Let_def split: option.splits sum.splits if_splits prod.splits)
  with check_proof_controls [OF dom] show ?thesis by simp
qed

lemma verify_guard:
  assumes "verify_ownership_proof net now m a p submitted = Inr (p', m')" and "p \<in> set (mn_proofs m)"
    and "pr_asset p = at_id a"
  shows "(ensure_ownership_proven m' (at_id a) = Inr ()) =
      (controls net a p submitted \<or>
       (\<exists>q \<in> set (mn_proofs m). pr_id q \<noteq> pr_id p \<and> pr_asset q = at_id a \<and> pr_status q = Proof_verified))"
proof -
  have sv: "save_proof p' m = Inr (p', m')" and p': "pr_id p' = pr_id p" "pr_asset p' = pr_asset p"
    using assms(1)
    by (auto simp: verify_ownership_proof_def save_proof_def Let_def split: option.splits sum.splits if_splits prod.splits)
  from sv have "mn_proofs m' = upd_where (\<lambda>r. pr_id r = pr_id p) (\<lambda>r. p') (mn_proofs m)"
    by (auto simp: save_proof_def p' split: if_splits)
  then show ?thesis
    using assms(2,3) p' verify_controls [OF assms(1), symmetric]
    by (auto simp: ensure_ownership_proven_def is_ownership_proven_def bex_upd_where)
qed

text \<open>
  C14: Only control of the domain proves its ownership. Whatever the monitoring services did before, a
  verification ends as verified exactly when the DNS of the asset's domain publishes the record with the
  token, its web server serves the token at the fixed path, or the code of the proof was given back; for
  a code, that proof is addressed to one of the five generic addresses of the asset's domain and every
  mail sent for it went there and carried exactly the code given back. The guard of continuous monitoring
  passes afterwards exactly when that verification, or one already there, succeeded. And starting a
  proof, on any asset, proves nothing: it leaves the asset unproven, and sends at most one mail, with
  its token, to such a generic address.
\<close>

theorem ownership_needs_control:
  assumes "mon_step\<^sup>*\<^sup>* empty_mon m" and "a \<in> set (mn_assets m)"
  shows "(p \<in> set (mn_proofs m) \<and> pr_asset p = at_id a \<and>
          verify_ownership_proof net now m a p submitted = Inr (p', m') \<longrightarrow>
        ((pr_status p' = Proof_verified) = controls net a p submitted) \<and>
        (pr_status p' = Proof_verified \<and> pr_method p = Email_code \<longrightarrow>
           strip submitted = pr_token p \<and> generic_address a (pr_recipient p) \<and>
           (\<forall>x \<in> set (mn_mails m). fst x = pr_id p \<longrightarrow> x = (pr_id p, pr_recipient p, strip submitted))) \<and>
        ((ensure_ownership_proven m' (at_id a) = Inr ()) =
           (controls net a p submitted \<or>
            (\<exists>q \<in> set (mn_proofs m). pr_id q \<noteq> pr_id p \<and> pr_asset q = at_id a \<and> pr_status q = Proof_verified)))) \<and>
    (start_ownership_proof now2 m a meth recipient token sent = Inr (q, m2) \<longrightarrow>
        \<not> is_ownership_proven m2 (at_id a) \<and> pr_token q = token \<and>
        mn_mails m2 = (if pr_method q = Email_code \<and> sent then (pr_id q, pr_recipient q, token) # mn_mails m else mn_mails m) \<and>
        (pr_method q = Email_code \<longrightarrow> generic_address a (pr_recipient q)))"
proof (rule conjI; rule impI)
  assume v: "p \<in> set (mn_proofs m) \<and> pr_asset p = at_id a \<and>
    verify_ownership_proof net now m a p submitted = Inr (p', m')"
  then have s: "(pr_status p' = Proof_verified) = controls net a p submitted" using verify_controls by blast
  have code: "strip submitted = pr_token p" if "controls net a p submitted" "pr_method p = Email_code"
    using that by (auto simp: controls_def split: option.splits)
  from mon_run_mails [OF assms(1)] v assms(2)
  have gen: "pr_method p = Email_code \<Longrightarrow> generic_address a (pr_recipient p)"
    and mail: "\<And>x. x \<in> set (mn_mails m) \<Longrightarrow> fst x = pr_id p \<Longrightarrow> x = (pr_id p, pr_recipient p, pr_token p)"
    by (auto simp: mails_ok_def proof_mail_def)
  show "((pr_status p' = Proof_verified) = controls net a p submitted) \<and>
        (pr_status p' = Proof_verified \<and> pr_method p = Email_code \<longrightarrow>
           strip submitted = pr_token p \<and> generic_address a (pr_recipient p) \<and>
           (\<forall>x \<in> set (mn_mails m). fst x = pr_id p \<longrightarrow> x = (pr_id p, pr_recipient p, strip submitted))) \<and>
        ((ensure_ownership_proven m' (at_id a) = Inr ()) =
           (controls net a p submitted \<or>
            (\<exists>q \<in> set (mn_proofs m). pr_id q \<noteq> pr_id p \<and> pr_asset q = at_id a \<and> pr_status q = Proof_verified)))"
    using s code gen mail verify_guard [of net now m a p submitted p' m'] v by (intro conj3I) auto
next
  assume "start_ownership_proof now2 m a meth recipient token sent = Inr (q, m2)"
  then show "\<not> is_ownership_proven m2 (at_id a) \<and> pr_token q = token \<and>
        mn_mails m2 = (if pr_method q = Email_code \<and> sent then (pr_id q, pr_recipient q, token) # mn_mails m else mn_mails m) \<and>
        (pr_method q = Email_code \<longrightarrow> generic_address a (pr_recipient q))"
    by (rule start_shape)
      (auto simp: is_ownership_proven_def OWNERSHIP_EMAIL_LOCAL_PARTS_def generic_address_def)
qed

text \<open>A site declared, then a proof by e-mail started and its code given back.\<close>

lemma demo_email_run:
  "\<exists>m p. mon_step\<^sup>*\<^sup>* empty_mon m \<and> demo_site \<in> set (mn_assets m) \<and> p \<in> set (mn_proofs m) \<and>
     pr_asset p = at_id demo_site \<and> pr_method p = Email_code \<and> pr_token p = ''c0de'' \<and>
     mn_mails m = [(2, ''admin@a.fr'', ''c0de'')] \<and> mn_proofs m = [p]"
proof -
  obtain m1 where one: "create_asset 5 empty_mon 7 None Website ''http://a.fr'' True [] [] = Inr (demo_site, m1)"
    by (simp add: create_asset_def record_ownership_attestation_def empty_mon_def demo_site_def Let_def)
  then have m1: "mn_assets m1 = [demo_site]" "mn_proofs m1 = []" "mn_mails m1 = []" "mn_seq m1 = 1"
    by (auto simp: create_asset_def record_ownership_attestation_def empty_mon_def Let_def)
  have name: "lower (strip (before (CHR ''@'') ''Admin@x.fr'')) = ''admin''" by code_simp
  obtain p m2 where two: "start_ownership_proof 6 m1 demo_site ''email'' ''Admin@x.fr'' ''c0de'' True = Inr (p, m2)"
    and p: "mn_proofs m2 = [p]" "pr_asset p = at_id demo_site" "pr_method p = Email_code" "pr_token p = ''c0de''"
      "mn_mails m2 = [(2, ''admin@a.fr'', ''c0de'')]" "mn_assets m2 = [demo_site]"
    by (simp add: start_ownership_proof_def method_of_def is_ownership_proven_def demo_domain name
        OWNERSHIP_EMAIL_LOCAL_PARTS_def send_ownership_email_def m1 Let_def)
  have "mon_step\<^sup>*\<^sup>* empty_mon m2"
    using step_create [OF one] step_start [OF _ two] m1(1)
    by (metis converse_rtranclp_into_rtranclp list.set_intros(1) r_into_rtranclp)
  with p show ?thesis by (intro exI [of _ m2] exI [of _ p]) simp
qed

theorem ownership_needs_control_witness:
  "\<exists>m p p' m'. mon_step\<^sup>*\<^sup>* empty_mon m \<and> verify_ownership_proof demo_net 9 m demo_site p '' c0de '' = Inr (p', m') \<and>
     pr_status p' = Proof_verified \<and> ensure_ownership_proven m' 1 = Inr () \<and> generic_address demo_site (pr_recipient p)"
proof -
  obtain m p where run: "mon_step\<^sup>*\<^sup>* empty_mon m" "demo_site \<in> set (mn_assets m)"
    and p: "p \<in> set (mn_proofs m)" "pr_asset p = at_id demo_site" "pr_method p = Email_code" "pr_token p = ''c0de''"
      "mn_proofs m = [p]"
    using demo_email_run by blast
  have sp: "strip '' c0de '' = ''c0de''" by code_simp
  obtain p' m' where v: "verify_ownership_proof demo_net 9 m demo_site p '' c0de '' = Inr (p', m')"
    by (simp add: verify_ownership_proof_def demo_domain check_proof_def p sp save_proof_def Let_def)
  have "controls demo_net demo_site p '' c0de ''" by (simp add: controls_def demo_domain p sp)
  with ownership_needs_control [OF run, THEN conjunct1, rule_format, OF conjI [OF p(1) conjI [OF p(2) v]]] p(3)
  have "pr_status p' = Proof_verified" "ensure_ownership_proven m' (at_id demo_site) = Inr ()"
    "generic_address demo_site (pr_recipient p)" by simp_all
  with run(1) v show ?thesis by (auto simp: demo_site_def)
qed

text \<open>
  The regularisation screen loses assets it should keep: an asset it lists, with neither proof nor
  declaration, disappears from it as soon as a proof is started, however the proof ends, although
  its state is still the one to review.
\<close>

theorem review_screen_loses_started:
  assumes "a \<in> set (assets_needing_ownership_review m)"
    and "start_ownership_proof now m a meth recipient token sent = Inr (p, m')"
  shows "a \<in> set (mn_assets m') \<and> ownership_state m' (at_id a) = To_review \<and>
     a \<notin> set (assets_needing_ownership_review m')"
proof -
  from assms(1) have a: "a \<in> set (mn_assets m)" "\<not> has_ownership_attestation m (at_id a)"
    by (auto simp: assets_needing_ownership_review_def has_ownership_attestation_def)
  from assms(2) show ?thesis
    by (rule start_shape)
      (use a in \<open>auto simp: assets_needing_ownership_review_def ownership_state_def is_ownership_proven_def
        has_ownership_attestation_def\<close>)
qed

theorem review_screen_loses_started_example:
  "\<exists>p m'. start_ownership_proof 9 (empty_mon\<lparr>mn_assets := [demo_site]\<rparr>) demo_site ''dns_txt'' [] ''t0k'' True = Inr (p, m') \<and>
     ownership_state m' 1 = To_review \<and> demo_site \<notin> set (assets_needing_ownership_review m')"
proof -
  let ?m = "empty_mon\<lparr>mn_assets := [demo_site]\<rparr>"
  have d: "demo_site \<in> set (assets_needing_ownership_review ?m)"
    by (simp add: assets_needing_ownership_review_def empty_mon_def)
  obtain p m' where s: "start_ownership_proof 9 ?m demo_site ''dns_txt'' [] ''t0k'' True = Inr (p, m')"
    by (simp add: start_ownership_proof_def method_of_def is_ownership_proven_def empty_mon_def demo_domain Let_def)
  from review_screen_loses_started [OF d s] s show ?thesis by (auto simp: demo_site_def)
qed

end
