(* ===== verification/Assessments.thy ===== *)
theory Assessments
  imports Referentials Uniqueness Py_Text "HOL-Library.Product_Lexorder"
begin

text \<open>
  The diagnostics (assessments/services.py and models.py): the structure of a referential, the
  compositions of a part of it, the reformulations for one client, the life of an assessment and
  its answers, the scores and their consolidation. A weight and a score are exact rationals where
  the code has floats; \<open>round(x, 1)\<close> is rounding to tenths, ties to even. \<open>coll\<close> is the rank the
  database's collation gives a name, \<open>slugify\<close> the function of django.utils.text.
\<close>

section \<open>Data\<close>

datatype rank = Low | Mid | High

definition rank_of :: "string \<Rightarrow> rank option" where
  "rank_of s = (if s = ''low'' then Some Low else if s = ''medium'' then Some Mid
     else if s = ''high'' then Some High else None)"

record ref_domain =
  do_id :: int
  do_referential :: int
  do_code :: string
  do_name :: string
  do_description :: string
  do_order :: int

record ref_measure =
  ms_id :: int
  ms_referential :: int
  ms_domain :: int
  ms_code :: string
  ms_order :: int
  ms_title :: string
  ms_plain :: string
  ms_level :: string
  ms_weight :: rat
  ms_effort :: rank
  ms_impact :: rank
  ms_source_url :: string
  ms_source_reference :: string

record statement_override =
  so_tenant :: int
  so_measure :: int
  so_plain :: string
  so_note :: string
  so_created_by :: "int option"

record measure_subset =
  sb_id :: int
  sb_referential :: int
  sb_slug :: string
  sb_name :: string
  sb_description :: string
  sb_owner :: "int option"
  sb_active :: bool
  sb_created_by :: "int option"

record subset_item =
  si_subset :: int
  si_measure :: int
  si_order :: int

datatype assessment_status = In_progress | Completed

datatype answer_value = Yes | Partial | No | Not_applicable

record assessment =
  ae_id :: int
  ae_tenant :: int
  ae_referential :: int
  ae_subset :: "int option"
  ae_status :: assessment_status
  ae_started_by :: "int option"
  ae_started_at :: time
  ae_completed_at :: "time option"
  ae_score :: "rat option"

record answer =
  aw_assessment :: int
  aw_measure :: int
  aw_value :: answer_value
  aw_note :: string

record quiz =
  qz_seq :: int
  qz_domains :: "ref_domain list"
  qz_measures :: "ref_measure list"
  qz_overrides :: "statement_override list"
  qz_subsets :: "measure_subset list"
  qz_items :: "subset_item list"
  qz_assessments :: "assessment list"
  qz_answers :: "answer list"

datatype assessments_error =
    No_active_referential
  | Referential_not_assigned
  | Measure_not_in_referential
  | Measure_not_in_scope
  | Empty_subset
  | Unknown_measures "string list"
  | Subset_of_another
  | Duplicate_item
  | Subset_of_other_referential
  | Referential_conflict
  | Already_completed
  | Incomplete nat nat
  | Missing_fields
  | Not_a_slug
  | Unknown_kind
  | Owner_missing
  | Statement_missing
  | Unknown_rank

section \<open>The catalogue\<close>

definition get_default_referential ::
  "(string \<Rightarrow> nat) \<Rightarrow> db \<Rightarrow> int \<Rightarrow> assessments_error + referential" where
  "get_default_referential coll d t =
     (case sort_key (\<lambda>r. coll (rf_name r)) (granted_referentials d t) of
        [] \<Rightarrow> Inl No_active_referential
      | r # _ \<Rightarrow> Inr r)"

definition kind_of :: "string \<Rightarrow> ref_kind option" where
  "kind_of k = (if k = ''open'' then Some Open_content else if k = ''licensed'' then Some Licensed
     else if k = ''custom'' then Some Custom else None)"

text \<open>Version, publisher, notice, description and URL are carried by the code and read by nothing here.\<close>

definition create_referential ::
  "(string \<Rightarrow> string) \<Rightarrow> db \<Rightarrow> string \<Rightarrow> string \<Rightarrow> string \<Rightarrow> string \<Rightarrow> int option \<Rightarrow>
   assessments_error + referential \<times> db" where
  "create_referential slugify d slug0 name0 version0 kind owner =
     (let slug = strip slug0; nm = strip name0; version = strip version0
      in if slug = [] \<or> nm = [] \<or> version = [] then Inl Missing_fields
         else if slugify slug \<noteq> slug then Inl Not_a_slug
         else case kind_of kind of
           None \<Rightarrow> Inl Unknown_kind
         | Some k \<Rightarrow>
             if k = Custom \<and> owner = None then Inl Owner_missing
             else if \<exists>r \<in> set (d_referentials d). rf_slug r = slug then Inl Referential_conflict
             else (let r = \<lparr>rf_id = d_seq d + 1, rf_slug = slug, rf_name = nm, rf_kind = k,
                            rf_owner_tenant = owner, rf_is_active = True\<rparr>
                   in Inr (r, d\<lparr>d_seq := d_seq d + 1, d_referentials := r # d_referentials d\<rparr>)))"

text \<open>\<open>aggregate(Max("order")) or 0\<close>\<close>

definition max_order :: "int list \<Rightarrow> int" where
  "max_order os = (case os of [] \<Rightarrow> 0 | x # xs \<Rightarrow> foldr max xs x)"

definition add_domain ::
  "(string \<Rightarrow> string) \<Rightarrow> quiz \<Rightarrow> int \<Rightarrow> string \<Rightarrow> string \<Rightarrow> string \<Rightarrow> assessments_error + ref_domain \<times> quiz" where
  "add_domain slugify q r code0 name0 descr =
     (let code = strip code0; nm = strip name0; here = filter (\<lambda>x. do_referential x = r) (qz_domains q)
      in if code = [] \<or> nm = [] then Inl Missing_fields
         else if slugify code \<noteq> code then Inl Not_a_slug
         else if \<exists>x \<in> set here. do_code x = code then Inl Referential_conflict
         else (let x = \<lparr>do_id = qz_seq q + 1, do_referential = r, do_code = code, do_name = nm,
                        do_description = strip descr, do_order = max_order (map do_order here) + 1\<rparr>
               in Inr (x, q\<lparr>qz_seq := qz_seq q + 1, qz_domains := x # qz_domains q\<rparr>)))"

definition add_measure ::
  "quiz \<Rightarrow> int \<Rightarrow> string \<Rightarrow> string \<Rightarrow> string \<Rightarrow> string \<Rightarrow> string \<Rightarrow> rat \<Rightarrow> string \<Rightarrow> string \<Rightarrow> string \<Rightarrow> string \<Rightarrow>
   assessments_error + ref_measure \<times> quiz" where
  "add_measure q r domain_code code0 title plain lvl w effort impact url source =
     (case find (\<lambda>x. do_referential x = r \<and> do_code x = domain_code) (qz_domains q) of
        None \<Rightarrow> Inl Measure_not_in_referential
      | Some dm \<Rightarrow>
          (let code = strip code0
           in if code = [] then Inl Measure_not_in_referential
              else if strip title = [] \<or> strip plain = [] then Inl Statement_missing
              else case (rank_of effort, rank_of impact) of
                (Some e, Some i) \<Rightarrow>
                  if \<exists>x \<in> set (qz_measures q). ms_referential x = r \<and> ms_code x = code
                  then Inl Measure_not_in_referential
                  else (let x = \<lparr>ms_id = qz_seq q + 1, ms_referential = r, ms_domain = do_id dm, ms_code = code,
                               ms_order = max_order (map ms_order
                                 (filter (\<lambda>x. ms_domain x = do_id dm) (qz_measures q))) + 1,
                               ms_title = strip title, ms_plain = strip plain, ms_level = lvl, ms_weight = w,
                               ms_effort = e, ms_impact = i, ms_source_url = url, ms_source_reference = source\<rparr>
                        in Inr (x, q\<lparr>qz_seq := qz_seq q + 1, qz_measures := x # qz_measures q\<rparr>))
              | _ \<Rightarrow> Inl Unknown_rank))"

definition get_measure :: "quiz \<Rightarrow> string \<Rightarrow> ref_measure option" where
  "get_measure q s =
     (case py_int s of None \<Rightarrow> None | Some i \<Rightarrow> find (\<lambda>x. ms_id x = i) (qz_measures q))"

definition count_active_assignments :: "db \<Rightarrow> int \<Rightarrow> nat" where
  "count_active_assignments d r =
     length (filter (\<lambda>a. as_referential a = r \<and> as_revoked_at a = None) (d_assignments d))"

section \<open>Compositions\<close>

definition list_subsets :: "(string \<Rightarrow> nat) \<Rightarrow> quiz \<Rightarrow> int \<Rightarrow> int option \<Rightarrow> measure_subset list" where
  "list_subsets coll q t r =
     sort_key (\<lambda>s. coll (sb_name s))
       (filter (\<lambda>s. sb_active s \<and> (sb_owner s = None \<or> sb_owner s = Some t) \<and>
          (case r of None \<Rightarrow> True | Some i \<Rightarrow> sb_referential s = i)) (qz_subsets q))"

definition get_subset :: "(string \<Rightarrow> nat) \<Rightarrow> quiz \<Rightarrow> int \<Rightarrow> int + string \<Rightarrow> measure_subset option" where
  "get_subset coll q t key =
     find (\<lambda>s. case key of Inl i \<Rightarrow> sb_id s = i | Inr sl \<Rightarrow> sb_slug s = sl) (list_subsets coll q t None)"

definition enumerate_items :: "int \<Rightarrow> int list \<Rightarrow> subset_item list" where
  "enumerate_items sb ms =
     map (\<lambda>(i, m). \<lparr>si_subset = sb, si_measure = m, si_order = int i\<rparr>) (zip [1..<length ms + 1] ms)"

text \<open>
  Composing. The steps are separate transactions: the row is written, the items deleted, then the new
  ones inserted; when the insertion raises on a measure given twice, the first two stay.
\<close>

definition create_subset ::
  "quiz \<Rightarrow> int \<Rightarrow> string \<Rightarrow> string \<Rightarrow> string list \<Rightarrow> string \<Rightarrow> int option \<Rightarrow> int option \<Rightarrow>
   (assessments_error + measure_subset) \<times> quiz" where
  "create_subset q r slug nm codes descr owner actor =
     (let by_code = (\<lambda>c. find (\<lambda>x. ms_referential x = r \<and> ms_code x = c) (qz_measures q));
          unknown = filter (\<lambda>c. by_code c = None) codes
      in if codes = [] then (Inl Empty_subset, q)
         else if unknown \<noteq> [] then (Inl (Unknown_measures unknown), q)
         else (let existing = find (\<lambda>s. sb_referential s = r \<and> sb_slug s = slug) (qz_subsets q)
               in if (case existing of None \<Rightarrow> False | Some s \<Rightarrow> sb_owner s \<noteq> owner)
                  then (Inl Subset_of_another, q)
                  else (let i = (case existing of None \<Rightarrow> qz_seq q + 1 | Some s \<Rightarrow> sb_id s);
                            s = \<lparr>sb_id = i, sb_referential = r, sb_slug = slug, sb_name = nm,
                                 sb_description = descr, sb_owner = owner, sb_active = True, sb_created_by = actor\<rparr>;
                            q1 = (case existing of
                                None \<Rightarrow> q\<lparr>qz_seq := qz_seq q + 1, qz_subsets := s # qz_subsets q\<rparr>
                              | Some _ \<Rightarrow> q\<lparr>qz_subsets := upd_where (\<lambda>x. sb_id x = i) (\<lambda>x. s) (qz_subsets q)\<rparr>);
                            q2 = q1\<lparr>qz_items := filter (\<lambda>x. si_subset x \<noteq> i) (qz_items q1)\<rparr>;
                            ids = List.map_filter (\<lambda>c. map_option ms_id (by_code c)) codes
                        in if \<not> distinct ids then (Inl Duplicate_item, q2)
                           else (Inr s, q2\<lparr>qz_items := enumerate_items i ids @ qz_items q2\<rparr>))))"

definition subset_measure_ids :: "quiz \<Rightarrow> int \<Rightarrow> int list" where
  "subset_measure_ids q sb =
     map si_measure (sort_key si_order (filter (\<lambda>x. si_subset x = sb) (qz_items q)))"

section \<open>Reformulations\<close>

definition set_measure_override ::
  "quiz \<Rightarrow> int \<Rightarrow> int \<Rightarrow> string \<Rightarrow> string \<Rightarrow> int option \<Rightarrow> quiz" where
  "set_measure_override q t m plain note actor =
     (let r = \<lparr>so_tenant = t, so_measure = m, so_plain = plain, so_note = note, so_created_by = actor\<rparr>
      in if \<exists>x \<in> set (qz_overrides q). so_tenant x = t \<and> so_measure x = m
         then q\<lparr>qz_overrides := upd_where (\<lambda>x. so_tenant x = t \<and> so_measure x = m) (\<lambda>x. r) (qz_overrides q)\<rparr>
         else q\<lparr>qz_overrides := r # qz_overrides q\<rparr>)"

definition clear_measure_override :: "quiz \<Rightarrow> int \<Rightarrow> int \<Rightarrow> quiz" where
  "clear_measure_override q t m =
     q\<lparr>qz_overrides := filter (\<lambda>x. \<not> (so_tenant x = t \<and> so_measure x = m)) (qz_overrides q)\<rparr>"

definition list_overrides :: "quiz \<Rightarrow> int \<Rightarrow> int option \<Rightarrow> statement_override list" where
  "list_overrides q t r =
     filter (\<lambda>x. so_tenant x = t \<and>
        (case r of None \<Rightarrow> True
         | Some i \<Rightarrow> \<exists>m \<in> set (qz_measures q). ms_id m = so_measure x \<and> ms_referential m = i)) (qz_overrides q)"

text \<open>A measure as it is shown: the statement and the note that go with it.\<close>

record shown_measure =
  sh_measure :: ref_measure
  sh_statement :: "string option"
  sh_note :: "string option"

definition apply_overrides :: "quiz \<Rightarrow> ref_measure list \<Rightarrow> int option \<Rightarrow> shown_measure list" where
  "apply_overrides q ms tenant =
     map (\<lambda>m. case (case tenant of None \<Rightarrow> None
                     | Some t \<Rightarrow> find (\<lambda>x. so_tenant x = t \<and> so_measure x = ms_id m) (qz_overrides q)) of
          None \<Rightarrow> \<lparr>sh_measure = m, sh_statement = None, sh_note = None\<rparr>
        | Some x \<Rightarrow> \<lparr>sh_measure = m, sh_statement = Some (so_plain x), sh_note = Some (so_note x)\<rparr>) ms"

definition shown_statement :: "shown_measure \<Rightarrow> string" where
  "shown_statement s =
     (case sh_statement s of None \<Rightarrow> ms_plain (sh_measure s)
      | Some t \<Rightarrow> if t = [] then ms_plain (sh_measure s) else t)"

definition shown_note :: "shown_measure \<Rightarrow> string" where
  "shown_note s = (case sh_note s of None \<Rightarrow> [] | Some t \<Rightarrow> t)"

definition is_overridden :: "shown_measure \<Rightarrow> bool" where
  "is_overridden s = ((sh_statement s \<noteq> None \<and> sh_statement s \<noteq> Some []) \<or> (sh_note s \<noteq> None \<and> sh_note s \<noteq> Some []))"

section \<open>The scope of an assessment\<close>

definition get_referential_measures :: "quiz \<Rightarrow> int \<Rightarrow> ref_measure list" where
  "get_referential_measures q r =
     sort_key (\<lambda>m. (ms_domain m, ms_order m)) (filter (\<lambda>m. ms_referential m = r) (qz_measures q))"

text \<open>The measures of a composition, in its order: \<open>position\<close> is the rank in the list of ids.\<close>

definition position :: "int list \<Rightarrow> int \<Rightarrow> nat" where
  "position ids i = length (takeWhile (\<lambda>x. x \<noteq> i) ids)"

definition restrict_to :: "int list \<Rightarrow> ref_measure list \<Rightarrow> ref_measure list" where
  "restrict_to ids ms = sort_key (\<lambda>m. position ids (ms_id m)) (filter (\<lambda>m. ms_id m \<in> set ids) ms)"

definition get_assessment_measures :: "quiz \<Rightarrow> assessment \<Rightarrow> ref_measure list" where
  "get_assessment_measures q a =
     (let ms = get_referential_measures q (ae_referential a)
      in case ae_subset a of None \<Rightarrow> ms | Some sb \<Rightarrow> restrict_to (subset_measure_ids q sb) ms)"

text \<open>The domains of a referential that hold some of the given measures, each with its own.\<close>

definition group_by_domain :: "quiz \<Rightarrow> int \<Rightarrow> ref_measure list \<Rightarrow> (ref_domain \<times> ref_measure list) list" where
  "group_by_domain q r ms =
     filter (\<lambda>x. snd x \<noteq> [])
       (map (\<lambda>dm. (dm, filter (\<lambda>m. ms_domain m = do_id dm) ms))
         (sort_key do_order (filter (\<lambda>dm. do_referential dm = r) (qz_domains q))))"

definition get_referential_structure ::
  "quiz \<Rightarrow> int \<Rightarrow> int option \<Rightarrow> int option \<Rightarrow> (ref_domain \<times> shown_measure list) list" where
  "get_referential_structure q r tenant sb =
     (let ms = sort_key ms_order (filter (\<lambda>m. ms_referential m = r) (qz_measures q));
          scope = (case sb of None \<Rightarrow> ms | Some i \<Rightarrow> restrict_to (subset_measure_ids q i) ms)
      in map (\<lambda>(dm, xs). (dm, apply_overrides q xs tenant)) (group_by_domain q r scope))"

record outline_subset =
  os_subset :: measure_subset
  os_measure_codes :: "string list"

record outline =
  ot_referential :: referential
  ot_assigned_tenants :: nat
  ot_domains :: "(ref_domain \<times> ref_measure list) list"
  ot_subsets :: "outline_subset list"

definition referential_outline :: "(string \<Rightarrow> nat) \<Rightarrow> db \<Rightarrow> quiz \<Rightarrow> referential \<Rightarrow> outline" where
  "referential_outline coll d q r =
     \<lparr>ot_referential = r,
      ot_assigned_tenants = count_active_assignments d (rf_id r),
      ot_domains =
        map (\<lambda>dm. (dm, sort_key (\<lambda>m. (ms_order m, coll (ms_code m)))
                        (filter (\<lambda>m. ms_domain m = do_id dm) (qz_measures q))))
          (sort_key (\<lambda>dm. (do_order dm, coll (do_code dm)))
            (filter (\<lambda>dm. do_referential dm = rf_id r) (qz_domains q))),
      ot_subsets =
        map (\<lambda>s. \<lparr>os_subset = s, os_measure_codes = List.map_filter (\<lambda>i.
               map_option ms_code (find (\<lambda>m. ms_id m = i) (qz_measures q))) (subset_measure_ids q (sb_id s))\<rparr>)
          (sort_key (\<lambda>s. coll (sb_name s)) (filter (\<lambda>s. sb_referential s = rf_id r) (qz_subsets q)))\<rparr>"

section \<open>The life of an assessment\<close>

text \<open>\<open>order_by("-key").first()\<close>\<close>

definition latest :: "('r \<Rightarrow> time) \<Rightarrow> 'r list \<Rightarrow> 'r option" where
  "latest key rs = (case sort_key (\<lambda>r. - key r) rs of [] \<Rightarrow> None | r # _ \<Rightarrow> Some r)"

definition get_current_assessment :: "quiz \<Rightarrow> int \<Rightarrow> int option \<Rightarrow> assessment option" where
  "get_current_assessment q t r =
     latest ae_started_at
       (filter (\<lambda>a. ae_tenant a = t \<and> ae_status a = In_progress \<and>
          (case r of None \<Rightarrow> True | Some i \<Rightarrow> ae_referential a = i)) (qz_assessments q))"

definition start_or_resume_assessment ::
  "(string \<Rightarrow> nat) \<Rightarrow> db \<Rightarrow> time \<Rightarrow> quiz \<Rightarrow> int \<Rightarrow> int option \<Rightarrow> int option \<Rightarrow> measure_subset option \<Rightarrow>
   assessments_error + assessment \<times> quiz" where
  "start_or_resume_assessment coll d now q t user r0 sb =
     rbind (case r0 of Some r \<Rightarrow> Inr r
            | None \<Rightarrow> (case get_default_referential coll d t of Inl e \<Rightarrow> Inl e | Inr r \<Rightarrow> Inr (rf_id r)))
     (\<lambda>r. if \<not> is_granted d t r then Inl Referential_not_assigned
      else if (case sb of None \<Rightarrow> False | Some s \<Rightarrow> sb_referential s \<noteq> r) then Inl Subset_of_other_referential
      else if (case sb of None \<Rightarrow> False | Some s \<Rightarrow> sb_owner s \<noteq> None \<and> sb_owner s \<noteq> Some t) then Inl Subset_of_another
      else case get_current_assessment q t (Some r) of
        Some a \<Rightarrow> Inr (a, q)
      | None \<Rightarrow>
          (let a = \<lparr>ae_id = qz_seq q + 1, ae_tenant = t, ae_referential = r, ae_subset = map_option sb_id sb,
                    ae_status = In_progress, ae_started_by = user, ae_started_at = now,
                    ae_completed_at = None, ae_score = None\<rparr>
           in Inr (a, q\<lparr>qz_seq := qz_seq q + 1, qz_assessments := a # qz_assessments q\<rparr>)))"

definition list_assessments :: "quiz \<Rightarrow> int \<Rightarrow> int option \<Rightarrow> assessment list" where
  "list_assessments q t r =
     sort_key (\<lambda>a. - ae_started_at a)
       (filter (\<lambda>a. ae_tenant a = t \<and> (case r of None \<Rightarrow> True | Some i \<Rightarrow> ae_referential a = i)) (qz_assessments q))"

definition get_latest_completed_assessment :: "quiz \<Rightarrow> int \<Rightarrow> int option \<Rightarrow> assessment option" where
  "get_latest_completed_assessment q t r =
     latest (\<lambda>a. case ae_completed_at a of None \<Rightarrow> 0 | Some c \<Rightarrow> c)
       (filter (\<lambda>a. ae_tenant a = t \<and> ae_status a = Completed \<and>
          (case r of None \<Rightarrow> True | Some i \<Rightarrow> ae_referential a = i)) (qz_assessments q))"

definition get_assessment :: "quiz \<Rightarrow> int \<Rightarrow> int \<Rightarrow> assessment option" where
  "get_assessment q t i = find (\<lambda>a. ae_tenant a = t \<and> ae_id a = i) (qz_assessments q)"

definition list_answers :: "quiz \<Rightarrow> assessment \<Rightarrow> answer list" where
  "list_answers q a = filter (\<lambda>w. aw_assessment w = ae_id a) (qz_answers q)"

definition submit_answer ::
  "quiz \<Rightarrow> assessment \<Rightarrow> ref_measure \<Rightarrow> answer_value \<Rightarrow> string \<Rightarrow> assessments_error + answer \<times> quiz" where
  "submit_answer q a m v note =
     (if ae_status a = Completed then Inl Already_completed
      else if ms_referential m \<noteq> ae_referential a then Inl Measure_not_in_referential
      else if (case ae_subset a of None \<Rightarrow> False | Some sb \<Rightarrow> ms_id m \<notin> set (subset_measure_ids q sb))
      then Inl Measure_not_in_scope
      else (let w = \<lparr>aw_assessment = ae_id a, aw_measure = ms_id m, aw_value = v, aw_note = note\<rparr>
            in if \<exists>x \<in> set (qz_answers q). aw_assessment x = ae_id a \<and> aw_measure x = ms_id m
               then Inr (w, q\<lparr>qz_answers := upd_where (\<lambda>x. aw_assessment x = ae_id a \<and> aw_measure x = ms_id m)
                                              (\<lambda>x. w) (qz_answers q)\<rparr>)
               else Inr (w, q\<lparr>qz_answers := w # qz_answers q\<rparr>)))"

record domain_progress =
  dp_domain :: ref_domain
  dp_answered :: nat
  dp_total :: nat

definition get_progress :: "quiz \<Rightarrow> assessment \<Rightarrow> (nat \<times> nat) \<times> domain_progress list" where
  "get_progress q a =
     (let ms = get_assessment_measures q a;
          answered = aw_measure ` set (list_answers q a);
          count = (\<lambda>xs. length (filter (\<lambda>m. ms_id m \<in> answered) xs))
      in ((count ms, length ms),
          map (\<lambda>(dm, xs). \<lparr>dp_domain = dm, dp_answered = count xs, dp_total = length xs\<rparr>)
            (group_by_domain q (ae_referential a) ms)))"

section \<open>Scores\<close>

fun value_score :: "answer_value \<Rightarrow> rat" where
  "value_score Yes = 1"
| "value_score Partial = 1 / 2"
| "value_score No = 0"
| "value_score Not_applicable = 0"

definition GAP_VALUES :: "answer_value set" where
  "GAP_VALUES = {No, Partial}"

definition FULL_CREDIT_VALUE :: answer_value where
  "FULL_CREDIT_VALUE = Yes"

definition round1 :: "rat \<Rightarrow> rat" where
  "round1 x = of_int (py_round (10 * x)) / 10"

text \<open>The loop over the measures with its two sums.\<close>

fun weigh :: "(int \<Rightarrow> answer_value option) \<Rightarrow> ref_measure list \<Rightarrow> rat \<times> rat \<Rightarrow> rat \<times> rat" where
  "weigh vs [] (s, w) = (s, w)"
| "weigh vs (m # ms) (s, w) =
     (case vs (ms_id m) of
        None \<Rightarrow> weigh vs ms (s, w)
      | Some v \<Rightarrow>
          if v = Not_applicable then weigh vs ms (s, w)
          else weigh vs ms (s + value_score v * ms_weight m, w + ms_weight m))"

definition score_from_values :: "(int \<Rightarrow> answer_value option) \<Rightarrow> ref_measure list \<Rightarrow> rat option" where
  "score_from_values vs ms =
     (case weigh vs ms (0, 0) of
        (s, w) \<Rightarrow> if w = 0 then None else Some (round1 (100 * s / w)))"

definition get_answer_values :: "quiz \<Rightarrow> assessment \<Rightarrow> int \<Rightarrow> answer_value option" where
  "get_answer_values q a = map_of (map (\<lambda>w. (aw_measure w, aw_value w)) (list_answers q a))"

record scores =
  sc_global :: "rat option"
  sc_by_domain :: "(ref_domain \<times> rat option) list"

definition compute_scores :: "quiz \<Rightarrow> assessment \<Rightarrow> (int \<Rightarrow> answer_value option) option \<Rightarrow> scores" where
  "compute_scores q a given =
     (let ms = get_assessment_measures q a;
          vs = (case given of None \<Rightarrow> get_answer_values q a | Some f \<Rightarrow> f)
      in \<lparr>sc_global = score_from_values vs ms,
          sc_by_domain = map (\<lambda>(dm, xs). (dm, score_from_values vs xs)) (group_by_domain q (ae_referential a) ms)\<rparr>)"

definition complete_assessment :: "time \<Rightarrow> quiz \<Rightarrow> assessment \<Rightarrow> assessments_error + assessment \<times> quiz" where
  "complete_assessment now q a =
     (if ae_status a = Completed then Inl Already_completed
      else (let total = length (get_assessment_measures q a); answered = length (list_answers q a)
            in if answered < total then Inl (Incomplete answered total)
               else (let a' = a\<lparr>ae_status := Completed, ae_completed_at := Some now,
                               ae_score := sc_global (compute_scores q a None)\<rparr>
                     in Inr (a', q\<lparr>qz_assessments := upd_where (\<lambda>x. ae_id x = ae_id a) (\<lambda>x. a') (qz_assessments q)\<rparr>))))"

section \<open>Consolidation\<close>

record score_line =
  sl_referential :: referential
  sl_assessment :: "int option"
  sl_score :: "rat option"
  sl_completed_at :: "time option"
  sl_measure_count :: nat
  sl_granted :: bool

record consolidated =
  cs_lines :: "score_line list"
  cs_score :: "rat option"
  cs_scored :: nat
  cs_unscored :: "string list"

definition mean1 :: "rat list \<Rightarrow> rat option" where
  "mean1 xs = (if xs = [] then None else Some (round1 (sum_list xs / of_nat (length xs))))"

definition assessed_by :: "quiz \<Rightarrow> int \<Rightarrow> int set" where
  "assessed_by q t = ae_referential ` set (filter (\<lambda>a. ae_tenant a = t) (qz_assessments q))"

definition score_line_of :: "db \<Rightarrow> quiz \<Rightarrow> int \<Rightarrow> time option \<Rightarrow> referential \<Rightarrow> score_line" where
  "score_line_of d q t until r =
     (let granted = is_granted d t (rf_id r)
      in case latest (\<lambda>a. case ae_completed_at a of None \<Rightarrow> 0 | Some c \<Rightarrow> c)
           (filter (\<lambda>a. ae_tenant a = t \<and> ae_referential a = rf_id r \<and> ae_status a = Completed \<and> ae_score a \<noteq> None \<and>
              (case until of None \<Rightarrow> True
               | Some u \<Rightarrow> (case ae_completed_at a of None \<Rightarrow> False | Some c \<Rightarrow> c \<le> u))) (qz_assessments q)) of
        None \<Rightarrow> \<lparr>sl_referential = r, sl_assessment = None, sl_score = None, sl_completed_at = None,
                 sl_measure_count = length (filter (\<lambda>m. ms_referential m = rf_id r) (qz_measures q)),
                 sl_granted = granted\<rparr>
      | Some a \<Rightarrow> \<lparr>sl_referential = r, sl_assessment = Some (ae_id a), sl_score = ae_score a,
                 sl_completed_at = ae_completed_at a,
                 sl_measure_count = length (get_assessment_measures q a), sl_granted = granted\<rparr>)"

definition consolidated_scores :: "(string \<Rightarrow> nat) \<Rightarrow> db \<Rightarrow> quiz \<Rightarrow> int \<Rightarrow> time option \<Rightarrow> consolidated" where
  "consolidated_scores coll d q t until =
     (let lines = map (score_line_of d q t until)
            (sort_key (\<lambda>r. coll (rf_name r)) (readable_referentials d (assessed_by q t) t));
          marks = List.map_filter sl_score lines
      in \<lparr>cs_lines = lines, cs_score = mean1 marks, cs_scored = length marks,
          cs_unscored = map (\<lambda>l. rf_name (sl_referential l)) (filter (\<lambda>l. sl_score l = None) lines)\<rparr>)"

text \<open>
  The indicators of a period: of the completed assessments up to its end, newest first, the first of
  each referential is the current one and the second the previous one.
\<close>

record mark =
  mk_assessment :: int
  mk_referential :: int
  mk_completed_at :: time
  mk_score :: rat

definition marks_of :: "quiz \<Rightarrow> int \<Rightarrow> mark list" where
  "marks_of q t =
     sort_key (\<lambda>k. - mk_completed_at k)
       (List.map_filter (\<lambda>a.
          if ae_tenant a = t \<and> ae_status a = Completed then
            (case (ae_completed_at a, ae_score a) of
               (Some c, Some s) \<Rightarrow> Some \<lparr>mk_assessment = ae_id a, mk_referential = ae_referential a,
                                       mk_completed_at = c, mk_score = s\<rparr>
             | _ \<Rightarrow> None)
          else None) (qz_assessments q))"

fun pick_two :: "mark list \<Rightarrow> mark list \<times> mark list \<Rightarrow> mark list \<times> mark list" where
  "pick_two [] (cur, prev) = (cur, prev)"
| "pick_two (k # ks) (cur, prev) =
     (if mk_referential k \<notin> mk_referential ` set cur then pick_two ks (cur @ [k], prev)
      else if mk_referential k \<notin> mk_referential ` set prev then pick_two ks (cur, prev @ [k])
      else pick_two ks (cur, prev))"

fun first_max :: "('r \<Rightarrow> time) \<Rightarrow> 'r list \<Rightarrow> 'r option" where
  "first_max f [] = None"
| "first_max f (x # xs) =
     (case first_max f xs of None \<Rightarrow> Some x | Some y \<Rightarrow> if f x < f y then Some y else Some x)"

record maturity =
  mt_score :: "rat option"
  mt_measured_at :: "time option"
  mt_previous_score :: "rat option"
  mt_previous_measured_at :: "time option"
  mt_delta :: "rat option"
  mt_history :: "mark list"
  mt_referential_count :: nat
  mt_by_referential :: "mark list"

definition maturity_indicators :: "(int \<Rightarrow> nat) \<Rightarrow> quiz \<Rightarrow> int \<Rightarrow> time \<Rightarrow> time \<Rightarrow> maturity" where
  "maturity_indicators name_rank q t from_t to_t =
     (let period = filter (\<lambda>k. mk_completed_at k \<le> to_t) (marks_of q t)
      in case pick_two period ([], []) of (cur, prev) \<Rightarrow>
        (let score = mean1 (map mk_score cur);
             comparable = (cur \<noteq> [] \<and> mk_referential ` set cur = mk_referential ` set prev);
             before_scores = (if comparable
               then List.map_filter (\<lambda>k. map_option mk_score (find (\<lambda>p. mk_referential p = mk_referential k) prev)) cur
               else []);
             previous = mean1 before_scores
         in \<lparr>mt_score = score,
             mt_measured_at = map_option mk_completed_at (first_max mk_completed_at cur),
             mt_previous_score = previous,
             mt_previous_measured_at =
               (if comparable then map_option mk_completed_at (first_max mk_completed_at prev) else None),
             mt_delta = (case (score, previous) of (Some s, Some p) \<Rightarrow> Some (round1 (s - p)) | _ \<Rightarrow> None),
             mt_history = rev (filter (\<lambda>k. from_t \<le> mk_completed_at k) period),
             mt_referential_count = length cur,
             mt_by_referential = sort_key (\<lambda>k. name_rank (mk_referential k)) cur\<rparr>))"

end
