(* ===== verification/Actions.thy ===== *)
theory Actions
  imports Assessments Tenants
begin

text \<open>
  The action plan (actions/services.py and models.py): the items a completed assessment generates,
  their life, the indicators and the daily series of a plan, and the score the plan leads to.
  \<open>local_date\<close> is the calendar date of an instant in the platform's time zone.
\<close>

section \<open>Data\<close>

datatype item_status = Todo | Doing | Done

record action_item =
  ai_id :: int
  ai_tenant :: int
  ai_assessment :: int
  ai_measure :: int
  ai_status :: item_status
  ai_assignee :: "int option"
  ai_note :: string
  ai_due :: "date option"
  ai_completed_at :: "time option"
  ai_created_at :: time

record board =
  bd_seq :: int
  bd_items :: "action_item list"

definition OPEN_STATUSES :: "item_status set" where
  "OPEN_STATUSES = {Todo, Doing}"

fun rank_value :: "rank \<Rightarrow> rat" where
  "rank_value Low = 1" | "rank_value Mid = 2" | "rank_value High = 3"

definition measure_of :: "quiz \<Rightarrow> int \<Rightarrow> ref_measure option" where
  "measure_of q i = find (\<lambda>m. ms_id m = i) (qz_measures q)"

definition priority_ratio :: "ref_measure \<Rightarrow> rat" where
  "priority_ratio m = rank_value (ms_impact m) / rank_value (ms_effort m)"

section \<open>Generating and listing\<close>

text \<open>\<open>get_or_create\<close> of one item, and the loop over the measures of the assessment.\<close>

fun generate_items ::
  "time \<Rightarrow> assessment \<Rightarrow> (int \<Rightarrow> answer_value option) \<Rightarrow> ref_measure list \<Rightarrow> nat \<times> board \<Rightarrow> nat \<times> board" where
  "generate_items now a vs [] (n, b) = (n, b)"
| "generate_items now a vs (m # ms) (n, b) =
     (if (case vs (ms_id m) of None \<Rightarrow> True | Some v \<Rightarrow> v \<notin> GAP_VALUES) then generate_items now a vs ms (n, b)
      else if \<exists>i \<in> set (bd_items b). ai_assessment i = ae_id a \<and> ai_measure i = ms_id m
      then generate_items now a vs ms (n, b)
      else generate_items now a vs ms (n + 1,
        b\<lparr>bd_seq := bd_seq b + 1,
          bd_items := \<lparr>ai_id = bd_seq b + 1, ai_tenant = ae_tenant a, ai_assessment = ae_id a, ai_measure = ms_id m,
             ai_status = Todo, ai_assignee = None, ai_note = [], ai_due = None, ai_completed_at = None,
             ai_created_at = now\<rparr> # bd_items b\<rparr>))"

definition generate_action_plan :: "time \<Rightarrow> quiz \<Rightarrow> board \<Rightarrow> assessment \<Rightarrow> nat \<times> board" where
  "generate_action_plan now q b a =
     generate_items now a (get_answer_values q a) (get_assessment_measures q a) (0, b)"

text \<open>\<open>sorted(key=..., reverse=True)\<close> keeps the order of equal keys.\<close>

definition list_action_items ::
  "quiz \<Rightarrow> board \<Rightarrow> int \<Rightarrow> int option \<Rightarrow> item_status option \<Rightarrow> int option \<Rightarrow> (action_item \<times> shown_measure) list" where
  "list_action_items q b t a st r =
     (let rows = filter (\<lambda>i. ai_tenant i = t \<and>
            (case a of None \<Rightarrow> True | Some x \<Rightarrow> ai_assessment i = x) \<and>
            (case st of None \<Rightarrow> True | Some x \<Rightarrow> ai_status i = x)) (bd_items b);
          pairs = List.map_filter (\<lambda>i. map_option (\<lambda>m. (i, m)) (measure_of q (ai_measure i))) rows;
          kept = filter (\<lambda>(i, m). case r of None \<Rightarrow> True | Some x \<Rightarrow> ms_referential m = x) pairs;
          ordered = sort_key (\<lambda>(i, m). - priority_ratio m) kept
      in map (\<lambda>(i, m). (i, hd (apply_overrides q [m] (Some t)))) ordered)"

record plan_line =
  pn_referential :: int
  pn_total :: nat
  pn_done :: nat
  pn_open :: nat
  pn_rate :: "rat option"

definition completion_rate :: "nat \<Rightarrow> nat \<Rightarrow> rat option" where
  "completion_rate finished whole =
     (if whole = 0 then None else Some (round1 (100 * of_nat finished / of_nat whole)))"

definition plan_by_referential :: "(int \<Rightarrow> nat) \<Rightarrow> quiz \<Rightarrow> board \<Rightarrow> int \<Rightarrow> plan_line list" where
  "plan_by_referential name_rank q b t =
     (let rows = List.map_filter (\<lambda>i. map_option (\<lambda>m. (ms_referential m, ai_status i)) (measure_of q (ai_measure i)))
                   (filter (\<lambda>i. ai_tenant i = t) (bd_items b))
      in map (\<lambda>r. (let here = filter (\<lambda>x. fst x = r) rows;
                       finished = length (filter (\<lambda>x. snd x = Done) here)
                   in \<lparr>pn_referential = r, pn_total = length here, pn_done = finished,
                       pn_open = length (filter (\<lambda>x. snd x \<noteq> Done) here),
                       pn_rate = completion_rate finished (length here)\<rparr>))
           (sort_key name_rank (remdups (map fst rows))))"

definition get_action_item :: "board \<Rightarrow> int \<Rightarrow> int \<Rightarrow> action_item option" where
  "get_action_item b t i = find (\<lambda>x. ai_tenant x = t \<and> ai_id x = i) (bd_items b)"

section \<open>Changing an item\<close>

definition save_item :: "action_item \<Rightarrow> (action_item \<Rightarrow> action_item) \<Rightarrow> board \<Rightarrow> action_item \<times> board" where
  "save_item i f b = (f i, b\<lparr>bd_items := upd_where (\<lambda>x. ai_id x = ai_id i) f (bd_items b)\<rparr>)"

definition set_due_date :: "board \<Rightarrow> action_item \<Rightarrow> date option \<Rightarrow> action_item \<times> board" where
  "set_due_date b i due = save_item i (\<lambda>x. x\<lparr>ai_due := due\<rparr>) b"

definition update_status :: "time \<Rightarrow> board \<Rightarrow> action_item \<Rightarrow> item_status \<Rightarrow> action_item \<times> board" where
  "update_status now b i st =
     save_item i (\<lambda>x. x\<lparr>ai_status := st, ai_completed_at := (if st = Done then Some now else None)\<rparr>) b"

datatype actions_error = Not_a_member

definition assign_action_item :: "db \<Rightarrow> board \<Rightarrow> action_item \<Rightarrow> int option \<Rightarrow> actions_error + action_item \<times> board" where
  "assign_action_item d b i user =
     (if (case user of None \<Rightarrow> False | Some u \<Rightarrow> get_membership d u (ai_tenant i) = None) then Inl Not_a_member
      else Inr (save_item i (\<lambda>x. x\<lparr>ai_assignee := user\<rparr>) b))"

definition set_note :: "board \<Rightarrow> action_item \<Rightarrow> string \<Rightarrow> action_item \<times> board" where
  "set_note b i s = save_item i (\<lambda>x. x\<lparr>ai_note := s\<rparr>) b"

section \<open>Indicators and series\<close>

record plan_indicators =
  pi_total :: nat
  pi_open :: nat
  pi_todo :: nat
  pi_in_progress :: nat
  pi_done :: nat
  pi_overdue :: nat
  pi_without_due_date :: nat
  pi_completed_in_period :: nat
  pi_created_in_period :: nat
  pi_rate :: "rat option"
  pi_by_referential :: "plan_line list"

definition action_plan_indicators ::
  "(int \<Rightarrow> nat) \<Rightarrow> quiz \<Rightarrow> board \<Rightarrow> int \<Rightarrow> time \<Rightarrow> time \<Rightarrow> date \<Rightarrow> plan_indicators" where
  "action_plan_indicators name_rank q b t from_t to_t today =
     (let mine = filter (\<lambda>i. ai_tenant i = t) (bd_items b);
          count = (\<lambda>p. length (filter p mine));
          finished = count (\<lambda>i. ai_status i = Done);
          todo = count (\<lambda>i. ai_status i = Todo);
          doing = count (\<lambda>i. ai_status i = Doing);
          inside = (\<lambda>x. from_t \<le> x \<and> x \<le> to_t)
      in \<lparr>pi_total = length mine, pi_open = todo + doing, pi_todo = todo, pi_in_progress = doing,
          pi_done = finished,
          pi_overdue = count (\<lambda>i. (case ai_due i of None \<Rightarrow> False | Some x \<Rightarrow> x < today) \<and> ai_status i \<noteq> Done),
          pi_without_due_date = count (\<lambda>i. ai_due i = None \<and> ai_status i \<noteq> Done),
          pi_completed_in_period = count (\<lambda>i. case ai_completed_at i of None \<Rightarrow> False | Some x \<Rightarrow> inside x),
          pi_created_in_period = count (\<lambda>i. inside (ai_created_at i)),
          pi_rate = completion_rate finished (length mine),
          pi_by_referential = plan_by_referential name_rank q b t\<rparr>)"

record day_point =
  dy_date :: date
  dy_done :: nat
  dy_total :: nat
  dy_rate :: "rat option"

text \<open>The buckets of a date field over the period, and the loop that adds them up day by day.\<close>

definition bucket :: "(time \<Rightarrow> date) \<Rightarrow> time \<Rightarrow> time \<Rightarrow> (action_item \<Rightarrow> time option) \<Rightarrow> action_item list \<Rightarrow> date \<Rightarrow> nat" where
  "bucket local_date from_t to_t f rows day =
     length (filter (\<lambda>i. case f i of None \<Rightarrow> False | Some x \<Rightarrow> from_t \<le> x \<and> x \<le> to_t \<and> local_date x = day) rows)"

fun series_loop :: "(date \<Rightarrow> nat) \<Rightarrow> (date \<Rightarrow> nat) \<Rightarrow> nat \<Rightarrow> date \<Rightarrow> nat \<times> nat \<Rightarrow> day_point list" where
  "series_loop added ended 0 day (whole, finished) = []"
| "series_loop added ended (Suc n) day (whole, finished) =
     (let whole' = whole + added day; finished' = finished + ended day
      in \<lparr>dy_date = day, dy_done = finished', dy_total = whole', dy_rate = completion_rate finished' whole'\<rparr>
         # series_loop added ended n (day + 1) (whole', finished'))"

definition action_plan_series :: "(time \<Rightarrow> date) \<Rightarrow> board \<Rightarrow> int \<Rightarrow> time \<Rightarrow> time \<Rightarrow> day_point list" where
  "action_plan_series local_date b t from_t to_t =
     (let mine = filter (\<lambda>i. ai_tenant i = t) (bd_items b);
          before_n = (\<lambda>f. length (filter (\<lambda>i. case f i of None \<Rightarrow> False | Some x \<Rightarrow> x < from_t) mine));
          created = (\<lambda>i. Some (ai_created_at i))
      in series_loop (bucket local_date from_t to_t created mine) (bucket local_date from_t to_t ai_completed_at mine)
           (nat (local_date to_t - local_date from_t + 1)) (local_date from_t)
           (before_n created, before_n ai_completed_at))"

section \<open>The projected score\<close>

definition projected_values :: "quiz \<Rightarrow> board \<Rightarrow> assessment \<Rightarrow> int \<Rightarrow> answer_value option" where
  "projected_values q b a i =
     (if \<exists>x \<in> set (bd_items b). ai_assessment x = ae_id a \<and> ai_status x = Done \<and> ai_measure x = i
      then Some FULL_CREDIT_VALUE else get_answer_values q a i)"

definition compute_projected_score :: "quiz \<Rightarrow> board \<Rightarrow> assessment \<Rightarrow> scores" where
  "compute_projected_score q b a = compute_scores q a (Some (projected_values q b a))"

end
