(* ===== verification/AssessmentsSafety.thy ===== *)
theory AssessmentsSafety
  imports Assessments
begin

text \<open>
  What the diagnostics keep: one assessment in progress per company and referential, a completed one
  and its answers for good; the bounds and the monotonicity of the score; when an assessment can be
  completed.
\<close>

section \<open>The tables\<close>

definition close_assessment :: "time \<Rightarrow> assessment \<Rightarrow> assessment" where
  "close_assessment now a = a\<lparr>ae_status := Completed, ae_completed_at := Some now\<rparr>"

interpretation running: unique_live "\<lambda>a. ae_status a = In_progress" "\<lambda>a. (ae_tenant a, ae_referential a)" close_assessment
  by unfold_locales (simp_all add: close_assessment_def)

text \<open>
  What the database guarantees by its keys: primary keys are unique and at most the last one given
  out, there is one answer per assessment and measure, answers belong to existing assessments, and a
  measure is once in a composition.
\<close>

definition quiz_ok :: "quiz \<Rightarrow> bool" where
  "quiz_ok q =
     (distinct (map ae_id (qz_assessments q)) \<and> (\<forall>a \<in> set (qz_assessments q). ae_id a \<le> qz_seq q) \<and>
      distinct (map ms_id (qz_measures q)) \<and> (\<forall>m \<in> set (qz_measures q). ms_id m \<le> qz_seq q) \<and>
      distinct (map (\<lambda>w. (aw_assessment w, aw_measure w)) (qz_answers q)) \<and>
      (\<forall>w \<in> set (qz_answers q). aw_assessment w \<le> qz_seq q) \<and>
      at_most_one (\<lambda>a. ae_status a = In_progress) (\<lambda>a. (ae_tenant a, ae_referential a)) (qz_assessments q))"

inductive quiz_step :: "quiz \<Rightarrow> quiz \<Rightarrow> bool" where
  step_domain: "add_domain slugify q r code nm descr = Inr (x, q') \<Longrightarrow> quiz_step q q'"
| step_measure: "add_measure q r dc code title plain lvl w effort impact url source = Inr (m, q') \<Longrightarrow> quiz_step q q'"
| step_compose: "create_subset q r slug nm codes descr owner actor = (res, q') \<Longrightarrow> quiz_step q q'"
| step_override: "quiz_step q (set_measure_override q t i plain note actor)"
| step_clear: "quiz_step q (clear_measure_override q t i)"
| step_start: "start_or_resume_assessment coll d now q t user r0 sb = Inr (a, q') \<Longrightarrow> quiz_step q q'"
| step_answer: "a \<in> set (qz_assessments q) \<Longrightarrow> submit_answer q a m v note = Inr (w, q') \<Longrightarrow> quiz_step q q'"
| step_complete: "a \<in> set (qz_assessments q) \<Longrightarrow> complete_assessment now q a = Inr (a', q') \<Longrightarrow> quiz_step q q'"

lemma latest_None: "latest key rs = None \<longleftrightarrow> rs = []"
proof -
  have "sort_key (\<lambda>r. - key r) rs = [] \<longleftrightarrow> rs = []"
    by (metis set_empty set_sort)
  then show ?thesis by (auto simp: latest_def split: list.splits)
qed

lemma latest_in: "latest key rs = Some r \<Longrightarrow> r \<in> set rs"
proof -
  assume "latest key rs = Some r"
  then obtain xs where "sort_key (\<lambda>r. - key r) rs = r # xs" by (auto simp: latest_def split: list.splits)
  then show ?thesis by (metis list.set_intros(1) set_sort)
qed

lemma start_cases:
  assumes "start_or_resume_assessment coll d now q t user r0 sb = Inr (a, q')"
  obtains "a \<in> set (qz_assessments q)" "q' = q"
  | r where "\<not> (\<exists>x \<in> set (qz_assessments q). ae_tenant x = t \<and> ae_status x = In_progress \<and> ae_referential x = r)"
      "is_granted d t r" "ae_id a = qz_seq q + 1" "ae_tenant a = t" "ae_referential a = r" "ae_status a = In_progress"
      "q' = q\<lparr>qz_seq := qz_seq q + 1, qz_assessments := a # qz_assessments q\<rparr>"
proof -
  from assms obtain r where g: "is_granted d t r"
    and eq: "(case get_current_assessment q t (Some r) of
        Some a \<Rightarrow> Inr (a, q)
      | None \<Rightarrow>
          (let a = \<lparr>ae_id = qz_seq q + 1, ae_tenant = t, ae_referential = r, ae_subset = map_option sb_id sb,
                    ae_status = In_progress, ae_started_by = user, ae_started_at = now,
                    ae_completed_at = None, ae_score = None\<rparr>
           in Inr (a, q\<lparr>qz_seq := qz_seq q + 1, qz_assessments := a # qz_assessments q\<rparr>))) = (Inr (a, q') :: assessments_error + _)"
    by (auto simp: start_or_resume_assessment_def rbind_Inr_iff split: if_splits)
  show thesis
  proof (cases "get_current_assessment q t (Some r)")
    case (Some x)
    with eq have "a = x" "q' = q" by simp_all
    moreover have "x \<in> set (qz_assessments q)"
      using latest_in [OF Some [unfolded get_current_assessment_def]] by simp
    ultimately show thesis using that(1) by simp
  next
    case None
    then have "\<not> (\<exists>x \<in> set (qz_assessments q). ae_tenant x = t \<and> ae_status x = In_progress \<and> ae_referential x = r)"
      by (auto simp: get_current_assessment_def latest_None filter_empty_conv)
    with None eq g that(2) show thesis by (auto simp: Let_def)
  qed
qed

lemma submit_cases:
  assumes "submit_answer q a m v note = Inr (w, q')"
  shows "ae_status a \<noteq> Completed" "aw_assessment w = ae_id a" "aw_measure w = ms_id m"
    "ms_referential m = ae_referential a"
    "q' = q\<lparr>qz_answers := (if \<exists>x \<in> set (qz_answers q). aw_assessment x = ae_id a \<and> aw_measure x = ms_id m
        then upd_where (\<lambda>x. aw_assessment x = ae_id a \<and> aw_measure x = ms_id m) (\<lambda>x. w) (qz_answers q)
        else w # qz_answers q)\<rparr>"
  using assms by (auto simp: submit_answer_def Let_def split: if_splits)

lemma complete_cases:
  assumes "complete_assessment now q a = Inr (a', q')"
  shows "ae_status a \<noteq> Completed"
    "a' = a\<lparr>ae_status := Completed, ae_completed_at := Some now, ae_score := sc_global (compute_scores q a None)\<rparr>"
    "q' = q\<lparr>qz_assessments := upd_where (\<lambda>x. ae_id x = ae_id a) (\<lambda>x. a') (qz_assessments q)\<rparr>"
    "length (get_assessment_measures q a) \<le> length (list_answers q a)"
  using assms by (auto simp: complete_assessment_def Let_def split: if_splits)

lemma create_subset_frame [frame]:
  assumes "create_subset q r slug nm codes descr owner actor = (res, q')"
  shows "qz_assessments q' = qz_assessments q" "qz_answers q' = qz_answers q" "qz_measures q' = qz_measures q"
    "qz_seq q \<le> qz_seq q'"
  using assms by (auto simp: create_subset_def Let_def split: if_splits option.splits)

lemma quiz_step_ok: "quiz_step q q' \<Longrightarrow> quiz_ok q \<Longrightarrow> quiz_ok q'"
proof (induction rule: quiz_step.induct)
  case (step_domain slugify q r code nm descr x q')
  then show ?case by (force simp: add_domain_def Let_def quiz_ok_def split: if_splits)
next
  case (step_measure q r dc code title plain lvl w effort impact url source m q')
  then show ?case
    by (fastforce simp: add_measure_def Let_def quiz_ok_def split: if_splits option.splits)
next
  case (step_compose q r slug nm codes descr owner actor res q')
  from create_subset_frame [OF this(1)] this(2) show ?case by (fastforce simp: quiz_ok_def)
next
  case (step_override q t i plain memo actor)
  then show ?case by (simp add: set_measure_override_def quiz_ok_def Let_def)
next
  case (step_clear q t i)
  then show ?case by (simp add: clear_measure_override_def quiz_ok_def)
next
  case (step_start coll d now q t user r0 sb a q')
  from step_start(1) show ?case
  proof (cases rule: start_cases)
    case 1
    with step_start(2) show ?thesis by simp
  next
    case (2 r)
    with step_start(2) show ?thesis
      by (fastforce simp: quiz_ok_def intro!: at_most_one_Cons)
  qed
next
  case (step_answer a q m v memo w q')
  note s = submit_cases [OF step_answer(2)]
  have "map (\<lambda>w. (aw_assessment w, aw_measure w)) (upd_where (\<lambda>x. aw_assessment x = ae_id a \<and> aw_measure x = ms_id m) (\<lambda>x. w) (qz_answers q))
      = map (\<lambda>w. (aw_assessment w, aw_measure w)) (qz_answers q)"
    by (rule map_upd_where) (simp add: s)
  with step_answer(1,3) s show ?case
    by (auto simp: quiz_ok_def ball_upd_where split: if_splits)
next
  case (step_complete a q now a' q')
  note s = complete_cases [OF step_complete(2)]
  have "map ae_id (upd_where (\<lambda>x. ae_id x = ae_id a) (\<lambda>x. a') (qz_assessments q)) = map ae_id (qz_assessments q)"
    by (rule map_upd_where) (simp add: s)
  moreover have "at_most_one (\<lambda>a. ae_status a = In_progress) (\<lambda>a. (ae_tenant a, ae_referential a))
      (upd_where (\<lambda>x. ae_id x = ae_id a) (\<lambda>x. a') (qz_assessments q))"
    using step_complete(3) s by (intro at_most_one_upd) (auto simp: quiz_ok_def)
  ultimately show ?case using step_complete(1,3) s by (auto simp: quiz_ok_def ball_upd_where)
qed

lemma quiz_step_frozen:
  assumes "quiz_step q q'" "quiz_ok q" "a \<in> set (qz_assessments q)" "ae_status a = Completed"
  shows "a \<in> set (qz_assessments q') \<and> list_answers q' a = list_answers q a"
  using assms
proof (induction rule: quiz_step.induct)
  case (step_domain slugify q r code nm descr x q')
  then show ?case by (auto simp: add_domain_def Let_def list_answers_def split: if_splits)
next
  case (step_measure q r dc code title plain lvl w effort impact url source m q')
  then show ?case by (auto simp: add_measure_def Let_def list_answers_def split: if_splits option.splits)
next
  case (step_compose q r slug nm codes descr owner actor res q')
  with create_subset_frame [OF step_compose(1)] show ?case by (simp add: list_answers_def)
next
  case (step_override q t i plain memo actor)
  then show ?case by (simp add: set_measure_override_def list_answers_def Let_def)
next
  case (step_clear q t i)
  then show ?case by (simp add: clear_measure_override_def list_answers_def)
next
  case (step_start coll d now q t user r0 sb b q')
  from step_start(1) show ?case
    by (cases rule: start_cases) (use step_start in \<open>auto simp: list_answers_def\<close>)
next
  case (step_answer b q m v memo w q')
  note s = submit_cases [OF step_answer(2)]
  have "ae_id b \<noteq> ae_id a"
    using step_answer s(1) distinct_map_eq [of ae_id "qz_assessments q" b a] by (auto simp: quiz_ok_def)
  then have "filter (\<lambda>w. aw_assessment w = ae_id a)
      (upd_where (\<lambda>x. aw_assessment x = ae_id b \<and> aw_measure x = ms_id m) (\<lambda>x. w) (qz_answers q)) =
      filter (\<lambda>w. aw_assessment w = ae_id a) (qz_answers q)"
    by (intro filter_upd_where_other) (simp_all add: s)
  with \<open>ae_id b \<noteq> ae_id a\<close> show ?case
    using step_answer(4) s by (simp add: list_answers_def)
next
  case (step_complete b q now a' q')
  note s = complete_cases [OF step_complete(2)]
  have "ae_id b \<noteq> ae_id a"
    using step_complete s(1) distinct_map_eq [of ae_id "qz_assessments q" b a] by (auto simp: quiz_ok_def)
  with step_complete(4) s show ?case by (force simp: list_answers_def set_upd_where)
qed

section \<open>Scores\<close>

lemma round1_mono: "x \<le> y \<Longrightarrow> round1 x \<le> round1 y"
  by (simp add: round1_def py_round_mono divide_right_mono)

lemma round1_bounds: "0 \<le> x \<Longrightarrow> x \<le> 100 \<Longrightarrow> 0 \<le> round1 x \<and> round1 x \<le> 100"
proof -
  have "round1 0 = 0" "round1 100 = 100"
    using py_round_of_int [of 0] py_round_of_int [of 1000] by (simp_all add: round1_def)
  then show "0 \<le> x \<Longrightarrow> x \<le> 100 \<Longrightarrow> 0 \<le> round1 x \<and> round1 x \<le> 100"
    using round1_mono by metis
qed

definition gain :: "(int \<Rightarrow> answer_value option) \<Rightarrow> ref_measure \<Rightarrow> rat" where
  "gain vs m = (case vs (ms_id m) of None \<Rightarrow> 0
     | Some v \<Rightarrow> if v = Not_applicable then 0 else value_score v * ms_weight m)"

definition load :: "(int \<Rightarrow> answer_value option) \<Rightarrow> ref_measure \<Rightarrow> rat" where
  "load vs m = (case vs (ms_id m) of None \<Rightarrow> 0 | Some v \<Rightarrow> if v = Not_applicable then 0 else ms_weight m)"

lemma weigh_sums:
  "weigh vs ms (s, w) = (s + sum_list (map (gain vs) ms), w + sum_list (map (load vs) ms))"
  by (induction ms arbitrary: s w) (auto simp: gain_def load_def split: option.splits)

lemma score_sums:
  "score_from_values vs ms =
     (let w = sum_list (map (load vs) ms)
      in if w = 0 then None else Some (round1 (100 * sum_list (map (gain vs) ms) / w)))"
  by (simp add: score_from_values_def weigh_sums Let_def)

definition weights_ok :: "ref_measure list \<Rightarrow> bool" where
  "weights_ok ms = (\<forall>m \<in> set ms. 0 \<le> ms_weight m)"

lemma value_score_bounds: "0 \<le> value_score v \<and> value_score v \<le> 1"
  by (cases v) auto

lemma gain_load: "0 \<le> ms_weight m \<Longrightarrow> 0 \<le> gain vs m \<and> gain vs m \<le> load vs m"
  using value_score_bounds
  by (auto simp: gain_def load_def mult_left_le_one_le split: option.splits)

lemma sum_list_le:
  fixes f g :: "'r \<Rightarrow> rat"
  shows "(\<And>x. x \<in> set xs \<Longrightarrow> f x \<le> g x) \<Longrightarrow> sum_list (map f xs) \<le> sum_list (map g xs)"
  by (induction xs) (auto intro: add_mono)

lemma sum_list_pos:
  fixes f :: "'r \<Rightarrow> rat"
  shows "(\<And>x. x \<in> set xs \<Longrightarrow> 0 \<le> f x) \<Longrightarrow> 0 \<le> sum_list (map f xs)"
  by (induction xs) auto

lemma score_bounds:
  assumes "weights_ok ms" and "score_from_values vs ms = Some x"
  shows "0 \<le> x \<and> x \<le> 100"
proof -
  define S where "S = sum_list (map (gain vs) ms)"
  define W where "W = sum_list (map (load vs) ms)"
  have gl: "0 \<le> gain vs m \<and> gain vs m \<le> load vs m" if "m \<in> set ms" for m
    using assms(1) gain_load that by (simp add: weights_ok_def)
  have "0 \<le> S" unfolding S_def by (rule sum_list_pos) (simp add: gl)
  moreover have "S \<le> W" unfolding S_def W_def by (rule sum_list_le) (simp add: gl)
  moreover have x: "W \<noteq> 0" "x = round1 (100 * S / W)"
    using assms(2) by (auto simp: score_sums Let_def S_def W_def split: if_splits)
  ultimately have "0 \<le> 100 * S / W" "100 * S / W \<le> 100" by (simp_all add: divide_simps)
  with round1_bounds x(2) show ?thesis by simp
qed

text \<open>Answers at least as good: the same measures count, each for at least as much.\<close>

definition at_least :: "(int \<Rightarrow> answer_value option) \<Rightarrow> (int \<Rightarrow> answer_value option) \<Rightarrow> bool" where
  "at_least vs' vs =
     (\<forall>i. vs' i = vs i \<or>
        (case (vs i, vs' i) of
           (Some v, Some v') \<Rightarrow> v \<noteq> Not_applicable \<and> v' \<noteq> Not_applicable \<and> value_score v \<le> value_score v'
         | _ \<Rightarrow> False))"

lemma at_least_load: "at_least vs' vs \<Longrightarrow> load vs' m = load vs m"
  unfolding at_least_def load_def by (drule spec [of _ "ms_id m"]) (auto split: option.splits)

lemma at_least_gain: "at_least vs' vs \<Longrightarrow> 0 \<le> ms_weight m \<Longrightarrow> gain vs m \<le> gain vs' m"
  unfolding at_least_def gain_def
  by (drule spec [of _ "ms_id m"]) (auto simp: mult_right_mono split: option.splits)

lemma score_mono:
  assumes "weights_ok ms" and "at_least vs' vs"
  shows "score_from_values vs ms = None \<and> score_from_values vs' ms = None \<or>
    (\<exists>x x'. score_from_values vs ms = Some x \<and> score_from_values vs' ms = Some x' \<and> x \<le> x')"
proof -
  define W where "W = sum_list (map (load vs) ms)"
  have W': "sum_list (map (load vs') ms) = W"
    unfolding W_def by (simp only: at_least_load [OF assms(2)] cong: map_cong)
  have "0 \<le> load vs m" if "m \<in> set ms" for m
    using assms(1) that gain_load [of m vs] by (auto simp: weights_ok_def)
  then have "0 \<le> W" unfolding W_def by (rule sum_list_pos)
  moreover have "sum_list (map (gain vs) ms) \<le> sum_list (map (gain vs') ms)"
    using assms by (intro sum_list_le at_least_gain) (auto simp: weights_ok_def)
  ultimately have "round1 (100 * sum_list (map (gain vs) ms) / W) \<le> round1 (100 * sum_list (map (gain vs') ms) / W)"
    by (intro round1_mono divide_right_mono) simp_all
  then show ?thesis by (simp add: score_sums W' W_def [symmetric] Let_def)
qed

section \<open>Completion\<close>

lemma restrict_set [simp]: "set (restrict_to ids ms) = {m \<in> set ms. ms_id m \<in> set ids}"
  by (auto simp: restrict_to_def)

lemma distinct_sort_map: "distinct (map f xs) \<Longrightarrow> distinct (map f (sort_key g xs))"
  by (metis distinct_map distinct_sort set_sort)

lemma scope_distinct: "quiz_ok q \<Longrightarrow> distinct (map ms_id (get_assessment_measures q a))"
  by (auto simp: quiz_ok_def get_assessment_measures_def get_referential_measures_def restrict_to_def Let_def
      intro!: distinct_sort_map distinct_map_filter split: option.splits)

lemma answers_distinct:
  assumes "quiz_ok q" shows "distinct (map aw_measure (list_answers q a))"
proof -
  have "distinct (map (\<lambda>w. (aw_assessment w, aw_measure w)) (list_answers q a))"
    using assms by (auto simp: quiz_ok_def list_answers_def distinct_map_filter)
  then show ?thesis
    by (auto simp: distinct_map inj_on_def list_answers_def)
qed

lemma enough_answers:
  assumes "quiz_ok q" and "aw_measure ` set (list_answers q a) \<subseteq> ms_id ` set (get_assessment_measures q a)"
  shows "length (get_assessment_measures q a) \<le> length (list_answers q a) \<longleftrightarrow>
    ms_id ` set (get_assessment_measures q a) \<subseteq> aw_measure ` set (list_answers q a)"
proof -
  have m: "card (ms_id ` set (get_assessment_measures q a)) = length (get_assessment_measures q a)"
    using distinct_card [OF scope_distinct [OF assms(1), of a]] by simp
  have w: "card (aw_measure ` set (list_answers q a)) = length (list_answers q a)"
    using distinct_card [OF answers_distinct [OF assms(1), of a]] by simp
  show ?thesis
    using assms(2) m w card_mono [of "aw_measure ` set (list_answers q a)" "ms_id ` set (get_assessment_measures q a)"]
      card_seteq [of "ms_id ` set (get_assessment_measures q a)" "aw_measure ` set (list_answers q a)"]
    by fastforce
qed

section \<open>An example\<close>

definition demo_measure :: "int \<Rightarrow> string \<Rightarrow> ref_measure" where
  "demo_measure i c = \<lparr>ms_id = i, ms_referential = 1, ms_domain = 1, ms_code = c, ms_order = i, ms_title = c,
     ms_plain = c, ms_level = [], ms_weight = 1, ms_effort = Low, ms_impact = High, ms_source_url = [],
     ms_source_reference = []\<rparr>"

definition demo_quiz :: quiz where
  "demo_quiz = \<lparr>qz_seq = 3,
     qz_domains = [\<lparr>do_id = 1, do_referential = 1, do_code = ''d'', do_name = ''D'', do_description = [], do_order = 1\<rparr>],
     qz_measures = [demo_measure 2 ''m1'', demo_measure 3 ''m2''], qz_overrides = [], qz_subsets = [],
     qz_items = [], qz_assessments = [], qz_answers = []\<rparr>"

definition granting_db :: db where
  "granting_db = empty_db\<lparr>d_assignments := [\<lparr>as_tenant = 7, as_referential = 1, as_granted_by = None,
     as_revoked_at = None, as_revoked_by = None, as_note = []\<rparr>]\<rparr>"

definition demo_session :: assessment where
  "demo_session = \<lparr>ae_id = 5, ae_tenant = 7, ae_referential = 1, ae_subset = Some 4, ae_status = In_progress,
     ae_started_by = None, ae_started_at = 0, ae_completed_at = None, ae_score = None\<rparr>"

text \<open>A composition of the first measure is started and answered, then composed again of the second.\<close>

definition composed :: quiz where
  "composed = snd (create_subset demo_quiz 1 ''s'' ''S'' [''m1''] [] (Some 7) None)"

definition started :: "assessments_error + assessment \<times> quiz" where
  "started = start_or_resume_assessment (\<lambda>s. 0) granting_db 0 composed 7 None (Some 1)
     (get_subset (\<lambda>s. 0) composed 7 (Inr ''s''))"

definition answered :: "assessments_error + answer \<times> quiz" where
  "answered = submit_answer (snd (projr started)) demo_session (demo_measure 2 ''m1'') Yes []"

definition recomposed :: quiz where
  "recomposed = snd (create_subset (snd (projr answered)) 1 ''s'' ''S'' [''m2''] [] (Some 7) None)"

lemma demo_composed:
  "create_subset demo_quiz 1 ''s'' ''S'' [''m1''] [] (Some 7) None =
     (Inr \<lparr>sb_id = 4, sb_referential = 1, sb_slug = ''s'', sb_name = ''S'', sb_description = [], sb_owner = Some 7,
        sb_active = True, sb_created_by = None\<rparr>, composed)"
  "composed = demo_quiz\<lparr>qz_seq := 4, qz_subsets := [\<lparr>sb_id = 4, sb_referential = 1, sb_slug = ''s'', sb_name = ''S'',
     sb_description = [], sb_owner = Some 7, sb_active = True, sb_created_by = None\<rparr>],
     qz_items := [\<lparr>si_subset = 4, si_measure = 2, si_order = 1\<rparr>]\<rparr>"
  by (simp_all add: composed_def create_subset_def demo_quiz_def demo_measure_def List.map_filter_def
      enumerate_items_def Let_def)

lemma demo_started: "started = Inr (demo_session, composed\<lparr>qz_seq := 5, qz_assessments := [demo_session]\<rparr>)"
  by (simp add: started_def start_or_resume_assessment_def get_subset_def list_subsets_def demo_composed(2)
      demo_quiz_def is_granted_def active_assignment_def granting_db_def get_current_assessment_def latest_def
      demo_session_def Let_def)

lemma demo_answered:
  "answered = Inr (\<lparr>aw_assessment = 5, aw_measure = 2, aw_value = Yes, aw_note = []\<rparr>,
     composed\<lparr>qz_seq := 5, qz_assessments := [demo_session],
       qz_answers := [\<lparr>aw_assessment = 5, aw_measure = 2, aw_value = Yes, aw_note = []\<rparr>]\<rparr>)"
  by (simp add: answered_def demo_started submit_answer_def demo_session_def demo_measure_def subset_measure_ids_def
      demo_composed(2) demo_quiz_def Let_def)

lemma demo_recomposed:
  "recomposed = snd (projr answered)\<lparr>qz_items := [\<lparr>si_subset = 4, si_measure = 3, si_order = 1\<rparr>]\<rparr>"
  by (simp add: recomposed_def demo_answered demo_composed(2) create_subset_def demo_quiz_def demo_measure_def
      List.map_filter_def enumerate_items_def Let_def)

lemma demo_run: "quiz_step\<^sup>*\<^sup>* demo_quiz recomposed"
proof -
  let ?s = "snd (projr started)" and ?w = "snd (projr answered)"
  have "quiz_step demo_quiz composed" by (rule step_compose [OF demo_composed(1)])
  moreover have "quiz_step composed ?s"
    using step_start [OF demo_started [unfolded started_def]] by (simp add: demo_started)
  moreover have "demo_session \<in> set (qz_assessments ?s)" by (simp add: demo_started)
  then have "quiz_step ?s ?w"
    using step_answer [OF _ demo_answered [unfolded answered_def]] by (simp add: demo_answered)
  moreover have "quiz_step ?w recomposed"
    unfolding recomposed_def by (rule step_compose) (rule prod.collapse [symmetric])
  ultimately show ?thesis by (meson converse_rtranclp_into_rtranclp rtranclp.rtrancl_refl)
qed

lemma demo_quiz_ok: "quiz_ok demo_quiz"
  by (simp add: quiz_ok_def demo_quiz_def demo_measure_def)

lemma quiz_run_ok: "quiz_step\<^sup>*\<^sup>* q q' \<Longrightarrow> quiz_ok q \<Longrightarrow> quiz_ok q'"
  by (induction rule: rtranclp_induct) (auto intro: quiz_step_ok)

lemma demo_scope:
  "get_assessment_measures recomposed demo_session = [demo_measure 3 ''m2'']"
  "list_answers recomposed demo_session = [\<lparr>aw_assessment = 5, aw_measure = 2, aw_value = Yes, aw_note = []\<rparr>]"
  by (simp_all add: get_assessment_measures_def get_referential_measures_def demo_recomposed demo_answered
      demo_composed(2) demo_quiz_def demo_session_def restrict_to_def subset_measure_ids_def list_answers_def
      demo_measure_def Let_def)

lemma demo_no_score: "sc_global (compute_scores recomposed demo_session None) = None"
  by (simp add: compute_scores_def demo_scope get_answer_values_def score_sums load_def demo_measure_def Let_def)

section \<open>Properties\<close>

text \<open>
  C16: What was completed stays as it was: whatever is composed, answered, reformulated, started or
  completed afterwards, a completed assessment keeps its score, its date and its answers; and a
  company never has two assessments in progress on the same referential.
\<close>

theorem completed_is_frozen:
  assumes "quiz_step\<^sup>*\<^sup>* q q'" and "quiz_ok q"
  shows "(\<forall>a \<in> set (qz_assessments q). ae_status a = Completed \<longrightarrow>
        a \<in> set (qz_assessments q') \<and> list_answers q' a = list_answers q a) \<and>
    (\<forall>a \<in> set (qz_assessments q'). \<forall>b \<in> set (qz_assessments q').
        ae_status a = In_progress \<and> ae_status b = In_progress \<and> ae_tenant a = ae_tenant b \<and>
        ae_referential a = ae_referential b \<longrightarrow> a = b)"
proof (rule conjI)
  show "\<forall>a \<in> set (qz_assessments q). ae_status a = Completed \<longrightarrow>
      a \<in> set (qz_assessments q') \<and> list_answers q' a = list_answers q a"
    using assms(1)
  proof (induction rule: rtranclp_induct)
    case (step q1 q2)
    then have "quiz_ok q1" using quiz_run_ok assms(2) by blast
    with step quiz_step_frozen [OF step(2)] show ?case by metis
  qed simp
  have "at_most_one (\<lambda>a. ae_status a = In_progress) (\<lambda>a. (ae_tenant a, ae_referential a)) (qz_assessments q')"
    using quiz_run_ok [OF assms] by (simp add: quiz_ok_def)
  from at_most_oneD [OF this]
  show "\<forall>a \<in> set (qz_assessments q'). \<forall>b \<in> set (qz_assessments q').
      ae_status a = In_progress \<and> ae_status b = In_progress \<and> ae_tenant a = ae_tenant b \<and>
      ae_referential a = ae_referential b \<longrightarrow> a = b" by simp
qed

theorem completed_is_frozen_witness:
  "quiz_step\<^sup>*\<^sup>* demo_quiz recomposed \<and>
   {a \<in> set (qz_assessments recomposed). ae_status a = In_progress \<and> ae_tenant a = 7 \<and> ae_referential a = 1}
     = {demo_session}"
proof -
  have m: "demo_session \<in> set (qz_assessments recomposed)"
    by (simp add: demo_recomposed demo_answered)
  have "a = demo_session" if "a \<in> set (qz_assessments recomposed)"
    "ae_status a = In_progress \<and> ae_tenant a = 7 \<and> ae_referential a = 1" for a
    using completed_is_frozen [OF demo_run demo_quiz_ok, THEN conjunct2, THEN bspec, THEN bspec, OF that(1) m] that(2)
    by (simp add: demo_session_def)
  moreover have "ae_status demo_session = In_progress \<and> ae_tenant demo_session = 7 \<and> ae_referential demo_session = 1"
    by (simp add: demo_session_def)
  ultimately show ?thesis using m demo_run by blast
qed

text \<open>
  C15: The score is a fair percentage: with weights that are not negative it lies between 0 and 100,
  it exists exactly when answered, applicable measures carry some weight, and replacing answers by
  better ones never lowers it.
\<close>

theorem score_fair:
  assumes "\<forall>m \<in> set ms. 0 \<le> ms_weight m" and "at_least vs' vs"
  shows "case (score_from_values vs ms, score_from_values vs' ms) of
      (None, None) \<Rightarrow> \<forall>m \<in> set ms. vs (ms_id m) \<in> {None, Some Not_applicable} \<or> ms_weight m = 0
    | (Some x, Some x') \<Rightarrow> 0 \<le> x \<and> x \<le> x' \<and> x' \<le> 100 \<and>
        (\<exists>m \<in> set ms. vs (ms_id m) \<notin> {None, Some Not_applicable} \<and> 0 < ms_weight m)
    | _ \<Rightarrow> False"
proof -
  have ok: "weights_ok ms" using assms(1) by (simp add: weights_ok_def)
  have pos: "0 \<le> load vs m" if "m \<in> set ms" for m
    using assms(1) that by (auto simp: load_def split: option.splits)
  have zero: "sum_list (map (load vs) ms) = 0 \<longleftrightarrow> (\<forall>m \<in> set ms. load vs m = 0)"
    using pos by (subst sum_list_nonneg_eq_0_iff) auto
  have none: "score_from_values vs ms = None \<longleftrightarrow>
      (\<forall>m \<in> set ms. vs (ms_id m) \<in> {None, Some Not_applicable} \<or> ms_weight m = 0)"
    unfolding score_sums Let_def zero[symmetric, THEN sym] using zero
    by (auto simp: load_def split: option.splits if_splits)
  from score_mono [OF ok assms(2)] show ?thesis
  proof
    assume "score_from_values vs ms = None \<and> score_from_values vs' ms = None"
    with none show ?thesis by simp
  next
    assume "\<exists>x x'. score_from_values vs ms = Some x \<and> score_from_values vs' ms = Some x' \<and> x \<le> x'"
    then obtain x x' where s: "score_from_values vs ms = Some x" "score_from_values vs' ms = Some x'" "x \<le> x'"
      by blast
    with none assms(1) have "\<exists>m \<in> set ms. vs (ms_id m) \<notin> {None, Some Not_applicable} \<and> 0 < ms_weight m"
      by (auto simp: order.order_iff_strict)
    with s score_bounds [OF ok s(1)] score_bounds [OF ok s(2)] show ?thesis by simp
  qed
qed

theorem score_fair_witness:
  "score_from_values (\<lambda>i. if i = 2 then Some Partial else Some No) [demo_measure 2 ''m1'', demo_measure 3 ''m2''] = Some 25 \<and>
   (\<exists>x. score_from_values (\<lambda>i. if i = 2 then Some Yes else Some No) [demo_measure 2 ''m1'', demo_measure 3 ''m2''] = Some x \<and>
        25 \<le> x)"
proof -
  let ?ms = "[demo_measure 2 ''m1'', demo_measure 3 ''m2'']"
  let ?v = "\<lambda>i :: int. if i = 2 then Some Partial else Some No"
  let ?w = "\<lambda>i :: int. if i = 2 then Some Yes else Some No"
  have a: "score_from_values ?v ?ms = Some 25"
    using py_round_of_int [of 250] by (simp add: score_sums gain_def load_def demo_measure_def round1_def)
  have "at_least ?w ?v" by (simp add: at_least_def)
  moreover have "\<forall>m \<in> set ?ms. 0 \<le> ms_weight m" by (simp add: demo_measure_def)
  ultimately show ?thesis using score_fair [of ?ms ?w ?v] a by (auto split: option.splits)
qed

text \<open>
  An assessment is completed exactly when every question is answered, as long as its answers are
  about the measures it covers: otherwise it is refused with the two counts. The composition it
  covers is read again at completion, and composing it anew in between lets an assessment be
  completed with none of its questions answered and no score.
\<close>

theorem completion_exact:
  assumes "quiz_ok q" and "ae_status a = In_progress"
    and "aw_measure ` set (list_answers q a) \<subseteq> ms_id ` set (get_assessment_measures q a)"
  shows "((\<exists>r. complete_assessment now q a = Inr r) \<longleftrightarrow>
        (\<forall>m \<in> set (get_assessment_measures q a). \<exists>w \<in> set (list_answers q a). aw_measure w = ms_id m)) \<and>
    (\<forall>e. complete_assessment now q a = Inl e \<longrightarrow>
        e = Incomplete (length (list_answers q a)) (length (get_assessment_measures q a))) \<and>
    (\<exists>q a a' q'. quiz_step\<^sup>*\<^sup>* demo_quiz q \<and> a \<in> set (qz_assessments q) \<and>
        complete_assessment now q a = Inr (a', q') \<and> ae_score a' = None \<and> get_assessment_measures q a \<noteq> [] \<and>
        (\<forall>m \<in> set (get_assessment_measures q a). \<forall>w \<in> set (list_answers q a). aw_measure w \<noteq> ms_id m))"
proof (rule conj3I)
  have "(\<exists>r. complete_assessment now q a = Inr r) \<longleftrightarrow>
      length (get_assessment_measures q a) \<le> length (list_answers q a)"
    using assms(2) by (auto simp: complete_assessment_def Let_def)
  then show "(\<exists>r. complete_assessment now q a = Inr r) \<longleftrightarrow>
      (\<forall>m \<in> set (get_assessment_measures q a). \<exists>w \<in> set (list_answers q a). aw_measure w = ms_id m)"
    unfolding enough_answers [OF assms(1,3)] by (auto simp: subset_iff image_iff) (metis, metis)
  show "\<forall>e. complete_assessment now q a = Inl e \<longrightarrow>
      e = Incomplete (length (list_answers q a)) (length (get_assessment_measures q a))"
    using assms(2) by (auto simp: complete_assessment_def Let_def)
  have "ae_status demo_session = In_progress" by (simp add: demo_session_def)
  then obtain a' q' where "complete_assessment now recomposed demo_session = Inr (a', q')" "ae_score a' = None"
    using demo_no_score by (simp add: complete_assessment_def demo_scope Let_def)
  moreover have "demo_session \<in> set (qz_assessments recomposed)" by (simp add: demo_recomposed demo_answered)
  ultimately show "\<exists>q a a' q'. quiz_step\<^sup>*\<^sup>* demo_quiz q \<and> a \<in> set (qz_assessments q) \<and>
      complete_assessment now q a = Inr (a', q') \<and> ae_score a' = None \<and> get_assessment_measures q a \<noteq> [] \<and>
      (\<forall>m \<in> set (get_assessment_measures q a). \<forall>w \<in> set (list_answers q a). aw_measure w \<noteq> ms_id m)"
    using demo_run demo_scope by - (rule exI [of _ recomposed], rule exI [of _ demo_session], rule exI [of _ a'], rule exI [of _ q'],
      simp add: demo_measure_def)
qed

theorem completion_exact_example:
  "(\<exists>r. complete_assessment 9 (snd (projr answered)) demo_session = Inr r) \<and>
   \<not> (\<exists>r. complete_assessment 9 (snd (projr started)) demo_session = Inr r)"
proof -
  have "quiz_step\<^sup>*\<^sup>* demo_quiz (snd (projr started))"
  proof -
    have "quiz_step demo_quiz composed" by (rule step_compose [OF demo_composed(1)])
    moreover have "quiz_step composed (snd (projr started))"
      using step_start [OF demo_started [unfolded started_def]] by (simp add: demo_started)
    ultimately show ?thesis by simp
  qed
  then have s: "quiz_ok (snd (projr started))" using quiz_run_ok demo_quiz_ok by blast
  have "quiz_step (snd (projr started)) (snd (projr answered))"
    using step_answer [OF _ demo_answered [unfolded answered_def]] by (simp add: demo_answered demo_started)
  then have w: "quiz_ok (snd (projr answered))" using s by (rule quiz_step_ok)
  have scope: "get_assessment_measures (snd (projr started)) demo_session = [demo_measure 2 ''m1'']"
    "get_assessment_measures (snd (projr answered)) demo_session = [demo_measure 2 ''m1'']"
    "list_answers (snd (projr started)) demo_session = []"
    "list_answers (snd (projr answered)) demo_session = [\<lparr>aw_assessment = 5, aw_measure = 2, aw_value = Yes, aw_note = []\<rparr>]"
    by (simp_all add: get_assessment_measures_def get_referential_measures_def demo_started demo_answered
      demo_composed(2) demo_quiz_def demo_session_def restrict_to_def subset_measure_ids_def list_answers_def
      demo_measure_def Let_def)
  have "ae_status demo_session = In_progress" by (simp add: demo_session_def)
  from completion_exact [OF s this, of 9, THEN conjunct1] completion_exact [OF w this, of 9, THEN conjunct1] show ?thesis
    by (simp add: scope) (simp add: demo_measure_def)
qed

end
