(* ===== verification/ActionsSafety.thy ===== *)
theory ActionsSafety
  imports Actions AssessmentsSafety
begin

text \<open>
  The plan and the diagnostic together: every item answers a gap of a completed assessment, so
  finishing items never lowers the score the plan leads to; the daily series counts what it says.
\<close>

section \<open>Lemmas\<close>

text \<open>
  The two modules together: the plan is generated for a completed assessment, as the view that
  completes it does.
\<close>

inductive plan_step :: "quiz \<times> board \<Rightarrow> quiz \<times> board \<Rightarrow> bool" where
  step_quiz: "quiz_step q q' \<Longrightarrow> plan_step (q, b) (q', b)"
| step_generate: "a \<in> set (qz_assessments q) \<Longrightarrow> ae_status a = Completed \<Longrightarrow>
    generate_action_plan now q b a = (n, b') \<Longrightarrow> plan_step (q, b) (q, b')"
| step_status: "update_status now b i st = (i', b') \<Longrightarrow> plan_step (q, b) (q, b')"
| step_due: "set_due_date b i due = (i', b') \<Longrightarrow> plan_step (q, b) (q, b')"
| step_assign: "assign_action_item d b i user = Inr (i', b') \<Longrightarrow> plan_step (q, b) (q, b')"
| step_memo: "set_note b i s = (i', b') \<Longrightarrow> plan_step (q, b) (q, b')"

text \<open>Every item answers a gap of a completed assessment.\<close>

definition item_grounded :: "quiz \<Rightarrow> action_item \<Rightarrow> bool" where
  "item_grounded q i =
     (\<exists>a \<in> set (qz_assessments q). ae_id a = ai_assessment i \<and> ae_status a = Completed \<and>
        (\<exists>v \<in> GAP_VALUES. get_answer_values q a (ai_measure i) = Some v))"

definition plan_ok :: "quiz \<times> board \<Rightarrow> bool" where
  "plan_ok s = (quiz_ok (fst s) \<and> (\<forall>i \<in> set (bd_items (snd s)). item_grounded (fst s) i))"

lemma values_of_answers: "list_answers q' a = list_answers q a \<Longrightarrow> get_answer_values q' a = get_answer_values q a"
  by (simp add: get_answer_values_def)

lemma grounded_step: "quiz_step q q' \<Longrightarrow> quiz_ok q \<Longrightarrow> item_grounded q i \<Longrightarrow> item_grounded q' i"
  unfolding item_grounded_def
  by (metis quiz_step_frozen values_of_answers)

lemma generate_new:
  assumes "\<not> (case vs (ms_id m) of None \<Rightarrow> True | Some v \<Rightarrow> v \<notin> GAP_VALUES)"
    and "\<not> (\<exists>i \<in> set (bd_items b). ai_assessment i = ae_id a \<and> ai_measure i = ms_id m)"
  shows "generate_items now a vs (m # ms) (n, b) = generate_items now a vs ms (n + 1,
        b\<lparr>bd_seq := bd_seq b + 1,
          bd_items := \<lparr>ai_id = bd_seq b + 1, ai_tenant = ae_tenant a, ai_assessment = ae_id a, ai_measure = ms_id m,
             ai_status = Todo, ai_assignee = None, ai_note = [], ai_due = None, ai_completed_at = None,
             ai_created_at = now\<rparr> # bd_items b\<rparr>)"
  by (simp only: generate_items.simps if_not_P [OF assms(1)] if_not_P [OF assms(2)])

lemma generate_items_from:
  assumes "generate_items now a vs ms (n, b) = (n', b')" and "i \<in> set (bd_items b')"
  shows "i \<in> set (bd_items b) \<or> ai_assessment i = ae_id a \<and> (\<exists>v \<in> GAP_VALUES. vs (ai_measure i) = Some v)"
  using assms
proof (induction ms arbitrary: n b)
  case (Cons m ms)
  show ?case
  proof (cases "(case vs (ms_id m) of None \<Rightarrow> True | Some v \<Rightarrow> v \<notin> GAP_VALUES) \<or>
      (\<exists>i \<in> set (bd_items b). ai_assessment i = ae_id a \<and> ai_measure i = ms_id m)")
    case True
    with Cons.prems have "generate_items now a vs ms (n, b) = (n', b')" by (auto split: if_splits)
    with Cons show ?thesis by blast
  next
    case False
    then have new: "\<not> (case vs (ms_id m) of None \<Rightarrow> True | Some v \<Rightarrow> v \<notin> GAP_VALUES)"
      and old: "\<not> (\<exists>i \<in> set (bd_items b). ai_assessment i = ae_id a \<and> ai_measure i = ms_id m)" by simp_all
    note this = Cons.prems(1) [unfolded generate_new [where vs = vs and a = a and b = b, OF new old]]
    from Cons.IH [OF this Cons.prems(2)] False show ?thesis by (auto split: option.splits)
  qed
qed simp

lemma save_item_grounded:
  assumes "save_item i f b = (i', b')" and "\<And>x. ai_assessment (f x) = ai_assessment x \<and> ai_measure (f x) = ai_measure x"
    and "\<forall>x \<in> set (bd_items b). item_grounded q x"
  shows "\<forall>x \<in> set (bd_items b'). item_grounded q x"
proof
  fix y assume "y \<in> set (bd_items b')"
  with assms(1) obtain x where "x \<in> set (bd_items b)" "y = x \<or> y = f x"
    by (auto simp: save_item_def elim!: in_upd_whereE split: if_splits)
  with assms(2,3) show "item_grounded q y" by (auto simp: item_grounded_def)
qed

lemma plan_step_ok: "plan_step s s' \<Longrightarrow> plan_ok s \<Longrightarrow> plan_ok s'"
proof (induction rule: plan_step.induct)
  case (step_quiz q q' b)
  then show ?case by (auto simp: plan_ok_def intro: quiz_step_ok grounded_step)
next
  case (step_generate a q now b n b')
  then show ?case
    by (auto simp: plan_ok_def generate_action_plan_def item_grounded_def dest!: generate_items_from)
next
  case (step_status now b i st i' b' q)
  then show ?case unfolding update_status_def plan_ok_def by (auto dest!: save_item_grounded)
next
  case (step_due b i due i' b' q)
  then show ?case unfolding set_due_date_def plan_ok_def by (auto dest!: save_item_grounded)
next
  case (step_assign d b i user i' b' q)
  then show ?case unfolding assign_action_item_def plan_ok_def by (auto dest!: save_item_grounded split: if_splits)
next
  case (step_memo b i s i' b' q)
  then show ?case unfolding set_note_def plan_ok_def by (auto dest!: save_item_grounded)
qed

lemma plan_run_ok: "plan_step\<^sup>*\<^sup>* s s' \<Longrightarrow> plan_ok s \<Longrightarrow> plan_ok s'"
  by (induction rule: rtranclp_induct) (auto intro: plan_step_ok)

lemma projected_at_least:
  assumes "plan_ok (q, b)" and "a \<in> set (qz_assessments q)"
  shows "at_least (projected_values q b a) (get_answer_values q a)"
proof -
  have "get_answer_values q a i = projected_values q b a i \<or>
      (\<exists>v. get_answer_values q a i = Some v \<and> v \<noteq> Not_applicable \<and> projected_values q b a i = Some Yes)" for i
  proof (cases "\<exists>x \<in> set (bd_items b). ai_assessment x = ae_id a \<and> ai_status x = Done \<and> ai_measure x = i")
    case True
    then obtain x where x: "x \<in> set (bd_items b)" "ai_assessment x = ae_id a" "ai_measure x = i" by blast
    with assms(1) have "item_grounded q x" by (simp add: plan_ok_def)
    then obtain a2 v where a2: "a2 \<in> set (qz_assessments q)" "ae_id a2 = ae_id a"
      and v: "v \<in> GAP_VALUES" "get_answer_values q a2 i = Some v"
      using x by (auto simp: item_grounded_def)
    have "a2 = a"
      using assms a2 distinct_map_eq [of ae_id "qz_assessments q" a2 a] by (simp add: plan_ok_def quiz_ok_def)
    with v True show ?thesis by (auto simp: projected_values_def FULL_CREDIT_VALUE_def GAP_VALUES_def)
  next
    case False
    then show ?thesis by (auto simp: projected_values_def)
  qed
  note each = this
  have le: "value_score v \<le> value_score Yes" for v by (cases v) auto
  show ?thesis
    unfolding at_least_def
  proof
    fix i
    from each [of i] show "projected_values q b a i = get_answer_values q a i \<or>
        (case (get_answer_values q a i, projected_values q b a i) of
           (Some v, Some v') \<Rightarrow> v \<noteq> Not_applicable \<and> v' \<noteq> Not_applicable \<and> value_score v \<le> value_score v'
         | _ \<Rightarrow> False)"
      using le by auto
  qed
qed

lemma group_weights:
  "\<forall>m \<in> set ms. 0 \<le> ms_weight m \<Longrightarrow> (dm, xs) \<in> set (group_by_domain q r ms) \<Longrightarrow> weights_ok xs"
  by (auto simp: group_by_domain_def weights_ok_def)

definition not_lower :: "rat option \<Rightarrow> rat option \<Rightarrow> bool" where
  "not_lower new old = (case (old, new) of (None, None) \<Rightarrow> True | (Some x, Some y) \<Rightarrow> x \<le> y | _ \<Rightarrow> False)"

lemma score_not_lower:
  "weights_ok ms \<Longrightarrow> at_least vs' vs \<Longrightarrow> not_lower (score_from_values vs' ms) (score_from_values vs ms)"
  using score_mono [of ms vs' vs] by (auto simp: not_lower_def)

text \<open>The series: the count of a field up to a day is the count before plus the buckets.\<close>

lemma bucket_split:
  assumes "\<And>x y. x \<le> y \<Longrightarrow> local_date x \<le> local_date y" and "local_date from_t \<le> day"
  shows "length (filter (\<lambda>i. case f i of None \<Rightarrow> False | Some x \<Rightarrow> x < from_t \<or> x \<le> to_t \<and> local_date x \<le> day) rows) =
    length (filter (\<lambda>i. case f i of None \<Rightarrow> False | Some x \<Rightarrow> x < from_t \<or> x \<le> to_t \<and> local_date x \<le> day - 1) rows) +
    bucket local_date from_t to_t f rows day"
proof (induction rows)
  case (Cons i rows)
  show ?case
  proof (cases "f i")
    case None
    with Cons show ?thesis by (simp add: bucket_def)
  next
    case (Some x)
    have "x < from_t \<Longrightarrow> local_date x \<le> local_date from_t" using assms(1) by simp
    with Cons Some assms(2) show ?thesis by (auto simp: bucket_def)
  qed
qed (simp add: bucket_def)

definition upto_count :: "(time \<Rightarrow> date) \<Rightarrow> time \<Rightarrow> time \<Rightarrow> (action_item \<Rightarrow> time option) \<Rightarrow> action_item list \<Rightarrow> date \<Rightarrow> nat" where
  "upto_count local_date from_t to_t f rows day =
     length (filter (\<lambda>i. case f i of None \<Rightarrow> False | Some x \<Rightarrow> x < from_t \<or> x \<le> to_t \<and> local_date x \<le> day) rows)"

lemma series_loop_counts:
  assumes "\<And>x y. x \<le> y \<Longrightarrow> local_date x \<le> local_date y"
  shows "local_date from_t \<le> day \<Longrightarrow>
    series_loop (bucket local_date from_t to_t f rows) (bucket local_date from_t to_t g rows) (nat (j - day + 1)) day
      (upto_count local_date from_t to_t f rows (day - 1), upto_count local_date from_t to_t g rows (day - 1)) =
    map (\<lambda>d. let n = upto_count local_date from_t to_t g rows d; w = upto_count local_date from_t to_t f rows d
             in \<lparr>dy_date = d, dy_done = n, dy_total = w, dy_rate = completion_rate n w\<rparr>) [day..j]"
proof (induction "nat (j - day + 1)" arbitrary: day)
  case 0
  then show ?case by simp
next
  case (Suc n)
  have sp: "upto_count local_date from_t to_t h rows day =
      upto_count local_date from_t to_t h rows (day - 1) + bucket local_date from_t to_t h rows day" for h
    unfolding upto_count_def by (rule bucket_split) (use assms Suc.prems in auto)
  have n: "n = nat (j - (day + 1) + 1)" and d: "day \<le> j" using Suc.hyps(2) by linarith+
  from Suc.hyps(1) [OF n] Suc.prems n
  have IH: "series_loop (bucket local_date from_t to_t f rows) (bucket local_date from_t to_t g rows) n (day + 1)
      (upto_count local_date from_t to_t f rows day, upto_count local_date from_t to_t g rows day) =
    map (\<lambda>d. let n = upto_count local_date from_t to_t g rows d; w = upto_count local_date from_t to_t f rows d
             in \<lparr>dy_date = d, dy_done = n, dy_total = w, dy_rate = completion_rate n w\<rparr>) [day + 1..j]" by simp
  show ?case
    unfolding Suc.hyps(2) [symmetric] upto_rec1 [OF d] list.map series_loop.simps Let_def sp [symmetric]
    using IH by (simp add: Let_def)
qed

lemma upto_count_before:
  assumes "\<And>x y. x \<le> y \<Longrightarrow> local_date x \<le> local_date y"
  shows "length (filter (\<lambda>i. case f i of None \<Rightarrow> False | Some x \<Rightarrow> x < from_t) rows) =
    upto_count local_date from_t to_t f rows (local_date from_t - 1)"
proof -
  have "x < from_t" if "local_date x \<le> local_date from_t - 1" for x
    using assms [of from_t x] that by linarith
  then show ?thesis
    unfolding upto_count_def by (intro arg_cong [where f = length] filter_cong) (auto split: option.splits)
qed

lemma generate_step:
  obtains n1 b1 where "generate_items now a vs (m # ms) (n, b) = generate_items now a vs ms (n1, b1)"
    and "set (bd_items b) \<subseteq> set (bd_items b1)"
proof (cases "(case vs (ms_id m) of None \<Rightarrow> True | Some v \<Rightarrow> v \<notin> GAP_VALUES) \<or>
    (\<exists>i \<in> set (bd_items b). ai_assessment i = ae_id a \<and> ai_measure i = ms_id m)")
  case True
  then have "generate_items now a vs (m # ms) (n, b) = generate_items now a vs ms (n, b)"
    unfolding generate_items.simps by (elim disjE) (simp_all only: if_True if_cancel)
  then show thesis by (rule that) simp
next
  case False
  then have new: "\<not> (case vs (ms_id m) of None \<Rightarrow> True | Some v \<Rightarrow> v \<notin> GAP_VALUES)"
    and old: "\<not> (\<exists>i \<in> set (bd_items b). ai_assessment i = ae_id a \<and> ai_measure i = ms_id m)" by simp_all
  show thesis
    using that [OF generate_new [where vs = vs and a = a and b = b, OF new old]] by auto
qed

lemma generate_keeps:
  "generate_items now a vs ms (n, b) = (n', b') \<Longrightarrow> set (bd_items b) \<subseteq> set (bd_items b')"
proof (induction ms arbitrary: n b)
  case (Cons m ms)
  obtain n1 b1 where "generate_items now a vs (m # ms) (n, b) = generate_items now a vs ms (n1, b1)"
    and "set (bd_items b) \<subseteq> set (bd_items b1)" by (rule generate_step)
  with Cons show ?case by auto
qed simp

lemma generate_covers:
  assumes "generate_items now a vs ms (n, b) = (n', b')" and "m \<in> set ms" and "v \<in> GAP_VALUES" "vs (ms_id m) = Some v"
  shows "\<exists>i \<in> set (bd_items b'). ai_assessment i = ae_id a \<and> ai_measure i = ms_id m"
  using assms
proof (induction ms arbitrary: n b)
  case (Cons k ks)
  show ?case
  proof (cases "m = k")
    case True
    show ?thesis
    proof (cases "\<exists>i \<in> set (bd_items b). ai_assessment i = ae_id a \<and> ai_measure i = ms_id m")
      case True
      with generate_keeps [OF Cons.prems(1)] show ?thesis by blast
    next
      case False
      with Cons.prems(3,4) True have new: "\<not> (case vs (ms_id k) of None \<Rightarrow> True | Some v \<Rightarrow> v \<notin> GAP_VALUES)"
        and old: "\<not> (\<exists>i \<in> set (bd_items b). ai_assessment i = ae_id a \<and> ai_measure i = ms_id k)" by simp_all
      note this = Cons.prems(1) [unfolded generate_new [where vs = vs and a = a and b = b, OF new old]]
      from generate_keeps [OF this] True show ?thesis
        by (intro bexI [where x = "\<lparr>ai_id = bd_seq b + 1, ai_tenant = ae_tenant a, ai_assessment = ae_id a,
             ai_measure = ms_id k, ai_status = Todo, ai_assignee = None, ai_note = [], ai_due = None,
             ai_completed_at = None, ai_created_at = now\<rparr>"]) simp_all
    qed
  next
    case False
    with Cons.prems(2) have m: "m \<in> set ks" by simp
    obtain n1 b1 where "generate_items now a vs (k # ks) (n, b) = generate_items now a vs ks (n1, b1)"
      by (rule generate_step)
    with Cons.IH m Cons.prems(1,3,4) show ?thesis by metis
  qed
qed simp

lemma generate_again:
  "\<forall>m \<in> set ms. \<forall>v \<in> GAP_VALUES. vs (ms_id m) = Some v \<longrightarrow>
     (\<exists>i \<in> set (bd_items b). ai_assessment i = ae_id a \<and> ai_measure i = ms_id m) \<Longrightarrow>
   generate_items now a vs ms (n, b) = (n, b)"
  by (induction ms) (auto split: option.splits)

text \<open>What one generation adds: the items in front of the old ones, for measures that had none.\<close>

abbreviation item_key :: "action_item \<Rightarrow> int \<times> int" where
  "item_key i \<equiv> (ai_assessment i, ai_measure i)"

definition fresh_item :: "(int \<Rightarrow> answer_value option) \<Rightarrow> assessment \<Rightarrow> action_item \<Rightarrow> bool" where
  "fresh_item vs a i =
     (ai_assessment i = ae_id a \<and> ai_tenant i = ae_tenant a \<and> ai_status i = Todo \<and>
      (\<exists>v \<in> GAP_VALUES. vs (ai_measure i) = Some v))"

lemma generate_shape:
  assumes "generate_items now a vs ms (n, b) = (n', b')"
  shows "\<exists>new. bd_items b' = new @ bd_items b \<and> n' = n + length new \<and> distinct (map item_key new) \<and>
     list_all (fresh_item vs a) new \<and> set (map item_key new) \<inter> set (map item_key (bd_items b)) = {}"
  using assms
proof (induction ms arbitrary: n b)
  case Nil
  then show ?case by simp
next
  case (Cons m ms)
  show ?case
  proof (cases "(case vs (ms_id m) of None \<Rightarrow> True | Some v \<Rightarrow> v \<notin> GAP_VALUES) \<or>
      (\<exists>i \<in> set (bd_items b). ai_assessment i = ae_id a \<and> ai_measure i = ms_id m)")
    case True
    with Cons.prems have "generate_items now a vs ms (n, b) = (n', b')" by (auto split: if_splits)
    then show ?thesis by (rule Cons.IH)
  next
    case False
    then have gap: "\<not> (case vs (ms_id m) of None \<Rightarrow> True | Some v \<Rightarrow> v \<notin> GAP_VALUES)"
      and old: "\<not> (\<exists>i \<in> set (bd_items b). ai_assessment i = ae_id a \<and> ai_measure i = ms_id m)" by simp_all
    define i where "i = \<lparr>ai_id = bd_seq b + 1, ai_tenant = ae_tenant a, ai_assessment = ae_id a, ai_measure = ms_id m,
             ai_status = Todo, ai_assignee = None, ai_note = [], ai_due = None, ai_completed_at = None,
             ai_created_at = now\<rparr>"
    from Cons.IH [OF Cons.prems [unfolded generate_new [where vs = vs and a = a and b = b, OF gap old], folded i_def]]
    obtain new where new: "bd_items b' = new @ i # bd_items b" "n' = n + 1 + length new"
      "distinct (map item_key new)" "list_all (fresh_item vs a) new"
      "set (map item_key new) \<inter> insert (item_key i) (set (map item_key (bd_items b))) = {}"
      by auto
    from gap have "\<exists>v \<in> GAP_VALUES. vs (ms_id m) = Some v" by (auto split: option.splits)
    then have fresh: "fresh_item vs a i" by (simp add: fresh_item_def i_def)
    have none: "item_key i \<notin> set (map item_key (bd_items b))" using old by (auto simp: i_def)
    show ?thesis
    proof (intro exI [of _ "new @ [i]"] conjI)
      show "distinct (map item_key (new @ [i]))" using new(3,5) by auto
      show "set (map item_key (new @ [i])) \<inter> set (map item_key (bd_items b)) = {}" using new(5) none by auto
    qed (use new fresh in simp_all)
  qed
qed

lemma one_key:
  assumes "distinct (map item_key xs)" and "i \<in> set xs"
  shows "length (filter (\<lambda>j. ai_assessment j = ai_assessment i \<and> ai_measure j = ai_measure i) xs) = 1"
proof -
  have "filter (\<lambda>j. ai_assessment j = ai_assessment i \<and> ai_measure j = ai_measure i) xs = filter (\<lambda>j. j = i) xs"
    using distinct_map_eq [OF assms(1) _ assms(2)] by (auto intro: filter_cong)
  moreover have "length (filter (\<lambda>j. j = i) xs) = 1"
    using assms distinct_map [of item_key xs] by (induction xs) (auto simp: filter_empty_conv)
  ultimately show ?thesis by simp
qed

section \<open>An example\<close>

definition graded :: assessment where
  "graded = demo_session\<lparr>ae_subset := None, ae_status := Completed, ae_completed_at := Some 9, ae_score := Some 25\<rparr>"

definition graded_quiz :: quiz where
  "graded_quiz = demo_quiz\<lparr>qz_seq := 5, qz_assessments := [graded],
     qz_answers := [\<lparr>aw_assessment = 5, aw_measure = 2, aw_value = No, aw_note = []\<rparr>,
                    \<lparr>aw_assessment = 5, aw_measure = 3, aw_value = Partial, aw_note = []\<rparr>]\<rparr>"

definition demo_item :: action_item where
  "demo_item = \<lparr>ai_id = 1, ai_tenant = 7, ai_assessment = 5, ai_measure = 2, ai_status = Done, ai_assignee = None,
     ai_note = [], ai_due = None, ai_completed_at = Some (days 1), ai_created_at = 0\<rparr>"

definition demo_board :: board where
  "demo_board = \<lparr>bd_seq = 1, bd_items = [demo_item]\<rparr>"

lemmas graded_defs = graded_def graded_quiz_def demo_quiz_def demo_measure_def demo_session_def demo_board_def demo_item_def

lemma graded_scope:
  "get_assessment_measures graded_quiz graded = [demo_measure 2 ''m1'', demo_measure 3 ''m2'']"
  "get_answer_values graded_quiz graded = [2 \<mapsto> No, 3 \<mapsto> Partial]"
  by (simp_all add: get_assessment_measures_def get_referential_measures_def get_answer_values_def list_answers_def
      graded_defs Let_def fun_upd_twist)

lemma graded_ok: "plan_ok (graded_quiz, demo_board)"
proof -
  have "item_grounded graded_quiz demo_item"
    using graded_scope(2) by (simp add: item_grounded_def graded_quiz_def) (simp add: graded_def demo_session_def demo_item_def GAP_VALUES_def)
  moreover have "quiz_ok graded_quiz" by (simp add: quiz_ok_def graded_defs at_most_one_def)
  ultimately show ?thesis by (simp add: plan_ok_def demo_board_def)
qed

section \<open>Properties\<close>

text \<open>
  The score the plan leads to is never below the score of the assessment: whatever happened to
  diagnostics and plans, the projected score of a completed assessment, global and of every domain,
  exists exactly when the actual one does and is at least as high.
\<close>

theorem projected_never_lower:
  assumes "plan_step\<^sup>*\<^sup>* (q0, b0) (q, b)" and "plan_ok (q0, b0)" and "a \<in> set (qz_assessments q)"
    and "\<forall>m \<in> set (qz_measures q). 0 \<le> ms_weight m"
  shows "(not_lower (sc_global (compute_projected_score q b a)) (sc_global (compute_scores q a None))) \<and>
    (list_all2 (\<lambda>x y. fst x = fst y \<and> not_lower (snd x) (snd y))
        (sc_by_domain (compute_projected_score q b a)) (sc_by_domain (compute_scores q a None)))"
proof (rule conjI)
  have better: "at_least (projected_values q b a) (get_answer_values q a)"
    using projected_at_least plan_run_ok [OF assms(1,2)] assms(3) by blast
  have w: "\<forall>m \<in> set (get_assessment_measures q a). 0 \<le> ms_weight m"
    using assms(4)
    by (auto simp: get_assessment_measures_def get_referential_measures_def Let_def split: option.splits)
  then show "not_lower (sc_global (compute_projected_score q b a)) (sc_global (compute_scores q a None))"
    using score_not_lower [OF _ better] by (simp add: compute_projected_score_def compute_scores_def Let_def weights_ok_def)
  show "list_all2 (\<lambda>x y. fst x = fst y \<and> not_lower (snd x) (snd y))
      (sc_by_domain (compute_projected_score q b a)) (sc_by_domain (compute_scores q a None))"
    using score_not_lower [OF group_weights [OF w] better]
    by (auto simp: compute_projected_score_def compute_scores_def Let_def list_all2_map1 list_all2_map2
        intro!: list.rel_refl_strong split: prod.splits)
qed

theorem projected_never_lower_example:
  "sc_global (compute_scores graded_quiz graded None) = Some 25 \<and>
   (\<exists>y. sc_global (compute_projected_score graded_quiz demo_board graded) = Some y \<and> 25 \<le> y)"
proof -
  have "sc_global (compute_scores graded_quiz graded None) = Some 25"
    using py_round_of_int [of 250]
    by (simp add: compute_scores_def graded_scope score_sums gain_def load_def demo_measure_def round1_def Let_def)
  moreover have "graded \<in> set (qz_assessments graded_quiz)" "\<forall>m \<in> set (qz_measures graded_quiz). 0 \<le> ms_weight m"
    by (simp_all add: graded_quiz_def demo_quiz_def demo_measure_def)
  note projected_never_lower [OF rtranclp.rtrancl_refl graded_ok this, THEN conjunct1]
  ultimately show ?thesis by (auto simp: not_lower_def split: option.splits)
qed

text \<open>
  C17: A plan holds exactly one item per gap and is generated once: in a table with one item per
  assessment and measure (its unique constraint), after generating, every measure of the assessment
  answered no or partially has one item and no more, the items added, as many as announced, are open
  items of the company for such gaps that had none, no item of before is touched, the table still holds
  one item per assessment and measure, and generating again, at any time, creates nothing and leaves the
  plan as it is.
\<close>

theorem plan_generated_once:
  assumes "generate_action_plan now q b a = (n, b')"
    and "distinct (map (\<lambda>i. (ai_assessment i, ai_measure i)) (bd_items b))"
  shows "(\<forall>m \<in> set (get_assessment_measures q a). \<forall>v \<in> {No, Partial}. get_answer_values q a (ms_id m) = Some v \<longrightarrow>
        length (filter (\<lambda>i. ai_assessment i = ae_id a \<and> ai_measure i = ms_id m) (bd_items b')) = 1) \<and>
    (\<exists>new. bd_items b' = new @ bd_items b \<and> n = length new \<and>
       (\<forall>i \<in> set new. ai_assessment i = ae_id a \<and> ai_tenant i = ae_tenant a \<and> ai_status i = Todo \<and>
          get_answer_values q a (ai_measure i) \<in> {Some No, Some Partial} \<and>
          (\<forall>j \<in> set (bd_items b). (ai_assessment j, ai_measure j) \<noteq> (ai_assessment i, ai_measure i)))) \<and>
    distinct (map (\<lambda>i. (ai_assessment i, ai_measure i)) (bd_items b')) \<and>
    generate_action_plan later q b' a = (0, b')"
proof -
  note g = assms(1) [unfolded generate_action_plan_def]
  from generate_shape [OF g] obtain new where new: "bd_items b' = new @ bd_items b" "n = length new"
    "distinct (map item_key new)" and each: "list_all (fresh_item (get_answer_values q a) a) new"
    and apart: "set (map item_key new) \<inter> set (map item_key (bd_items b)) = {}"
    by auto
  have keys: "distinct (map item_key (bd_items b'))"
    unfolding new(1) map_append distinct_append using new(3) assms(2) apart by blast
  have cover: "\<forall>m \<in> set (get_assessment_measures q a). \<forall>v \<in> GAP_VALUES. get_answer_values q a (ms_id m) = Some v \<longrightarrow>
      (\<exists>i \<in> set (bd_items b'). ai_assessment i = ae_id a \<and> ai_measure i = ms_id m)"
    using generate_covers [OF g] by blast
  have one: "length (filter (\<lambda>i. ai_assessment i = ae_id a \<and> ai_measure i = ms_id m) (bd_items b')) = 1"
    if "m \<in> set (get_assessment_measures q a)" "v \<in> {No, Partial}" "get_answer_values q a (ms_id m) = Some v" for m v
  proof -
    from that cover have "\<exists>i \<in> set (bd_items b'). ai_assessment i = ae_id a \<and> ai_measure i = ms_id m"
      by (simp only: GAP_VALUES_def)
    then obtain i where "i \<in> set (bd_items b')" "ai_assessment i = ae_id a" "ai_measure i = ms_id m" by blast
    with one_key [OF keys] show ?thesis by metis
  qed
  have other: "item_key j \<noteq> item_key i" if "i \<in> set new" "j \<in> set (bd_items b)" for i j
  proof -
    have "item_key i \<in> set (map item_key new)" "item_key j \<in> set (map item_key (bd_items b))"
      using that by simp_all
    with apart show ?thesis by fastforce
  qed
  have "\<forall>i \<in> set new. ai_assessment i = ae_id a \<and> ai_tenant i = ae_tenant a \<and> ai_status i = Todo \<and>
      get_answer_values q a (ai_measure i) \<in> {Some No, Some Partial}"
    using each by (auto simp: GAP_VALUES_def fresh_item_def list_all_iff)
  with other have "\<forall>i \<in> set new. ai_assessment i = ae_id a \<and> ai_tenant i = ae_tenant a \<and> ai_status i = Todo \<and>
      get_answer_values q a (ai_measure i) \<in> {Some No, Some Partial} \<and>
      (\<forall>j \<in> set (bd_items b). item_key j \<noteq> item_key i)" by blast
  with new(1,2) have added: "\<exists>new. bd_items b' = new @ bd_items b \<and> n = length new \<and>
       (\<forall>i \<in> set new. ai_assessment i = ae_id a \<and> ai_tenant i = ae_tenant a \<and> ai_status i = Todo \<and>
          get_answer_values q a (ai_measure i) \<in> {Some No, Some Partial} \<and>
          (\<forall>j \<in> set (bd_items b). (ai_assessment j, ai_measure j) \<noteq> (ai_assessment i, ai_measure i)))"
    by blast
  show ?thesis
  proof (intro conjI)
    show "\<forall>m \<in> set (get_assessment_measures q a). \<forall>v \<in> {No, Partial}. get_answer_values q a (ms_id m) = Some v \<longrightarrow>
        length (filter (\<lambda>i. ai_assessment i = ae_id a \<and> ai_measure i = ms_id m) (bd_items b')) = 1"
      using one by blast
    show "generate_action_plan later q b' a = (0, b')"
      unfolding generate_action_plan_def by (rule generate_again [OF cover])
  qed (use added keys in simp_all)
qed

theorem plan_generated_once_witness:
  "\<exists>b. generate_action_plan 1 graded_quiz \<lparr>bd_seq = 0, bd_items = []\<rparr> graded = (2, b) \<and>
     generate_action_plan 2 graded_quiz b graded = (0, b) \<and> length (bd_items b) = 2"
proof -
  obtain b where g: "generate_action_plan 1 graded_quiz \<lparr>bd_seq = 0, bd_items = []\<rparr> graded = (2, b)"
    by (simp add: generate_action_plan_def graded_scope) (simp add: demo_measure_def GAP_VALUES_def)
  from plan_generated_once [OF g, of 2] g show ?thesis by auto
qed

text \<open>
  The daily series counts what it says: computed from the counts before the period and the
  additions of each day, its point of a day holds exactly the items created, and those finished, up
  to that day within the period or before it, for every day of the period in order.
\<close>

theorem series_counts_exactly:
  assumes "\<forall>x y. x \<le> y \<longrightarrow> local_date x \<le> local_date y"
  shows "action_plan_series local_date b t from_t to_t =
    map (\<lambda>day.
        let mine = filter (\<lambda>i. ai_tenant i = t) (bd_items b);
            upto = (\<lambda>x. x < from_t \<or> x \<le> to_t \<and> local_date x \<le> day);
            w = length (filter (\<lambda>i. upto (ai_created_at i)) mine);
            n = length (filter (\<lambda>i. case ai_completed_at i of None \<Rightarrow> False | Some x \<Rightarrow> upto x) mine)
        in \<lparr>dy_date = day, dy_done = n, dy_total = w,
            dy_rate = (if w = 0 then None else Some (round1 (100 * of_nat n / of_nat w)))\<rparr>)
      [local_date from_t..local_date to_t]"
proof -
  have mono: "\<And>x y. x \<le> y \<Longrightarrow> local_date x \<le> local_date y" using assms by blast
  define mine where "mine = filter (\<lambda>i. ai_tenant i = t) (bd_items b)"
  let ?c = "\<lambda>i. Some (ai_created_at i)"
  have c: "length (filter (\<lambda>i. ai_created_at i < from_t) mine) = upto_count local_date from_t to_t ?c mine (local_date from_t - 1)"
    using upto_count_before [where local_date = local_date and f = ?c and from_t = from_t and rows = mine and to_t = to_t] mono
    by simp
  have e: "length (filter (\<lambda>i. case ai_completed_at i of None \<Rightarrow> False | Some x \<Rightarrow> x < from_t) mine) =
      upto_count local_date from_t to_t ai_completed_at mine (local_date from_t - 1)"
    by (rule upto_count_before) (rule mono)
  have "action_plan_series local_date b t from_t to_t =
      series_loop (bucket local_date from_t to_t ?c mine) (bucket local_date from_t to_t ai_completed_at mine)
        (nat (local_date to_t - local_date from_t + 1)) (local_date from_t)
        (upto_count local_date from_t to_t ?c mine (local_date from_t - 1),
         upto_count local_date from_t to_t ai_completed_at mine (local_date from_t - 1))"
    unfolding action_plan_series_def Let_def mine_def [symmetric] option.case c e by (rule refl)
  also have "\<dots> = map (\<lambda>d. let n = upto_count local_date from_t to_t ai_completed_at mine d;
          w = upto_count local_date from_t to_t ?c mine d
        in \<lparr>dy_date = d, dy_done = n, dy_total = w, dy_rate = completion_rate n w\<rparr>) [local_date from_t..local_date to_t]"
    by (rule series_loop_counts) (use mono in simp_all)
  finally show ?thesis
    unfolding Let_def mine_def [symmetric] upto_count_def completion_rate_def option.case .
qed

theorem series_counts_exactly_example:
  "map (\<lambda>p. (dy_date p, dy_total p, dy_done p)) (action_plan_series date_of demo_board 7 0 (days 1)) =
     [(0, 1, 0), (1, 1, 1)]"
proof -
  have "\<forall>x y. x \<le> y \<longrightarrow> date_of x \<le> date_of y" by (simp add: date_of_mono)
  note eq = series_counts_exactly [OF this, of demo_board 7 0 "days 1"]
  have "date_of 0 = 0" "date_of (days 1) = 1" by (simp_all add: date_of_def days_def day_length_def)
  moreover have "[0..1] = [0, 1 :: int]" by (simp add: upto_rec1)
  moreover have "0 < days 1" by (simp add: days_def)
  ultimately show ?thesis unfolding eq by (simp add: demo_board_def demo_item_def Let_def)
qed

end
