(* ===== verification/Normalizer.thy ===== *)
theory Normalizer
  imports Py_Text
begin

text \<open>
  What becomes of a record the breach-intelligence provider returns
  (threat_intelligence/providers/breachsense/normalizer.py): its secrets are masked wherever they
  stand under a secret-like name, an identifier, a date, a type and a severity are read from it, and
  two hashes say which observation and which secret it is. SHA-256 and the text Python gives a
  nested container are parameters. The bullet U+2022 is outside \<open>char\<close>; it is held as \<open>CHR 0x95\<close>,
  its place in the Windows code page.
\<close>

section \<open>Payloads\<close>

text \<open>
  A JSON value. A number that is not an integer is held as the text Python prints; the pairs of an
  object are in the order of the payload, with distinct names.
\<close>

datatype json =
    JNull | JBool bool | JInt int | JFloat string | JStr string
  | JArr "json list" | JObj "(string \<times> json) list"

type_synonym payload = "(string \<times> json) list"

record texts =
  tx_sha256 :: "string \<Rightarrow> string"
  tx_repr :: "json \<Rightarrow> string"

definition is_container :: "json \<Rightarrow> bool" where
  "is_container j = (case j of JArr _ \<Rightarrow> True | JObj _ \<Rightarrow> True | _ \<Rightarrow> False)"

text \<open>\<open>str(value)\<close>.\<close>

fun py_str :: "texts \<Rightarrow> json \<Rightarrow> string" where
  "py_str tx JNull = ''None''"
| "py_str tx (JBool b) = (if b then ''True'' else ''False'')"
| "py_str tx (JInt n) = show_int n"
| "py_str tx (JFloat t) = t"
| "py_str tx (JStr s) = s"
| "py_str tx j = tx_repr tx j"

text \<open>\<open>value not in (None, "")\<close>.\<close>

definition present :: "json \<Rightarrow> bool" where
  "present j = (j \<noteq> JNull \<and> j \<noteq> JStr [])"

section \<open>Secrets\<close>

definition EXACT_SECRET_FIELDS :: "string set" where
  "EXACT_SECRET_FIELDS = {''val'', ''ccn'', ''ccx'', ''cwa''}"

definition SECRET_KEY_MARKERS :: "string list" where
  "SECRET_KEY_MARKERS = [''password'', ''pass'', ''pwd'', ''secret'', ''token'', ''credential'',
     ''api_key'', ''apikey'', ''auth'']"

definition is_secret_key :: "string \<Rightarrow> bool" where
  "is_secret_key k =
     (lower k \<in> EXACT_SECRET_FIELDS \<or> list_ex (contains (lower k)) SECRET_KEY_MARKERS)"

definition bullets :: "nat \<Rightarrow> string" where
  "bullets n = replicate n (CHR 0x95)"

definition last_two :: "string \<Rightarrow> string" where
  "last_two t = drop (length t - 2) t"

definition mask_secret_value :: "texts \<Rightarrow> json \<Rightarrow> string" where
  "mask_secret_value tx v = bullets 6 @ last_two (py_str tx v)"

text \<open>
  The walk over the whole tree threads the first secret met: its masked and its plain form.
\<close>

fun walk :: "texts \<Rightarrow> json \<Rightarrow> (string \<times> string) option \<Rightarrow> json \<times> (string \<times> string) option"
  and walk_pairs :: "texts \<Rightarrow> payload \<Rightarrow> (string \<times> string) option \<Rightarrow> payload \<times> (string \<times> string) option"
  and walk_items :: "texts \<Rightarrow> json list \<Rightarrow> (string \<times> string) option \<Rightarrow> json list \<times> (string \<times> string) option" where
  "walk tx (JObj ps) st = (case walk_pairs tx ps st of (qs, st') \<Rightarrow> (JObj qs, st'))"
| "walk tx (JArr js) st = (case walk_items tx js st of (ks, st') \<Rightarrow> (JArr ks, st'))"
| "walk tx j st = (j, st)"
| "walk_pairs tx [] st = ([], st)"
| "walk_pairs tx ((k, v) # ps) st =
     (if is_container v then
        (case walk tx v st of (w, st1) \<Rightarrow>
           (case walk_pairs tx ps st1 of (qs, st2) \<Rightarrow> ((k, w) # qs, st2)))
      else if is_secret_key k \<and> present v then
        (let masked = mask_secret_value tx v;
             st1 = (if st = None then Some (masked, py_str tx v) else st)
         in case walk_pairs tx ps st1 of (qs, st2) \<Rightarrow> ((k, JStr masked) # qs, st2))
      else (case walk_pairs tx ps st of (qs, st2) \<Rightarrow> ((k, v) # qs, st2)))"
| "walk_items tx [] st = ([], st)"
| "walk_items tx (j # js) st =
     (case walk tx j st of (k, st1) \<Rightarrow>
        (case walk_items tx js st1 of (ks, st2) \<Rightarrow> (k # ks, st2)))"

text \<open>The masked payload, whether a secret was seen, the first one masked and in clear.\<close>

definition mask_payload :: "texts \<Rightarrow> payload \<Rightarrow> payload \<times> bool \<times> string \<times> string" where
  "mask_payload tx p =
     (case walk_pairs tx p None of
        (q, None) \<Rightarrow> (q, False, [], [])
      | (q, Some (masked, plain)) \<Rightarrow> (q, True, masked, plain))"

section \<open>What is read from a payload\<close>

record schema =
  sm_identifier :: "string list"
  sm_date :: "string list"
  sm_type :: "string option"
  sm_identity :: "string list"

definition ENDPOINT_SCHEMAS :: "(string \<times> schema) list" where
  "ENDPOINT_SCHEMAS =
    [(''stealer'', \<lparr>sm_identifier = [''usr''], sm_date = [''inf'', ''fnd''], sm_type = Some ''mal'',
        sm_identity = [''usr'', ''src'']\<rparr>),
     (''combo'', \<lparr>sm_identifier = [''usr''], sm_date = [''fnd''], sm_type = None,
        sm_identity = [''usr'', ''src'']\<rparr>),
     (''creds'', \<lparr>sm_identifier = [''eml''], sm_date = [''fnd''], sm_type = None,
        sm_identity = [''eml'', ''src'']\<rparr>),
     (''sessions'', \<lparr>sm_identifier = [''user_name''], sm_date = [''fnd''], sm_type = None,
        sm_identity = [''user_name'', ''dom'', ''cookie_name'']\<rparr>),
     (''nhi'', \<lparr>sm_identifier = [''usr''], sm_date = [''fnd''], sm_type = Some ''category'',
        sm_identity = [''usr'', ''platform'', ''src'']\<rparr>),
     (''darkweb'', \<lparr>sm_identifier = [], sm_date = [''found''], sm_type = None,
        sm_identity = [''data'', ''site'']\<rparr>),
     (''radar'', \<lparr>sm_identifier = [], sm_date = [''found''], sm_type = None,
        sm_identity = [''data'', ''src'']\<rparr>),
     (''docs'', \<lparr>sm_identifier = [], sm_date = [''leak_date''], sm_type = Some ''content_type'',
        sm_identity = [''doc_id'', ''file_hash'']\<rparr>),
     (''asm'', \<lparr>sm_identifier = [], sm_date = [''found''], sm_type = Some ''type'',
        sm_identity = [''dom'', ''type'', ''cname'', ''ip'']\<rparr>)]"

definition FALLBACK_IDENTIFIER_KEYS :: "string list" where
  "FALLBACK_IDENTIFIER_KEYS = [''email'', ''eml'', ''usr'', ''user_name'', ''login'', ''username'',
     ''user'', ''identifier'']"

definition FALLBACK_DATE_KEYS :: "string list" where
  "FALLBACK_DATE_KEYS = [''breach_date'', ''date'', ''leaked_at'', ''discovered_at'', ''found_at'',
     ''found'', ''fnd'', ''inf'', ''leak_date'']"

definition FALLBACK_TYPE_KEYS :: "string list" where
  "FALLBACK_TYPE_KEYS = [''type'', ''category'', ''mal'']"

fun first_present :: "texts \<Rightarrow> payload \<Rightarrow> string list \<Rightarrow> string option" where
  "first_present tx p [] = None"
| "first_present tx p (k # ks) =
     (case map_of p k of
        Some v \<Rightarrow> if present v then Some (py_str tx v) else first_present tx p ks
      | None \<Rightarrow> first_present tx p ks)"

text \<open>\<open>a or b\<close> on strings that may be missing.\<close>

definition or_else :: "string option \<Rightarrow> string option \<Rightarrow> string option" where
  "or_else a b = (case a of None \<Rightarrow> b | Some s \<Rightarrow> if s = [] then b else Some s)"

definition by_schema :: "texts \<Rightarrow> string \<Rightarrow> payload \<Rightarrow> (schema \<Rightarrow> string list) \<Rightarrow> string option" where
  "by_schema tx endpoint p pick =
     (case map_of ENDPOINT_SCHEMAS endpoint of None \<Rightarrow> None | Some sc \<Rightarrow> first_present tx p (pick sc))"

definition extract_identifier :: "texts \<Rightarrow> string \<Rightarrow> payload \<Rightarrow> string option" where
  "extract_identifier tx endpoint p =
     or_else (by_schema tx endpoint p sm_identifier) (first_present tx p FALLBACK_IDENTIFIER_KEYS)"

definition short_mask :: "string \<Rightarrow> string" where
  "short_mask s = (if 2 < length s then take 2 s @ bullets 4 else bullets 4)"

text \<open>\<open>".".join(parts)\<close>.\<close>

fun dotted :: "string list \<Rightarrow> string" where
  "dotted [] = []"
| "dotted [w] = w"
| "dotted (w # ws) = w @ CHR ''.'' # dotted ws"

definition mask_identifier :: "string \<Rightarrow> string" where
  "mask_identifier s =
     (if CHR ''@'' \<in> set s then
        (let parts = split_on (CHR ''.'') (after (CHR ''@'') s);
             tld = (if 1 < length parts then CHR ''.'' # dotted (tl parts) else [])
         in short_mask (before (CHR ''@'') s) @ ''@'' @ short_mask (hd parts) @ tld)
      else short_mask s)"

section \<open>Dates\<close>

text \<open>
  \<open>date.fromisoformat\<close> on at most ten characters: a calendar date or an ISO week date, with or
  without separators. A date is its day number since 1970-01-01.
\<close>

definition is_leap :: "int \<Rightarrow> bool" where
  "is_leap y = (y mod 4 = 0 \<and> (y mod 100 \<noteq> 0 \<or> y mod 400 = 0))"

definition month_days :: "int \<Rightarrow> int \<Rightarrow> int" where
  "month_days y m = (if m = 2 then (if is_leap y then 29 else 28) else if m \<in> {4, 6, 9, 11} then 30 else 31)"

definition day_number :: "int \<Rightarrow> int \<Rightarrow> int \<Rightarrow> date" where
  "day_number y m d =
     (let y' = (if m \<le> 2 then y - 1 else y); m' = (if m \<le> 2 then m + 9 else m - 3)
      in 365 * y' + y' div 4 - y' div 100 + y' div 400 + (153 * m' + 2) div 5 + d - 719469)"

definition calendar_date :: "int \<Rightarrow> int \<Rightarrow> int \<Rightarrow> date option" where
  "calendar_date y m d =
     (if 1 \<le> y \<and> 1 \<le> m \<and> m \<le> 12 \<and> 1 \<le> d \<and> d \<le> month_days y m then Some (day_number y m d) else None)"

definition week_date :: "int \<Rightarrow> int \<Rightarrow> int \<Rightarrow> date option" where
  "week_date y w d =
     (let first = day_number y 1 1; wd = (first + 3) mod 7;
          long = (wd = 3 \<or> wd = 2 \<and> is_leap y);
          monday = (if wd \<le> 3 then first - wd else first - wd + 7);
          n = monday + (w - 1) * 7 + d - 1
      in if 1 \<le> y \<and> 1 \<le> w \<and> (w \<le> 52 \<or> w = 53 \<and> long) \<and> 1 \<le> d \<and> d \<le> 7 \<and> n \<le> day_number 9999 12 31
         then Some n else None)"

definition digits :: "nat \<Rightarrow> string \<Rightarrow> (int \<times> string) option" where
  "digits n s =
     (if length s < n \<or> \<not> list_all (\<lambda>c. digit_val c \<noteq> None) (take n s) then None
      else map_option (\<lambda>v. (v, drop n s)) (parse_digits 0 False (take n s)))"

text \<open>The separator after a part: mandatory when the year had one; otherwise nothing is skipped.\<close>

definition skip_sep :: "bool \<Rightarrow> string \<Rightarrow> string option" where
  "skip_sep sep s = (if \<not> sep then Some s else case s of c # cs \<Rightarrow> if c = CHR ''-'' then Some cs else None | [] \<Rightarrow> None)"

definition from_iso :: "string \<Rightarrow> date option" where
  "from_iso s =
     (if length s \<notin> {7, 8, 10} then None
      else case digits 4 s of None \<Rightarrow> None
      | Some (y, r) \<Rightarrow>
        (let sep = (case r of c # _ \<Rightarrow> c = CHR ''-'' | [] \<Rightarrow> False); r1 = (if sep then tl r else r)
         in case r1 of
              [] \<Rightarrow> None
            | c # r2 \<Rightarrow>
                if c = CHR ''W'' then
                  (case digits 2 r2 of None \<Rightarrow> None
                   | Some (w, r3) \<Rightarrow>
                       if r3 = [] then week_date y w 1
                       else (case skip_sep sep r3 of None \<Rightarrow> None
                             | Some r4 \<Rightarrow> (case digits 1 r4 of None \<Rightarrow> None | Some (d, _) \<Rightarrow> week_date y w d)))
                else
                  (case digits 2 r1 of None \<Rightarrow> None
                   | Some (m, r3) \<Rightarrow>
                       (case skip_sep sep r3 of None \<Rightarrow> None
                        | Some r4 \<Rightarrow> (case digits 2 r4 of None \<Rightarrow> None | Some (d, _) \<Rightarrow> calendar_date y m d)))))"

definition extract_breach_date :: "texts \<Rightarrow> string \<Rightarrow> payload \<Rightarrow> date option" where
  "extract_breach_date tx endpoint p =
     (case or_else (by_schema tx endpoint p sm_date) (first_present tx p FALLBACK_DATE_KEYS) of
        None \<Rightarrow> None
      | Some s \<Rightarrow> if s = [] then None else from_iso (take 10 s))"

section \<open>Bounds, type and severity\<close>

definition MAX_FINDING_TYPE :: nat where "MAX_FINDING_TYPE = 60"
definition MAX_IDENTIFIER :: nat where "MAX_IDENTIFIER = 255"
definition MAX_SECRET_MASKED :: nat where "MAX_SECRET_MASKED = 32"

definition borner :: "string \<Rightarrow> nat \<Rightarrow> string" where
  "borner s n = (if s = [] then s else take n s)"

definition extract_finding_type :: "texts \<Rightarrow> string \<Rightarrow> payload \<Rightarrow> string" where
  "extract_finding_type tx endpoint p =
     (case or_else (by_schema tx endpoint p (\<lambda>sc. case sm_type sc of None \<Rightarrow> [] | Some k \<Rightarrow> [k]))
             (first_present tx p FALLBACK_TYPE_KEYS) of
        None \<Rightarrow> endpoint
      | Some s \<Rightarrow> if s = [] then endpoint else s)"

datatype gravity = Grave_critical | Grave_high | Grave_attention

definition SEVERITY_BY_ENDPOINT :: "(string \<times> gravity) list" where
  "SEVERITY_BY_ENDPOINT =
     [(''stealer'', Grave_critical), (''sessions'', Grave_critical), (''nhi'', Grave_critical),
      (''darkweb'', Grave_critical), (''creds'', Grave_high), (''combo'', Grave_high),
      (''docs'', Grave_high), (''radar'', Grave_attention), (''asm'', Grave_attention)]"

definition ASM_PHISHING_TYPE :: string where "ASM_PHISHING_TYPE = ''pphish''"
definition ASM_PHISHING_SEVERITY :: gravity where "ASM_PHISHING_SEVERITY = Grave_high"

definition compute_severity :: "string \<Rightarrow> payload \<Rightarrow> gravity" where
  "compute_severity endpoint p =
     (if endpoint = ''asm'' \<and> map_of p ''type'' = Some (JStr ASM_PHISHING_TYPE) then ASM_PHISHING_SEVERITY
      else case map_of SEVERITY_BY_ENDPOINT endpoint of None \<Rightarrow> Grave_attention | Some g \<Rightarrow> g)"

section \<open>Identity and secret\<close>

text \<open>\<open>"|".join(parts)\<close>.\<close>

fun piped :: "string list \<Rightarrow> string" where
  "piped [] = []"
| "piped [w] = w"
| "piped (w # ws) = w @ CHR ''|'' # piped ws"

definition identity_parts :: "texts \<Rightarrow> string \<Rightarrow> payload \<Rightarrow> string list" where
  "identity_parts tx endpoint p =
     List.map_filter (\<lambda>k. case map_of p k of
         Some v \<Rightarrow> if present v then Some (k @ ''='' @ py_str tx v) else None
       | None \<Rightarrow> None)
       (case map_of ENDPOINT_SCHEMAS endpoint of None \<Rightarrow> [] | Some sc \<Rightarrow> sm_identity sc)"

definition compute_identity_hash :: "texts \<Rightarrow> string \<Rightarrow> payload \<Rightarrow> string" where
  "compute_identity_hash tx endpoint p = tx_sha256 tx (endpoint @ ''|'' @ piped (identity_parts tx endpoint p))"

definition compute_secret_fingerprint :: "texts \<Rightarrow> string \<Rightarrow> string" where
  "compute_secret_fingerprint tx plain = (if plain = [] then [] else tx_sha256 tx plain)"

definition compute_dedup_hash :: "texts \<Rightarrow> string \<Rightarrow> string \<Rightarrow> string" where
  "compute_dedup_hash tx ident fp = tx_sha256 tx (ident @ ''|'' @ fp)"

record normalized =
  nf_source_endpoint :: string
  nf_finding_type :: string
  nf_severity :: gravity
  nf_identifier_plain :: string
  nf_identifier_masked :: string
  nf_secret_masked :: string
  nf_has_secret :: bool
  nf_secret_plain :: string
  nf_breach_date :: "date option"
  nf_raw_data :: payload
  nf_identity_hash :: string
  nf_secret_fingerprint :: string
  nf_dedup_hash :: string

definition normalize_finding :: "texts \<Rightarrow> string \<Rightarrow> payload \<Rightarrow> normalized" where
  "normalize_finding tx endpoint raw =
     (case mask_payload tx raw of (masked, seen, secret_masked, plain) \<Rightarrow>
        let ident = (case extract_identifier tx endpoint raw of None \<Rightarrow> [] | Some s \<Rightarrow> strip s);
            identity = compute_identity_hash tx endpoint raw;
            fp = compute_secret_fingerprint tx plain
        in \<lparr>nf_source_endpoint = (if endpoint \<in> fst ` set SEVERITY_BY_ENDPOINT then endpoint else ''webhook''),
            nf_finding_type = borner (extract_finding_type tx endpoint raw) MAX_FINDING_TYPE,
            nf_severity = compute_severity endpoint raw,
            nf_identifier_plain = borner ident MAX_IDENTIFIER,
            nf_identifier_masked = borner (if ident = [] then [] else mask_identifier ident) MAX_IDENTIFIER,
            nf_secret_masked = borner secret_masked MAX_SECRET_MASKED,
            nf_has_secret = seen,
            nf_secret_plain = plain,
            nf_breach_date = extract_breach_date tx endpoint raw,
            nf_raw_data = masked,
            nf_identity_hash = identity,
            nf_secret_fingerprint = fp,
            nf_dedup_hash = compute_dedup_hash tx identity fp\<rparr>)"

section \<open>What masking does\<close>

text \<open>
  The secrets a payload shows: the values, other than containers, that stand under a secret-like
  name, in the order of the walk; and the payload with each of them masked in place.
\<close>

fun exposed :: "json \<Rightarrow> json list" and exposed_pair :: "string \<times> json \<Rightarrow> json list" where
  "exposed (JObj ps) = concat (map exposed_pair ps)"
| "exposed (JArr js) = concat (map exposed js)"
| "exposed _ = []"
| "exposed_pair (k, v) =
     (if is_container v then exposed v else if is_secret_key k \<and> present v then [v] else [])"

fun redact :: "texts \<Rightarrow> json \<Rightarrow> json" and redact_pair :: "texts \<Rightarrow> string \<times> json \<Rightarrow> string \<times> json" where
  "redact tx (JObj ps) = JObj (map (redact_pair tx) ps)"
| "redact tx (JArr js) = JArr (map (redact tx) js)"
| "redact tx j = j"
| "redact_pair tx (k, v) =
     (k, if is_container v then redact tx v
         else if is_secret_key k \<and> present v then JStr (mask_secret_value tx v) else v)"

definition shown :: "payload \<Rightarrow> json list" where
  "shown p = concat (map exposed_pair p)"

definition note_first :: "texts \<Rightarrow> json list \<Rightarrow> (string \<times> string) option \<Rightarrow> (string \<times> string) option" where
  "note_first tx vs st =
     (if st \<noteq> None then st else case vs of [] \<Rightarrow> None | v # _ \<Rightarrow> Some (mask_secret_value tx v, py_str tx v))"

lemma note_first_append: "note_first tx (vs @ ws) st = note_first tx ws (note_first tx vs st)"
  by (cases vs) (auto simp: note_first_def split: list.splits)

lemma note_first_Nil [simp]: "note_first tx [] st = st"
  by (cases st) (simp_all add: note_first_def)

lemma note_first_Cons:
  "note_first tx (v # vs) st =
     note_first tx vs (if st = None then Some (mask_secret_value tx v, py_str tx v) else st)"
  by (cases st) (auto simp: note_first_def)

lemma walk_redacts:
  "walk tx j st = (redact tx j, note_first tx (exposed j) st)"
  "walk_pairs tx ps st = (map (redact_pair tx) ps, note_first tx (concat (map exposed_pair ps)) st)"
  "walk_items tx js st = (map (redact tx) js, note_first tx (concat (map exposed js)) st)"
proof (induction tx j st and tx ps st and tx js st rule: walk_walk_pairs_walk_items.induct)
qed (auto simp: note_first_append note_first_Cons Let_def simp del: not_None_eq split: prod.splits)

lemma redact_container: "is_container (redact tx j) = is_container j"
  by (cases j) (simp_all add: is_container_def)

lemma exposed_redact:
  "exposed (redact tx j) = map (\<lambda>v. JStr (mask_secret_value tx v)) (exposed j)"
  "exposed_pair (redact_pair tx kv) = map (\<lambda>v. JStr (mask_secret_value tx v)) (exposed_pair kv)"
proof (induction j and kv rule: exposed_exposed_pair.induct)
qed (auto simp: map_concat redact_container present_def mask_secret_value_def bullets_def is_container_def [of "JStr _"]
    intro!: arg_cong [where f = concat])

lemma redact_nothing:
  "exposed j = [] \<Longrightarrow> redact tx j = j"
  "exposed_pair kv = [] \<Longrightarrow> redact_pair tx kv = kv"
proof (induction j and kv rule: exposed_exposed_pair.induct)
qed (auto intro!: map_idI split: if_splits)

lemma map_filter_cong: "(\<And>x. x \<in> set xs \<Longrightarrow> f x = g x) \<Longrightarrow> List.map_filter f xs = List.map_filter g xs"
  by (induction xs) (simp_all add: map_filter_simps split: option.split)

definition digest :: "texts \<Rightarrow> bool" where
  "digest tx = (inj (tx_sha256 tx) \<and> (\<forall>s. tx_sha256 tx s \<noteq> [] \<and> CHR ''|'' \<notin> set (tx_sha256 tx s)))"

lemma split_at_bar:
  "a @ CHR ''|'' # b = c @ CHR ''|'' # d \<Longrightarrow> CHR ''|'' \<notin> set a \<Longrightarrow> CHR ''|'' \<notin> set c \<Longrightarrow> a = c \<and> b = d"
proof (induction a arbitrary: c)
  case Nil
  then show ?case by (cases c) auto
next
  case (Cons x a)
  then show ?case by (cases c) auto
qed

lemma shown_redact: "shown (map (redact_pair tx) p) = map (\<lambda>v. JStr (mask_secret_value tx v)) (shown p)"
  by (simp add: shown_def map_concat comp_def exposed_redact)

lemma redact_shown_nothing: "shown p = [] \<Longrightarrow> map (redact_pair tx) p = p"
  by (auto simp: shown_def intro!: map_idI redact_nothing)

lemma mask_payload_eq:
  "mask_payload tx p = (map (redact_pair tx) p,
     case shown p of [] \<Rightarrow> (False, [], [])
     | v # _ \<Rightarrow> (True, mask_secret_value tx v, py_str tx v))"
  using walk_redacts(2) [of tx p None, folded shown_def]
  by (simp add: mask_payload_def note_first_def split: list.split)

lemma fingerprint_eq:
  assumes "digest tx"
  shows "compute_secret_fingerprint tx x = compute_secret_fingerprint tx y \<longleftrightarrow> x = y"
  using assms by (auto simp: compute_secret_fingerprint_def digest_def inj_eq) (metis+)?

lemma dedup_hash_eq:
  assumes "digest tx"
  shows "compute_dedup_hash tx (compute_identity_hash tx e p) (compute_secret_fingerprint tx x) =
      compute_dedup_hash tx (compute_identity_hash tx e' p') (compute_secret_fingerprint tx y) \<longleftrightarrow>
    compute_identity_hash tx e p = compute_identity_hash tx e' p' \<and> x = y"
proof -
  have i: "inj (tx_sha256 tx)" and n: "\<And>s. CHR ''|'' \<notin> set (tx_sha256 tx s)"
    using assms by (simp_all add: digest_def)
  let ?a = "compute_identity_hash tx e p" and ?b = "compute_identity_hash tx e' p'"
  let ?x = "compute_secret_fingerprint tx x" and ?y = "compute_secret_fingerprint tx y"
  have "CHR ''|'' \<notin> set ?a" and "CHR ''|'' \<notin> set ?b" by (simp_all add: compute_identity_hash_def n)
  from split_at_bar [OF _ this, of ?x ?y] have "?a @ CHR ''|'' # ?x = ?b @ CHR ''|'' # ?y \<longleftrightarrow> ?a = ?b \<and> ?x = ?y"
    by (intro iffI) (blast, simp)
  then show ?thesis by (simp add: compute_dedup_hash_def inj_eq [OF i] fingerprint_eq [OF assms])
qed

lemma normalized_fields:
  "nf_source_endpoint (normalize_finding tx e p) = (if e \<in> fst ` set SEVERITY_BY_ENDPOINT then e else ''webhook'')"
  "nf_finding_type (normalize_finding tx e p) = borner (extract_finding_type tx e p) 60"
  "nf_severity (normalize_finding tx e p) = compute_severity e p"
  "nf_identifier_plain (normalize_finding tx e p) =
     borner (case extract_identifier tx e p of None \<Rightarrow> [] | Some s \<Rightarrow> strip s) 255"
  "length (nf_identifier_masked (normalize_finding tx e p)) \<le> 255"
  "nf_raw_data (normalize_finding tx e p) = map (redact_pair tx) p"
  "nf_identity_hash (normalize_finding tx e p) = compute_identity_hash tx e p"
  "nf_secret_fingerprint (normalize_finding tx e p) =
     compute_secret_fingerprint tx (nf_secret_plain (normalize_finding tx e p))"
  "nf_dedup_hash (normalize_finding tx e p) =
     compute_dedup_hash tx (compute_identity_hash tx e p)
       (compute_secret_fingerprint tx (nf_secret_plain (normalize_finding tx e p)))"
  "nf_secret_masked (normalize_finding tx e p) =
     (case shown p of [] \<Rightarrow> [] | v # _ \<Rightarrow> borner (mask_secret_value tx v) 32)"
  "nf_secret_plain (normalize_finding tx e p) = (case shown p of [] \<Rightarrow> [] | v # _ \<Rightarrow> py_str tx v)"
  "nf_has_secret (normalize_finding tx e p) = (shown p \<noteq> [])"
  unfolding normalize_finding_def mask_payload_eq Let_def MAX_FINDING_TYPE_def MAX_IDENTIFIER_def
    MAX_SECRET_MASKED_def
  by (cases "shown p"; simp add: borner_def)+

section \<open>Properties\<close>

text \<open>
  C21: Masking is exact. The stored payload is the received one with each value that stands under a
  secret-like name, at any depth, replaced by six bullets and at most its last two characters; the
  secret reported is the first of them, and none is reported, with the payload untouched, when there
  is none. Values inside a list under such a name are not among them: they stay in clear.
\<close>

theorem masking_exact:
  assumes "mask_payload tx p = (q, seen, masked, plain)"
  shows "q = map (redact_pair tx) p \<and>
    shown q = map (\<lambda>v. JStr (replicate 6 (CHR 0x95) @ last_two (py_str tx v))) (shown p) \<and>
    (case shown p of
       [] \<Rightarrow> \<not> seen \<and> q = p \<and> masked = [] \<and> plain = []
     | v # _ \<Rightarrow> seen \<and> masked = replicate 6 (CHR 0x95) @ last_two plain \<and> plain = py_str tx v) \<and>
    mask_payload tx [(''password'', JArr [JStr s])] = ([(''password'', JArr [JStr s])], False, [], [])"
proof -
  have q: "q = map (redact_pair tx) p" using assms by (simp add: mask_payload_eq)
  have "shown q = map (\<lambda>v. JStr (replicate 6 (CHR 0x95) @ last_two (py_str tx v))) (shown p)"
    by (simp add: q shown_redact mask_secret_value_def bullets_def)
  moreover have "mask_payload tx [(''password'', JArr [JStr s])] = ([(''password'', JArr [JStr s])], False, [], [])"
    by (simp add: mask_payload_def is_container_def)
  moreover have "case shown p of
       [] \<Rightarrow> \<not> seen \<and> q = p \<and> masked = [] \<and> plain = []
     | v # _ \<Rightarrow> seen \<and> masked = replicate 6 (CHR 0x95) @ last_two plain \<and> plain = py_str tx v"
    using assms redact_shown_nothing [of p tx]
    by (auto simp: mask_payload_eq mask_secret_value_def bullets_def split: list.splits)
  ultimately show ?thesis using q by blast
qed

definition demo_texts :: texts where
  "demo_texts = \<lparr>tx_sha256 = (\<lambda>s. CHR ''h'' # concat (map (\<lambda>c. if c = CHR ''|'' then ''ab'' else [CHR ''c'', c]) s)),
     tx_repr = (\<lambda>j. [])\<rparr>"

theorem masking_exact_witness:
  "\<exists>q. mask_payload demo_texts [(''usr'', JStr ''a@b.fr''), (''PWD'', JStr ''Ete2024!'')] =
     (q, True, replicate 6 (CHR 0x95) @ ''4!'', ''Ete2024!'') \<and> shown q = [JStr (replicate 6 (CHR 0x95) @ ''4!'')]"
proof -
  let ?p = "[(''usr'', JStr ''a@b.fr''), (''PWD'', JStr ''Ete2024!'')]"
  have e: "shown ?p = [JStr ''Ete2024!'']" by code_simp
  obtain q seen masked plain where m: "mask_payload demo_texts ?p = (q, seen, masked, plain)"
    by (metis prod_cases4)
  have two: "last_two ''Ete2024!'' = ''4!''" by (simp add: last_two_def)
  have "shown q = [JStr (replicate 6 (CHR 0x95) @ ''4!'')] \<and> seen \<and> plain = ''Ete2024!'' \<and>
    masked = replicate 6 (CHR 0x95) @ last_two plain"
    using masking_exact [OF m, of undefined, unfolded e list.case list.map py_str.simps two] by blast
  then have "shown q = [JStr (replicate 6 (CHR 0x95) @ ''4!'')]" "seen" "plain = ''Ete2024!''"
    "masked = replicate 6 (CHR 0x95) @ ''4!''"
    using two by simp_all
  with m show ?thesis by (intro exI [of _ q]) (simp only: simp_thms)
qed


text \<open>
  The key of a finding is the observation and the secret, and nothing else. Two records of one
  endpoint that agree on its identity fields have the same identity, and the same key exactly when
  their secret is the same: a record seen again with other dates is the same finding, a different
  password on the same account is a new one. SHA-256 is taken to have no collision.
\<close>

theorem seen_again_same_key:
  assumes "digest tx" and "map_of ENDPOINT_SCHEMAS e = Some sc"
    and "\<forall>k \<in> set (sm_identity sc). map_of p k = map_of p' k"
  shows "nf_identity_hash (normalize_finding tx e p) = nf_identity_hash (normalize_finding tx e p') \<and>
    (nf_dedup_hash (normalize_finding tx e p) = nf_dedup_hash (normalize_finding tx e p') \<longleftrightarrow>
     nf_secret_plain (normalize_finding tx e p) = nf_secret_plain (normalize_finding tx e p'))"
proof -
  have "identity_parts tx e p = identity_parts tx e p'"
    using assms(2,3) by (auto simp: identity_parts_def intro!: map_filter_cong)
  then have "compute_identity_hash tx e p = compute_identity_hash tx e p'"
    by (simp add: compute_identity_hash_def)
  then show ?thesis
    using dedup_hash_eq [OF assms(1), of e p _ e p'] by (simp only: normalized_fields(7,9) simp_thms)
qed

lemma demo_digest: "digest demo_texts"
proof -
  let ?f = "\<lambda>c. if c = CHR ''|'' then ''ab'' else [CHR ''c'', c]"
  have "concat (map ?f s) = concat (map ?f t) \<Longrightarrow> s = t" for s t
  proof (induction s arbitrary: t)
    case Nil
    then show ?case by (cases t) (auto split: if_splits)
  next
    case (Cons c s)
    then show ?case by (cases t) (auto split: if_splits)
  qed
  then have "inj (\<lambda>s. CHR ''h'' # concat (map ?f s))" by (intro injI) (simp only: list.inject simp_thms)
  moreover have "CHR ''|'' \<notin> set (concat (map ?f s))" for s by (induction s) auto
  ultimately show ?thesis by (simp add: digest_def demo_texts_def)
qed

theorem seen_again_same_key_example:
  "\<exists>a b c. a = normalize_finding demo_texts ''creds'' [(''eml'', JStr ''x@a.fr''), (''pwd'', JStr ''Ete2024!'')] \<and>
     b = normalize_finding demo_texts ''creds'' [(''eml'', JStr ''x@a.fr''), (''pwd'', JStr ''Ete2024!''), (''fnd'', JStr ''2026-01-05'')] \<and>
     c = normalize_finding demo_texts ''creds'' [(''eml'', JStr ''x@a.fr''), (''pwd'', JStr ''Hiver2024!'')] \<and>
     nf_dedup_hash a = nf_dedup_hash b \<and> nf_dedup_hash a \<noteq> nf_dedup_hash c \<and> nf_identity_hash a = nf_identity_hash c"
proof -
  let ?p = "[(''eml'', JStr ''x@a.fr''), (''pwd'', JStr ''Ete2024!'')]"
  let ?q = "[(''eml'', JStr ''x@a.fr''), (''pwd'', JStr ''Ete2024!''), (''fnd'', JStr ''2026-01-05'')]"
  let ?r = "[(''eml'', JStr ''x@a.fr''), (''pwd'', JStr ''Hiver2024!'')]"
  have k: "is_secret_key ''pwd''" "\<not> is_secret_key ''eml''" "\<not> is_secret_key ''fnd''" by code_simp+
  have s: "nf_secret_plain (normalize_finding demo_texts ''creds'' ?p) = ''Ete2024!''"
    "nf_secret_plain (normalize_finding demo_texts ''creds'' ?q) = ''Ete2024!''"
    "nf_secret_plain (normalize_finding demo_texts ''creds'' ?r) = ''Hiver2024!''"
    using k by (simp_all add: normalize_finding_def mask_payload_def present_def is_container_def Let_def)
  have e: "map_of ENDPOINT_SCHEMAS ''creds'' = Some \<lparr>sm_identifier = [''eml''], sm_date = [''fnd''], sm_type = None,
      sm_identity = [''eml'', ''src'']\<rparr>"
    by (simp add: ENDPOINT_SCHEMAS_def)
  from seen_again_same_key [OF demo_digest e, of ?p ?q] seen_again_same_key [OF demo_digest e, of ?p ?r] s
  show ?thesis by simp
qed

end
