(* ===== verification/Inbox.thy ===== *)
theory Inbox
  imports Tables Py_Text Uniqueness
begin

text \<open>
  The notifications inside the application (notifications/inbox.py and the model Notification): a
  notification belongs to a person, is kept once per person and event when the event has a key, and
  is read only as long as the person belongs to the company it is about. Newest rows come first.
\<close>

section \<open>Data\<close>

datatype notice_kind =
    Access_request_new | Watched_account_declared | Access_request_updated | Watched_findings_new
  | Committee_report_ready | Watch_update_published | Training_campaign_done | Training_due_passed
  | Training_low_participation | Training_measure_suggested

record notification =
  no_id :: int
  no_recipient :: int
  no_tenant :: "int option"
  no_kind :: notice_kind
  no_title :: string
  no_body :: string
  no_link :: string
  no_dedupe_key :: string
  no_created_at :: time
  no_read_at :: "time option"

record box =
  bx_seq :: int
  bx_rows :: "notification list"

text \<open>What an event says: the fields the callers of \<open>notify\<close> give.\<close>

record notice =
  nc_kind :: notice_kind
  nc_title :: string
  nc_body :: string
  nc_link :: string
  nc_dedupe_key :: string

section \<open>Notifying\<close>

text \<open>The dictionary of the recipients: each once, in the order they come first.\<close>

definition recipients_of :: "user option list \<Rightarrow> int list" where
  "recipients_of us = rev (remdups (rev (concat (map (\<lambda>u. case u of None \<Rightarrow> [] | Some x \<Rightarrow> [us_id x]) us))))"

definition already_notified :: "box \<Rightarrow> string \<Rightarrow> int \<Rightarrow> bool" where
  "already_notified b key u = (\<exists>r \<in> set (bx_rows b). no_recipient r = u \<and> no_dedupe_key r = key)"

definition notification_for :: "time \<Rightarrow> int option \<Rightarrow> notice \<Rightarrow> int \<Rightarrow> int \<Rightarrow> notification" where
  "notification_for now tenant n i u =
     \<lparr>no_id = i, no_recipient = u, no_tenant = tenant, no_kind = nc_kind n, no_title = take 200 (nc_title n),
      no_body = nc_body n, no_link = take 200 (nc_link n), no_dedupe_key = nc_dedupe_key n,
      no_created_at = now, no_read_at = None\<rparr>"

text \<open>\<open>bulk_create\<close> with the conflicts on (recipient, key) ignored; a row without a key has none.\<close>

fun insert_notices :: "time \<Rightarrow> int option \<Rightarrow> notice \<Rightarrow> int list \<Rightarrow> box \<Rightarrow> box" where
  "insert_notices now tenant n [] b = b"
| "insert_notices now tenant n (u # us) b =
     insert_notices now tenant n us
       (if nc_dedupe_key n \<noteq> [] \<and> already_notified b (nc_dedupe_key n) u then b
        else \<lparr>bx_seq = bx_seq b + 1, bx_rows = notification_for now tenant n (bx_seq b + 1) u # bx_rows b\<rparr>)"

definition count_notified :: "box \<Rightarrow> string \<Rightarrow> int list \<Rightarrow> nat" where
  "count_notified b key us = length (filter (\<lambda>r. no_recipient r \<in> set us \<and> no_dedupe_key r = key) (bx_rows b))"

definition notify :: "time \<Rightarrow> box \<Rightarrow> user option list \<Rightarrow> int option \<Rightarrow> notice \<Rightarrow> int \<times> box" where
  "notify now b us tenant n =
     (let ids = recipients_of us; key = nc_dedupe_key n
      in if ids = [] then (0, b)
         else (let b' = insert_notices now tenant n ids b
               in (if key = [] then int (length ids)
                   else int (count_notified b' key ids) - int (count_notified b key ids), b')))"

definition tenant_admins :: "db \<Rightarrow> int \<Rightarrow> user list" where
  "tenant_admins d t =
     concat (map (\<lambda>m. case find (\<lambda>u. us_id u = me_user m) (d_users d) of
         None \<Rightarrow> [] | Some u \<Rightarrow> if us_is_active u then [u] else [])
       (filter (\<lambda>m. me_tenant m = t \<and> me_role m = Admin) (d_memberships d)))"

definition staff_users :: "db \<Rightarrow> user list" where
  "staff_users d = filter (\<lambda>u. us_is_staff u \<and> us_is_active u) (d_users d)"

definition notify_tenant_admins :: "time \<Rightarrow> db \<Rightarrow> box \<Rightarrow> int \<Rightarrow> notice \<Rightarrow> int \<times> box" where
  "notify_tenant_admins now d b t n = notify now b (map Some (tenant_admins d t)) (Some t) n"

definition notify_staff :: "time \<Rightarrow> db \<Rightarrow> box \<Rightarrow> notice \<Rightarrow> int \<times> box" where
  "notify_staff now d b n = notify now b (map Some (staff_users d)) None n"

section \<open>Reading\<close>

definition visible :: "db \<Rightarrow> int \<Rightarrow> notification \<Rightarrow> bool" where
  "visible d u r = (no_recipient r = u \<and>
     (case no_tenant r of None \<Rightarrow> True
      | Some t \<Rightarrow> \<exists>m \<in> set (d_memberships d). me_user m = u \<and> me_tenant m = t))"

definition visible_for :: "db \<Rightarrow> box \<Rightarrow> int \<Rightarrow> notification list" where
  "visible_for d b u = filter (visible d u) (bx_rows b)"

definition list_for_user :: "db \<Rightarrow> box \<Rightarrow> int \<Rightarrow> bool \<Rightarrow> string \<Rightarrow> notification list" where
  "list_for_user d b u unread_only search =
     filter (\<lambda>r. (\<not> unread_only \<or> no_read_at r = None) \<and>
        (search = [] \<or> contains (lower (no_title r)) (lower search) \<or> contains (lower (no_body r)) (lower search)))
       (visible_for d b u)"

definition unread_count :: "db \<Rightarrow> box \<Rightarrow> int \<Rightarrow> nat" where
  "unread_count d b u = length (filter (\<lambda>r. no_read_at r = None) (visible_for d b u))"

definition set_read :: "time \<Rightarrow> (notification \<Rightarrow> bool) \<Rightarrow> box \<Rightarrow> nat \<times> box" where
  "set_read now p b =
     (length (filter p (bx_rows b)), b\<lparr>bx_rows := upd_where p (\<lambda>r. r\<lparr>no_read_at := Some now\<rparr>) (bx_rows b)\<rparr>)"

definition mark_read :: "time \<Rightarrow> db \<Rightarrow> box \<Rightarrow> int \<Rightarrow> int list \<Rightarrow> nat \<times> box" where
  "mark_read now d b u ids = set_read now (\<lambda>r. visible d u r \<and> no_id r \<in> set ids \<and> no_read_at r = None) b"

definition mark_all_read :: "time \<Rightarrow> db \<Rightarrow> box \<Rightarrow> int \<Rightarrow> nat \<times> box" where
  "mark_all_read now d b u = set_read now (\<lambda>r. visible d u r \<and> no_read_at r = None) b"

text \<open>The monthly task: one notice per company and month.\<close>

definition committee_notice :: "int \<Rightarrow> string \<Rightarrow> string \<Rightarrow> string \<Rightarrow> notice" where
  "committee_notice t month year_month body =
     \<lparr>nc_kind = Committee_report_ready, nc_title = ''Votre rapport de comit'' @ [CHR 0xE9] @ '' de '' @ month @ '' est pr'' @ [CHR 0xEA] @ ''t'',
      nc_body = body, nc_link = ''/rapports'',
      nc_dedupe_key = ''comite:'' @ show_int t @ '':'' @ year_month\<rparr>"

fun notify_committee_reports ::
  "time \<Rightarrow> db \<Rightarrow> string \<Rightarrow> string \<Rightarrow> string \<Rightarrow> tenant list \<Rightarrow> box \<Rightarrow> int \<times> box" where
  "notify_committee_reports now d month year_month body [] b = (0, b)"
| "notify_committee_reports now d month year_month body (t # ts) b =
     (case notify_tenant_admins now d b (te_id t) (committee_notice (te_id t) month year_month body) of (n, b1) \<Rightarrow>
        case notify_committee_reports now d month year_month body ts b1 of (k, b2) \<Rightarrow> (n + k, b2))"

section \<open>Invariant\<close>

abbreviation keyed :: "notification \<Rightarrow> bool" where
  "keyed r \<equiv> no_dedupe_key r \<noteq> []"

definition event_key :: "notification \<Rightarrow> int \<times> string" where
  "event_key r = (no_recipient r, no_dedupe_key r)"

definition box_ok :: "box \<Rightarrow> bool" where
  "box_ok b =
     (at_most_one keyed event_key (bx_rows b) \<and> distinct (map no_id (bx_rows b)) \<and>
      (\<forall>r \<in> set (bx_rows b). no_id r \<le> bx_seq b))"

inductive inbox_step :: "box \<Rightarrow> box \<Rightarrow> bool" where
  step_notify: "notify now b us tenant n = (k, b') \<Longrightarrow> inbox_step b b'"
| step_read: "mark_read now d b u ids = (k, b') \<Longrightarrow> inbox_step b b'"
| step_read_all: "mark_all_read now d b u = (k, b') \<Longrightarrow> inbox_step b b'"

text \<open>What no step changes of a row.\<close>

definition written :: "notification \<Rightarrow> int \<times> int \<times> int option \<times> notice_kind \<times> string \<times> string \<times> string \<times> string" where
  "written r = (no_id r, no_recipient r, no_tenant r, no_kind r, no_title r, no_body r, no_link r, no_dedupe_key r)"

lemma insert_notices_ok:
  "box_ok b \<Longrightarrow> box_ok (insert_notices now tenant n us b)"
proof (induction us arbitrary: b)
  case (Cons u us)
  let ?r = "notification_for now tenant n (bx_seq b + 1) u"
  have "box_ok \<lparr>bx_seq = bx_seq b + 1, bx_rows = ?r # bx_rows b\<rparr>"
    if "nc_dedupe_key n = [] \<or> \<not> already_notified b (nc_dedupe_key n) u"
  proof -
    have "at_most_one keyed event_key (?r # bx_rows b)"
      using Cons.prems that
      by (intro at_most_one_Cons) (auto simp: box_ok_def already_notified_def event_key_def notification_for_def)
    with Cons.prems show ?thesis by (auto simp: box_ok_def notification_for_def)
  qed
  with Cons show ?case by auto
qed simp

lemma insert_notices_keeps: "set (bx_rows b) \<subseteq> set (bx_rows (insert_notices now tenant n us b))"
proof (induction us arbitrary: b)
  case (Cons u us)
  let ?b = "\<lparr>bx_seq = bx_seq b + 1, bx_rows = notification_for now tenant n (bx_seq b + 1) u # bx_rows b\<rparr>"
  from Cons [of b] Cons [of ?b] show ?case by auto
qed simp

lemma already_notified_mono:
  "written ` set (bx_rows b) \<subseteq> written ` set (bx_rows b') \<Longrightarrow> already_notified b key u \<Longrightarrow> already_notified b' key u"
proof -
  assume sub: "written ` set (bx_rows b) \<subseteq> written ` set (bx_rows b')" and "already_notified b key u"
  then obtain r where "r \<in> set (bx_rows b)" and r: "no_recipient r = u" "no_dedupe_key r = key" by (auto simp: already_notified_def)
  with sub obtain r' where "r' \<in> set (bx_rows b')" "written r' = written r" by (metis (no_types, lifting) imageE imageI subsetD)
  with r show "already_notified b' key u" by (auto simp: already_notified_def written_def)
qed

lemma insert_notices_all:
  "nc_dedupe_key n \<noteq> [] \<Longrightarrow> u \<in> set us \<Longrightarrow> already_notified (insert_notices now tenant n us b) (nc_dedupe_key n) u"
proof (induction us arbitrary: b)
  case (Cons v us)
  let ?b = "\<lparr>bx_seq = bx_seq b + 1, bx_rows = notification_for now tenant n (bx_seq b + 1) v # bx_rows b\<rparr>"
  show ?case
  proof (cases "u = v")
    case True
    let ?c = "if nc_dedupe_key n \<noteq> [] \<and> already_notified b (nc_dedupe_key n) v then b else ?b"
    have "already_notified ?c (nc_dedupe_key n) v"
      using Cons.prems(1) by (auto simp: already_notified_def notification_for_def)
    then have "already_notified (insert_notices now tenant n us ?c) (nc_dedupe_key n) v"
      by (rule already_notified_mono [OF image_mono [OF insert_notices_keeps]])
    then show ?thesis by (simp only: True insert_notices.simps)
  next
    case False
    with Cons show ?thesis by simp
  qed
qed simp

lemma insert_notices_none:
  "nc_dedupe_key n \<noteq> [] \<Longrightarrow> (\<And>u. u \<in> set us \<Longrightarrow> already_notified b (nc_dedupe_key n) u) \<Longrightarrow>
   insert_notices now tenant n us b = b"
  by (induction us) auto

lemma set_recipients_of: "set (recipients_of us) = us_id ` {u. Some u \<in> set us}"
  by (force simp: recipients_of_def split: option.splits)

lemma set_read_ok: "set_read now p b = (k, b') \<Longrightarrow> box_ok b \<Longrightarrow>
    box_ok b' \<and> map written (bx_rows b') = map written (bx_rows b)"
proof
  assume r: "set_read now p b = (k, b')" and ok: "box_ok b"
  have rows: "bx_rows b' = upd_where p (\<lambda>r. r\<lparr>no_read_at := Some now\<rparr>) (bx_rows b)" and "bx_seq b' = bx_seq b"
    using r by (auto simp: set_read_def)
  moreover have "at_most_one keyed event_key (bx_rows b')"
    unfolding rows using ok by (intro at_most_one_upd) (auto simp: box_ok_def event_key_def)
  moreover have "map no_id (bx_rows b') = map no_id (bx_rows b)" unfolding rows by (rule map_upd_where) simp
  ultimately show "box_ok b'" using ok by (auto simp: box_ok_def set_upd_where)
  show "map written (bx_rows b') = map written (bx_rows b)"
    unfolding rows by (rule map_upd_where) (simp add: written_def)
qed

lemma inbox_step_ok:
  assumes "inbox_step b b'" and "box_ok b"
  shows "box_ok b' \<and> written ` set (bx_rows b) \<subseteq> written ` set (bx_rows b')"
  using assms(1)
proof cases
  case (step_notify now us tenant n k)
  then consider "b' = b" | "b' = insert_notices now tenant n (recipients_of us) b"
    by (auto simp: notify_def Let_def split: if_splits)
  then show ?thesis using insert_notices_ok [OF assms(2)] insert_notices_keeps assms(2) by cases blast+
next
  case (step_read now d u ids k)
  from set_read_ok [OF step_read [unfolded mark_read_def] assms(2)] show ?thesis by (metis list.set_map order_refl)
next
  case (step_read_all now d u k)
  from set_read_ok [OF step_read_all [unfolded mark_all_read_def] assms(2)] show ?thesis by (metis list.set_map order_refl)
qed

lemma inbox_steps_ok:
  "inbox_step\<^sup>*\<^sup>* b b' \<Longrightarrow> box_ok b \<Longrightarrow> box_ok b' \<and> written ` set (bx_rows b) \<subseteq> written ` set (bx_rows b')"
  by (induction rule: rtranclp_induct) (use inbox_step_ok in blast)+

section \<open>Properties\<close>

lemma insert_notices_unkeyed:
  "nc_dedupe_key n = [] \<Longrightarrow>
   length (bx_rows (insert_notices now tenant n us b)) = length (bx_rows b) + length us"
  by (induction us arbitrary: b) auto

definition empty_box :: box where
  "empty_box = \<lparr>bx_seq = 0, bx_rows = []\<rparr>"


definition demo_staff :: user where
  "demo_staff = \<lparr>us_id = 4, us_email = [], us_first_name = [], us_last_name = [], us_is_active = True,
     us_is_staff = True, us_password = None\<rparr>"

definition demo_notice :: notice where
  "demo_notice = \<lparr>nc_kind = Access_request_new, nc_title = ''t'', nc_body = [], nc_link = [], nc_dedupe_key = ''k''\<rparr>"


text \<open>
  A person reads and marks only their own notifications, and of a company only while they belong to
  it: marking counts exactly the rows it changes, all of them theirs and unread, leaves every other row
  as it is, and after marking all of them nothing is left to read.
\<close>

theorem marking_is_private:
  assumes "mark_read now d b u ids = (k, b')" and "mark_all_read now d b' u = (k2, b2)"
  shows "bx_rows b' = map (\<lambda>r. if no_recipient r = u \<and> no_id r \<in> set ids \<and> no_read_at r = None \<and>
        (\<forall>t. no_tenant r = Some t \<longrightarrow> (\<exists>m \<in> set (d_memberships d). me_user m = u \<and> me_tenant m = t))
      then r\<lparr>no_read_at := Some now\<rparr> else r) (bx_rows b) \<and>
    unread_count d b u = k + unread_count d b' u \<and> k2 = unread_count d b' u \<and> unread_count d b2 u = 0 \<and>
    (\<forall>v. v \<noteq> u \<longrightarrow> visible_for d b2 v = visible_for d b v)"
proof (intro conjI allI impI)
  let ?p = "\<lambda>r. visible d u r \<and> no_id r \<in> set ids \<and> no_read_at r = None"
  let ?q = "\<lambda>r. visible d u r \<and> no_read_at r = None"
  let ?f = "\<lambda>r. r\<lparr>no_read_at := Some now\<rparr>"
  have b': "bx_rows b' = upd_where ?p ?f (bx_rows b)" and k: "k = length (filter ?p (bx_rows b))"
    using assms(1) by (auto simp: mark_read_def set_read_def)
  have b2: "bx_rows b2 = upd_where ?q ?f (bx_rows b')" and k2: "k2 = length (filter ?q (bx_rows b'))"
    using assms(2) by (auto simp: mark_all_read_def set_read_def)
  show "bx_rows b' = map (\<lambda>r. if no_recipient r = u \<and> no_id r \<in> set ids \<and> no_read_at r = None \<and>
        (\<forall>t. no_tenant r = Some t \<longrightarrow> (\<exists>m \<in> set (d_memberships d). me_user m = u \<and> me_tenant m = t))
      then ?f r else r) (bx_rows b)"
    unfolding b' upd_where_def
  proof (rule map_cong [OF refl])
    fix r
    have "visible d u r = (no_recipient r = u \<and>
        (\<forall>t. no_tenant r = Some t \<longrightarrow> (\<exists>m \<in> set (d_memberships d). me_user m = u \<and> me_tenant m = t)))"
      by (cases "no_tenant r") (simp_all add: visible_def)
    then show "(if ?p r then ?f r else r) = (if no_recipient r = u \<and> no_id r \<in> set ids \<and> no_read_at r = None \<and>
        (\<forall>t. no_tenant r = Some t \<longrightarrow> (\<exists>m \<in> set (d_memberships d). me_user m = u \<and> me_tenant m = t)) then ?f r else r)"
      by (simp only: conj_ac)
  qed
  have v: "visible d v (?f r) = visible d v r" for v r by (simp add: visible_def)
  have unread: "unread_count d b u = length (filter ?q (bx_rows b))" for b
    by (simp add: unread_count_def visible_for_def conj_commute)
  have split: "length (filter ?q rs) = length (filter ?p rs) + length (filter ?q (upd_where ?p ?f rs))" for rs
    by (induction rs) (auto simp: v)
  show "unread_count d b u = k + unread_count d b' u" unfolding unread b' k by (rule split)
  show "k2 = unread_count d b' u" by (simp only: unread k2)
  have "filter ?q (upd_where ?q ?f rs) = []" for rs by (induction rs) auto
  then show "unread_count d b2 u = 0" by (simp only: unread b2) simp
  fix w assume "w \<noteq> u"
  then have other: "\<not> visible d w r" if "visible d u r" for r using that by (auto simp: visible_def)
  have kept: "filter (visible d w) (upd_where p ?f rs) = filter (visible d w) rs" if "\<And>r. p r \<Longrightarrow> visible d u r" for p rs
    using that other by (intro filter_upd_where_other) (simp_all add: v)
  have "filter (visible d w) (bx_rows b2) = filter (visible d w) (bx_rows b')"
    and "filter (visible d w) (bx_rows b') = filter (visible d w) (bx_rows b)"
    unfolding b2 b' by (rule kept, simp)+
  then show "visible_for d b2 w = visible_for d b w" by (simp only: visible_for_def)
qed

theorem marking_is_private_example:
  "\<exists>b' b2. mark_read 5 empty_db \<lparr>bx_seq = 1, bx_rows = [notification_for 1 None demo_notice 1 4]\<rparr> 3 [1] = (0, b') \<and>
     mark_all_read 5 empty_db b' 4 = (1, b2) \<and> unread_count empty_db b2 4 = 0"
proof -
  let ?b = "\<lparr>bx_seq = 1, bx_rows = [notification_for 1 None demo_notice 1 4]\<rparr>"
  have "\<not> visible empty_db 3 (notification_for 1 None demo_notice 1 4)" by (simp add: visible_def notification_for_def)
  then have one: "mark_read 5 empty_db ?b 3 [1] = (0, ?b)" by (simp add: mark_read_def set_read_def)
  define b' where "b' = ?b"
  obtain j b3 where three: "mark_read 5 empty_db b' 4 [] = (j, b3)" by fastforce
  obtain l b4 where four: "mark_all_read 5 empty_db b3 4 = (l, b4)" by fastforce
  have "b3 = b'" using three by (simp add: mark_read_def set_read_def b'_def)
  moreover have "unread_count empty_db ?b 4 = 1" by (simp add: unread_count_def visible_for_def visible_def notification_for_def)
  ultimately have "mark_all_read 5 empty_db b' 4 = (1, b4)" "unread_count empty_db b4 4 = 0"
    using four marking_is_private [OF three four] by (simp_all add: b'_def)
  with one show ?thesis unfolding b'_def by blast
qed

end
