(* ===== verification/Breach_Tables.thy ===== *)
theory Breach_Tables
  imports Normalizer Accounts Entitlements Monitoring Inbox
begin

text \<open>
  The rows of threat_intelligence/models.py and the state its services work on: the findings and
  what was done with them, the scans, the audit trails, the purge runs, the cached reading of the
  exposure; beside them the database of the accounts and subscriptions, the monitoring tables that
  own assets and alerts, the notifications, and the two entries of the cache (the remaining quota of
  the licence, the delay between two scans of a company). Tables hold their newest row first.
\<close>

datatype finding_status = Open | Treated | Ignored

record finding =
  bf_id :: int
  bf_tenant :: int
  bf_asset :: int
  bf_source_endpoint :: string
  bf_finding_type :: string
  bf_severity :: gravity
  bf_status :: finding_status
  bf_identifier_plain :: string
  bf_identifier_masked :: string
  bf_secret_masked :: string
  bf_secret_encrypted :: string
  bf_has_secret :: bool
  bf_secret_purged_at :: "time option"
  bf_breach_date :: "date option"
  bf_detected_at :: time
  bf_last_seen_at :: "time option"
  bf_raw_data :: payload
  bf_dedup_hash :: string
  bf_identity_hash :: string
  bf_secret_fingerprint :: string
  bf_alert :: "int option"
  bf_treated_by :: "int option"
  bf_treated_at :: "time option"

datatype job_status = Pending | Running | Finished | Failed

datatype job_scope = Assets | Watched_accounts

text \<open>The result of a job is a JSON object.\<close>

record scan_job =
  jb_id :: int
  jb_tenant :: int
  jb_asset :: "int option"
  jb_status :: job_status
  jb_triggered_by :: triggered_by
  jb_scope :: job_scope
  jb_result :: payload
  jb_error :: string
  jb_created_at :: time
  jb_finished_at :: "time option"

datatype denial = No_denial | Denied_role | Denied_step_up | Denied_no_secret | Denied_not_found

record reveal_audit =
  ra_tenant :: int
  ra_finding :: "int option"
  ra_user :: "int option"
  ra_success :: bool
  ra_denial :: denial
  ra_ip :: "string option"
  ra_agent :: string
  ra_created_at :: time

datatype access_context = Consultation | Export

record access_audit =
  ia_tenant :: int
  ia_user :: "int option"
  ia_context :: access_context
  ia_asset_ids :: "int list"
  ia_count :: nat
  ia_ip :: "string option"
  ia_agent :: string
  ia_created_at :: time

record purge_run =
  pu_started_at :: time
  pu_retention_days :: int
  pu_secrets_purged :: nat
  pu_reveal_audits_deleted :: nat

record synthesis =
  sy_tenant :: int
  sy_content :: string
  sy_generated_at :: time
  sy_is_stale :: bool
  sy_fingerprint :: string

record watched_finding =
  wf_id :: int
  wf_tenant :: int
  wf_account :: int
  wf_source_endpoint :: string
  wf_finding_type :: string
  wf_severity :: gravity
  wf_status :: finding_status
  wf_identifier_masked :: string
  wf_secret_masked :: string
  wf_has_secret :: bool
  wf_breach_date :: "date option"
  wf_detected_at :: time
  wf_last_seen_at :: "time option"
  wf_treated_at :: "time option"
  wf_from_first_scan :: bool
  wf_raw_data :: payload
  wf_dedup_hash :: string

record ti =
  ti_seq :: int
  ti_db :: db
  ti_mon :: mon
  ti_inbox :: box
  ti_findings :: "finding list"
  ti_jobs :: "scan_job list"
  ti_reveals :: "reveal_audit list"
  ti_accesses :: "access_audit list"
  ti_purges :: "purge_run list"
  ti_syntheses :: "synthesis list"
  ti_watched_findings :: "watched_finding list"
  ti_remaining :: "(unit, int) cache"
  ti_cooldown :: "(int, bool) cache"

text \<open>
  What the services read of their surroundings: the clock, the settings of the environment, and the
  cipher of the breach secrets. The cipher is the one of several keys (MultiFernet): it encrypts and
  re-encrypts with the first key and decrypts with any; what is not readable is \<open>None\<close>.
\<close>

record surroundings =
  sd_env :: env
  sd_texts :: texts
  sd_keys :: "string list"
  sd_single_key :: string
  sd_valid_keys :: "string list \<Rightarrow> bool"
  sd_encrypt :: "string list \<Rightarrow> string \<Rightarrow> string"
  sd_decrypt :: "string list \<Rightarrow> string \<Rightarrow> string option"
  sd_rotate :: "string list \<Rightarrow> string \<Rightarrow> string option"
  sd_cooldown_fallback :: int
  sd_pool_size :: int
  sd_callback_url :: string
  sd_safety_margin :: int
  sd_retention_days :: int
  sd_audit_retention_days :: int
  sd_synthesis_cooldown :: int

abbreviation sd_now :: "surroundings \<Rightarrow> time" where
  "sd_now s \<equiv> e_now (sd_env s)"

text \<open>The interface every provider implements (providers/base.py), as what its calls return.\<close>

record raw_finding =
  rw_endpoint :: string
  rw_payload :: payload
  rw_is_test :: bool
  rw_asset_ref :: string

record scan_result =
  sc_findings :: "raw_finding list"
  sc_requests :: int

datatype provider_error = Pool_full | Not_configured | Other_failure

record provider =
  pv_scan_domain :: "string \<Rightarrow> provider_error + scan_result"
  pv_scan_email :: "string \<Rightarrow> provider_error + scan_result"
  pv_register :: "string \<Rightarrow> provider_error + string"
  pv_unregister :: "string \<Rightarrow> provider_error + unit"
  pv_remaining :: "provider_error + int option"

datatype ti_error =
    Key_missing
  | Secret_illegible
  | Cooldown_active
  | Provider_pool_full
  | Already_monitored
  | Ownership_missing
  | Webhook_not_configured
  | Foreign_asset
  | Provider_failed provider_error
  | Second_row
  | Quota_exceeded
  | Scan_impossible "string list"
  | Declaration_required
  | Purpose_required
  | Account_empty
  | Account_already_watched
  | Entitlement entitlement_error
  | Unreadable_url

end
