(* ===== verification/Exposure.thy ===== *)
theory Exposure
  imports Breach_Tables "HOL-Library.Multiset"
begin

text \<open>
  The exposure score of an asset (threat_intelligence/exposure.py): every open finding weighs by its
  severity and its age, more when its secret can be revealed, and each further finding counts for
  six tenths of the rank before it. The scores of the code are floating-point numbers; here they are
  exact rationals, rounded as Python rounds.
\<close>

section \<open>Weights\<close>

definition MAX_SCORE :: int where "MAX_SCORE = 100"

datatype exposure_level = Calm | To_watch | Concerning | Level_critical

fun SEVERITY_WEIGHTS :: "gravity \<Rightarrow> rat" where
  "SEVERITY_WEIGHTS Grave_critical = 40"
| "SEVERITY_WEIGHTS Grave_high = 22"
| "SEVERITY_WEIGHTS Grave_attention = 8"

datatype freshness_label = Under_a_month | Under_three_months | Under_a_year | Over_a_year

definition FRESHNESS_TIERS :: "(int \<times> rat \<times> freshness_label) list" where
  "FRESHNESS_TIERS =
     [(30, 1, Under_a_month), (90, 85 / 100, Under_three_months), (365, 6 / 10, Under_a_year)]"

definition FRESHNESS_OLD_MULTIPLIER :: rat where "FRESHNESS_OLD_MULTIPLIER = 35 / 100"
definition REVEALABLE_SECRET_BONUS :: rat where "REVEALABLE_SECRET_BONUS = 10"
definition ADDITIONAL_FINDING_DECAY :: rat where "ADDITIONAL_FINDING_DECAY = 6 / 10"

fun tier :: "int \<Rightarrow> (int \<times> rat \<times> freshness_label) list \<Rightarrow> rat \<times> freshness_label" where
  "tier age [] = (FRESHNESS_OLD_MULTIPLIER, Over_a_year)"
| "tier age ((max_days, multiplier, label) # ts) =
     (if age < max_days then (multiplier, label) else tier age ts)"

text \<open>The age in days, by the date of the breach when it is known and of its detection otherwise.\<close>

definition age_days :: "time \<Rightarrow> date option \<Rightarrow> time \<Rightarrow> int" where
  "age_days now breach_date detected_at =
     max 0 (case breach_date of
       Some d \<Rightarrow> date_of now - d
     | None \<Rightarrow> (now - detected_at) div day_length)"

definition freshness :: "time \<Rightarrow> finding \<Rightarrow> rat \<times> freshness_label" where
  "freshness now f = tier (age_days now (bf_breach_date f) (bf_detected_at f)) FRESHNESS_TIERS"

record thresholds =
  th_watch :: int
  th_concerning :: int
  th_critical :: int

definition level_for :: "thresholds \<Rightarrow> int \<Rightarrow> exposure_level" where
  "level_for th score =
     (if th_critical th \<le> score then Level_critical
      else if th_concerning th \<le> score then Concerning
      else if th_watch th \<le> score then To_watch
      else Calm)"

section \<open>The score and its components\<close>

definition is_revealable :: "finding \<Rightarrow> bool" where
  "is_revealable f = (bf_has_secret f \<and> bf_secret_encrypted f \<noteq> [])"

definition raw_weight :: "time \<Rightarrow> finding \<Rightarrow> rat" where
  "raw_weight now f =
     SEVERITY_WEIGHTS (bf_severity f) * fst (freshness now f) +
     (if is_revealable f then REVEALABLE_SECRET_BONUS else 0)"

text \<open>The sum of the weights, in the order given, each damped by its rank.\<close>

definition damped :: "rat list \<Rightarrow> rat list" where
  "damped raws = map (\<lambda>(rank, raw). raw * ADDITIONAL_FINDING_DECAY ^ rank) (List.enumerate 0 raws)"

definition capped :: "rat \<Rightarrow> int" where
  "capped s = min MAX_SCORE (py_round s)"

record component =
  cm_finding :: int
  cm_endpoint :: string
  cm_severity :: gravity
  cm_points :: int
  cm_freshness :: freshness_label
  cm_revealable :: bool
  cm_rank :: nat

record exposure_score =
  es_score :: int
  es_level :: exposure_level
  es_components :: "component list"
  es_findings_count :: nat

definition component_of :: "time \<Rightarrow> nat \<times> finding \<Rightarrow> component" where
  "component_of now rf = (case rf of (rank, f) \<Rightarrow>
     \<lparr>cm_finding = bf_id f, cm_endpoint = bf_source_endpoint f, cm_severity = bf_severity f,
      cm_points = py_round (raw_weight now f * ADDITIONAL_FINDING_DECAY ^ rank),
      cm_freshness = snd (freshness now f), cm_revealable = is_revealable f, cm_rank = rank\<rparr>)"

definition compute_exposure_score :: "thresholds \<Rightarrow> time \<Rightarrow> finding list \<Rightarrow> exposure_score" where
  "compute_exposure_score th now findings =
     (let scored = sort_key (\<lambda>f. - raw_weight now f) findings;
          score = capped (sum_list (damped (map (raw_weight now) scored)))
      in \<lparr>es_score = score, es_level = level_for th score,
          es_components = filter (\<lambda>c. 0 < cm_points c) (map (component_of now) (List.enumerate 0 scored)),
          es_findings_count = length findings\<rparr>)"

section \<open>The score from rows\<close>

type_synonym score_row = "gravity \<times> date option \<times> time \<times> bool"

definition annotate_revealable :: "finding \<Rightarrow> score_row" where
  "annotate_revealable f = (bf_severity f, bf_breach_date f, bf_detected_at f, is_revealable f)"

definition freshness_multiplier :: "time \<Rightarrow> date option \<Rightarrow> time \<Rightarrow> rat" where
  "freshness_multiplier now breach_date detected_at =
     fst (tier (age_days now breach_date detected_at) FRESHNESS_TIERS)"

definition row_weight :: "time \<Rightarrow> score_row \<Rightarrow> rat" where
  "row_weight now r = (case r of (severity, breach_date, detected_at, revealable) \<Rightarrow>
     SEVERITY_WEIGHTS severity * freshness_multiplier now breach_date detected_at +
     (if revealable then REVEALABLE_SECRET_BONUS else 0))"

definition score_from_rows :: "time \<Rightarrow> score_row list \<Rightarrow> int" where
  "score_from_rows now rows = capped (sum_list (damped (sort_key uminus (map (row_weight now) rows))))"

fun severity_rank :: "gravity \<Rightarrow> int" where
  "severity_rank Grave_critical = 0"
| "severity_rank Grave_high = 1"
| "severity_rank Grave_attention = 2"

definition freshness_sort_key :: "finding \<Rightarrow> int \<times> int" where
  "freshness_sort_key f =
     (severity_rank (bf_severity f),
      - (case bf_breach_date f of Some d \<Rightarrow> d | None \<Rightarrow> date_of (bf_detected_at f)))"

section \<open>Damped sums\<close>

abbreviation damped_sum :: "rat list \<Rightarrow> rat" where
  "damped_sum raws \<equiv> sum_list (damped raws)"

lemma damped_shift:
  "sum_list (map (\<lambda>(rank, raw). raw * ADDITIONAL_FINDING_DECAY ^ rank) (List.enumerate (Suc n) raws)) =
   ADDITIONAL_FINDING_DECAY * sum_list (map (\<lambda>(rank, raw). raw * ADDITIONAL_FINDING_DECAY ^ rank) (List.enumerate n raws))"
  by (induction raws arbitrary: n) (simp_all add: algebra_simps)

lemma damped_sum_simps [simp]:
  "damped_sum [] = 0"
  "damped_sum (x # xs) = x + 6 / 10 * damped_sum xs"
  using damped_shift [of 0 xs] by (simp_all add: damped_def ADDITIONAL_FINDING_DECAY_def)

lemma damped_sum_bounds:
  "\<forall>x \<in> set xs. 0 \<le> x \<and> x \<le> r \<Longrightarrow> 0 \<le> r \<Longrightarrow> 0 \<le> damped_sum xs \<and> damped_sum xs \<le> 5 / 2 * r"
  by (induction xs) auto

lemma damped_sum_nonneg: "\<forall>x \<in> set xs. 0 \<le> x \<Longrightarrow> 0 \<le> damped_sum xs"
  by (induction xs) auto

lemma damped_sum_insort:
  assumes "sorted (map uminus ys)" and "\<forall>y \<in> set ys. 0 \<le> y" and "0 \<le> x"
  shows "damped_sum ys \<le> damped_sum (insort_key uminus x ys)"
  using assms
proof (induction ys)
  case (Cons y ys)
  show ?case
  proof (cases "y \<le> x")
    case True
    with Cons.prems have "\<forall>z \<in> set (y # ys). 0 \<le> z \<and> z \<le> x" by auto
    from damped_sum_bounds [OF this Cons.prems(3)] have "damped_sum (y # ys) \<le> 5 / 2 * x" by blast
    moreover have "damped_sum (insort_key uminus x (y # ys)) = x + 6 / 10 * damped_sum (y # ys)"
      using True by (simp only: insort_key.simps neg_le_iff_le if_True damped_sum_simps)
    ultimately show ?thesis by linarith
  next
    case False
    with Cons show ?thesis by simp
  qed
qed simp

lemma damped_sum_more:
  assumes "\<forall>x \<in> set (zs @ xs). 0 \<le> x"
  shows "damped_sum (sort_key uminus xs) \<le> damped_sum (sort_key uminus (zs @ xs))"
  using assms
proof (induction zs)
  case (Cons z zs)
  then show ?case
    using damped_sum_insort [of "sort_key uminus (zs @ xs)" z] by (simp add: order_trans)
qed simp

lemma sort_uminus_mset:
  fixes xs ys :: "rat list"
  assumes "mset xs = mset ys" shows "sort_key uminus xs = sort_key uminus ys"
  by (rule sort_key_inj_key_eq) (simp_all add: assms)

lemma damped_sum_mono:
  fixes xs ys :: "rat list"
  assumes "mset xs \<subseteq># mset ys" and "\<forall>y \<in> set ys. 0 \<le> y"
  shows "damped_sum (sort_key uminus xs) \<le> damped_sum (sort_key uminus ys)"
proof -
  obtain zs where zs: "mset zs = mset ys - mset xs" using ex_mset by blast
  then have same: "mset (zs @ xs) = mset ys" using assms(1) by simp
  then have "set (zs @ xs) = set ys" using mset_eq_setD by blast
  with damped_sum_more [of zs xs] assms(2) sort_uminus_mset [OF same] show ?thesis by simp
qed

lemma capped_mono: "x \<le> y \<Longrightarrow> capped x \<le> capped y"
  unfolding capped_def by (rule min.mono) (simp_all add: py_round_mono)

lemma tier_bounds: "7 / 20 \<le> fst (tier age FRESHNESS_TIERS) \<and> fst (tier age FRESHNESS_TIERS) \<le> 1"
  by (simp add: FRESHNESS_TIERS_def FRESHNESS_OLD_MULTIPLIER_def)

lemma raw_weight_pos: "0 \<le> raw_weight now f"
  using tier_bounds [of "age_days now (bf_breach_date f) (bf_detected_at f)"]
  by (cases "bf_severity f") (auto simp: raw_weight_def freshness_def REVEALABLE_SECRET_BONUS_def)

lemma scored_raws:
  "map (raw_weight now) (sort_key (\<lambda>f. - raw_weight now f) fs) = sort_key uminus (map (raw_weight now) fs)"
proof (rule sym, rule sort_key_inj_key_eq)
  show "sorted (map uminus (map (raw_weight now) (sort_key (\<lambda>f. - raw_weight now f) fs)))"
    using sorted_sort_key [of "\<lambda>f. - raw_weight now f" fs] by (simp only: map_map comp_def)
qed simp_all

lemma es_score_eq:
  "es_score (compute_exposure_score th now fs) = capped (damped_sum (sort_key uminus (map (raw_weight now) fs)))"
  by (simp add: compute_exposure_score_def Let_def scored_raws)

section \<open>Properties\<close>

text \<open>
  The two ways of computing a score agree: the score shown on a card, from the findings, is the
  score of the dashboard, from bare rows, whatever the order in which the rows come.
\<close>

theorem scores_agree:
  assumes "mset rows = mset (map annotate_revealable fs)"
  shows "score_from_rows now rows = es_score (compute_exposure_score th now fs)"
proof -
  have "map (row_weight now) (map annotate_revealable fs) = map (raw_weight now) fs"
    by (simp add: row_weight_def annotate_revealable_def raw_weight_def freshness_multiplier_def freshness_def)
  then have "mset (map (row_weight now) rows) = mset (map (raw_weight now) fs)"
    by (metis assms mset_map)
  from sort_uminus_mset [OF this] show ?thesis by (simp add: score_from_rows_def es_score_eq)
qed

definition demo_finding :: "int \<Rightarrow> gravity \<Rightarrow> string \<Rightarrow> finding" where
  "demo_finding i g secret = \<lparr>bf_id = i, bf_tenant = 7, bf_asset = 1, bf_source_endpoint = ''creds'',
     bf_finding_type = ''creds'', bf_severity = g, bf_status = Open, bf_identifier_plain = [],
     bf_identifier_masked = [], bf_secret_masked = [], bf_secret_encrypted = secret,
     bf_has_secret = (secret \<noteq> []), bf_secret_purged_at = None, bf_breach_date = Some 20000,
     bf_detected_at = days 20000, bf_last_seen_at = None, bf_raw_data = [], bf_dedup_hash = show_int i,
     bf_identity_hash = [], bf_secret_fingerprint = [], bf_alert = None, bf_treated_by = None,
     bf_treated_at = None\<rparr>"

definition demo_thresholds :: thresholds where
  "demo_thresholds = \<lparr>th_watch = 20, th_concerning = 50, th_critical = 75\<rparr>"

lemma date_of_days [simp]: "date_of (days n) = n"
  by (simp add: date_of_def days_def day_length_def)

lemma demo_raw: "raw_weight (days 20000) (demo_finding i g secret) =
    SEVERITY_WEIGHTS g + (if secret \<noteq> [] then 10 else 0)"
  by (simp add: raw_weight_def freshness_def age_days_def demo_finding_def FRESHNESS_TIERS_def
      is_revealable_def REVEALABLE_SECRET_BONUS_def)

theorem scores_agree_example:
  "score_from_rows (days 20000) (map annotate_revealable [demo_finding 1 Grave_high [], demo_finding 2 Grave_critical ''x'']) = 63"
proof -
  let ?fs = "[demo_finding 2 Grave_critical ''x'', demo_finding 1 Grave_high []]"
  have "es_score (compute_exposure_score demo_thresholds (days 20000) ?fs) = 63"
    by (simp add: es_score_eq demo_raw capped_def py_round_near [of 63] MAX_SCORE_def)
  with scores_agree [of "map annotate_revealable [demo_finding 1 Grave_high [], demo_finding 2 Grave_critical ''x'']" ?fs]
  show ?thesis by simp
qed

text \<open>
  Treating findings never raises the score of an asset: it stays between 0 and 100, and the score
  of the findings that remain is at most the score of all of them.
\<close>

theorem treating_never_raises:
  assumes "mset remaining \<subseteq># mset fs"
  shows "0 \<le> es_score (compute_exposure_score th now remaining) \<and>
    es_score (compute_exposure_score th now remaining) \<le> es_score (compute_exposure_score th' now fs) \<and>
    es_score (compute_exposure_score th' now fs) \<le> 100"
proof -
  have pos: "\<forall>x \<in> set (map (raw_weight now) fs). 0 \<le> x" by (simp add: raw_weight_pos)
  have "mset (map (raw_weight now) remaining) \<subseteq># mset (map (raw_weight now) fs)"
    using image_mset_subseteq_mono [OF assms] by simp
  from capped_mono [OF damped_sum_mono [OF this pos]] have
    "es_score (compute_exposure_score th now remaining) \<le> es_score (compute_exposure_score th' now fs)"
    by (simp add: es_score_eq)
  moreover have "capped 0 \<le> es_score (compute_exposure_score th now remaining)"
    unfolding es_score_eq by (rule capped_mono, rule damped_sum_nonneg) (simp add: raw_weight_pos)
  moreover have "capped 0 = 0" using py_round_of_int [of 0] by (simp add: capped_def MAX_SCORE_def)
  ultimately show ?thesis by (simp add: es_score_eq) (simp add: capped_def MAX_SCORE_def)
qed

theorem treating_never_raises_example:
  "es_score (compute_exposure_score demo_thresholds (days 20000) [demo_finding 1 Grave_high []]) = 22 \<and>
   22 \<le> es_score (compute_exposure_score demo_thresholds (days 20000)
     [demo_finding 2 Grave_critical ''x'', demo_finding 1 Grave_high []])"
proof -
  have "es_score (compute_exposure_score demo_thresholds (days 20000) [demo_finding 1 Grave_high []]) = 22"
    by (simp add: es_score_eq demo_raw capped_def py_round_near [of 22] MAX_SCORE_def)
  with treating_never_raises [of "[demo_finding 1 Grave_high []]"
      "[demo_finding 2 Grave_critical ''x'', demo_finding 1 Grave_high []]" demo_thresholds "days 20000" demo_thresholds]
  show ?thesis by simp
qed

text \<open>
  Minor findings, however many, never look like a serious one: findings of the lowest severity
  without a secret score at most 20 together, and stay below the concerning level as long as its
  threshold is above 20, while a fresh critical finding with a secret alone scores 50.
\<close>

theorem minor_findings_stay_low:
  assumes "\<forall>f \<in> set fs. bf_severity f = Grave_attention \<and> \<not> is_revealable f"
    and "20 < th_concerning th" and "th_concerning th \<le> th_critical th"
  shows "es_score (compute_exposure_score th now fs) \<le> 20 \<and>
    es_level (compute_exposure_score th now fs) \<in> {Calm, To_watch} \<and>
    (bf_severity f = Grave_critical \<and> is_revealable f \<and> bf_breach_date f = Some (date_of now) \<longrightarrow>
       es_score (compute_exposure_score th now [f]) = 50)"
proof -
  have "0 \<le> raw_weight now g \<and> raw_weight now g \<le> 8" if "g \<in> set fs" for g
    using assms(1) that tier_bounds [of "age_days now (bf_breach_date g) (bf_detected_at g)"]
    by (simp add: raw_weight_def freshness_def)
  then have "damped_sum (sort_key uminus (map (raw_weight now) fs)) \<le> 5 / 2 * 8"
    using damped_sum_bounds [of "sort_key uminus (map (raw_weight now) fs)" 8] by auto
  from capped_mono [OF this] have low: "es_score (compute_exposure_score th now fs) \<le> 20"
    using py_round_of_int [of 20] by (simp add: es_score_eq capped_def [of 20] MAX_SCORE_def)
  moreover have "es_level (compute_exposure_score th now fs) \<in> {Calm, To_watch}"
    using low assms(2,3) by (simp add: compute_exposure_score_def Let_def level_for_def)
  moreover have "es_score (compute_exposure_score th now [f]) = 50"
    if "bf_severity f = Grave_critical \<and> is_revealable f \<and> bf_breach_date f = Some (date_of now)"
    using that by (simp add: es_score_eq raw_weight_def freshness_def age_days_def FRESHNESS_TIERS_def
        REVEALABLE_SECRET_BONUS_def capped_def py_round_near [of 50] MAX_SCORE_def)
  ultimately show ?thesis by blast
qed

theorem minor_findings_stay_low_example:
  "es_score (compute_exposure_score demo_thresholds (days 20000)
     (replicate 1000 (demo_finding 1 Grave_attention []))) \<le> 20 \<and>
   es_score (compute_exposure_score demo_thresholds (days 20000)
     [demo_finding 2 Grave_critical ''x'']) = 50"
  using minor_findings_stay_low [of "replicate 1000 (demo_finding 1 Grave_attention [])"
      "demo_thresholds" "days 20000" "demo_finding 2 Grave_critical ''x''"]
  by (simp add: is_revealable_def demo_finding_def demo_thresholds_def)

end
