(* ===== verification/Findings.thy ===== *)
theory Findings
  imports Exposure
begin

text \<open>
  Breach findings (threat_intelligence/services.py): the cipher of their secrets, who may read an
  address, the ingestion of what a provider returns, what a company does with its findings, their
  indicators, the cached reading of the exposure, the purge of old secrets and the rotation of the
  key. An instance the code saves with \<open>update_fields\<close> is written by its primary key.
\<close>

section \<open>The cipher\<close>

definition encryption_keys :: "surroundings \<Rightarrow> string list" where
  "encryption_keys s =
     (let ks = filter (\<lambda>k. k \<noteq> []) (sd_keys s)
      in if ks \<noteq> [] then ks else if sd_single_key s \<noteq> [] then [sd_single_key s] else [])"

definition fernet :: "surroundings \<Rightarrow> ti_error + string list" where
  "fernet s =
     (let ks = encryption_keys s in if ks = [] \<or> \<not> sd_valid_keys s ks then Inl Key_missing else Inr ks)"

definition encrypt_breach_secret :: "surroundings \<Rightarrow> string \<Rightarrow> ti_error + string" where
  "encrypt_breach_secret s plain =
     (if plain = [] then Inr [] else rbind (fernet s) (\<lambda>ks. Inr (sd_encrypt s ks plain)))"

definition decrypt_breach_secret :: "surroundings \<Rightarrow> string \<Rightarrow> ti_error + string" where
  "decrypt_breach_secret s encrypted =
     rbind (fernet s) (\<lambda>ks. case sd_decrypt s ks encrypted of None \<Rightarrow> Inl Secret_illegible | Some p \<Rightarrow> Inr p)"

definition rotate_secret_ciphertext :: "surroundings \<Rightarrow> string \<Rightarrow> ti_error + string" where
  "rotate_secret_ciphertext s encrypted =
     rbind (fernet s) (\<lambda>ks. case sd_rotate s ks encrypted of None \<Rightarrow> Inl Secret_illegible | Some c \<Rightarrow> Inr c)"

section \<open>Rows of findings\<close>

definition save_finding :: "finding \<Rightarrow> ti \<Rightarrow> ti" where
  "save_finding f t = t\<lparr>ti_findings := upd_where (\<lambda>r. bf_id r = bf_id f) (\<lambda>r. f) (ti_findings t)\<rparr>"

definition mark_synthesis_stale :: "int \<Rightarrow> ti \<Rightarrow> ti" where
  "mark_synthesis_stale tenant t =
     t\<lparr>ti_syntheses := upd_where (\<lambda>y. sy_tenant y = tenant \<and> \<not> sy_is_stale y) (\<lambda>y. y\<lparr>sy_is_stale := True\<rparr>)
         (ti_syntheses t)\<rparr>"

section \<open>Who reads an address\<close>

definition IDENTIFIER_VISIBLE_ROLES :: "role list" where
  "IDENTIFIER_VISIBLE_ROLES = [Admin, Contributor]"

definition can_view_identifiers :: "role option \<Rightarrow> bool" where
  "can_view_identifiers r = (case r of None \<Rightarrow> False | Some x \<Rightarrow> x \<in> set IDENTIFIER_VISIBLE_ROLES)"

definition identifier_for_viewer :: "finding \<Rightarrow> role option \<Rightarrow> string" where
  "identifier_for_viewer f r =
     (if can_view_identifiers r
      then (if bf_identifier_plain f \<noteq> [] then bf_identifier_plain f else bf_identifier_masked f)
      else bf_identifier_masked f)"

definition record_identifier_access ::
  "surroundings \<Rightarrow> ti \<Rightarrow> int \<Rightarrow> int option \<Rightarrow> access_context \<Rightarrow> finding list \<Rightarrow> role option \<Rightarrow> string \<Rightarrow>
   string \<Rightarrow> access_audit option \<times> ti" where
  "record_identifier_access s t tenant user ctx findings r ip agent =
     (if r \<noteq> None \<and> \<not> can_view_identifiers r then (None, t)
      else (let concerned = filter (\<lambda>f. bf_identifier_plain f \<noteq> []) findings
            in if concerned = [] then (None, t)
               else (let a = \<lparr>ia_tenant = tenant, ia_user = user, ia_context = ctx,
                              ia_asset_ids = remdups (sort (map bf_asset concerned)),
                              ia_count = length concerned, ia_ip = (if ip = [] then None else Some ip),
                              ia_agent = take 255 agent, ia_created_at = sd_now s\<rparr>
                     in (Some a, t\<lparr>ti_accesses := a # ti_accesses t\<rparr>))))"

section \<open>Ingestion\<close>

definition LEGACY_FINGERPRINT_PREFIX :: string where "LEGACY_FINGERPRINT_PREFIX = ''legacy:''"

record ingestion_report =
  ir_created :: "int list"
  ir_seen_again :: "int list"
  ir_seen_again_treated :: "int list"

definition empty_report :: ingestion_report where
  "empty_report = \<lparr>ir_created = [], ir_seen_again = [], ir_seen_again_treated = []\<rparr>"

definition CLOSED_FINDING_STATUSES :: "finding_status list" where
  "CLOSED_FINDING_STATUSES = [Treated, Ignored]"

definition note_seen_again :: "finding \<Rightarrow> ingestion_report \<Rightarrow> ingestion_report" where
  "note_seen_again f r =
     r\<lparr>ir_seen_again := ir_seen_again r @ [bf_id f],
       ir_seen_again_treated := ir_seen_again_treated r @ (if bf_status f \<in> set CLOSED_FINDING_STATUSES then [bf_id f] else [])\<rparr>"

definition note_created :: "finding \<Rightarrow> ingestion_report \<Rightarrow> ingestion_report" where
  "note_created f r = r\<lparr>ir_created := ir_created r @ [bf_id f]\<rparr>"

definition MAX_REPORTED_TREATED_IDS :: nat where "MAX_REPORTED_TREATED_IDS = 50"

definition reconcile_legacy_finding :: "int \<Rightarrow> normalized \<Rightarrow> ti \<Rightarrow> finding option \<times> ti" where
  "reconcile_legacy_finding tenant n t =
     (if nf_identity_hash n = [] then (None, t)
      else case find (\<lambda>f. bf_tenant f = tenant \<and> bf_identity_hash f = nf_identity_hash n \<and>
               startswith (bf_secret_fingerprint f) LEGACY_FINGERPRINT_PREFIX \<and>
               bf_secret_masked f = nf_secret_masked n) (ti_findings t) of
             None \<Rightarrow> (None, t)
           | Some f \<Rightarrow>
               (let f' = f\<lparr>bf_secret_fingerprint := nf_secret_fingerprint n, bf_dedup_hash := nf_dedup_hash n\<rparr>
                in (Some f', save_finding f' t)))"

definition find_existing_finding :: "int \<Rightarrow> normalized \<Rightarrow> ti \<Rightarrow> finding option \<times> ti" where
  "find_existing_finding tenant n t =
     (case find (\<lambda>f. bf_tenant f = tenant \<and> bf_dedup_hash f = nf_dedup_hash n) (ti_findings t) of
        Some f \<Rightarrow> (Some f, t)
      | None \<Rightarrow> reconcile_legacy_finding tenant n t)"

fun gravity_name :: "gravity \<Rightarrow> string" where
  "gravity_name Grave_critical = ''critical''"
| "gravity_name Grave_high = ''high''"
| "gravity_name Grave_attention = ''attention''"

fun alert_severity :: "gravity \<Rightarrow> severity" where
  "alert_severity Grave_critical = Sev_critical"
| "alert_severity Grave_high = Sev_critical"
| "alert_severity Grave_attention = Sev_warning"

definition new_finding :: "surroundings \<Rightarrow> int \<Rightarrow> int \<Rightarrow> int \<Rightarrow> normalized \<Rightarrow> string \<Rightarrow> finding" where
  "new_finding s i tenant asset n encrypted =
     \<lparr>bf_id = i, bf_tenant = tenant, bf_asset = asset, bf_source_endpoint = nf_source_endpoint n,
      bf_finding_type = nf_finding_type n, bf_severity = nf_severity n, bf_status = Open,
      bf_identifier_plain = nf_identifier_plain n, bf_identifier_masked = nf_identifier_masked n,
      bf_secret_masked = nf_secret_masked n, bf_secret_encrypted = encrypted,
      bf_has_secret = nf_has_secret n, bf_secret_purged_at = None, bf_breach_date = nf_breach_date n,
      bf_detected_at = sd_now s, bf_last_seen_at = Some (sd_now s), bf_raw_data = nf_raw_data n,
      bf_dedup_hash = nf_dedup_hash n, bf_identity_hash = nf_identity_hash n,
      bf_secret_fingerprint = nf_secret_fingerprint n, bf_alert = None, bf_treated_by = None,
      bf_treated_at = None\<rparr>"

text \<open>
  A finding not seen before: its row, then the alert of its asset, then the link between them. The
  loser of two concurrent insertions reads the other's row; one ingestion alone never loses.
\<close>

definition create_finding ::
  "surroundings \<Rightarrow> int \<Rightarrow> int \<Rightarrow> normalized \<Rightarrow> string \<Rightarrow> ti \<Rightarrow> finding \<times> ti" where
  "create_finding s tenant asset n encrypted t =
     (let f = new_finding s (ti_seq t + 1) tenant asset n encrypted;
          t1 = t\<lparr>ti_seq := ti_seq t + 1, ti_findings := f # ti_findings t\<rparr>
      in case open_or_update_alert (sd_now s) (ti_mon t1) asset Breach_compromise (alert_severity (bf_severity f))
                (Breach_details (bf_id f) (bf_finding_type f) (bf_source_endpoint f) (gravity_name (bf_severity f))) of
           (a, m) \<Rightarrow>
             (let f' = f\<lparr>bf_alert := Some (al_id a)\<rparr> in (f', save_finding f' (t1\<lparr>ti_mon := m\<rparr>))))"

text \<open>One record. The findings created so far and the report go along with the tables.\<close>

type_synonym ingestion = "finding list \<times> ingestion_report \<times> ti"

definition ingest_one :: "surroundings \<Rightarrow> int \<Rightarrow> int \<Rightarrow> raw_finding \<Rightarrow> ingestion \<Rightarrow> ti_error + ingestion" where
  "ingest_one s tenant asset raw st =
     (case st of (created, report, t) \<Rightarrow>
        if rw_is_test raw then Inr st
        else
          (let n = normalize_finding (sd_texts s) (rw_endpoint raw) (rw_payload raw)
           in rbind (encrypt_breach_secret s (nf_secret_plain n)) (\<lambda>encrypted.
                case find_existing_finding tenant n t of
                  (Some f, t1) \<Rightarrow>
                    (let f' = f\<lparr>bf_last_seen_at := Some (sd_now s)\<rparr>
                     in Inr (created, note_seen_again f' report, save_finding f' t1))
                | (None, t1) \<Rightarrow>
                    (case create_finding s tenant asset n encrypted t1 of
                       (f, t2) \<Rightarrow> Inr (created @ [f], note_created f report, t2)))))"

text \<open>An exception leaves behind what the records before it have written.\<close>

fun ingest_loop ::
  "surroundings \<Rightarrow> int \<Rightarrow> int \<Rightarrow> raw_finding list \<Rightarrow> ingestion \<Rightarrow> ti_error option \<times> ingestion" where
  "ingest_loop s tenant asset [] st = (None, st)"
| "ingest_loop s tenant asset (raw # raws) st =
     (case ingest_one s tenant asset raw st of
        Inl e \<Rightarrow> (Some e, st)
      | Inr st' \<Rightarrow> ingest_loop s tenant asset raws st')"

definition ingest_raw_findings ::
  "surroundings \<Rightarrow> ti \<Rightarrow> int \<Rightarrow> int \<Rightarrow> raw_finding list \<Rightarrow> ingestion_report \<Rightarrow> ti_error option \<times> ingestion" where
  "ingest_raw_findings s t tenant asset raws report =
     (case ingest_loop s tenant asset raws ([], report, t) of
        (Some e, st) \<Rightarrow> (Some e, st)
      | (None, (created, report', t')) \<Rightarrow>
          (None, (created, report', if created = [] then t' else mark_synthesis_stale tenant t')))"

section \<open>Consultation and treatment\<close>

definition PRE_INCIDENT_ENDPOINTS :: "string list" where
  "PRE_INCIDENT_ENDPOINTS = [''radar'', ''darkweb'', ''asm'']"

text \<open>\<open>icontains\<close> on the value of the asset, the type and the source; never on the address.\<close>

definition icontains :: "string \<Rightarrow> string \<Rightarrow> bool" where
  "icontains text needle = contains (lower text) (lower needle)"

definition asset_value :: "ti \<Rightarrow> int \<Rightarrow> string" where
  "asset_value t a = (case find (\<lambda>x. at_id x = a) (mn_assets (ti_mon t)) of None \<Rightarrow> [] | Some x \<Rightarrow> at_value x)"

definition list_findings ::
  "ti \<Rightarrow> int \<Rightarrow> finding_status option \<Rightarrow> bool \<Rightarrow> gravity option \<Rightarrow> int option \<Rightarrow> string \<Rightarrow> finding list" where
  "list_findings t tenant status include_pre_incident severity asset search =
     filter (\<lambda>f. bf_tenant f = tenant \<and>
        (include_pre_incident \<or> bf_source_endpoint f \<notin> set PRE_INCIDENT_ENDPOINTS) \<and>
        (case status of None \<Rightarrow> True | Some x \<Rightarrow> bf_status f = x) \<and>
        (case severity of None \<Rightarrow> True | Some x \<Rightarrow> bf_severity f = x) \<and>
        (case asset of None \<Rightarrow> True | Some x \<Rightarrow> x = 0 \<or> bf_asset f = x) \<and>
        (search = [] \<or> icontains (asset_value t (bf_asset f)) search \<or> icontains (bf_finding_type f) search \<or>
           icontains (bf_source_endpoint f) search))
       (ti_findings t)"

definition get_finding :: "ti \<Rightarrow> int \<Rightarrow> int \<Rightarrow> finding option" where
  "get_finding t tenant i = find (\<lambda>f. bf_tenant f = tenant \<and> bf_id f = i) (ti_findings t)"

definition set_finding_status ::
  "surroundings \<Rightarrow> ti \<Rightarrow> finding \<Rightarrow> finding_status \<Rightarrow> int option \<Rightarrow> finding \<times> ti" where
  "set_finding_status s t f status user =
     (let f1 = f\<lparr>bf_status := status\<rparr>;
          f2 = (if status \<in> set CLOSED_FINDING_STATUSES then f1\<lparr>bf_treated_at := Some (sd_now s)\<rparr> else f1);
          f3 = (if status = Treated then f2\<lparr>bf_treated_by := user\<rparr> else f2)
      in (f3, mark_synthesis_stale (bf_tenant f)
           (t\<lparr>ti_findings := upd_where (\<lambda>r. bf_id r = bf_id f)
                (\<lambda>r. r\<lparr>bf_status := bf_status f3, bf_treated_by := bf_treated_by f3, bf_treated_at := bf_treated_at f3\<rparr>)
                (ti_findings t)\<rparr>)))"

definition count_critical_open_findings :: "ti \<Rightarrow> int \<Rightarrow> nat" where
  "count_critical_open_findings t tenant =
     length (filter (\<lambda>f. bf_tenant f = tenant \<and> bf_status f = Open \<and> bf_severity f = Grave_critical) (ti_findings t))"

section \<open>Purge and rotation\<close>

definition purge_secret :: "time \<Rightarrow> finding \<Rightarrow> finding" where
  "purge_secret now f = f\<lparr>bf_secret_encrypted := [], bf_has_secret := False, bf_secret_purged_at := Some now\<rparr>"

definition purge_expired_secrets :: "surroundings \<Rightarrow> ti \<Rightarrow> purge_run \<times> ti" where
  "purge_expired_secrets s t =
     (let now = sd_now s;
          due = (\<lambda>f. bf_has_secret f \<and> bf_detected_at f < now - days (sd_retention_days s));
          old = (\<lambda>a. ra_created_at a < now - days (sd_audit_retention_days s));
          run = \<lparr>pu_started_at = now, pu_retention_days = sd_retention_days s,
                 pu_secrets_purged = length (filter due (ti_findings t)),
                 pu_reveal_audits_deleted = length (filter old (ti_reveals t))\<rparr>
      in (run, t\<lparr>ti_findings := upd_where due (purge_secret now) (ti_findings t),
                 ti_reveals := filter (\<lambda>a. \<not> old a) (ti_reveals t),
                 ti_purges := run # ti_purges t\<rparr>))"

definition purge_tenant_secrets :: "surroundings \<Rightarrow> ti \<Rightarrow> int \<Rightarrow> nat \<times> ti" where
  "purge_tenant_secrets s t tenant =
     (let held = (\<lambda>f. bf_tenant f = tenant \<and> bf_has_secret f)
      in (length (filter held (ti_findings t)),
          t\<lparr>ti_findings := upd_where held (purge_secret (sd_now s)) (ti_findings t)\<rparr>))"

text \<open>The rotation command: each readable secret under the first key, the others left as they are.\<close>

definition rotate_one :: "surroundings \<Rightarrow> finding \<Rightarrow> (nat \<times> nat) \<times> finding list \<Rightarrow> (nat \<times> nat) \<times> finding list" where
  "rotate_one s f acc =
     (case acc of ((rotated, missed), fs) \<Rightarrow>
        case rotate_secret_ciphertext s (bf_secret_encrypted f) of
          Inl e \<Rightarrow> ((rotated, missed + 1), fs)
        | Inr c \<Rightarrow> ((rotated + 1, missed), upd_where (\<lambda>r. bf_id r = bf_id f) (\<lambda>r. r\<lparr>bf_secret_encrypted := c\<rparr>) fs))"

definition rotate_breach_secret_key :: "surroundings \<Rightarrow> ti \<Rightarrow> ti_error + (nat \<times> nat) \<times> ti" where
  "rotate_breach_secret_key s t =
     (if encryption_keys s = [] then Inl Key_missing
      else case fold (rotate_one s)
                  (filter (\<lambda>f. bf_has_secret f \<and> bf_secret_encrypted f \<noteq> []) (ti_findings t))
                  ((0, 0), ti_findings t) of
             (counts, fs) \<Rightarrow> Inr (counts, t\<lparr>ti_findings := fs\<rparr>))"

section \<open>The cached reading of the exposure\<close>

fun status_name :: "finding_status \<Rightarrow> string" where
  "status_name Open = ''open''"
| "status_name Treated = ''treated''"
| "status_name Ignored = ''ignored''"

definition findings_fingerprint :: "surroundings \<Rightarrow> ti \<Rightarrow> int \<Rightarrow> string" where
  "findings_fingerprint s t tenant =
     tx_sha256 (sd_texts s) (piped (map (\<lambda>f. show_int (bf_id f) @ '':'' @ status_name (bf_status f))
       (sort_key bf_id (filter (\<lambda>f. bf_tenant f = tenant \<and> bf_status f = Open) (ti_findings t)))))"

definition get_exposure_synthesis :: "ti \<Rightarrow> int \<Rightarrow> synthesis option" where
  "get_exposure_synthesis t tenant = find (\<lambda>y. sy_tenant y = tenant) (ti_syntheses t)"

definition synthesis_cooldown_active :: "surroundings \<Rightarrow> ti \<Rightarrow> int \<Rightarrow> bool" where
  "synthesis_cooldown_active s t tenant =
     (case get_exposure_synthesis t tenant of
        None \<Rightarrow> False
      | Some y \<Rightarrow> sd_now s - sy_generated_at y < sd_synthesis_cooldown s * 60 * second)"

definition save_exposure_synthesis :: "surroundings \<Rightarrow> ti \<Rightarrow> int \<Rightarrow> string \<Rightarrow> synthesis \<times> ti" where
  "save_exposure_synthesis s t tenant content =
     (let y = \<lparr>sy_tenant = tenant, sy_content = content, sy_generated_at = sd_now s, sy_is_stale = False,
               sy_fingerprint = findings_fingerprint s t tenant\<rparr>
      in (y, if get_exposure_synthesis t tenant = None then t\<lparr>ti_syntheses := y # ti_syntheses t\<rparr>
             else t\<lparr>ti_syntheses := upd_where (\<lambda>x. sy_tenant x = tenant) (\<lambda>x. y) (ti_syntheses t)\<rparr>))"

section \<open>Revealing a secret\<close>

text \<open>
  The proof asked again at every reveal: the password of the account, or a code of its second factor.
  A second factor whose own key is missing raises.
\<close>

definition check_password :: "crypto \<Rightarrow> user \<Rightarrow> string \<Rightarrow> bool" where
  "check_password cr u password =
     (case us_password u of None \<Rightarrow> False | Some h \<Rightarrow> cr_check_password cr password h)"

definition verify_step_up ::
  "crypto \<Rightarrow> surroundings \<Rightarrow> auth \<Rightarrow> user \<Rightarrow> string \<Rightarrow> string \<Rightarrow> accounts_error + bool" where
  "verify_step_up cr s au u password code =
     (if password \<noteq> [] then Inr (check_password cr u password)
      else if code \<noteq> [] then
        (case get_confirmed_credential au (us_id u) of
           None \<Rightarrow> Inr False
         | Some c \<Rightarrow> verify_totp_code cr (sd_now s) c code)
      else Inr False)"

definition record_reveal_attempt ::
  "surroundings \<Rightarrow> ti \<Rightarrow> int \<Rightarrow> int option \<Rightarrow> int \<Rightarrow> bool \<Rightarrow> denial \<Rightarrow> string \<Rightarrow> string \<Rightarrow> ti" where
  "record_reveal_attempt s t tenant f user success why ip agent =
     t\<lparr>ti_reveals := \<lparr>ra_tenant = tenant, ra_finding = f, ra_user = Some user, ra_success = success,
         ra_denial = why, ra_ip = (if ip = [] then None else Some ip), ra_agent = take 255 agent,
         ra_created_at = sd_now s\<rparr> # ti_reveals t\<rparr>"

definition list_reveal_audits :: "ti \<Rightarrow> int \<Rightarrow> reveal_audit list" where
  "list_reveal_audits t tenant = filter (\<lambda>a. ra_tenant a = tenant) (ti_reveals t)"

datatype reveal_response = Forbidden | Payment_required "string option" | Absent | Bad_request | Unauthorized
  | No_stored_secret | Temporarily_illegible | Revealed int string | Not_authenticated | Not_a_company_member | Throttled

text \<open>
  The handler: each refusal leaves a line in the journal before it answers, and so does the success. The
  body of the request is validated in between, with the spaces around its fields cut off: without a
  password or a code it is a bad request, and leaves no line. A step-up that raises is an error of the
  server, before anything is written.
\<close>

definition reveal_post ::
  "crypto \<Rightarrow> surroundings \<Rightarrow> auth \<Rightarrow> ti \<Rightarrow> membership \<Rightarrow> user \<Rightarrow> int \<Rightarrow> string \<Rightarrow> string \<Rightarrow> string \<Rightarrow> string \<Rightarrow>
   accounts_error + reveal_response \<times> ti" where
  "reveal_post cr s au t m u i password0 code0 ip agent =
     (let tenant = me_tenant m; password = strip password0; code = strip code0;
          deny = (\<lambda>why f answer. Inr (answer, record_reveal_attempt s t tenant f (us_id u) False why ip agent))
      in if \<not> (me_role m = Admin \<or> us_is_staff u) then deny Denied_role None Forbidden
         else if \<not> has_feature (ti_db t) tenant SECRET_REVEAL
         then deny Denied_role None (Payment_required (map_option pl_name (cheapest_plan_with (ti_db t) SECRET_REVEAL)))
         else case get_finding t tenant i of
           None \<Rightarrow> deny Denied_not_found None Absent
         | Some f \<Rightarrow>
             if password = [] \<and> code = [] then Inr (Bad_request, t)
             else rbind (verify_step_up cr s au u password code) (\<lambda>ok.
               if \<not> ok then deny Denied_step_up (Some i) Unauthorized
               else if \<not> bf_has_secret f \<or> bf_secret_encrypted f = [] then deny Denied_no_secret (Some i) No_stored_secret
               else case decrypt_breach_secret s (bf_secret_encrypted f) of
                 Inl e \<Rightarrow> deny Denied_no_secret (Some i) Temporarily_illegible
               | Inr plain \<Rightarrow>
                   Inr (Revealed i plain, record_reveal_attempt s t tenant (Some i) (us_id u) True No_denial ip agent)))"

text \<open>
  The view: before the handler runs, the framework checks that someone is signed in, that the request
  has a membership in the company it names (\<open>IsTenantMember\<close>), and that neither of the two rates, of the
  user and of the address, is exceeded (\<open>throttled\<close>, the answer of the framework's counters).
\<close>

definition reveal_secret ::
  "crypto \<Rightarrow> surroundings \<Rightarrow> auth \<Rightarrow> ti \<Rightarrow> membership option \<Rightarrow> user option \<Rightarrow> bool \<Rightarrow> int \<Rightarrow> string \<Rightarrow> string \<Rightarrow>
   string \<Rightarrow> string \<Rightarrow> accounts_error + reveal_response \<times> ti" where
  "reveal_secret cr s au t member viewer throttled i password0 code0 ip agent =
     (case viewer of
        None \<Rightarrow> Inr (Not_authenticated, t)
      | Some u \<Rightarrow>
          (case member of
             None \<Rightarrow> Inr (Not_a_company_member, t)
           | Some m \<Rightarrow>
               if throttled then Inr (Throttled, t)
               else reveal_post cr s au t m u i password0 code0 ip agent))"

end
