(* ===== verification/FindingsSafety.thy ===== *)
theory FindingsSafety
  imports Findings AccountsSafety
begin

text \<open>
  What the operations on findings guarantee: one row per observation and secret, findings that no
  ingestion reopens or creates twice, secrets that are only shown after every guard and a line in
  the journal, and what a purge and a rotation of the key leave.
\<close>

section \<open>Invariant\<close>

definition finding_key :: "finding \<Rightarrow> int \<times> string" where
  "finding_key f = (bf_tenant f, bf_dedup_hash f)"

definition findings_ok :: "ti \<Rightarrow> bool" where
  "findings_ok t =
     (distinct (map bf_id (ti_findings t)) \<and> (\<forall>f \<in> set (ti_findings t). bf_id f \<le> ti_seq t) \<and>
      distinct (map finding_key (ti_findings t)))"

text \<open>What an ingestion may change of a finding that exists: when it was last seen, and its key.\<close>

definition seen_again :: "finding \<Rightarrow> finding \<Rightarrow> bool" where
  "seen_again f g =
     (g = f\<lparr>bf_last_seen_at := bf_last_seen_at g, bf_secret_fingerprint := bf_secret_fingerprint g,
            bf_dedup_hash := bf_dedup_hash g\<rparr>)"

definition grown :: "ti \<Rightarrow> ti \<Rightarrow> bool" where
  "grown t t' =
     (ti_seq t \<le> ti_seq t' \<and>
      (\<forall>f \<in> set (ti_findings t). \<exists>g \<in> set (ti_findings t'). seen_again f g) \<and>
      (\<forall>g \<in> set (ti_findings t'). (\<exists>f \<in> set (ti_findings t). seen_again f g) \<or> bf_status g = Open \<and> ti_seq t < bf_id g))"

lemma seen_again_refl [simp]: "seen_again f f"
  by (simp add: seen_again_def)

lemma seen_again_trans: "seen_again f g \<Longrightarrow> seen_again g h \<Longrightarrow> seen_again f h"
  unfolding seen_again_def by (cases f, cases g, cases h) simp

lemma seen_again_same:
  assumes "seen_again f g"
  shows "bf_id g = bf_id f" and "bf_tenant g = bf_tenant f" and "bf_status g = bf_status f"
    and "bf_asset g = bf_asset f" and "bf_severity g = bf_severity f" and "bf_alert g = bf_alert f"
    and "bf_detected_at g = bf_detected_at f" and "bf_treated_by g = bf_treated_by f"
    and "bf_treated_at g = bf_treated_at f" and "bf_secret_encrypted g = bf_secret_encrypted f"
  using assms by (cases f, cases g, simp add: seen_again_def)+

lemma grown_refl [simp]: "grown t t"
  by (auto simp: grown_def intro: seen_again_refl)

lemma grown_trans:
  assumes "grown t u" and "grown u v" shows "grown t v"
proof -
  have "\<exists>h \<in> set (ti_findings v). seen_again f h" if "f \<in> set (ti_findings t)" for f
    using assms that unfolding grown_def by (meson seen_again_trans)
  moreover have "(\<exists>f \<in> set (ti_findings t). seen_again f h) \<or> bf_status h = Open \<and> ti_seq t < bf_id h"
    if h: "h \<in> set (ti_findings v)" for h
  proof -
    consider g where "g \<in> set (ti_findings u)" "seen_again g h" | "bf_status h = Open" "ti_seq u < bf_id h"
      using assms(2) h unfolding grown_def by blast
    then show ?thesis
    proof cases
      case 1
      with assms(1) have "(\<exists>f \<in> set (ti_findings t). seen_again f g) \<or> bf_status g = Open \<and> ti_seq t < bf_id g"
        unfolding grown_def by blast
      with 1 show ?thesis by (metis seen_again_trans seen_again_same(1,3))
    next
      case 2
      with assms(1) show ?thesis by (auto simp: grown_def)
    qed
  qed
  ultimately show ?thesis using assms by (auto simp: grown_def)
qed

section \<open>Ingestion\<close>

lemma save_same_row:
  "findings_ok t \<Longrightarrow> f \<in> set (ti_findings t) \<Longrightarrow> save_finding f t = t"
  by (auto simp: save_finding_def findings_ok_def dest: distinct_map_eq intro!: ti.equality upd_where_id)

lemma save_twice: "bf_id g = bf_id f \<Longrightarrow> save_finding g (save_finding f t) = save_finding g t"
  by (auto simp: save_finding_def upd_where_def)

text \<open>Writing a row of the table back, with a key no other row has.\<close>

lemma save_finding_ok:
  assumes "findings_ok t" and "f \<in> set (ti_findings t)" and "bf_id g = bf_id f"
    and "\<And>h. h \<in> set (ti_findings t) \<Longrightarrow> finding_key h = finding_key g \<Longrightarrow> h = f"
  shows "findings_ok (save_finding g t)"
proof -
  let ?p = "\<lambda>r. bf_id r = bf_id g"
  have d: "distinct (map bf_id (ti_findings t))" using assms(1) by (simp add: findings_ok_def)
  have ids: "map bf_id (upd_where ?p (\<lambda>r. g) (ti_findings t)) = map bf_id (ti_findings t)"
    by (rule map_upd_where) simp
  have "at_most_one (\<lambda>_. True) finding_key (upd_where ?p (\<lambda>r. g) (ti_findings t))"
    using assms(1,4) d assms(3) by (intro at_most_one_put) (auto simp: findings_ok_def at_most_one_def)
  with assms(1,2,3) ids d show ?thesis
    by (auto simp: findings_ok_def save_finding_def at_most_one_def set_upd_where)
qed

lemma save_finding_grown:
  assumes "findings_ok t" and "f \<in> set (ti_findings t)" and "seen_again f g"
  shows "grown t (save_finding g t)"
proof -
  have one: "r = f" if "r \<in> set (ti_findings t)" "bf_id r = bf_id f" for r
    using assms(1,2) that distinct_map_eq [of bf_id] by (auto simp: findings_ok_def)
  with assms(2,3) seen_again_same(1) [OF assms(3)] show ?thesis
    by (auto simp: grown_def save_finding_def set_upd_where intro: seen_again_refl)
qed

lemma find_existing_cases:
  assumes "find_existing_finding tenant n t = (r, t1)"
  obtains (fresh) "r = None" and "t1 = t"
      and "\<forall>f \<in> set (ti_findings t). finding_key f \<noteq> (tenant, nf_dedup_hash n)"
    | (known) f where "r = Some f" and "t1 = t" and "f \<in> set (ti_findings t)" and "finding_key f = (tenant, nf_dedup_hash n)"
    | (legacy) f f' where "r = Some f'" and "t1 = save_finding f' t" and "f \<in> set (ti_findings t)"
        and "f' = f\<lparr>bf_secret_fingerprint := nf_secret_fingerprint n, bf_dedup_hash := nf_dedup_hash n\<rparr>"
        and "bf_tenant f = tenant" and "startswith (bf_secret_fingerprint f) LEGACY_FINGERPRINT_PREFIX"
        and "\<forall>f \<in> set (ti_findings t). finding_key f \<noteq> (tenant, nf_dedup_hash n)"
proof (cases "find (\<lambda>f. bf_tenant f = tenant \<and> bf_dedup_hash f = nf_dedup_hash n) (ti_findings t)")
  case (Some f)
  with assms find_SomeD [OF Some] known [of f] show ?thesis
    by (simp add: find_existing_finding_def finding_key_def)
next
  case None
  then have no: "\<forall>f \<in> set (ti_findings t). finding_key f \<noteq> (tenant, nf_dedup_hash n)"
    by (auto simp: find_None_iff finding_key_def)
  from None assms have e: "reconcile_legacy_finding tenant n t = (r, t1)"
    by (simp add: find_existing_finding_def)
  show ?thesis
  proof (cases r)
    case None
    with e fresh no show ?thesis by (auto simp: reconcile_legacy_finding_def Let_def split: if_splits option.splits)
  next
    case (Some f')
    with e obtain f where
      f: "find (\<lambda>f. bf_tenant f = tenant \<and> bf_identity_hash f = nf_identity_hash n \<and>
               startswith (bf_secret_fingerprint f) LEGACY_FINGERPRINT_PREFIX \<and>
               bf_secret_masked f = nf_secret_masked n) (ti_findings t) = Some f"
      and f': "f' = f\<lparr>bf_secret_fingerprint := nf_secret_fingerprint n, bf_dedup_hash := nf_dedup_hash n\<rparr>"
      and t1: "t1 = save_finding f' t"
      by (auto simp: reconcile_legacy_finding_def Let_def split: if_splits option.splits)
    from find_SomeD [OF f] legacy [OF Some t1 _ f'] no show ?thesis by blast
  qed
qed

lemma create_finding_shape:
  assumes "create_finding s tenant asset n c t = (f, t')" and "findings_ok t"
  shows "\<exists>a m. f = (new_finding s (ti_seq t + 1) tenant asset n c)\<lparr>bf_alert := Some a\<rparr> \<and>
    t' = t\<lparr>ti_seq := ti_seq t + 1, ti_mon := m, ti_findings := f # ti_findings t\<rparr>"
proof -
  obtain a m where "open_or_update_alert (sd_now s) (ti_mon t) asset Breach_compromise (alert_severity (nf_severity n))
      (Breach_details (ti_seq t + 1) (nf_finding_type n) (nf_source_endpoint n) (gravity_name (nf_severity n))) = (a, m)"
    by fastforce
  moreover have "upd_where (\<lambda>r. bf_id r = ti_seq t + 1) (\<lambda>r. g) (ti_findings t) = ti_findings t" for g
    using assms(2) by (intro upd_where_none) (auto simp: findings_ok_def)
  ultimately have "f = (new_finding s (ti_seq t + 1) tenant asset n c)\<lparr>bf_alert := Some (al_id a)\<rparr> \<and>
    t' = t\<lparr>ti_seq := ti_seq t + 1, ti_mon := m, ti_findings := f # ti_findings t\<rparr>"
    using assms(1) by (auto simp: create_finding_def new_finding_def save_finding_def Let_def)
  then show ?thesis by blast
qed

lemma create_finding_ok:
  assumes "create_finding s tenant asset n c t = (f, t')" and "findings_ok t"
    and "\<forall>f \<in> set (ti_findings t). finding_key f \<noteq> (tenant, nf_dedup_hash n)"
  shows "findings_ok t' \<and> grown t t' \<and> f \<in> set (ti_findings t') \<and> finding_key f = (tenant, nf_dedup_hash n) \<and>
    bf_secret_fingerprint f = nf_secret_fingerprint n \<and> set (ti_findings t) \<subseteq> set (ti_findings t')"
  using create_finding_shape [OF assms(1,2)] assms(2,3)
  by (auto simp: findings_ok_def grown_def new_finding_def finding_key_def image_iff intro: seen_again_refl) force+

text \<open>The three ways a record that is no test may go.\<close>

lemma ingest_one_cases:
  assumes "ingest_one s tenant asset raw (created, rep, t) = Inr (created', rep', t')" and "findings_ok t"
    and "\<not> rw_is_test raw"
  defines "n \<equiv> normalize_finding (sd_texts s) (rw_endpoint raw) (rw_payload raw)"
  obtains (fresh) c f where "create_finding s tenant asset n c t = (f, t')" and "created' = created @ [f]"
      and "encrypt_breach_secret s (nf_secret_plain n) = Inr c"
      and "\<forall>f \<in> set (ti_findings t). finding_key f \<noteq> (tenant, nf_dedup_hash n)"
    | (known) f g where "t' = save_finding g t" and "created' = created" and "f \<in> set (ti_findings t)"
      and "finding_key f = (tenant, nf_dedup_hash n)" and "g = f\<lparr>bf_last_seen_at := Some (sd_now s)\<rparr>"
    | (legacy) f g where "t' = save_finding g t" and "created' = created" and "f \<in> set (ti_findings t)"
      and "bf_tenant f = tenant" and "startswith (bf_secret_fingerprint f) LEGACY_FINGERPRINT_PREFIX"
      and "g = f\<lparr>bf_secret_fingerprint := nf_secret_fingerprint n, bf_dedup_hash := nf_dedup_hash n,
                 bf_last_seen_at := Some (sd_now s)\<rparr>"
      and "\<forall>f \<in> set (ti_findings t). finding_key f \<noteq> (tenant, nf_dedup_hash n)"
proof -
  obtain c where c: "encrypt_breach_secret s (nf_secret_plain n) = Inr c"
    using assms(1,3) by (auto simp: ingest_one_def n_def [symmetric] Let_def rbind_Inr_iff)
  note one = assms(1) [unfolded ingest_one_def prod.case n_def [symmetric] Let_def c rbind.simps]
  obtain r t1 where e: "find_existing_finding tenant n t = (r, t1)" by fastforce
  from e show ?thesis
  proof (cases rule: find_existing_cases)
    case f: fresh
    obtain f t2 where cr: "create_finding s tenant asset n c t = (f, t2)" by fastforce
    from one e f(1,2) cr assms(3) have "created' = created @ [f]" "t' = t2" by auto
    with fresh [OF _ _ c f(3)] cr show ?thesis by blast
  next
    case k: (known f)
    from one e k(1,2) assms(3) have "created' = created" "t' = save_finding (f\<lparr>bf_last_seen_at := Some (sd_now s)\<rparr>) t"
      by (auto simp: Let_def)
    with known k(3,4) show ?thesis by blast
  next
    case l: (legacy f f')
    let ?g = "f'\<lparr>bf_last_seen_at := Some (sd_now s)\<rparr>"
    from one e l(1,2) assms(3) have "created' = created" "t' = save_finding ?g (save_finding f' t)"
      by (auto simp: Let_def)
    moreover have "save_finding ?g (save_finding f' t) = save_finding ?g t" by (rule save_twice) simp
    moreover have "?g = f\<lparr>bf_secret_fingerprint := nf_secret_fingerprint n, bf_dedup_hash := nf_dedup_hash n,
        bf_last_seen_at := Some (sd_now s)\<rparr>" by (simp add: l(4))
    ultimately show ?thesis using legacy l(3,5,6,7) by metis
  qed
qed

lemma ingest_one_test: "rw_is_test raw \<Longrightarrow> ingest_one s tenant asset raw st = Inr st"
  by (auto simp: ingest_one_def split: prod.split)

lemma seen_row_ok:
  assumes "findings_ok t" and "f \<in> set (ti_findings t)"
    and "g = f\<lparr>bf_secret_fingerprint := x, bf_dedup_hash := k, bf_last_seen_at := y\<rparr>"
    and "k = bf_dedup_hash f \<or> (\<forall>h \<in> set (ti_findings t). finding_key h \<noteq> (bf_tenant f, k))"
  shows "findings_ok (save_finding g t) \<and> grown t (save_finding g t)"
proof
  have "h = f" if "h \<in> set (ti_findings t)" "finding_key h = finding_key g" for h
    using assms that distinct_map_eq [of finding_key "ti_findings t"]
    by (auto simp: findings_ok_def finding_key_def)
  then show "findings_ok (save_finding g t)"
    using assms(1,2,3) by (intro save_finding_ok [of t f]) auto
  show "grown t (save_finding g t)"
    by (rule save_finding_grown [OF assms(1,2)]) (simp add: assms(3) seen_again_def)
qed

lemma ingest_one_ok:
  assumes "ingest_one s tenant asset raw (created, rep, t) = Inr (created', rep', t')" and "findings_ok t"
  shows "findings_ok t' \<and> grown t t'"
proof (cases "rw_is_test raw")
  case True
  with assms show ?thesis by (simp add: ingest_one_test)
next
  case False
  from assms False show ?thesis
  proof (cases rule: ingest_one_cases)
    case (fresh c f)
    from create_finding_ok [OF fresh(1) assms(2) fresh(4)] show ?thesis by blast
  next
    case (known f g)
    then show ?thesis
      using seen_row_ok [OF assms(2) known(3), where g = g and x = "bf_secret_fingerprint f" and k = "bf_dedup_hash f" and y = "Some (sd_now s)"] by simp
  next
    case (legacy f g)
    then show ?thesis using seen_row_ok [OF assms(2) legacy(3,6)] by simp
  qed
qed

lemma ingest_loop_ok:
  "ingest_loop s tenant asset raws (created, rep, t) = (e, (created', rep', t')) \<Longrightarrow> findings_ok t \<Longrightarrow>
   findings_ok t' \<and> grown t t'"
proof (induction raws arbitrary: created rep t)
  case (Cons raw raws)
  show ?case
  proof (cases "ingest_one s tenant asset raw (created, rep, t)")
    case (Inl x)
    with Cons.prems show ?thesis by simp
  next
    case (Inr st)
    obtain c1 r1 t1 where st: "st = (c1, r1, t1)" by (metis prod_cases3)
    with Inr ingest_one_ok Cons.prems(2) have t1: "findings_ok t1" "grown t t1" by blast+
    from Cons.prems(1) Inr st have "ingest_loop s tenant asset raws (c1, r1, t1) = (e, (created', rep', t'))" by simp
    from Cons.IH [OF this t1(1)] t1(2) show ?thesis by (blast intro: grown_trans)
  qed
qed simp

lemma stale_findings [simp]:
  "ti_findings (mark_synthesis_stale tenant t) = ti_findings t" "ti_seq (mark_synthesis_stale tenant t) = ti_seq t"
  "ti_reveals (mark_synthesis_stale tenant t) = ti_reveals t"
  by (simp_all add: mark_synthesis_stale_def)

lemma findings_ok_cong: "ti_findings t' = ti_findings t \<Longrightarrow> ti_seq t' = ti_seq t \<Longrightarrow> findings_ok t' = findings_ok t"
  by (simp add: findings_ok_def)

lemma grown_cong: "ti_findings t' = ti_findings u \<Longrightarrow> ti_seq t' = ti_seq u \<Longrightarrow> grown t t' = grown t u"
  by (simp add: grown_def)

lemma ingest_ok:
  assumes "ingest_raw_findings s t tenant asset raws rep = (e, (created, rep', t'))" and "findings_ok t"
  shows "findings_ok t' \<and> grown t t'"
proof -
  obtain e1 c1 r1 t1 where l: "ingest_loop s tenant asset raws ([], rep, t) = (e1, (c1, r1, t1))"
    by (metis prod_cases4)
  from ingest_loop_ok [OF l assms(2)] have "findings_ok t1 \<and> grown t t1" .
  moreover have "ti_findings t' = ti_findings t1 \<and> ti_seq t' = ti_seq t1"
    using assms(1) l by (auto simp: ingest_raw_findings_def split: option.splits if_splits)
  ultimately show ?thesis using findings_ok_cong grown_cong by blast
qed

section \<open>Records already known\<close>

definition legacy :: "finding \<Rightarrow> bool" where
  "legacy f = startswith (bf_secret_fingerprint f) LEGACY_FINGERPRINT_PREFIX"

definition known_key :: "int \<times> string \<Rightarrow> ti \<Rightarrow> bool" where
  "known_key k t = (\<exists>f \<in> set (ti_findings t). finding_key f = k \<and> \<not> legacy f)"

definition record_key :: "surroundings \<Rightarrow> raw_finding \<Rightarrow> string" where
  "record_key s raw = nf_dedup_hash (normalize_finding (sd_texts s) (rw_endpoint raw) (rw_payload raw))"

definition legacy_apart :: "surroundings \<Rightarrow> int \<Rightarrow> raw_finding list \<Rightarrow> ti \<Rightarrow> bool" where
  "legacy_apart s tenant raws t =
     (\<forall>f \<in> set (ti_findings t). legacy f \<longrightarrow> (\<forall>raw \<in> set raws. finding_key f \<noteq> (tenant, record_key s raw)))"

text \<open>No digest starts as the prints of the old findings do.\<close>

definition modern :: "surroundings \<Rightarrow> bool" where
  "modern s = (\<forall>x. \<not> startswith (tx_sha256 (sd_texts s) x) LEGACY_FINGERPRINT_PREFIX)"

lemma modern_print: "modern s \<Longrightarrow> \<not> startswith (nf_secret_fingerprint (normalize_finding (sd_texts s) e p)) LEGACY_FINGERPRINT_PREFIX"
  by (simp add: normalized_fields compute_secret_fingerprint_def modern_def) (simp add: LEGACY_FINGERPRINT_PREFIX_def)

lemma rows_saved:
  "findings_ok t \<Longrightarrow> f \<in> set (ti_findings t) \<Longrightarrow> bf_id g = bf_id f \<Longrightarrow>
   set (ti_findings (save_finding g t)) = insert g (set (ti_findings t) - {f})"
  using distinct_map_eq [of bf_id "ti_findings t"]
  by (auto simp: findings_ok_def save_finding_def set_upd_where image_iff)

lemma ingest_one_known:
  assumes "ingest_one s tenant asset raw (created, rep, t) = Inr (created', rep', t')" and "findings_ok t"
    and "known_key k t"
  shows "known_key k t'"
proof (cases "rw_is_test raw")
  case True
  with assms show ?thesis by (simp add: ingest_one_test)
next
  case False
  from assms(1,2) False show ?thesis
  proof (cases rule: ingest_one_cases)
    case (fresh c f)
    from create_finding_ok [OF fresh(1) assms(2) fresh(4)] assms(3) show ?thesis by (auto simp: known_key_def)
  next
    case (known f g)
    with assms(3) rows_saved [OF assms(2) known(3), of g] show ?thesis
      by (auto simp: known_key_def finding_key_def legacy_def)
  next
    case (legacy f g)
    with assms(3) rows_saved [OF assms(2) legacy(3), of g] show ?thesis
      by (auto simp: known_key_def legacy_def)
  qed
qed

lemma ingest_one_learns:
  assumes "ingest_one s tenant asset raw (created, rep, t) = Inr (created', rep', t')" and "findings_ok t"
    and "modern s" and "legacy_apart s tenant (raw # raws) t" and "\<not> rw_is_test raw"
  shows "known_key (tenant, record_key s raw) t' \<and> legacy_apart s tenant raws t'"
  using assms(1,2,5)
proof (cases rule: ingest_one_cases)
  case (fresh c f)
  from create_finding_ok [OF fresh(1) assms(2) fresh(4)] modern_print [OF assms(3)]
  have "f \<in> set (ti_findings t')" "finding_key f = (tenant, record_key s raw)" "\<not> legacy f"
    by (auto simp: record_key_def legacy_def)
  moreover have "set (ti_findings t') = insert f (set (ti_findings t))"
    using create_finding_shape [OF fresh(1) assms(2)] by auto
  ultimately show ?thesis using assms(4) by (auto simp: known_key_def legacy_apart_def)
next
  case (known f g)
  from known(3,4) assms(4) have "\<not> legacy f" by (auto simp: legacy_apart_def record_key_def)
  with rows_saved [OF assms(2) known(3), of g] known assms(4) show ?thesis
    by (auto simp: known_key_def legacy_apart_def finding_key_def record_key_def legacy_def)
next
  case (legacy f g)
  have "\<not> FindingsSafety.legacy g" using modern_print [OF assms(3)] by (simp add: legacy(6) legacy_def)
  moreover have "set (ti_findings t') = insert g (set (ti_findings t) - {f})"
    using rows_saved [OF assms(2) legacy(3), of g] by (simp add: legacy(1,6))
  moreover have "finding_key g = (tenant, record_key s raw)" by (simp add: legacy(4,6) finding_key_def record_key_def)
  ultimately show ?thesis using assms(4) by (auto simp: known_key_def legacy_apart_def)
qed

lemma ingest_loop_known:
  "ingest_loop s tenant asset raws (created, rep, t) = (e, (created', rep', t')) \<Longrightarrow> findings_ok t \<Longrightarrow> known_key k t \<Longrightarrow>
   known_key k t'"
proof (induction raws arbitrary: created rep t)
  case (Cons raw raws)
  show ?case
  proof (cases "ingest_one s tenant asset raw (created, rep, t)")
    case (Inr st)
    obtain c1 r1 t1 where st: "st = (c1, r1, t1)" by (metis prod_cases3)
    from ingest_one_ok [OF Inr [unfolded st] Cons.prems(2)] ingest_one_known [OF Inr [unfolded st] Cons.prems(2,3)]
    show ?thesis using Cons.IH [of c1 r1 t1] Cons.prems(1) Inr st by simp
  qed (use Cons.prems in simp)
qed simp

lemma ingest_loop_learns:
  "ingest_loop s tenant asset raws (created, rep, t) = (None, (created', rep', t')) \<Longrightarrow> findings_ok t \<Longrightarrow> modern s \<Longrightarrow>
   legacy_apart s tenant raws t \<Longrightarrow> raw \<in> set raws \<Longrightarrow> \<not> rw_is_test raw \<Longrightarrow> known_key (tenant, record_key s raw) t'"
proof (induction raws arbitrary: created rep t)
  case (Cons x raws)
  from Cons.prems(1) obtain st where one: "ingest_one s tenant asset x (created, rep, t) = Inr st"
    and rest: "ingest_loop s tenant asset raws st = (None, (created', rep', t'))" by (auto split: sum.splits)
  obtain c1 r1 t1 where st: "st = (c1, r1, t1)" by (metis prod_cases3)
  note one = one [unfolded st] and rest = rest [unfolded st]
  have ok: "findings_ok t1" using ingest_one_ok [OF one Cons.prems(2)] by blast
  have apart: "legacy_apart s tenant raws t1"
  proof (cases "rw_is_test x")
    case True
    with one Cons.prems(4) show ?thesis by (auto simp: ingest_one_test legacy_apart_def)
  next
    case False
    from ingest_one_learns [OF one Cons.prems(2,3,4) False] show ?thesis ..
  qed
  show ?case
  proof (cases "raw = x")
    case True
    with ingest_one_learns [OF one Cons.prems(2,3,4)] Cons.prems(6) have "known_key (tenant, record_key s raw) t1" by blast
    from ingest_loop_known [OF rest ok this] show ?thesis .
  next
    case False
    with Cons.IH [OF rest ok Cons.prems(3) apart] Cons.prems(5,6) show ?thesis by simp
  qed
qed simp

lemma ingest_loop_nothing:
  "ingest_loop s tenant asset raws (created, rep, t) = (e, (created', rep', t')) \<Longrightarrow> findings_ok t \<Longrightarrow>
   \<forall>raw \<in> set raws. \<not> rw_is_test raw \<longrightarrow> known_key (tenant, record_key s raw) t \<Longrightarrow>
   created' = created \<and> ti_mon t' = ti_mon t \<and> ti_syntheses t' = ti_syntheses t \<and>
   length (ti_findings t') = length (ti_findings t)"
proof (induction raws arbitrary: created rep t)
  case (Cons raw raws)
  show ?case
  proof (cases "ingest_one s tenant asset raw (created, rep, t)")
    case (Inr st)
    obtain c1 r1 t1 where st: "st = (c1, r1, t1)" by (metis prod_cases3)
    note one = Inr [unfolded st]
    have "c1 = created \<and> ti_mon t1 = ti_mon t \<and> ti_syntheses t1 = ti_syntheses t \<and>
        length (ti_findings t1) = length (ti_findings t)"
    proof (cases "rw_is_test raw")
      case True
      with one show ?thesis by (simp add: ingest_one_test)
    next
      case False
      with Cons.prems(3) have k: "known_key (tenant, record_key s raw) t" by simp
      from one Cons.prems(2) False show ?thesis
        by (cases rule: ingest_one_cases)
          (use k in \<open>auto simp: save_finding_def known_key_def record_key_def\<close>)
    qed
    moreover have "\<forall>raw \<in> set raws. \<not> rw_is_test raw \<longrightarrow> known_key (tenant, record_key s raw) t1"
      using ingest_one_known [OF one Cons.prems(2)] Cons.prems(3) by simp
    ultimately show ?thesis
      using Cons.IH [of c1 r1 t1] Cons.prems(1) Inr st ingest_one_ok [OF one Cons.prems(2)] by simp
  qed (use Cons.prems in simp)
qed simp

section \<open>Every operation on findings\<close>

inductive finding_step :: "ti \<Rightarrow> ti \<Rightarrow> bool" where
  step_ingest: "ingest_raw_findings s t tenant asset raws rep = (e, (created, rep', t')) \<Longrightarrow> finding_step t t'"
| step_status: "f \<in> set (ti_findings t) \<Longrightarrow> set_finding_status s t f status user = (g, t') \<Longrightarrow> finding_step t t'"
| step_purge: "purge_expired_secrets s t = (run, t') \<Longrightarrow> finding_step t t'"
| step_purge_tenant: "purge_tenant_secrets s t tenant = (n, t') \<Longrightarrow> finding_step t t'"
| step_rotate: "rotate_breach_secret_key s t = Inr (counts, t') \<Longrightarrow> finding_step t t'"
| step_reveal: "reveal_secret cr s au t member viewer throttled i password code ip agent = Inr (answer, t') \<Longrightarrow>
    finding_step t t'"

text \<open>Operations that keep the identity of every row keep the invariant and what is known.\<close>

definition tag :: "finding \<Rightarrow> int \<times> (int \<times> string) \<times> string \<times> time" where
  "tag f = (bf_id f, finding_key f, bf_secret_fingerprint f, bf_detected_at f)"

definition same_rows :: "ti \<Rightarrow> ti \<Rightarrow> bool" where
  "same_rows t t' = (ti_seq t' = ti_seq t \<and> map tag (ti_findings t') = map tag (ti_findings t))"

lemma same_rows_refl [simp]: "same_rows t t"
  by (simp add: same_rows_def)

lemma same_rows_tags: "same_rows t t' \<Longrightarrow> tag ` set (ti_findings t') = tag ` set (ti_findings t)"
  unfolding same_rows_def by (metis list.set_map)

lemma same_rows_ok:
  assumes "same_rows t t'" shows "findings_ok t' = findings_ok t"
proof -
  have m: "map h (ti_findings t') = map h (ti_findings t)" if "\<And>f. h f = g (tag f)" for h :: "finding \<Rightarrow> 'a" and g
  proof -
    have e: "map h fs = map g (map tag fs)" for fs by (simp add: that)
    show ?thesis using assms unfolding e [of "ti_findings t'"] e [of "ti_findings t"] by (simp only: same_rows_def)
  qed
  have i: "map bf_id (ti_findings t') = map bf_id (ti_findings t)" by (rule m [of _ fst]) (simp add: tag_def)
  have k: "map finding_key (ti_findings t') = map finding_key (ti_findings t)"
    by (rule m [of _ "fst \<circ> snd"]) (simp add: tag_def)
  have "bf_id ` set (ti_findings t') = bf_id ` set (ti_findings t)" using i by (metis list.set_map)
  then have "(\<forall>x \<in> bf_id ` set (ti_findings t'). x \<le> ti_seq t) = (\<forall>x \<in> bf_id ` set (ti_findings t). x \<le> ti_seq t)"
    by (simp only:)
  then show ?thesis using assms i k by (simp add: findings_ok_def same_rows_def)
qed

lemma same_rows_known:
  assumes "same_rows t t'" and "known_key k t" shows "known_key k t'"
proof -
  obtain f where "f \<in> set (ti_findings t)" "finding_key f = k" "\<not> legacy f" using assms(2) by (auto simp: known_key_def)
  moreover obtain g where "g \<in> set (ti_findings t')" "tag g = tag f"
    using same_rows_tags [OF assms(1)] calculation(1) by (metis (no_types, lifting) imageE imageI)
  ultimately show ?thesis by (auto simp: known_key_def tag_def legacy_def)
qed

lemma map_tag_upd: "(\<And>f. tag (h f) = tag f) \<Longrightarrow> map tag (upd_where p h fs) = map tag fs"
  by (rule map_upd_where)

lemma rotate_tags: "map tag (snd (fold (rotate_one s) xs acc)) = map tag (snd acc)"
proof (induction xs arbitrary: acc)
  case (Cons x xs)
  have "map tag (snd (rotate_one s x acc)) = map tag (snd acc)"
    by (cases acc) (auto simp: rotate_one_def map_tag_upd tag_def finding_key_def split: sum.split prod.split)
  with Cons show ?case by simp
qed simp

text \<open>The answers that leave no line in the journal.\<close>

definition silent_answers :: "reveal_response set" where
  "silent_answers = {Not_authenticated, Not_a_company_member, Throttled, Bad_request}"

lemma reveal_post_shape:
  assumes "reveal_post cr s au t m u i password code ip agent = Inr (answer, t')"
  shows "if answer \<in> silent_answers then t' = t \<and> answer = Bad_request \<and> strip password = [] \<and> strip code = []
    else \<exists>f why. t' = record_reveal_attempt s t (me_tenant m) f (us_id u) (\<exists>x. answer = Revealed i x) why ip agent"
  using assms
  by (auto simp: reveal_post_def silent_answers_def Let_def rbind_Inr_iff split: if_splits option.splits sum.splits) blast+

lemma reveal_shape:
  assumes "reveal_secret cr s au t member viewer throttled i password code ip agent = Inr (answer, t')"
  shows "if answer \<in> silent_answers then t' = t
    else \<exists>m u f why. member = Some m \<and> viewer = Some u \<and>
      t' = record_reveal_attempt s t (me_tenant m) f (us_id u) (\<exists>x. answer = Revealed i x) why ip agent"
proof (cases "viewer = None \<or> member = None \<or> throttled")
  case True
  with assms show ?thesis
    by (auto simp: reveal_secret_def silent_answers_def split: option.splits if_splits)
next
  case False
  then obtain u m where um: "viewer = Some u" "member = Some m" "\<not> throttled" by auto
  with assms have "reveal_post cr s au t m u i password code ip agent = Inr (answer, t')"
    by (simp add: reveal_secret_def)
  from reveal_post_shape [OF this] um show ?thesis by (simp split: if_splits)
qed

lemma finding_step_rows:
  assumes "finding_step t t'"
  shows "same_rows t t' \<or> (\<exists>s tenant asset raws rep e c r. ingest_raw_findings s t tenant asset raws rep = (e, (c, r, t')))"
  using assms
proof cases
  case (step_status f s status user g)
  then have "map tag (ti_findings t') = map tag (ti_findings t)"
    by (auto simp: set_finding_status_def Let_def intro!: map_tag_upd) (simp_all add: tag_def finding_key_def)
  moreover from step_status have "ti_seq t' = ti_seq t" by (auto simp: set_finding_status_def Let_def)
  ultimately show ?thesis by (simp add: same_rows_def)
next
  case (step_purge s run)
  then show ?thesis
    by (auto simp: same_rows_def purge_expired_secrets_def Let_def intro!: disjI1 map_tag_upd)
      (simp add: tag_def finding_key_def purge_secret_def)
next
  case (step_purge_tenant s tenant n)
  then show ?thesis
    by (auto simp: same_rows_def purge_tenant_secrets_def Let_def intro!: disjI1 map_tag_upd)
      (simp add: tag_def finding_key_def purge_secret_def)
next
  case (step_rotate s counts)
  then obtain fs where "fold (rotate_one s) (filter (\<lambda>f. bf_has_secret f \<and> bf_secret_encrypted f \<noteq> []) (ti_findings t))
      ((0, 0), ti_findings t) = (counts, fs)" and t': "t' = t\<lparr>ti_findings := fs\<rparr>"
    by (auto simp: rotate_breach_secret_key_def split: if_splits prod.splits)
  from arg_cong [OF this(1), of "\<lambda>x. map tag (snd x)"] have "map tag fs = map tag (ti_findings t)"
    by (simp add: rotate_tags)
  with t' show ?thesis by (simp add: same_rows_def)
next
  case (step_reveal cr s au m u i password code ip agent answer)
  then show ?thesis by (auto dest!: reveal_shape simp: same_rows_def record_reveal_attempt_def split: if_splits)
qed blast

lemma grown_tags:
  assumes "grown t t'" and "f \<in> set (ti_findings t)"
  shows "\<exists>g \<in> set (ti_findings t'). bf_id g = bf_id f \<and> bf_tenant g = bf_tenant f \<and> bf_detected_at g = bf_detected_at f"
  using assms seen_again_same(1,2,7) unfolding grown_def by blast

lemma finding_steps_ok:
  assumes "finding_step\<^sup>*\<^sup>* t t'" and "findings_ok t"
  shows "findings_ok t' \<and>
    (\<forall>f \<in> set (ti_findings t). \<exists>g \<in> set (ti_findings t').
       bf_id g = bf_id f \<and> bf_tenant g = bf_tenant f \<and> bf_detected_at g = bf_detected_at f)"
  using assms(1)
proof (induction rule: rtranclp_induct)
  case base
  with assms(2) show ?case by blast
next
  case (step u v)
  then have u: "findings_ok u" by blast
  have "findings_ok v \<and> (\<forall>f \<in> set (ti_findings u). \<exists>g \<in> set (ti_findings v).
       bf_id g = bf_id f \<and> bf_tenant g = bf_tenant f \<and> bf_detected_at g = bf_detected_at f)"
    using finding_step_rows [OF step.hyps(2)]
  proof
    assume r: "same_rows u v"
    have "\<exists>g \<in> set (ti_findings v). tag g = tag f" if "f \<in> set (ti_findings u)" for f
      using same_rows_tags [OF r] that by (metis (no_types, lifting) imageE imageI)
    with u same_rows_ok [OF r] show ?thesis by (fastforce simp: tag_def finding_key_def)
  next
    assume "\<exists>s tenant asset raws rep e c r. ingest_raw_findings s u tenant asset raws rep = (e, (c, r, v))"
    then have "findings_ok v \<and> grown u v" using ingest_ok u by blast
    with grown_tags show ?thesis by blast
  qed
  with step.IH show ?case by fastforce
qed

lemma ingest_known:
  assumes "ingest_raw_findings s t tenant asset raws rep = (e, (c, r, t'))" and "findings_ok t" and "known_key k t"
  shows "known_key k t'"
proof -
  obtain e1 c1 r1 t1 where l: "ingest_loop s tenant asset raws ([], rep, t) = (e1, (c1, r1, t1))"
    by (metis prod_cases4)
  from ingest_loop_known [OF l assms(2,3)] have "known_key k t1" .
  moreover have "ti_findings t' = ti_findings t1"
    using assms(1) l by (auto simp: ingest_raw_findings_def split: option.splits if_splits)
  ultimately show ?thesis by (simp add: known_key_def)
qed

lemma finding_steps_known:
  assumes "finding_step\<^sup>*\<^sup>* t t'" and "findings_ok t" and "known_key k t"
  shows "known_key k t'"
  using assms(1)
proof (induction rule: rtranclp_induct)
  case (step u v)
  have "findings_ok u" using finding_steps_ok [OF step.hyps(1) assms(2)] ..
  with finding_step_rows [OF step.hyps(2)] step.IH same_rows_known ingest_known show ?case by blast
qed (rule assms(3))

section \<open>Rotation\<close>

definition rotated_row :: "surroundings \<Rightarrow> finding \<Rightarrow> finding" where
  "rotated_row s f = (case rotate_secret_ciphertext s (bf_secret_encrypted f) of
     Inl _ \<Rightarrow> f | Inr c \<Rightarrow> f\<lparr>bf_secret_encrypted := c\<rparr>)"

lemma rotate_fold:
  assumes "distinct (map bf_id xs)" and "set xs \<subseteq> set fs" and "distinct (map bf_id fs)"
  shows "\<exists>a b. fold (rotate_one s) xs ((n, k), fs) = ((n + a, k + b), map (\<lambda>f. if f \<in> set xs then rotated_row s f else f) fs) \<and>
    a + b = length xs"
  using assms
proof (induction xs rule: rev_induct)
  case (snoc x xs)
  then obtain a b where IH: "fold (rotate_one s) xs ((n, k), fs) =
      ((n + a, k + b), map (\<lambda>f. if f \<in> set xs then rotated_row s f else f) fs)" "a + b = length xs"
    by auto
  have one: "f = x" if "f \<in> set fs" "bf_id f = bf_id x" for f
    using snoc.prems that distinct_map_eq [of bf_id fs] by auto
  have out: "x \<notin> set xs" using snoc.prems(1) by auto
  have id: "bf_id (rotated_row s f) = bf_id f" for f by (simp add: rotated_row_def split: sum.split)
  show ?case
  proof (cases "rotate_secret_ciphertext s (bf_secret_encrypted x)")
    case (Inl e)
    then have "rotated_row s x = x" by (simp add: rotated_row_def)
    then have "map (\<lambda>f. if f \<in> set (xs @ [x]) then rotated_row s f else f) fs =
        map (\<lambda>f. if f \<in> set xs then rotated_row s f else f) fs" by auto
    with IH Inl show ?thesis by (intro exI [of _ a] exI [of _ "Suc b"]) (simp add: rotate_one_def [of s x])
  next
    case (Inr c)
    have "upd_where (\<lambda>r. bf_id r = bf_id x) (\<lambda>r. r\<lparr>bf_secret_encrypted := c\<rparr>)
        (map (\<lambda>f. if f \<in> set xs then rotated_row s f else f) fs) =
        map (\<lambda>f. if f \<in> set (xs @ [x]) then rotated_row s f else f) fs"
      using one out Inr by (auto simp: upd_where_def id rotated_row_def [of s x])
    with IH Inr show ?thesis by (intro exI [of _ "Suc a"] exI [of _ b]) (simp add: rotate_one_def [of s x])
  qed
qed simp

section \<open>An instance to try\<close>

definition sample_env :: env where
  "sample_env = \<lparr>e_now = days 100, e_settings = \<lparr>st_rows = [], st_cache = None\<rparr>,
     e_environ = (\<lambda>_. Some (IntV 3)), e_trial_days = 14, e_trial_plan_code = [],
     e_alert_email = [], e_mail_ok = (\<lambda>_ _. True)\<rparr>"

text \<open>A toy cipher: the blob begins with the first letter of the key that made it.\<close>

definition sample :: surroundings where
  "sample = \<lparr>sd_env = sample_env, sd_texts = demo_texts, sd_keys = [''new'', ''old''], sd_single_key = [],
     sd_valid_keys = (\<lambda>_. True), sd_encrypt = (\<lambda>ks p. hd (hd ks) # p),
     sd_decrypt = (\<lambda>ks c. case c of [] \<Rightarrow> None | x # p \<Rightarrow> if x \<in> hd ` set ks then Some p else None),
     sd_rotate = (\<lambda>ks c. case c of [] \<Rightarrow> None | x # p \<Rightarrow> if x \<in> hd ` set ks then Some (hd (hd ks) # p) else None),
     sd_cooldown_fallback = 0, sd_pool_size = 15, sd_callback_url = ''u'', sd_safety_margin = 50,
     sd_retention_days = 90, sd_audit_retention_days = 365, sd_synthesis_cooldown = 10\<rparr>"

definition sample_mon :: mon where
  "sample_mon = \<lparr>mn_seq = 0, mn_assets = [], mn_attestations = [], mn_proofs = [], mn_checks = [], mn_alerts = [],
     mn_heartbeat = None, mn_mails = []\<rparr>"

definition sample_ti :: ti where
  "sample_ti = \<lparr>ti_seq = 0, ti_db = empty_db, ti_mon = sample_mon, ti_inbox = \<lparr>bx_seq = 0, bx_rows = []\<rparr>, ti_findings = [], ti_jobs = [], ti_reveals = [],
     ti_accesses = [], ti_purges = [], ti_syntheses = [], ti_watched_findings = [], ti_remaining = Map.empty,
     ti_cooldown = Map.empty\<rparr>"

definition sample_raw :: raw_finding where
  "sample_raw = \<lparr>rw_endpoint = ''radar'', rw_payload = [(''data'', JStr ''a-fr.com'')], rw_is_test = False, rw_asset_ref = []\<rparr>"

lemma sample_plain: "nf_secret_plain (normalize_finding demo_texts ''radar'' [(''data'', JStr ''a-fr.com'')]) = []"
proof -
  have "shown [(''data'', JStr ''a-fr.com'')] = []" by code_simp
  then show ?thesis by (simp add: normalized_fields)
qed

lemma sample_ok: "findings_ok sample_ti"
  by (simp add: findings_ok_def sample_ti_def)

lemma sample_ingest:
  "\<exists>f t. ingest_raw_findings sample sample_ti 7 1 [sample_raw] empty_report = (None, ([f], note_created f empty_report, t)) \<and>
     ti_findings t = [f] \<and> bf_id f = 1 \<and> bf_status f = Open"
proof -
  let ?n = "normalize_finding demo_texts ''radar'' [(''data'', JStr ''a-fr.com'')]"
  obtain f t where c: "create_finding sample 7 1 ?n [] sample_ti = (f, t)" by fastforce
  have one: "ingest_one sample 7 1 sample_raw ([], empty_report, sample_ti) = Inr ([f], note_created f empty_report, t)"
    using c by (simp add: ingest_one_def sample_raw_def sample_def sample_plain encrypt_breach_secret_def
        find_existing_finding_def reconcile_legacy_finding_def sample_ti_def Let_def)
  from create_finding_shape [OF c sample_ok] have "ti_findings t = [f]" "bf_id f = 1" "bf_status f = Open"
    by (auto simp: sample_ti_def new_finding_def)
  with one show ?thesis
    by (intro exI [of _ f] exI [of _ "mark_synthesis_stale 7 t"]) (simp add: ingest_raw_findings_def)
qed

section \<open>Properties\<close>

text \<open>
  C18: A company has one row per observation and secret, and rows are never lost: whatever sequence of
  ingestions, treatments, purges, rotations and reveals, two findings of a company with the same key
  are the same row, and every finding is still there, detected when it was.
\<close>

theorem findings_stay_unique:
  assumes "finding_step\<^sup>*\<^sup>* t t'" and "findings_ok t"
  shows "(\<forall>f \<in> set (ti_findings t'). \<forall>g \<in> set (ti_findings t').
       bf_tenant f = bf_tenant g \<and> bf_dedup_hash f = bf_dedup_hash g \<longrightarrow> f = g) \<and>
    (\<forall>f \<in> set (ti_findings t). \<exists>g \<in> set (ti_findings t').
       bf_id g = bf_id f \<and> bf_tenant g = bf_tenant f \<and> bf_detected_at g = bf_detected_at f)"
  using finding_steps_ok [OF assms] distinct_map_eq [of finding_key "ti_findings t'"]
  by (simp add: findings_ok_def finding_key_def)

theorem findings_stay_unique_witness:
  "\<exists>t. finding_step\<^sup>*\<^sup>* sample_ti t \<and> card ((\<lambda>f. (bf_tenant f, bf_dedup_hash f)) ` set (ti_findings t)) = card (set (ti_findings t)) \<and>
     ti_findings t \<noteq> []"
proof -
  obtain f t where i: "ingest_raw_findings sample sample_ti 7 1 [sample_raw] empty_report =
      (None, ([f], note_created f empty_report, t))" and ne: "ti_findings t = [f]"
    using sample_ingest by blast
  have run: "finding_step\<^sup>*\<^sup>* sample_ti t" using step_ingest [OF i] by (rule r_into_rtranclp)
  from findings_stay_unique [OF run sample_ok]
  have "inj_on (\<lambda>f. (bf_tenant f, bf_dedup_hash f)) (set (ti_findings t))" by (simp add: inj_on_def)
  from card_image [OF this] run ne show ?thesis by (intro exI [of _ t]) simp
qed

text \<open>
  C19: The provider never takes a finding back from the company: an ingestion, complete or broken off
  by an error, leaves the status, the treatment, the date of detection, the severity, the alert and
  the secret of every finding as they were, and what it adds is open.
\<close>

theorem ingestion_never_reopens:
  assumes "ingest_raw_findings s t tenant asset raws report = (e, (created, report', t'))" and "findings_ok t"
  shows "(\<forall>f \<in> set (ti_findings t). \<exists>g \<in> set (ti_findings t'). bf_id g = bf_id f \<and> bf_status g = bf_status f \<and>
      bf_treated_by g = bf_treated_by f \<and> bf_treated_at g = bf_treated_at f \<and>
      bf_detected_at g = bf_detected_at f \<and> bf_severity g = bf_severity f \<and> bf_alert g = bf_alert f \<and>
      bf_secret_encrypted g = bf_secret_encrypted f) \<and>
    (\<forall>g \<in> set (ti_findings t'). bf_id g \<in> bf_id ` set (ti_findings t) \<or> bf_status g = Open)"
proof -
  have g: "grown t t'" using ingest_ok [OF assms] ..
  have "\<exists>g \<in> set (ti_findings t'). bf_id g = bf_id f \<and> bf_status g = bf_status f \<and>
      bf_treated_by g = bf_treated_by f \<and> bf_treated_at g = bf_treated_at f \<and>
      bf_detected_at g = bf_detected_at f \<and> bf_severity g = bf_severity f \<and> bf_alert g = bf_alert f \<and>
      bf_secret_encrypted g = bf_secret_encrypted f" if "f \<in> set (ti_findings t)" for f
    using g that seen_again_same unfolding grown_def by meson
  moreover have "bf_id h \<in> bf_id ` set (ti_findings t) \<or> bf_status h = Open" if "h \<in> set (ti_findings t')" for h
    using g that seen_again_same(1) unfolding grown_def by (metis imageI)
  ultimately show ?thesis by blast
qed

theorem ingestion_never_reopens_witness:
  "\<exists>f t g. ingest_raw_findings sample sample_ti 7 1 [sample_raw] empty_report = (None, ([f], note_created f empty_report, t)) \<and>
     ti_findings t = [g] \<and> bf_status g = Open"
proof -
  obtain f t where i: "ingest_raw_findings sample sample_ti 7 1 [sample_raw] empty_report =
      (None, ([f], note_created f empty_report, t))" and t: "ti_findings t = [f]"
    using sample_ingest by blast
  from ingestion_never_reopens [OF i sample_ok] t have "bf_status f = Open" by (simp add: sample_ti_def)
  with i t show ?thesis by blast
qed

text \<open>
  Records already ingested create nothing: once a delivery went through, the same records of the
  same company, after whatever treatments, purges, rotations and other ingestions, add no row, raise
  no alert and leave the cached reading as it is. A finding treated in between does not come back.
\<close>

theorem ingesting_again_creates_nothing:
  assumes "findings_ok t" and "modern s" and "legacy_apart s tenant raws t"
    and "ingest_raw_findings s t tenant asset raws report = (None, (created, report1, t1))"
    and "finding_step\<^sup>*\<^sup>* t1 t2" and "sd_texts s2 = sd_texts s"
    and "ingest_raw_findings s2 t2 tenant asset2 raws report2 = (e, (created2, report3, t3))"
  shows "created2 = [] \<and> length (ti_findings t3) = length (ti_findings t2) \<and> ti_mon t3 = ti_mon t2 \<and>
    ti_syntheses t3 = ti_syntheses t2"
proof -
  obtain e0 c r u where l0: "ingest_loop s tenant asset raws ([], report, t) = (e0, (c, r, u))"
    by (metis prod_cases4)
  with assms(4) have l: "ingest_loop s tenant asset raws ([], report, t) = (None, (c, r, u))"
    and u: "ti_findings t1 = ti_findings u"
    by (auto simp: ingest_raw_findings_def split: option.splits if_splits)
  have ok1: "findings_ok t1" using ingest_ok [OF assms(4,1)] ..
  have ok2: "findings_ok t2" using finding_steps_ok [OF assms(5) ok1] ..
  have "known_key (tenant, record_key s2 raw) t2" if "raw \<in> set raws" "\<not> rw_is_test raw" for raw
  proof -
    from ingest_loop_learns [OF l assms(1,2,3) that] have "known_key (tenant, record_key s raw) t1"
      by (simp add: known_key_def u)
    from finding_steps_known [OF assms(5) ok1 this] show ?thesis by (simp add: record_key_def assms(6))
  qed
  then have all: "\<forall>raw \<in> set raws. \<not> rw_is_test raw \<longrightarrow> known_key (tenant, record_key s2 raw) t2" by blast
  obtain e4 c4 r4 t4 where l2: "ingest_loop s2 tenant asset2 raws ([], report2, t2) = (e4, (c4, r4, t4))"
    by (metis prod_cases4)
  from ingest_loop_nothing [OF l2 ok2 all] assms(7) l2 show ?thesis
    by (auto simp: ingest_raw_findings_def split: option.splits)
qed

theorem ingesting_again_creates_nothing_example:
  "\<exists>f t1 g t2 r3 t3. ingest_raw_findings sample sample_ti 7 1 [sample_raw] empty_report = (None, ([f], note_created f empty_report, t1)) \<and>
     set_finding_status sample t1 f Treated (Some 1) = (g, t2) \<and>
     ingest_raw_findings sample t2 7 1 [sample_raw] empty_report = (None, ([], r3, t3)) \<and> length (ti_findings t3) = 1"
proof -
  obtain f t1 where i: "ingest_raw_findings sample sample_ti 7 1 [sample_raw] empty_report =
      (None, ([f], note_created f empty_report, t1))" and t1: "ti_findings t1 = [f]"
    using sample_ingest by blast
  obtain g t2 where st: "set_finding_status sample t1 f Treated (Some 1) = (g, t2)" by fastforce
  have run: "finding_step\<^sup>*\<^sup>* t1 t2" using step_status [OF _ st] t1 by auto
  have m: "modern sample" by (simp add: modern_def sample_def demo_texts_def LEGACY_FINGERPRINT_PREFIX_def)
  have a: "legacy_apart sample 7 [sample_raw] sample_ti" by (simp add: legacy_apart_def sample_ti_def)
  obtain e c2 r3 t3 where again: "ingest_raw_findings sample t2 7 1 [sample_raw] empty_report = (e, (c2, r3, t3))"
    by (metis prod_cases4)
  note n = ingesting_again_creates_nothing [OF sample_ok m a i run refl again]
  have "length (ti_findings t2) = 1" using st t1 by (auto simp: set_finding_status_def Let_def)
  moreover have "e = None"
    using again by (auto simp: ingest_raw_findings_def ingest_one_def sample_raw_def sample_def sample_plain
        encrypt_breach_secret_def Let_def split: option.splits prod.splits)
  ultimately show ?thesis using i st again n by auto
qed

end
