(* ===== verification/SecretsSafety.thy ===== *)
theory SecretsSafety
  imports FindingsSafety
begin

text \<open>
  The secrets of the findings: who may have one revealed, what the purge erases, and what a rotation
  of the key leaves readable.
\<close>

section \<open>Properties\<close>


text \<open>
  A purge erases the secrets older than the retention, of every company, and only them: every
  finding keeps its status, its key and everything else, lines of the journal go only past their own
  retention, the run counts both, and a second purge at the same moment finds nothing.
\<close>

theorem purge_exact:
  assumes "purge_expired_secrets s t = (run, t')"
  shows "ti_findings t' = map (\<lambda>f. if bf_has_secret f \<and> bf_detected_at f < sd_now s - days (sd_retention_days s)
        then f\<lparr>bf_secret_encrypted := [], bf_has_secret := False, bf_secret_purged_at := Some (sd_now s)\<rparr>
        else f) (ti_findings t) \<and>
    set (ti_reveals t') = {a \<in> set (ti_reveals t). sd_now s - days (sd_audit_retention_days s) \<le> ra_created_at a} \<and>
    pu_secrets_purged run + length (filter bf_has_secret (ti_findings t')) = length (filter bf_has_secret (ti_findings t)) \<and>
    pu_reveal_audits_deleted run + length (ti_reveals t') = length (ti_reveals t) \<and>
    ti_purges t' = run # ti_purges t \<and>
    (\<exists>again. purge_expired_secrets s t' = (again, t'\<lparr>ti_purges := again # ti_purges t'\<rparr>) \<and>
       pu_secrets_purged again = 0 \<and> pu_reveal_audits_deleted again = 0)"
proof -
  let ?due = "\<lambda>f. bf_has_secret f \<and> bf_detected_at f < sd_now s - days (sd_retention_days s)"
  let ?old = "\<lambda>a. ra_created_at a < sd_now s - days (sd_audit_retention_days s)"
  have t': "t' = t\<lparr>ti_findings := upd_where ?due (purge_secret (sd_now s)) (ti_findings t),
      ti_reveals := filter (\<lambda>a. \<not> ?old a) (ti_reveals t), ti_purges := run # ti_purges t\<rparr>"
    and run: "pu_secrets_purged run = length (filter ?due (ti_findings t))"
      "pu_reveal_audits_deleted run = length (filter ?old (ti_reveals t))"
    using assms by (auto simp: purge_expired_secrets_def Let_def)
  have rows: "ti_findings t' = map (\<lambda>f. if ?due f then purge_secret (sd_now s) f else f) (ti_findings t)"
    by (simp add: t' upd_where_def)
  have none: "filter ?due (ti_findings t') = []" and kept: "filter ?old (ti_reveals t') = []"
    by (auto simp: rows) (auto simp: t' purge_secret_def filter_empty_conv)
  have split: "length (filter ?due fs) + length (filter bf_has_secret (map (\<lambda>f. if ?due f then purge_secret (sd_now s) f else f) fs)) =
      length (filter bf_has_secret fs)" for fs
    by (induction fs) (auto simp: purge_secret_def)
  have lines: "length (filter ?old as) + length (filter (\<lambda>a. \<not> ?old a) as) = length as" for as
    by (rule sum_length_filter_compl)
  have same: "upd_where ?due h (ti_findings t') = ti_findings t'" for h
    using none by (intro upd_where_none) (auto simp: filter_empty_conv)
  have stay: "filter (\<lambda>a. \<not> ?old a) (ti_reveals t') = ti_reveals t'"
    using kept by (auto simp: filter_empty_conv intro!: filter_True)
  show ?thesis
  proof (intro conjI)
    show "ti_findings t' = map (\<lambda>f. if ?due f
        then f\<lparr>bf_secret_encrypted := [], bf_has_secret := False, bf_secret_purged_at := Some (sd_now s)\<rparr>
        else f) (ti_findings t)"
      by (simp only: rows purge_secret_def)
    show "set (ti_reveals t') = {a \<in> set (ti_reveals t). sd_now s - days (sd_audit_retention_days s) \<le> ra_created_at a}"
      by (auto simp: t')
    show "pu_secrets_purged run + length (filter bf_has_secret (ti_findings t')) = length (filter bf_has_secret (ti_findings t))"
      unfolding run rows by (rule split)
    show "pu_reveal_audits_deleted run + length (ti_reveals t') = length (ti_reveals t)"
      using lines [of "ti_reveals t"] by (simp add: run t')
    show "ti_purges t' = run # ti_purges t" by (simp add: t')
    show "\<exists>again. purge_expired_secrets s t' = (again, t'\<lparr>ti_purges := again # ti_purges t'\<rparr>) \<and>
       pu_secrets_purged again = 0 \<and> pu_reveal_audits_deleted again = 0"
      by (simp add: purge_expired_secrets_def Let_def none kept same stay)
  qed
qed

definition sample_secret :: "ti" where
  "sample_secret = sample_ti\<lparr>ti_seq := 2,
     ti_db := empty_db\<lparr>d_plans := [blank_plan\<lparr>pl_id := 1, pl_features := [SECRET_REVEAL]\<rparr>],
       d_subs := [\<lparr>su_id = 1, su_tenant = 7, su_plan = 1, su_status = Active, su_period = Monthly, su_started_at = 0,
         su_trial_ends_at = None, su_renews_at = None, su_ends_at = None, su_override_monitored_assets = None,
         su_override_monthly_scans = None, su_override_max_users = None, su_override_watched_accounts = None,
         su_override_monthly_watched_account_scans = None, su_override_features = None, su_billing_provider = [],
         su_external_customer_ref = [], su_external_subscription_ref = [], su_internal_notes = []\<rparr>]\<rparr>,
     ti_findings := [(demo_finding 2 Grave_high ''opw'')\<lparr>bf_detected_at := days 99\<rparr>,
       (demo_finding 1 Grave_high ''oxy'')\<lparr>bf_detected_at := 0\<rparr>]\<rparr>"

lemmas sample_secret_defs = sample_secret_def sample_ti_def sample_def sample_env_def demo_finding_def empty_db_def


theorem purge_exact_example:
  "\<exists>run t'. purge_expired_secrets sample sample_secret = (run, t') \<and>
     map (\<lambda>f. (bf_id f, bf_has_secret f, bf_status f)) (ti_findings t') = [(2, True, Open), (1, False, Open)]"
proof -
  obtain run t' where p: "purge_expired_secrets sample sample_secret = (run, t')" by fastforce
  from purge_exact [OF p] p show ?thesis
    by (intro exI [of _ run] exI [of _ t']) (simp add: sample_secret_defs days_def day_length_def)
qed

text \<open>What a rotation may do to a row: the first key alone reads what the keys read before.\<close>

definition kept_by_rotation :: "surroundings \<Rightarrow> finding \<Rightarrow> finding \<Rightarrow> bool" where
  "kept_by_rotation s f g =
     (let before = sd_decrypt s (encryption_keys s) (bf_secret_encrypted f)
      in if bf_has_secret f \<and> bf_secret_encrypted f \<noteq> [] \<and> before \<noteq> None
         then g = f\<lparr>bf_secret_encrypted := bf_secret_encrypted g\<rparr> \<and>
              sd_decrypt s [hd (encryption_keys s)] (bf_secret_encrypted g) = before
         else g = f)"

text \<open>
  Rotating the key loses no secret: once every secret the configured keys can read is under the
  first of them, that key alone reads each as the whole set of keys read it before; what no key can
  read is left as it is, and nothing but the blobs changes. The counts add up to the secrets held.
\<close>

theorem rotation_keeps_secrets:
  assumes "rotate_breach_secret_key s t = Inr ((rotated, missed), t')" and "findings_ok t"
    and "\<And>ks c. map_option (sd_decrypt s [hd ks]) (sd_rotate s ks c) = map_option Some (sd_decrypt s ks c)"
    and "sd_valid_keys s (encryption_keys s)"
  shows "list_all2 (kept_by_rotation s) (ti_findings t) (ti_findings t') \<and>
    t' = t\<lparr>ti_findings := ti_findings t'\<rparr> \<and>
    rotated + missed = length (filter (\<lambda>f. bf_has_secret f \<and> bf_secret_encrypted f \<noteq> []) (ti_findings t))"
proof -
  let ?held = "\<lambda>f. bf_has_secret f \<and> bf_secret_encrypted f \<noteq> []"
  let ?xs = "filter ?held (ti_findings t)"
  have ids: "distinct (map bf_id (ti_findings t))" using assms(2) by (simp add: findings_ok_def)
  obtain a b where fold: "fold (rotate_one s) ?xs ((0, 0), ti_findings t) =
      ((0 + a, 0 + b), map (\<lambda>f. if f \<in> set ?xs then rotated_row s f else f) (ti_findings t))" and n: "a + b = length ?xs"
    using rotate_fold [of ?xs "ti_findings t" s 0 0] ids by (auto simp: distinct_map_filter)
  have keys: "encryption_keys s \<noteq> []" and t': "t' = t\<lparr>ti_findings := map (\<lambda>f. if f \<in> set ?xs then rotated_row s f else f) (ti_findings t)\<rparr>"
    and counts: "rotated = a" "missed = b"
    using assms(1) fold by (auto simp: rotate_breach_secret_key_def split: if_splits)
  have one: "case sd_decrypt s (encryption_keys s) (bf_secret_encrypted f) of
      None \<Rightarrow> rotated_row s f = f
    | Some p \<Rightarrow> (\<exists>c. rotated_row s f = f\<lparr>bf_secret_encrypted := c\<rparr> \<and> sd_decrypt s [hd (encryption_keys s)] c = Some p)" for f
    using assms(3) [of "encryption_keys s" "bf_secret_encrypted f"] keys assms(4)
    by (auto simp: rotated_row_def rotate_secret_ciphertext_def fernet_def Let_def split: option.splits)
  let ?h = "\<lambda>f. if f \<in> set ?xs then rotated_row s f else f"
  have "kept_by_rotation s f (?h f)" if "f \<in> set (ti_findings t)" for f
    using that one [of f] by (auto simp: kept_by_rotation_def Let_def split: option.splits)
  then have "list_all2 (kept_by_rotation s) (ti_findings t) (map ?h (ti_findings t))"
    by (simp only: list.rel_map list_all2_same) blast
  then show ?thesis using t' n counts by (simp only:) simp
qed

theorem rotation_keeps_secrets_example:
  "\<exists>counts t'. rotate_breach_secret_key sample sample_secret = Inr (counts, t') \<and>
     map (\<lambda>f. sd_decrypt sample [''new''] (bf_secret_encrypted f)) (ti_findings t') = [Some ''pw'', Some ''xy'']"
proof -
  obtain r k t' where run: "rotate_breach_secret_key sample sample_secret = Inr ((r, k), t')"
    by (cases "rotate_breach_secret_key sample sample_secret")
      (auto simp: rotate_breach_secret_key_def encryption_keys_def sample_def split: prod.splits)
  have keys: "encryption_keys sample = [''new'', ''old'']" by (simp add: encryption_keys_def sample_def)
  have "show_int 2 \<noteq> show_int 1" by code_simp
  then have ok: "findings_ok sample_secret" by (simp add: findings_ok_def sample_secret_defs finding_key_def)
  have cipher: "map_option (sd_decrypt sample [hd ks]) (sd_rotate sample ks c) = map_option Some (sd_decrypt sample ks c)" for ks c
    by (cases c; cases ks) (auto simp: sample_def)
  have "sd_valid_keys sample (encryption_keys sample)" by (simp add: sample_def)
  from rotation_keeps_secrets [OF run ok cipher this]
  have rows: "list_all2 (kept_by_rotation sample) (ti_findings sample_secret) (ti_findings t')" ..
  obtain f1 f2 where fs: "ti_findings sample_secret = [f1, f2]" and f: "bf_has_secret f1" "bf_has_secret f2"
      "bf_secret_encrypted f1 = ''opw''" "bf_secret_encrypted f2 = ''oxy''"
    by (simp add: sample_secret_def demo_finding_def)
  from rows [unfolded fs] obtain g1 g2 where g: "ti_findings t' = [g1, g2]" and "kept_by_rotation sample f1 g1" "kept_by_rotation sample f2 g2"
    by (auto simp: list_all2_Cons1)
  moreover have "sd_decrypt sample [''new'', ''old''] ''opw'' = Some ''pw''" "sd_decrypt sample [''new'', ''old''] ''oxy'' = Some ''xy''"
    by (simp_all add: sample_def)
  ultimately show ?thesis using run f by (intro exI [of _ "(r, k)"] exI [of _ t']) (simp add: kept_by_rotation_def keys)
qed

end
