(* ===== verification/Throttle.thy ===== *)
theory Throttle
  imports Prelude
begin

text \<open>
  The token bucket in front of the breach-intelligence provider (threat_intelligence/throttle.py): the
  Lua script Redis runs atomically, the key that expires a minute after its last use, and the loop
  that polls it. The instants are seconds, exact rationals where the code has floating-point numbers.
  There are two clocks in a call: the one of Redis, by which the key expires, and the one of the worker,
  which it passes to the script; they need not agree, nor those of two workers.
\<close>

section \<open>The bucket\<close>

definition CAPACITY :: rat where "CAPACITY = 5"
definition REFILL_RATE_PER_SECOND :: rat where "REFILL_RATE_PER_SECOND = 1"
definition DEFAULT_ACQUIRE_TIMEOUT_SECONDS :: rat where "DEFAULT_ACQUIRE_TIMEOUT_SECONDS = 30"
definition POLL_INTERVAL_SECONDS :: rat where "POLL_INTERVAL_SECONDS = 2 / 10"
definition KEY_LIFETIME :: rat where "KEY_LIFETIME = 60"

record bucket =
  bk_tokens :: rat
  bk_timestamp :: rat
  bk_expires :: rat

text \<open>One run of the script at Redis's \<open>clock\<close>, on the stored bucket if its key is still there.\<close>

definition TOKEN_BUCKET_SCRIPT :: "rat \<Rightarrow> rat \<Rightarrow> rat \<Rightarrow> rat \<Rightarrow> bucket option \<Rightarrow> bool \<times> bucket" where
  "TOKEN_BUCKET_SCRIPT capacity refill_rate clock now stored =
     (let (tokens, timestamp) = (case stored of
            None \<Rightarrow> (capacity, now)
          | Some b \<Rightarrow> if clock < bk_expires b then (bk_tokens b, bk_timestamp b) else (capacity, now));
          delta = max 0 (now - timestamp);
          filled = min capacity (tokens + delta * refill_rate);
          left = (if 1 \<le> filled then filled - 1 else filled)
      in (1 \<le> filled, \<lparr>bk_tokens = left, bk_timestamp = now, bk_expires = clock + KEY_LIFETIME\<rparr>))"

definition try_acquire :: "rat \<Rightarrow> rat \<Rightarrow> bucket option \<Rightarrow> bool \<times> bucket option" where
  "try_acquire clock now st =
     (case TOKEN_BUCKET_SCRIPT CAPACITY REFILL_RATE_PER_SECOND clock now st of (allowed, b) \<Rightarrow> (allowed, Some b))"

text \<open>
  The loop of \<open>acquire\<close>, for a worker on Redis's clock: what the other workers do to the bucket while this
  one sleeps is a parameter. The value is the moment a token was granted, or \<open>None\<close> for the timeout.
\<close>

definition polls_left :: "rat \<Rightarrow> rat \<Rightarrow> nat" where
  "polls_left deadline now = nat \<lceil>(deadline - now) * 5 + 1\<rceil>"

lemma polls_left_less: "\<not> deadline \<le> now \<Longrightarrow> polls_left deadline (now + POLL_INTERVAL_SECONDS) < polls_left deadline now"
proof -
  assume "\<not> deadline \<le> now"
  then have "0 < (deadline - now) * 5" by simp
  moreover have "(deadline - (now + POLL_INTERVAL_SECONDS)) * 5 + 1 = (deadline - now) * 5"
    by (simp add: POLL_INTERVAL_SECONDS_def algebra_simps)
  ultimately show ?thesis unfolding polls_left_def by (simp only:) (simp add: zless_nat_eq_int_zless)
qed

function acquire :: "(rat \<Rightarrow> bucket option \<Rightarrow> bucket option) \<Rightarrow> rat \<Rightarrow> rat \<Rightarrow> bucket option \<Rightarrow> rat option \<times> bucket option" where
  "acquire others deadline now st =
     (case try_acquire now now st of (allowed, st') \<Rightarrow>
        if allowed then (Some now, st')
        else if deadline \<le> now then (None, st')
        else acquire others deadline (now + POLL_INTERVAL_SECONDS) (others (now + POLL_INTERVAL_SECONDS) st'))"
  by pat_completeness auto

termination
  by (relation "measure (\<lambda>(others, deadline, now, st). polls_left deadline now)") (simp_all add: polls_left_less)

declare acquire.simps [simp del]

section \<open>What a series of calls is granted\<close>

text \<open>
  The calls of all workers in the order Redis runs them, each with Redis's clock and the worker's own:
  how many are granted, and the bucket they leave.
\<close>

fun granted :: "(rat \<times> rat) list \<Rightarrow> bucket option \<Rightarrow> nat" where
  "granted [] st = 0"
| "granted ((r, w) # cs) st =
     (case try_acquire r w st of (allowed, st') \<Rightarrow> (if allowed then 1 else 0) + granted cs st')"

fun bucket_after :: "(rat \<times> rat) list \<Rightarrow> bucket option \<Rightarrow> bucket option" where
  "bucket_after [] st = st"
| "bucket_after ((r, w) # cs) st = bucket_after cs (snd (try_acquire r w st))"

text \<open>The forward moves of the clocks from one call to the next, of Redis or of the workers, the larger.\<close>

fun moves :: "rat \<times> rat \<Rightarrow> (rat \<times> rat) list \<Rightarrow> rat" where
  "moves c [] = 0"
| "moves (r, w) ((r', w') # cs) = max (r' - r) (max 0 (w' - w)) + moves (r', w') cs"

lemma moves_one_clock:
  "sorted (map fst (c # cs)) \<Longrightarrow> \<forall>x \<in> set (c # cs). snd x = fst x \<Longrightarrow> moves c cs = fst (last (c # cs)) - fst c"
  by (induction c cs rule: moves.induct) (auto simp: max_def split: if_splits)

text \<open>A bucket as the script left it at Redis's clock \<open>r\<close>, with the worker's \<open>w\<close>.\<close>

definition left_at :: "rat \<times> rat \<Rightarrow> bucket \<Rightarrow> bool" where
  "left_at c b = (0 \<le> bk_tokens b \<and> bk_tokens b \<le> 5 \<and> bk_timestamp b = snd c \<and> bk_expires b = fst c + 60)"

text \<open>What the bucket would hold at an instant.\<close>

definition level :: "rat \<Rightarrow> bucket option \<Rightarrow> rat" where
  "level now st = (case st of None \<Rightarrow> 5 | Some b \<Rightarrow> min 5 (bk_tokens b + (now - bk_timestamp b)))"

text \<open>A bucket as the script leaves it.\<close>

definition bucket_ok :: "rat \<Rightarrow> bucket option \<Rightarrow> bool" where
  "bucket_ok now st = (case st of None \<Rightarrow> True
     | Some b \<Rightarrow> 0 \<le> bk_tokens b \<and> bk_tokens b \<le> 5 \<and> bk_timestamp b \<le> now \<and> bk_expires b = bk_timestamp b + 60)"

lemmas bucket_defs = CAPACITY_def REFILL_RATE_PER_SECOND_def KEY_LIFETIME_def level_def bucket_ok_def

lemma try_acquire_level:
  assumes "bucket_ok now st" and "try_acquire now now st = (allowed, st')"
  shows "allowed = (1 \<le> level now st) \<and> bucket_ok now st' \<and>
    level now st' = level now st - (if allowed then 1 else 0)"
  using assms
  by (cases st) (auto simp: try_acquire_def TOKEN_BUCKET_SCRIPT_def Let_def bucket_defs split: if_splits)

lemma level_later: "bucket_ok now st \<Longrightarrow> now \<le> t \<Longrightarrow> bucket_ok t st \<and> level t st \<le> level now st + (t - now) \<and> 0 \<le> level t st"
  by (auto simp: bucket_defs split: option.splits)

text \<open>What the bucket holds when a call looks at it, on any clocks.\<close>

definition filled_at :: "rat \<times> rat \<Rightarrow> bucket option \<Rightarrow> rat" where
  "filled_at c st =
     (case st of
        None \<Rightarrow> 5
      | Some b \<Rightarrow> if fst c < bk_expires b then min 5 (bk_tokens b + max 0 (snd c - bk_timestamp b)) else 5)"

lemma try_acquire_filled:
  "try_acquire r w st = (1 \<le> filled_at (r, w) st,
     Some \<lparr>bk_tokens = filled_at (r, w) st - (if 1 \<le> filled_at (r, w) st then 1 else 0), bk_timestamp = w,
           bk_expires = r + 60\<rparr>)"
  by (cases st) (simp_all add: try_acquire_def TOKEN_BUCKET_SCRIPT_def filled_at_def bucket_defs Let_def)

lemma filled_range: "(\<And>b. st = Some b \<Longrightarrow> 0 \<le> bk_tokens b) \<Longrightarrow> 0 \<le> filled_at c st \<and> filled_at c st \<le> 5"
  by (auto simp: filled_at_def split: option.split)

lemma filled_moves:
  assumes "left_at (r, w) b" and "r \<le> r'"
  shows "filled_at (r', w') (Some b) \<le> bk_tokens b + max (r' - r) (max 0 (w' - w))"
  using assms by (auto simp: left_at_def filled_at_def)

lemma granted_left:
  "sorted (map fst (c # cs)) \<Longrightarrow> left_at c b \<Longrightarrow> of_nat (granted cs (Some b)) \<le> bk_tokens b + moves c cs"
proof (induction c cs arbitrary: b rule: moves.induct)
  case (1 c)
  then show ?case by (simp add: left_at_def)
next
  case (2 r w r' w' cs)
  let ?f = "filled_at (r', w') (Some b)"
  let ?b = "\<lparr>bk_tokens = ?f - (if 1 \<le> ?f then 1 else 0), bk_timestamp = w', bk_expires = r' + 60\<rparr>"
  have "0 \<le> ?f \<and> ?f \<le> 5" using 2(3) by (intro filled_range) (simp add: left_at_def)
  then have left: "left_at (r', w') ?b" by (simp add: left_at_def)
  have "sorted (map fst ((r', w') # cs))" using 2(2) by simp
  from 2(1) [OF this left] have "of_nat (granted cs (Some ?b)) \<le> bk_tokens ?b + moves (r', w') cs" .
  moreover have "?f \<le> bk_tokens b + max (r' - r) (max 0 (w' - w))"
    using 2(2) by (intro filled_moves [OF 2(3)]) simp
  ultimately show ?case by (cases "1 \<le> ?f") (simp_all add: try_acquire_filled)
qed

lemma bucket_after_tokens:
  "(\<And>b. st = Some b \<Longrightarrow> 0 \<le> bk_tokens b) \<Longrightarrow> bucket_after cs st = Some b \<Longrightarrow> 0 \<le> bk_tokens b"
proof (induction cs arbitrary: st)
  case (Cons c cs)
  obtain r w where c: "c = (r, w)" by fastforce
  have "0 \<le> filled_at (r, w) st" using filled_range [of st "(r, w)"] Cons.prems(1) by blast
  from Cons.IH [OF _ Cons.prems(2) [unfolded c bucket_after.simps try_acquire_filled snd_conv]] this
  show ?case by simp
qed simp

section \<open>Properties\<close>



text \<open>A late clock does break the rate: at one instant of Redis, two workers a second apart take as many as they ask.\<close>

theorem late_clock_breaks_rate:
  "granted [(0, 9), (0, 9), (0, 9), (0, 9), (0, 9), (0, 8), (0, 9), (0, 8), (0, 9)] None = 7"
  by code_simp

text \<open>
  Waiting for a token ends: whatever the other workers do, the loop answers, with a token by the
  deadline and one interval at most; and a worker that is alone, given a second or more, always gets
  its token, within the time the bucket needs to hold one and one interval.
\<close>

theorem waiting_ends:
  assumes "bucket_ok now st" and "now + 1 \<le> deadline"
  shows "(\<forall>t. fst (acquire others deadline now st) = Some t \<longrightarrow> now \<le> t \<and> t < deadline + 1 / 5) \<and>
    (\<exists>t. fst (acquire (\<lambda>t b. b) deadline now st) = Some t \<and> now \<le> t \<and> t < now + 6 / 5)"
proof
  have "now \<le> t \<and> (t = now \<or> t < deadline + 1 / 5)" if "fst (acquire others deadline now st) = Some t" for t
    using that
  proof (induction others deadline now st rule: acquire.induct)
    case (1 others deadline now st)
    obtain allowed st' where one: "try_acquire now now st = (allowed, st')" by fastforce
    show ?case
    proof (cases "allowed \<or> deadline \<le> now")
      case True
      with "1.prems" one show ?thesis by (auto simp: acquire.simps [of others deadline now st] split: if_splits)
    next
      case False
      with "1.prems" one have "fst (acquire others deadline (now + POLL_INTERVAL_SECONDS) (others (now + POLL_INTERVAL_SECONDS) st')) = Some t"
        by (simp add: acquire.simps [of others deadline now st])
      from "1.IH" [OF one [symmetric] _ _ this] False show ?thesis by (auto simp: POLL_INTERVAL_SECONDS_def)
    qed
  qed
  with assms(2) show "\<forall>t. fst (acquire others deadline now st) = Some t \<longrightarrow> now \<le> t \<and> t < deadline + 1 / 5" by fastforce
next
  have "\<exists>t. fst (acquire others deadline now st) = Some t \<and> now \<le> t \<and> (t = now \<or> t < now + (1 - level now st) + 1 / 5)"
    if "bucket_ok now st" "1 - level now st \<le> deadline - now" "others = (\<lambda>t b. b)" for others
    using that
  proof (induction others deadline now st rule: acquire.induct)
    case (1 others deadline now st)
    obtain allowed st' where one: "try_acquire now now st = (allowed, st')" by fastforce
    note x = try_acquire_level [OF "1.prems"(1) one]
    show ?case
    proof (cases allowed)
      case True
      with one show ?thesis by (simp add: acquire.simps [of others deadline now st])
    next
      case False
      with x have low: "level now st < 1" and same: "level now st' = level now st" by auto
      with "1.prems"(2) have d: "\<not> deadline \<le> now" by simp
      let ?n = "now + POLL_INTERVAL_SECONDS"
      have later: "level ?n st' = level now st + 1 / 5" if "st' \<noteq> None"
        using that low same by (auto simp: level_def POLL_INTERVAL_SECONDS_def min_def split: if_splits)
      have "st' \<noteq> None" using one by (auto simp: try_acquire_def split: prod.splits)
      with later have l: "level ?n st' = level now st + 1 / 5" .
      have "bucket_ok ?n st'" using x level_later [of now st' ?n] by (simp add: POLL_INTERVAL_SECONDS_def)
      from "1.IH" [OF one [symmetric] False d] this l "1.prems"(2,3)
      obtain t where "fst (acquire others deadline ?n (others ?n st')) = Some t" "?n \<le> t"
          "t = ?n \<or> t < ?n + (1 - level ?n st') + 1 / 5" by (auto simp: POLL_INTERVAL_SECONDS_def)
      with False d one l low show ?thesis
        by (auto simp: acquire.simps [of others deadline now st] POLL_INTERVAL_SECONDS_def)
    qed
  qed
  from this [OF assms(1) _ refl] assms level_later [OF assms(1), of now]
  show "\<exists>t. fst (acquire (\<lambda>t b. b) deadline now st) = Some t \<and> now \<le> t \<and> t < now + 6 / 5" by fastforce
qed

theorem waiting_ends_example:
  "\<exists>t. fst (acquire (\<lambda>t b. b) 30 0 (Some \<lparr>bk_tokens = 0, bk_timestamp = 0, bk_expires = 60\<rparr>)) = Some t \<and> t < 6 / 5"
  using waiting_ends [of 0 "Some \<lparr>bk_tokens = 0, bk_timestamp = 0, bk_expires = 60\<rparr>" 30 "\<lambda>t b. b"]
  by (simp add: bucket_ok_def) blast

end
