(* ===== verification/Access_Requests.thy ===== *)
theory Access_Requests
  imports Inbox Referentials Entitlements
begin

text \<open>
  What a company asks of the operator (access_requests/services.py, subjects.py, models.py and the
  view of the console): asking for a referential or a feature, withdrawing a request, moving it
  through its steps, and what granting does. The texts of the messages hold the accented letters of
  Latin-1 as characters.
\<close>

section \<open>Data\<close>

datatype request_status = Request_pending | Contacted | Proposal | Granted | Declined | Request_cancelled

definition OPEN_REQUEST_STATUSES :: "request_status list" where
  "OPEN_REQUEST_STATUSES = [Request_pending, Contacted, Proposal]"

definition ADVANCEABLE_STATUSES :: "request_status list" where
  "ADVANCEABLE_STATUSES = [Contacted, Proposal, Granted, Declined]"

definition TERMINAL_STATUSES :: "request_status list" where
  "TERMINAL_STATUSES = [Granted, Declined, Request_cancelled]"

fun request_status_name :: "request_status \<Rightarrow> string" where
  "request_status_name Request_pending = ''pending''"
| "request_status_name Contacted = ''contacted''"
| "request_status_name Proposal = ''proposal''"
| "request_status_name Granted = ''granted''"
| "request_status_name Declined = ''declined''"
| "request_status_name Request_cancelled = ''cancelled''"

fun request_status_display :: "request_status \<Rightarrow> string" where
  "request_status_display Request_pending = ''Nouvelle''"
| "request_status_display Contacted = ''Client contact'' @ [CHR 0xE9]"
| "request_status_display Proposal = ''Proposition envoy'' @ [CHR 0xE9] @ ''e''"
| "request_status_display Granted = ''Accord'' @ [CHR 0xE9] @ ''e''"
| "request_status_display Declined = ''Refus'' @ [CHR 0xE9] @ ''e''"
| "request_status_display Request_cancelled = ''Annul'' @ [CHR 0xE9] @ ''e par le client''"

record access_request =
  aq_id :: int
  aq_tenant :: int
  aq_subject_type :: string
  aq_subject_key :: string
  aq_subject_label :: string
  aq_reason :: string
  aq_requested_by :: "int option"
  aq_created_at :: time
  aq_status :: request_status
  aq_response :: string
  aq_handled_at :: "time option"
  aq_handled_by :: "int option"

definition request_is_open :: "access_request \<Rightarrow> bool" where
  "request_is_open q = (aq_status q \<in> set OPEN_REQUEST_STATUSES)"

text \<open>The lines the console writes in its journal: who, about whom, on what, and the sentence.\<close>

record admin_line =
  aj_actor :: int
  aj_tenant :: int
  aj_target :: string
  aj_detail :: string

record desk =
  dk_db :: db
  dk_box :: box
  dk_seq :: int
  dk_requests :: "access_request list"
  dk_journal :: "admin_line list"

datatype request_error =
    Unknown_type
  | Unknown_item
  | Already_held string
  | Already_asked string
  | Already_handled
  | Unknown_step
  | Grant_refused referential_error

section \<open>The registry of subjects\<close>

definition REFERENTIAL_SUBJECT :: string where "REFERENTIAL_SUBJECT = ''referential''"
definition FEATURE_SUBJECT :: string where "FEATURE_SUBJECT = ''feature''"

definition referential_by_slug :: "db \<Rightarrow> string \<Rightarrow> referential option" where
  "referential_by_slug d slug = find (\<lambda>r. rf_slug r = slug) (d_referentials d)"

record subject =
  sj_describe :: "db \<Rightarrow> string \<Rightarrow> string option"
  sj_is_held :: "db \<Rightarrow> int \<Rightarrow> string \<Rightarrow> bool"
  sj_grant :: "(db \<Rightarrow> int \<Rightarrow> string \<Rightarrow> int option \<Rightarrow> referential_error + db) option"

definition grant_note :: string where
  "grant_note = ''Attribu'' @ [CHR 0xE9] @ '' en r'' @ [CHR 0xE9] @ ''ponse '' @ [CHR 0xE0] @ '' une demande du client.''"

definition describe_referential :: "db \<Rightarrow> string \<Rightarrow> string option" where
  "describe_referential d key = map_option rf_name (referential_by_slug d key)"

definition referential_is_held :: "db \<Rightarrow> int \<Rightarrow> string \<Rightarrow> bool" where
  "referential_is_held d t key =
     (case referential_by_slug d key of None \<Rightarrow> False | Some r \<Rightarrow> is_granted d t (rf_id r))"

definition grant_referential :: "db \<Rightarrow> int \<Rightarrow> string \<Rightarrow> int option \<Rightarrow> referential_error + db" where
  "grant_referential d t key actor =
     (case referential_by_slug d key of
        None \<Rightarrow> Inr d
      | Some r \<Rightarrow> assign_referential d t r actor grant_note)"

text \<open>The label of a feature is a display text of the registry of features: a parameter.\<close>

definition describe_feature :: "(string \<Rightarrow> string) \<Rightarrow> string \<Rightarrow> string option" where
  "describe_feature feature_label key = (if is_known key then Some (feature_label key) else None)"

definition subject_of :: "(string \<Rightarrow> string) \<Rightarrow> string \<Rightarrow> subject option" where
  "subject_of feature_label ty =
     (if ty = REFERENTIAL_SUBJECT
      then Some \<lparr>sj_describe = describe_referential, sj_is_held = referential_is_held, sj_grant = Some grant_referential\<rparr>
      else if ty = FEATURE_SUBJECT
      then Some \<lparr>sj_describe = (\<lambda>d. describe_feature feature_label), sj_is_held = has_feature, sj_grant = None\<rparr>
      else None)"

section \<open>The services\<close>

definition same_subject :: "int \<Rightarrow> string \<Rightarrow> string \<Rightarrow> access_request \<Rightarrow> bool" where
  "same_subject t ty key q = (aq_tenant q = t \<and> aq_subject_type q = ty \<and> aq_subject_key q = key)"

definition new_request_notice :: "string \<Rightarrow> access_request \<Rightarrow> notice" where
  "new_request_notice tenant_name q =
     \<lparr>nc_kind = Access_request_new,
      nc_title = ''Nouvelle demande de '' @ tenant_name @ '' : '' @ aq_subject_label q,
      nc_body = take 500 (aq_reason q), nc_link = ''/admin/plateforme?onglet=requests'',
      nc_dedupe_key = ''demande:'' @ show_int (aq_id q) @ '':nouvelle''\<rparr>"

definition create_request ::
  "(string \<Rightarrow> string) \<Rightarrow> time \<Rightarrow> desk \<Rightarrow> tenant \<Rightarrow> int option \<Rightarrow> string \<Rightarrow> string \<Rightarrow> string \<Rightarrow>
   request_error + access_request \<times> desk" where
  "create_request feature_label now k tenant user ty key why =
     (case subject_of feature_label ty of
        None \<Rightarrow> Inl Unknown_type
      | Some s \<Rightarrow>
          (case sj_describe s (dk_db k) key of
             None \<Rightarrow> Inl Unknown_item
           | Some label \<Rightarrow>
               if sj_is_held s (dk_db k) (te_id tenant) key then Inl (Already_held label)
               else if \<exists>q \<in> set (dk_requests k). same_subject (te_id tenant) ty key q \<and> request_is_open q
               then Inl (Already_asked label)
               else (let q = \<lparr>aq_id = dk_seq k + 1, aq_tenant = te_id tenant, aq_subject_type = ty,
                              aq_subject_key = key, aq_subject_label = label, aq_reason = why,
                              aq_requested_by = user, aq_created_at = now, aq_status = Request_pending,
                              aq_response = [], aq_handled_at = None, aq_handled_by = None\<rparr>
                     in Inr (q, k\<lparr>dk_seq := dk_seq k + 1, dk_requests := q # dk_requests k,
                          dk_box := snd (notify_staff now (dk_db k) (dk_box k) (new_request_notice (te_name tenant) q))\<rparr>))))"

definition list_requests :: "desk \<Rightarrow> int \<Rightarrow> request_status option \<Rightarrow> access_request list" where
  "list_requests k t status =
     filter (\<lambda>q. aq_tenant q = t \<and> (case status of None \<Rightarrow> True | Some s \<Rightarrow> aq_status q = s)) (dk_requests k)"

definition list_all_requests :: "desk \<Rightarrow> request_status option \<Rightarrow> string option \<Rightarrow> access_request list" where
  "list_all_requests k status ty =
     filter (\<lambda>q. (case status of None \<Rightarrow> True | Some s \<Rightarrow> aq_status q = s) \<and>
                 (case ty of None \<Rightarrow> True | Some s \<Rightarrow> aq_subject_type q = s)) (dk_requests k)"

definition open_count :: "desk \<Rightarrow> nat" where
  "open_count k = length (filter request_is_open (dk_requests k))"

definition pending_count :: "desk \<Rightarrow> nat" where
  "pending_count k = length (filter (\<lambda>q. aq_status q = Request_pending) (dk_requests k))"

definition get_request :: "desk \<Rightarrow> int \<Rightarrow> int option \<Rightarrow> access_request option" where
  "get_request k i tenant =
     find (\<lambda>q. (case tenant of None \<Rightarrow> True | Some t \<Rightarrow> aq_tenant q = t) \<and> aq_id q = i) (dk_requests k)"

definition save_request :: "access_request \<Rightarrow> desk \<Rightarrow> desk" where
  "save_request q k =
     k\<lparr>dk_requests := upd_where (\<lambda>r. aq_id r = aq_id q)
         (\<lambda>r. r\<lparr>aq_status := aq_status q, aq_response := aq_response q, aq_handled_at := aq_handled_at q,
               aq_handled_by := aq_handled_by q\<rparr>) (dk_requests k)\<rparr>"

definition cancel_request :: "time \<Rightarrow> desk \<Rightarrow> access_request \<Rightarrow> int option \<Rightarrow> request_error + access_request \<times> desk" where
  "cancel_request now k q user =
     (if \<not> request_is_open q then Inl Already_handled
      else (let q' = q\<lparr>aq_status := Request_cancelled, aq_handled_at := Some now, aq_handled_by := user\<rparr>
            in Inr (q', save_request q' k)))"

definition moved_notice :: "access_request \<Rightarrow> notice" where
  "moved_notice q =
     \<lparr>nc_kind = Access_request_updated,
      nc_title = ''Votre demande '' @ [CHR 0xAB] @ '' '' @ aq_subject_label q @ '' '' @ [CHR 0xBB] @ '' : '' @
        lower (request_status_display (aq_status q)),
      nc_body = aq_response q, nc_link = ''/mes-demandes'',
      nc_dedupe_key = ''demande:'' @ show_int (aq_id q) @ '':'' @ request_status_name (aq_status q)\<rparr>"

text \<open>What granting does: the tables after it, and whether anything was attributed by itself.\<close>

definition grant_outcome ::
  "(string \<Rightarrow> string) \<Rightarrow> db \<Rightarrow> access_request \<Rightarrow> request_status \<Rightarrow> int option \<Rightarrow> request_error + db \<times> bool" where
  "grant_outcome feature_label d q status actor =
     (case (if status = Granted then Option.bind (subject_of feature_label (aq_subject_type q)) sj_grant else None) of
        None \<Rightarrow> Inr (d, False)
      | Some grant \<Rightarrow>
          (case grant d (aq_tenant q) (aq_subject_key q) actor of
             Inl e \<Rightarrow> Inl (Grant_refused e)
           | Inr d' \<Rightarrow> Inr (d', True)))"

definition moved_request :: "time \<Rightarrow> access_request \<Rightarrow> request_status \<Rightarrow> string \<Rightarrow> int option \<Rightarrow> access_request" where
  "moved_request now q status response actor =
     (let q1 = q\<lparr>aq_status := status, aq_response := (if response \<noteq> [] then response else aq_response q)\<rparr>
      in if status \<in> set TERMINAL_STATUSES then q1\<lparr>aq_handled_at := Some now, aq_handled_by := actor\<rparr> else q1)"

definition tell_requester :: "time \<Rightarrow> access_request \<Rightarrow> desk \<Rightarrow> desk" where
  "tell_requester now q k =
     (case aq_requested_by q of
        None \<Rightarrow> k
      | Some u \<Rightarrow> k\<lparr>dk_box := snd (notify now (dk_box k) [find (\<lambda>x. us_id x = u) (d_users (dk_db k))]
                      (Some (aq_tenant q)) (moved_notice q))\<rparr>)"

definition advance_request ::
  "(string \<Rightarrow> string) \<Rightarrow> time \<Rightarrow> desk \<Rightarrow> access_request \<Rightarrow> request_status \<Rightarrow> string \<Rightarrow> int option \<Rightarrow>
   request_error + (access_request \<times> bool) \<times> desk" where
  "advance_request feature_label now k q status response actor =
     (if \<not> request_is_open q then Inl Already_handled
      else if status \<notin> set ADVANCEABLE_STATUSES then Inl Unknown_step
      else rbind (grant_outcome feature_label (dk_db k) q status actor) (\<lambda>(d, attributed).
             let q' = moved_request now q status response actor
             in Inr ((q', attributed), tell_requester now q' (save_request q' (k\<lparr>dk_db := d\<rparr>)))))"

definition handle_request ::
  "(string \<Rightarrow> string) \<Rightarrow> time \<Rightarrow> desk \<Rightarrow> access_request \<Rightarrow> bool \<Rightarrow> string \<Rightarrow> int option \<Rightarrow>
   request_error + (access_request \<times> bool) \<times> desk" where
  "handle_request feature_label now k q granted response actor =
     advance_request feature_label now k q (if granted then Granted else Declined) response actor"

section \<open>The views\<close>

text \<open>
  The view of the console reads the request by its number, moves it, and writes its journal, whose
  sentence knows two outcomes only. \<open>None\<close> is the answer 404.
\<close>

definition handled_line :: "int \<Rightarrow> access_request \<Rightarrow> bool \<Rightarrow> admin_line" where
  "handled_line actor q attributed =
     \<lparr>aj_actor = actor, aj_tenant = aq_tenant q, aj_target = aq_subject_label q,
      aj_detail = (if aq_status q = Granted then ''Accord'' @ [CHR 0xE9] @ ''e'' else ''Refus'' @ [CHR 0xE9] @ ''e'') @
        (if attributed then '' et attribu'' @ [CHR 0xE9] @ ''e automatiquement.'' else ''.'')\<rparr>"

definition console_advance ::
  "(string \<Rightarrow> string) \<Rightarrow> time \<Rightarrow> desk \<Rightarrow> int \<Rightarrow> request_status \<Rightarrow> string \<Rightarrow> int \<Rightarrow>
   (request_error + (access_request \<times> bool) \<times> desk) option" where
  "console_advance feature_label now k i status response actor =
     (case get_request k i None of
        None \<Rightarrow> None
      | Some q \<Rightarrow> Some (rbind (advance_request feature_label now k q status response (Some actor)) (\<lambda>((q', attributed), k').
          Inr ((q', attributed), k'\<lparr>dk_journal := handled_line actor q' attributed # dk_journal k'\<rparr>))))"

definition withdraw_request :: "time \<Rightarrow> desk \<Rightarrow> int \<Rightarrow> int \<Rightarrow> int \<Rightarrow> (request_error + access_request \<times> desk) option" where
  "withdraw_request now k tenant i user =
     (case get_request k i (Some tenant) of
        None \<Rightarrow> None
      | Some q \<Rightarrow> Some (cancel_request now k q (Some user)))"

section \<open>Invariant\<close>

definition request_key :: "access_request \<Rightarrow> int \<times> string \<times> string" where
  "request_key q = (aq_tenant q, aq_subject_type q, aq_subject_key q)"

definition desk_ok :: "desk \<Rightarrow> bool" where
  "desk_ok k =
     (at_most_one request_is_open request_key (dk_requests k) \<and> distinct (map aq_id (dk_requests k)) \<and>
      (\<forall>q \<in> set (dk_requests k). aq_id q \<le> dk_seq k))"

inductive desk_step :: "desk \<Rightarrow> desk \<Rightarrow> bool" where
  step_create: "create_request fl now k tenant user ty key why = Inr (q, k') \<Longrightarrow> desk_step k k'"
| step_withdraw: "withdraw_request now k tenant i user = Some (Inr (q, k')) \<Longrightarrow> desk_step k k'"
| step_advance: "console_advance fl now k i status response actor = Some (Inr (r, k')) \<Longrightarrow> desk_step k k'"

text \<open>
  What happened to the rows: a row is added, or one that is open is written with its own number and
  subject.
\<close>

definition moved_row :: "access_request \<Rightarrow> access_request \<Rightarrow> bool" where
  "moved_row q q' = (aq_id q' = aq_id q \<and> request_key q' = request_key q \<and> aq_subject_label q' = aq_subject_label q)"

lemma get_request_row: "get_request k i t = Some q \<Longrightarrow> q \<in> set (dk_requests k) \<and> aq_id q = i"
  by (auto simp: get_request_def dest: find_SomeD)

lemma advance_shape:
  assumes "advance_request fl now k q status response actor = Inr ((q', attributed), k')"
  shows "request_is_open q \<and> q' = moved_request now q status response actor \<and> dk_seq k' = dk_seq k \<and>
    dk_requests k' = dk_requests (save_request q' k) \<and> status \<in> set ADVANCEABLE_STATUSES \<and>
    grant_outcome fl (dk_db k) q status actor = Inr (dk_db k', attributed)"
  using assms
  by (auto simp: advance_request_def rbind_Inr_iff Let_def save_request_def tell_requester_def
      split: if_splits option.splits)

lemma moved_request_row: "moved_row q (moved_request now q status response actor)"
  by (simp add: moved_row_def moved_request_def Let_def request_key_def)

lemma save_request_row:
  assumes "desk_ok k" and "q \<in> set (dk_requests k)" and "moved_row q q'"
    and "q' = q\<lparr>aq_status := aq_status q', aq_response := aq_response q', aq_handled_at := aq_handled_at q', aq_handled_by := aq_handled_by q'\<rparr>"
  shows "dk_requests (save_request q' k) = upd_where (\<lambda>r. aq_id r = aq_id q) (\<lambda>r. q') (dk_requests k)"
proof -
  have one: "r = q" if "r \<in> set (dk_requests k)" "aq_id r = aq_id q" for r
    using assms(1,2) that distinct_map_eq [of aq_id "dk_requests k"] by (auto simp: desk_ok_def)
  have id: "aq_id q' = aq_id q" using assms(3) by (simp add: moved_row_def)
  show ?thesis
    unfolding save_request_def upd_where_def id
    by (simp, rule ballI) (use one assms(4) [symmetric] in auto)
qed

lemma moved_fields:
  "moved_request now q status response actor = q\<lparr>aq_status := aq_status (moved_request now q status response actor),
     aq_response := aq_response (moved_request now q status response actor),
     aq_handled_at := aq_handled_at (moved_request now q status response actor),
     aq_handled_by := aq_handled_by (moved_request now q status response actor)\<rparr>"
  by (simp add: moved_request_def Let_def)

lemma desk_step_rows:
  assumes "desk_step k k'" and "desk_ok k"
  obtains (added) q where "dk_requests k' = q # dk_requests k" and "aq_id q = dk_seq k + 1" and "dk_seq k' = dk_seq k + 1"
      and "\<not> (\<exists>r \<in> set (dk_requests k). request_is_open r \<and> request_key r = request_key q)"
    | (moved) q q' where "q \<in> set (dk_requests k)" and "request_is_open q" and "moved_row q q'" and "dk_seq k' = dk_seq k"
      and "dk_requests k' = upd_where (\<lambda>r. aq_id r = aq_id q) (\<lambda>r. q') (dk_requests k)"
  using assms(1)
proof cases
  case (step_create fl now tenant user ty key why q)
  then show ?thesis
    by (intro added [of q]) (auto simp: create_request_def Let_def same_subject_def request_key_def split: option.splits if_splits)
next
  case (step_withdraw now tenant i user q)
  then obtain q0 where g: "get_request k i (Some tenant) = Some q0" and c: "cancel_request now k q0 (Some user) = Inr (q, k')"
    by (auto simp: withdraw_request_def split: option.splits)
  from c have o: "request_is_open q0" and q: "q = q0\<lparr>aq_status := Request_cancelled, aq_handled_at := Some now, aq_handled_by := Some user\<rparr>"
    and k': "k' = save_request q k"
    by (auto simp: cancel_request_def Let_def split: if_splits)
  have m: "moved_row q0 q" by (simp add: q moved_row_def request_key_def)
  have "q = q0\<lparr>aq_status := aq_status q, aq_response := aq_response q, aq_handled_at := aq_handled_at q, aq_handled_by := aq_handled_by q\<rparr>"
    by (simp add: q)
  from save_request_row [OF assms(2) _ m this] get_request_row [OF g] o m k' show ?thesis
    by (intro moved [of q0 q]) (auto simp: save_request_def)
next
  case (step_advance fl now i status response actor r)
  then obtain q0 q attributed k1 where g: "get_request k i None = Some q0"
    and a: "advance_request fl now k q0 status response (Some actor) = Inr ((q, attributed), k1)"
    and k': "k' = k1\<lparr>dk_journal := handled_line actor q attributed # dk_journal k1\<rparr>"
    by (auto simp: console_advance_def rbind_Inr_iff split: option.splits)
  note s = advance_shape [OF a]
  have m: "moved_row q0 q" using s moved_request_row by simp
  from save_request_row [OF assms(2) _ m] get_request_row [OF g] s m k' moved_fields [of now q0 status response "Some actor"]
  show ?thesis by (intro moved [of q0 q]) auto
qed

lemma desk_step_ok:
  assumes "desk_step k k'" and "desk_ok k"
  shows "desk_ok k' \<and> (\<forall>q \<in> set (dk_requests k). \<exists>q' \<in> set (dk_requests k'). moved_row q q' \<and> (\<not> request_is_open q \<longrightarrow> q' = q))"
  using assms
proof (cases rule: desk_step_rows)
  case (added q)
  then have "desk_ok k'" using assms(2) by (auto simp: desk_ok_def intro!: at_most_one_Cons)
  moreover have "\<exists>q' \<in> set (dk_requests k'). moved_row q0 q' \<and> (\<not> request_is_open q0 \<longrightarrow> q' = q0)" if "q0 \<in> set (dk_requests k)" for q0
    using that added(1) by (intro bexI [of _ q0]) (simp_all add: moved_row_def)
  ultimately show ?thesis by blast
next
  case (moved q q')
  have one: "r = q" if "r \<in> set (dk_requests k)" "aq_id r = aq_id q" for r
    using assms(2) moved(1) that distinct_map_eq [of aq_id "dk_requests k"] by (auto simp: desk_ok_def)
  have "at_most_one request_is_open request_key (dk_requests k')"
    unfolding moved(5)
  proof (rule at_most_one_put)
    show "at_most_one request_is_open request_key (dk_requests k)" "distinct (map aq_id (dk_requests k))"
      using assms(2) by (simp_all add: desk_ok_def)
    fix r assume r: "r \<in> set (dk_requests k)" "aq_id r \<noteq> aq_id q" "request_is_open r"
    then show "request_key r \<noteq> request_key q'"
      using assms(2) moved(1,2,3) at_most_oneD [of request_is_open request_key "dk_requests k" r q]
      by (auto simp: desk_ok_def moved_row_def)
  qed
  moreover have "map aq_id (dk_requests k') = map aq_id (dk_requests k)"
    unfolding moved(5) by (rule map_upd_where) (use moved(3) in \<open>simp add: moved_row_def\<close>)
  moreover have "aq_id r \<le> dk_seq k'" if "r \<in> set (dk_requests k')" for r
    using that assms(2) moved(1,3,4) by (auto simp: moved(5) set_upd_where desk_ok_def moved_row_def)
  ultimately have "desk_ok k'" using assms(2) by (simp add: desk_ok_def)
  moreover have "\<exists>r' \<in> set (dk_requests k'). moved_row r r' \<and> (\<not> request_is_open r \<longrightarrow> r' = r)" if "r \<in> set (dk_requests k)" for r
  proof (cases "r = q")
    case True
    with moved show ?thesis by (intro bexI [of _ q']) (auto simp: moved(5) set_upd_where)
  next
    case False
    with one that have "r \<in> set (dk_requests k')" by (auto simp: moved(5) set_upd_where)
    then show ?thesis by (intro bexI [of _ r]) (simp_all add: moved_row_def)
  qed
  ultimately show ?thesis by blast
qed

lemma desk_steps_ok:
  assumes "desk_step\<^sup>*\<^sup>* k k'" and "desk_ok k"
  shows "desk_ok k' \<and> (\<forall>q \<in> set (dk_requests k). \<exists>q' \<in> set (dk_requests k'). moved_row q q' \<and> (\<not> request_is_open q \<longrightarrow> q' = q))"
  using assms(1)
proof (induction rule: rtranclp_induct)
  case base
  with assms(2) show ?case by (auto simp: moved_row_def)
next
  case (step u v)
  then have u: "desk_ok u" by blast
  note v = desk_step_ok [OF step.hyps(2) u]
  have "\<exists>r \<in> set (dk_requests v). moved_row q r \<and> (\<not> request_is_open q \<longrightarrow> r = q)" if q: "q \<in> set (dk_requests k)" for q
  proof -
    obtain q' where q': "q' \<in> set (dk_requests u)" "moved_row q q'" "\<not> request_is_open q \<longrightarrow> q' = q" using step.IH q by blast
    obtain r where "r \<in> set (dk_requests v)" "moved_row q' r" "\<not> request_is_open q' \<longrightarrow> r = q'" using v q'(1) by blast
    with q'(2,3) show ?thesis by (intro bexI [of _ r]) (auto simp: moved_row_def)
  qed
  with v show ?case by blast
qed

section \<open>Properties\<close>

text \<open>
  A request is followed to one end: in any sequence of requests, withdrawals and decisions, a
  company has at most one open request on a subject, no request disappears or changes subject, and one
  that was concluded stays as it was concluded.
\<close>

theorem requests_followed_once:
  assumes "desk_step\<^sup>*\<^sup>* k k'" and "desk_ok k"
  shows "(\<forall>q \<in> set (dk_requests k'). \<forall>r \<in> set (dk_requests k'). aq_tenant q = aq_tenant r \<and>
      aq_subject_type q = aq_subject_type r \<and> aq_subject_key q = aq_subject_key r \<and>
      request_is_open q \<and> request_is_open r \<longrightarrow> q = r) \<and>
    (\<forall>q \<in> set (dk_requests k). \<exists>q' \<in> set (dk_requests k'). aq_id q' = aq_id q \<and> aq_tenant q' = aq_tenant q \<and>
      aq_subject_key q' = aq_subject_key q \<and> (aq_status q \<in> set TERMINAL_STATUSES \<longrightarrow> q' = q))"
proof -
  note s = desk_steps_ok [OF assms]
  have "\<not> request_is_open q" if "aq_status q \<in> set TERMINAL_STATUSES" for q
    using that by (auto simp: request_is_open_def OPEN_REQUEST_STATUSES_def TERMINAL_STATUSES_def)
  moreover have "q = r" if "q \<in> set (dk_requests k')" "r \<in> set (dk_requests k')" "request_is_open q" "request_is_open r"
      "request_key q = request_key r" for q r
    using s that by (auto simp: desk_ok_def dest: at_most_oneD)
  ultimately show ?thesis using s by (simp add: moved_row_def request_key_def) blast
qed

definition demo_company :: tenant where
  "demo_company = \<lparr>te_id = 7, te_name = ''Atelier'', te_slug = ''atelier'', te_sector = [], te_headcount = None,
     te_is_active = True, te_ai_enabled = False, te_scan_cooldown_minutes = None, te_contact_email = [],
     te_contact_phone = [], te_address = [], te_website = [], te_account_manager = [], te_internal_notes = [],
     te_archived_at = None, te_archived_by = None, te_archive_reason = []\<rparr>"

definition demo_desk :: desk where
  "demo_desk = \<lparr>dk_db = empty_db\<lparr>d_referentials := [\<lparr>rf_id = 5, rf_slug = ''iso'', rf_name = ''ISO 27001'', rf_kind = Licensed,
       rf_owner_tenant = None, rf_is_active = True\<rparr>]\<rparr>, dk_box = \<lparr>bx_seq = 0, bx_rows = []\<rparr>, dk_seq = 0,
     dk_requests = [], dk_journal = []\<rparr>"

lemma demo_desk_ok: "desk_ok demo_desk"
  by (simp add: desk_ok_def demo_desk_def)

lemma demo_created:
  "\<exists>q k. create_request id 1 demo_desk demo_company (Some 3) ''referential'' ''iso'' [] = Inr (q, k) \<and>
     dk_requests k = [q] \<and> aq_id q = 1 \<and> aq_tenant q = 7 \<and> aq_status q = Request_pending \<and>
     aq_subject_type q = REFERENTIAL_SUBJECT \<and> aq_subject_key q = ''iso'' \<and> dk_db k = dk_db demo_desk"
  by (simp add: create_request_def subject_of_def describe_referential_def referential_by_slug_def demo_desk_def demo_company_def
      referential_is_held_def is_granted_def empty_db_def REFERENTIAL_SUBJECT_def Let_def)

lemma demo_granted:
  "\<exists>q k r k'. create_request id 1 demo_desk demo_company (Some 3) ''referential'' ''iso'' [] = Inr (q, k) \<and>
     console_advance id 2 k 1 Granted [] 9 = Some (Inr ((r, True), k')) \<and> aq_status r = Granted \<and> aq_tenant r = 7 \<and>
     aq_subject_type r = REFERENTIAL_SUBJECT \<and> aq_subject_key r = ''iso'' \<and> dk_requests k' = [r]"
proof -
  obtain q k where c: "create_request id 1 demo_desk demo_company (Some 3) ''referential'' ''iso'' [] = Inr (q, k)"
    and k: "dk_requests k = [q]" "dk_db k = dk_db demo_desk"
    and q: "aq_id q = 1" "aq_tenant q = 7" "aq_status q = Request_pending" "aq_subject_type q = REFERENTIAL_SUBJECT" "aq_subject_key q = ''iso''"
    using demo_created by blast
  let ?r = "moved_request 2 q Granted [] (Some 9)"
  have g: "get_request k 1 None = Some q" by (simp add: get_request_def k q)
  have o: "request_is_open q" by (simp add: request_is_open_def OPEN_REQUEST_STATUSES_def q)
  obtain d where d: "grant_outcome id (dk_db k) q Granted (Some 9) = Inr (d, True)"
    by (simp add: grant_outcome_def q subject_of_def grant_referential_def referential_by_slug_def k demo_desk_def
        assign_referential_def empty_db_def)
  obtain k1 where a: "advance_request id 2 k q Granted [] (Some 9) = Inr ((?r, True), k1)"
    using o d by (simp add: advance_request_def ADVANCEABLE_STATUSES_def Let_def)
  have rows: "dk_requests k1 = [?r]"
    using advance_shape [OF a] k q by (simp add: save_request_def moved_request_def Let_def TERMINAL_STATUSES_def)
  have "aq_status ?r = Granted" "aq_tenant ?r = 7" "aq_subject_type ?r = REFERENTIAL_SUBJECT" "aq_subject_key ?r = ''iso''"
    by (simp_all add: moved_request_def Let_def q)
  with c g a rows show ?thesis by (simp add: console_advance_def)
qed

theorem requests_followed_once_example:
  "\<exists>k q. desk_step\<^sup>*\<^sup>* demo_desk k \<and> dk_requests k = [q] \<and> aq_status q = Granted \<and>
     (\<exists>k' r. desk_step\<^sup>*\<^sup>* k k' \<and> r \<in> set (dk_requests k') \<and> r = q)"
proof -
  obtain q k r k' where c: "create_request id 1 demo_desk demo_company (Some 3) ''referential'' ''iso'' [] = Inr (q, k)"
    and a: "console_advance id 2 k 1 Granted [] 9 = Some (Inr ((r, True), k'))" and r: "aq_status r = Granted" "dk_requests k' = [r]"
    using demo_granted by blast
  have run: "desk_step\<^sup>*\<^sup>* demo_desk k'"
    using step_create [OF c] step_advance [OF a] by (meson rtranclp.rtrancl_into_rtrancl rtranclp.rtrancl_refl)
  have "desk_ok k'" using desk_steps_ok [OF run demo_desk_ok] ..
  from requests_followed_once [OF rtranclp.rtrancl_refl this] r run show ?thesis
    by (intro exI [of _ k'] exI [of _ r]) (auto simp: TERMINAL_STATUSES_def)
qed

text \<open>
  Granting gives exactly what was asked: granting a referential opens that referential to that
  company and nothing else to anyone, granting a feature and every other step leave all rights as they
  are, and the answer says which of the two happened.
\<close>

theorem granting_exact:
  assumes "console_advance fl now k i status response actor = Some (Inr ((q, attributed), k'))"
  shows "(attributed \<longleftrightarrow> status = Granted \<and> aq_subject_type q = REFERENTIAL_SUBJECT) \<and>
    (\<not> attributed \<longrightarrow> dk_db k' = dk_db k) \<and>
    (attributed \<longrightarrow> (\<forall>t r. is_granted (dk_db k') t r \<longleftrightarrow> is_granted (dk_db k) t r \<or>
       t = aq_tenant q \<and> (\<exists>x. referential_by_slug (dk_db k) (aq_subject_key q) = Some x \<and> rf_id x = r)))"
proof -
  obtain q0 k1 where a: "advance_request fl now k q0 status response (Some actor) = Inr ((q, attributed), k1)"
    and k': "dk_db k' = dk_db k1"
    using assms by (auto simp: console_advance_def rbind_Inr_iff split: option.splits)
  note s = advance_shape [OF a]
  have same: "aq_subject_type q = aq_subject_type q0" "aq_tenant q = aq_tenant q0" "aq_subject_key q = aq_subject_key q0"
    using s by (simp_all add: moved_request_def Let_def)
  have g: "grant_outcome fl (dk_db k) q0 status (Some actor) = Inr (dk_db k', attributed)" using s k' by simp
  have other: "REFERENTIAL_SUBJECT \<noteq> FEATURE_SUBJECT" by (simp add: REFERENTIAL_SUBJECT_def FEATURE_SUBJECT_def)
  have one: "attributed \<longleftrightarrow> status = Granted \<and> aq_subject_type q = REFERENTIAL_SUBJECT"
    using g other by (auto simp: grant_outcome_def subject_of_def same split: if_splits sum.splits)
  moreover have "dk_db k' = dk_db k" if "\<not> attributed"
    using g that by (auto simp: grant_outcome_def split: option.splits sum.splits)
  moreover have "is_granted (dk_db k') t r \<longleftrightarrow> is_granted (dk_db k) t r \<or>
       t = aq_tenant q \<and> (\<exists>x. referential_by_slug (dk_db k) (aq_subject_key q) = Some x \<and> rf_id x = r)" if "attributed" for t r
  proof -
    have "grant_referential (dk_db k) (aq_tenant q) (aq_subject_key q) (Some actor) = Inr (dk_db k')"
      using g that one by (auto simp: grant_outcome_def subject_of_def same split: sum.splits)
    then show ?thesis
      by (auto simp: grant_referential_def assign_grants split: option.splits)
  qed
  ultimately show ?thesis by blast
qed

theorem granting_exact_example:
  "\<exists>k q k'. console_advance id 2 k 1 Granted [] 9 = Some (Inr ((q, True), k')) \<and> is_granted (dk_db k') 7 5 \<and>
     \<not> is_granted (dk_db k') 8 5"
proof -
  obtain q k r k' where c: "create_request id 1 demo_desk demo_company (Some 3) ''referential'' ''iso'' [] = Inr (q, k)"
    and a: "console_advance id 2 k 1 Granted [] 9 = Some (Inr ((r, True), k'))" and r: "aq_tenant r = 7" "aq_subject_key r = ''iso''"
    using demo_granted by blast
  have k: "dk_db k = dk_db demo_desk" using c demo_created by auto
  have "is_granted (dk_db demo_desk) t x = False" for t x by (simp add: is_granted_def demo_desk_def empty_db_def)
  moreover have "referential_by_slug (dk_db demo_desk) ''iso'' = Some x \<and> rf_id x = n \<Longrightarrow> n = 5" for x n
    by (auto simp: referential_by_slug_def demo_desk_def)
  moreover have "\<exists>x. referential_by_slug (dk_db demo_desk) ''iso'' = Some x \<and> rf_id x = 5"
    by (simp add: referential_by_slug_def demo_desk_def)
  ultimately show ?thesis using granting_exact [OF a] a r k by (intro exI [of _ k] exI [of _ r] exI [of _ k']) auto
qed

end
