(* ===== verification/Scans.thy ===== *)
theory Scans
  imports Findings
begin

text \<open>
  Scans and continuous monitoring (threat_intelligence/services.py, quota.py, tasks.py, views.py): the
  budget of the licence behind a short cache, the delay between two scans of a company, the life of a
  job, a scan over several assets of which one may fail, the task with its retries, the pool of
  monitored assets and the webhook. What the provider answers is a parameter: the provider as it is at
  the k-th call of a run. An operation returns its result or its error together with the tables it
  leaves.
\<close>

type_synonym 'a outcome = "(ti_error + 'a) \<times> ti"

section \<open>The budget of the licence\<close>

definition REMAINING_CACHE_TIMEOUT_SECONDS :: int where
  "REMAINING_CACHE_TIMEOUT_SECONDS = 300"

definition cache_remaining :: "surroundings \<Rightarrow> int \<Rightarrow> ti \<Rightarrow> ti" where
  "cache_remaining s n t = t\<lparr>ti_remaining := cache_set (sd_now s) () n REMAINING_CACHE_TIMEOUT_SECONDS (ti_remaining t)\<rparr>"

definition get_remaining :: "surroundings \<Rightarrow> provider \<Rightarrow> ti \<Rightarrow> bool \<Rightarrow> int option outcome" where
  "get_remaining s p t force_refresh =
     (case (if force_refresh then None else cache_get (sd_now s) (ti_remaining t) ()) of
        Some n \<Rightarrow> (Inr (Some n), t)
      | None \<Rightarrow>
          (case pv_remaining p of
             Inl e \<Rightarrow> (Inl (Provider_failed e), t)
           | Inr None \<Rightarrow> (Inr None, t)
           | Inr (Some n) \<Rightarrow> (Inr (Some n), cache_remaining s n t)))"

definition ensure_query_budget_available :: "surroundings \<Rightarrow> provider \<Rightarrow> ti \<Rightarrow> int option \<Rightarrow> unit outcome" where
  "ensure_query_budget_available s p t margin0 =
     (let margin = (case margin0 of Some m \<Rightarrow> m | None \<Rightarrow> sd_safety_margin s)
      in case get_remaining s p t False of
           (Inl e, t') \<Rightarrow> (Inl e, t')
         | (Inr None, t') \<Rightarrow> (Inr (), t')
         | (Inr (Some n), t') \<Rightarrow> (if n \<le> margin then Inl Quota_exceeded else Inr (), t'))"

definition record_usage ::
  "surroundings \<Rightarrow> ti \<Rightarrow> int \<Rightarrow> string \<Rightarrow> int \<Rightarrow> int option \<Rightarrow> triggered_by \<Rightarrow> int \<Rightarrow> ti" where
  "record_usage s t tenant ep requests remaining trig created =
     (let u = \<lparr>ui_tenant = tenant, ui_endpoint = ep, ui_requests_consumed = requests,
               ui_remaining_after = remaining, ui_triggered_by = trig, ui_findings_created = created,
               ui_created_at = sd_now s\<rparr>;
          t' = t\<lparr>ti_db := (ti_db t)\<lparr>d_usages := u # d_usages (ti_db t)\<rparr>\<rparr>
      in case remaining of None \<Rightarrow> t' | Some n \<Rightarrow> cache_remaining s n t')"

definition monthly_requests_used :: "surroundings \<Rightarrow> ti \<Rightarrow> int" where
  "monthly_requests_used s t =
     sum_list (map ui_requests_consumed (filter (\<lambda>u. month_start (sd_now s) \<le> ui_created_at u) (d_usages (ti_db t))))"

section \<open>The delay between two scans\<close>

definition scan_cooldown_minutes :: "surroundings \<Rightarrow> tenant \<Rightarrow> int" where
  "scan_cooldown_minutes s tenant =
     (case te_scan_cooldown_minutes tenant of
        Some n \<Rightarrow> n
      | None \<Rightarrow> (case int_setting (sd_env s) SCAN_COOLDOWN_MINUTES of Inr n \<Rightarrow> n | Inl _ \<Rightarrow> sd_cooldown_fallback s))"

definition format_cooldown :: "int \<Rightarrow> string" where
  "format_cooldown minutes0 =
     (let minutes = max 0 minutes0; hours = minutes div 60; rest = minutes mod 60
      in if minutes = 0 then ''aucun d'' @ [CHR 0xE9] @ ''lai''
         else if minutes = 1 then ''1 minute''
         else if minutes < 60 then show_int minutes @ '' minutes''
         else if rest = 0 then show_int hours @ '' h''
         else show_int hours @ '' h '' @ (if rest < 10 then ''0'' else []) @ show_int rest)"

definition ensure_scan_cooldown_elapsed :: "surroundings \<Rightarrow> ti \<Rightarrow> tenant \<Rightarrow> ti_error + unit" where
  "ensure_scan_cooldown_elapsed s t tenant =
     (if scan_cooldown_minutes s tenant \<le> 0 then Inr ()
      else ensure (cache_get (sd_now s) (ti_cooldown t) (te_id tenant) \<noteq> Some True) Cooldown_active)"

definition mark_scan_cooldown :: "surroundings \<Rightarrow> ti \<Rightarrow> tenant \<Rightarrow> ti" where
  "mark_scan_cooldown s t tenant =
     (let minutes = scan_cooldown_minutes s tenant
      in if minutes \<le> 0 then t
         else t\<lparr>ti_cooldown := cache_set (sd_now s) (te_id tenant) True (minutes * 60) (ti_cooldown t)\<rparr>)"

section \<open>Jobs\<close>

definition create_scan_job ::
  "surroundings \<Rightarrow> provider \<Rightarrow> ti \<Rightarrow> tenant \<Rightarrow> int option \<Rightarrow> triggered_by \<Rightarrow> scan_job outcome" where
  "create_scan_job s p t tenant asset trig =
     (case (if trig = Manual then ensure_scan_cooldown_elapsed s t tenant else Inr ()) of
        Inl e \<Rightarrow> (Inl e, t)
      | Inr _ \<Rightarrow>
          (case ensure_query_budget_available s p t None of
             (Inl e, t') \<Rightarrow> (Inl e, t')
           | (Inr _, t') \<Rightarrow>
               (let j = \<lparr>jb_id = ti_seq t' + 1, jb_tenant = te_id tenant, jb_asset = asset, jb_status = Pending,
                         jb_triggered_by = trig, jb_scope = Assets, jb_result = [], jb_error = [],
                         jb_created_at = sd_now s, jb_finished_at = None\<rparr>
                in (Inr j, t'\<lparr>ti_seq := ti_seq t' + 1, ti_jobs := j # ti_jobs t'\<rparr>))))"

definition get_scan_job :: "ti \<Rightarrow> int \<Rightarrow> int \<Rightarrow> scan_job option" where
  "get_scan_job t tenant i = find (\<lambda>j. jb_tenant j = tenant \<and> jb_id j = i) (ti_jobs t)"

definition get_running_scan_job :: "ti \<Rightarrow> int \<Rightarrow> scan_job option" where
  "get_running_scan_job t tenant =
     find (\<lambda>j. jb_tenant j = tenant \<and> jb_status j \<in> {Pending, Running}) (ti_jobs t)"

text \<open>The first of the rows with the greatest date, newest rows coming first.\<close>

fun latest_by :: "('r \<Rightarrow> time) \<Rightarrow> 'r list \<Rightarrow> 'r option" where
  "latest_by f [] = None"
| "latest_by f (r # rs) =
     (case latest_by f rs of None \<Rightarrow> Some r | Some x \<Rightarrow> Some (if f x \<le> f r then r else x))"

definition get_last_finished_scan_job :: "ti \<Rightarrow> int \<Rightarrow> scan_job option" where
  "get_last_finished_scan_job t tenant =
     latest_by (\<lambda>j. case jb_finished_at j of Some x \<Rightarrow> x | None \<Rightarrow> 0)
       (filter (\<lambda>j. jb_tenant j = tenant \<and> jb_status j = Finished \<and> jb_finished_at j \<noteq> None) (ti_jobs t))"

text \<open>A job is an instance the task holds; each step saves the columns it changes.\<close>

definition save_job :: "(scan_job \<Rightarrow> scan_job) \<Rightarrow> int \<Rightarrow> ti \<Rightarrow> ti" where
  "save_job f i t = t\<lparr>ti_jobs := upd_where (\<lambda>j. jb_id j = i) f (ti_jobs t)\<rparr>"

definition merge_json :: "payload \<Rightarrow> payload \<Rightarrow> payload" where
  "merge_json a b = filter (\<lambda>x. fst x \<notin> fst ` set b) a @ b"

definition mark_job_running :: "ti \<Rightarrow> scan_job \<Rightarrow> scan_job \<times> ti" where
  "mark_job_running t j = (j\<lparr>jb_status := Running\<rparr>, save_job (\<lambda>r. r\<lparr>jb_status := Running\<rparr>) (jb_id j) t)"

definition mark_job_done :: "surroundings \<Rightarrow> ti \<Rightarrow> scan_job \<Rightarrow> payload \<Rightarrow> scan_job \<times> ti" where
  "mark_job_done s t j result =
     (let res = (if result = [] then jb_result j else merge_json (jb_result j) result);
          f = (\<lambda>r. r\<lparr>jb_status := Finished, jb_result := res, jb_finished_at := Some (sd_now s)\<rparr>)
      in (f j, save_job f (jb_id j) t))"

definition mark_job_failed :: "surroundings \<Rightarrow> ti \<Rightarrow> scan_job \<Rightarrow> string \<Rightarrow> scan_job \<times> ti" where
  "mark_job_failed s t j message =
     (let f = (\<lambda>r. r\<lparr>jb_status := Failed, jb_error := message, jb_finished_at := Some (sd_now s)\<rparr>)
      in (f j, save_job f (jb_id j) t))"

section \<open>A scan of several assets\<close>

definition scannable_assets :: "ti \<Rightarrow> int \<Rightarrow> asset option \<Rightarrow> asset list" where
  "scannable_assets t tenant a =
     (case a of
        Some x \<Rightarrow> [x]
      | None \<Rightarrow> filter (\<lambda>x. at_active x \<and> at_type x \<in> {Website, Email_domain}) (list_assets (ti_mon t) tenant))"

text \<open>What the loop over the assets carries.\<close>

record batch =
  ba_created :: int
  ba_requests :: int
  ba_failed :: "string list"
  ba_report :: ingestion_report
  ba_ti :: ti

definition scan_asset :: "surroundings \<Rightarrow> provider \<Rightarrow> int \<Rightarrow> asset \<Rightarrow> string \<Rightarrow> batch \<Rightarrow> batch" where
  "scan_asset s p tenant a domain b =
     (case pv_scan_domain p domain of
        Inl e \<Rightarrow> b\<lparr>ba_failed := ba_failed b @ [at_value a]\<rparr>
      | Inr r \<Rightarrow>
          (case ingest_raw_findings s (ba_ti b) tenant (at_id a) (sc_findings r) (ba_report b) of
             (None, (created, rep, t)) \<Rightarrow>
               b\<lparr>ba_created := ba_created b + int (length created), ba_requests := ba_requests b + sc_requests r,
                 ba_report := rep, ba_ti := t\<rparr>
           | (Some e, (created, rep, t)) \<Rightarrow>
               b\<lparr>ba_requests := ba_requests b + sc_requests r, ba_failed := ba_failed b @ [at_value a],
                 ba_report := rep, ba_ti := t\<rparr>))"

text \<open>The domain is derived outside of the guarded part: an unreadable URL ends the whole batch.\<close>

fun scan_assets :: "surroundings \<Rightarrow> (nat \<Rightarrow> provider) \<Rightarrow> nat \<Rightarrow> int \<Rightarrow> asset list \<Rightarrow> batch \<Rightarrow> ti_error option \<times> batch" where
  "scan_assets s pv k tenant [] b = (None, b)"
| "scan_assets s pv k tenant (a # as) b =
     (case asset_domain a of
        None \<Rightarrow> (Some Unreadable_url, b)
      | Some domain \<Rightarrow> scan_assets s pv (k + 1) tenant as (scan_asset s (pv k) tenant a domain b))"

definition scan_result_json :: "batch \<Rightarrow> payload" where
  "scan_result_json b =
     [(''findings_created'', JInt (ba_created b)), (''requests_consumed'', JInt (ba_requests b)),
      (''assets_en_echec'', JArr (map JStr (ba_failed b))),
      (''already_treated_seen'', JInt (int (length (ir_seen_again_treated (ba_report b))))),
      (''already_treated_ids'', JArr (map JInt (take MAX_REPORTED_TREATED_IDS (ir_seen_again_treated (ba_report b))))),
      (''findings_seen_again'', JInt (int (length (ir_seen_again (ba_report b)))))]"

text \<open>The requests of the batch are recorded once, with the budget the provider announces after it.\<close>

definition record_batch :: "surroundings \<Rightarrow> provider \<Rightarrow> int \<Rightarrow> triggered_by \<Rightarrow> batch \<Rightarrow> unit outcome" where
  "record_batch s p tenant trig b =
     (if ba_requests b = 0 then (Inr (), ba_ti b)
      else case get_remaining s p (ba_ti b) False of
             (Inl e, t) \<Rightarrow> (Inl e, t)
           | (Inr r, t) \<Rightarrow> (Inr (), record_usage s t tenant ''scan'' (ba_requests b) r trig (ba_created b)))"

definition execute_scan ::
  "surroundings \<Rightarrow> (nat \<Rightarrow> provider) \<Rightarrow> ti \<Rightarrow> tenant \<Rightarrow> asset list \<Rightarrow> triggered_by \<Rightarrow> payload outcome" where
  "execute_scan s pv t tenant assets trig =
     (case scan_assets s pv 0 (te_id tenant) assets
             \<lparr>ba_created = 0, ba_requests = 0, ba_failed = [], ba_report = empty_report, ba_ti = t\<rparr> of
        (Some e, b) \<Rightarrow> (Inl e, ba_ti b)
      | (None, b) \<Rightarrow>
          (case record_batch s (pv (length assets)) (te_id tenant) trig b of
             (Inl e, t2) \<Rightarrow> (Inl e, t2)
           | (Inr _, t2) \<Rightarrow>
               (let t3 = (if trig = Manual then mark_scan_cooldown s t2 tenant else t2)
                in if ba_failed b \<noteq> [] \<and> ba_created b = 0 \<and> length (ba_failed b) = length assets
                   then (Inl (Scan_impossible (ba_failed b)), t3)
                   else (Inr (scan_result_json b), t3))))"

section \<open>The task\<close>

definition SCAN_FAILED :: string where
  "SCAN_FAILED = ''L'' @ [CHR 0x27] @ ''analyse n'' @ [CHR 0x27] @ ''a pas pu aboutir. Nos '' @ [CHR 0xE9] @
     ''quipes en sont inform'' @ [CHR 0xE9] @ ''es, et vous pouvez la relancer dans quelques minutes. Les r'' @ [CHR 0xE9] @
     ''sultats d'' @ [CHR 0xE9] @ ''j'' @ [CHR 0xE0] @ '' pr'' @ [CHR 0xE9] @ ''sents dans votre espace restent valables.''"

definition SCAN_MAX_RETRIES :: nat where "SCAN_MAX_RETRIES = 2"

definition tenant_row :: "ti \<Rightarrow> int \<Rightarrow> tenant option" where
  "tenant_row t i = find (\<lambda>x. te_id x = i) (d_tenants (ti_db t))"

definition asset_row :: "ti \<Rightarrow> int option \<Rightarrow> asset option" where
  "asset_row t i = (case i of None \<Rightarrow> None | Some n \<Rightarrow> if n = 0 then None else find (\<lambda>a. at_id a = n) (mn_assets (ti_mon t)))"

definition job_row :: "ti \<Rightarrow> int \<Rightarrow> scan_job option" where
  "job_row t i = find (\<lambda>j. jb_id j = i) (ti_jobs t)"

text \<open>One run of the task: it asks to be retried, or it is over.\<close>

datatype delivery = Again | Over "payload option"

definition conclude :: "surroundings \<Rightarrow> ti \<Rightarrow> scan_job option \<Rightarrow> payload \<Rightarrow> ti" where
  "conclude s t job result = (case job of None \<Rightarrow> t | Some j \<Rightarrow> snd (mark_job_done s t j result))"

definition deliver_scan ::
  "surroundings \<Rightarrow> (nat \<Rightarrow> provider) \<Rightarrow> ti \<Rightarrow> int \<Rightarrow> int option \<Rightarrow> triggered_by \<Rightarrow> int option \<Rightarrow> nat \<Rightarrow> delivery \<times> ti" where
  "deliver_scan s pv t tenant_id asset_id trig job_id retries =
     (case tenant_row t tenant_id of
        None \<Rightarrow> (Over None, t)
      | Some tenant \<Rightarrow>
          (case (case job_id of
                   None \<Rightarrow> Some (None, t)
                 | Some i \<Rightarrow>
                     (case job_row t i of
                        None \<Rightarrow> None
                      | Some j \<Rightarrow> if jb_status j \<in> {Finished, Failed} then None
                                   else (case mark_job_running t j of (j', t') \<Rightarrow> Some (Some j', t')))) of
             None \<Rightarrow> (Over None, t)
           | Some (job, t1) \<Rightarrow>
               (let assets = scannable_assets t1 tenant_id (asset_row t1 asset_id)
                in if assets = [] then (Over None, conclude s t1 job [(''findings_created'', JInt 0)])
                   else case execute_scan s pv t1 tenant assets trig of
                          (Inl e, t2) \<Rightarrow>
                            if retries < SCAN_MAX_RETRIES then (Again, t2)
                            else (Over None, case job of None \<Rightarrow> t2 | Some j \<Rightarrow> snd (mark_job_failed s t2 j SCAN_FAILED))
                        | (Inr result, t2) \<Rightarrow> (Over (Some result), conclude s t2 job result))))"

text \<open>
  The runs of one message: Celery delivers again what asked for it. The clock and the provider of each
  run, and what everyone else does to the tables before it, are parameters.
\<close>

fun run_breach_scan_task ::
  "(nat \<Rightarrow> surroundings) \<Rightarrow> (nat \<Rightarrow> nat \<Rightarrow> provider) \<Rightarrow> (nat \<Rightarrow> ti \<Rightarrow> ti) \<Rightarrow> int \<Rightarrow> int option \<Rightarrow> triggered_by \<Rightarrow>
   int option \<Rightarrow> nat \<Rightarrow> nat \<Rightarrow> ti \<Rightarrow> payload option \<times> ti" where
  "run_breach_scan_task ss pv others tenant_id asset_id trig job_id retries 0 t =
     (case deliver_scan (ss retries) (pv retries) (others retries t) tenant_id asset_id trig job_id retries of
        (Again, t') \<Rightarrow> (None, t')
      | (Over r, t') \<Rightarrow> (r, t'))"
| "run_breach_scan_task ss pv others tenant_id asset_id trig job_id retries (Suc left) t =
     (case deliver_scan (ss retries) (pv retries) (others retries t) tenant_id asset_id trig job_id retries of
        (Again, t') \<Rightarrow> run_breach_scan_task ss pv others tenant_id asset_id trig job_id (retries + 1) left t'
      | (Over r, t') \<Rightarrow> (r, t'))"

end
