(* ===== verification/Provider_Client.thy ===== *)
theory Provider_Client
  imports Breach_Tables
begin

text \<open>
  The provider of breach intelligence: the HTTP client with its retries and its pages
  (providers/breachsense/client.py), the provider built on it (provider.py), the one without a
  licence (null_provider.py), the one that replays recorded answers (replay_provider.py), and the
  choice between them (providers/__init__.py). The service at the other end is a parameter: what the
  n-th try of the process gets for a request. The items of an answer are JSON objects, as the service
  documents.
\<close>

section \<open>The client\<close>

definition MAX_PAGINATION_PAGES :: nat where "MAX_PAGINATION_PAGES = 20"
definition MAX_RETRIES :: nat where "MAX_RETRIES = 3"

definition QUERY_ENDPOINTS :: "string list" where
  "QUERY_ENDPOINTS = [''stealer'', ''combo'', ''creds'', ''sessions'', ''nhi'', ''darkweb'', ''docs'', ''asm'', ''radar'']"

datatype client_error = Bad_request_error | Auth_error | Forbidden_error | Validation_error
  | Rate_limit_error | Server_error | Network_error | Other_status int | Undecodable

definition STATUS_TO_ERROR :: "int \<Rightarrow> client_error" where
  "STATUS_TO_ERROR n =
     (if n = 400 then Bad_request_error else if n = 401 then Auth_error else if n = 403 then Forbidden_error
      else if n = 422 then Validation_error else if n = 429 then Rate_limit_error else if n = 500 then Server_error
      else Other_status n)"

definition RETRYABLE_STATUSES :: "int set" where
  "RETRYABLE_STATUSES = {429, 500}"

text \<open>The body: none, a bare list, an object with its two possible lists, another JSON value, or no JSON.\<close>

datatype body = No_body | Bare "payload list" | Wrapped "payload list option" "payload list option" payload
  | Other_json | Not_json

text \<open>A try: no token in time or no connection, or a status and a body.\<close>

datatype reply = Unreachable | Reply int body

record http_request =
  hr_path :: string
  hr_params :: "(string \<times> string) list"

type_synonym service = "nat \<Rightarrow> http_request \<Rightarrow> reply"

text \<open>The loop over the attempts: \<open>left\<close> of them may follow. The count of tries goes along.\<close>

fun request_with_retries :: "service \<Rightarrow> http_request \<Rightarrow> nat \<Rightarrow> nat \<Rightarrow> (client_error + int \<times> body) \<times> nat" where
  "request_with_retries sv rq 0 n =
     (case sv n rq of
        Unreachable \<Rightarrow> (Inl Network_error, n + 1)
      | Reply st b \<Rightarrow> (if st = 200 \<or> st = 206 then Inr (st, b) else Inl (STATUS_TO_ERROR st), n + 1))"
| "request_with_retries sv rq (Suc left) n =
     (case sv n rq of
        Unreachable \<Rightarrow> request_with_retries sv rq left (n + 1)
      | Reply st b \<Rightarrow>
          if st = 200 \<or> st = 206 then (Inr (st, b), n + 1)
          else if st \<in> RETRYABLE_STATUSES then request_with_retries sv rq left (n + 1)
          else (Inl (STATUS_TO_ERROR st), n + 1))"

definition request :: "service \<Rightarrow> string \<Rightarrow> (string \<times> string) list \<Rightarrow> nat \<Rightarrow> (client_error + int \<times> body) \<times> nat" where
  "request sv path params n = request_with_retries sv \<lparr>hr_path = path, hr_params = params\<rparr> MAX_RETRIES n"

definition extract_items :: "body \<Rightarrow> payload list" where
  "extract_items b =
     (case b of
        Bare items \<Rightarrow> items
      | Wrapped results data _ \<Rightarrow> (case results of Some items \<Rightarrow> items | None \<Rightarrow> (case data of Some items \<Rightarrow> items | None \<Rightarrow> []))
      | _ \<Rightarrow> [])"

text \<open>The pages from a number on: the last page answers 200, and the cap of pages ends the loop too.\<close>

function pages ::
  "service \<Rightarrow> string \<Rightarrow> (string \<times> string) list \<Rightarrow> nat \<Rightarrow> payload list \<Rightarrow> nat \<Rightarrow> nat \<Rightarrow>
   (client_error + payload list \<times> nat) \<times> nat" where
  "pages sv path params page items consumed n =
     (case request sv path (params @ [(''p'', show_int (int page))]) n of
        (Inl e, n') \<Rightarrow> (Inl e, n')
      | (Inr (st, b), n') \<Rightarrow>
          if b = Not_json then (Inl Undecodable, n')
          else if st = 200 \<or> MAX_PAGINATION_PAGES \<le> page then (Inr (items @ extract_items b, consumed + 1), n')
          else pages sv path params (page + 1) (items @ extract_items b) (consumed + 1) n')"
  by pat_completeness auto

termination
  by (relation "measure (\<lambda>(sv, path, params, page, items, consumed, n). MAX_PAGINATION_PAGES - page)") auto

declare pages.simps [simp del]

definition get_paginated ::
  "service \<Rightarrow> string \<Rightarrow> (string \<times> string) list \<Rightarrow> nat \<Rightarrow> (client_error + payload list \<times> nat) \<times> nat" where
  "get_paginated sv path params n = pages sv path params 1 [] 0 n"

section \<open>The provider\<close>

text \<open>One endpoint after the other; an error of one loses what the ones before it returned.\<close>

fun scan_endpoints ::
  "service \<Rightarrow> string \<Rightarrow> string list \<Rightarrow> raw_finding list \<Rightarrow> nat \<Rightarrow> nat \<Rightarrow> (client_error + scan_result) \<times> nat" where
  "scan_endpoints sv sought [] fs consumed n = (Inr \<lparr>sc_findings = fs, sc_requests = int consumed\<rparr>, n)"
| "scan_endpoints sv sought (ep # eps) fs consumed n =
     (case get_paginated sv (''/'' @ ep) [(''s'', sought)] n of
        (Inl e, n') \<Rightarrow> (Inl e, n')
      | (Inr (items, used), n') \<Rightarrow>
          scan_endpoints sv sought eps
            (fs @ map (\<lambda>x. \<lparr>rw_endpoint = ep, rw_payload = x, rw_is_test = False, rw_asset_ref = []\<rparr>) items)
            (consumed + used) n')"

definition breachsense_scan :: "service \<Rightarrow> string \<Rightarrow> nat \<Rightarrow> (client_error + scan_result) \<times> nat" where
  "breachsense_scan sv sought n = scan_endpoints sv sought QUERY_ENDPOINTS [] 0 n"

definition decoded :: "(client_error + int \<times> body) \<times> nat \<Rightarrow> client_error + body" where
  "decoded r = (case fst r of Inl e \<Rightarrow> Inl e | Inr (st, b) \<Rightarrow> if b = Not_json then Inl Undecodable else Inr b)"

text \<open>\<open>response.get\<close>: an object, or no body at all; any other JSON value has no \<open>get\<close> and raises.\<close>

definition as_object :: "body \<Rightarrow> payload option" where
  "as_object b = (case b of Wrapped _ _ p \<Rightarrow> Some p | No_body \<Rightarrow> Some [] | _ \<Rightarrow> None)"

text \<open>Python's truth of a JSON value.\<close>

definition truthy :: "json \<Rightarrow> bool" where
  "truthy j = (case j of JNull \<Rightarrow> False | JBool b \<Rightarrow> b | JInt n \<Rightarrow> n \<noteq> 0 | JFloat t \<Rightarrow> t \<notin> {''0.0'', ''-0.0''}
     | JStr s \<Rightarrow> s \<noteq> [] | JArr js \<Rightarrow> js \<noteq> [] | JObj ps \<Rightarrow> ps \<noteq> [])"

text \<open>\<open>str(response.get("ref") or response.get("id") or value)\<close>.\<close>

definition ref_of :: "texts \<Rightarrow> payload \<Rightarrow> string \<Rightarrow> string" where
  "ref_of tx p v =
     (let pick = (\<lambda>k. case map_of p k of Some j \<Rightarrow> if truthy j then Some (py_str tx j) else None | None \<Rightarrow> None)
      in case pick ''ref'' of Some r \<Rightarrow> r | None \<Rightarrow> (case pick ''id'' of Some r \<Rightarrow> r | None \<Rightarrow> v))"

text \<open>Enrolling an asset in the pool of the licence: a 403 means that the pool is full.\<close>

definition breachsense_register :: "texts \<Rightarrow> service \<Rightarrow> string \<Rightarrow> nat \<Rightarrow> provider_error + string" where
  "breachsense_register tx sv v n =
     (case decoded (request sv ''/account'' [(''action'', ''add''), (''ast'', v)] n) of
        Inl Forbidden_error \<Rightarrow> Inl Pool_full
      | Inl _ \<Rightarrow> Inl Other_failure
      | Inr b \<Rightarrow> (case as_object b of None \<Rightarrow> Inl Other_failure | Some p \<Rightarrow> Inr (ref_of tx p v)))"

definition breachsense_unregister :: "service \<Rightarrow> string \<Rightarrow> nat \<Rightarrow> provider_error + unit" where
  "breachsense_unregister sv ref n =
     (case decoded (request sv ''/account'' [(''action'', ''del''), (''ast'', ref)] n) of
        Inl _ \<Rightarrow> Inl Other_failure
      | Inr _ \<Rightarrow> Inr ())"

text \<open>
  What the service says is left: a failure of the call leaves it unknown, a body without \<open>get\<close> or a
  value \<open>int\<close> refuses raises. A float is cut at its point.
\<close>

definition py_int_of :: "json \<Rightarrow> int option" where
  "py_int_of j =
     (case j of JInt k \<Rightarrow> Some k | JBool b \<Rightarrow> Some (if b then 1 else 0) | JStr s \<Rightarrow> py_int s
      | JFloat t \<Rightarrow> py_int (before (CHR ''.'') t) | _ \<Rightarrow> None)"

definition breachsense_remaining :: "service \<Rightarrow> nat \<Rightarrow> provider_error + int option" where
  "breachsense_remaining sv n =
     (case decoded (request sv ''/account'' [(''r'', ''1'')] n) of
        Inl _ \<Rightarrow> Inr None
      | Inr b \<Rightarrow>
          (case as_object b of
             None \<Rightarrow> Inl Other_failure
           | Some p \<Rightarrow>
               (case (case map_of p ''Remaining'' of Some j \<Rightarrow> Some j | None \<Rightarrow> map_of p ''remaining'') of
                  None \<Rightarrow> Inr None
                | Some JNull \<Rightarrow> Inr None
                | Some j \<Rightarrow> (case py_int_of j of None \<Rightarrow> Inl Other_failure | Some k \<Rightarrow> Inr (Some k)))))"

definition scan_for :: "service \<Rightarrow> nat \<Rightarrow> string \<Rightarrow> provider_error + scan_result" where
  "scan_for sv n sought = (case fst (breachsense_scan sv sought n) of Inl _ \<Rightarrow> Inl Other_failure | Inr r \<Rightarrow> Inr r)"

definition breachsense_provider :: "texts \<Rightarrow> service \<Rightarrow> nat \<Rightarrow> provider" where
  "breachsense_provider tx sv n =
     \<lparr>pv_scan_domain = scan_for sv n, pv_scan_email = scan_for sv n,
      pv_register = (\<lambda>v. breachsense_register tx sv v n), pv_unregister = (\<lambda>r. breachsense_unregister sv r n),
      pv_remaining = breachsense_remaining sv n\<rparr>"

text \<open>A delivery of the webhook: \<open>pop\<close> takes the three fields of the envelope out of each item.\<close>

definition pop :: "string \<Rightarrow> json \<Rightarrow> payload \<Rightarrow> json \<times> payload" where
  "pop k other p = ((case map_of p k of None \<Rightarrow> other | Some j \<Rightarrow> j), filter (\<lambda>x. fst x \<noteq> k) p)"

definition webhook_item :: "texts \<Rightarrow> payload \<Rightarrow> raw_finding" where
  "webhook_item tx p0 =
     (case pop ''ast'' (JStr []) p0 of (ast, p1) \<Rightarrow>
      case pop ''api'' (JStr ''webhook'') p1 of (api, p2) \<Rightarrow>
      case pop ''test'' (JBool False) p2 of (tst, p3) \<Rightarrow>
        \<lparr>rw_endpoint = py_str tx api, rw_payload = p3, rw_is_test = truthy tst, rw_asset_ref = py_str tx ast\<rparr>)"

definition normalize_webhook_payload :: "texts \<Rightarrow> payload list \<Rightarrow> raw_finding list" where
  "normalize_webhook_payload tx items = map (webhook_item tx) items"

section \<open>The other providers and the choice\<close>

definition null_provider :: provider where
  "null_provider =
     \<lparr>pv_scan_domain = (\<lambda>_. Inr \<lparr>sc_findings = [], sc_requests = 0\<rparr>),
      pv_scan_email = (\<lambda>_. Inr \<lparr>sc_findings = [], sc_requests = 0\<rparr>),
      pv_register = (\<lambda>_. Inl Not_configured), pv_unregister = (\<lambda>_. Inl Not_configured), pv_remaining = Inr None\<rparr>"

text \<open>The recorded answers, one file per domain, as a map from the name of the file.\<close>

type_synonym cassettes = "string \<Rightarrow> (string \<times> payload list) list option"

fun replace_colons :: "string \<Rightarrow> string" where
  "replace_colons s = map (\<lambda>c. if c = CHR ''/'' \<or> c = CHR '':'' then CHR ''_'' else c) s"

fun replace_scheme :: "string \<Rightarrow> string" where
  "replace_scheme [] = []"
| "replace_scheme (c # cs) =
     (if startswith (c # cs) ''://'' then CHR ''_'' # replace_scheme (drop 2 cs) else c # replace_scheme cs)"

definition slugify_domain :: "string \<Rightarrow> string" where
  "slugify_domain d = replace_colons (replace_scheme (lower (strip d)))"

definition replay_scan :: "cassettes \<Rightarrow> string \<Rightarrow> scan_result" where
  "replay_scan cs key =
     \<lparr>sc_findings = concat (map (\<lambda>(ep, items).
          map (\<lambda>x. \<lparr>rw_endpoint = ep, rw_payload = x, rw_is_test = False, rw_asset_ref = []\<rparr>) items)
        (case cs (slugify_domain key) of None \<Rightarrow> [] | Some eps \<Rightarrow> eps)),
      sc_requests = 0\<rparr>"

definition replay_provider :: "cassettes \<Rightarrow> int \<Rightarrow> provider" where
  "replay_provider cs remaining =
     \<lparr>pv_scan_domain = (\<lambda>d. Inr (replay_scan cs d)), pv_scan_email = (\<lambda>d. Inr (replay_scan cs d)),
      pv_register = (\<lambda>v. Inr (''replay-'' @ slugify_domain v)), pv_unregister = (\<lambda>_. Inr ()),
      pv_remaining = Inr (Some remaining)\<rparr>"

datatype mode = Live | Replay | Null_mode

text \<open>The value of the setting, or of the environment when the registry cannot be read.\<close>

definition resolve_mode :: "env \<Rightarrow> string \<Rightarrow> string \<Rightarrow> bool \<Rightarrow> mode" where
  "resolve_mode e env_mode license_key cassettes_available =
     (let configured = (case setting_value (e_environ e) (e_settings e) CTI_MODE of
            Some (TextV s) \<Rightarrow> s | Some NullV \<Rightarrow> [] | _ \<Rightarrow> env_mode);
          m = lower (strip (if configured = [] then ''auto'' else configured))
      in if m = ''live'' then (if license_key \<noteq> [] then Live else Null_mode)
         else if m = ''replay'' then Replay
         else if m = ''null'' then Null_mode
         else if cassettes_available then Replay else Null_mode)"

definition get_provider :: "mode \<Rightarrow> texts \<Rightarrow> service \<Rightarrow> nat \<Rightarrow> cassettes \<Rightarrow> int \<Rightarrow> provider" where
  "get_provider m tx sv n cs remaining =
     (case m of Live \<Rightarrow> breachsense_provider tx sv n | Replay \<Rightarrow> replay_provider cs remaining | Null_mode \<Rightarrow> null_provider)"

section \<open>Bounds\<close>

lemma tries_bound:
  "request_with_retries sv rq left n = (r, n') \<Longrightarrow> n < n' \<and> n' \<le> n + left + 1"
proof (induction left arbitrary: n)
  case (Suc left)
  show ?case
  proof (cases "request_with_retries sv rq left (n + 1) = (r, n')")
    case True
    from Suc.IH [OF this] show ?thesis by simp
  next
    case False
    with Suc.prems show ?thesis by (auto split: reply.splits if_splits)
  qed
qed (auto split: reply.splits)

lemma request_bound: "request sv path params n = (r, n') \<Longrightarrow> n < n' \<and> n' \<le> n + 4"
  unfolding request_def by (drule tries_bound) (simp add: MAX_RETRIES_def)

lemma pages_bound:
  "pages sv path params page items consumed n = (r, n') \<Longrightarrow> page \<le> 20 \<Longrightarrow>
   n' \<le> n + 4 * (21 - page) \<and> n < n' \<and>
   (\<forall>xs c. r = Inr (xs, c) \<longrightarrow> consumed < c \<and> c \<le> consumed + (21 - page) \<and> c - consumed \<le> n' - n)"
proof (induction sv path params page items consumed n rule: pages.induct)
  case (1 sv path params page items consumed n)
  let ?params = "params @ [(''p'', show_int (int page))]"
  obtain x n1 where x: "request sv path ?params n = (x, n1)" by fastforce
  note b = request_bound [OF x]
  note step = "1.prems"(1) [unfolded pages.simps [of sv path params page items consumed n] x prod.case]
  show ?case
  proof (cases x)
    case (Inl e)
    with step b "1.prems"(2) show ?thesis by auto
  next
    case (Inr sb)
    obtain st bd where sb: "sb = (st, bd)" by fastforce
    note step = step [unfolded Inr sb sum.case prod.case]
    consider (bad) "bd = Not_json" | (last) "bd \<noteq> Not_json" "st = 200 \<or> MAX_PAGINATION_PAGES \<le> page"
      | (more) "bd \<noteq> Not_json" "\<not> (st = 200 \<or> MAX_PAGINATION_PAGES \<le> page)" by blast
    then show ?thesis
    proof cases
      case more
      with step have rest: "pages sv path params (page + 1) (items @ extract_items bd) (consumed + 1) n1 = (r, n')" by simp
      have "page + 1 \<le> 20" using more by (simp add: MAX_PAGINATION_PAGES_def)
      from "1.IH" [OF x [symmetric] Inr sb [symmetric] more rest this] b this show ?thesis by auto
    qed (use step b "1.prems"(2) in auto)
  qed
qed

lemma endpoints_bound:
  "scan_endpoints sv sought eps fs consumed n = (r, n') \<Longrightarrow>
   n \<le> n' \<and> n' \<le> n + 80 * length eps \<and>
   (\<forall>res. r = Inr res \<longrightarrow> int consumed + int (length eps) \<le> sc_requests res \<and>
      sc_requests res \<le> int consumed + 20 * int (length eps) \<and> sc_requests res - int consumed \<le> int (n' - n))"
proof (induction eps arbitrary: fs consumed n)
  case (Cons ep eps)
  obtain x n1 where x: "get_paginated sv (''/'' @ ep) [(''s'', sought)] n = (x, n1)" by fastforce
  have b: "n1 \<le> n + 80" "n < n1" "\<And>xs c. x = Inr (xs, c) \<Longrightarrow> 0 < c \<and> c \<le> 20 \<and> c \<le> n1 - n"
    using pages_bound [OF x [unfolded get_paginated_def]] by auto
  show ?case
  proof (cases x)
    case (Inl e)
    with Cons.prems x b show ?thesis by auto
  next
    case (Inr ic)
    obtain xs c where ic: "ic = (xs, c)" by fastforce
    from Cons.prems x Inr ic have rest: "scan_endpoints sv sought eps (fs @ map (\<lambda>x. \<lparr>rw_endpoint = ep, rw_payload = x,
        rw_is_test = False, rw_asset_ref = []\<rparr>) xs) (consumed + c) n1 = (r, n')" by simp
    from Cons.IH [OF rest] b(1,2) b(3) [of xs c] Inr ic show ?thesis by auto
  qed
qed auto

section \<open>Properties\<close>

text \<open>
  C27: A scan costs a bounded number of requests: whatever the service answers, the nine endpoints take
  at most 720 tries, the loops of pages and retries always end, and a scan that succeeds reports
  between 9 and 180 requests, never more than were really made.
\<close>

theorem scan_requests_bounded:
  "(\<forall>r n'. breachsense_scan sv sought n = (r, n') \<longrightarrow> n \<le> n' \<and> n' \<le> n + 720) \<and>
   (\<forall>res n'. breachsense_scan sv sought n = (Inr res, n') \<longrightarrow>
      9 \<le> sc_requests res \<and> sc_requests res \<le> 180 \<and> sc_requests res \<le> int (n' - n))"
  using endpoints_bound [of sv sought QUERY_ENDPOINTS "[]" 0 n]
  by (auto simp: breachsense_scan_def QUERY_ENDPOINTS_def)

theorem scan_requests_bounded_witness:
  "\<exists>n'. breachsense_scan (\<lambda>n rq. Reply 200 No_body) ''a.fr'' 0 = (Inr \<lparr>sc_findings = [], sc_requests = 9\<rparr>, n') \<and> n' \<le> 720"
proof -
  have page: "get_paginated (\<lambda>n rq. Reply 200 No_body) p [(''s'', t)] n = (Inr ([], 1), n + 1)" for p t n
    by (simp add: get_paginated_def pages.simps request_def MAX_RETRIES_def numeral_3_eq_3 extract_items_def)
  then have run: "breachsense_scan (\<lambda>n rq. Reply 200 No_body) ''a.fr'' 0 = (Inr \<lparr>sc_findings = [], sc_requests = 9\<rparr>, 9)"
    by (simp add: breachsense_scan_def QUERY_ENDPOINTS_def)
  with scan_requests_bounded [of "\<lambda>n rq. Reply 200 No_body" "''a.fr''" 0] show ?thesis by (intro exI [of _ 9]) auto
qed

text \<open>Real requests only leave the platform when someone asked for them and a licence is there.\<close>

lemma live_is_asked_for:
  "resolve_mode e env_mode key cassettes = Live \<Longrightarrow>
   key \<noteq> [] \<and> (\<exists>s. lower (strip s) = ''live'' \<and>
     (s = env_mode \<or> setting_value (e_environ e) (e_settings e) CTI_MODE = Some (TextV s)))"
proof -
  assume live: "resolve_mode e env_mode key cassettes = Live"
  have auto: "lower (strip ''auto'') \<noteq> ''live''" by code_simp
  from live auto show ?thesis
    by (auto simp: resolve_mode_def Let_def split: if_splits option.splits setval.splits)
qed

end
