(* ===== verification/ScansSafety.thy ===== *)
theory ScansSafety
  imports Scans FindingsSafety Provider_Client
begin

text \<open>
  What the scans guarantee: a job that was delivered always ends, a delivery of a concluded job does
  nothing, an asset that fails takes nothing from the others, and the delay between two scans holds.
\<close>

section \<open>What an ingestion leaves alone\<close>

definition beside :: "ti \<Rightarrow> db \<times> scan_job list \<times> box \<times> (unit, int) cache \<times> (int, bool) cache \<times> asset list" where
  "beside t = (ti_db t, ti_jobs t, ti_inbox t, ti_remaining t, ti_cooldown t, mn_assets (ti_mon t))"

lemma open_or_update_alert_assets:
  "open_or_update_alert now m a ty sev det = (r, m') \<Longrightarrow> mn_assets m' = mn_assets m"
  by (auto simp: open_or_update_alert_def open_or_update_def Let_def split: prod.splits option.splits if_splits)

lemma save_finding_beside [simp]: "beside (save_finding f t) = beside t"
  by (simp add: beside_def save_finding_def)

lemma find_existing_beside: "find_existing_finding tenant n t = (r, t') \<Longrightarrow> beside t' = beside t"
  by (auto simp: find_existing_finding_def reconcile_legacy_finding_def Let_def split: option.splits if_splits)

lemma create_finding_beside: "create_finding s tenant asset n c t = (f, t') \<Longrightarrow> beside t' = beside t"
  by (auto simp: create_finding_def Let_def beside_def save_finding_def dest!: open_or_update_alert_assets split: prod.splits)

lemma ingest_one_beside:
  assumes "ingest_one s tenant asset raw (created, rep, t) = Inr (created', rep', t')"
  shows "beside t' = beside t"
proof (cases "rw_is_test raw")
  case True
  with assms show ?thesis by (simp add: ingest_one_test)
next
  case False
  define n where "n = normalize_finding (sd_texts s) (rw_endpoint raw) (rw_payload raw)"
  obtain r t1 where e: "find_existing_finding tenant n t = (r, t1)" by fastforce
  from assms False obtain c where c: "encrypt_breach_secret s (nf_secret_plain n) = Inr c"
    by (auto simp: ingest_one_def n_def Let_def rbind_Inr_iff)
  note one = assms [unfolded ingest_one_def prod.case n_def [symmetric] Let_def c rbind.simps e]
  obtain f t2 where cr: "create_finding s tenant asset n c t1 = (f, t2)" by fastforce
  have "t' = t2 \<or> (\<exists>g. t' = save_finding g t1)" using one cr False by (auto split: option.splits)
  with find_existing_beside [OF e] create_finding_beside [OF cr] show ?thesis by auto
qed

lemma ingest_loop_beside:
  "ingest_loop s tenant asset raws (created, rep, t) = (e, (created', rep', t')) \<Longrightarrow> beside t' = beside t"
proof (induction raws arbitrary: created rep t)
  case (Cons raw raws)
  show ?case
  proof (cases "ingest_one s tenant asset raw (created, rep, t)")
    case (Inr st)
    obtain c1 r1 t1 where st: "st = (c1, r1, t1)" by (metis prod_cases3)
    with Cons.IH [of c1 r1 t1] Cons.prems Inr ingest_one_beside [OF Inr [unfolded st]] show ?thesis by simp
  qed (use Cons.prems in simp)
qed simp

lemma ingest_beside:
  assumes "ingest_raw_findings s t tenant asset raws rep = (e, (created, rep', t'))"
  shows "beside t' = beside t"
proof -
  obtain e1 c1 r1 t1 where l: "ingest_loop s tenant asset raws ([], rep, t) = (e1, (c1, r1, t1))" by (metis prod_cases4)
  have "beside t' = beside t1"
    using assms l by (auto simp: ingest_raw_findings_def beside_def mark_synthesis_stale_def split: option.splits if_splits)
  with ingest_loop_beside [OF l] show ?thesis by simp
qed

section \<open>A batch\<close>

lemma scan_asset_beside: "beside (ba_ti (scan_asset s p tenant a d b)) = beside (ba_ti b)"
  by (auto simp: scan_asset_def dest!: ingest_beside split: sum.splits prod.splits option.splits)

lemma scan_assets_beside:
  "scan_assets s pv k tenant as b = (e, b') \<Longrightarrow> beside (ba_ti b') = beside (ba_ti b)"
proof (induction as arbitrary: k b)
  case (Cons a as)
  then show ?case by (cases "asset_domain a") (fastforce simp: scan_asset_beside)+
qed simp

lemma scan_assets_failed:
  "scan_assets s pv k tenant as b = (None, b') \<Longrightarrow>
   length (ba_failed b') \<le> length (ba_failed b) + length as \<and> ba_created b \<le> ba_created b'"
proof (induction as arbitrary: k b)
  case (Cons a as)
  then obtain d where d: "asset_domain a = Some d" and r: "scan_assets s pv (k + 1) tenant as (scan_asset s (pv k) tenant a d b) = (None, b')"
    by (auto split: option.splits)
  have "length (ba_failed (scan_asset s (pv k) tenant a d b)) \<le> length (ba_failed b) + 1 \<and>
      ba_created b \<le> ba_created (scan_asset s (pv k) tenant a d b)"
    by (auto simp: scan_asset_def split: sum.splits prod.splits option.splits)
  with Cons.IH [OF r] show ?case by simp
qed simp

lemma scan_assets_error: "scan_assets s pv k tenant as b = (Some e, b') \<Longrightarrow> e = Unreadable_url"
  by (induction as arbitrary: k b) (auto split: option.splits)

lemma get_remaining_shape:
  "get_remaining s p t f = (r, t') \<Longrightarrow> t' = t \<or> (\<exists>n. t' = cache_remaining s n t)"
  by (auto simp: get_remaining_def split: option.splits sum.splits if_splits)

lemma execute_scan_jobs:
  assumes "execute_scan s pv t tenant as trig = (r, t')"
  shows "ti_jobs t' = ti_jobs t \<and> d_tenants (ti_db t') = d_tenants (ti_db t) \<and>
    d_monitored (ti_db t') = d_monitored (ti_db t) \<and> d_seq (ti_db t') = d_seq (ti_db t)"
proof -
  let ?b0 = "\<lparr>ba_created = 0, ba_requests = 0, ba_failed = [], ba_report = empty_report, ba_ti = t\<rparr>"
  obtain e b where b: "scan_assets s pv 0 (te_id tenant) as ?b0 = (e, b)" by fastforce
  have keep: "ti_jobs (ba_ti b) = ti_jobs t" "ti_db (ba_ti b) = ti_db t"
    using scan_assets_beside [OF b] by (simp_all add: beside_def)
  have usage: "ti_jobs (record_usage s u ten ep rq rm tr c) = ti_jobs u \<and>
      d_tenants (ti_db (record_usage s u ten ep rq rm tr c)) = d_tenants (ti_db u) \<and>
      d_monitored (ti_db (record_usage s u ten ep rq rm tr c)) = d_monitored (ti_db u) \<and>
      d_seq (ti_db (record_usage s u ten ep rq rm tr c)) = d_seq (ti_db u)" for u ten ep rq rm tr c
    by (auto simp: record_usage_def cache_remaining_def Let_def split: option.split)
  have cool: "ti_jobs (mark_scan_cooldown s u tenant) = ti_jobs u \<and> ti_db (mark_scan_cooldown s u tenant) = ti_db u" for u
    by (simp add: mark_scan_cooldown_def Let_def)
  have left: "ti_jobs u' = ti_jobs u \<and> ti_db u' = ti_db u" if "get_remaining s p u f = (x, u')" for p u f x u'
    using get_remaining_shape [OF that] by (auto simp: cache_remaining_def)
  show ?thesis
  proof (cases e)
    case (Some x)
    with assms b keep show ?thesis by (simp add: execute_scan_def)
  next
    case None
    obtain x u where x: "record_batch s (pv (length as)) (te_id tenant) trig b = (x, u)" by fastforce
    have "ti_jobs u = ti_jobs (ba_ti b) \<and> d_tenants (ti_db u) = d_tenants (ti_db (ba_ti b)) \<and>
        d_monitored (ti_db u) = d_monitored (ti_db (ba_ti b)) \<and> d_seq (ti_db u) = d_seq (ti_db (ba_ti b))"
      using x usage by (auto simp: record_batch_def split: prod.splits sum.splits if_splits dest!: left)
    with assms b None x cool keep show ?thesis
      by (auto simp: execute_scan_def Let_def split: sum.splits if_splits)
  qed
qed

section \<open>An asset that fails\<close>

definition answers :: "provider \<Rightarrow> asset \<Rightarrow> bool" where
  "answers p a =
     (case asset_domain a of None \<Rightarrow> False | Some d \<Rightarrow> (case pv_scan_domain p d of Inl _ \<Rightarrow> False | Inr _ \<Rightarrow> True))"

lemma scan_asset_failed_list:
  "\<exists>fs. scan_asset s p tenant a d (b\<lparr>ba_failed := gs\<rparr>) = (scan_asset s p tenant a d b)\<lparr>ba_failed := gs @ fs\<rparr> \<and>
     ba_failed (scan_asset s p tenant a d b) = ba_failed b @ fs"
  by (auto simp: scan_asset_def split: sum.splits prod.splits option.splits)

lemma scan_assets_failed_list:
  "\<exists>fs. scan_assets s pv k tenant as (b\<lparr>ba_failed := gs\<rparr>) =
      (fst (scan_assets s pv k tenant as b), (snd (scan_assets s pv k tenant as b))\<lparr>ba_failed := gs @ fs\<rparr>) \<and>
     ba_failed (snd (scan_assets s pv k tenant as b)) = ba_failed b @ fs"
proof (induction as arbitrary: k b gs)
  case Nil
  then show ?case by simp
next
  case (Cons a as)
  show ?case
  proof (cases "asset_domain a")
    case None
    then show ?thesis by simp
  next
    case (Some d)
    obtain fs where fs: "scan_asset s (pv k) tenant a d (b\<lparr>ba_failed := gs\<rparr>) = (scan_asset s (pv k) tenant a d b)\<lparr>ba_failed := gs @ fs\<rparr>"
      "ba_failed (scan_asset s (pv k) tenant a d b) = ba_failed b @ fs"
      using scan_asset_failed_list by blast
    obtain hs where "scan_assets s pv (k + 1) tenant as ((scan_asset s (pv k) tenant a d b)\<lparr>ba_failed := gs @ fs\<rparr>) =
        (fst (scan_assets s pv (k + 1) tenant as (scan_asset s (pv k) tenant a d b)),
         (snd (scan_assets s pv (k + 1) tenant as (scan_asset s (pv k) tenant a d b)))\<lparr>ba_failed := (gs @ fs) @ hs\<rparr>)"
      "ba_failed (snd (scan_assets s pv (k + 1) tenant as (scan_asset s (pv k) tenant a d b))) =
       ba_failed (scan_asset s (pv k) tenant a d b) @ hs"
      using Cons.IH [where k = "k + 1" and b = "scan_asset s (pv k) tenant a d b" and gs = "gs @ fs"] by blast
    then show ?thesis using Some fs by (intro exI [of _ "fs @ hs"]) simp
  qed
qed

text \<open>With one provider for the whole batch, the assets it does not answer for only add their name.\<close>

lemma scan_assets_answering:
  assumes "\<forall>a \<in> set as. asset_domain a \<noteq> None"
  shows "\<exists>gs. scan_assets s (\<lambda>_. p) k tenant as b =
      (None, (snd (scan_assets s (\<lambda>_. p) k' tenant (filter (answers p) as) b))\<lparr>ba_failed := gs\<rparr>) \<and>
    fst (scan_assets s (\<lambda>_. p) k' tenant (filter (answers p) as) b) = None \<and>
    length gs = length (ba_failed (snd (scan_assets s (\<lambda>_. p) k' tenant (filter (answers p) as) b))) +
      length (filter (\<lambda>a. \<not> answers p a) as) \<and>
    set gs = set (ba_failed (snd (scan_assets s (\<lambda>_. p) k' tenant (filter (answers p) as) b))) \<union>
      at_value ` {a \<in> set as. \<not> answers p a}"
  using assms
proof (induction as arbitrary: k k' b)
  case Nil
  show ?case by (intro exI [of _ "ba_failed b"]) simp
next
  case (Cons a as)
  then obtain d where d: "asset_domain a = Some d" by auto
  show ?case
  proof (cases "answers p a")
    case True
    have "{x \<in> set (a # as). \<not> answers p x} = {x \<in> set as. \<not> answers p x}" using True by auto
    with Cons.IH [where k = "k + 1" and b = "scan_asset s p tenant a d b" and k' = "k' + 1"] Cons.prems d True show ?thesis
      by simp
  next
    case False
    with d obtain e where e: "pv_scan_domain p d = Inl e" by (auto simp: answers_def split: sum.splits)
    let ?b = "b\<lparr>ba_failed := ba_failed b @ [at_value a]\<rparr>"
    have one: "scan_asset s p tenant a d b = ?b" by (simp add: scan_asset_def e)
    let ?r = "\<lambda>b. scan_assets s (\<lambda>_. p) k' tenant (filter (answers p) as) b"
    obtain fs where fs: "?r ?b = (fst (?r b), (snd (?r b))\<lparr>ba_failed := (ba_failed b @ [at_value a]) @ fs\<rparr>)"
      "ba_failed (snd (?r b)) = ba_failed b @ fs"
      using scan_assets_failed_list [where s = s and pv = "\<lambda>_. p" and k = k' and tenant = tenant and as = "filter (answers p) as"
        and b = b and gs = "ba_failed b @ [at_value a]"] by blast
    obtain gs where gs: "scan_assets s (\<lambda>_. p) (k + 1) tenant as ?b = (None, (snd (?r ?b))\<lparr>ba_failed := gs\<rparr>)"
      "fst (?r ?b) = None" "length gs = length (ba_failed (snd (?r ?b))) + length (filter (\<lambda>a. \<not> answers p a) as)"
      "set gs = set (ba_failed (snd (?r ?b))) \<union> at_value ` {a \<in> set as. \<not> answers p a}"
      using Cons.IH [where k = "k + 1" and b = ?b and k' = k'] Cons.prems by auto
    have scan: "scan_assets s (\<lambda>_. p) k tenant (a # as) b = (None, (snd (?r b))\<lparr>ba_failed := gs\<rparr>)"
      using gs(1) d one fs(1) by simp
    have "set gs = set (ba_failed (snd (?r b))) \<union> at_value ` {x \<in> set (a # as). \<not> answers p x}"
      using gs(4) fs False by auto
    moreover have "length gs = length (ba_failed (snd (?r b))) + length (filter (\<lambda>a. \<not> answers p a) (a # as))"
      using gs(3) fs False by simp
    moreover have "fst (?r b) = None" using gs(2) fs(1) by simp
    ultimately show ?thesis using scan False by (intro exI [of _ gs]) simp
  qed
qed

section \<open>Jobs\<close>

lemma job_row_save: "(\<And>j. jb_id (f j) = jb_id j) \<Longrightarrow> job_row (save_job f i t) i = map_option f (job_row t i)"
proof -
  assume f: "\<And>j. jb_id (f j) = jb_id j"
  have "find (\<lambda>j. jb_id j = i) (upd_where (\<lambda>j. jb_id j = i) f js) = map_option f (find (\<lambda>j. jb_id j = i) js)" for js
    by (induction js) (auto simp: f)
  then show ?thesis by (simp add: job_row_def save_job_def)
qed

lemma job_row_id: "job_row t i = Some j \<Longrightarrow> jb_id j = i"
  by (auto simp: job_row_def dest: find_SomeD)

definition ended :: "scan_job \<Rightarrow> bool" where
  "ended j = (jb_status j \<in> {Finished, Failed})"

text \<open>One run over a job that is not concluded: it asks again and leaves it running, or concludes it.\<close>

lemma deliver_open:
  assumes "tenant_row t tenant = Some tn" and "job_row t i = Some j" and "\<not> ended j"
    and "deliver_scan s pv t tenant a trig (Some i) retries = (r, t')"
  shows "(r = Again \<and> retries < SCAN_MAX_RETRIES \<and> (\<exists>j'. job_row t' i = Some j' \<and> \<not> ended j') \<and> tenant_row t' tenant = Some tn) \<or>
    (r \<noteq> Again \<and> (\<exists>j'. job_row t' i = Some j' \<and> ended j' \<and> jb_finished_at j' = Some (sd_now s) \<and>
       (jb_status j' = Failed \<longrightarrow> jb_error j' = SCAN_FAILED)))"
proof -
  have id: "jb_id j = i" using job_row_id [OF assms(2)] .
  let ?j = "j\<lparr>jb_status := Running\<rparr>"
  let ?t = "save_job (\<lambda>r. r\<lparr>jb_status := Running\<rparr>) i t"
  have row: "job_row ?t i = Some ?j" using assms(2) by (simp add: job_row_save)
  have ten: "tenant_row ?t tenant = Some tn" using assms(1) by (simp add: tenant_row_def save_job_def)
  have open': "jb_status j \<notin> {Finished, Failed}" using assms(3) by (simp add: ended_def)
  let ?assets = "scannable_assets ?t tenant (asset_row ?t a)"
  have step: "deliver_scan s pv t tenant a trig (Some i) retries = (if ?assets = [] then (Over None, conclude s ?t (Some ?j) [(''findings_created'', JInt 0)])
      else case execute_scan s pv ?t tn ?assets trig of
          (Inl e, t2) \<Rightarrow> if retries < SCAN_MAX_RETRIES then (Again, t2) else (Over None, snd (mark_job_failed s t2 ?j SCAN_FAILED))
        | (Inr result, t2) \<Rightarrow> (Over (Some result), conclude s t2 (Some ?j) result))"
    using open' by (simp add: deliver_scan_def assms(1,2) mark_job_running_def id Let_def split: prod.split sum.split)
  note step = step [unfolded assms(4)]
  have finished: "\<exists>j'. job_row (conclude s u (Some ?j) res) i = Some j' \<and> ended j' \<and> jb_finished_at j' = Some (sd_now s) \<and>
      (jb_status j' = Failed \<longrightarrow> jb_error j' = SCAN_FAILED)" if "job_row u i = Some ?j" for u res
    using that by (simp add: conclude_def mark_job_done_def Let_def id job_row_save ended_def)
  have lost: "\<exists>j'. job_row (snd (mark_job_failed s u ?j SCAN_FAILED)) i = Some j' \<and> ended j' \<and> jb_finished_at j' = Some (sd_now s) \<and>
      (jb_status j' = Failed \<longrightarrow> jb_error j' = SCAN_FAILED)" if "job_row u i = Some ?j" for u
    using that by (simp add: mark_job_failed_def Let_def id job_row_save ended_def)
  show ?thesis
  proof (cases "?assets = []")
    case True
    with step finished [OF row] show ?thesis by simp
  next
    case False
    obtain x u where x: "execute_scan s pv ?t tn ?assets trig = (x, u)" by fastforce
    have u: "job_row u i = Some ?j" "tenant_row u tenant = Some tn"
      using execute_scan_jobs [OF x] row ten by (simp_all add: job_row_def tenant_row_def)
    show ?thesis
    proof (cases x)
      case (Inl e)
      have "\<not> ended ?j" by (simp add: ended_def)
      with False step x Inl u lost [OF u(1)] show ?thesis by (cases "retries < SCAN_MAX_RETRIES") auto
    next
      case (Inr res)
      with False step x finished [OF u(1)] show ?thesis by simp
    qed
  qed
qed

lemma deliver_ended:
  "job_row t i = Some j \<Longrightarrow> ended j \<Longrightarrow> deliver_scan s pv t tenant a trig (Some i) retries = (Over None, t)"
  by (auto simp: deliver_scan_def ended_def split: option.split)

lemma task_ends:
  assumes "\<And>r u. job_row (others r u) i = job_row u i" and "\<And>r u. tenant_row (others r u) tenant = tenant_row u tenant"
    and "tenant_row t tenant = Some tn" and "job_row t i = Some j" and "\<not> ended j" and "left + retries = SCAN_MAX_RETRIES"
    and "run_breach_scan_task ss pv others tenant a trig (Some i) retries left t = (r, t')"
  shows "\<exists>j'. job_row t' i = Some j' \<and> ended j' \<and> jb_finished_at j' \<noteq> None \<and> (jb_status j' = Failed \<longrightarrow> jb_error j' = SCAN_FAILED)"
  using assms(3-7)
proof (induction left arbitrary: retries t j)
  case 0
  obtain d u where d: "deliver_scan (ss retries) (pv retries) (others retries t) tenant a trig (Some i) retries = (d, u)" by fastforce
  have "tenant_row (others retries t) tenant = Some tn" "job_row (others retries t) i = Some j" using 0 assms(1,2) by simp_all
  from deliver_open [OF this \<open>\<not> ended j\<close> d] 0 d show ?case by (auto split: delivery.splits)
next
  case (Suc left)
  obtain d u where d: "deliver_scan (ss retries) (pv retries) (others retries t) tenant a trig (Some i) retries = (d, u)" by fastforce
  have "tenant_row (others retries t) tenant = Some tn" "job_row (others retries t) i = Some j" using Suc assms(1,2) by simp_all
  note o = deliver_open [OF this \<open>\<not> ended j\<close> d]
  show ?case
  proof (cases d)
    case Again
    with o obtain j' where "job_row u i = Some j'" "\<not> ended j'" "tenant_row u tenant = Some tn" by auto
    from Suc.IH [OF this(3,1,2), of "retries + 1"] Suc.prems d Again show ?thesis by simp
  next
    case (Over x)
    with o Suc.prems d show ?thesis by auto
  qed
qed

section \<open>Properties\<close>

text \<open>
  C23: A scan job never hangs: whatever the provider answers at each call, whatever happens to the other
  tables between two runs, once the task of a job was delivered with its retries the job is finished or
  failed, dated, and a failure carries the sentence written for the client, never the provider's. The
  task of a job that is already concluded changes nothing.
\<close>

theorem scan_job_ends:
  assumes "tenant_row t tenant = Some tn" and "job_row t i = Some j"
    and "\<And>r u. job_row (others r u) i = job_row u i" and "\<And>r u. tenant_row (others r u) tenant = tenant_row u tenant"
    and "run_breach_scan_task ss pv others tenant a trig (Some i) 0 SCAN_MAX_RETRIES t = (r, t')"
  shows "if jb_status j \<in> {Finished, Failed} then r = None \<and> t' = others 0 t
    else \<exists>j'. job_row t' i = Some j' \<and> jb_status j' \<in> {Finished, Failed} \<and> jb_finished_at j' \<noteq> None \<and>
      (jb_status j' = Failed \<longrightarrow> jb_error j' = SCAN_FAILED)"
proof (cases "ended j")
  case True
  with assms(2,3) have "deliver_scan (ss 0) (pv 0) (others 0 t) tenant a trig (Some i) 0 = (Over None, others 0 t)"
    by (intro deliver_ended [of _ i j]) simp_all
  then have "run_breach_scan_task ss pv others tenant a trig (Some i) 0 SCAN_MAX_RETRIES t = (None, others 0 t)"
    by (simp add: SCAN_MAX_RETRIES_def numeral_2_eq_2)
  with assms(5) True show ?thesis by (simp add: ended_def)
next
  case False
  from task_ends [OF assms(3,4,1,2) False _ assms(5)] False show ?thesis by (simp add: ended_def)
qed

definition sample_job :: scan_job where
  "sample_job = \<lparr>jb_id = 1, jb_tenant = 7, jb_asset = None, jb_status = Pending, jb_triggered_by = Manual, jb_scope = Assets,
     jb_result = [], jb_error = [], jb_created_at = 0, jb_finished_at = None\<rparr>"

definition sample_company :: tenant where
  "sample_company = \<lparr>te_id = 7, te_name = ''Atelier'', te_slug = ''atelier'', te_sector = [], te_headcount = None,
     te_is_active = True, te_ai_enabled = False, te_scan_cooldown_minutes = Some 60, te_contact_email = [],
     te_contact_phone = [], te_address = [], te_website = [], te_account_manager = [], te_internal_notes = [],
     te_archived_at = None, te_archived_by = None, te_archive_reason = []\<rparr>"

definition sample_asset :: asset where
  "sample_asset = \<lparr>at_id = 1, at_tenant = 7, at_type = Email_domain, at_value = ''a.fr'', at_active = True, at_created_by = None\<rparr>"

definition sample_scans :: ti where
  "sample_scans = sample_ti\<lparr>ti_seq := 1, ti_jobs := [sample_job], ti_db := empty_db\<lparr>d_tenants := [sample_company]\<rparr>,
     ti_mon := sample_mon\<lparr>mn_assets := [sample_asset]\<rparr>\<rparr>"

text \<open>A provider that never answers.\<close>

definition dead_provider :: provider where
  "dead_provider = breachsense_provider demo_texts (\<lambda>n rq. Unreachable) 0"

theorem scan_job_ends_witness:
  "\<exists>r t' j'. run_breach_scan_task (\<lambda>_. sample) (\<lambda>_ _. dead_provider) (\<lambda>_ u. u) 7 None Manual (Some 1) 0 SCAN_MAX_RETRIES sample_scans = (r, t') \<and>
     job_row t' 1 = Some j' \<and> jb_status j' \<in> {Finished, Failed} \<and> jb_finished_at j' \<noteq> None"
proof -
  obtain r t' where run: "run_breach_scan_task (\<lambda>_. sample) (\<lambda>_ _. dead_provider) (\<lambda>_ u. u) 7 None Manual (Some 1) 0
      SCAN_MAX_RETRIES sample_scans = (r, t')" by fastforce
  have "tenant_row sample_scans 7 = Some sample_company" "job_row sample_scans 1 = Some sample_job"
    by (simp_all add: tenant_row_def job_row_def sample_scans_def sample_company_def sample_job_def)
  from scan_job_ends [OF this _ _ run] run show ?thesis by (simp add: sample_job_def) blast
qed

lemma answering_alone:
  assumes "\<forall>a \<in> set as. asset_domain a \<noteq> None"
    and "execute_scan s (\<lambda>_. p) t tn as trig = (r, t')"
    and "execute_scan s (\<lambda>_. p) t tn (filter (answers p) as) trig = (r', t'')"
  shows "t' = t'' \<and>
    (filter (answers p) as \<noteq> [] \<longrightarrow> (\<forall>j'. r' = Inr j' \<longrightarrow>
      (\<exists>j fs. r = Inr j \<and> map_of j ''assets_en_echec'' = Some (JArr (map JStr fs)) \<and>
         at_value ` {a \<in> set as. \<not> answers p a} \<subseteq> set fs \<and>
         (\<forall>k. k \<noteq> ''assets_en_echec'' \<longrightarrow> map_of j k = map_of j' k))))"
proof -
  let ?b = "\<lparr>ba_created = 0, ba_requests = 0, ba_failed = [], ba_report = empty_report, ba_ti = t\<rparr>"
  obtain e b' where b': "scan_assets s (\<lambda>_. p) 0 (te_id tn) (filter (answers p) as) ?b = (e, b')" by fastforce
  from scan_assets_answering [OF assms(1), of s p 0 "te_id tn" ?b 0] b'
  obtain gs where gs: "scan_assets s (\<lambda>_. p) 0 (te_id tn) as ?b = (None, b'\<lparr>ba_failed := gs\<rparr>)" and e: "e = None"
    and len: "length gs = length (ba_failed b') + length (filter (\<lambda>a. \<not> answers p a) as)"
    and set: "set gs = set (ba_failed b') \<union> at_value ` {a \<in> set as. \<not> answers p a}" by auto
  have all: "length as = length (filter (answers p) as) + length (filter (\<lambda>a. \<not> answers p a) as)"
    by (simp add: sum_length_filter_compl)
  obtain x t2 where x: "record_batch s p (te_id tn) trig b' = (x, t2)" by fastforce
  have "record_batch s p (te_id tn) trig (b'\<lparr>ba_failed := gs\<rparr>) = record_batch s p (te_id tn) trig b'"
    by (simp add: record_batch_def split: sum.split prod.split)
  with x have x': "record_batch s p (te_id tn) trig (b'\<lparr>ba_failed := gs\<rparr>) = (x, t2)" by simp
  define t3 where "t3 = (if trig = Manual then mark_scan_cooldown s t2 tn else t2)"
  have run: "execute_scan s (\<lambda>_. p) t tn as trig = (case x of Inl e \<Rightarrow> (Inl e, t2) | Inr _ \<Rightarrow>
      (if gs \<noteq> [] \<and> ba_created b' = 0 \<and> length gs = length as then Inl (Scan_impossible gs)
       else Inr (scan_result_json (b'\<lparr>ba_failed := gs\<rparr>)), t3))"
    by (simp add: execute_scan_def gs x' t3_def Let_def split: sum.split)
  have run': "execute_scan s (\<lambda>_. p) t tn (filter (answers p) as) trig = (case x of Inl e \<Rightarrow> (Inl e, t2) | Inr _ \<Rightarrow>
      (if ba_failed b' \<noteq> [] \<and> ba_created b' = 0 \<and> length (ba_failed b') = length (filter (answers p) as)
       then Inl (Scan_impossible (ba_failed b')) else Inr (scan_result_json b'), t3))"
    by (simp add: execute_scan_def b' e x t3_def Let_def split: sum.split)
  have "t' = t''" using assms(2,3) run run' by (cases x) auto
  moreover have "\<exists>j fs. r = Inr j \<and> map_of j ''assets_en_echec'' = Some (JArr (map JStr fs)) \<and>
         at_value ` {a \<in> set as. \<not> answers p a} \<subseteq> set fs \<and>
         (\<forall>k. k \<noteq> ''assets_en_echec'' \<longrightarrow> map_of j k = map_of j' k)"
    if some: "filter (answers p) as \<noteq> []" and ok: "r' = Inr j'" for j'
  proof -
    from ok assms(3) run' obtain u where u: "x = Inr u" by (cases x) auto
    from ok assms(3) run' u have j': "j' = scan_result_json b'" and
      part: "\<not> (ba_failed b' \<noteq> [] \<and> ba_created b' = 0 \<and> length (ba_failed b') = length (filter (answers p) as))"
      by (auto split: if_splits)
    have "\<not> (gs \<noteq> [] \<and> ba_created b' = 0 \<and> length gs = length as)" using part some len all by auto
    with run u assms(2) have "r = Inr (scan_result_json (b'\<lparr>ba_failed := gs\<rparr>))" by simp
    with j' set show ?thesis
      by (intro exI [of _ "scan_result_json (b'\<lparr>ba_failed := gs\<rparr>)"] exI [of _ gs]) (auto simp: scan_result_json_def)
  qed
  ultimately show ?thesis by blast
qed

lemma scan_assets_unreadable:
  "a \<in> set as \<Longrightarrow> asset_domain a = None \<Longrightarrow> fst (scan_assets s pv k tenant as b) = Some Unreadable_url"
  by (induction as arbitrary: k b) (auto split: option.split)


text \<open>A provider that answers for one domain and fails for another.\<close>

definition one_domain_provider :: provider where
  "one_domain_provider = dead_provider\<lparr>pv_scan_domain := (\<lambda>d. if d = ''a.fr'' then Inr \<lparr>sc_findings = [], sc_requests = 3\<rparr>
     else Inl Other_failure), pv_remaining := Inr (Some 900)\<rparr>"


text \<open>
  After a scan asked by hand that came to its end, no other scan by hand is accepted for the company
  before the delay of the company has passed, whatever is done in between to the other tables; a
  scan started by the operator or by a new asset never waits; and once the delay has passed nothing of it stands in the way.
\<close>

theorem manual_delay_holds:
  assumes "execute_scan s pv t tn as Manual = (r, t')" and "(\<exists>j. r = Inr j) \<or> (\<exists>fs. r = Inl (Scan_impossible fs))"
    and "0 < scan_cooldown_minutes s tn" and "0 < scan_cooldown_minutes s' tn" and "ti_cooldown u = ti_cooldown t'"
  shows "if sd_now s' < sd_now s + scan_cooldown_minutes s tn * 60 * second
    then create_scan_job s' p u tn a Manual = (Inl Cooldown_active, u) \<and>
      (\<forall>x. x \<noteq> Manual \<longrightarrow> fst (create_scan_job s' p u tn a x) \<noteq> Inl Cooldown_active)
    else ensure_scan_cooldown_elapsed s' u tn = Inr ()"
proof -
  have "\<exists>v. ti_cooldown t' = cache_set (sd_now s) (te_id tn) True (scan_cooldown_minutes s tn * 60) v"
    using assms(1,2,3) by (auto simp: execute_scan_def mark_scan_cooldown_def Let_def record_batch_def get_remaining_def
        dest!: scan_assets_error split: prod.splits option.splits sum.splits if_splits)
  then have "cache_get (sd_now s') (ti_cooldown u) (te_id tn) =
     (if sd_now s' < sd_now s + scan_cooldown_minutes s tn * 60 * second then Some True else None)"
    by (auto simp: assms(5) cache_get_def cache_set_def)
  with assms(4) show ?thesis
    by (auto simp: create_scan_job_def ensure_scan_cooldown_elapsed_def ensure_query_budget_available_def get_remaining_def
        Let_def split: prod.splits option.splits sum.splits if_splits)
qed

theorem manual_delay_holds_example:
  "\<exists>u. fst (create_scan_job (sample\<lparr>sd_env := sample_env\<lparr>e_now := sd_now sample + 59 * 60 * second\<rparr>\<rparr>) one_domain_provider u
      sample_company None Manual) = Inl Cooldown_active"
proof -
  let ?s = "sample\<lparr>sd_env := sample_env\<lparr>e_now := sd_now sample + 59 * 60 * second\<rparr>\<rparr>"
  obtain r t' where r: "execute_scan sample (\<lambda>_. one_domain_provider) sample_scans sample_company [sample_asset] Manual = (r, t')"
    by fastforce
  then have ok: "(\<exists>j. r = Inr j) \<or> (\<exists>fs. r = Inl (Scan_impossible fs))"
    by (auto simp: execute_scan_def Let_def record_batch_def get_remaining_def scan_asset_def asset_domain_def sample_asset_def
        one_domain_provider_def ingest_raw_findings_def split: option.splits sum.splits prod.splits if_splits)
  have d: "0 < scan_cooldown_minutes sample sample_company" "0 < scan_cooldown_minutes ?s sample_company"
    and now: "sd_now ?s < sd_now sample + scan_cooldown_minutes sample sample_company * 60 * second"
    by (simp_all add: scan_cooldown_minutes_def sample_company_def)
  show ?thesis using manual_delay_holds [OF r ok d refl, of one_domain_provider None] now by (intro exI [of _ t']) simp
qed

end
