(* ===== verification/Pool.thy ===== *)
theory Pool
  imports ScansSafety
begin

text \<open>
  Continuous monitoring (threat_intelligence/services.py, views.py, webhook_auth.py): the pool of the
  places of the licence, shared by all the companies, the registration of an asset in it, the webhook
  the provider posts to, and the guards of the views that spend the licence. A registration asks for the
  proof that the company owns the asset before anything leaves the platform.
\<close>

section \<open>The pool\<close>

definition pool_used :: "ti \<Rightarrow> int" where
  "pool_used t = int (length (filter mo_is_active (d_monitored (ti_db t))))"

definition pool_capacity_remaining :: "surroundings \<Rightarrow> ti \<Rightarrow> int" where
  "pool_capacity_remaining s t = max 0 (sd_pool_size s - pool_used t)"

definition pool_summary :: "surroundings \<Rightarrow> ti \<Rightarrow> int \<times> int \<times> int" where
  "pool_summary s t = (pool_used t, sd_pool_size s, max 0 (sd_pool_size s - pool_used t))"

definition list_monitored_assets :: "ti \<Rightarrow> int \<Rightarrow> monitored_asset list" where
  "list_monitored_assets t tenant = filter (\<lambda>m. mo_tenant m = tenant \<and> mo_is_active m) (d_monitored (ti_db t))"

text \<open>
  The row is unique by asset and by reference, the rows no longer active included: the insertion that
  breaks this raises, after the call to the provider.
\<close>

definition create_monitored_asset :: "ti \<Rightarrow> int \<Rightarrow> int \<Rightarrow> string \<Rightarrow> monitored_asset outcome" where
  "create_monitored_asset t tenant asset ref =
     (if \<exists>m \<in> set (d_monitored (ti_db t)). mo_asset m = asset \<or> mo_provider_ref m = ref then (Inl Second_row, t)
      else (let d = ti_db t;
                m = \<lparr>mo_id = d_seq d + 1, mo_tenant = tenant, mo_asset = asset, mo_provider_ref = ref,
                     mo_provider_asset_type = ''domain'', mo_is_active = True\<rparr>
            in (Inr m, t\<lparr>ti_db := d\<lparr>d_seq := d_seq d + 1, d_monitored := m # d_monitored d\<rparr>\<rparr>)))"

definition register_monitored_asset :: "surroundings \<Rightarrow> provider \<Rightarrow> ti \<Rightarrow> int \<Rightarrow> asset \<Rightarrow> monitored_asset outcome" where
  "register_monitored_asset s p t tenant a =
     (if at_tenant a \<noteq> tenant then (Inl Foreign_asset, t)
      else if \<not> is_ownership_proven (ti_mon t) (at_id a) then (Inl Ownership_missing, t)
      else if \<exists>m \<in> set (d_monitored (ti_db t)). mo_asset m = at_id a \<and> mo_is_active m then (Inl Already_monitored, t)
      else if sd_callback_url s = [] then (Inl Webhook_not_configured, t)
      else if pool_capacity_remaining s t \<le> 0 then (Inl Provider_pool_full, t)
      else case asset_domain a of
             None \<Rightarrow> (Inl Unreadable_url, t)
           | Some domain \<Rightarrow>
               (case pv_register p domain of
                  Inl Pool_full \<Rightarrow> (Inl Provider_pool_full, t)
                | Inl Not_configured \<Rightarrow> (Inl Webhook_not_configured, t)
                | Inl e \<Rightarrow> (Inl (Provider_failed e), t)
                | Inr ref \<Rightarrow> create_monitored_asset t tenant (at_id a) ref))"

definition unregister_monitored_asset :: "provider \<Rightarrow> ti \<Rightarrow> monitored_asset \<Rightarrow> unit outcome" where
  "unregister_monitored_asset p t m =
     (case pv_unregister p (mo_provider_ref m) of
        Inl e \<Rightarrow> (Inl (Provider_failed e), t)
      | Inr _ \<Rightarrow> (Inr (), t\<lparr>ti_db := (ti_db t)\<lparr>d_monitored :=
          upd_where (\<lambda>r. mo_id r = mo_id m) (\<lambda>r. r\<lparr>mo_is_active := False\<rparr>) (d_monitored (ti_db t))\<rparr>\<rparr>))"

definition get_monitored_asset :: "ti \<Rightarrow> int \<Rightarrow> int \<Rightarrow> monitored_asset option" where
  "get_monitored_asset t tenant asset =
     find (\<lambda>m. mo_tenant m = tenant \<and> mo_asset m = asset \<and> mo_is_active m) (d_monitored (ti_db t))"

definition resolve_monitored_asset_by_provider_ref :: "ti \<Rightarrow> string \<Rightarrow> monitored_asset option" where
  "resolve_monitored_asset_by_provider_ref t ref =
     find (\<lambda>m. mo_provider_ref m = ref \<and> mo_is_active m) (d_monitored (ti_db t))"

section \<open>The webhook\<close>

text \<open>The records by reference, in the order the references come first.\<close>

definition refs_of :: "raw_finding list \<Rightarrow> string list" where
  "refs_of raws = rev (remdups (rev (map rw_asset_ref raws)))"

definition by_asset_ref :: "raw_finding list \<Rightarrow> (string \<times> raw_finding list) list" where
  "by_asset_ref raws = map (\<lambda>r. (r, filter (\<lambda>x. rw_asset_ref x = r) raws)) (refs_of raws)"

text \<open>
  What a delivery gives: the findings created, the references nobody registered, and the findings whose
  signal mail was handed to the queue (a refusal of the queue is logged and forgotten).
\<close>

record webhook_result =
  wo_created :: int
  wo_unmatched :: "string list"
  wo_signals :: "int list"

definition signals_of :: "finding list \<Rightarrow> int list" where
  "signals_of fs = map bf_id (filter (\<lambda>f. bf_source_endpoint f \<in> set PRE_INCIDENT_ENDPOINTS) fs)"

fun ingest_groups ::
  "surroundings \<Rightarrow> (string \<times> raw_finding list) list \<Rightarrow> webhook_result \<Rightarrow> ti \<Rightarrow> (ti_error + webhook_result) \<times> ti" where
  "ingest_groups s [] w t = (Inr w, t)"
| "ingest_groups s ((ref, raws) # gs) w t =
     (case resolve_monitored_asset_by_provider_ref t ref of
        None \<Rightarrow> ingest_groups s gs (w\<lparr>wo_unmatched := wo_unmatched w @ [ref]\<rparr>) t
      | Some m \<Rightarrow>
          (case ingest_raw_findings s t (mo_tenant m) (mo_asset m) raws empty_report of
             (Some e, (created, rep, t')) \<Rightarrow> (Inl e, t')
           | (None, (created, rep, t')) \<Rightarrow>
               ingest_groups s gs (w\<lparr>wo_created := wo_created w + int (length created),
                                     wo_signals := wo_signals w @ signals_of created\<rparr>) t'))"

definition ingest_webhook_payload :: "surroundings \<Rightarrow> ti \<Rightarrow> payload list \<Rightarrow> webhook_result outcome" where
  "ingest_webhook_payload s t items =
     ingest_groups s (by_asset_ref (normalize_webhook_payload (sd_texts s) items))
       \<lparr>wo_created = 0, wo_unmatched = [], wo_signals = []\<rparr> t"

text \<open>
  Basic authentication. The decoding of base64 and UTF-8 is a parameter; comparing a text that is not
  ASCII raises, which is \<open>None\<close>.
\<close>

definition ascii :: "string \<Rightarrow> bool" where
  "ascii x = (\<forall>c \<in> set x. (of_char c :: nat) < 128)"

definition compare_digest :: "string \<Rightarrow> string \<Rightarrow> bool option" where
  "compare_digest a b = (if ascii a \<and> ascii b then Some (a = b) else None)"

definition is_valid_basic_auth :: "(string \<Rightarrow> string option) \<Rightarrow> string \<Rightarrow> string \<Rightarrow> string \<Rightarrow> bool option" where
  "is_valid_basic_auth decode expected_username expected_password header =
     (if expected_username = [] \<or> expected_password = [] then Some False
      else if \<not> startswith header ''Basic '' then Some False
      else if \<not> ascii header then None
      else case decode (drop 6 header) of
             None \<Rightarrow> Some False
           | Some plain \<Rightarrow>
               (case compare_digest (before (CHR '':'') plain) expected_username of
                  None \<Rightarrow> None
                | Some same \<Rightarrow>
                    if same then compare_digest (after (CHR '':'') plain) expected_password else Some False))"

section \<open>The views that spend the licence\<close>

text \<open>What a view answers when it does not do its work; \<open>Raised\<close> is an error no clause catches.\<close>

datatype view_refusal =
    Absent
  | Payment entitlement_error
  | No_capacity billing_error
  | Refused ti_error
  | Raised ti_error
  | Nothing_to_scan

definition monitor_asset :: "surroundings \<Rightarrow> provider \<Rightarrow> ti \<Rightarrow> int \<Rightarrow> int \<Rightarrow> (view_refusal + monitored_asset) \<times> ti" where
  "monitor_asset s p t tenant asset_id =
     (case get_asset (ti_mon t) tenant asset_id of
        None \<Rightarrow> (Inl Absent, t)
      | Some a \<Rightarrow>
          (case rbind (ensure_operational (ti_db t) tenant) (\<lambda>_.
                rbind (ensure_feature (ti_db t) tenant REALTIME_MONITORING) (\<lambda>_.
                  ensure_monitored_asset_quota (ti_db t) tenant)) of
             Inl e \<Rightarrow> (Inl (Payment e), t)
           | Inr _ \<Rightarrow>
               (case register_monitored_asset s p t tenant a of
                  (Inr m, t') \<Rightarrow> (Inr m, t')
                | (Inl e, t') \<Rightarrow>
                    (Inl (if e \<in> {Foreign_asset, Ownership_missing, Already_monitored, Webhook_not_configured, Provider_pool_full}
                          then Refused e else Raised e), t'))))"

definition unmonitor_asset :: "provider \<Rightarrow> ti \<Rightarrow> int \<Rightarrow> int \<Rightarrow> (view_refusal + unit) \<times> ti" where
  "unmonitor_asset p t tenant asset_id =
     (case get_monitored_asset t tenant asset_id of
        None \<Rightarrow> (Inl Absent, t)
      | Some m \<Rightarrow>
          (case unregister_monitored_asset p t m of
             (Inr u, t') \<Rightarrow> (Inr u, t')
           | (Inl e, t') \<Rightarrow> (Inl (Raised e), t')))"

text \<open>The scan a client asks for: the job and the arguments of the task it is handed to.\<close>

definition trigger_scan ::
  "surroundings \<Rightarrow> provider \<Rightarrow> ti \<Rightarrow> tenant \<Rightarrow> int option \<Rightarrow> (view_refusal + scan_job) \<times> ti" where
  "trigger_scan s p t tenant asset_id =
     (case (case asset_id of
              None \<Rightarrow> Some None
            | Some i \<Rightarrow> (case get_asset (ti_mon t) (te_id tenant) i of None \<Rightarrow> None | Some a \<Rightarrow> Some (Some (at_id a)))) of
        None \<Rightarrow> (Inl Absent, t)
      | Some asset \<Rightarrow>
          (case rbind (ensure_operational (ti_db t) (te_id tenant)) (\<lambda>_. ensure_scan_quota (sd_now s) (ti_db t) (te_id tenant)) of
             Inl e \<Rightarrow> (Inl (Payment e), t)
           | Inr _ \<Rightarrow>
               (case ensure_scan_budget_available (sd_env s) (ti_db t) 1 of
                  Inl e \<Rightarrow> (Inl (No_capacity e), t)
                | Inr _ \<Rightarrow>
                    (case create_scan_job s p t tenant asset Manual of
                       (Inr j, t') \<Rightarrow> (Inr j, t')
                     | (Inl e, t') \<Rightarrow> (Inl (if e \<in> {Cooldown_active, Quota_exceeded} then Refused e else Raised e), t')))))"

section \<open>What the pool keeps\<close>

definition pool_ok :: "ti \<Rightarrow> bool" where
  "pool_ok t =
     (let ms = d_monitored (ti_db t)
      in distinct (map mo_asset ms) \<and> distinct (map mo_provider_ref ms) \<and> distinct (map mo_id ms) \<and>
         (\<forall>m \<in> set ms. mo_id m \<le> d_seq (ti_db t)))"

lemma pool_ok_cong: "ti_db t' = ti_db t \<Longrightarrow> pool_ok t' = pool_ok t"
  by (simp add: pool_ok_def)

lemma create_monitored_shape:
  "create_monitored_asset t tenant a ref = (r, t') \<Longrightarrow>
   (r = Inl Second_row \<and> t' = t \<and> (\<exists>m \<in> set (d_monitored (ti_db t)). mo_asset m = a \<or> mo_provider_ref m = ref)) \<or>
   (\<exists>m. r = Inr m \<and> m = \<lparr>mo_id = d_seq (ti_db t) + 1, mo_tenant = tenant, mo_asset = a, mo_provider_ref = ref,
                     mo_provider_asset_type = ''domain'', mo_is_active = True\<rparr> \<and>
      t' = t\<lparr>ti_db := (ti_db t)\<lparr>d_seq := d_seq (ti_db t) + 1, d_monitored := m # d_monitored (ti_db t)\<rparr>\<rparr> \<and>
      (\<forall>m \<in> set (d_monitored (ti_db t)). mo_asset m \<noteq> a \<and> mo_provider_ref m \<noteq> ref))"
  by (auto simp: create_monitored_asset_def Let_def split: if_splits)

lemma register_shape:
  assumes "register_monitored_asset s p t tenant a = (r, t')"
  shows "(\<exists>e. r = Inl e \<and> t' = t) \<or>
    (\<exists>d ref m. r = Inr m \<and> asset_domain a = Some d \<and> pv_register p d = Inr ref \<and>
       create_monitored_asset t tenant (at_id a) ref = (Inr m, t') \<and> at_tenant a = tenant \<and>
       is_ownership_proven (ti_mon t) (at_id a) \<and> sd_callback_url s \<noteq> [] \<and> 0 < pool_capacity_remaining s t)"
  using assms by (auto simp: register_monitored_asset_def dest: create_monitored_shape
      split: if_splits option.splits sum.splits provider_error.splits)

lemma unregister_shape:
  "unregister_monitored_asset p t m = (r, t') \<Longrightarrow>
   t' = t \<or> t' = t\<lparr>ti_db := (ti_db t)\<lparr>d_monitored :=
          upd_where (\<lambda>r. mo_id r = mo_id m) (\<lambda>r. r\<lparr>mo_is_active := False\<rparr>) (d_monitored (ti_db t))\<rparr>\<rparr>"
  by (auto simp: unregister_monitored_asset_def split: sum.splits)

lemma ingest_groups_db: "ingest_groups s gs w t = (r, t') \<Longrightarrow> ti_db t' = ti_db t"
proof (induction gs arbitrary: w t)
  case (Cons g gs)
  obtain ref raws where g: "g = (ref, raws)" by fastforce
  show ?case
  proof (cases "resolve_monitored_asset_by_provider_ref t ref")
    case None
    with Cons g show ?thesis by simp
  next
    case (Some m)
    obtain e c rep u where i: "ingest_raw_findings s t (mo_tenant m) (mo_asset m) raws empty_report = (e, (c, rep, u))"
      by (metis prod_cases4)
    have "ti_db u = ti_db t" using ingest_beside [OF i] by (simp add: beside_def)
    with Cons g Some i show ?thesis by (cases e) auto
  qed
qed simp

inductive pool_step :: "int \<Rightarrow> ti \<Rightarrow> ti \<Rightarrow> bool" for n where
  step_register: "sd_pool_size s \<le> n \<Longrightarrow> register_monitored_asset s p t tenant a = (r, t') \<Longrightarrow> pool_step n t t'"
| step_unregister: "unregister_monitored_asset p t m = (r, t') \<Longrightarrow> pool_step n t t'"
| step_webhook: "ingest_webhook_payload s t items = (w, t') \<Longrightarrow> pool_step n t t'"
| step_run: "execute_scan s pv t tn as trig = (j, t') \<Longrightarrow> pool_step n t t'"

lemma upd_inactive_used:
  "length (filter mo_is_active (upd_where p (\<lambda>r. r\<lparr>mo_is_active := False\<rparr>) ms)) \<le> length (filter mo_is_active ms)"
  by (induction ms) (auto simp: upd_where_def)

lemma pool_step_keeps:
  assumes "pool_step n t t'" and "pool_ok t" and "pool_used t \<le> n"
  shows "pool_ok t' \<and> pool_used t' \<le> n"
  using assms(1)
proof cases
  case (step_register s p tenant a r)
  from register_shape [OF step_register(2)] show ?thesis
  proof
    assume "\<exists>e. r = Inl e \<and> t' = t"
    with assms(2,3) show ?thesis by auto
  next
    assume "\<exists>d ref m. r = Inr m \<and> asset_domain a = Some d \<and> pv_register p d = Inr ref \<and>
       create_monitored_asset t tenant (at_id a) ref = (Inr m, t') \<and> at_tenant a = tenant \<and>
       is_ownership_proven (ti_mon t) (at_id a) \<and> sd_callback_url s \<noteq> [] \<and> 0 < pool_capacity_remaining s t"
    then obtain ref m where c: "create_monitored_asset t tenant (at_id a) ref = (Inr m, t')" and room: "0 < pool_capacity_remaining s t"
      by blast
    from create_monitored_shape [OF c] assms(2) room step_register(1)
    show ?thesis by (auto simp: pool_ok_def pool_used_def pool_capacity_remaining_def Let_def)
  qed
next
  case (step_unregister p m r)
  let ?u = "\<lambda>ms. upd_where (\<lambda>r. mo_id r = mo_id m) (\<lambda>r. r\<lparr>mo_is_active := False\<rparr>) ms"
  have maps: "map f (?u ms) = map f ms" if "\<And>r. f (r\<lparr>mo_is_active := False\<rparr>) = f r" for f :: "monitored_asset \<Rightarrow> 'x" and ms
    using that by (rule map_upd_where)
  from unregister_shape [OF step_unregister] assms(2,3) upd_inactive_used [of "\<lambda>r. mo_id r = mo_id m" "d_monitored (ti_db t)"]
  show ?thesis by (auto simp: pool_ok_def pool_used_def Let_def maps set_upd_where) metis
next
  case (step_webhook s items w)
  from ingest_groups_db [OF step_webhook [unfolded ingest_webhook_payload_def]] assms(2,3) show ?thesis
    by (simp add: pool_ok_def pool_used_def)
next
  case (step_run s pv tn as trig j)
  from execute_scan_jobs [OF step_run] assms(2,3) show ?thesis by (simp add: pool_ok_def pool_used_def)
qed

section \<open>Where the records of a delivery go\<close>

definition place :: "finding \<Rightarrow> int \<times> int \<times> int" where
  "place f = (bf_id f, bf_tenant f, bf_asset f)"

text \<open>Between two states, only rows of the given companies were touched, and new rows are of the given assets.\<close>

definition delivered :: "(int \<times> int) set \<Rightarrow> ti \<Rightarrow> ti \<Rightarrow> bool" where
  "delivered A t t' =
     (ti_seq t \<le> ti_seq t' \<and>
      (\<forall>f \<in> set (ti_findings t'). (ti_seq t < bf_id f \<and> (bf_tenant f, bf_asset f) \<in> A) \<or>
         (\<exists>g \<in> set (ti_findings t). place f = place g \<and> (bf_tenant g \<in> fst ` A \<or> f = g))) \<and>
      (\<forall>g \<in> set (ti_findings t). \<exists>f \<in> set (ti_findings t'). place f = place g))"

lemma delivered_refl [simp]: "delivered A t t"
  by (auto simp: delivered_def)

lemma delivered_mono: "delivered A t t' \<Longrightarrow> A \<subseteq> B \<Longrightarrow> delivered B t t'"
  unfolding delivered_def by (meson image_mono subsetD)

lemma delivered_trans:
  assumes "delivered A t u" and "delivered A u v"
  shows "delivered A t v"
proof -
  have "(ti_seq t < bf_id f \<and> (bf_tenant f, bf_asset f) \<in> A) \<or>
         (\<exists>g \<in> set (ti_findings t). place f = place g \<and> (bf_tenant g \<in> fst ` A \<or> f = g))" if f: "f \<in> set (ti_findings v)" for f
  proof -
    from assms(2) f consider "ti_seq u < bf_id f" "(bf_tenant f, bf_asset f) \<in> A"
      | g where "g \<in> set (ti_findings u)" "place f = place g" "bf_tenant g \<in> fst ` A \<or> f = g"
      unfolding delivered_def by blast
    then show ?thesis
    proof cases
      case 1
      with assms(1) show ?thesis by (auto simp: delivered_def)
    next
      case 2
      then have g: "g \<in> set (ti_findings u)" "place f = place g" "bf_tenant g \<in> fst ` A \<or> f = g" by simp_all
      from assms(1) g(1) have "(ti_seq t < bf_id g \<and> (bf_tenant g, bf_asset g) \<in> A) \<or>
         (\<exists>h \<in> set (ti_findings t). place g = place h \<and> (bf_tenant h \<in> fst ` A \<or> g = h))"
        unfolding delivered_def by blast
      with g(2,3) show ?thesis by (auto simp: place_def)
    qed
  qed
  moreover have "\<exists>f \<in> set (ti_findings v). place f = place g" if "g \<in> set (ti_findings t)" for g
    using assms that unfolding delivered_def by metis
  ultimately show ?thesis using assms by (auto simp: delivered_def)
qed

lemma saved_delivered:
  assumes "findings_ok t" and "f \<in> set (ti_findings t)" and "place g = place f" and "bf_tenant f \<in> fst ` A"
  shows "delivered A t (save_finding g t)"
proof -
  have "set (ti_findings (save_finding g t)) = insert g (set (ti_findings t) - {f})"
    using assms(1-3) by (intro rows_saved) (simp_all add: place_def)
  moreover have "ti_seq (save_finding g t) = ti_seq t" by (simp add: save_finding_def)
  ultimately show ?thesis using assms(2-4) by (auto simp: delivered_def)
qed

lemma ingest_one_delivered:
  assumes "ingest_one s tenant asset raw (created, rep, t) = Inr (created', rep', t')" and "findings_ok t"
  shows "delivered {(tenant, asset)} t t'"
proof (cases "rw_is_test raw")
  case True
  with assms show ?thesis by (simp add: ingest_one_test)
next
  case False
  from assms False show ?thesis
  proof (cases rule: ingest_one_cases)
    case (fresh c f)
    from create_finding_shape [OF fresh(1) assms(2)] show ?thesis by (auto simp: delivered_def new_finding_def)
  next
    case (known f g)
    from saved_delivered [OF assms(2) known(3), of g] known(1,4,5) show ?thesis by (simp add: place_def finding_key_def)
  next
    case (legacy f g)
    from saved_delivered [OF assms(2) legacy(3), of g] legacy(1,4,6) show ?thesis by (simp add: place_def)
  qed
qed

lemma ingest_loop_delivered:
  "ingest_loop s tenant asset raws (created, rep, t) = (e, (created', rep', t')) \<Longrightarrow> findings_ok t \<Longrightarrow>
   delivered {(tenant, asset)} t t'"
proof (induction raws arbitrary: created rep t)
  case (Cons raw raws)
  show ?case
  proof (cases "ingest_one s tenant asset raw (created, rep, t)")
    case (Inr st)
    obtain c1 r1 t1 where st: "st = (c1, r1, t1)" by (metis prod_cases3)
    from Cons.prems(1) Inr st have "ingest_loop s tenant asset raws (c1, r1, t1) = (e, (created', rep', t'))" by simp
    from Cons.IH [OF this] ingest_one_ok [OF Inr [unfolded st] Cons.prems(2)] ingest_one_delivered [OF Inr [unfolded st] Cons.prems(2)]
    show ?thesis by (blast intro: delivered_trans)
  qed (use Cons.prems in simp)
qed simp

lemma ingest_delivered:
  assumes "ingest_raw_findings s t tenant asset raws rep = (e, (created, rep', t'))" and "findings_ok t"
  shows "delivered {(tenant, asset)} t t'"
proof -
  obtain e1 c1 r1 t1 where l: "ingest_loop s tenant asset raws ([], rep, t) = (e1, (c1, r1, t1))" by (metis prod_cases4)
  have "ti_findings t' = ti_findings t1 \<and> ti_seq t' = ti_seq t1"
    using assms(1) l by (auto simp: ingest_raw_findings_def split: option.splits if_splits)
  with ingest_loop_delivered [OF l assms(2)] show ?thesis by (simp add: delivered_def)
qed

text \<open>The owners of the references: the registered assets with one of them.\<close>

definition owners :: "db \<Rightarrow> string set \<Rightarrow> (int \<times> int) set" where
  "owners d refs = (\<lambda>m. (mo_tenant m, mo_asset m)) ` {m \<in> set (d_monitored d). mo_is_active m \<and> mo_provider_ref m \<in> refs}"

lemma resolve_owner:
  "resolve_monitored_asset_by_provider_ref t ref = Some m \<Longrightarrow> ref \<in> refs \<Longrightarrow> (mo_tenant m, mo_asset m) \<in> owners (ti_db t) refs"
  by (auto simp: resolve_monitored_asset_by_provider_ref_def owners_def dest!: find_SomeD)

lemma groups_delivered:
  "ingest_groups s gs w t = (r, t') \<Longrightarrow> findings_ok t \<Longrightarrow> fst ` set gs \<subseteq> refs \<Longrightarrow>
   delivered (owners (ti_db t) refs) t t' \<and> findings_ok t'"
proof (induction gs arbitrary: w t)
  case (Cons g gs)
  obtain ref raws where g: "g = (ref, raws)" by fastforce
  show ?case
  proof (cases "resolve_monitored_asset_by_provider_ref t ref")
    case None
    with Cons g show ?thesis by simp
  next
    case (Some m)
    obtain e c rep u where i: "ingest_raw_findings s t (mo_tenant m) (mo_asset m) raws empty_report = (e, (c, rep, u))"
      by (metis prod_cases4)
    have db: "ti_db u = ti_db t" using ingest_beside [OF i] by (simp add: beside_def)
    have ok: "findings_ok u" using ingest_ok [OF i Cons.prems(2)] ..
    have "(mo_tenant m, mo_asset m) \<in> owners (ti_db t) refs" using Some Cons.prems(3) g by (intro resolve_owner) auto
    with ingest_delivered [OF i Cons.prems(2)] have one: "delivered (owners (ti_db t) refs) t u" by (rule_tac delivered_mono) auto
    show ?thesis
    proof (cases e)
      case (Some x)
      with Cons.prems(1) g \<open>resolve_monitored_asset_by_provider_ref t ref = Some m\<close> i one ok show ?thesis by simp
    next
      case None
      with Cons.prems(1) g Some i have "ingest_groups s gs (w\<lparr>wo_created := wo_created w + int (length c),
                                     wo_signals := wo_signals w @ signals_of c\<rparr>) u = (r, t')" by simp
      from Cons.IH [OF this ok] Cons.prems(3) db one show ?thesis by (auto intro: delivered_trans)
    qed
  qed
qed simp

lemma groups_unmatched:
  "ingest_groups s gs w t = (Inr w', t') \<Longrightarrow>
   wo_unmatched w' = wo_unmatched w @ filter (\<lambda>ref. resolve_monitored_asset_by_provider_ref t ref = None) (map fst gs)"
proof (induction gs arbitrary: w t)
  case (Cons g gs)
  obtain ref raws where g: "g = (ref, raws)" by fastforce
  show ?case
  proof (cases "resolve_monitored_asset_by_provider_ref t ref")
    case None
    with Cons g show ?thesis by simp
  next
    case (Some m)
    obtain e c rep u where i: "ingest_raw_findings s t (mo_tenant m) (mo_asset m) raws empty_report = (e, (c, rep, u))"
      by (metis prod_cases4)
    have db: "ti_db u = ti_db t" using ingest_beside [OF i] by (simp add: beside_def)
    then have res: "resolve_monitored_asset_by_provider_ref u = resolve_monitored_asset_by_provider_ref t"
      by (simp add: fun_eq_iff resolve_monitored_asset_by_provider_ref_def)
    from Cons.prems g Some i have "e = None" by (cases e) simp_all
    with Cons.prems g Some i have "ingest_groups s gs (w\<lparr>wo_created := wo_created w + int (length c),
                                     wo_signals := wo_signals w @ signals_of c\<rparr>) u = (Inr w', t')" by simp
    from Cons.IH [OF this] g Some res show ?thesis by simp
  qed
qed simp

lemma refs_of_set: "set (refs_of raws) = rw_asset_ref ` set raws"
  by (simp add: refs_of_def)

lemma groups_refs: "map fst (by_asset_ref raws) = refs_of raws"
  by (simp add: by_asset_ref_def comp_def)

section \<open>Properties\<close>

text \<open>
  C25: The places of the licence are never oversold: over any sequence of registrations, removals, webhook
  deliveries and scans, with a pool of at most \<open>n\<close> places, no more than \<open>n\<close> assets are monitored at
  once, and an asset and a reference of the provider each have a single row.
\<close>

theorem places_never_oversold:
  assumes "(pool_step n)\<^sup>*\<^sup>* t t'" and "pool_ok t" and "pool_used t \<le> n"
  shows "pool_used t' \<le> n \<and> distinct (map mo_asset (d_monitored (ti_db t'))) \<and>
    distinct (map mo_provider_ref (d_monitored (ti_db t')))"
proof -
  have "pool_ok t' \<and> pool_used t' \<le> n"
    using assms by (induction rule: rtranclp_induct) (auto dest: pool_step_keeps)
  then show ?thesis by (simp add: pool_ok_def Let_def)
qed

definition sample_proof :: ownership_proof where
  "sample_proof = \<lparr>pr_id = 1, pr_asset = 1, pr_method = Dns_txt, pr_status = Proof_verified, pr_token = [],
     pr_recipient = [], pr_verified_at = None, pr_last_attempt = None, pr_error = No_note\<rparr>"

definition proven_assets :: ti where
  "proven_assets = sample_ti\<lparr>ti_mon := sample_mon\<lparr>mn_assets := [sample_asset], mn_proofs := [sample_proof]\<rparr>\<rparr>"

definition granting_provider :: provider where
  "granting_provider = one_domain_provider\<lparr>pv_register := (\<lambda>v. Inr (''ref-'' @ v)), pv_unregister := (\<lambda>_. Inr ())\<rparr>"

lemma sample_registers:
  "\<exists>m t'. register_monitored_asset sample granting_provider proven_assets 7 sample_asset = (Inr m, t') \<and>
     mo_provider_ref m = ''ref-a.fr'' \<and> ti_findings t' = []"
  by (simp add: register_monitored_asset_def proven_assets_def sample_asset_def sample_proof_def is_ownership_proven_def
      sample_ti_def empty_db_def sample_mon_def pool_capacity_remaining_def pool_used_def sample_def asset_domain_def
      granting_provider_def create_monitored_asset_def Let_def)

theorem places_never_oversold_witness:
  "\<exists>t'. (pool_step 15)\<^sup>*\<^sup>* proven_assets t' \<and> pool_used t' \<le> 15 \<and> d_monitored (ti_db t') \<noteq> []"
proof -
  obtain m t' where r: "register_monitored_asset sample granting_provider proven_assets 7 sample_asset = (Inr m, t')"
    using sample_registers by blast
  have "pool_step 15 proven_assets t'" using step_register [OF _ r, of 15] by (simp add: sample_def)
  then have steps: "(pool_step 15)\<^sup>*\<^sup>* proven_assets t'" by blast
  have "pool_ok proven_assets" "pool_used proven_assets \<le> 15"
    by (simp_all add: pool_ok_def pool_used_def proven_assets_def sample_ti_def empty_db_def)
  from places_never_oversold [OF steps this] steps create_monitored_shape register_shape [OF r]
  show ?thesis by (auto dest!: create_monitored_shape)
qed

text \<open>
  An asset enters the continuous monitoring exactly when it belongs to the company, its ownership is
  proven, the webhook is configured, a place is left, the provider accepts its domain, and neither the
  asset nor the reference given has a row, active or not. Then its one active row is the one found by the
  reference; otherwise no table changes. When a row already exists for an asset no longer monitored the
  provider has accepted the asset before the registration fails.
\<close>

theorem registration_exact:
  assumes "register_monitored_asset s p t tenant a = (r, t')"
  shows "((\<exists>m. r = Inr m) \<longleftrightarrow>
      at_tenant a = tenant \<and> is_ownership_proven (ti_mon t) (at_id a) \<and> sd_callback_url s \<noteq> [] \<and>
      pool_used t < sd_pool_size s \<and> (\<forall>m \<in> set (d_monitored (ti_db t)). mo_asset m \<noteq> at_id a) \<and>
      (\<exists>d ref. asset_domain a = Some d \<and> pv_register p d = Inr ref \<and>
         (\<forall>m \<in> set (d_monitored (ti_db t)). mo_provider_ref m \<noteq> ref))) \<and>
    (case r of
       Inl e \<Rightarrow> t' = t \<and> (e = Second_row \<longrightarrow> (\<exists>d ref. asset_domain a = Some d \<and> pv_register p d = Inr ref))
     | Inr m \<Rightarrow> resolve_monitored_asset_by_provider_ref t' (mo_provider_ref m) = Some m \<and> mo_asset m = at_id a \<and>
         mo_tenant m = tenant \<and> pool_used t' = pool_used t + 1 \<and> ti_mon t' = ti_mon t \<and> ti_findings t' = ti_findings t)"
proof (intro conjI)
  have room: "pool_capacity_remaining s t \<le> 0 \<longleftrightarrow> \<not> pool_used t < sd_pool_size s" by (auto simp: pool_capacity_remaining_def)
  show "(\<exists>m. r = Inr m) \<longleftrightarrow>
      at_tenant a = tenant \<and> is_ownership_proven (ti_mon t) (at_id a) \<and> sd_callback_url s \<noteq> [] \<and>
      pool_used t < sd_pool_size s \<and> (\<forall>m \<in> set (d_monitored (ti_db t)). mo_asset m \<noteq> at_id a) \<and>
      (\<exists>d ref. asset_domain a = Some d \<and> pv_register p d = Inr ref \<and>
         (\<forall>m \<in> set (d_monitored (ti_db t)). mo_provider_ref m \<noteq> ref))"
    using assms by (auto simp: register_monitored_asset_def create_monitored_asset_def room Let_def
        split: if_splits option.splits sum.splits provider_error.splits)
  show "case r of
       Inl e \<Rightarrow> t' = t \<and> (e = Second_row \<longrightarrow> (\<exists>d ref. asset_domain a = Some d \<and> pv_register p d = Inr ref))
     | Inr m \<Rightarrow> resolve_monitored_asset_by_provider_ref t' (mo_provider_ref m) = Some m \<and> mo_asset m = at_id a \<and>
         mo_tenant m = tenant \<and> pool_used t' = pool_used t + 1 \<and> ti_mon t' = ti_mon t \<and> ti_findings t' = ti_findings t"
  proof (cases r)
    case (Inl e)
    with assms show ?thesis by (auto simp: register_monitored_asset_def create_monitored_asset_def Let_def
        split: if_splits option.splits sum.splits provider_error.splits)
  next
    case (Inr m)
    with register_shape [OF assms] obtain ref where "create_monitored_asset t tenant (at_id a) ref = (Inr m, t')" by auto
    from create_monitored_shape [OF this] Inr show ?thesis
      by (auto simp: resolve_monitored_asset_by_provider_ref_def pool_used_def)
  qed
qed

theorem registration_exact_example:
  "\<exists>r t'. register_monitored_asset sample granting_provider proven_assets 7 sample_asset = (r, t') \<and> (\<exists>m. r = Inr m \<and>
     resolve_monitored_asset_by_provider_ref t' (mo_provider_ref m) = Some m)"
proof -
  obtain m t' where r: "register_monitored_asset sample granting_provider proven_assets 7 sample_asset = (Inr m, t')"
    using sample_registers by blast
  from registration_exact [OF r] r show ?thesis by auto
qed

text \<open>
  What the webhook delivers reaches the company of the registered asset and no other: a record of
  another company is left as it is, a new finding is of a company and asset registered with one of the
  references of the delivery, no row disappears, and the references reported as unknown are exactly those no
  active row has. The subscriptions, the accounts and the jobs are not touched.
\<close>

theorem webhook_reaches_owner:
  assumes "ingest_webhook_payload s t items = (r, t')" and "findings_ok t"
  shows "delivered (owners (ti_db t) (rw_asset_ref ` set (normalize_webhook_payload (sd_texts s) items))) t t' \<and>
    ti_db t' = ti_db t \<and>
    (\<forall>w. r = Inr w \<longrightarrow> set (wo_unmatched w) =
       {ref \<in> rw_asset_ref ` set (normalize_webhook_payload (sd_texts s) items).
          \<forall>m \<in> set (d_monitored (ti_db t)). \<not> (mo_is_active m \<and> mo_provider_ref m = ref)})"
proof -
  let ?raws = "normalize_webhook_payload (sd_texts s) items"
  note run = assms(1) [unfolded ingest_webhook_payload_def]
  have refs: "fst ` set (by_asset_ref ?raws) = rw_asset_ref ` set ?raws"
    using groups_refs [of ?raws] refs_of_set [of ?raws] by (metis set_map)
  from groups_delivered [OF run assms(2)] refs
  have "delivered (owners (ti_db t) (rw_asset_ref ` set ?raws)) t t'" by blast
  moreover have "set (wo_unmatched w) =
       {ref \<in> rw_asset_ref ` set ?raws. \<forall>m \<in> set (d_monitored (ti_db t)). \<not> (mo_is_active m \<and> mo_provider_ref m = ref)}"
    if "r = Inr w" for w
    using groups_unmatched [OF run [unfolded that]] groups_refs [of ?raws] refs_of_set [of ?raws]
    by (auto simp: resolve_monitored_asset_by_provider_ref_def find_None_iff)
  ultimately show ?thesis using ingest_groups_db [OF run] by blast
qed

definition sample_delivery :: "payload list" where
  "sample_delivery = [[(''ast'', JStr ''ref-a.fr''), (''api'', JStr ''radar''), (''data'', JStr ''a-fr.com'')],
     [(''ast'', JStr ''ref-b.fr''), (''api'', JStr ''radar''), (''data'', JStr ''b-fr.com'')]]"

theorem webhook_reaches_owner_example:
  "\<exists>m t r t'. register_monitored_asset sample granting_provider proven_assets 7 sample_asset = (Inr m, t) \<and>
     ingest_webhook_payload sample t sample_delivery = (r, t') \<and>
     delivered (owners (ti_db t) (rw_asset_ref ` set (normalize_webhook_payload demo_texts sample_delivery))) t t'"
proof -
  obtain m t where r: "register_monitored_asset sample granting_provider proven_assets 7 sample_asset = (Inr m, t)"
    and no: "ti_findings t = []" using sample_registers by blast
  obtain x t' where w: "ingest_webhook_payload sample t sample_delivery = (x, t')" by fastforce
  have "findings_ok t" using no by (simp add: findings_ok_def)
  from webhook_reaches_owner [OF w this] r w show ?thesis by (auto simp: sample_def)
qed

end
