(* ===== verification/Watched.thy ===== *)
theory Watched
  imports Pool
begin

text \<open>
  The watched accounts (threat_intelligence/watched_accounts.py, tasks.py, views.py): accounts outside of
  the domains of the company, declared one by one with the text that was accepted, removed without losing
  the declaration, scanned on demand; what is found lives in its own table, grouped for the screen. Nothing
  here reaches the findings of the assets, the alerts or the secrets.
\<close>

section \<open>Declarations\<close>

definition DECLARATION_VERSION :: string where "DECLARATION_VERSION = ''2026-09-1''"

definition DECLARATION_TEXT :: string where
  "DECLARATION_TEXT =
     ''Je d'' @ [CHR 0xE9] @ ''clare avoir le droit de faire surveiller ce compte. Si ce compte n'' @ [CHR 0x27] @
     ''est pas le mien, je reconnais que cette surveillance constitue un traitement de donn'' @ [CHR 0xE9] @
     ''es personnelles dont mon entreprise est responsable : il m'' @ [CHR 0x27] @ ''appartient d'' @ [CHR 0x27] @
     ''en informer la personne concern'' @ [CHR 0xE9] @
     ''e et de pouvoir justifier du fondement de ce traitement. RSSI as a Service agit ici comme sous-traitant, sur mes seules instructions, et ne v'' @
     [CHR 0xE9] @ ''rifie pas ce fondement '' @ [CHR 0xE0] @ '' ma place.''"

definition normalize_account_value :: "string \<Rightarrow> string" where
  "normalize_account_value v = lower (strip v)"

definition list_watched_accounts :: "ti \<Rightarrow> int \<Rightarrow> bool \<Rightarrow> watched_account list" where
  "list_watched_accounts t tenant include_removed =
     filter (\<lambda>w. wa_tenant w = tenant \<and> (include_removed \<or> wa_is_active w)) (d_watched (ti_db t))"

definition get_watched_account :: "ti \<Rightarrow> int \<Rightarrow> int \<Rightarrow> watched_account option" where
  "get_watched_account t tenant i = find (\<lambda>w. wa_tenant w = tenant \<and> wa_id w = i) (d_watched (ti_db t))"

definition category_display :: "string \<Rightarrow> string" where
  "category_display c =
     (if c = ''executive'' then ''Dirigeant ou mandataire social''
      else if c = ''employee'' then ''Collaborateur''
      else if c = ''client'' then ''Client ou partenaire''
      else if c = ''service'' then ''Compte technique ou de service''
      else if c = ''other'' then ''Autre'' else c)"

definition declared_notice :: "string \<Rightarrow> watched_account \<Rightarrow> notice" where
  "declared_notice tenant_name w =
     \<lparr>nc_kind = Watched_account_declared,
      nc_title = tenant_name @ '' a d'' @ [CHR 0xE9] @ ''clar'' @ [CHR 0xE9] @ '' un compte '' @ [CHR 0xE0] @ '' surveiller'',
      nc_body = ''Cat'' @ [CHR 0xE9] @ ''gorie : '' @ category_display (wa_category w) @
        ''. D'' @ [CHR 0xE9] @ ''claration v'' @ DECLARATION_VERSION @ ''.'',
      nc_link = ''/admin/plateforme?onglet=tenants'',
      nc_dedupe_key = ''compte-designe:'' @ show_int (wa_id w)\<rparr>"

text \<open>What the form carries.\<close>

record account_form =
  dc_value :: string
  dc_label :: string
  dc_category :: string
  dc_legal_basis :: string
  dc_purpose :: string
  dc_accepted :: bool

definition new_watched_account :: "surroundings \<Rightarrow> int \<Rightarrow> int \<Rightarrow> int option \<Rightarrow> account_form \<Rightarrow> watched_account" where
  "new_watched_account s i tenant user dc =
     \<lparr>wa_id = i, wa_tenant = tenant, wa_value = normalize_account_value (dc_value dc), wa_label = strip (dc_label dc),
      wa_category = dc_category dc, wa_legal_basis = dc_legal_basis dc, wa_purpose = strip (dc_purpose dc),
      wa_declaration_text = DECLARATION_TEXT, wa_declaration_version = DECLARATION_VERSION, wa_declared_by = user,
      wa_declared_at = sd_now s, wa_is_active = True, wa_last_scanned_at = None, wa_first_scanned_at = None,
      wa_removed_at = None, wa_removed_by = None, wa_removal_reason = []\<rparr>"

definition declare_watched_account ::
  "surroundings \<Rightarrow> ti \<Rightarrow> tenant \<Rightarrow> int option \<Rightarrow> account_form \<Rightarrow> watched_account outcome" where
  "declare_watched_account s t tenant user dc =
     (let d = ti_db t; i = te_id tenant; v = normalize_account_value (dc_value dc)
      in if \<not> dc_accepted dc then (Inl Declaration_required, t)
         else if strip (dc_purpose dc) = [] then (Inl Purpose_required, t)
         else if v = [] then (Inl Account_empty, t)
         else case ensure_watched_account_quota d i of
                Inl e \<Rightarrow> (Inl (Entitlement e), t)
              | Inr _ \<Rightarrow>
                  if \<exists>w \<in> set (d_watched d). wa_is_active w \<and> wa_tenant w = i \<and> wa_value w = v
                  then (Inl Account_already_watched, t)
                  else (let w = new_watched_account s (d_seq d + 1) i user dc;
                            d' = d\<lparr>d_seq := d_seq d + 1, d_watched := w # d_watched d\<rparr>
                        in (Inr w, t\<lparr>ti_db := d',
                              ti_inbox := snd (notify_staff (sd_now s) d' (ti_inbox t) (declared_notice (te_name tenant) w))\<rparr>)))"

definition save_watched :: "(watched_account \<Rightarrow> watched_account) \<Rightarrow> int \<Rightarrow> ti \<Rightarrow> ti" where
  "save_watched f i t =
     t\<lparr>ti_db := (ti_db t)\<lparr>d_watched := upd_where (\<lambda>w. wa_id w = i) f (d_watched (ti_db t))\<rparr>\<rparr>"

definition remove_watched_account :: "surroundings \<Rightarrow> ti \<Rightarrow> watched_account \<Rightarrow> int option \<Rightarrow> string \<Rightarrow> watched_account \<times> ti" where
  "remove_watched_account s t w user reason =
     (if \<not> wa_is_active w then (w, t)
      else (let f = (\<lambda>r. r\<lparr>wa_is_active := False, wa_removed_at := Some (sd_now s), wa_removed_by := user,
                           wa_removal_reason := take 200 reason\<rparr>)
            in (f w, save_watched f (wa_id w) t)))"

section \<open>What was found\<close>

definition gravity_rank :: "gravity \<Rightarrow> int" where
  "gravity_rank g = (case g of Grave_critical \<Rightarrow> 3 | Grave_high \<Rightarrow> 2 | Grave_attention \<Rightarrow> 1)"

text \<open>A field of the payload as the database reads it as a text; a structured value is printed by it.\<close>

definition json_text :: "(json \<Rightarrow> string) \<Rightarrow> json \<Rightarrow> string option" where
  "json_text printed j =
     (case j of JNull \<Rightarrow> None | JStr x \<Rightarrow> Some x | JInt n \<Rightarrow> Some (show_int n) | JFloat x \<Rightarrow> Some x
      | JBool b \<Rightarrow> Some (if b then ''true'' else ''false'') | _ \<Rightarrow> Some (printed j))"

definition key_text :: "(json \<Rightarrow> string) \<Rightarrow> string \<Rightarrow> payload \<Rightarrow> string option" where
  "key_text printed k p =
     (case map_of p k of None \<Rightarrow> None
      | Some j \<Rightarrow> (case json_text printed j of None \<Rightarrow> None | Some x \<Rightarrow> if x = [] then None else Some x))"

definition service_of :: "(json \<Rightarrow> string) \<Rightarrow> watched_finding \<Rightarrow> string" where
  "service_of printed f =
     (case key_text printed ''dom'' (wf_raw_data f) of Some x \<Rightarrow> x
      | None \<Rightarrow> (case key_text printed ''src'' (wf_raw_data f) of Some x \<Rightarrow> x | None \<Rightarrow> []))"

text \<open>By date of the leak, the most recent first and the undated last, then by detection.\<close>

definition by_breach_date :: "watched_finding list \<Rightarrow> watched_finding list" where
  "by_breach_date fs =
     sort_key (\<lambda>f. if wf_breach_date f = None then 1 else 0 :: int)
       (sort_key (\<lambda>f. case wf_breach_date f of None \<Rightarrow> 0 | Some x \<Rightarrow> - x)
         (sort_key (\<lambda>f. - wf_detected_at f) fs))"

definition account_of :: "ti \<Rightarrow> int \<Rightarrow> watched_account option" where
  "account_of t i = find (\<lambda>w. wa_id w = i) (d_watched (ti_db t))"

definition account_matches :: "ti \<Rightarrow> string \<Rightarrow> int \<Rightarrow> bool" where
  "account_matches t q i =
     (case account_of t i of None \<Rightarrow> False | Some w \<Rightarrow> icontains (wa_value w) q \<or> icontains (wa_label w) q)"

definition list_watched_account_findings ::
  "ti \<Rightarrow> int \<Rightarrow> int option \<Rightarrow> finding_status option \<Rightarrow> gravity option \<Rightarrow> string \<Rightarrow> date option \<Rightarrow> string \<Rightarrow>
   watched_finding list" where
  "list_watched_account_findings t tenant acct status severity ftype since q =
     by_breach_date (filter (\<lambda>f. wf_tenant f = tenant \<and>
        (case acct of None \<Rightarrow> True | Some i \<Rightarrow> wf_account f = i) \<and>
        (case status of None \<Rightarrow> True | Some x \<Rightarrow> wf_status f = x) \<and>
        (case severity of None \<Rightarrow> True | Some x \<Rightarrow> wf_severity f = x) \<and>
        (ftype = [] \<or> wf_finding_type f = ftype) \<and>
        (case since of None \<Rightarrow> True | Some x \<Rightarrow> (case wf_breach_date f of None \<Rightarrow> False | Some y \<Rightarrow> x \<le> y)) \<and>
        (q = [] \<or> account_matches t q (wf_account f))) (ti_watched_findings t))"

record finding_group =
  fg_account :: int
  fg_type :: string
  fg_service :: string
  fg_occurrences :: nat
  fg_open :: nat
  fg_treated :: nat
  fg_ignored :: nat
  fg_severity :: "gravity option"
  fg_latest :: "date option"
  fg_oldest :: "date option"
  fg_last_detected :: "time option"

definition group_key :: "(json \<Rightarrow> string) \<Rightarrow> watched_finding \<Rightarrow> int \<times> string \<times> string" where
  "group_key printed f = (wf_account f, wf_finding_type f, service_of printed f)"

text \<open>MAX and MIN of a column, which ignore NULL.\<close>

definition max_of :: "int list \<Rightarrow> int option" where
  "max_of xs = (if xs = [] then None else Some (foldr max xs (hd xs)))"

definition min_of :: "int list \<Rightarrow> int option" where
  "min_of xs = (if xs = [] then None else Some (foldr min xs (hd xs)))"

definition severity_of_rank :: "int option \<Rightarrow> gravity option" where
  "severity_of_rank r =
     (if r = Some 3 then Some Grave_critical else if r = Some 2 then Some Grave_high
      else if r = Some 1 then Some Grave_attention else None)"

definition group_row :: "int \<times> string \<times> string \<Rightarrow> watched_finding list \<Rightarrow> finding_group" where
  "group_row k fs =
     \<lparr>fg_account = fst k, fg_type = fst (snd k), fg_service = snd (snd k), fg_occurrences = length fs,
      fg_open = length (filter (\<lambda>f. wf_status f = Open) fs), fg_treated = length (filter (\<lambda>f. wf_status f = Treated) fs),
      fg_ignored = length (filter (\<lambda>f. wf_status f = Ignored) fs),
      fg_severity = severity_of_rank (max_of (map (\<lambda>f. gravity_rank (wf_severity f)) fs)),
      fg_latest = max_of (List.map_filter wf_breach_date fs), fg_oldest = min_of (List.map_filter wf_breach_date fs),
      fg_last_detected = max_of (map wf_detected_at fs)\<rparr>"

text \<open>
  The groups, the worst first, then the most recent, then the largest; a group without a date counts as
  the oldest date there is. The groups that are equal for this keep the order of the database, here the
  one in which they come first.
\<close>

definition date_min :: date where "date_min = - 719162"

definition group_rank :: "finding_group \<Rightarrow> int" where
  "group_rank g = (case fg_severity g of None \<Rightarrow> 0 | Some x \<Rightarrow> gravity_rank x)"

definition group_watched_account_findings :: "(json \<Rightarrow> string) \<Rightarrow> watched_finding list \<Rightarrow> finding_group list" where
  "group_watched_account_findings printed fs =
     sort_key (\<lambda>g. - group_rank g)
       (sort_key (\<lambda>g. - (case fg_latest g of None \<Rightarrow> date_min | Some x \<Rightarrow> x))
         (sort_key (\<lambda>g. - int (fg_occurrences g))
           (map (\<lambda>k. group_row k (filter (\<lambda>f. group_key printed f = k) fs)) (remdups (map (group_key printed) fs)))))"

definition findings_in_group :: "(json \<Rightarrow> string) \<Rightarrow> watched_finding list \<Rightarrow> int \<Rightarrow> string \<Rightarrow> string \<Rightarrow> watched_finding list" where
  "findings_in_group printed fs acct ftype service =
     by_breach_date (filter (\<lambda>f. group_key printed f = (acct, ftype, service)) fs)"

definition watched_account_filter_options :: "(string \<Rightarrow> int) \<Rightarrow> ti \<Rightarrow> int \<Rightarrow> string list \<times> gravity list" where
  "watched_account_filter_options coll t tenant =
     (let fs = filter (\<lambda>f. wf_tenant f = tenant) (ti_watched_findings t)
      in (sort_key coll (remdups (filter (\<lambda>x. x \<noteq> []) (map wf_finding_type fs))),
          sort_key (\<lambda>g. - gravity_rank g) (remdups (map wf_severity fs))))"

definition get_watched_account_finding :: "ti \<Rightarrow> int \<Rightarrow> int \<Rightarrow> watched_finding option" where
  "get_watched_account_finding t tenant i = find (\<lambda>f. wf_tenant f = tenant \<and> wf_id f = i) (ti_watched_findings t)"

definition save_watched_finding :: "(watched_finding \<Rightarrow> watched_finding) \<Rightarrow> int \<Rightarrow> ti \<Rightarrow> ti" where
  "save_watched_finding g i t = t\<lparr>ti_watched_findings := upd_where (\<lambda>f. wf_id f = i) g (ti_watched_findings t)\<rparr>"

definition update_watched_account_finding_status ::
  "surroundings \<Rightarrow> ti \<Rightarrow> watched_finding \<Rightarrow> finding_status \<Rightarrow> watched_finding \<times> ti" where
  "update_watched_account_finding_status s t f status =
     (let g = (\<lambda>r. r\<lparr>wf_status := status, wf_treated_at := (if status = Treated then Some (sd_now s) else None)\<rparr>)
      in (g f, save_watched_finding g (wf_id f) t))"

record accounts_summary =
  ws_accounts :: nat
  ws_open :: nat
  ws_critical :: nat
  ws_last_scanned_at :: "time option"
  ws_from_first_scan :: nat
  ws_since_first_scan :: nat
  ws_treated :: nat
  ws_ignored :: nat

definition watched_accounts_summary :: "ti \<Rightarrow> int \<Rightarrow> accounts_summary" where
  "watched_accounts_summary t tenant =
     (let fs = filter (\<lambda>f. wf_tenant f = tenant) (ti_watched_findings t); n = (\<lambda>p. length (filter p fs))
      in \<lparr>ws_accounts = length (list_watched_accounts t tenant False), ws_open = n (\<lambda>f. wf_status f = Open),
          ws_critical = n (\<lambda>f. wf_status f = Open \<and> wf_severity f = Grave_critical),
          ws_last_scanned_at = max_of (List.map_filter wa_last_scanned_at (list_watched_accounts t tenant True)),
          ws_from_first_scan = n wf_from_first_scan, ws_since_first_scan = n (\<lambda>f. \<not> wf_from_first_scan f),
          ws_treated = n (\<lambda>f. wf_status f = Treated), ws_ignored = n (\<lambda>f. wf_status f = Ignored)\<rparr>)"

section \<open>Scans on demand\<close>

definition create_watched_account_scan_job :: "surroundings \<Rightarrow> ti \<Rightarrow> int \<Rightarrow> string option \<Rightarrow> watched_account list \<Rightarrow> scan_job \<times> ti" where
  "create_watched_account_scan_job s t tenant user accounts =
     (let j = \<lparr>jb_id = ti_seq t + 1, jb_tenant = tenant, jb_asset = None, jb_status = Pending, jb_triggered_by = Manual,
               jb_scope = Watched_accounts,
               jb_result = [(''account_ids'', JArr (map (\<lambda>w. JInt (wa_id w)) accounts)),
                            (''requested_by'', case user of None \<Rightarrow> JNull | Some u \<Rightarrow> JStr u)],
               jb_error = [], jb_created_at = sd_now s, jb_finished_at = None\<rparr>
      in (j, t\<lparr>ti_seq := ti_seq t + 1, ti_jobs := j # ti_jobs t\<rparr>))"

definition resolve_scan_targets :: "ti \<Rightarrow> int \<Rightarrow> int list \<Rightarrow> watched_account list" where
  "resolve_scan_targets t tenant ids =
     rev (filter (\<lambda>w. ids = [] \<or> wa_id w \<in> set ids) (list_watched_accounts t tenant False))"

text \<open>Normalised, and everything about the secret but its being there is thrown away.\<close>

definition watched_row :: "surroundings \<Rightarrow> int \<Rightarrow> int \<Rightarrow> watched_account \<Rightarrow> normalized \<Rightarrow> watched_finding" where
  "watched_row s i tenant w n =
     \<lparr>wf_id = i, wf_tenant = tenant, wf_account = wa_id w, wf_source_endpoint = nf_source_endpoint n,
      wf_finding_type = nf_finding_type n, wf_severity = nf_severity n, wf_status = Open,
      wf_identifier_masked = nf_identifier_masked n, wf_secret_masked = nf_secret_masked n,
      wf_has_secret = nf_has_secret n, wf_breach_date = nf_breach_date n, wf_detected_at = sd_now s,
      wf_last_seen_at = Some (sd_now s), wf_treated_at = None, wf_from_first_scan = (wa_first_scanned_at w = None),
      wf_raw_data = nf_raw_data n, wf_dedup_hash = nf_dedup_hash n\<rparr>"

definition ingest_watched_one :: "surroundings \<Rightarrow> int \<Rightarrow> watched_account \<Rightarrow> raw_finding \<Rightarrow> int \<times> int \<times> ti \<Rightarrow> int \<times> int \<times> ti" where
  "ingest_watched_one s tenant w raw st =
     (case st of (created, seen, t) \<Rightarrow>
        if rw_is_test raw then st
        else (let n = normalize_finding (sd_texts s) (rw_endpoint raw) (rw_payload raw)
              in case find (\<lambda>f. wf_tenant f = tenant \<and> wf_dedup_hash f = nf_dedup_hash n) (ti_watched_findings t) of
                   None \<Rightarrow> (created + 1, seen, t\<lparr>ti_seq := ti_seq t + 1,
                              ti_watched_findings := watched_row s (ti_seq t + 1) tenant w n # ti_watched_findings t\<rparr>)
                 | Some f \<Rightarrow> (created, seen + 1, save_watched_finding (\<lambda>r. r\<lparr>wf_last_seen_at := Some (sd_now s)\<rparr>) (wf_id f) t)))"

definition ingest_watched :: "surroundings \<Rightarrow> ti \<Rightarrow> int \<Rightarrow> watched_account \<Rightarrow> raw_finding list \<Rightarrow> int \<times> int \<times> ti" where
  "ingest_watched s t tenant w raws =
     (case fold (ingest_watched_one s tenant w) raws (0, 0, t) of (created, seen, t') \<Rightarrow>
        (created, seen, if wa_first_scanned_at w = None
                        then save_watched (\<lambda>r. r\<lparr>wa_first_scanned_at := Some (sd_now s)\<rparr>) (wa_id w) t' else t'))"

record account_batch =
  ab_created :: int
  ab_requests :: int
  ab_seen :: int
  ab_failed :: nat
  ab_ti :: ti

fun scan_accounts :: "surroundings \<Rightarrow> (nat \<Rightarrow> provider) \<Rightarrow> nat \<Rightarrow> int \<Rightarrow> watched_account list \<Rightarrow> account_batch \<Rightarrow> account_batch" where
  "scan_accounts s pv k tenant [] b = b"
| "scan_accounts s pv k tenant (w # ws) b =
     scan_accounts s pv (k + 1) tenant ws
       (case pv_scan_email (pv k) (wa_value w) of
          Inl e \<Rightarrow> b\<lparr>ab_failed := ab_failed b + 1\<rparr>
        | Inr r \<Rightarrow>
            (case ingest_watched s (ab_ti b) tenant w (sc_findings r) of (created, seen, t) \<Rightarrow>
               \<lparr>ab_created = ab_created b + created, ab_requests = ab_requests b + sc_requests r,
                ab_seen = ab_seen b + seen, ab_failed = ab_failed b,
                ab_ti = save_watched (\<lambda>x. x\<lparr>wa_last_scanned_at := Some (sd_now s)\<rparr>) (wa_id w) t\<rparr>))"

definition found_notice :: "int \<Rightarrow> notice" where
  "found_notice n =
     \<lparr>nc_kind = Watched_findings_new,
      nc_title = show_int n @ '' nouvelle'' @ (if 1 < n then ''s'' else []) @ '' fuite'' @ (if 1 < n then ''s'' else []) @
        '' sur vos comptes surveill'' @ [CHR 0xE9] @ ''s'',
      nc_body = ''Chaque r'' @ [CHR 0xE9] @ ''sultat est d'' @ [CHR 0xE9] @ ''taill'' @ [CHR 0xE9] @ '' avec ce qu'' @ [CHR 0x27] @
     ''il implique et ce qu'' @ [CHR 0x27] @ ''il faut faire.'',
      nc_link = ''/comptes-surveilles'', nc_dedupe_key = []\<rparr>"

definition record_accounts :: "surroundings \<Rightarrow> provider \<Rightarrow> int \<Rightarrow> account_batch \<Rightarrow> unit outcome" where
  "record_accounts s p tenant b =
     (if ab_requests b = 0 then (Inr (), ab_ti b)
      else case get_remaining s p (ab_ti b) False of
             (Inl e, t) \<Rightarrow> (Inl e, t)
           | (Inr r, t) \<Rightarrow>
               (Inr (), record_usage s t tenant WATCHED_ACCOUNT_ENDPOINT (ab_requests b) r Manual (ab_created b)))"

definition execute_watched_account_scan ::
  "surroundings \<Rightarrow> (nat \<Rightarrow> provider) \<Rightarrow> ti \<Rightarrow> int \<Rightarrow> watched_account list \<Rightarrow> payload outcome" where
  "execute_watched_account_scan s pv t tenant accounts =
     (let b = scan_accounts s pv 0 tenant accounts
                \<lparr>ab_created = 0, ab_requests = 0, ab_seen = 0, ab_failed = 0, ab_ti = t\<rparr>
      in case record_accounts s (pv (length accounts)) tenant b of
           (Inl e, t2) \<Rightarrow> (Inl e, t2)
         | (Inr _, t2) \<Rightarrow>
             if ab_failed b \<noteq> 0 \<and> ab_created b = 0 \<and> ab_failed b = length accounts then (Inl (Scan_impossible []), t2)
             else (Inr [(''findings_created'', JInt (ab_created b)), (''findings_seen_again'', JInt (ab_seen b)),
                        (''requests_consumed'', JInt (ab_requests b)),
                        (''accounts_scanned'', JInt (int (length accounts) - int (ab_failed b))),
                        (''accounts_failed'', JInt (int (ab_failed b)))],
                   if ab_created b = 0 then t2
                   else t2\<lparr>ti_inbox := snd (notify_tenant_admins (sd_now s) (ti_db t2) (ti_inbox t2) tenant
                                              (found_notice (ab_created b)))\<rparr>))"

definition account_ids_of :: "payload \<Rightarrow> int list" where
  "account_ids_of p =
     (case map_of p ''account_ids'' of
        Some (JArr js) \<Rightarrow> List.map_filter (\<lambda>j. case j of JInt n \<Rightarrow> Some n | _ \<Rightarrow> None) js
      | _ \<Rightarrow> [])"

definition deliver_watched_scan :: "surroundings \<Rightarrow> (nat \<Rightarrow> provider) \<Rightarrow> ti \<Rightarrow> int \<Rightarrow> int \<Rightarrow> nat \<Rightarrow> delivery \<times> ti" where
  "deliver_watched_scan s pv t tenant_id job_id retries =
     (case tenant_row t tenant_id of
        None \<Rightarrow> (Over None, t)
      | Some tenant \<Rightarrow>
          (case job_row t job_id of
             None \<Rightarrow> (Over None, t)
           | Some j0 \<Rightarrow>
               if jb_status j0 \<in> {Finished, Failed} then (Over None, t)
               else case mark_job_running t j0 of (j, t1) \<Rightarrow>
                 (let accounts = resolve_scan_targets t1 tenant_id (account_ids_of (jb_result j))
                  in if accounts = []
                     then (Over None, conclude s t1 (Some j) [(''findings_created'', JInt 0), (''accounts_scanned'', JInt 0)])
                     else case execute_watched_account_scan s pv t1 tenant_id accounts of
                            (Inl e, t2) \<Rightarrow>
                              if retries < SCAN_MAX_RETRIES then (Again, t2)
                              else (Over None, snd (mark_job_failed s t2 j SCAN_FAILED))
                          | (Inr result, t2) \<Rightarrow> (Over (Some result), conclude s t2 (Some j) result))))"

fun run_watched_account_scan_task ::
  "(nat \<Rightarrow> surroundings) \<Rightarrow> (nat \<Rightarrow> nat \<Rightarrow> provider) \<Rightarrow> (nat \<Rightarrow> ti \<Rightarrow> ti) \<Rightarrow> int \<Rightarrow> int \<Rightarrow> nat \<Rightarrow> nat \<Rightarrow> ti \<Rightarrow> payload option \<times> ti" where
  "run_watched_account_scan_task ss pv others tenant_id job_id retries 0 t =
     (case deliver_watched_scan (ss retries) (pv retries) (others retries t) tenant_id job_id retries of
        (Again, t') \<Rightarrow> (None, t')
      | (Over r, t') \<Rightarrow> (r, t'))"
| "run_watched_account_scan_task ss pv others tenant_id job_id retries (Suc left) t =
     (case deliver_watched_scan (ss retries) (pv retries) (others retries t) tenant_id job_id retries of
        (Again, t') \<Rightarrow> run_watched_account_scan_task ss pv others tenant_id job_id (retries + 1) left t'
      | (Over r, t') \<Rightarrow> (r, t'))"

section \<open>The views\<close>

definition watch_account :: "surroundings \<Rightarrow> ti \<Rightarrow> tenant \<Rightarrow> int option \<Rightarrow> account_form \<Rightarrow> (view_refusal + watched_account) \<times> ti" where
  "watch_account s t tenant user dc =
     (case rbind (ensure_feature (ti_db t) (te_id tenant) WATCHED_ACCOUNTS) (\<lambda>_. ensure_operational (ti_db t) (te_id tenant)) of
        Inl e \<Rightarrow> (Inl (Payment e), t)
      | Inr _ \<Rightarrow>
          (case declare_watched_account s t tenant user dc of
             (Inr w, t') \<Rightarrow> (Inr w, t')
           | (Inl (Entitlement e), t') \<Rightarrow> (Inl (Payment e), t')
           | (Inl e, t') \<Rightarrow> (Inl (Refused e), t')))"

text \<open>Stopping the treatment of a person's data never depends on a subscription.\<close>

definition unwatch_account :: "surroundings \<Rightarrow> ti \<Rightarrow> int \<Rightarrow> int option \<Rightarrow> int \<Rightarrow> string \<Rightarrow> (view_refusal + watched_account) \<times> ti" where
  "unwatch_account s t tenant user i reason =
     (case get_watched_account t tenant i of
        None \<Rightarrow> (Inl Absent, t)
      | Some w \<Rightarrow> (case remove_watched_account s t w user reason of (w', t') \<Rightarrow> (Inr w', t')))"

definition trigger_watched_scan :: "surroundings \<Rightarrow> ti \<Rightarrow> int \<Rightarrow> string option \<Rightarrow> int list \<Rightarrow> (view_refusal + scan_job) \<times> ti" where
  "trigger_watched_scan s t tenant user ids =
     (case ensure_feature (ti_db t) tenant WATCHED_ACCOUNTS of
        Inl e \<Rightarrow> (Inl (Payment e), t)
      | Inr _ \<Rightarrow>
          (let accounts = resolve_scan_targets t tenant ids
           in if accounts = [] then (Inl Nothing_to_scan, t)
              else case rbind (ensure_operational (ti_db t) tenant)
                     (\<lambda>_. ensure_watched_account_scan_quota (sd_now s) (ti_db t) tenant) of
                     Inl e \<Rightarrow> (Inl (Payment e), t)
                   | Inr _ \<Rightarrow>
                       (case ensure_scan_budget_available (sd_env s) (ti_db t) (int (length accounts)) of
                          Inl e \<Rightarrow> (Inl (No_capacity e), t)
                        | Inr _ \<Rightarrow>
                            (case create_watched_account_scan_job s t tenant user accounts of (j, t') \<Rightarrow> (Inr j, t')))))"

end
