(* ===== verification/WatchedSafety.thy ===== *)
theory WatchedSafety
  imports Watched
begin

text \<open>
  What the watched accounts guarantee: a declaration is never lost or rewritten and a removal is final,
  a scan touches nothing but the table of its own results, which it never reopens, and the groups of the
  screen are exactly the rows they stand for.
\<close>

section \<open>A scan and its tables\<close>

definition wf_key :: "watched_finding \<Rightarrow> int \<times> string" where
  "wf_key f = (wf_tenant f, wf_dedup_hash f)"

definition wf_ok :: "ti \<Rightarrow> bool" where
  "wf_ok t =
     (distinct (map wf_key (ti_watched_findings t)) \<and> distinct (map wf_id (ti_watched_findings t)) \<and>
      (\<forall>f \<in> set (ti_watched_findings t). wf_id f \<le> ti_seq t))"

text \<open>What a scan leaves of a row of results and of a declaration.\<close>

definition still :: "watched_finding \<Rightarrow> watched_finding" where
  "still f = f\<lparr>wf_last_seen_at := None\<rparr>"

definition declared :: "watched_account \<Rightarrow> watched_account" where
  "declared w = w\<lparr>wa_first_scanned_at := None, wa_last_scanned_at := None\<rparr>"

definition outside :: "ti \<Rightarrow> mon \<times> box \<times> finding list \<times> scan_job list \<times> synthesis list \<times> reveal_audit list \<times> db" where
  "outside t = (ti_mon t, ti_inbox t, ti_findings t, ti_jobs t, ti_syntheses t, ti_reveals t, (ti_db t)\<lparr>d_watched := []\<rparr>)"

definition scanned :: "(watched_finding \<Rightarrow> bool) \<Rightarrow> ti \<Rightarrow> ti \<Rightarrow> bool" where
  "scanned new t t' =
     (outside t' = outside t \<and> ti_seq t \<le> ti_seq t' \<and>
      map declared (d_watched (ti_db t')) = map declared (d_watched (ti_db t)) \<and>
      (\<exists>fs. map still (ti_watched_findings t') = map still fs @ map still (ti_watched_findings t) \<and>
         (\<forall>f \<in> set fs. new f \<and> ti_seq t < wf_id f)) \<and>
      (wf_ok t \<longrightarrow> wf_ok t'))"

lemma scanned_refl [simp]: "scanned new t t"
  by (auto simp: scanned_def)

lemma scanned_trans:
  assumes "scanned new t u" and "scanned new u v"
  shows "scanned new t v"
proof -
  from assms(1) obtain fs where fs: "map still (ti_watched_findings u) = map still fs @ map still (ti_watched_findings t)"
    "\<forall>f \<in> set fs. new f \<and> ti_seq t < wf_id f" by (auto simp: scanned_def)
  from assms(2) obtain gs where gs: "map still (ti_watched_findings v) = map still gs @ map still (ti_watched_findings u)"
    "\<forall>f \<in> set gs. new f \<and> ti_seq u < wf_id f" by (auto simp: scanned_def)
  have "ti_seq t \<le> ti_seq u" using assms(1) by (simp add: scanned_def)
  with fs gs have "map still (ti_watched_findings v) = map still (gs @ fs) @ map still (ti_watched_findings t) \<and>
      (\<forall>f \<in> set (gs @ fs). new f \<and> ti_seq t < wf_id f)" by auto
  with assms show ?thesis unfolding scanned_def
    by (intro conjI exI [of _ "gs @ fs"]) (simp_all add: scanned_def)
qed

lemma wf_ok_cong:
  assumes "map still (ti_watched_findings t') = map still (ti_watched_findings t)" and "ti_seq t' = ti_seq t"
  shows "wf_ok t' = wf_ok t"
proof -
  have "map g (ti_watched_findings t') = map g (ti_watched_findings t)" if "\<And>f. g (still f) = g f" for g :: "watched_finding \<Rightarrow> 'a"
  proof -
    have "map g (ti_watched_findings t') = map g (map still (ti_watched_findings t'))" by (simp add: that comp_def)
    also have "\<dots> = map g (ti_watched_findings t)" unfolding assms(1) by (simp add: that comp_def)
    finally show ?thesis .
  qed
  from this [of wf_key] this [of wf_id] have "map wf_key (ti_watched_findings t') = map wf_key (ti_watched_findings t)"
    and ids: "map wf_id (ti_watched_findings t') = map wf_id (ti_watched_findings t)"
    by (simp_all add: still_def wf_key_def)
  moreover have "wf_id ` set (ti_watched_findings t') = wf_id ` set (ti_watched_findings t)"
    using ids by (metis set_map)
  then have "(\<forall>f \<in> set (ti_watched_findings t'). wf_id f \<le> n) = (\<forall>f \<in> set (ti_watched_findings t). wf_id f \<le> n)" for n
    by (metis (mono_tags, lifting) imageE imageI)
  ultimately show ?thesis by (simp add: wf_ok_def assms(2))
qed

lemma save_watched_scanned:
  assumes "\<And>w. declared (f w) = declared w"
  shows "scanned new t (save_watched f i t)"
proof -
  have "wf_ok (save_watched f i t) = wf_ok t" by (rule wf_ok_cong) (simp_all add: save_watched_def)
  then show ?thesis by (auto simp: scanned_def outside_def save_watched_def map_upd_where assms)
qed

text \<open>The rows a record of the provider may become.\<close>

definition row_of :: "surroundings \<Rightarrow> int \<Rightarrow> watched_account \<Rightarrow> raw_finding list \<Rightarrow> watched_finding \<Rightarrow> bool" where
  "row_of s tenant w raws f =
     (\<exists>i. \<exists>raw \<in> set raws. f = watched_row s i tenant w (normalize_finding (sd_texts s) (rw_endpoint raw) (rw_payload raw)))"

lemma ingest_watched_one_scanned:
  assumes "ingest_watched_one s tenant w raw (c, n, t) = (c', n', t')" and "raw \<in> set raws"
  shows "scanned (row_of s tenant w raws) t t'"
proof (cases "rw_is_test raw")
  case True
  with assms(1) show ?thesis by (simp add: ingest_watched_one_def)
next
  case False
  let ?n = "normalize_finding (sd_texts s) (rw_endpoint raw) (rw_payload raw)"
  show ?thesis
  proof (cases "find (\<lambda>f. wf_tenant f = tenant \<and> wf_dedup_hash f = nf_dedup_hash ?n) (ti_watched_findings t)")
    case None
    let ?f = "watched_row s (ti_seq t + 1) tenant w ?n"
    have t': "t' = t\<lparr>ti_seq := ti_seq t + 1, ti_watched_findings := ?f # ti_watched_findings t\<rparr>"
      using assms(1) False None by (simp add: ingest_watched_one_def Let_def)
    have key: "wf_key ?f = (tenant, nf_dedup_hash ?n)" by (simp add: wf_key_def watched_row_def)
    have "wf_key ?f \<notin> wf_key ` set (ti_watched_findings t)"
      unfolding key using None by (auto simp: find_None_iff wf_key_def)
    moreover have id: "wf_id ?f = ti_seq t + 1" by (simp add: watched_row_def)
    ultimately have ok: "wf_ok t \<longrightarrow> wf_ok t'" by (auto simp: wf_ok_def t')
    have new: "row_of s tenant w raws ?f \<and> ti_seq t < wf_id ?f"
      unfolding row_of_def using assms(2) id by auto
    have "map still (ti_watched_findings t') = map still [?f] @ map still (ti_watched_findings t)" by (simp add: t')
    with new ok show ?thesis unfolding scanned_def by (intro conjI exI [of _ "[?f]"]) (simp_all add: t' outside_def)
  next
    case (Some f)
    let ?t = "save_watched_finding (\<lambda>r. r\<lparr>wf_last_seen_at := Some (sd_now s)\<rparr>) (wf_id f) t"
    have t': "t' = ?t" using assms(1) False Some by (simp add: ingest_watched_one_def Let_def)
    have same: "map still (ti_watched_findings ?t) = map still (ti_watched_findings t)"
      by (simp add: save_watched_finding_def map_upd_where still_def)
    moreover have "wf_ok ?t = wf_ok t" by (rule wf_ok_cong [OF same]) (simp add: save_watched_finding_def)
    ultimately show ?thesis by (auto simp: scanned_def t' outside_def save_watched_finding_def)
  qed
qed

lemma ingest_watched_fold_scanned:
  "fold (ingest_watched_one s tenant w) xs (c, n, t) = (c', n', t') \<Longrightarrow> set xs \<subseteq> set raws \<Longrightarrow>
   scanned (row_of s tenant w raws) t t'"
proof (induction xs arbitrary: c n t)
  case (Cons x xs)
  obtain c1 n1 t1 where one: "ingest_watched_one s tenant w x (c, n, t) = (c1, n1, t1)" by (metis prod_cases3)
  with Cons.prems have "fold (ingest_watched_one s tenant w) xs (c1, n1, t1) = (c', n', t')" by simp
  from Cons.IH [OF this] ingest_watched_one_scanned [OF one] Cons.prems(2) show ?case by (auto intro: scanned_trans)
qed simp

lemma ingest_watched_scanned:
  assumes "ingest_watched s t tenant w raws = (c, n, t')"
  shows "scanned (row_of s tenant w raws) t t'"
proof -
  obtain c1 n1 t1 where f: "fold (ingest_watched_one s tenant w) raws (0, 0, t) = (c1, n1, t1)" by (metis prod_cases3)
  have "scanned (row_of s tenant w raws) t1 (save_watched (\<lambda>r. r\<lparr>wa_first_scanned_at := Some (sd_now s)\<rparr>) (wa_id w) t1)"
    by (rule save_watched_scanned) (simp add: declared_def)
  with assms f ingest_watched_fold_scanned [OF f] show ?thesis
    by (auto simp: ingest_watched_def split: if_splits intro: scanned_trans)
qed

lemma scanned_mono: "scanned new t t' \<Longrightarrow> (\<And>f. new f \<Longrightarrow> new' f) \<Longrightarrow> scanned new' t t'"
  unfolding scanned_def by blast

text \<open>The rows a whole scan may add.\<close>

definition found_row :: "surroundings \<Rightarrow> (nat \<Rightarrow> provider) \<Rightarrow> int \<Rightarrow> watched_account list \<Rightarrow> watched_finding \<Rightarrow> bool" where
  "found_row s pv tenant ws f =
     (\<exists>k. \<exists>w \<in> set ws. \<exists>r. pv_scan_email (pv k) (wa_value w) = Inr r \<and> row_of s tenant w (sc_findings r) f)"

lemma scan_accounts_scanned:
  "set ws \<subseteq> set all \<Longrightarrow> scanned (found_row s pv tenant all) (ab_ti b) (ab_ti (scan_accounts s pv k tenant ws b))"
proof (induction ws arbitrary: k b)
  case (Cons w ws)
  show ?case
  proof (cases "pv_scan_email (pv k) (wa_value w)")
    case (Inl e)
    with Cons.IH [where k = "k + 1" and b = "b\<lparr>ab_failed := ab_failed b + 1\<rparr>"] Cons.prems show ?thesis by simp
  next
    case (Inr r)
    obtain c n t where i: "ingest_watched s (ab_ti b) tenant w (sc_findings r) = (c, n, t)" by (metis prod_cases3)
    let ?t = "save_watched (\<lambda>x. x\<lparr>wa_last_scanned_at := Some (sd_now s)\<rparr>) (wa_id w) t"
    let ?b = "\<lparr>ab_created = ab_created b + c, ab_requests = ab_requests b + sc_requests r,
                ab_seen = ab_seen b + n, ab_failed = ab_failed b, ab_ti = ?t\<rparr>"
    have "scanned (found_row s pv tenant all) (ab_ti b) t"
      by (rule scanned_mono [OF ingest_watched_scanned [OF i]]) (use Inr Cons.prems in \<open>auto simp: found_row_def\<close>)
    moreover have "scanned (found_row s pv tenant all) t ?t"
      by (rule save_watched_scanned) (simp add: declared_def)
    ultimately have "scanned (found_row s pv tenant all) (ab_ti b) (ab_ti ?b)" by (auto intro: scanned_trans)
    moreover have "scanned (found_row s pv tenant all) (ab_ti ?b) (ab_ti (scan_accounts s pv (k + 1) tenant ws ?b))"
      using Cons.IH [where k = "k + 1" and b = ?b] Cons.prems by simp
    ultimately show ?thesis using Inr i by (auto intro: scanned_trans)
  qed
qed simp

text \<open>After the accounts, only the usage, the cache and the notifications are written.\<close>

definition results :: "ti \<Rightarrow> mon \<times> finding list \<times> scan_job list \<times> synthesis list \<times> reveal_audit list \<times> watched_account list \<times>
    watched_finding list \<times> int \<times> tenant list \<times> int" where
  "results t = (ti_mon t, ti_findings t, ti_jobs t, ti_syntheses t, ti_reveals t, d_watched (ti_db t),
     ti_watched_findings t, ti_seq t, d_tenants (ti_db t), d_seq (ti_db t))"

lemma get_remaining_results: "get_remaining s p t f = (r, t') \<Longrightarrow> results t' = results t"
  using get_remaining_shape [of s p t f r t'] by (auto simp: results_def cache_remaining_def)

lemma record_usage_results: "results (record_usage s t ten ep rq rm tr c) = results t"
  by (auto simp: record_usage_def results_def cache_remaining_def Let_def split: option.split)

lemma execute_watched_results:
  assumes "execute_watched_account_scan s pv t tenant ws = (r, t')"
  shows "\<exists>u. scanned (found_row s pv tenant ws) t u \<and> results t' = results u"
proof -
  let ?b = "scan_accounts s pv 0 tenant ws \<lparr>ab_created = 0, ab_requests = 0, ab_seen = 0, ab_failed = 0, ab_ti = t\<rparr>"
  obtain x t2 where x: "record_accounts s (pv (length ws)) tenant ?b = (x, t2)" by fastforce
  have "results t2 = results (ab_ti ?b)"
    using x by (auto simp: record_accounts_def record_usage_results split: if_splits prod.splits sum.splits
        dest: get_remaining_results)
  moreover have "results (t2\<lparr>ti_inbox := i\<rparr>) = results t2" for i by (simp add: results_def)
  ultimately have "results t' = results (ab_ti ?b)"
    using assms x by (auto simp: execute_watched_account_scan_def Let_def split: sum.splits if_splits)
  with scan_accounts_scanned [of ws ws s pv tenant "\<lparr>ab_created = 0, ab_requests = 0, ab_seen = 0, ab_failed = 0, ab_ti = t\<rparr>" 0]
  show ?thesis by (intro exI [of _ "ab_ti ?b"]) simp
qed

section \<open>Declarations\<close>

definition declaration_of :: "watched_account \<Rightarrow> int \<times> int \<times> string \<times> string \<times> string \<times> string \<times> string \<times> string \<times> string \<times> int option \<times> time" where
  "declaration_of w = (wa_id w, wa_tenant w, wa_value w, wa_label w, wa_category w, wa_legal_basis w, wa_purpose w,
     wa_declaration_text w, wa_declaration_version w, wa_declared_by w, wa_declared_at w)"

definition removal_of :: "watched_account \<Rightarrow> bool \<times> time option \<times> int option \<times> string" where
  "removal_of w = (wa_is_active w, wa_removed_at w, wa_removed_by w, wa_removal_reason w)"

definition account_key :: "watched_account \<Rightarrow> int \<times> string" where
  "account_key w = (wa_tenant w, wa_value w)"

definition watched_ok :: "ti \<Rightarrow> bool" where
  "watched_ok t =
     (let ws = d_watched (ti_db t)
      in at_most_one wa_is_active account_key ws \<and> distinct (map wa_id ws) \<and>
         (\<forall>w \<in> set ws. wa_id w \<le> d_seq (ti_db t) \<and> wa_value w \<noteq> [] \<and> wa_purpose w \<noteq> [] \<and>
            (wa_is_active w \<longleftrightarrow> wa_removed_at w = None)))"

definition declarations_kept :: "ti \<Rightarrow> ti \<Rightarrow> bool" where
  "declarations_kept t t' =
     (\<forall>w \<in> set (d_watched (ti_db t)). \<exists>w' \<in> set (d_watched (ti_db t')).
        declaration_of w' = declaration_of w \<and> (\<not> wa_is_active w \<longrightarrow> removal_of w' = removal_of w))"

lemma declarations_kept_refl [simp]: "declarations_kept t t"
  by (auto simp: declarations_kept_def)

lemma declarations_kept_trans:
  assumes "declarations_kept t u" and "declarations_kept u v"
  shows "declarations_kept t v"
  unfolding declarations_kept_def
proof
  fix w assume "w \<in> set (d_watched (ti_db t))"
  with assms(1) obtain x where x: "x \<in> set (d_watched (ti_db u))" "declaration_of x = declaration_of w"
    "\<not> wa_is_active w \<longrightarrow> removal_of x = removal_of w" unfolding declarations_kept_def by blast
  with assms(2) obtain y where y: "y \<in> set (d_watched (ti_db v))" "declaration_of y = declaration_of x"
    "\<not> wa_is_active x \<longrightarrow> removal_of y = removal_of x" unfolding declarations_kept_def by blast
  have "\<not> wa_is_active w \<Longrightarrow> \<not> wa_is_active x" using x(3) by (auto simp: removal_of_def)
  with x y show "\<exists>y \<in> set (d_watched (ti_db v)). declaration_of y = declaration_of w \<and>
      (\<not> wa_is_active w \<longrightarrow> removal_of y = removal_of w)" by (intro bexI [of _ y]) simp_all
qed

text \<open>Rows that differ by the dates of the scans only.\<close>

lemma declared_same:
  assumes "map declared ws' = map declared ws"
  shows "at_most_one wa_is_active account_key ws' = at_most_one wa_is_active account_key ws"
    and "map wa_id ws' = map wa_id ws"
    and "w \<in> set ws \<Longrightarrow> \<exists>w' \<in> set ws'. declaration_of w' = declaration_of w \<and> removal_of w' = removal_of w"
    and "w' \<in> set ws' \<Longrightarrow> \<exists>w \<in> set ws. declaration_of w' = declaration_of w \<and> removal_of w' = removal_of w"
proof -
  have view: "declaration_of (declared w) = declaration_of w" "removal_of (declared w) = removal_of w" for w
    by (simp_all add: declared_def declaration_of_def removal_of_def)
  have "map g ws' = map g ws" if "\<And>w. g (declared w) = g w" for g :: "watched_account \<Rightarrow> 'x"
  proof -
    have "map g ws' = map g (map declared ws')" by (simp add: that comp_def)
    also have "\<dots> = map g ws" unfolding assms by (simp add: that comp_def)
    finally show ?thesis .
  qed
  note maps = this
  show "map wa_id ws' = map wa_id ws" by (rule maps) (simp add: declared_def)
  have two: "map (\<lambda>w. (wa_is_active w, account_key w)) ws' = map (\<lambda>w. (wa_is_active w, account_key w)) ws"
    by (rule maps) (simp add: declared_def account_key_def)
  have keys: "map account_key (filter wa_is_active xs) = map snd (filter fst (map (\<lambda>w. (wa_is_active w, account_key w)) xs))" for xs
    by (induction xs) auto
  show "at_most_one wa_is_active account_key ws' = at_most_one wa_is_active account_key ws"
    unfolding at_most_one_def keys two ..
  have "map (\<lambda>w. (declaration_of w, removal_of w)) ws' = map (\<lambda>w. (declaration_of w, removal_of w)) ws"
    by (rule maps) (simp only: view)
  from arg_cong [OF this, of set]
  have sets: "(\<lambda>w. (declaration_of w, removal_of w)) ` set ws' = (\<lambda>w. (declaration_of w, removal_of w)) ` set ws"
    by (simp only: set_map)
  let ?g = "\<lambda>w. (declaration_of w, removal_of w)"
  show "\<exists>w' \<in> set ws'. declaration_of w' = declaration_of w \<and> removal_of w' = removal_of w" if "w \<in> set ws"
  proof -
    from that have "?g w \<in> ?g ` set ws'" unfolding sets by (rule imageI)
    then show ?thesis by (elim imageE) (simp only: prod.inject, metis)
  qed
  show "\<exists>w \<in> set ws. declaration_of w' = declaration_of w \<and> removal_of w' = removal_of w" if "w' \<in> set ws'"
  proof -
    from that have "?g w' \<in> ?g ` set ws" unfolding sets [symmetric] by (rule imageI)
    then show ?thesis by (elim imageE) (simp only: prod.inject, metis)
  qed
qed

lemma declared_same_ok:
  assumes "map declared (d_watched (ti_db t')) = map declared (d_watched (ti_db t))" and "d_seq (ti_db t') = d_seq (ti_db t)"
    and "watched_ok t"
  shows "watched_ok t' \<and> declarations_kept t t'"
proof
  note same = declared_same [OF assms(1)]
  show "declarations_kept t t'" using same(3) unfolding declarations_kept_def by blast
  have "wa_id w' \<le> d_seq (ti_db t') \<and> wa_value w' \<noteq> [] \<and> wa_purpose w' \<noteq> [] \<and> (wa_is_active w' \<longleftrightarrow> wa_removed_at w' = None)"
    if "w' \<in> set (d_watched (ti_db t'))" for w'
  proof -
    from same(4) [OF that] obtain w where "w \<in> set (d_watched (ti_db t))" "declaration_of w' = declaration_of w" "removal_of w' = removal_of w"
      by blast
    with assms(2,3) show ?thesis by (auto simp: watched_ok_def Let_def declaration_of_def removal_of_def)
  qed
  with assms(3) same(1,2) show "watched_ok t'" by (simp add: watched_ok_def Let_def)
qed

lemma deliver_watched_same:
  assumes "deliver_watched_scan s pv t tenant i retries = (r, t')"
  shows "map declared (d_watched (ti_db t')) = map declared (d_watched (ti_db t)) \<and> d_seq (ti_db t') = d_seq (ti_db t)"
proof -
  have run: "map declared (d_watched (ti_db v)) = map declared (d_watched (ti_db u)) \<and> d_seq (ti_db v) = d_seq (ti_db u)"
    if x: "execute_watched_account_scan s pv u tenant ws = (x, v)" for u ws x v
  proof -
    from execute_watched_results [OF x] obtain b where sc: "scanned (found_row s pv tenant ws) u b" and v: "results v = results b"
      by blast
    from sc have "(ti_db b)\<lparr>d_watched := []\<rparr> = (ti_db u)\<lparr>d_watched := []\<rparr>" by (simp add: scanned_def outside_def)
    then have "d_seq ((ti_db b)\<lparr>d_watched := []\<rparr>) = d_seq ((ti_db u)\<lparr>d_watched := []\<rparr>)" by simp
    with sc v show ?thesis by (simp add: scanned_def results_def)
  qed
  have jobs: "ti_db (save_job f k u) = ti_db u" for f k u by (simp add: save_job_def)
  have last: "ti_db (snd (mark_job_failed s u j m)) = ti_db u" "ti_db (conclude s u oj p) = ti_db u" for u j m oj p
    by (simp_all add: mark_job_failed_def conclude_def mark_job_done_def Let_def jobs split: option.split)
  from assms show ?thesis
    by (auto simp: deliver_watched_scan_def Let_def mark_job_running_def jobs last split: option.splits if_splits prod.splits sum.splits
        dest!: run)
qed

inductive account_step :: "ti \<Rightarrow> ti \<Rightarrow> bool" where
  step_declare: "declare_watched_account s t tenant user dc = (r, t') \<Longrightarrow> account_step t t'"
| step_remove: "w \<in> set (d_watched (ti_db t)) \<Longrightarrow> remove_watched_account s t w user reason = (w', t') \<Longrightarrow> account_step t t'"
| step_status: "update_watched_account_finding_status s t f status = (g, t') \<Longrightarrow> account_step t t'"
| step_scan: "deliver_watched_scan s pv t tenant_id i retries = (r, t') \<Longrightarrow> account_step t t'"

lemma declare_shape:
  assumes "declare_watched_account s t tenant user dc = (r, t')"
  shows "(\<exists>e. r = Inl e \<and> t' = t) \<or>
    (\<exists>w. r = Inr w \<and> w = new_watched_account s (d_seq (ti_db t) + 1) (te_id tenant) user dc \<and> wa_value w \<noteq> [] \<and> wa_purpose w \<noteq> [] \<and>
       ensure_watched_account_quota (ti_db t) (te_id tenant) = Inr () \<and>
       (\<forall>x \<in> set (d_watched (ti_db t)). wa_is_active x \<longrightarrow> account_key x \<noteq> account_key w) \<and>
       (\<exists>b. t' = t\<lparr>ti_db := (ti_db t)\<lparr>d_seq := d_seq (ti_db t) + 1, d_watched := w # d_watched (ti_db t)\<rparr>, ti_inbox := b\<rparr>))"
  using assms by (auto simp: declare_watched_account_def new_watched_account_def account_key_def Let_def
      split: if_splits sum.splits)

lemma account_step_ok:
  assumes "account_step t t'" and "watched_ok t"
  shows "watched_ok t' \<and> declarations_kept t t'"
  using assms(1)
proof cases
  case (step_declare s tenant user dc r)
  from declare_shape [OF step_declare] show ?thesis
  proof
    assume "\<exists>w. r = Inr w \<and> w = new_watched_account s (d_seq (ti_db t) + 1) (te_id tenant) user dc \<and> wa_value w \<noteq> [] \<and> wa_purpose w \<noteq> [] \<and>
       ensure_watched_account_quota (ti_db t) (te_id tenant) = Inr () \<and>
       (\<forall>x \<in> set (d_watched (ti_db t)). wa_is_active x \<longrightarrow> account_key x \<noteq> account_key w) \<and>
       (\<exists>b. t' = t\<lparr>ti_db := (ti_db t)\<lparr>d_seq := d_seq (ti_db t) + 1, d_watched := w # d_watched (ti_db t)\<rparr>, ti_inbox := b\<rparr>)"
    then obtain w b where w: "w = new_watched_account s (d_seq (ti_db t) + 1) (te_id tenant) user dc" "wa_value w \<noteq> []" "wa_purpose w \<noteq> []"
        "\<forall>x \<in> set (d_watched (ti_db t)). wa_is_active x \<longrightarrow> account_key x \<noteq> account_key w"
      and t': "t' = t\<lparr>ti_db := (ti_db t)\<lparr>d_seq := d_seq (ti_db t) + 1, d_watched := w # d_watched (ti_db t)\<rparr>, ti_inbox := b\<rparr>"
      by blast
    have row: "wa_id w = d_seq (ti_db t) + 1" "wa_is_active w" "wa_removed_at w = None" by (simp_all add: w(1) new_watched_account_def)
    have "at_most_one wa_is_active account_key (w # d_watched (ti_db t))"
      using assms(2) w(4) by (intro at_most_one_Cons) (auto simp: watched_ok_def Let_def)
    moreover have "wa_id w \<notin> wa_id ` set (d_watched (ti_db t))"
      using assms(2) row(1) by (force simp: watched_ok_def Let_def)
    ultimately have "watched_ok t'" using assms(2) row w(2,3) by (force simp: watched_ok_def Let_def t')
    then show ?thesis by (auto simp: declarations_kept_def t')
  qed (use assms(2) in auto)
next
  case (step_remove w s user reason w')
  show ?thesis
  proof (cases "wa_is_active w")
    case True
    let ?f = "\<lambda>r. r\<lparr>wa_is_active := False, wa_removed_at := Some (sd_now s), wa_removed_by := user, wa_removal_reason := take 200 reason\<rparr>"
    have t': "t' = save_watched ?f (wa_id w) t" using step_remove(2) True by (simp add: remove_watched_account_def Let_def)
    have only: "x = w" if "x \<in> set (d_watched (ti_db t))" "wa_id x = wa_id w" for x
      using assms(2) that step_remove(1) distinct_map_eq [of wa_id] by (auto simp: watched_ok_def Let_def)
    have "at_most_one wa_is_active account_key (upd_where (\<lambda>x. wa_id x = wa_id w) ?f (d_watched (ti_db t)))"
      using assms(2) by (intro at_most_one_upd) (auto simp: watched_ok_def Let_def)
    moreover have "map wa_id (upd_where (\<lambda>x. wa_id x = wa_id w) ?f (d_watched (ti_db t))) = map wa_id (d_watched (ti_db t))"
      by (rule map_upd_where) simp
    ultimately have "watched_ok t'"
      using assms(2) by (auto simp: watched_ok_def Let_def t' save_watched_def set_upd_where)
    moreover have "\<exists>w' \<in> set (d_watched (ti_db t')). declaration_of w' = declaration_of x \<and> (\<not> wa_is_active x \<longrightarrow> removal_of w' = removal_of x)"
      if x: "x \<in> set (d_watched (ti_db t))" for x
    proof (cases "wa_id x = wa_id w")
      case True
      with only x \<open>wa_is_active w\<close> show ?thesis
        by (intro bexI [of _ "?f w"]) (auto simp: declaration_of_def t' save_watched_def set_upd_where image_iff)
    next
      case False
      with x show ?thesis by (intro bexI [of _ x]) (auto simp: t' save_watched_def set_upd_where image_iff)
    qed
    ultimately show ?thesis by (simp add: declarations_kept_def)
  next
    case False
    with step_remove(2) assms(2) show ?thesis by (simp add: remove_watched_account_def)
  qed
next
  case (step_status s f status g)
  then have "ti_db t' = ti_db t" by (auto simp: update_watched_account_finding_status_def save_watched_finding_def Let_def)
  with assms(2) show ?thesis by (auto simp: watched_ok_def declarations_kept_def)
next
  case (step_scan s pv tenant_id i retries r)
  from deliver_watched_same [OF step_scan] assms(2) show ?thesis by (intro declared_same_ok) simp_all
qed

lemma account_steps_ok:
  assumes "account_step\<^sup>*\<^sup>* t t'" and "watched_ok t"
  shows "watched_ok t' \<and> declarations_kept t t'"
  using assms by (induction rule: rtranclp_induct) (auto dest: account_step_ok intro: declarations_kept_trans)

section \<open>Groups\<close>

lemma filter_parts: "(\<Sum>k \<leftarrow> remdups (map g xs). length (filter (\<lambda>x. g x = k) xs)) = length xs"
proof -
  have "(\<Sum>k \<leftarrow> remdups (map g xs). length (filter (\<lambda>x. g x = k) xs)) = (\<Sum>k \<in> set (map g xs). length (filter (\<lambda>x. g x = k) xs))"
    by (subst sum_list_distinct_conv_sum_set) simp_all
  also have "\<dots> = (\<Sum>k \<in> set (map g xs). count_list (map g xs) k)"
    by (intro sum.cong refl) (simp add: count_list_eq_length_filter filter_map comp_def eq_commute)
  also have "\<dots> = length xs" using sum_count_set [of "map g xs" "set (map g xs)"] by simp
  finally show ?thesis .
qed

lemma sum_list_sort_key: "sum_list (map (h :: 'a \<Rightarrow> nat) (sort_key f xs)) = sum_list (map h xs)"
  by (metis mset_map mset_sort sum_mset_sum_list)

lemma foldr_max: "foldr max xs (x :: int) \<in> insert x (set xs) \<and> (\<forall>y \<in> insert x (set xs). y \<le> foldr max xs x)"
  by (induction xs) (auto simp: max_def)

lemma max_of_worst: "xs \<noteq> [] \<Longrightarrow> \<exists>m. max_of xs = Some m \<and> m \<in> set xs \<and> (\<forall>y \<in> set xs. y \<le> m)"
  using foldr_max [of xs "hd xs"] by (auto simp: max_of_def insert_absorb)

lemma severity_of_gravity [simp]: "severity_of_rank (Some (gravity_rank g)) = Some g"
  by (cases g) (simp_all add: gravity_rank_def severity_of_rank_def)

lemma group_row_worst:
  assumes "fs \<noteq> []"
  shows "\<exists>f \<in> set fs. fg_severity (group_row k fs) = Some (wf_severity f) \<and>
    (\<forall>x \<in> set fs. gravity_rank (wf_severity x) \<le> gravity_rank (wf_severity f))"
proof -
  from max_of_worst [of "map (\<lambda>f. gravity_rank (wf_severity f)) fs"] assms obtain m where
    m: "max_of (map (\<lambda>f. gravity_rank (wf_severity f)) fs) = Some m" "m \<in> (\<lambda>f. gravity_rank (wf_severity f)) ` set fs"
      "\<forall>y \<in> (\<lambda>f. gravity_rank (wf_severity f)) ` set fs. y \<le> m" by auto
  from m(2) obtain f where "f \<in> set fs" "m = gravity_rank (wf_severity f)" by auto
  with m show ?thesis by (intro bexI [of _ f]) (simp_all add: group_row_def)
qed

definition key_of_group :: "finding_group \<Rightarrow> int \<times> string \<times> string" where
  "key_of_group g = (fg_account g, fg_type g, fg_service g)"

lemma by_breach_date_mset: "mset (by_breach_date fs) = mset fs"
  by (simp add: by_breach_date_def)

section \<open>Properties\<close>

text \<open>
  C26: A declaration is a record that lasts: over any sequence of declarations, removals, treatments and
  scans, every account once declared keeps its row with the value, the basis, the purpose and the very text
  accepted, a removal keeps its date, its author and its reason for ever, and a company never has the same
  account active twice. A row that is active has no date of removal.
\<close>

theorem declarations_never_lost:
  assumes "account_step\<^sup>*\<^sup>* t t'" and "watched_ok t"
  shows "(\<forall>w \<in> set (d_watched (ti_db t)). \<exists>w' \<in> set (d_watched (ti_db t')).
        declaration_of w' = declaration_of w \<and> (\<not> wa_is_active w \<longrightarrow> removal_of w' = removal_of w)) \<and>
    at_most_one wa_is_active account_key (d_watched (ti_db t')) \<and>
    (\<forall>w \<in> set (d_watched (ti_db t')). wa_purpose w \<noteq> [] \<and> (wa_is_active w \<longleftrightarrow> wa_removed_at w = None))"
  using account_steps_ok [OF assms] by (simp add: declarations_kept_def watched_ok_def Let_def)

definition sample_form :: account_form where
  "sample_form = \<lparr>dc_value = '' Dirigeant@A.fr '', dc_label = [], dc_category = ''executive'', dc_legal_basis = ''own'',
     dc_purpose = ''veille'', dc_accepted = True\<rparr>"

definition sample_watched :: watched_account where
  "sample_watched = new_watched_account sample 1 7 (Some 3) sample_form"

definition watching :: ti where
  "watching = sample_ti\<lparr>ti_db := empty_db\<lparr>d_seq := 1, d_watched := [sample_watched]\<rparr>\<rparr>"

lemma sample_form_values: "normalize_account_value '' Dirigeant@A.fr '' = ''dirigeant@a.fr''" "strip ''veille'' = ''veille''"
  by code_simp+

lemma watching_ok: "watched_ok watching" "wf_ok watching"
  by (simp_all add: watched_ok_def wf_ok_def watching_def sample_watched_def new_watched_account_def sample_form_def sample_form_values
      sample_ti_def at_most_one_def Let_def empty_db_def)

theorem declarations_never_lost_witness:
  "\<exists>w' t' w''. remove_watched_account sample watching sample_watched (Some 3) ''fin'' = (w', t') \<and> \<not> wa_is_active w' \<and>
     w'' \<in> set (d_watched (ti_db t')) \<and> declaration_of w'' = declaration_of sample_watched \<and> wa_purpose w'' \<noteq> []"
proof -
  obtain w' t' where r: "remove_watched_account sample watching sample_watched (Some 3) ''fin'' = (w', t')" by fastforce
  have row: "sample_watched \<in> set (d_watched (ti_db watching))" by (simp add: watching_def)
  from step_remove [OF row r] have "account_step\<^sup>*\<^sup>* watching t'" by blast
  from declarations_never_lost [OF this watching_ok(1)] row obtain w'' where
    "w'' \<in> set (d_watched (ti_db t'))" "declaration_of w'' = declaration_of sample_watched" "wa_purpose w'' \<noteq> []" by blast
  moreover have "\<not> wa_is_active w'" using r by (auto simp: remove_watched_account_def Let_def split: if_splits)
  ultimately show ?thesis using r by blast
qed

text \<open>
  A scan of watched accounts stays apart: whatever the provider answers, the findings of the assets, the
  alerts, the cached reading of the exposure and the journal of the secrets are untouched, no result already
  known changes but for the date it was last seen, so none is reopened, the same result is never kept twice,
  and every new row is a record of the provider for one of the accounts, normalised, open, without any field
  for its secret.
\<close>

theorem watched_scan_apart:
  assumes "execute_watched_account_scan s pv t tenant ws = (r, t')" and "wf_ok t"
  shows "ti_findings t' = ti_findings t \<and> ti_mon t' = ti_mon t \<and> ti_syntheses t' = ti_syntheses t \<and>
    ti_reveals t' = ti_reveals t \<and> distinct (map wf_key (ti_watched_findings t')) \<and>
    (\<exists>fs. map still (ti_watched_findings t') = map still fs @ map still (ti_watched_findings t) \<and>
       (\<forall>f \<in> set fs. found_row s pv tenant ws f \<and> wf_status f = Open))"
proof -
  from execute_watched_results [OF assms(1)] obtain u where u: "scanned (found_row s pv tenant ws) t u" "results t' = results u"
    by blast
  from u(1) obtain fs where fs: "map still (ti_watched_findings u) = map still fs @ map still (ti_watched_findings t)"
    "\<forall>f \<in> set fs. found_row s pv tenant ws f \<and> ti_seq t < wf_id f" by (auto simp: scanned_def)
  have "\<forall>f. found_row s pv tenant ws f \<longrightarrow> wf_status f = Open"
    by (auto simp: found_row_def row_of_def watched_row_def)
  with fs u assms(2) show ?thesis by (auto simp: scanned_def outside_def results_def wf_ok_def)
qed

definition account_provider :: provider where
  "account_provider = dead_provider\<lparr>pv_scan_email := (\<lambda>v. Inr \<lparr>sc_findings = [sample_raw], sc_requests = 0\<rparr>)\<rparr>"

theorem watched_scan_apart_example:
  "\<exists>r t'. execute_watched_account_scan sample (\<lambda>_. account_provider) watching 7 [sample_watched] = (r, t') \<and>
     ti_findings t' = [] \<and> distinct (map wf_key (ti_watched_findings t'))"
proof -
  obtain r t' where run: "execute_watched_account_scan sample (\<lambda>_. account_provider) watching 7 [sample_watched] = (r, t')" by fastforce
  have "ti_findings watching = []" by (simp add: watching_def sample_ti_def)
  with watched_scan_apart [OF run watching_ok(2)] run show ?thesis by auto
qed

text \<open>
  The grouped list loses nothing: there is exactly one group for each account, kind and service that
  occurs, its counts are those of the rows that unfold from it, the counts of the three states add up, the
  counts of all the groups add up to the rows, the gravity shown is the worst inside, and the worst groups
  come first.
\<close>

theorem groups_are_exact:
  "distinct (map key_of_group (group_watched_account_findings printed fs)) \<and>
   key_of_group ` set (group_watched_account_findings printed fs) = group_key printed ` set fs \<and>
   sum_list (map fg_occurrences (group_watched_account_findings printed fs)) = length fs \<and>
   sorted (map (\<lambda>g. - group_rank g) (group_watched_account_findings printed fs)) \<and>
   (\<forall>g \<in> set (group_watched_account_findings printed fs).
      let rows = findings_in_group printed fs (fg_account g) (fg_type g) (fg_service g)
      in fg_occurrences g = length rows \<and> fg_open g + fg_treated g + fg_ignored g = fg_occurrences g \<and>
         (\<exists>f \<in> set rows. fg_severity g = Some (wf_severity f) \<and>
            (\<forall>x \<in> set rows. gravity_rank (wf_severity x) \<le> gravity_rank (wf_severity f))))"
proof -
  let ?row = "\<lambda>k. group_row k (filter (\<lambda>f. group_key printed f = k) fs)"
  let ?gs = "map ?row (remdups (map (group_key printed) fs))"
  have set: "set (group_watched_account_findings printed fs) = set ?gs"
    and mset: "mset (group_watched_account_findings printed fs) = mset ?gs"
    by (simp_all add: group_watched_account_findings_def)
  have key: "key_of_group (?row k) = k" for k by (simp add: key_of_group_def group_row_def)
  have "mset (map key_of_group (group_watched_account_findings printed fs)) = mset (map key_of_group ?gs)"
    unfolding mset_map mset ..
  moreover have "distinct (map key_of_group ?gs)" by (simp add: comp_def key)
  ultimately have d: "distinct (map key_of_group (group_watched_account_findings printed fs))"
    by (rule mset_eq_imp_distinct_iff [THEN iffD2])
  have keys: "key_of_group ` set (group_watched_account_findings printed fs) = group_key printed ` set fs"
    unfolding set by (simp add: image_image key)
  have "sum_list (map fg_occurrences (group_watched_account_findings printed fs)) = sum_list (map fg_occurrences ?gs)"
    by (simp add: group_watched_account_findings_def sum_list_sort_key)
  also have "\<dots> = length fs" by (simp add: comp_def group_row_def filter_parts)
  finally have rows: "sum_list (map fg_occurrences (group_watched_account_findings printed fs)) = length fs" .
  have sorted: "sorted (map (\<lambda>g. - group_rank g) (group_watched_account_findings printed fs))"
    by (simp add: group_watched_account_findings_def)
  have one: "let rows = findings_in_group printed fs (fg_account g) (fg_type g) (fg_service g)
      in fg_occurrences g = length rows \<and> fg_open g + fg_treated g + fg_ignored g = fg_occurrences g \<and>
         (\<exists>f \<in> set rows. fg_severity g = Some (wf_severity f) \<and>
            (\<forall>x \<in> set rows. gravity_rank (wf_severity x) \<le> gravity_rank (wf_severity f)))"
    if g: "g \<in> set (group_watched_account_findings printed fs)" for g
  proof -
    from g [unfolded set] obtain f0 where f0: "f0 \<in> set fs" "g = ?row (group_key printed f0)" by auto
    let ?in = "filter (\<lambda>f. group_key printed f = group_key printed f0) fs"
    have "(fg_account g, fg_type g, fg_service g) = group_key printed f0" using key [of "group_key printed f0"] f0(2) by (simp add: key_of_group_def)
    then have rows: "mset (findings_in_group printed fs (fg_account g) (fg_type g) (fg_service g)) = mset ?in"
      by (simp add: findings_in_group_def by_breach_date_mset)
    have len: "length (findings_in_group printed fs (fg_account g) (fg_type g) (fg_service g)) = length ?in"
      by (rule mset_eq_length [OF rows])
    have mem: "set (findings_in_group printed fs (fg_account g) (fg_type g) (fg_service g)) = set ?in"
      by (rule mset_eq_setD [OF rows])
    have parts: "length (filter (\<lambda>f. wf_status f = Open) xs) + length (filter (\<lambda>f. wf_status f = Treated) xs) +
        length (filter (\<lambda>f. wf_status f = Ignored) xs) = length xs" for xs
    proof (induction xs)
      case (Cons x xs)
      then show ?case by (cases "wf_status x") auto
    qed simp
    have "?in \<noteq> []" using f0(1) by (auto simp: filter_empty_conv)
    from group_row_worst [OF this, of "group_key printed f0"] show ?thesis
      unfolding Let_def len mem unfolding f0(2) using parts [of ?in] by (simp add: group_row_def)
  qed
  show ?thesis by (intro conjI ballI d keys rows sorted) (rule one)
qed

definition two_results :: "watched_finding list" where
  "two_results = map (\<lambda>(i, g). (watched_row sample i 7 sample_watched (normalize_finding demo_texts ''radar'' []))\<lparr>wf_severity := g\<rparr>)
     [(1, Grave_attention), (2, Grave_critical)]"

theorem groups_are_exact_example:
  "sum_list (map fg_occurrences (group_watched_account_findings (\<lambda>_. []) two_results)) = 2 \<and>
   key_of_group ` set (group_watched_account_findings (\<lambda>_. []) two_results) = group_key (\<lambda>_. []) ` set two_results"
  using groups_are_exact [of "\<lambda>_. []" two_results] by (simp add: two_results_def)

end
