(* ===== verification/Blocks.thy ===== *)
theory Blocks
  imports Provider_Client
begin

text \<open>
  The content of a screen of a course (training/blocks.py): typed blocks, JSON objects, validated when
  they are written; the bold mark and the variables inside a text; and what a learner reads
  (training/variables.py, \<open>contextualiser\<close> of training/services.py): the figures of the company, or the
  fallback of the block. The problems of a block are kept as what is wrong and where, not as sentences.
\<close>

section \<open>Texts\<close>

definition LONGUEUR_MAX_TEXTE :: nat where "LONGUEUR_MAX_TEXTE = 4000"
definition LONGUEUR_MAX_COURTE :: nat where "LONGUEUR_MAX_COURTE = 300"
definition MAX_ITEMS_LISTE :: nat where "MAX_ITEMS_LISTE = 20"
definition PREFIXE_IMAGE :: string where "PREFIXE_IMAGE = ''/formation/''"

text \<open>\<open>texte.split("**")\<close>.\<close>

fun split_marks :: "string \<Rightarrow> string list" where
  "split_marks [] = [[]]"
| "split_marks [c] = [[c]]"
| "split_marks (c # d # cs) =
     (if c = CHR ''*'' \<and> d = CHR ''*'' then [] # split_marks cs
      else case split_marks (d # cs) of [] \<Rightarrow> [[c]] | w # ws \<Rightarrow> (c # w) # ws)"

fun join_marks :: "string list \<Rightarrow> string" where
  "join_marks [] = []"
| "join_marks [w] = w"
| "join_marks (w # v # ws) = w @ ''**'' @ join_marks (v # ws)"

text \<open>\<open>texte.count("**")\<close>.\<close>

definition count_marks :: "string \<Rightarrow> nat" where
  "count_marks s = length (split_marks s) - 1"

text \<open>The pieces with their rank: the odd ones are bold, the empty ones are dropped.\<close>

fun ranked :: "bool \<Rightarrow> string list \<Rightarrow> (string \<times> bool) list" where
  "ranked b [] = []"
| "ranked b (w # ws) = (if w = [] then ranked (\<not> b) ws else (w, b) # ranked (\<not> b) ws)"

definition segments :: "string \<Rightarrow> (string \<times> bool) list" where
  "segments s =
     (let ws = split_marks s in if even (length ws) then [(s, False)] else ranked False ws)"

definition texte_sans_marques :: "string \<Rightarrow> string" where
  "texte_sans_marques s = concat (map fst (segments s))"

text \<open>The pattern of a variable: braces around a name; what does not match is passed over.\<close>

definition starts_name :: "char \<Rightarrow> bool" where
  "starts_name c =
     (let n = (of_char c :: nat) in (65 \<le> n \<and> n \<le> 90) \<or> (97 \<le> n \<and> n \<le> 122) \<or> n = 95)"

definition in_name :: "char \<Rightarrow> bool" where
  "in_name c = (starts_name c \<or> digit_val c \<noteq> None)"

fun match_name :: "string \<Rightarrow> (string \<times> string) option" where
  "match_name cs =
     (let k = takeWhile in_name cs; rest = dropWhile in_name cs
      in if k \<noteq> [] \<and> starts_name (hd k) \<and> rest \<noteq> [] \<and> hd rest = CHR 0x7D then Some (k, tl rest) else None)"

declare match_name.simps [simp del]

lemma match_name_Some:
  "match_name cs = Some (k, rest) \<Longrightarrow> cs = k @ [CHR 0x7D] @ rest \<and> k \<noteq> []"
proof -
  assume m: "match_name cs = Some (k, rest)"
  then have k: "k = takeWhile in_name cs" and r: "rest = tl (dropWhile in_name cs)"
    and d: "dropWhile in_name cs \<noteq> []" "hd (dropWhile in_name cs) = CHR 0x7D" and "k \<noteq> []"
    by (auto simp: match_name.simps Let_def split: if_splits)
  from d r have "dropWhile in_name cs = [CHR 0x7D] @ rest" by (cases "dropWhile in_name cs") auto
  with k \<open>k \<noteq> []\<close> show ?thesis by (metis takeWhile_dropWhile_id)
qed

function variables_du_texte :: "string \<Rightarrow> string list" where
  "variables_du_texte [] = []"
| "variables_du_texte (c # cs) =
     (if c = CHR 0x7B
      then case match_name cs of Some (k, rest) \<Rightarrow> k # variables_du_texte rest | None \<Rightarrow> variables_du_texte cs
      else variables_du_texte cs)"
  by pat_completeness auto
termination
  by (relation "measure length") (auto dest: match_name_Some)

text \<open>\<open>rendu.replace(old, new)\<close>, from the left, the text put in not being read again.\<close>

function replace_str :: "string \<Rightarrow> string \<Rightarrow> string \<Rightarrow> string" where
  "replace_str old new [] = []"
| "replace_str old new (c # cs) =
     (if old \<noteq> [] \<and> startswith (c # cs) old then new @ replace_str old new (drop (length old) (c # cs))
      else c # replace_str old new cs)"
  by pat_completeness auto
termination
  by (relation "measure (\<lambda>(old, new, s). length s)") (auto simp: length_greater_0_conv [symmetric] simp del: length_greater_0_conv)

section \<open>Blocks\<close>

datatype block_type = Paragraphe | Titre | Liste | Encadre | Image | Citation

definition type_of_name :: "string \<Rightarrow> block_type option" where
  "type_of_name s =
     (if s = ''paragraphe'' then Some Paragraphe else if s = ''titre'' then Some Titre
      else if s = ''liste'' then Some Liste else if s = ''encadre'' then Some Encadre
      else if s = ''image'' then Some Image else if s = ''citation'' then Some Citation else None)"

definition TONS_ENCADRE :: "string list" where "TONS_ENCADRE = [''info'', ''attention'', ''exemple'']"

definition NIVEAUX_TITRE :: "json list" where
  "NIVEAUX_TITRE = [JInt 3, JInt 4, JFloat ''3.0'', JFloat ''4.0'']"

datatype fault =
    No_block | Not_an_object | Unknown_type | Not_text | Blank | Too_long nat | Wrong_level | Wrong_tone
  | No_items | Too_many_items | Not_a_flag | No_source | Foreign_source | Open_mark | Unknown_variable string
  | Variable_in_fallback

text \<open>A problem: the position of the block, the field, what is wrong.\<close>

type_synonym problem = "nat \<times> string \<times> fault"

definition check_text :: "nat \<Rightarrow> string \<Rightarrow> nat \<Rightarrow> json option \<Rightarrow> problem list" where
  "check_text n field limit v =
     (case v of
        Some (JStr s) \<Rightarrow>
          if strip s = [] then [(n, field, Blank)] else if limit < length s then [(n, field, Too_long limit)] else []
      | _ \<Rightarrow> [(n, field, Not_text)])"

definition item_field :: "nat \<Rightarrow> string" where
  "item_field i = ''items['' @ show_nat i @ '']''"

text \<open>
  \<open>bloc.get("items") or []\<close>, then a loop over it: a text is read letter by letter, an object key by key,
  a number raises.
\<close>

definition iterated :: "json option \<Rightarrow> json list option" where
  "iterated v =
     (case v of
        None \<Rightarrow> Some []
      | Some j \<Rightarrow>
          if \<not> truthy j then Some []
          else case j of JArr js \<Rightarrow> Some js | JStr s \<Rightarrow> Some (map (\<lambda>c. JStr [c]) s) | JObj ps \<Rightarrow> Some (map (JStr \<circ> fst) ps)
               | _ \<Rightarrow> None)"

text \<open>Every text of a block with its field; \<open>None\<close> is the loop that raises.\<close>

fun numbered_items :: "nat \<Rightarrow> json list \<Rightarrow> (string \<times> string) list" where
  "numbered_items i [] = []"
| "numbered_items i (JStr s # js) = (item_field i, s) # numbered_items (i + 1) js"
| "numbered_items i (j # js) = numbered_items (i + 1) js"

definition textes_du_bloc :: "payload \<Rightarrow> (string \<times> string) list option" where
  "textes_du_bloc b =
     (case iterated (map_of b ''items'') of
        None \<Rightarrow> None
      | Some js \<Rightarrow>
          Some (concat (map (\<lambda>f. case map_of b f of Some (JStr s) \<Rightarrow> [(f, s)] | _ \<Rightarrow> []) [''texte'', ''source'', ''alternative''])
                @ numbered_items 1 js))"

fun check_items :: "nat \<Rightarrow> nat \<Rightarrow> json list \<Rightarrow> problem list" where
  "check_items n i [] = []"
| "check_items n i (j # js) = check_text n (item_field i) LONGUEUR_MAX_TEXTE (Some j) @ check_items n (i + 1) js"

definition check_shape :: "nat \<Rightarrow> block_type \<Rightarrow> payload \<Rightarrow> problem list" where
  "check_shape n ty b =
     (if ty \<in> {Paragraphe, Encadre, Citation} then check_text n ''texte'' LONGUEUR_MAX_TEXTE (map_of b ''texte'') else []) @
     (if ty = Titre
      then check_text n ''texte'' LONGUEUR_MAX_COURTE (map_of b ''texte'') @
        (case map_of b ''niveau'' of
           Some j \<Rightarrow> if j \<in> set NIVEAUX_TITRE then [] else [(n, ''niveau'', Wrong_level)]
         | None \<Rightarrow> [(n, ''niveau'', Wrong_level)])
      else []) @
     (if ty = Encadre
      then (case map_of b ''ton'' of
              Some (JStr s) \<Rightarrow> if s \<in> set TONS_ENCADRE then [] else [(n, ''ton'', Wrong_tone)]
            | _ \<Rightarrow> [(n, ''ton'', Wrong_tone)])
      else []) @
     (if ty = Citation
      then (case map_of b ''source'' of None \<Rightarrow> [] | Some j \<Rightarrow> check_text n ''source'' LONGUEUR_MAX_COURTE (Some j))
      else []) @
     (if ty = Liste
      then (case map_of b ''items'' of
              Some (JArr js) \<Rightarrow>
                if js = [] then [(n, ''items'', No_items)]
                else if MAX_ITEMS_LISTE < length js then [(n, ''items'', Too_many_items)]
                else check_items n 1 js
            | _ \<Rightarrow> [(n, ''items'', No_items)]) @
           (case map_of b ''ordonnee'' of
              None \<Rightarrow> [] | Some (JBool x) \<Rightarrow> [] | Some _ \<Rightarrow> [(n, ''ordonnee'', Not_a_flag)])
      else []) @
     (if ty = Image
      then (case map_of b ''source'' of
              Some (JStr s) \<Rightarrow>
                if strip s = [] then [(n, ''source'', No_source)]
                else if \<not> startswith s PREFIXE_IMAGE \<or> contains s ''..'' then [(n, ''source'', Foreign_source)] else []
            | _ \<Rightarrow> [(n, ''source'', No_source)]) @
           check_text n ''alternative'' LONGUEUR_MAX_COURTE (map_of b ''alternative'')
      else [])"

definition valider_texte_riche :: "string list \<Rightarrow> nat \<Rightarrow> string \<times> string \<Rightarrow> problem list" where
  "valider_texte_riche known n ft =
     (case ft of (f, s) \<Rightarrow>
        (if odd (count_marks s) then [(n, f, Open_mark)] else []) @
        map (\<lambda>k. (n, f, Unknown_variable k)) (filter (\<lambda>k. k \<notin> set known) (variables_du_texte s)))"

definition check_fallback :: "nat \<Rightarrow> payload \<Rightarrow> (string \<times> string) list \<Rightarrow> problem list" where
  "check_fallback n b texts =
     (if concat (map (\<lambda>(f, s). variables_du_texte s) texts) = [] then []
      else check_text n ''repli'' LONGUEUR_MAX_TEXTE (map_of b ''repli'') @
        (case map_of b ''repli'' of
           Some (JStr s) \<Rightarrow> if variables_du_texte s = [] then [] else [(n, ''repli'', Variable_in_fallback)]
         | _ \<Rightarrow> []))"

definition valider_bloc :: "string list \<Rightarrow> nat \<Rightarrow> json \<Rightarrow> problem list option" where
  "valider_bloc known n j =
     (case j of
        JObj b \<Rightarrow>
          (case (case map_of b ''type'' of Some (JStr s) \<Rightarrow> type_of_name s | _ \<Rightarrow> None) of
             None \<Rightarrow> Some [(n, ''type'', Unknown_type)]
           | Some ty \<Rightarrow>
               (case textes_du_bloc b of
                  None \<Rightarrow> None
                | Some texts \<Rightarrow>
                    Some (check_shape n ty b @ concat (map (valider_texte_riche known n) texts) @ check_fallback n b texts)))
      | _ \<Rightarrow> Some [(n, [], Not_an_object)])"

fun valider_blocs :: "string list \<Rightarrow> nat \<Rightarrow> json list \<Rightarrow> problem list option" where
  "valider_blocs known n [] = Some []"
| "valider_blocs known n (j # js) =
     (case valider_bloc known n j of
        None \<Rightarrow> None
      | Some ps \<Rightarrow> (case valider_blocs known (n + 1) js of None \<Rightarrow> None | Some qs \<Rightarrow> Some (ps @ qs)))"

text \<open>Stored when the list of the problems is empty; \<open>None\<close> raises something else.\<close>

definition valider :: "string list \<Rightarrow> json \<Rightarrow> problem list option" where
  "valider known blocs =
     (case blocs of
        JArr js \<Rightarrow> if js = [] then Some [(0, [], No_block)] else valider_blocs known 1 js
      | _ \<Rightarrow> Some [(0, [], No_block)])"

text \<open>The text alone, for the duration of a screen.\<close>

fun join_lines :: "string list \<Rightarrow> string" where
  "join_lines [] = []"
| "join_lines [w] = w"
| "join_lines (w # v # ws) = w @ [CHR 0x0A] @ join_lines (v # ws)"

definition str_of :: "json option \<Rightarrow> string" where
  "str_of v = (case v of Some (JStr s) \<Rightarrow> s | _ \<Rightarrow> [])"

definition texts_of_block :: "payload \<Rightarrow> string list" where
  "texts_of_block b =
     (case type_of_name (str_of (map_of b ''type'')) of
        None \<Rightarrow> []
      | Some Liste \<Rightarrow> (case map_of b ''items'' of Some (JArr js) \<Rightarrow> map (\<lambda>j. str_of (Some j)) js | _ \<Rightarrow> [])
      | Some Image \<Rightarrow> [str_of (map_of b ''alternative'')]
      | Some _ \<Rightarrow> [str_of (map_of b ''texte'')])"

definition texte_brut :: "payload list \<Rightarrow> string" where
  "texte_brut blocs = join_lines (filter (\<lambda>s. s \<noteq> []) (concat (map texts_of_block blocs)))"

section \<open>Variables\<close>

definition SEUIL_DISCRETION :: int where "SEUIL_DISCRETION = 3"

record variable =
  va_cle :: string
  va_est_un_decompte :: bool
  va_feature :: string

definition REGISTRE :: "variable list" where
  "REGISTRE =
     [\<lparr>va_cle = ''fuites_ouvertes'', va_est_un_decompte = True, va_feature = []\<rparr>,
      \<lparr>va_cle = ''fuites_critiques'', va_est_un_decompte = True, va_feature = []\<rparr>,
      \<lparr>va_cle = ''score_exposition'', va_est_un_decompte = False, va_feature = []\<rparr>,
      \<lparr>va_cle = ''score_maturite'', va_est_un_decompte = False, va_feature = []\<rparr>,
      \<lparr>va_cle = ''actifs_surveilles'', va_est_un_decompte = False, va_feature = REALTIME_MONITORING\<rparr>]"

definition cles_connues :: "string list" where "cles_connues = map va_cle REGISTRE"

text \<open>
  The value of a variable for a company: what it holds of the offer and what the services of the other
  applications answer (\<open>None\<close> when they know nothing or fail) are arguments.
\<close>

definition valeur :: "(string \<Rightarrow> bool) \<Rightarrow> (string \<Rightarrow> int option) \<Rightarrow> string \<Rightarrow> int option" where
  "valeur holds resoudre cle =
     (case find (\<lambda>v. va_cle v = cle) REGISTRE of
        None \<Rightarrow> None
      | Some v \<Rightarrow>
          if va_feature v \<noteq> [] \<and> \<not> holds (va_feature v) then None
          else case resoudre cle of
                 None \<Rightarrow> None
               | Some n \<Rightarrow> if n \<le> 0 then None else if va_est_un_decompte v \<and> n < SEUIL_DISCRETION then None else Some n)"

section \<open>What the learner reads\<close>

definition placeholder :: "string \<Rightarrow> string" where
  "placeholder k = [CHR 0x7B] @ k @ [CHR 0x7D]"

definition rendu :: "(string \<Rightarrow> int option) \<Rightarrow> string list \<Rightarrow> string \<Rightarrow> string" where
  "rendu val keys s = fold (\<lambda>k t. replace_str (placeholder k) (case val k of Some n \<Rightarrow> show_int n | None \<Rightarrow> []) t) keys s"

definition render_item :: "(string \<Rightarrow> int option) \<Rightarrow> string list \<Rightarrow> json \<Rightarrow> json" where
  "render_item val keys j = (case j of JStr s \<Rightarrow> JStr (rendu val keys s) | _ \<Rightarrow> j)"

definition render_field :: "(string \<Rightarrow> int option) \<Rightarrow> string list \<Rightarrow> string \<times> json \<Rightarrow> string \<times> json" where
  "render_field val keys x =
     (case x of (f, j) \<Rightarrow>
        if f \<in> {''texte'', ''source'', ''alternative''} then (f, render_item val keys j)
        else if f = ''items'' then
          (f, if \<not> truthy j then j
              else case j of JArr js \<Rightarrow> JArr (map (render_item val keys) js)
                 | JStr s \<Rightarrow> JArr (map (\<lambda>c. render_item val keys (JStr [c])) s)
                 | JObj ps \<Rightarrow> JArr (map (\<lambda>p. render_item val keys (JStr (fst p))) ps)
                 | _ \<Rightarrow> j)
        else x)"

text \<open>The keys of a block; the code takes them in the order of a set, which does not matter to the result.\<close>

definition keys_of_texts :: "(string \<times> string) list \<Rightarrow> string list" where
  "keys_of_texts texts = remdups (concat (map (\<lambda>(f, s). variables_du_texte s) texts))"

definition contextualiser_bloc :: "(string \<Rightarrow> int option) \<Rightarrow> json \<Rightarrow> payload option" where
  "contextualiser_bloc val j =
     (case j of
        JObj b \<Rightarrow>
          (case textes_du_bloc b of
             None \<Rightarrow> None
           | Some texts \<Rightarrow>
               (let keys = keys_of_texts texts
                in if keys = [] then Some b
                   else if \<exists>k \<in> set keys. val k = None
                   then Some [(''type'', JStr ''paragraphe''),
                              (''texte'', case map_of b ''repli'' of Some r \<Rightarrow> r | None \<Rightarrow> JStr [])]
                   else Some (map (render_field val keys) b)))
      | _ \<Rightarrow> None)"

fun contextualiser_blocs :: "(string \<Rightarrow> int option) \<Rightarrow> json list \<Rightarrow> payload list option" where
  "contextualiser_blocs val [] = Some []"
| "contextualiser_blocs val (j # js) =
     (case contextualiser_bloc val j of
        None \<Rightarrow> None
      | Some b \<Rightarrow> (case contextualiser_blocs val js of None \<Rightarrow> None | Some bs \<Rightarrow> Some (b # bs)))"

text \<open>\<open>None\<close> is the exception that reading a content which is no list of objects raises.\<close>

definition contextualiser :: "(string \<Rightarrow> int option) \<Rightarrow> json \<Rightarrow> payload list option" where
  "contextualiser val content =
     (if \<not> truthy content then Some []
      else case content of JArr js \<Rightarrow> contextualiser_blocs val js | _ \<Rightarrow> None)"

section \<open>Laws\<close>

lemma split_marks_join: "join_marks (split_marks s) = s \<and> split_marks s \<noteq> []"
proof (induction s rule: split_marks.induct)
  case (3 c d cs)
  show ?case
  proof (cases "c = CHR ''*'' \<and> d = CHR ''*''")
    case True
    with 3(1) show ?thesis by (cases "split_marks cs") auto
  next
    case False
    with 3(2) obtain w ws where s: "split_marks (d # cs) = w # ws" by (cases "split_marks (d # cs)") auto
    with False 3(2) show ?thesis by (cases ws) auto
  qed
qed simp_all

lemma ranked_concat: "concat (map fst (ranked b ws)) = concat ws"
  by (induction ws arbitrary: b) auto

lemma texte_sans_marques_eq:
  "texte_sans_marques s = (if even (count_marks s) then concat (split_marks s) else s)"
proof -
  have "length (split_marks s) \<noteq> 0" using split_marks_join [of s] by simp
  then have "even (length (split_marks s)) = odd (count_marks s)" by (simp add: count_marks_def)
  then show ?thesis by (simp add: texte_sans_marques_def segments_def Let_def ranked_concat)
qed

lemma valeur_shown:
  "valeur holds r k = Some n \<Longrightarrow> 0 < n \<and> (k \<in> {''fuites_ouvertes'', ''fuites_critiques''} \<longrightarrow> SEUIL_DISCRETION \<le> n) \<and> k \<in> set cles_connues"
  by (auto simp: valeur_def REGISTRE_def cles_connues_def split: option.splits if_splits)

lemma valider_blocs_ok:
  "valider_blocs known n js = Some [] \<Longrightarrow> j \<in> set js \<Longrightarrow> \<exists>m. valider_bloc known m j = Some []"
  by (induction js arbitrary: n) (auto split: option.splits)

lemma check_text_ok: "check_text n f limit v = [] \<longleftrightarrow> (\<exists>s. v = Some (JStr s) \<and> strip s \<noteq> [] \<and> length s \<le> limit)"
  by (auto simp: check_text_def split: option.splits json.splits)

section \<open>What a learner is told\<close>

lemma valid_block_readable: "valider_bloc known n j = Some [] \<Longrightarrow> \<exists>b texts. j = JObj b \<and> textes_du_bloc b = Some texts \<and> check_fallback n b texts = []"
  by (auto simp: valider_bloc_def split: json.splits option.splits)

lemma fallback_has_text:
  assumes "check_fallback n b texts = []" and "keys_of_texts texts \<noteq> []"
  shows "\<exists>s. map_of b ''repli'' = Some (JStr s) \<and> strip s \<noteq> [] \<and> variables_du_texte s = []"
proof -
  have "concat (map (\<lambda>(f, s). variables_du_texte s) texts) \<noteq> []" using assms(2) by (auto simp: keys_of_texts_def)
  with assms(1) have "check_text n ''repli'' LONGUEUR_MAX_TEXTE (map_of b ''repli'') = []"
    and v: "(case map_of b ''repli'' of Some (JStr s) \<Rightarrow> if variables_du_texte s = [] then [] else [(n, ''repli'', Variable_in_fallback)] | _ \<Rightarrow> []) = []"
    unfolding check_fallback_def by (simp_all del: concat_eq_Nil_conv)
  then obtain s where "map_of b ''repli'' = Some (JStr s)" "strip s \<noteq> []" by (auto simp: check_text_ok)
  with v show ?thesis by (auto split: if_splits)
qed

text \<open>The texts of a block hold no variable.\<close>

definition plain_block :: "payload \<Rightarrow> bool" where
  "plain_block b = (case textes_du_bloc b of None \<Rightarrow> False | Some texts \<Rightarrow> list_all (\<lambda>(f, s). variables_du_texte s = []) texts)"

lemma contextualiser_bloc_total: "valider_bloc known n j = Some [] \<Longrightarrow> contextualiser_bloc val j \<noteq> None"
  by (auto simp: contextualiser_bloc_def Let_def dest!: valid_block_readable)

lemma contextualiser_bloc_plain:
  assumes "valider_bloc known n j = Some []" and "contextualiser_bloc (\<lambda>k. None) j = Some b"
  shows "plain_block b"
proof -
  from valid_block_readable [OF assms(1)] obtain p texts where p: "j = JObj p" "textes_du_bloc p = Some texts" "check_fallback n p texts = []"
    by blast
  show ?thesis
  proof (cases "keys_of_texts texts = []")
    case True
    with p assms(2) have "b = p" by (simp add: contextualiser_bloc_def)
    with True p(2) show ?thesis by (auto simp: plain_block_def keys_of_texts_def list_all_iff)
  next
    case False
    from fallback_has_text [OF p(3) False] obtain s where s: "map_of p ''repli'' = Some (JStr s)" "variables_du_texte s = []" by blast
    have "\<exists>k. k \<in> set (keys_of_texts texts)" using False by (cases "keys_of_texts texts") auto
    with p s False assms(2) have "b = [(''type'', JStr ''paragraphe''), (''texte'', JStr s)]"
      by (simp add: contextualiser_bloc_def Let_def split: if_splits)
    with s(2) show ?thesis by (simp add: plain_block_def textes_du_bloc_def iterated_def)
  qed
qed

lemma contextualiser_blocs_total: "valider_blocs known n js = Some [] \<Longrightarrow> contextualiser_blocs val js \<noteq> None"
proof (induction js arbitrary: n)
  case (Cons j js)
  from Cons.prems have j: "valider_bloc known n j = Some []" "valider_blocs known (n + 1) js = Some []"
    by (auto split: option.splits)
  from contextualiser_bloc_total [OF j(1), of val] Cons.IH [OF j(2)] show ?case by auto
qed simp

lemma contextualiser_blocs_plain:
  "valider_blocs known n js = Some [] \<Longrightarrow> contextualiser_blocs (\<lambda>k. None) js = Some bs \<Longrightarrow> list_all plain_block bs"
  by (induction js arbitrary: n bs) (auto split: option.splits dest: contextualiser_bloc_plain)

lemma valid_content: "valider known content = Some [] \<Longrightarrow> \<exists>js. content = JArr js \<and> js \<noteq> [] \<and> valider_blocs known 1 js = Some []"
  by (auto simp: valider_def split: json.splits if_splits)

text \<open>What a company knows of itself, up to the counts too small to be told.\<close>

definition discreet :: "string \<Rightarrow> int option \<Rightarrow> int option" where
  "discreet k x = (case x of None \<Rightarrow> None
     | Some n \<Rightarrow> if k \<in> {''fuites_ouvertes'', ''fuites_critiques''} \<and> n < SEUIL_DISCRETION then None else Some n)"

lemma valeur_discreet: "valeur holds (\<lambda>k. discreet k (r k)) = valeur holds r"
  by (rule ext) (auto simp: valeur_def discreet_def REGISTRE_def SEUIL_DISCRETION_def split: option.splits)

text \<open>
  C34: reading a stored screen never fails; two companies that differ only by counts of people under the threshold read the
  same text; and a company without figures reads no hole, every text it is shown being free of variables.
\<close>

theorem small_counts_are_not_told:
  assumes "valider cles_connues content = Some []" and "\<And>k. discreet k (r k) = discreet k (r' k)"
  shows "contextualiser (valeur holds r) content \<noteq> None \<and>
    contextualiser (valeur holds r) content = contextualiser (valeur holds r') content \<and>
    (\<exists>bs. contextualiser (\<lambda>k. None) content = Some bs \<and> list_all plain_block bs)"
proof (rule conj3I)
  from valid_content [OF assms(1)] obtain js where js: "content = JArr js" "js \<noteq> []" "valider_blocs cles_connues 1 js = Some []" by blast
  have e: "contextualiser val content = contextualiser_blocs val js" for val using js(1,2) by (simp add: contextualiser_def truthy_def)
  show "contextualiser (valeur holds r) content \<noteq> None" unfolding e by (rule contextualiser_blocs_total [OF js(3)])
  have "(\<lambda>k. discreet k (r k)) = (\<lambda>k. discreet k (r' k))" using assms(2) by (rule ext)
  then have "valeur holds r = valeur holds r'" using valeur_discreet [of holds r] valeur_discreet [of holds r'] by simp
  then show "contextualiser (valeur holds r) content = contextualiser (valeur holds r') content" by simp
  obtain bs where "contextualiser_blocs (\<lambda>k. None) js = Some bs" using contextualiser_blocs_total [OF js(3)] by blast
  with contextualiser_blocs_plain [OF js(3)] show "\<exists>bs. contextualiser (\<lambda>k. None) content = Some bs \<and> list_all plain_block bs"
    unfolding e by blast
qed

definition counting_screen :: json where
  "counting_screen = JArr [JObj [(''type'', JStr ''paragraphe''), (''texte'', JStr (''Soit '' @ placeholder ''fuites_ouvertes'')),
     (''repli'', JStr ''Restez attentifs'')]]"

lemma small_counts_are_not_told_witness:
  "contextualiser (valeur (\<lambda>f. True) (\<lambda>k. Some 2)) counting_screen =
     Some [[(''type'', JStr ''paragraphe''), (''texte'', JStr ''Restez attentifs'')]] \<and>
   contextualiser (valeur (\<lambda>f. True) (\<lambda>k. if k = ''fuites_ouvertes'' then Some 1 else Some 2)) counting_screen =
     Some [[(''type'', JStr ''paragraphe''), (''texte'', JStr ''Restez attentifs'')]] \<and>
   contextualiser (valeur (\<lambda>f. True) (\<lambda>k. Some 12)) counting_screen =
     Some [[(''type'', JStr ''paragraphe''), (''texte'', JStr ''Soit 12''), (''repli'', JStr ''Restez attentifs'')]]"
proof -
  have v: "valider cles_connues counting_screen = Some []" by code_simp
  have e: "contextualiser (valeur (\<lambda>f. True) (\<lambda>k. Some 2)) counting_screen =
     Some [[(''type'', JStr ''paragraphe''), (''texte'', JStr ''Restez attentifs'')]]" by code_simp
  have "discreet k (Some 2) = discreet k (if k = ''fuites_ouvertes'' then Some 1 else Some 2)" for k
    by (simp add: discreet_def SEUIL_DISCRETION_def)
  from small_counts_are_not_told [OF v this, of "\<lambda>f. True"] e
  have "contextualiser (valeur (\<lambda>f. True) (\<lambda>k. if k = ''fuites_ouvertes'' then Some 1 else Some 2)) counting_screen =
     Some [[(''type'', JStr ''paragraphe''), (''texte'', JStr ''Restez attentifs'')]]" by simp
  moreover have "contextualiser (valeur (\<lambda>f. True) (\<lambda>k. Some 12)) counting_screen =
     Some [[(''type'', JStr ''paragraphe''), (''texte'', JStr ''Soit 12''), (''repli'', JStr ''Restez attentifs'')]]" by code_simp
  ultimately show ?thesis using e by blast
qed

end
