(* ===== verification/Studio.thy ===== *)
theory Studio
  imports Blocks Tenants
begin

text \<open>
  The catalogue of courses and the studio that writes them (training/models.py, training/studio.py): a
  course is an identity, its content lives in versions, a version is a draft until it is published and
  never changes afterwards. Screens and questions are rows of their own, a question holds its choices.
  \<open>slugify\<close> is a parameter. Tables hold their newest row first.
\<close>

section \<open>Data\<close>

definition MARGE_APRES_ECHEANCE_JOURS :: int where "MARGE_APRES_ECHEANCE_JOURS = 7"
definition SEUIL_REUSSITE_DEFAUT :: int where "SEUIL_REUSSITE_DEFAUT = 70"
definition ESSAIS_DEFAUT :: int where "ESSAIS_DEFAUT = 3"
definition QUESTIONS_MINIMUM_POUR_UN_SEUIL :: nat where "QUESTIONS_MINIMUM_POUR_UN_SEUIL = 5"

record course =
  co_id :: int
  co_slug :: string
  co_title :: string
  co_summary :: string
  co_is_active :: bool
  co_owner :: "int option"
  co_derived_from :: "int option"
  co_created_by :: "int option"

record course_version =
  cv_id :: int
  cv_course :: int
  cv_number :: int
  cv_published_at :: "time option"
  cv_pass_threshold :: int
  cv_max_attempts :: int
  cv_change_note :: string

record screen =
  sn_id :: int
  sn_version :: int
  sn_order :: int
  sn_title :: string
  sn_content :: json
  sn_seconds :: int

datatype question_kind = Single | Multiple

record choice =
  ch_id :: int
  ch_order :: int
  ch_text :: string
  ch_correct :: bool

record question =
  qn_id :: int
  qn_version :: int
  qn_order :: int
  qn_text :: string
  qn_kind :: question_kind
  qn_explanation :: string
  qn_screen :: int
  qn_choices :: "choice list"

record catalogue =
  kt_seq :: int
  kt_courses :: "course list"
  kt_versions :: "course_version list"
  kt_screens :: "screen list"
  kt_questions :: "question list"

datatype studio_error =
    Version_locked
  | No_content
  | Draft_exists
  | Never_published
  | Foreign_screen
  | Foreign_question
  | Bad_order
  | Order_clash
  | Screen_in_use
  | No_explanation
  | No_right_answer
  | Too_few_choices
  | Several_right_answers
  | Already_published
  | Not_publishable "studio_error list"
  | No_screen
  | No_question
  | Question_without_answer int
  | Question_without_explanation int
  | Invalid_content "problem list"
  | Content_crash

section \<open>Reading the catalogue\<close>

definition correct_choice_ids :: "question \<Rightarrow> int set" where
  "correct_choice_ids q = ch_id ` set (filter ch_correct (qn_choices q))"

definition screens_of :: "catalogue \<Rightarrow> int \<Rightarrow> screen list" where
  "screens_of k v = sort_key sn_order (filter (\<lambda>x. sn_version x = v) (kt_screens k))"

definition questions_of :: "catalogue \<Rightarrow> int \<Rightarrow> question list" where
  "questions_of k v = sort_key qn_order (filter (\<lambda>x. qn_version x = v) (kt_questions k))"

definition choices_of :: "question \<Rightarrow> choice list" where
  "choices_of q = sort_key ch_order (qn_choices q)"

text \<open>The version with the greatest number; the numbers of a course are unique.\<close>

definition latest_version :: "course_version list \<Rightarrow> course_version option" where
  "latest_version vs = (case sort_key (\<lambda>v. - cv_number v) vs of [] \<Rightarrow> None | v # _ \<Rightarrow> Some v)"

definition draft_version :: "catalogue \<Rightarrow> int \<Rightarrow> course_version option" where
  "draft_version k c = latest_version (filter (\<lambda>v. cv_course v = c \<and> cv_published_at v = None) (kt_versions k))"

definition published_version :: "catalogue \<Rightarrow> int \<Rightarrow> course_version option" where
  "published_version k c = latest_version (filter (\<lambda>v. cv_course v = c \<and> cv_published_at v \<noteq> None) (kt_versions k))"

definition estimated_minutes :: "catalogue \<Rightarrow> int \<Rightarrow> int" where
  "estimated_minutes k v = max 1 (py_round (of_int (sum_list (map sn_seconds (screens_of k v))) / 60))"

definition peut_composer :: "db \<Rightarrow> int option \<Rightarrow> user option \<Rightarrow> bool" where
  "peut_composer d tenant user =
     ((case user of Some u \<Rightarrow> us_is_staff u | None \<Rightarrow> False) \<or>
      (case tenant of None \<Rightarrow> False | Some t \<Rightarrow> has_feature d t TRAINING_STUDIO))"

section \<open>Courses and versions\<close>

definition slug_libre :: "(string \<Rightarrow> string) \<Rightarrow> catalogue \<Rightarrow> string \<Rightarrow> string" where
  "slug_libre slugify k titre =
     (let s = take 70 (slugify titre); base = (if s = [] then ''cours'' else s)
      in slug_loop base 1 base (map co_slug (kt_courses k)))"

definition new_version :: "int \<Rightarrow> int \<Rightarrow> int \<Rightarrow> int \<Rightarrow> int \<Rightarrow> string \<Rightarrow> course_version" where
  "new_version i c number threshold attempts note =
     \<lparr>cv_id = i, cv_course = c, cv_number = number, cv_published_at = None, cv_pass_threshold = threshold,
      cv_max_attempts = attempts, cv_change_note = note\<rparr>"

definition creer_cours ::
  "(string \<Rightarrow> string) \<Rightarrow> catalogue \<Rightarrow> string \<Rightarrow> string \<Rightarrow> int option \<Rightarrow> int option \<Rightarrow> course \<times> catalogue" where
  "creer_cours slugify k titre resume owner actor =
     (let i = kt_seq k + 1;
          c = \<lparr>co_id = i, co_slug = slug_libre slugify k titre, co_title = strip titre, co_summary = strip resume,
               co_is_active = True, co_owner = owner, co_derived_from = None, co_created_by = actor\<rparr>;
          v = new_version (i + 1) i 1 SEUIL_REUSSITE_DEFAUT ESSAIS_DEFAUT (''Premi'' @ [CHR 0xE8] @ ''re version.'')
      in (c, k\<lparr>kt_seq := i + 1, kt_courses := c # kt_courses k, kt_versions := v # kt_versions k\<rparr>))"

text \<open>
  Copying the content: the screens first, with the map from each to its copy, then the questions, each
  pointing to the copy of its screen. The copy of a screen validates its content again.
\<close>

fun copy_screens :: "string list \<Rightarrow> int \<Rightarrow> screen list \<Rightarrow> (int \<times> int) list \<Rightarrow> catalogue \<Rightarrow> (studio_error + (int \<times> int) list) \<times> catalogue" where
  "copy_screens known target [] m k = (Inr m, k)"
| "copy_screens known target (s # ss) m k =
     (case valider known (sn_content s) of
        None \<Rightarrow> (Inl Content_crash, k)
      | Some ps \<Rightarrow>
          if ps \<noteq> [] then (Inl (Invalid_content ps), k)
          else (let i = kt_seq k + 1
                in copy_screens known target ss ((sn_id s, i) # m)
                     (k\<lparr>kt_seq := i, kt_screens := s\<lparr>sn_id := i, sn_version := target\<rparr> # kt_screens k\<rparr>)))"

fun copy_choices :: "int \<Rightarrow> choice list \<Rightarrow> choice list" where
  "copy_choices i [] = []"
| "copy_choices i (c # cs) = c\<lparr>ch_id := i\<rparr> # copy_choices (i + 1) cs"

fun copy_questions :: "int \<Rightarrow> question list \<Rightarrow> (int \<times> int) list \<Rightarrow> catalogue \<Rightarrow> catalogue" where
  "copy_questions target [] m k = k"
| "copy_questions target (q # qs) m k =
     (let i = kt_seq k + 1; cs = copy_choices (i + 1) (choices_of q)
      in copy_questions target qs m
           (k\<lparr>kt_seq := i + int (length cs),
              kt_questions := q\<lparr>qn_id := i, qn_version := target,
                 qn_screen := (case map_of m (qn_screen q) of Some s \<Rightarrow> s | None \<Rightarrow> qn_screen q),
                 qn_choices := cs\<rparr> # kt_questions k\<rparr>))"

text \<open>The whole is one transaction: an error leaves the catalogue as it was.\<close>

definition recopier_contenu :: "string list \<Rightarrow> catalogue \<Rightarrow> int \<Rightarrow> int \<Rightarrow> studio_error + catalogue" where
  "recopier_contenu known k source target =
     (case copy_screens known target (screens_of k source) [] k of
        (Inl e, _) \<Rightarrow> Inl e
      | (Inr m, k1) \<Rightarrow> Inr (copy_questions target (questions_of k source) m k1))"

definition quoted :: "string \<Rightarrow> string" where
  "quoted s = [CHR 0xAB] @ '' '' @ s @ '' '' @ [CHR 0xBB]"

definition derivation_note :: "course \<Rightarrow> course_version \<Rightarrow> string" where
  "derivation_note c source =
     ''D'' @ [CHR 0xE9] @ ''riv'' @ [CHR 0xE9] @ '' de '' @ quoted (co_title c) @ '' (version '' @
     show_int (cv_number source) @ '').''"

definition dupliquer ::
  "(string \<Rightarrow> string) \<Rightarrow> string list \<Rightarrow> catalogue \<Rightarrow> course \<Rightarrow> int option \<Rightarrow> int option \<Rightarrow> string \<Rightarrow> studio_error + course \<times> catalogue" where
  "dupliquer slugify known k c owner actor titre =
     (case (case published_version k (co_id c) of Some v \<Rightarrow> Some v | None \<Rightarrow> draft_version k (co_id c)) of
        None \<Rightarrow> Inl No_content
      | Some source \<Rightarrow>
          (let t = (if titre = [] then co_title c @ '' (copie)'' else titre);
               i = kt_seq k + 1;
               copie = \<lparr>co_id = i, co_slug = slug_libre slugify k t, co_title = strip t, co_summary = co_summary c,
                        co_is_active = True, co_owner = owner, co_derived_from = Some (co_id c), co_created_by = actor\<rparr>;
               v = new_version (i + 1) i 1 (cv_pass_threshold source) (cv_max_attempts source)
                     (derivation_note c source)
           in rbind (recopier_contenu known
                  (k\<lparr>kt_seq := i + 1, kt_courses := copie # kt_courses k, kt_versions := v # kt_versions k\<rparr>)
                  (cv_id source) (cv_id v)) (\<lambda>k'. Inr (copie, k'))))"

definition nouvelle_version :: "string list \<Rightarrow> catalogue \<Rightarrow> int \<Rightarrow> string \<Rightarrow> studio_error + course_version \<times> catalogue" where
  "nouvelle_version known k c note =
     (if draft_version k c \<noteq> None then Inl Draft_exists
      else case published_version k c of
             None \<Rightarrow> Inl Never_published
           | Some source \<Rightarrow>
               (let v = new_version (kt_seq k + 1) c (cv_number source + 1) (cv_pass_threshold source)
                          (cv_max_attempts source) note
                in rbind (recopier_contenu known (k\<lparr>kt_seq := kt_seq k + 1, kt_versions := v # kt_versions k\<rparr>)
                       (cv_id source) (cv_id v)) (\<lambda>k'. Inr (v, k'))))"

section \<open>Writing a draft\<close>

definition version_modifiable :: "course_version \<Rightarrow> studio_error + unit" where
  "version_modifiable v = ensure (cv_published_at v = None) Version_locked"

definition next_order :: "int list \<Rightarrow> int" where
  "next_order os = (if os = [] then 1 else Max (set os) + 1)"

definition check_content :: "string list \<Rightarrow> json \<Rightarrow> studio_error + unit" where
  "check_content known content =
     (case valider known content of
        None \<Rightarrow> Inl Content_crash | Some ps \<Rightarrow> if ps = [] then Inr () else Inl (Invalid_content ps))"

definition ecrire_ecran ::
  "string list \<Rightarrow> catalogue \<Rightarrow> course_version \<Rightarrow> int option \<Rightarrow> string \<Rightarrow> json \<Rightarrow> int \<Rightarrow> studio_error + screen \<times> catalogue" where
  "ecrire_ecran known k v screen_id title content seconds =
     rbind (version_modifiable v) (\<lambda>_.
       case screen_id of
         Some i \<Rightarrow>
           (case find (\<lambda>s. sn_version s = cv_id v \<and> sn_id s = i) (kt_screens k) of
              None \<Rightarrow> Inl Foreign_screen
            | Some s \<Rightarrow>
                rbind (check_content known content) (\<lambda>_.
                  (let s' = s\<lparr>sn_title := strip title, sn_content := content, sn_seconds := seconds\<rparr>
                   in Inr (s', k\<lparr>kt_screens := upd_where (\<lambda>r. sn_id r = i) (\<lambda>r. s') (kt_screens k)\<rparr>))))
       | None \<Rightarrow>
           rbind (check_content known content) (\<lambda>_.
             (let s = \<lparr>sn_id = kt_seq k + 1, sn_version = cv_id v,
                       sn_order = next_order (map sn_order (screens_of k (cv_id v))),
                       sn_title = strip title, sn_content = content, sn_seconds = seconds\<rparr>
              in Inr (s, k\<lparr>kt_seq := kt_seq k + 1, kt_screens := s # kt_screens k\<rparr>))))"

text \<open>
  Saving the rank of one screen: the content is validated again and no other screen of the version may
  hold the rank at that moment (\<open>unique_screen_order\<close>).
\<close>

definition save_rank :: "string list \<Rightarrow> int \<Rightarrow> catalogue \<Rightarrow> int \<Rightarrow> int \<Rightarrow> studio_error + catalogue" where
  "save_rank known v k i rank =
     (case find (\<lambda>s. sn_version s = v \<and> sn_id s = i) (kt_screens k) of
        None \<Rightarrow> Inl Foreign_screen
      | Some s \<Rightarrow>
          rbind (check_content known (sn_content s)) (\<lambda>_.
            if \<exists>r \<in> set (kt_screens k). sn_version r = v \<and> sn_id r \<noteq> i \<and> sn_order r = rank then Inl Order_clash
            else Inr (k\<lparr>kt_screens := upd_where (\<lambda>r. sn_id r = i) (\<lambda>r. r\<lparr>sn_order := rank\<rparr>) (kt_screens k)\<rparr>)))"

fun save_ranks :: "string list \<Rightarrow> int \<Rightarrow> int list \<Rightarrow> int \<Rightarrow> catalogue \<Rightarrow> studio_error + catalogue" where
  "save_ranks known v [] rank k = Inr k"
| "save_ranks known v (i # ids) rank k =
     rbind (save_rank known v k i rank) (save_ranks known v ids (rank + 1))"

definition reordonner_ecrans ::
  "string list \<Rightarrow> catalogue \<Rightarrow> course_version \<Rightarrow> int list \<Rightarrow> studio_error + screen list \<times> catalogue" where
  "reordonner_ecrans known k v ids =
     rbind (version_modifiable v) (\<lambda>_.
       if set ids \<noteq> sn_id ` set (screens_of k (cv_id v)) \<or> length ids \<noteq> length (screens_of k (cv_id v)) then Inl Bad_order
       else rbind (save_ranks known (cv_id v) ids (int (length ids) + 1) k) (\<lambda>k1.
            rbind (save_ranks known (cv_id v) ids 1 k1) (\<lambda>k2. Inr (screens_of k2 (cv_id v), k2))))"

definition supprimer_ecran :: "catalogue \<Rightarrow> course_version \<Rightarrow> int \<Rightarrow> studio_error + catalogue" where
  "supprimer_ecran k v i =
     rbind (version_modifiable v) (\<lambda>_.
       case find (\<lambda>s. sn_version s = cv_id v \<and> sn_id s = i) (kt_screens k) of
         None \<Rightarrow> Inl Foreign_screen
       | Some s \<Rightarrow>
           if \<exists>q \<in> set (kt_questions k). qn_screen q = i then Inl Screen_in_use
           else Inr (k\<lparr>kt_screens := filter (\<lambda>r. sn_id r \<noteq> i) (kt_screens k)\<rparr>))"

fun new_choices :: "int \<Rightarrow> int \<Rightarrow> (string \<times> bool) list \<Rightarrow> choice list" where
  "new_choices i rank [] = []"
| "new_choices i rank ((t, ok) # cs) =
     \<lparr>ch_id = i, ch_order = rank, ch_text = strip t, ch_correct = ok\<rparr> # new_choices (i + 1) (rank + 1) cs"

definition ecrire_question ::
  "catalogue \<Rightarrow> course_version \<Rightarrow> int option \<Rightarrow> string \<Rightarrow> question_kind \<Rightarrow> string \<Rightarrow> int \<Rightarrow> (string \<times> bool) list \<Rightarrow>
   studio_error + question \<times> catalogue" where
  "ecrire_question k v question_id txt kind explanation screen_id choix =
     rbind (version_modifiable v) (\<lambda>_.
     rbind (ensure (strip explanation \<noteq> []) No_explanation) (\<lambda>_.
     rbind (ensure (\<exists>c \<in> set choix. snd c) No_right_answer) (\<lambda>_.
     rbind (ensure (2 \<le> length choix) Too_few_choices) (\<lambda>_.
     rbind (ensure (\<not> (kind = Single \<and> 1 < length (filter snd choix))) Several_right_answers) (\<lambda>_.
       case find (\<lambda>s. sn_version s = cv_id v \<and> sn_id s = screen_id) (kt_screens k) of
         None \<Rightarrow> Inl Foreign_screen
       | Some s \<Rightarrow>
           (case question_id of
              Some i \<Rightarrow>
                (case find (\<lambda>q. qn_version q = cv_id v \<and> qn_id q = i) (kt_questions k) of
                   None \<Rightarrow> Inl Foreign_question
                 | Some q \<Rightarrow>
                     (let q' = q\<lparr>qn_text := strip txt, qn_kind := kind, qn_explanation := strip explanation,
                                 qn_screen := screen_id, qn_choices := new_choices (kt_seq k + 1) 1 choix\<rparr>
                      in Inr (q', k\<lparr>kt_seq := kt_seq k + int (length choix),
                                   kt_questions := upd_where (\<lambda>r. qn_id r = i) (\<lambda>r. q') (kt_questions k)\<rparr>)))
            | None \<Rightarrow>
                (let q = \<lparr>qn_id = kt_seq k + 1, qn_version = cv_id v,
                          qn_order = next_order (map qn_order (questions_of k (cv_id v))), qn_text = strip txt,
                          qn_kind = kind, qn_explanation = strip explanation, qn_screen = screen_id,
                          qn_choices = new_choices (kt_seq k + 2) 1 choix\<rparr>
                 in Inr (q, k\<lparr>kt_seq := kt_seq k + 1 + int (length choix), kt_questions := q # kt_questions k\<rparr>))))))))"

definition supprimer_question :: "catalogue \<Rightarrow> course_version \<Rightarrow> int \<Rightarrow> studio_error + catalogue" where
  "supprimer_question k v i =
     rbind (version_modifiable v) (\<lambda>_.
       case find (\<lambda>q. qn_version q = cv_id v \<and> qn_id q = i) (kt_questions k) of
         None \<Rightarrow> Inl Foreign_question
       | Some q \<Rightarrow> Inr (k\<lparr>kt_questions := filter (\<lambda>r. qn_id r \<noteq> i) (kt_questions k)\<rparr>))"

section \<open>Publishing\<close>

text \<open>What refuses a publication and what only warns about it.\<close>

datatype warning = Few_questions nat int | Uses_variables int

definition screen_variables :: "screen \<Rightarrow> string list" where
  "screen_variables s =
     (case sn_content s of
        JArr js \<Rightarrow> concat (map (\<lambda>j. case j of JObj b \<Rightarrow> (case textes_du_bloc b of Some texts \<Rightarrow> keys_of_texts texts | None \<Rightarrow> []) | _ \<Rightarrow> []) js)
      | _ \<Rightarrow> [])"

definition controles_avant_publication :: "catalogue \<Rightarrow> course_version \<Rightarrow> studio_error list \<times> warning list" where
  "controles_avant_publication k v =
     (let ss = screens_of k (cv_id v); qs = questions_of k (cv_id v)
      in ((if ss = [] then [No_screen] else []) @ (if qs = [] then [No_question] else []) @
          concat (map (\<lambda>q. (if correct_choice_ids q = {} then [Question_without_answer (qn_order q)] else []) @
                           (if strip (qn_explanation q) = [] then [Question_without_explanation (qn_order q)] else [])) qs),
          (if qs \<noteq> [] \<and> length qs < QUESTIONS_MINIMUM_POUR_UN_SEUIL then [Few_questions (length qs) (cv_pass_threshold v)] else []) @
          concat (map (\<lambda>s. if screen_variables s \<noteq> [] then [Uses_variables (sn_order s)] else []) ss)))"

definition publier :: "time \<Rightarrow> catalogue \<Rightarrow> course_version \<Rightarrow> studio_error + course_version \<times> catalogue" where
  "publier now k v =
     (if cv_published_at v \<noteq> None then Inl Already_published
      else (let refus = fst (controles_avant_publication k v)
            in if refus \<noteq> [] then Inl (Not_publishable refus)
               else (let v' = v\<lparr>cv_published_at := Some now\<rparr>
                     in Inr (v', k\<lparr>kt_versions := upd_where (\<lambda>r. cv_id r = cv_id v) (\<lambda>r. r\<lparr>cv_published_at := Some now\<rparr>)
                                     (kt_versions k)\<rparr>))))"

definition avertissements_de_quiz :: "catalogue \<Rightarrow> course_version \<Rightarrow> warning list \<times> int list" where
  "avertissements_de_quiz k v =
     (let qs = questions_of k (cv_id v)
      in (if length qs < QUESTIONS_MINIMUM_POUR_UN_SEUIL then [Few_questions (length qs) (cv_pass_threshold v)] else [],
          map qn_order (filter (\<lambda>q. correct_choice_ids q = {}) qs)))"

section \<open>The preview\<close>

record preview =
  pw_title :: string
  pw_number :: int
  pw_minutes :: int
  pw_threshold :: int
  pw_attempts :: int
  pw_published :: bool
  pw_screens :: "(screen \<times> payload list option) list"
  pw_questions :: "(question \<times> choice list) list"

text \<open>
  The course as the learner will see it; a screen comes with its content, the variables of which are
  resolved when there is a company (\<open>val\<close>).
\<close>

definition apercu :: "catalogue \<Rightarrow> course \<Rightarrow> course_version \<Rightarrow> (string \<Rightarrow> int option) option \<Rightarrow> preview" where
  "apercu k c v val =
     \<lparr>pw_title = co_title c, pw_number = cv_number v, pw_minutes = estimated_minutes k (cv_id v),
      pw_threshold = cv_pass_threshold v, pw_attempts = cv_max_attempts v, pw_published = (cv_published_at v \<noteq> None),
      pw_screens = map (\<lambda>s. (s, case val of None \<Rightarrow> None | Some f \<Rightarrow> contextualiser f (sn_content s))) (screens_of k (cv_id v)),
      pw_questions = map (\<lambda>q. (q, choices_of q)) (questions_of k (cv_id v))\<rparr>"

section \<open>The requests\<close>

text \<open>
  Who writes (studio_views.py): the operator, who writes the courses of the library, or a member of a
  company, who writes those of the company if he administers it and the offer has the studio.
\<close>

datatype author = Exploitant | Member int bool

definition may_compose :: "author \<Rightarrow> bool" where
  "may_compose a = (case a of Exploitant \<Rightarrow> True | Member t admin \<Rightarrow> admin)"

definition client_of :: "author \<Rightarrow> int option" where
  "client_of a = (case a of Exploitant \<Rightarrow> None | Member t admin \<Rightarrow> Some t)"

datatype refusal =
    Permission_denied
  | Payment_required entitlement_error
  | Not_found
  | Belongs_to_client
  | Refused studio_error

definition garde_de_production :: "db \<Rightarrow> author \<Rightarrow> refusal + unit" where
  "garde_de_production d a =
     (case client_of a of
        None \<Rightarrow> Inr ()
      | Some t \<Rightarrow> (case ensure_feature d t TRAINING_STUDIO of Inl e \<Rightarrow> Inl (Payment_required e) | Inr u \<Rightarrow> Inr ()))"

definition cours_modifiable :: "catalogue \<Rightarrow> author \<Rightarrow> int \<Rightarrow> refusal + course" where
  "cours_modifiable k a i =
     (case find (\<lambda>c. co_id c = i) (kt_courses k) of
        None \<Rightarrow> Inl Not_found
      | Some c \<Rightarrow>
          (case a of
             Exploitant \<Rightarrow> if co_owner c \<noteq> None then Inl Belongs_to_client else Inr c
           | Member t _ \<Rightarrow> if co_owner c \<noteq> Some t then Inl Not_found else Inr c))"

definition version_of_author :: "catalogue \<Rightarrow> author \<Rightarrow> int \<Rightarrow> refusal + course_version" where
  "version_of_author k a i =
     (case find (\<lambda>v. cv_id v = i) (kt_versions k) of
        None \<Rightarrow> Inl Not_found
      | Some v \<Rightarrow> rbind (cours_modifiable k a (cv_course v)) (\<lambda>_. Inr v))"

definition cours_lisible :: "catalogue \<Rightarrow> author \<Rightarrow> int \<Rightarrow> refusal + course" where
  "cours_lisible k a i =
     (case find (\<lambda>c. co_id c = i) (kt_courses k) of
        None \<Rightarrow> Inl Not_found
      | Some c \<Rightarrow> if co_owner c = None \<or> (client_of a \<noteq> None \<and> co_owner c = client_of a) then Inr c else Inl Not_found)"

fun refused :: "studio_error + 'a \<Rightarrow> refusal + 'a" where
  "refused (Inl e) = Inl (Refused e)"
| "refused (Inr x) = Inr x"

datatype studio_request =
    Create string string
  | Open_version int string
  | Duplicate int string
  | Publish int
  | Write_screen int "int option" string json int
  | Delete_screen int int
  | Order_screens int "int list"
  | Write_question int "int option" string question_kind string int "(string \<times> bool) list"
  | Delete_question int int

text \<open>The courses as wholes: opening one, opening a version to writing, deriving one.\<close>

definition perform_course ::
  "(string \<Rightarrow> string) \<Rightarrow> author \<Rightarrow> int option \<Rightarrow> catalogue \<Rightarrow> studio_request \<Rightarrow> refusal + catalogue" where
  "perform_course slugify a actor k rq =
     (case rq of
        Create titre resume \<Rightarrow> Inr (snd (creer_cours slugify k titre resume (client_of a) actor))
      | Open_version c note \<Rightarrow>
          rbind (cours_modifiable k a c) (\<lambda>_. refused (rbind (nouvelle_version cles_connues k c note) (\<lambda>x. Inr (snd x))))
      | Duplicate c titre \<Rightarrow>
          rbind (cours_lisible k a c) (\<lambda>source.
            refused (rbind (dupliquer slugify cles_connues k source (client_of a) actor titre) (\<lambda>x. Inr (snd x))))
      | _ \<Rightarrow> Inl Not_found)"

text \<open>What is written in a version, and its publication.\<close>

definition perform ::
  "(string \<Rightarrow> string) \<Rightarrow> time \<Rightarrow> author \<Rightarrow> int option \<Rightarrow> catalogue \<Rightarrow> studio_request \<Rightarrow> refusal + catalogue" where
  "perform slugify now a actor k rq =
     (case rq of
        Publish v \<Rightarrow>
          rbind (version_of_author k a v) (\<lambda>x. refused (rbind (publier now k x) (\<lambda>y. Inr (snd y))))
      | Write_screen v i titre content seconds \<Rightarrow>
          rbind (version_of_author k a v) (\<lambda>x.
            refused (rbind (ecrire_ecran cles_connues k x i titre content seconds) (\<lambda>y. Inr (snd y))))
      | Delete_screen v i \<Rightarrow> rbind (version_of_author k a v) (\<lambda>x. refused (supprimer_ecran k x i))
      | Order_screens v ids \<Rightarrow>
          rbind (version_of_author k a v) (\<lambda>x. refused (rbind (reordonner_ecrans cles_connues k x ids) (\<lambda>y. Inr (snd y))))
      | Write_question v i txt kind explanation s choix \<Rightarrow>
          rbind (version_of_author k a v) (\<lambda>x.
            refused (rbind (ecrire_question k x i txt kind explanation s choix) (\<lambda>y. Inr (snd y))))
      | Delete_question v i \<Rightarrow> rbind (version_of_author k a v) (\<lambda>x. refused (supprimer_question k x i))
      | _ \<Rightarrow> perform_course slugify a actor k rq)"

text \<open>\<open>VueStudio\<close>: the permission of the views, then the offer, which every request that writes asks for first.\<close>

definition studio_call ::
  "(string \<Rightarrow> string) \<Rightarrow> time \<Rightarrow> db \<Rightarrow> author \<Rightarrow> int option \<Rightarrow> catalogue \<Rightarrow> studio_request \<Rightarrow> refusal + catalogue" where
  "studio_call slugify now d a actor k rq =
     (if \<not> may_compose a then Inl Permission_denied
      else rbind (garde_de_production d a) (\<lambda>_. perform slugify now a actor k rq))"

end
