(* ===== verification/StudioSafety.thy ===== *)
theory StudioSafety
  imports Studio "HOL-Library.Multiset"
begin

text \<open>
  What the studio keeps: a published version never changes, nobody writes in the course of another, a copy
  is complete and points to its own screens, and the catalogue stays sound whatever is asked.
\<close>

section \<open>What a write leaves alone\<close>

definition ids_ok :: "catalogue \<Rightarrow> bool" where
  "ids_ok k \<longleftrightarrow>
     distinct (map co_id (kt_courses k)) \<and> distinct (map cv_id (kt_versions k)) \<and>
     distinct (map sn_id (kt_screens k)) \<and> distinct (map qn_id (kt_questions k)) \<and>
     (\<forall>c \<in> set (kt_courses k). co_id c \<le> kt_seq k) \<and>
     (\<forall>v \<in> set (kt_versions k). cv_id v \<le> kt_seq k \<and> cv_course v \<le> kt_seq k) \<and>
     (\<forall>s \<in> set (kt_screens k). sn_id s \<le> kt_seq k \<and> sn_version s \<le> kt_seq k) \<and>
     (\<forall>q \<in> set (kt_questions k). qn_id q \<le> kt_seq k \<and> qn_version q \<le> kt_seq k)"

definition same_except :: "int \<Rightarrow> catalogue \<Rightarrow> catalogue \<Rightarrow> bool" where
  "same_except v k k' \<longleftrightarrow>
     kt_courses k' = kt_courses k \<and> kt_versions k' = kt_versions k \<and> kt_seq k \<le> kt_seq k' \<and>
     filter (\<lambda>s. sn_version s \<noteq> v) (kt_screens k') = filter (\<lambda>s. sn_version s \<noteq> v) (kt_screens k) \<and>
     filter (\<lambda>q. qn_version q \<noteq> v) (kt_questions k') = filter (\<lambda>q. qn_version q \<noteq> v) (kt_questions k)"

definition content :: "catalogue \<Rightarrow> int \<Rightarrow> screen list \<times> question list" where
  "content k v = (screens_of k v, questions_of k v)"

lemma same_except_refl [simp]: "same_except v k k"
  by (simp add: same_except_def)

lemma same_except_trans: "same_except v k k1 \<Longrightarrow> same_except v k1 k2 \<Longrightarrow> same_except v k k2"
  by (simp add: same_except_def)

lemma filter_other:
  assumes "filter (\<lambda>x. f x \<noteq> v) ys = filter (\<lambda>x. f x \<noteq> v) xs" and "w \<noteq> v"
  shows "filter (\<lambda>x. f x = w) ys = filter (\<lambda>x. f x = w) xs"
proof -
  have "filter (\<lambda>x. f x = w) zs = filter (\<lambda>x. f x = w) (filter (\<lambda>x. f x \<noteq> v) zs)" for zs
    using assms(2) by (induction zs) auto
  with assms(1) show ?thesis by metis
qed

lemma same_except_content: "same_except v k k' \<Longrightarrow> w \<noteq> v \<Longrightarrow> content k' w = content k w"
  unfolding same_except_def content_def screens_of_def questions_of_def
  by (metis filter_other [of sn_version] filter_other [of qn_version])

lemma screens_of_set [simp]: "s \<in> set (screens_of k v) \<longleftrightarrow> s \<in> set (kt_screens k) \<and> sn_version s = v"
  by (auto simp: screens_of_def)

lemma questions_of_set [simp]: "q \<in> set (questions_of k v) \<longleftrightarrow> q \<in> set (kt_questions k) \<and> qn_version q = v"
  by (auto simp: questions_of_def)

lemma filter_upd_key:
  assumes "distinct (map key xs)" and "x \<in> set xs" and "f x = v" and "\<And>y. f (g y) = f y \<or> f (g y) = v"
  shows "filter (\<lambda>y. f y \<noteq> v) (upd_where (\<lambda>y. key y = key x) g xs) = filter (\<lambda>y. f y \<noteq> v) xs"
proof -
  have "filter (\<lambda>y. f y \<noteq> v) (upd_where (\<lambda>y. key y = key x) g ys) = filter (\<lambda>y. f y \<noteq> v) ys" if "set ys \<subseteq> set xs" for ys
    using that
  proof (induction ys)
    case (Cons y ys)
    with assms show ?case using distinct_map_eq [OF assms(1), of y x] assms(4) [of x] by (auto split: if_splits)
  qed simp
  then show ?thesis by simp
qed

lemma filter_remove_key:
  assumes "distinct (map key xs)" and "x \<in> set xs" and "f x = v"
  shows "filter (\<lambda>y. f y \<noteq> v) (filter (\<lambda>y. key y \<noteq> key x) xs) = filter (\<lambda>y. f y \<noteq> v) xs"
proof -
  have "filter (\<lambda>y. f y \<noteq> v) (filter (\<lambda>y. key y \<noteq> key x) ys) = filter (\<lambda>y. f y \<noteq> v) ys" if "set ys \<subseteq> set xs" for ys
    using that
  proof (induction ys)
    case (Cons y ys)
    with assms show ?case using distinct_map_eq [OF assms(1), of y x] by auto
  qed simp
  then show ?thesis by simp
qed

lemma map_upd_same: "(\<And>y. y \<in> set xs \<Longrightarrow> p y \<Longrightarrow> key (g y) = key y) \<Longrightarrow> map key (upd_where p g xs) = map key xs"
  by (induction xs) auto

lemma ids_ok_upd_screen:
  assumes "ids_ok k" and "s \<in> set (kt_screens k)" and "\<And>r. sn_id r = sn_id s \<Longrightarrow> sn_id (g r) = sn_id s \<and> sn_version (g r) = sn_version s"
  shows "ids_ok (k\<lparr>kt_screens := upd_where (\<lambda>r. sn_id r = sn_id s) g (kt_screens k)\<rparr>)"
proof -
  have "map sn_id (upd_where (\<lambda>r. sn_id r = sn_id s) g (kt_screens k)) = map sn_id (kt_screens k)"
    by (rule map_upd_same) (use assms(3) in simp)
  with assms show ?thesis by (auto simp: ids_ok_def set_upd_where)
qed

lemma ids_ok_upd_question:
  assumes "ids_ok k" and "q \<in> set (kt_questions k)" and "qn_id q' = qn_id q" and "qn_version q' = qn_version q"
  shows "ids_ok (k\<lparr>kt_questions := upd_where (\<lambda>r. qn_id r = qn_id q) (\<lambda>r. q') (kt_questions k)\<rparr>)"
proof -
  have "map qn_id (upd_where (\<lambda>r. qn_id r = qn_id q) (\<lambda>r. q') (kt_questions k)) = map qn_id (kt_questions k)"
    by (rule map_upd_same) (use assms(3) in simp)
  with assms show ?thesis by (auto simp: ids_ok_def set_upd_where)
qed

lemma ids_ok_seq: "ids_ok k \<Longrightarrow> kt_seq k \<le> n \<Longrightarrow> ids_ok (k\<lparr>kt_seq := n\<rparr>)"
  unfolding ids_ok_def by (auto intro: order_trans)

lemma below_seq: "(\<forall>x \<in> set xs. f x \<le> n) \<Longrightarrow> (\<forall>x \<in> set xs. f x \<le> m)" if "n \<le> m" for f :: "'a \<Rightarrow> int"
  using that by (auto intro: order_trans)

lemma fresh_key: "distinct (map f xs) \<Longrightarrow> (\<forall>x \<in> set xs. f x \<le> n) \<Longrightarrow> n < f y \<Longrightarrow> distinct (map f (y # xs))"
  for f :: "'a \<Rightarrow> int"
  by (auto simp: image_iff)

lemma ids_ok_new_screen:
  assumes "ids_ok k" and "sn_id s = kt_seq k + 1" and "sn_version s \<le> kt_seq k + 1"
  shows "ids_ok (k\<lparr>kt_seq := kt_seq k + 1, kt_screens := s # kt_screens k\<rparr>)"
proof -
  from ids_ok_seq [OF assms(1), of "kt_seq k + 1"] have k: "ids_ok (k\<lparr>kt_seq := kt_seq k + 1\<rparr>)" by simp
  have "distinct (map sn_id (s # kt_screens k))"
    by (rule fresh_key [where n = "kt_seq k"]) (use assms in \<open>auto simp: ids_ok_def\<close>)
  with k assms(2,3) show ?thesis by (simp add: ids_ok_def)
qed

lemma ids_ok_new_question:
  assumes "ids_ok k" and "qn_id q = kt_seq k + 1" and "qn_version q \<le> kt_seq k" and "kt_seq k + 1 \<le> n"
  shows "ids_ok (k\<lparr>kt_seq := n, kt_questions := q # kt_questions k\<rparr>)"
proof -
  from ids_ok_seq [OF assms(1), of n] assms(4) have k: "ids_ok (k\<lparr>kt_seq := n\<rparr>)" by simp
  have "distinct (map qn_id (q # kt_questions k))"
    by (rule fresh_key [where n = "kt_seq k"]) (use assms in \<open>auto simp: ids_ok_def\<close>)
  with k assms(2,3,4) show ?thesis by (simp add: ids_ok_def)
qed

section \<open>The writes to a draft\<close>

lemma ecrire_ecran_cases:
  assumes "ecrire_ecran known k v i t c n = Inr (s, k')"
  obtains (add) "i = None" "cv_published_at v = None" "check_content known c = Inr ()" "sn_content s = c" "sn_id s = kt_seq k + 1"
      "sn_version s = cv_id v" "sn_order s = next_order (map sn_order (screens_of k (cv_id v)))"
      "k' = k\<lparr>kt_seq := kt_seq k + 1, kt_screens := s # kt_screens k\<rparr>"
    | (change) r where "i = Some (sn_id r)" "cv_published_at v = None" "check_content known c = Inr ()" "r \<in> set (kt_screens k)"
      "sn_version r = cv_id v" "sn_content s = c" "sn_id s = sn_id r" "sn_version s = sn_version r" "sn_order s = sn_order r"
      "k' = k\<lparr>kt_screens := upd_where (\<lambda>x. sn_id x = sn_id r) (\<lambda>x. s) (kt_screens k)\<rparr>"
proof -
  from assms have d: "cv_published_at v = None"
    by (simp add: ecrire_ecran_def version_modifiable_def rbind_Inr_iff)
  show thesis
  proof (cases i)
    case None
    with assms d have "check_content known c = Inr ()"
      by (simp add: ecrire_ecran_def version_modifiable_def ensure_def rbind_Inr_iff Let_def)
    with assms d None show ?thesis
      by (intro add) (simp_all add: ecrire_ecran_def version_modifiable_def ensure_def Let_def, auto)
  next
    case (Some j)
    with assms d obtain r where f: "find (\<lambda>s. sn_version s = cv_id v \<and> sn_id s = j) (kt_screens k) = Some r"
      by (auto simp add: ecrire_ecran_def version_modifiable_def ensure_def split: option.splits)
    with assms d Some have c: "check_content known c = Inr ()"
      by (simp add: ecrire_ecran_def version_modifiable_def ensure_def rbind_Inr_iff Let_def)
    from find_SomeD [OF f] have r: "r \<in> set (kt_screens k)" "sn_version r = cv_id v" "sn_id r = j" by auto
    from assms d Some f c
    have "s = r\<lparr>sn_title := strip t, sn_content := c, sn_seconds := n\<rparr>"
      and "k' = k\<lparr>kt_screens := upd_where (\<lambda>x. sn_id x = j) (\<lambda>x. s) (kt_screens k)\<rparr>"
      by (auto simp: ecrire_ecran_def version_modifiable_def ensure_def Let_def)
    with r Some d c show ?thesis by (intro change [of r]) simp_all
  qed
qed

lemma ecrire_ecran_draft:
  assumes "ecrire_ecran known k v i t c n = Inr (s, k')" and "ids_ok k" and "cv_id v \<le> kt_seq k"
  shows "cv_published_at v = None \<and> same_except (cv_id v) k k' \<and> ids_ok k' \<and> kt_questions k' = kt_questions k"
  using assms(1)
proof (cases rule: ecrire_ecran_cases)
  case add
  with ids_ok_new_screen [OF assms(2), of s] assms(3) show ?thesis by (simp add: same_except_def)
next
  case (change r)
  have "ids_ok k'" unfolding change(10) by (rule ids_ok_upd_screen [OF assms(2)]) (use change in simp_all)
  moreover have "same_except (cv_id v) k k'"
    using assms(2) change filter_upd_key [of sn_id "kt_screens k" r sn_version "cv_id v" "\<lambda>x. s"]
    by (simp add: same_except_def ids_ok_def)
  ultimately show ?thesis using change by simp
qed

lemma supprimer_ecran_draft:
  assumes "supprimer_ecran k v i = Inr k'" and "ids_ok k"
  shows "cv_published_at v = None \<and> same_except (cv_id v) k k' \<and> ids_ok k' \<and> kt_questions k' = kt_questions k \<and>
    (\<forall>q \<in> set (kt_questions k). qn_screen q \<noteq> i) \<and> kt_screens k' = filter (\<lambda>r. sn_id r \<noteq> i) (kt_screens k)"
proof -
  from assms(1) obtain r where d: "cv_published_at v = None"
    and f: "find (\<lambda>s. sn_version s = cv_id v \<and> sn_id s = i) (kt_screens k) = Some r"
    and n: "\<forall>q \<in> set (kt_questions k). qn_screen q \<noteq> i"
    and k': "k' = k\<lparr>kt_screens := filter (\<lambda>r. sn_id r \<noteq> i) (kt_screens k)\<rparr>"
    by (auto simp: supprimer_ecran_def version_modifiable_def rbind_Inr_iff split: option.splits if_splits)
  from find_SomeD [OF f] have r: "r \<in> set (kt_screens k)" "sn_version r = cv_id v" "sn_id r = i" by auto
  with assms(2) d n show ?thesis
    using filter_remove_key [of sn_id "kt_screens k" r sn_version "cv_id v"]
    by (auto simp: same_except_def k' ids_ok_def distinct_map_filter)
qed

lemma supprimer_question_draft:
  assumes "supprimer_question k v i = Inr k'" and "ids_ok k"
  shows "cv_published_at v = None \<and> same_except (cv_id v) k k' \<and> ids_ok k' \<and> kt_screens k' = kt_screens k \<and>
    kt_questions k' = filter (\<lambda>r. qn_id r \<noteq> i) (kt_questions k)"
proof -
  from assms(1) obtain r where d: "cv_published_at v = None"
    and f: "find (\<lambda>s. qn_version s = cv_id v \<and> qn_id s = i) (kt_questions k) = Some r"
    and k': "k' = k\<lparr>kt_questions := filter (\<lambda>r. qn_id r \<noteq> i) (kt_questions k)\<rparr>"
    by (auto simp: supprimer_question_def version_modifiable_def rbind_Inr_iff split: option.splits)
  from find_SomeD [OF f] have r: "r \<in> set (kt_questions k)" "qn_version r = cv_id v" "qn_id r = i" by auto
  with assms(2) d show ?thesis
    using filter_remove_key [of qn_id "kt_questions k" r qn_version "cv_id v"]
    by (auto simp: same_except_def k' ids_ok_def distinct_map_filter)
qed

lemma save_rank_draft:
  assumes "save_rank known v k i rank = Inr k'" and "ids_ok k"
  shows "same_except v k k' \<and> ids_ok k' \<and> kt_questions k' = kt_questions k"
proof -
  from assms(1) obtain r where f: "find (\<lambda>s. sn_version s = v \<and> sn_id s = i) (kt_screens k) = Some r"
    and k': "k' = k\<lparr>kt_screens := upd_where (\<lambda>x. sn_id x = i) (\<lambda>x. x\<lparr>sn_order := rank\<rparr>) (kt_screens k)\<rparr>"
    by (auto simp: save_rank_def rbind_Inr_iff split: option.splits if_splits)
  from find_SomeD [OF f] have r: "r \<in> set (kt_screens k)" "sn_version r = v" "sn_id r = i" by auto
  have "ids_ok k'"
  proof -
    have "map sn_id (upd_where (\<lambda>x. sn_id x = i) (\<lambda>x. x\<lparr>sn_order := rank\<rparr>) (kt_screens k)) = map sn_id (kt_screens k)"
      by (rule map_upd_same) simp
    with assms(2) show ?thesis by (auto simp: k' ids_ok_def set_upd_where)
  qed
  with assms(2) r show ?thesis
    using filter_upd_key [of sn_id "kt_screens k" r sn_version v "\<lambda>x. x\<lparr>sn_order := rank\<rparr>"]
    by (auto simp: same_except_def k' ids_ok_def)
qed

lemma save_ranks_draft:
  "save_ranks known v ids rank k = Inr k' \<Longrightarrow> ids_ok k \<Longrightarrow> same_except v k k' \<and> ids_ok k' \<and> kt_questions k' = kt_questions k"
proof (induction ids arbitrary: rank k)
  case (Cons i ids)
  from Cons.prems(1) obtain k1 where k1: "save_rank known v k i rank = Inr k1" "save_ranks known v ids (rank + 1) k1 = Inr k'"
    by (auto simp: rbind_Inr_iff)
  from save_rank_draft [OF k1(1) Cons.prems(2)] Cons.IH [OF k1(2)] show ?case
    by (auto intro: same_except_trans)
qed simp

lemma reordonner_draft:
  assumes "reordonner_ecrans known k v ids = Inr (ss, k')" and "ids_ok k"
  shows "cv_published_at v = None \<and> same_except (cv_id v) k k' \<and> ids_ok k' \<and> kt_questions k' = kt_questions k"
proof -
  from assms(1) obtain k1 where d: "cv_published_at v = None"
    and k1: "save_ranks known (cv_id v) ids (int (length ids) + 1) k = Inr k1" "save_ranks known (cv_id v) ids 1 k1 = Inr k'"
    by (auto simp: reordonner_ecrans_def version_modifiable_def rbind_Inr_iff split: if_splits)
  from save_ranks_draft [OF k1(1) assms(2)] save_ranks_draft [OF k1(2)] d show ?thesis
    by (auto intro: same_except_trans)
qed

lemma ecrire_question_cases:
  assumes "ecrire_question k v i txt kind e s choix = Inr (q, k')"
  obtains sc where "cv_published_at v = None" "strip e \<noteq> []" "\<exists>c \<in> set choix. snd c" "2 \<le> length choix"
    "kind = Single \<longrightarrow> length (filter snd choix) \<le> 1"
    "sc \<in> set (kt_screens k)" "sn_version sc = cv_id v" "sn_id sc = s"
    "qn_version q = cv_id v" "qn_screen q = s" "qn_kind q = kind" "qn_explanation q = strip e"
    "\<exists>n. qn_choices q = new_choices n 1 choix"
    "(i = None \<and> qn_id q = kt_seq k + 1 \<and> qn_order q = next_order (map qn_order (questions_of k (cv_id v))) \<and>
      k' = k\<lparr>kt_seq := kt_seq k + 1 + int (length choix), kt_questions := q # kt_questions k\<rparr>) \<or>
     (\<exists>r \<in> set (kt_questions k). qn_version r = cv_id v \<and> qn_id q = qn_id r \<and> qn_order q = qn_order r \<and> i = Some (qn_id r) \<and>
      k' = k\<lparr>kt_seq := kt_seq k + int (length choix), kt_questions := upd_where (\<lambda>x. qn_id x = qn_id r) (\<lambda>x. q) (kt_questions k)\<rparr>)"
proof -
  from assms obtain sc where g: "cv_published_at v = None" "strip e \<noteq> []" "\<exists>c \<in> set choix. snd c" "2 \<le> length choix"
    "kind = Single \<longrightarrow> length (filter snd choix) \<le> 1"
    and sc: "find (\<lambda>x. sn_version x = cv_id v \<and> sn_id x = s) (kt_screens k) = Some sc"
    by (auto simp: ecrire_question_def version_modifiable_def rbind_Inr_iff split: option.splits)
  note s = find_SomeD [OF sc]
  show thesis
  proof (cases i)
    case None
    with assms g sc s show ?thesis
      by (intro that [of sc]) (auto simp: ecrire_question_def version_modifiable_def rbind_Inr_iff Let_def)
  next
    case (Some j)
    with assms g sc obtain r where r: "find (\<lambda>x. qn_version x = cv_id v \<and> qn_id x = j) (kt_questions k) = Some r"
      by (auto simp: ecrire_question_def version_modifiable_def rbind_Inr_iff split: option.splits)
    from find_SomeD [OF r] Some assms g sc s r show ?thesis
      by (intro that [of sc]) (auto simp: ecrire_question_def version_modifiable_def rbind_Inr_iff Let_def)
  qed
qed

lemma ecrire_question_draft:
  assumes "ecrire_question k v i txt kind e s choix = Inr (q, k')" and "ids_ok k" and "cv_id v \<le> kt_seq k"
  shows "cv_published_at v = None \<and> same_except (cv_id v) k k' \<and> ids_ok k' \<and> kt_screens k' = kt_screens k"
  using assms(1)
proof (cases rule: ecrire_question_cases)
  case (1 sc)
  from 1(14) show ?thesis
  proof (elim disjE bexE conjE)
    assume "k' = k\<lparr>kt_seq := kt_seq k + 1 + int (length choix), kt_questions := q # kt_questions k\<rparr>"
      and "qn_id q = kt_seq k + 1"
    with 1 ids_ok_new_question [OF assms(2), of q "kt_seq k + 1 + int (length choix)"] assms(3) show ?thesis
      by (simp add: same_except_def)
  next
    fix r
    assume r: "r \<in> set (kt_questions k)" "qn_version r = cv_id v" "qn_id q = qn_id r"
      and k': "k' = k\<lparr>kt_seq := kt_seq k + int (length choix), kt_questions := upd_where (\<lambda>x. qn_id x = qn_id r) (\<lambda>x. q) (kt_questions k)\<rparr>"
    have "ids_ok (k\<lparr>kt_questions := upd_where (\<lambda>x. qn_id x = qn_id r) (\<lambda>x. q) (kt_questions k)\<rparr>)"
      by (rule ids_ok_upd_question) (use assms(2) r 1 in auto)
    from ids_ok_seq [OF this, of "kt_seq k + int (length choix)"] have "ids_ok k'" by (simp add: k' ids_ok_def)
    with 1 r assms(2) show ?thesis
      using filter_upd_key [of qn_id "kt_questions k" r qn_version "cv_id v" "\<lambda>x. q"]
      by (auto simp: same_except_def k' ids_ok_def)
  qed
qed

section \<open>Copies\<close>

text \<open>The copies of some rows: as they were but for their id and version, their ids new and distinct.\<close>

definition fresh_ids :: "('r \<Rightarrow> int) \<Rightarrow> catalogue \<Rightarrow> catalogue \<Rightarrow> 'r list \<Rightarrow> bool" where
  "fresh_ids f k k' rows \<longleftrightarrow> distinct (map f rows) \<and> (\<forall>r \<in> set rows. kt_seq k < f r \<and> f r \<le> kt_seq k')"

lemma fresh_ids_Cons:
  "fresh_ids f k1 k' rows \<Longrightarrow> kt_seq k1 = n \<Longrightarrow> kt_seq k < f r \<Longrightarrow> f r \<le> n \<Longrightarrow> n \<le> kt_seq k' \<Longrightarrow> fresh_ids f k k' (r # rows)"
  by (force simp: fresh_ids_def image_iff)

definition screen_copy :: "int \<Rightarrow> screen \<Rightarrow> screen \<Rightarrow> bool" where
  "screen_copy target s s' \<longleftrightarrow> s' = s\<lparr>sn_id := sn_id s', sn_version := target\<rparr>"

definition question_copy :: "int \<Rightarrow> (int \<times> int) list \<Rightarrow> question \<Rightarrow> question \<Rightarrow> bool" where
  "question_copy target m q q' \<longleftrightarrow>
     qn_version q' = target \<and> qn_order q' = qn_order q \<and> qn_text q' = qn_text q \<and> qn_kind q' = qn_kind q \<and>
     qn_explanation q' = qn_explanation q \<and>
     qn_screen q' = (case map_of m (qn_screen q) of Some s \<Rightarrow> s | None \<Rightarrow> qn_screen q) \<and>
     (\<exists>n. qn_choices q' = copy_choices n (choices_of q))"

lemma copy_screens_exact:
  "copy_screens known target ss m k = (Inr m', k') \<Longrightarrow>
   \<exists>rows. list_all2 (screen_copy target) ss rows \<and> fresh_ids sn_id k k' rows \<and> kt_seq k \<le> kt_seq k' \<and>
     m' = rev (zip (map sn_id ss) (map sn_id rows)) @ m \<and> k' = k\<lparr>kt_seq := kt_seq k', kt_screens := rev rows @ kt_screens k\<rparr> \<and>
     (\<forall>s \<in> set ss. check_content known (sn_content s) = Inr ())"
proof (induction ss arbitrary: m k)
  case Nil
  then show ?case by (auto simp: fresh_ids_def)
next
  case (Cons s ss)
  let ?s = "s\<lparr>sn_id := kt_seq k + 1, sn_version := target\<rparr>"
  let ?k = "k\<lparr>kt_seq := kt_seq k + 1, kt_screens := ?s # kt_screens k\<rparr>"
  from Cons.prems have v: "valider known (sn_content s) = Some []"
    and r: "copy_screens known target ss ((sn_id s, kt_seq k + 1) # m) ?k = (Inr m', k')"
    by (auto simp: Let_def split: option.splits if_splits)
  from Cons.IH [OF r] obtain rows where rows: "list_all2 (screen_copy target) ss rows" "fresh_ids sn_id ?k k' rows"
    "kt_seq ?k \<le> kt_seq k'" "m' = rev (zip (map sn_id ss) (map sn_id rows)) @ (sn_id s, kt_seq k + 1) # m"
    "k' = ?k\<lparr>kt_seq := kt_seq k', kt_screens := rev rows @ kt_screens ?k\<rparr>"
    "\<forall>s \<in> set ss. check_content known (sn_content s) = Inr ()" by blast
  have "fresh_ids sn_id k k' (?s # rows)"
    by (rule fresh_ids_Cons [OF rows(2), of "kt_seq k + 1"]) (use rows(3) in simp_all)
  moreover have "k' = k\<lparr>kt_seq := kt_seq k', kt_screens := rev (?s # rows) @ kt_screens k\<rparr>" using rows(5) by simp
  moreover have "screen_copy target s ?s" by (simp add: screen_copy_def)
  ultimately show ?case using rows v by (intro exI [of _ "?s # rows"]) (simp add: check_content_def)
qed

lemma copy_questions_exact:
  "\<exists>rows. list_all2 (question_copy target m) qs rows \<and> fresh_ids qn_id k (copy_questions target qs m k) rows \<and>
     kt_seq k \<le> kt_seq (copy_questions target qs m k) \<and>
     copy_questions target qs m k =
       k\<lparr>kt_seq := kt_seq (copy_questions target qs m k), kt_questions := rev rows @ kt_questions k\<rparr>"
proof (induction qs arbitrary: k)
  case Nil
  then show ?case by (auto simp: fresh_ids_def)
next
  case (Cons q qs)
  let ?cs = "copy_choices (kt_seq k + 1 + 1) (choices_of q)"
  let ?q = "q\<lparr>qn_id := kt_seq k + 1, qn_version := target,
                 qn_screen := (case map_of m (qn_screen q) of Some s \<Rightarrow> s | None \<Rightarrow> qn_screen q), qn_choices := ?cs\<rparr>"
  let ?k = "k\<lparr>kt_seq := kt_seq k + 1 + int (length ?cs), kt_questions := ?q # kt_questions k\<rparr>"
  let ?k' = "copy_questions target qs m ?k"
  have e: "copy_questions target (q # qs) m k = ?k'" by (simp add: Let_def)
  from Cons.IH [of ?k] obtain rows where rows: "list_all2 (question_copy target m) qs rows"
    "fresh_ids qn_id ?k ?k' rows" "kt_seq ?k \<le> kt_seq ?k'"
    "?k' = ?k\<lparr>kt_seq := kt_seq ?k', kt_questions := rev rows @ kt_questions ?k\<rparr>" by blast
  have "fresh_ids qn_id k ?k' (?q # rows)"
    by (rule fresh_ids_Cons [OF rows(2), of "kt_seq ?k"]) (use rows(3) in simp_all)
  moreover have "?k' = k\<lparr>kt_seq := kt_seq ?k', kt_questions := rev (?q # rows) @ kt_questions k\<rparr>"
    by (subst rows(4)) simp
  moreover have "question_copy target m q ?q" by (auto simp: question_copy_def)
  moreover have "kt_seq k \<le> kt_seq ?k'" using rows(3) by simp
  ultimately show ?case unfolding e using rows(1) by (intro exI [of _ "?q # rows"]) simp
qed

lemma recopier_exact:
  assumes "recopier_contenu known k source target = Inr k'"
  obtains ss qs where "list_all2 (screen_copy target) (screens_of k source) ss"
    "list_all2 (question_copy target (rev (zip (map sn_id (screens_of k source)) (map sn_id ss)))) (questions_of k source) qs"
    "fresh_ids sn_id k k' ss" "fresh_ids qn_id k k' qs" "kt_seq k \<le> kt_seq k'"
    "k' = k\<lparr>kt_seq := kt_seq k', kt_screens := rev ss @ kt_screens k, kt_questions := rev qs @ kt_questions k\<rparr>"
    "\<forall>s \<in> set (screens_of k source). check_content known (sn_content s) = Inr ()"
proof -
  from assms obtain m k1 where c: "copy_screens known target (screens_of k source) [] k = (Inr m, k1)"
    and k': "k' = copy_questions target (questions_of k source) m k1"
    by (auto simp: recopier_contenu_def split: prod.splits sum.splits)
  from copy_screens_exact [OF c] obtain ss where ss: "list_all2 (screen_copy target) (screens_of k source) ss"
    "fresh_ids sn_id k k1 ss" "kt_seq k \<le> kt_seq k1" "m = rev (zip (map sn_id (screens_of k source)) (map sn_id ss))"
    "k1 = k\<lparr>kt_seq := kt_seq k1, kt_screens := rev ss @ kt_screens k\<rparr>"
    "\<forall>s \<in> set (screens_of k source). check_content known (sn_content s) = Inr ()" by auto
  from copy_questions_exact [of target m "questions_of k source" k1, folded k'] obtain qs where qs:
    "list_all2 (question_copy target m) (questions_of k source) qs" "fresh_ids qn_id k1 k' qs" "kt_seq k1 \<le> kt_seq k'"
    "k' = k1\<lparr>kt_seq := kt_seq k', kt_questions := rev qs @ kt_questions k1\<rparr>" by blast
  have f1: "kt_courses k1 = kt_courses k" "kt_versions k1 = kt_versions k" "kt_screens k1 = rev ss @ kt_screens k"
    "kt_questions k1 = kt_questions k" by (subst ss(5), simp)+
  have f2: "kt_courses k' = kt_courses k1" "kt_versions k' = kt_versions k1" "kt_screens k' = kt_screens k1"
    "kt_questions k' = rev qs @ kt_questions k1" by (subst qs(4), simp)+
  have "k' = k\<lparr>kt_seq := kt_seq k', kt_screens := rev ss @ kt_screens k, kt_questions := rev qs @ kt_questions k\<rparr>"
    by (rule catalogue.equality) (simp_all add: f1 f2)
  moreover have "fresh_ids sn_id k k' ss" "fresh_ids qn_id k k' qs"
    using ss(2,3) qs(2,3) unfolding fresh_ids_def by force+
  ultimately show thesis using ss qs by (intro that [of ss qs]) auto
qed

lemma fresh_ids_append:
  assumes "fresh_ids f k k' rows" and "distinct (map f xs)" and "\<forall>x \<in> set xs. f x \<le> kt_seq k"
  shows "distinct (map f (rev rows @ xs))"
  using assms by (fastforce simp: fresh_ids_def rev_map [symmetric])

lemma recopier_draft:
  assumes "recopier_contenu known k source target = Inr k'" and "ids_ok k" and "target \<le> kt_seq k"
  shows "same_except target k k' \<and> ids_ok k'"
  using assms(1)
proof (rule recopier_exact)
  fix ss qs
  assume ss: "list_all2 (screen_copy target) (screens_of k source) ss" "fresh_ids sn_id k k' ss"
    and qs: "list_all2 (question_copy target (rev (zip (map sn_id (screens_of k source)) (map sn_id ss)))) (questions_of k source) qs"
      "fresh_ids qn_id k k' qs"
    and k': "kt_seq k \<le> kt_seq k'"
      "k' = k\<lparr>kt_seq := kt_seq k', kt_screens := rev ss @ kt_screens k, kt_questions := rev qs @ kt_questions k\<rparr>"
  have vs: "\<forall>s \<in> set ss. sn_version s = target"
  proof
    fix s assume "s \<in> set ss"
    with ss(1) obtain x where "screen_copy target x s" by (auto simp: list_all2_conv_all_nth in_set_conv_nth)
    then have "s = x\<lparr>sn_id := sn_id s, sn_version := target\<rparr>" by (simp add: screen_copy_def)
    then have "sn_version s = sn_version (x\<lparr>sn_id := sn_id s, sn_version := target\<rparr>)" by (rule arg_cong)
    then show "sn_version s = target" by simp
  qed
  have vq: "\<forall>q \<in> set qs. qn_version q = target"
    using qs(1) by (auto simp: list_all2_conv_all_nth in_set_conv_nth question_copy_def)
  have f: "kt_courses k' = kt_courses k" "kt_versions k' = kt_versions k" "kt_screens k' = rev ss @ kt_screens k"
    "kt_questions k' = rev qs @ kt_questions k" by (subst k'(2), simp)+
  have d: "distinct (map sn_id (kt_screens k'))" "distinct (map qn_id (kt_questions k'))"
    unfolding f by (rule fresh_ids_append [OF ss(2)]; use assms(2) in \<open>simp add: ids_ok_def\<close>)
      (rule fresh_ids_append [OF qs(2)]; use assms(2) in \<open>simp add: ids_ok_def\<close>)
  have b: "\<forall>s \<in> set (kt_screens k'). sn_id s \<le> kt_seq k' \<and> sn_version s \<le> kt_seq k'"
    "\<forall>q \<in> set (kt_questions k'). qn_id q \<le> kt_seq k' \<and> qn_version q \<le> kt_seq k'"
    using vs vq ss(2) qs(2) assms(2,3) k'(1) unfolding f by (fastforce simp: ids_ok_def fresh_ids_def)+
  have "ids_ok (k\<lparr>kt_seq := kt_seq k'\<rparr>)" by (rule ids_ok_seq [OF assms(2) k'(1)])
  with d b have "ids_ok k'" by (simp add: ids_ok_def f)
  moreover have "same_except target k k'"
    using vs vq k'(1) by (simp add: same_except_def f filter_empty_conv)
  ultimately show "same_except target k k' \<and> ids_ok k'" by simp
qed

section \<open>A sound version\<close>

definition question_ok :: "question \<Rightarrow> bool" where
  "question_ok q \<longleftrightarrow>
     strip (qn_explanation q) \<noteq> [] \<and> correct_choice_ids q \<noteq> {} \<and> 2 \<le> length (qn_choices q) \<and>
     (qn_kind q = Single \<longrightarrow> length (filter ch_correct (qn_choices q)) \<le> 1) \<and>
     distinct (map ch_id (qn_choices q)) \<and> distinct (map ch_order (qn_choices q))"

definition sound_version :: "catalogue \<Rightarrow> int \<Rightarrow> bool" where
  "sound_version k v \<longleftrightarrow>
     distinct (map sn_order (screens_of k v)) \<and> distinct (map qn_order (questions_of k v)) \<and>
     (\<forall>s \<in> set (screens_of k v). check_content cles_connues (sn_content s) = Inr ()) \<and>
     (\<forall>q \<in> set (questions_of k v). question_ok q \<and> qn_screen q \<in> sn_id ` set (screens_of k v))"

lemma sound_version_content: "content k' v = content k v \<Longrightarrow> sound_version k v \<Longrightarrow> sound_version k' v"
  by (simp add: content_def sound_version_def del: screens_of_set questions_of_set)

lemma mset_map_sort_key: "mset (map f (sort_key g xs)) = mset (map f xs)"
  by (simp add: mset_map)

lemma distinct_sort_key: "distinct (map f (sort_key g xs)) = distinct (map f xs)"
  using mset_eq_imp_distinct_iff [OF mset_map_sort_key] .

lemma distinct_screens_of:
  "distinct (map f (screens_of k v)) = distinct (map f (filter (\<lambda>s. sn_version s = v) (kt_screens k)))"
  by (simp add: screens_of_def distinct_sort_key)

lemma distinct_questions_of:
  "distinct (map f (questions_of k v)) = distinct (map f (filter (\<lambda>q. qn_version q = v) (kt_questions k)))"
  by (simp add: questions_of_def distinct_sort_key)

lemma map_eq_image: "map f xs = map f ys \<Longrightarrow> f ` set xs = f ` set ys"
  by (metis set_map)

lemma same_screen_ids:
  assumes "map sn_id (filter (\<lambda>x. sn_version x = v) (kt_screens k')) = map sn_id (filter (\<lambda>x. sn_version x = v) (kt_screens k))"
  shows "sn_id ` set (screens_of k' v) = sn_id ` set (screens_of k v)"
  using map_eq_image [OF assms] by (simp add: screens_of_def)

lemma next_order_fresh: "next_order xs \<notin> set xs"
proof (cases "xs = []")
  case False
  have "x < Max (set xs) + 1" if "x \<in> set xs" for x
    using Max_ge [OF finite_set that] by simp
  then have "Max (set xs) + 1 \<notin> set xs" by blast
  with False show ?thesis by (simp add: next_order_def)
qed simp

lemma map_filter_upd:
  assumes "\<And>y. y \<in> set xs \<Longrightarrow> key y = i \<Longrightarrow> f (g y) = f y \<and> h (g y) = h y"
  shows "map h (filter (\<lambda>y. f y = v) (upd_where (\<lambda>y. key y = i) g xs)) = map h (filter (\<lambda>y. f y = v) xs)"
  using assms
proof (induction xs)
  case (Cons y ys)
  then have "map h (filter (\<lambda>y. f y = v) (upd_where (\<lambda>y. key y = i) g ys)) = map h (filter (\<lambda>y. f y = v) ys)" by simp
  with Cons.prems [of y] show ?case by simp
qed simp

lemma ecrire_ecran_sound:
  assumes "ecrire_ecran cles_connues k v i t c n = Inr (s, k')" and "ids_ok k" and "sound_version k (cv_id v)"
  shows "sound_version k' (cv_id v)"
  using assms(1)
proof (cases rule: ecrire_ecran_cases)
  case add
  have s: "filter (\<lambda>x. sn_version x = cv_id v) (kt_screens k') = s # filter (\<lambda>x. sn_version x = cv_id v) (kt_screens k)"
    and q: "questions_of k' = questions_of k"
    using add(6) by (simp_all add: questions_of_def fun_eq_iff add(8))
  have "sn_order s \<notin> sn_order ` set (screens_of k (cv_id v))"
    using next_order_fresh [of "map sn_order (screens_of k (cv_id v))"] add(7) by simp
  with assms(3) have "distinct (map sn_order (screens_of k' (cv_id v)))"
    by (auto simp: sound_version_def distinct_screens_of s)
  moreover have "screens_of k' (cv_id v) = sort_key sn_order (s # filter (\<lambda>x. sn_version x = cv_id v) (kt_screens k))"
    unfolding screens_of_def s ..
  then have "set (screens_of k' (cv_id v)) = insert s (set (screens_of k (cv_id v)))"
    unfolding screens_of_def [of k] by (simp add: set_insort_key)
  ultimately show ?thesis using assms(3) add(3,4) q by (simp add: sound_version_def del: screens_of_set)
next
  case (change r)
  have u: "x = r" if "x \<in> set (kt_screens k)" "sn_id x = sn_id r" for x
    using distinct_map_eq [of sn_id "kt_screens k" x r] that assms(2) change(4) by (simp add: ids_ok_def)
  have ks: "kt_screens k' = upd_where (\<lambda>x. sn_id x = sn_id r) (\<lambda>x. s) (kt_screens k)" by (simp add: change(10))
  have "map sn_order (filter (\<lambda>x. sn_version x = cv_id v) (kt_screens k')) = map sn_order (filter (\<lambda>x. sn_version x = cv_id v) (kt_screens k))"
    unfolding ks by (rule map_filter_upd) (use u change(7-9) in auto)
  then have "distinct (map sn_order (screens_of k' (cv_id v))) = distinct (map sn_order (screens_of k (cv_id v)))"
    by (simp add: distinct_screens_of)
  moreover have "sn_id ` set (screens_of k' (cv_id v)) = sn_id ` set (screens_of k (cv_id v))"
    by (rule same_screen_ids, unfold ks, rule map_filter_upd) (use u change(7-9) in auto)
  moreover have "questions_of k' = questions_of k" by (simp add: questions_of_def fun_eq_iff change(10))
  moreover have "check_content cles_connues (sn_content x) = Inr ()" if "x \<in> set (kt_screens k')" "sn_version x = cv_id v" for x
    using that change(3,6) assms(3) unfolding ks by (auto simp: sound_version_def set_upd_where split: if_splits)
  ultimately show ?thesis using assms(3) by (simp add: sound_version_def)
qed

lemma distinct_map_conj:
  assumes "distinct (map f (filter P xs))" shows "distinct (map f (filter (\<lambda>x. Q x \<and> P x) xs))"
proof -
  have "filter (\<lambda>x. Q x \<and> P x) xs = filter Q (filter P xs)" by (simp add: conj_commute)
  with distinct_map_filter [OF assms, of Q] show ?thesis by simp
qed

lemma supprimer_ecran_sound:
  assumes "supprimer_ecran k v i = Inr k'" and "ids_ok k" and "sound_version k (cv_id v)"
  shows "sound_version k' (cv_id v)"
proof -
  from supprimer_ecran_draft [OF assms(1,2)] have q: "questions_of k' = questions_of k"
    and n: "\<forall>q \<in> set (kt_questions k). qn_screen q \<noteq> i" and s: "kt_screens k' = filter (\<lambda>r. sn_id r \<noteq> i) (kt_screens k)"
    by (simp_all add: questions_of_def fun_eq_iff)
  have "distinct (map sn_order (screens_of k' (cv_id v)))"
    using assms(3) distinct_map_conj [of sn_order "\<lambda>x. sn_version x = cv_id v" "kt_screens k" "\<lambda>x. sn_id x \<noteq> i"] by (simp add: sound_version_def distinct_screens_of s)
  moreover have "qn_screen q \<in> sn_id ` set (screens_of k' (cv_id v))"
    if q: "q \<in> set (kt_questions k)" and m: "qn_screen q \<in> sn_id ` set (screens_of k (cv_id v))" for q
  proof -
    from m obtain r where "r \<in> set (screens_of k (cv_id v))" "sn_id r = qn_screen q" by auto
    with n q s show ?thesis by (auto simp: image_iff intro!: bexI [of _ r])
  qed
  ultimately show ?thesis using assms(3) q s by (auto simp: sound_version_def simp del: set_map)
qed

lemma supprimer_question_sound:
  assumes "supprimer_question k v i = Inr k'" and "ids_ok k" and "sound_version k (cv_id v)"
  shows "sound_version k' (cv_id v)"
proof -
  from supprimer_question_draft [OF assms(1,2)] have s: "screens_of k' = screens_of k"
    and q: "kt_questions k' = filter (\<lambda>r. qn_id r \<noteq> i) (kt_questions k)"
    by (simp_all add: screens_of_def fun_eq_iff)
  have "distinct (map qn_order (questions_of k' (cv_id v)))"
    using assms(3) distinct_map_conj [of qn_order "\<lambda>x. qn_version x = cv_id v" "kt_questions k" "\<lambda>x. qn_id x \<noteq> i"] by (simp add: sound_version_def distinct_questions_of q)
  with assms(3) show ?thesis by (simp add: sound_version_def s q)
qed

lemma save_rank_sound:
  assumes "save_rank cles_connues v k i rank = Inr k'" and "ids_ok k" and "sound_version k v"
  shows "sound_version k' v"
proof -
  from assms(1) obtain r where f: "find (\<lambda>s. sn_version s = v \<and> sn_id s = i) (kt_screens k) = Some r"
    and free: "\<not> (\<exists>r \<in> set (kt_screens k). sn_version r = v \<and> sn_id r \<noteq> i \<and> sn_order r = rank)"
    and k': "k' = k\<lparr>kt_screens := upd_where (\<lambda>x. sn_id x = i) (\<lambda>x. x\<lparr>sn_order := rank\<rparr>) (kt_screens k)\<rparr>"
    by (auto simp: save_rank_def rbind_Inr_iff split: option.splits if_splits)
  let ?new = "\<lambda>x. if sn_id x = i then x\<lparr>sn_order := rank\<rparr> else x"
  have ids: "sn_id ` set (screens_of k' v) = sn_id ` set (screens_of k v)"
    by (rule same_screen_ids, unfold k', simp, rule map_filter_upd) simp
  have q: "questions_of k' = questions_of k" by (simp add: k' questions_of_def fun_eq_iff)
  have "distinct (map sn_id (filter (\<lambda>x. sn_version x = v) (kt_screens k)))"
    using assms(2) by (simp add: ids_ok_def distinct_map_filter)
  moreover have "distinct (map sn_order (filter (\<lambda>x. sn_version x = v) (kt_screens k)))"
    using assms(3) by (simp add: sound_version_def distinct_screens_of)
  moreover have "\<forall>x \<in> set (filter (\<lambda>x. sn_version x = v) (kt_screens k)). sn_id x \<noteq> i \<longrightarrow> sn_order x \<noteq> rank"
    using free by auto
  ultimately have "distinct (map (sn_order \<circ> ?new) (filter (\<lambda>x. sn_version x = v) (kt_screens k)))"
    by (induction "filter (\<lambda>x. sn_version x = v) (kt_screens k)" arbitrary: k) (auto simp: distinct_map inj_on_def)
  moreover have f: "filter (\<lambda>x. sn_version x = v) (upd_where (\<lambda>x. sn_id x = i) (\<lambda>x. x\<lparr>sn_order := rank\<rparr>) xs) =
      map ?new (filter (\<lambda>x. sn_version x = v) xs)" for xs
    by (induction xs) auto
  have "filter (\<lambda>x. sn_version x = v) (kt_screens k') = map ?new (filter (\<lambda>x. sn_version x = v) (kt_screens k))"
    by (simp add: k' f)
  ultimately have "distinct (map sn_order (screens_of k' v))" unfolding distinct_screens_of by simp
  moreover have "\<forall>s \<in> set (screens_of k' v). check_content cles_connues (sn_content s) = Inr ()"
    using assms(3) by (auto simp: sound_version_def k' set_upd_where)
  ultimately show ?thesis using assms(3) ids q by (simp add: sound_version_def del: screens_of_set questions_of_set)
qed

lemma save_ranks_sound:
  "save_ranks cles_connues v ids rank k = Inr k' \<Longrightarrow> ids_ok k \<Longrightarrow> sound_version k v \<Longrightarrow> sound_version k' v"
proof (induction ids arbitrary: rank k)
  case (Cons i ids)
  from Cons.prems(1) obtain k1 where k1: "save_rank cles_connues v k i rank = Inr k1" "save_ranks cles_connues v ids (rank + 1) k1 = Inr k'"
    by (auto simp: rbind_Inr_iff)
  from save_rank_draft [OF k1(1) Cons.prems(2)] save_rank_sound [OF k1(1) Cons.prems(2,3)] Cons.IH [OF k1(2)] show ?case by simp
qed simp

lemma reordonner_sound:
  assumes "reordonner_ecrans cles_connues k v ids = Inr (ss, k')" and "ids_ok k" and "sound_version k (cv_id v)"
  shows "sound_version k' (cv_id v)"
proof -
  from assms(1) obtain k1 where
    k1: "save_ranks cles_connues (cv_id v) ids (int (length ids) + 1) k = Inr k1" "save_ranks cles_connues (cv_id v) ids 1 k1 = Inr k'"
    by (auto simp: reordonner_ecrans_def version_modifiable_def rbind_Inr_iff split: if_splits)
  from save_ranks_draft [OF k1(1) assms(2)] save_ranks_sound [OF k1(1) assms(2,3)] save_ranks_sound [OF k1(2)]
  show ?thesis by simp
qed

lemma new_choices_exact:
  "map ch_correct (new_choices n r cs) = map snd cs \<and> length (new_choices n r cs) = length cs \<and>
   distinct (map ch_id (new_choices n r cs)) \<and> distinct (map ch_order (new_choices n r cs)) \<and>
   (\<forall>c \<in> set (new_choices n r cs). n \<le> ch_id c \<and> r \<le> ch_order c)"
proof (induction n r cs rule: new_choices.induct)
  case (2 n r t ok cs)
  then show ?case by (auto simp: image_iff)
qed simp

lemma filter_length_map: "length (filter p xs) = length (filter id (map p xs))"
  by (induction xs) auto

lemma new_choices_ok:
  assumes "qn_choices q = new_choices n 1 choix" and "strip (qn_explanation q) \<noteq> []" and "\<exists>c \<in> set choix. snd c"
    and "2 \<le> length choix" and "qn_kind q = Single \<longrightarrow> length (filter snd choix) \<le> 1"
  shows "question_ok q"
proof -
  note e = new_choices_exact [of n 1 choix]
  let ?cs = "new_choices n 1 choix"
  have m: "map ch_correct ?cs = map snd choix" using e by blast
  have l: "length (filter ch_correct ?cs) = length (filter snd choix)"
    unfolding filter_length_map [of ch_correct] filter_length_map [of snd] m ..
  moreover from assms(3) have "filter snd choix \<noteq> []" by (auto simp: filter_empty_conv)
  ultimately have "filter ch_correct ?cs \<noteq> []" by (metis length_0_conv)
  then have "correct_choice_ids q \<noteq> {}" by (simp add: correct_choice_ids_def assms(1) del: set_filter)
  moreover have "2 \<le> length (qn_choices q)" "distinct (map ch_id (qn_choices q))" "distinct (map ch_order (qn_choices q))"
    using e assms(1,4) by auto
  ultimately show ?thesis using assms(1,2,5) l by (simp add: question_ok_def)
qed

lemma ecrire_question_sound:
  assumes "ecrire_question k v i txt kind e s choix = Inr (q, k')" and "ids_ok k" and "sound_version k (cv_id v)"
  shows "sound_version k' (cv_id v)"
  using assms(1)
proof (cases rule: ecrire_question_cases)
  case (1 sc)
  then obtain n where "qn_choices q = new_choices n 1 choix" by blast
  with 1 have ok: "question_ok q" by (intro new_choices_ok [of q n choix]) simp_all
  have sc: "qn_screen q \<in> sn_id ` set (screens_of k (cv_id v))" using 1(6-8,10) by force
  from ecrire_question_draft [OF assms(1,2)] 1 assms(2) have S: "kt_screens k' = kt_screens k"
    by (auto simp: ids_ok_def)
  then have S: "screens_of k' = screens_of k" by (simp add: screens_of_def fun_eq_iff)
  from 1(14) show ?thesis
  proof (elim disjE bexE conjE)
    assume k': "k' = k\<lparr>kt_seq := kt_seq k + 1 + int (length choix), kt_questions := q # kt_questions k\<rparr>"
      and o: "qn_order q = next_order (map qn_order (questions_of k (cv_id v)))"
    have "qn_order q \<notin> qn_order ` set (questions_of k (cv_id v))"
      using next_order_fresh [of "map qn_order (questions_of k (cv_id v))"] o by simp
    with assms(3) 1(9) have "distinct (map qn_order (questions_of k' (cv_id v)))"
      by (auto simp: sound_version_def distinct_questions_of k')
    moreover have "\<forall>x \<in> set (questions_of k' (cv_id v)). x = q \<or> x \<in> set (questions_of k (cv_id v))" by (simp add: k')
    ultimately show ?thesis using assms(3) ok sc by (auto simp: sound_version_def S simp del: screens_of_set questions_of_set)
  next
    fix r
    assume r: "r \<in> set (kt_questions k)" "qn_version r = cv_id v" "qn_id q = qn_id r" "qn_order q = qn_order r"
      and k': "k' = k\<lparr>kt_seq := kt_seq k + int (length choix), kt_questions := upd_where (\<lambda>x. qn_id x = qn_id r) (\<lambda>x. q) (kt_questions k)\<rparr>"
    have u: "x = r" if "x \<in> set (kt_questions k)" "qn_id x = qn_id r" for x
      using distinct_map_eq [of qn_id "kt_questions k" x r] that assms(2) r(1) by (simp add: ids_ok_def)
    have "map qn_order (filter (\<lambda>x. qn_version x = cv_id v) (upd_where (\<lambda>x. qn_id x = qn_id r) (\<lambda>x. q) (kt_questions k))) =
        map qn_order (filter (\<lambda>x. qn_version x = cv_id v) (kt_questions k))"
      by (rule map_filter_upd) (metis u r(2,4) 1(9))
    with assms(3) have "distinct (map qn_order (questions_of k' (cv_id v)))"
      by (simp add: sound_version_def distinct_questions_of k')
    moreover have "question_ok x \<and> qn_screen x \<in> sn_id ` set (screens_of k (cv_id v))"
      if "x \<in> set (kt_questions k')" "qn_version x = cv_id v" for x
    proof (cases "x = q")
      case False
      with that k' have "x \<in> set (kt_questions k)" by (auto simp: set_upd_where split: if_splits)
      with that assms(3) show ?thesis by (simp add: sound_version_def del: screens_of_set)
    qed (use ok sc in simp)
    ultimately show ?thesis using assms(3) by (simp add: sound_version_def S del: screens_of_set)
  qed
qed

section \<open>The copy of a version\<close>

lemma sort_key_unique:
  fixes f :: "'r \<Rightarrow> int"
  assumes "distinct (map f xs)" and "mset xs = mset ys" and "sorted (map f ys)"
  shows "sort_key f xs = ys"
  using assms by (intro sort_key_inj_key_eq) (auto simp: distinct_map)

text \<open>A version as a learner meets it, the identifiers left out: its screens, and its questions with their choices and the rank of their screen.\<close>

definition reading ::
  "catalogue \<Rightarrow> int \<Rightarrow> (int \<times> string \<times> json \<times> int) list \<times>
   ((int \<times> string \<times> question_kind \<times> string) \<times> (int \<times> string \<times> bool) list \<times> int list) list" where
  "reading k v =
     (map (\<lambda>s. (sn_order s, sn_title s, sn_content s, sn_seconds s)) (screens_of k v),
      map (\<lambda>q. ((qn_order q, qn_text q, qn_kind q, qn_explanation q),
                map (\<lambda>c. (ch_order c, ch_text c, ch_correct c)) (choices_of q),
                map sn_order (filter (\<lambda>s. sn_id s = qn_screen q) (screens_of k v)))) (questions_of k v))"

lemma list_all2_map: "list_all2 (\<lambda>x y. f y = g x) xs ys \<Longrightarrow> map f ys = map g xs"
  by (induction rule: list_all2_induct) auto

lemma list_all2_source: "list_all2 R xs ys \<Longrightarrow> y \<in> set ys \<Longrightarrow> \<exists>x \<in> set xs. R x y"
  by (induction rule: list_all2_induct) auto

lemma copy_choices_exact:
  "map (\<lambda>c. (ch_order c, ch_text c, ch_correct c)) (copy_choices n cs) = map (\<lambda>c. (ch_order c, ch_text c, ch_correct c)) cs \<and>
   length (copy_choices n cs) = length cs \<and> map ch_order (copy_choices n cs) = map ch_order cs \<and>
   map ch_correct (copy_choices n cs) = map ch_correct cs \<and>
   distinct (map ch_id (copy_choices n cs)) \<and> (\<forall>c \<in> set (copy_choices n cs). n \<le> ch_id c)"
  by (induction n cs rule: copy_choices.induct) force+

lemma question_copy_ok:
  assumes "question_copy target m q q'" and "question_ok q"
  shows "question_ok q'" and "map (\<lambda>c. (ch_order c, ch_text c, ch_correct c)) (choices_of q') =
    map (\<lambda>c. (ch_order c, ch_text c, ch_correct c)) (choices_of q)"
proof -
  from assms(1) obtain n where q': "qn_choices q' = copy_choices n (choices_of q)" by (auto simp: question_copy_def)
  note e = copy_choices_exact [of n "choices_of q"]
  have perm: "mset (choices_of q) = mset (qn_choices q)" by (simp add: choices_of_def)
  have o: "distinct (map ch_order (choices_of q))" "sorted (map ch_order (choices_of q))"
    using assms(2) by (simp_all add: choices_of_def distinct_sort_key question_ok_def)
  have m: "map ch_correct (qn_choices q') = map ch_correct (choices_of q)" using e q' by simp
  have l: "length (filter ch_correct (qn_choices q')) = length (filter ch_correct (qn_choices q))"
  proof -
    have "length (filter ch_correct (qn_choices q')) = length (filter ch_correct (choices_of q))"
      unfolding filter_length_map [of ch_correct] m ..
    also have "\<dots> = size (filter_mset ch_correct (mset (choices_of q)))" by (simp flip: mset_filter)
    also have "\<dots> = length (filter ch_correct (qn_choices q))" by (simp add: perm flip: mset_filter)
    finally show ?thesis .
  qed
  have "filter ch_correct (qn_choices q) \<noteq> []" using assms(2) by (simp add: question_ok_def correct_choice_ids_def del: set_filter)
  with l have "filter ch_correct (qn_choices q') \<noteq> []" by (metis length_0_conv)
  then have "correct_choice_ids q' \<noteq> {}" by (simp add: correct_choice_ids_def del: set_filter)
  moreover have "length (qn_choices q') = length (qn_choices q)" using e q' perm by (simp add: choices_of_def)
  ultimately show "question_ok q'" using assms e q' l o by (simp add: question_ok_def question_copy_def)
  have "choices_of q' = qn_choices q'"
    unfolding choices_of_def [of q'] by (rule sort_key_unique) (use e q' o in simp_all)
  with e q' show "map (\<lambda>c. (ch_order c, ch_text c, ch_correct c)) (choices_of q') =
    map (\<lambda>c. (ch_order c, ch_text c, ch_correct c)) (choices_of q)" by simp
qed

lemma screen_copyD:
  "screen_copy t s s' \<Longrightarrow> sn_version s' = t \<and> sn_order s' = sn_order s \<and> sn_title s' = sn_title s \<and>
     sn_content s' = sn_content s \<and> sn_seconds s' = sn_seconds s"
  unfolding screen_copy_def by (metis screen.select_convs screen.surjective screen.update_convs(1,2))

lemma filter_one:
  "distinct (map f xs) \<Longrightarrow> j < length xs \<Longrightarrow> filter (\<lambda>x. f x = f (xs ! j)) xs = [xs ! j]"
proof (induction xs arbitrary: j)
  case (Cons x xs)
  show ?case
  proof (cases j)
    case 0
    from Cons.prems(1) have "\<forall>y \<in> set xs. f y \<noteq> f x" by (simp add: image_iff) metis
    with 0 show ?thesis by (simp add: filter_empty_conv)
  next
    case (Suc i)
    with Cons.prems have "f (xs ! i) \<in> f ` set xs" by simp
    with Cons.prems have "f x \<noteq> f (xs ! i)" by auto
    with Suc Cons show ?thesis by simp
  qed
qed simp

lemma map_of_rev_zip:
  assumes "distinct as" and "length as = length bs" and "j < length as"
  shows "map_of (rev (zip as bs)) (as ! j) = Some (bs ! j)"
proof (rule map_of_is_SomeI)
  show "distinct (map fst (rev (zip as bs)))" using assms by (simp add: rev_map [symmetric])
  show "(as ! j, bs ! j) \<in> set (rev (zip as bs))" using assms by (auto simp: set_zip)
qed

lemma recopier_reading:
  assumes "recopier_contenu cles_connues k source target = Inr k'" and "ids_ok k" and "sound_version k source"
    and "\<forall>s \<in> set (kt_screens k). sn_version s \<noteq> target" and "\<forall>q \<in> set (kt_questions k). qn_version q \<noteq> target"
  shows "sound_version k' target \<and> reading k' target = reading k source"
  using assms(1)
proof (rule recopier_exact)
  fix ss :: "screen list" and qs :: "question list"
  let ?S = "screens_of k source"
  let ?m = "rev (zip (map sn_id ?S) (map sn_id ss))"
  assume ss: "list_all2 (screen_copy target) ?S ss" "fresh_ids sn_id k k' ss"
    and qs: "list_all2 (question_copy target ?m) (questions_of k source) qs"
    and k': "k' = k\<lparr>kt_seq := kt_seq k', kt_screens := rev ss @ kt_screens k, kt_questions := rev qs @ kt_questions k\<rparr>"
  have f: "kt_screens k' = rev ss @ kt_screens k" "kt_questions k' = rev qs @ kt_questions k" by (subst k', simp)+
  have so: "map (\<lambda>s. (sn_order s, sn_title s, sn_content s, sn_seconds s)) ss = map (\<lambda>s. (sn_order s, sn_title s, sn_content s, sn_seconds s)) ?S"
    using ss(1) by (intro list_all2_map) (auto elim!: list_all2_mono dest!: screen_copyD)
  have so': "map sn_order ss = map sn_order ?S" using arg_cong [OF so, of "map fst"] by (simp add: comp_def)
  have qo: "map qn_order qs = map qn_order (questions_of k source)"
    using qs by (intro list_all2_map) (auto elim!: list_all2_mono simp: question_copy_def)
  have vs: "\<forall>s \<in> set ss. sn_version s = target" and vq: "\<forall>q \<in> set qs. qn_version q = target"
    using ss(1) qs by (auto simp: list_all2_conv_all_nth in_set_conv_nth question_copy_def dest!: screen_copyD)
  have S: "screens_of k' target = ss"
    unfolding screens_of_def [of k'] f using vs assms(3,4) so'
    by (intro sort_key_unique) (simp_all add: filter_empty_conv sound_version_def rev_map [symmetric], simp add: screens_of_def)
  have Q: "questions_of k' target = qs"
    unfolding questions_of_def [of k'] f using vq assms(3,5) qo
    by (intro sort_key_unique) (simp_all add: filter_empty_conv sound_version_def rev_map [symmetric], simp add: questions_of_def)
  have ids: "distinct (map sn_id ?S)" "distinct (map sn_id ss)"
    using assms(2) ss(2) by (simp_all add: distinct_screens_of ids_ok_def distinct_map_filter fresh_ids_def)
  have len: "length ss = length ?S" using ss(1) by (simp add: list_all2_lengthD)
  have one: "question_ok q' \<and> qn_screen q' \<in> sn_id ` set ss \<and>
      ((qn_order q', qn_text q', qn_kind q', qn_explanation q'), map (\<lambda>c. (ch_order c, ch_text c, ch_correct c)) (choices_of q'),
         map sn_order (filter (\<lambda>s. sn_id s = qn_screen q') ss)) =
      ((qn_order q, qn_text q, qn_kind q, qn_explanation q), map (\<lambda>c. (ch_order c, ch_text c, ch_correct c)) (choices_of q),
         map sn_order (filter (\<lambda>s. sn_id s = qn_screen q) ?S))"
    if c: "question_copy target ?m q q'" and q: "q \<in> set (questions_of k source)" for q q'
  proof -
    from q assms(3) have ok: "question_ok q" and "qn_screen q \<in> sn_id ` set ?S"
      by (auto simp: sound_version_def simp del: screens_of_set questions_of_set)
    then obtain j where j: "j < length ?S" "qn_screen q = sn_id (?S ! j)" by (auto simp: in_set_conv_nth simp del: screens_of_set)
    with map_of_rev_zip [of "map sn_id ?S" "map sn_id ss" j] ids(1) len c
    have q': "qn_screen q' = sn_id (ss ! j)" by (simp add: question_copy_def)
    have "sn_order (ss ! j) = sn_order (?S ! j)" using so' j len by (metis nth_map)
    from j len have m: "sn_id (ss ! j) \<in> sn_id ` set ss" by simp
    from c have fields: "qn_order q' = qn_order q" "qn_text q' = qn_text q" "qn_kind q' = qn_kind q" "qn_explanation q' = qn_explanation q"
      by (simp_all add: question_copy_def)
    from filter_one [OF ids(1) j(1)] filter_one [OF ids(2), of j] j len have
      "filter (\<lambda>s. sn_id s = qn_screen q) ?S = [?S ! j]" "filter (\<lambda>s. sn_id s = qn_screen q') ss = [ss ! j]"
      by (simp_all add: q')
    with \<open>sn_order (ss ! j) = sn_order (?S ! j)\<close> m question_copy_ok [OF c ok] show ?thesis
      by (simp only: fields list.map q')
  qed
  have all: "\<forall>q' \<in> set qs. question_ok q' \<and> qn_screen q' \<in> sn_id ` set ss"
    using list_all2_source [OF qs] one by blast
  have "\<forall>s \<in> set ss. check_content cles_connues (sn_content s) = Inr ()"
  proof
    fix s assume "s \<in> set ss"
    with list_all2_source [OF ss(1)] obtain x where "x \<in> set ?S" "screen_copy target x s" by blast
    with assms(3) show "check_content cles_connues (sn_content s) = Inr ()"
      by (auto simp: sound_version_def dest!: screen_copyD simp del: screens_of_set)
  qed
  with all so' qo assms(3) have "sound_version k' target"
    by (simp add: sound_version_def S Q del: screens_of_set questions_of_set)
  moreover have "reading k' target = reading k source"
    unfolding reading_def S Q
  proof (rule arg_cong2 [where f = Pair])
    show "map (\<lambda>s. (sn_order s, sn_title s, sn_content s, sn_seconds s)) ss = map (\<lambda>s. (sn_order s, sn_title s, sn_content s, sn_seconds s)) ?S"
      by (rule so)
    have "list_all2 (\<lambda>q q'. q \<in> set (questions_of k source) \<and> question_copy target ?m q q') (questions_of k source) qs"
      using qs by (auto simp: list_all2_conv_all_nth simp del: questions_of_set)
    then show "map (\<lambda>q. ((qn_order q, qn_text q, qn_kind q, qn_explanation q), map (\<lambda>c. (ch_order c, ch_text c, ch_correct c)) (choices_of q),
         map sn_order (filter (\<lambda>s. sn_id s = qn_screen q) ss))) qs =
      map (\<lambda>q. ((qn_order q, qn_text q, qn_kind q, qn_explanation q), map (\<lambda>c. (ch_order c, ch_text c, ch_correct c)) (choices_of q),
         map sn_order (filter (\<lambda>s. sn_id s = qn_screen q) ?S))) (questions_of k source)"
      by (intro list_all2_map) (auto elim!: list_all2_mono dest!: one simp del: questions_of_set)
  qed
  ultimately show "sound_version k' target \<and> reading k' target = reading k source" by simp
qed

section \<open>What a request does\<close>

text \<open>
  Whatever is asked, one of three things happens: a draft of a course of the author is written, a draft of a
  course of the author is published, or a version is added, to a course of the author or to a new one.
\<close>

definition owned :: "catalogue \<Rightarrow> int option \<Rightarrow> int \<Rightarrow> bool" where
  "owned k own c \<longleftrightarrow> (\<exists>x \<in> set (kt_courses k). co_id x = c \<and> co_owner x = own)"

inductive studio_step :: "time \<Rightarrow> int option \<Rightarrow> catalogue \<Rightarrow> catalogue \<Rightarrow> bool" for now own where
  written: "v \<in> set (kt_versions k) \<Longrightarrow> cv_published_at v = None \<Longrightarrow> owned k own (cv_course v) \<Longrightarrow>
    same_except (cv_id v) k k' \<Longrightarrow> ids_ok k' \<Longrightarrow> (sound_version k (cv_id v) \<Longrightarrow> sound_version k' (cv_id v)) \<Longrightarrow>
    studio_step now own k k'"
| published: "v \<in> set (kt_versions k) \<Longrightarrow> cv_published_at v = None \<Longrightarrow> owned k own (cv_course v) \<Longrightarrow>
    fst (controles_avant_publication k v) = [] \<Longrightarrow>
    k' = k\<lparr>kt_versions := upd_where (\<lambda>r. cv_id r = cv_id v) (\<lambda>r. r\<lparr>cv_published_at := Some now\<rparr>) (kt_versions k)\<rparr> \<Longrightarrow>
    studio_step now own k k'"
| added: "kt_courses k1 = cs @ kt_courses k \<Longrightarrow> kt_versions k1 = v # kt_versions k \<Longrightarrow> kt_screens k1 = kt_screens k \<Longrightarrow>
    kt_questions k1 = kt_questions k \<Longrightarrow> kt_seq k < cv_id v \<Longrightarrow> cv_published_at v = None \<Longrightarrow> ids_ok k1 \<Longrightarrow>
    (\<exists>c. cs = [c] \<and> co_id c = cv_course v \<and> kt_seq k < co_id c \<and> co_owner c = own) \<or>
    (cs = [] \<and> owned k own (cv_course v) \<and> draft_version k (cv_course v) = None) \<Longrightarrow>
    same_except (cv_id v) k1 k' \<Longrightarrow> ids_ok k' \<Longrightarrow>
    (\<And>w. w \<in> set (kt_versions k) \<Longrightarrow> cv_course w = cv_course v \<Longrightarrow> cv_number w < cv_number v) \<Longrightarrow>
    ((\<And>w. w \<in> set (kt_versions k) \<Longrightarrow> sound_version k (cv_id w)) \<Longrightarrow> sound_version k' (cv_id v)) \<Longrightarrow>
    studio_step now own k k'"

inductive_cases studio_stepE: "studio_step now own k k'"

lemmas studio_step_cases = studio_stepE [consumes 1, case_names written published added]

lemma ids_ok_new_version:
  assumes "ids_ok k" and "cv_id v = kt_seq k + 1" and "cv_course v \<le> kt_seq k"
  shows "ids_ok (k\<lparr>kt_seq := kt_seq k + 1, kt_versions := v # kt_versions k\<rparr>)"
proof -
  from ids_ok_seq [OF assms(1), of "kt_seq k + 1"] have k: "ids_ok (k\<lparr>kt_seq := kt_seq k + 1\<rparr>)" by simp
  have "distinct (map cv_id (v # kt_versions k))"
    by (rule fresh_key [where n = "kt_seq k"]) (use assms in \<open>auto simp: ids_ok_def\<close>)
  with k assms(2,3) show ?thesis by (simp add: ids_ok_def)
qed

lemma ids_ok_new_course:
  assumes "ids_ok k" and "co_id c = kt_seq k + 1"
  shows "ids_ok (k\<lparr>kt_seq := kt_seq k + 1, kt_courses := c # kt_courses k\<rparr>)"
proof -
  from ids_ok_seq [OF assms(1), of "kt_seq k + 1"] have k: "ids_ok (k\<lparr>kt_seq := kt_seq k + 1\<rparr>)" by simp
  have "distinct (map co_id (c # kt_courses k))"
    by (rule fresh_key [where n = "kt_seq k"]) (use assms in \<open>auto simp: ids_ok_def\<close>)
  with k assms(2) show ?thesis by (simp add: ids_ok_def)
qed

lemma ids_ok_course_and_version:
  assumes "ids_ok k" and "co_id c = kt_seq k + 1" and "cv_id v = kt_seq k + 2" and "cv_course v = kt_seq k + 1"
  shows "ids_ok (k\<lparr>kt_seq := kt_seq k + 2, kt_courses := c # kt_courses k, kt_versions := v # kt_versions k\<rparr>)"
  using ids_ok_new_version [OF ids_ok_new_course [OF assms(1,2)], of v] assms(3,4) by (simp add: ids_ok_def add.commute)

lemma latest_SomeD: "latest_version vs = Some v \<Longrightarrow> v \<in> set vs \<and> (\<forall>w \<in> set vs. cv_number w \<le> cv_number v)"
proof -
  assume "latest_version vs = Some v"
  then obtain ws where s: "sort_key (\<lambda>v. - cv_number v) vs = v # ws" by (auto simp: latest_version_def split: list.splits)
  have "sorted (map (\<lambda>v. - cv_number v) (v # ws))" by (simp flip: s)
  moreover have "set vs = set (v # ws)" by (simp flip: s)
  ultimately show ?thesis by auto
qed

lemma latest_None_iff: "latest_version vs = None \<longleftrightarrow> vs = []"
  by (auto simp: latest_version_def split: list.splits) (metis list.simps(3) sort_key_simps(1) length_sort length_0_conv)

lemma sound_empty:
  "\<forall>s \<in> set (kt_screens k). sn_version s \<noteq> v \<Longrightarrow> \<forall>q \<in> set (kt_questions k). qn_version q \<noteq> v \<Longrightarrow> sound_version k v"
  by (auto simp: sound_version_def distinct_screens_of distinct_questions_of)

lemma content_frame:
  "kt_screens k1 = kt_screens k \<Longrightarrow> kt_questions k1 = kt_questions k \<Longrightarrow> content k1 v = content k v"
  by (simp add: content_def screens_of_def questions_of_def)

lemma reading_content: "content k1 v = content k v \<Longrightarrow> reading k1 v = reading k v"
  by (simp add: content_def reading_def)

text \<open>A version added with the content of another one.\<close>

lemma copied:
  assumes r: "recopier_contenu cles_connues k1 source (cv_id v) = Inr k'"
    and f: "kt_screens k1 = kt_screens k" "kt_questions k1 = kt_questions k" and i: "ids_ok k1" "ids_ok k"
    and v: "kt_seq k < cv_id v" "cv_id v \<le> kt_seq k1"
  shows "same_except (cv_id v) k1 k'" and "ids_ok k'"
    and "sound_version k source \<Longrightarrow> sound_version k' (cv_id v) \<and> reading k' (cv_id v) = reading k source"
proof -
  from recopier_draft [OF r i(1) v(2)] show "same_except (cv_id v) k1 k'" "ids_ok k'" by simp_all
  assume "sound_version k source"
  then have "sound_version k1 source" by (rule sound_version_content [OF content_frame [OF f]])
  moreover have "\<forall>s \<in> set (kt_screens k1). sn_version s \<noteq> cv_id v" "\<forall>q \<in> set (kt_questions k1). qn_version q \<noteq> cv_id v"
    using i(2) v(1) unfolding f ids_ok_def by force+
  ultimately show "sound_version k' (cv_id v) \<and> reading k' (cv_id v) = reading k source"
    using recopier_reading [OF r i(1)] reading_content [OF content_frame [OF f]] by simp
qed

lemma nouvelle_version_cases:
  assumes "nouvelle_version cles_connues k c note = Inr (v, k')" and "ids_ok k" and "c \<le> kt_seq k"
  obtains source where "draft_version k c = None" "published_version k c = Some source" "source \<in> set (kt_versions k)"
    "cv_course source = c" "cv_id v = kt_seq k + 1" "cv_course v = c" "cv_published_at v = None" "cv_number v = cv_number source + 1"
    "ids_ok (k\<lparr>kt_seq := kt_seq k + 1, kt_versions := v # kt_versions k\<rparr>)"
    "recopier_contenu cles_connues (k\<lparr>kt_seq := kt_seq k + 1, kt_versions := v # kt_versions k\<rparr>) (cv_id source) (cv_id v) = Inr k'"
proof -
  let ?k = "k\<lparr>kt_seq := kt_seq k + 1, kt_versions := v # kt_versions k\<rparr>"
  from assms(1) obtain source where d: "draft_version k c = None" "published_version k c = Some source"
    and v: "v = new_version (kt_seq k + 1) c (cv_number source + 1) (cv_pass_threshold source) (cv_max_attempts source) note"
    and r: "recopier_contenu cles_connues ?k (cv_id source) (cv_id v) = Inr k'"
    by (auto simp: nouvelle_version_def Let_def rbind_Inr_iff split: option.splits if_splits)
  have vf: "cv_id v = kt_seq k + 1" "cv_course v = c" "cv_published_at v = None" "cv_number v = cv_number source + 1"
    by (simp_all add: v new_version_def)
  from assms(2,3) vf have "ids_ok ?k" by (intro ids_ok_new_version) simp_all
  with d latest_SomeD [OF d(2) [unfolded published_version_def]] vf r show thesis by (intro that [of source]) simp_all
qed

lemma no_draft_below:
  assumes "draft_version k c = None" and "published_version k c = Some source" and "w \<in> set (kt_versions k)" and "cv_course w = c"
  shows "cv_number w \<le> cv_number source"
proof -
  from assms(1,3,4) have "cv_published_at w \<noteq> None" by (auto simp: draft_version_def latest_None_iff filter_empty_conv)
  with latest_SomeD [OF assms(2) [unfolded published_version_def]] assms(3,4) show ?thesis by auto
qed

lemma nouvelle_version_step:
  assumes "nouvelle_version cles_connues k c note = Inr (v, k')" and "ids_ok k" and "owned k own c"
  shows "studio_step now own k k'"
proof -
  from assms(2,3) have "c \<le> kt_seq k" by (auto simp: owned_def ids_ok_def)
  from assms(1,2) this show ?thesis
  proof (rule nouvelle_version_cases)
    fix source
    let ?k = "k\<lparr>kt_seq := kt_seq k + 1, kt_versions := v # kt_versions k\<rparr>"
    assume d: "draft_version k c = None" "published_version k c = Some source" "source \<in> set (kt_versions k)" "cv_course source = c"
      and v: "cv_id v = kt_seq k + 1" "cv_course v = c" "cv_published_at v = None" "cv_number v = cv_number source + 1"
      and i: "ids_ok ?k" and r: "recopier_contenu cles_connues ?k (cv_id source) (cv_id v) = Inr k'"
    from copied [OF r, of k] i assms(2) v(1) have c: "same_except (cv_id v) ?k k'" "ids_ok k'"
      "sound_version k (cv_id source) \<Longrightarrow> sound_version k' (cv_id v)" by simp_all
    from no_draft_below [OF d(1,2)] c i d v assms(3) show "studio_step now own k k'"
      by (intro studio_step.added [of ?k "[]" k v]) (simp_all, force?)
  qed
qed

lemma creer_cours_step:
  assumes "creer_cours slugify k t r own actor = (c, k')" and "ids_ok k"
  shows "studio_step now own k k'"
proof -
  from assms(1) have c: "co_id c = kt_seq k + 1" "co_owner c = own" by (auto simp: creer_cours_def Let_def)
  let ?v = "new_version (kt_seq k + 2) (kt_seq k + 1) 1 SEUIL_REUSSITE_DEFAUT ESSAIS_DEFAUT (''Premi'' @ [CHR 0xE8] @ ''re version.'')"
  from assms(1) have k': "k' = k\<lparr>kt_seq := kt_seq k + 2, kt_courses := c # kt_courses k, kt_versions := ?v # kt_versions k\<rparr>"
    by (auto simp: creer_cours_def Let_def add.commute)
  have i: "ids_ok k'" unfolding k' by (rule ids_ok_course_and_version [OF assms(2)]) (simp_all add: c new_version_def)
  have "cv_course w \<noteq> kt_seq k + 1" if "w \<in> set (kt_versions k)" for w using assms(2) that by (force simp: ids_ok_def)
  moreover have "sound_version k' (kt_seq k + 2)"
    by (rule sound_empty; use assms(2) in \<open>force simp: k' ids_ok_def\<close>)
  ultimately show ?thesis using c k' i by (intro studio_step.added [of k' "[c]" k ?v]) (simp_all add: new_version_def)
qed

lemma dupliquer_cases:
  assumes "dupliquer slugify cles_connues k src own actor t = Inr (c, k')" and "ids_ok k"
  obtains source v where "source \<in> set (kt_versions k)" "co_id c = kt_seq k + 1" "co_owner c = own"
    "(case published_version k (co_id src) of Some v \<Rightarrow> Some v | None \<Rightarrow> draft_version k (co_id src)) = Some source"
    "cv_id v = kt_seq k + 2" "cv_course v = kt_seq k + 1" "cv_published_at v = None"
    "ids_ok (k\<lparr>kt_seq := kt_seq k + 2, kt_courses := c # kt_courses k, kt_versions := v # kt_versions k\<rparr>)"
    "recopier_contenu cles_connues (k\<lparr>kt_seq := kt_seq k + 2, kt_courses := c # kt_courses k, kt_versions := v # kt_versions k\<rparr>)
       (cv_id source) (cv_id v) = Inr k'"
proof -
  obtain source where s: "(case published_version k (co_id src) of Some v \<Rightarrow> Some v | None \<Rightarrow> draft_version k (co_id src)) = Some source"
    using assms(1) by (cases "case published_version k (co_id src) of Some v \<Rightarrow> Some v | None \<Rightarrow> draft_version k (co_id src)")
      (simp_all add: dupliquer_def)
  then have "source \<in> set (kt_versions k)"
    by (auto simp: published_version_def draft_version_def dest!: latest_SomeD split: option.splits)
  moreover from assms(1) obtain v where c: "co_id c = kt_seq k + 1" "co_owner c = own"
    and v: "cv_id v = kt_seq k + 2" "cv_course v = kt_seq k + 1" "cv_published_at v = None"
    and r: "recopier_contenu cles_connues (k\<lparr>kt_seq := kt_seq k + 2, kt_courses := c # kt_courses k, kt_versions := v # kt_versions k\<rparr>)
              (cv_id source) (cv_id v) = Inr k'"
    by (auto simp: dupliquer_def s Let_def rbind_Inr_iff new_version_def add.commute
          intro!: that [of "new_version (kt_seq k + 2) (kt_seq k + 1) 1 (cv_pass_threshold source) (cv_max_attempts source)
            (derivation_note src source)"])
  moreover have "ids_ok (k\<lparr>kt_seq := kt_seq k + 2, kt_courses := c # kt_courses k, kt_versions := v # kt_versions k\<rparr>)"
    by (rule ids_ok_course_and_version [OF assms(2)]) (simp_all add: c v)
  ultimately show thesis using s by (intro that [of source v]) simp_all
qed

lemma dupliquer_step:
  assumes "dupliquer slugify cles_connues k src own actor t = Inr (c, k')" and "ids_ok k"
  shows "studio_step now own k k'"
  using assms
proof (rule dupliquer_cases)
  fix source v
  let ?k = "k\<lparr>kt_seq := kt_seq k + 2, kt_courses := c # kt_courses k, kt_versions := v # kt_versions k\<rparr>"
  assume s: "source \<in> set (kt_versions k)" and c: "co_id c = kt_seq k + 1" "co_owner c = own"
    and v: "cv_id v = kt_seq k + 2" "cv_course v = kt_seq k + 1" "cv_published_at v = None"
    and i: "ids_ok ?k" and r: "recopier_contenu cles_connues ?k (cv_id source) (cv_id v) = Inr k'"
  from copied [OF r, of k] i assms(2) v(1) have k': "same_except (cv_id v) ?k k'" "ids_ok k'"
    "sound_version k (cv_id source) \<Longrightarrow> sound_version k' (cv_id v)" by simp_all
  have "cv_course w \<noteq> kt_seq k + 1" if "w \<in> set (kt_versions k)" for w using assms(2) that by (force simp: ids_ok_def)
  with s k' v c i show "studio_step now own k k'" by (intro studio_step.added [of ?k "[c]" k v]) simp_all
qed

lemma publier_step:
  assumes "publier now k v = Inr (v', k')" and "v \<in> set (kt_versions k)" and "owned k own (cv_course v)"
  shows "studio_step now own k k'"
  using assms by (intro studio_step.published [of v]) (auto simp: publier_def Let_def split: if_splits)

lemma cours_modifiable_owned: "cours_modifiable k a i = Inr c \<Longrightarrow> co_id c = i \<and> owned k (client_of a) i"
  by (auto simp: cours_modifiable_def client_of_def owned_def split: option.splits author.splits if_splits dest!: find_SomeD)

lemma version_of_author_owned:
  "version_of_author k a i = Inr v \<Longrightarrow> v \<in> set (kt_versions k) \<and> cv_id v = i \<and> owned k (client_of a) (cv_course v)"
  by (auto simp: version_of_author_def rbind_Inr_iff dest!: find_SomeD cours_modifiable_owned split: option.splits)

lemma refused_Inr [simp]: "refused r = Inr x \<longleftrightarrow> r = Inr x"
  by (cases r) auto

lemma perform_step:
  assumes "perform slugify now a actor k rq = Inr k'" and "ids_ok k"
  shows "studio_step now (client_of a) k k'"
proof -
  have le: "v \<in> set (kt_versions k) \<Longrightarrow> cv_id v \<le> kt_seq k" for v using assms(2) by (auto simp: ids_ok_def)
  show ?thesis
  proof (cases rq)
    case (Create t r)
    with assms show ?thesis
      by (cases "creer_cours slugify k t r (client_of a) actor") (auto simp: perform_def perform_course_def intro: creer_cours_step)
  next
    case (Open_version c nt)
    with assms show ?thesis
      by (auto simp: perform_def perform_course_def rbind_Inr_iff dest!: cours_modifiable_owned intro: nouvelle_version_step)
  next
    case (Duplicate c t)
    with assms show ?thesis by (auto simp: perform_def perform_course_def rbind_Inr_iff intro: dupliquer_step)
  next
    case (Publish v)
    with assms show ?thesis
      by (auto simp: perform_def perform_course_def rbind_Inr_iff dest!: version_of_author_owned intro: publier_step)
  next
    case (Write_screen v i t c n)
    with assms(1) obtain x s where x: "version_of_author k a v = Inr x" "ecrire_ecran cles_connues k x i t c n = Inr (s, k')"
      by (auto simp: perform_def perform_course_def rbind_Inr_iff)
    from version_of_author_owned [OF x(1)] ecrire_ecran_draft [OF x(2) assms(2)] ecrire_ecran_sound [OF x(2) assms(2)] le
    show ?thesis by (intro studio_step.written [of x]) auto
  next
    case (Delete_screen v i)
    with assms(1) obtain x where x: "version_of_author k a v = Inr x" "supprimer_ecran k x i = Inr k'"
      by (auto simp: perform_def perform_course_def rbind_Inr_iff)
    from version_of_author_owned [OF x(1)] supprimer_ecran_draft [OF x(2) assms(2)] supprimer_ecran_sound [OF x(2) assms(2)]
    show ?thesis by (intro studio_step.written [of x]) auto
  next
    case (Order_screens v ids)
    with assms(1) obtain x ss where x: "version_of_author k a v = Inr x" "reordonner_ecrans cles_connues k x ids = Inr (ss, k')"
      by (auto simp: perform_def perform_course_def rbind_Inr_iff)
    from version_of_author_owned [OF x(1)] reordonner_draft [OF x(2) assms(2)] reordonner_sound [OF x(2) assms(2)]
    show ?thesis by (intro studio_step.written [of x]) auto
  next
    case (Write_question v i t kd e s ch)
    with assms(1) obtain x q where x: "version_of_author k a v = Inr x" "ecrire_question k x i t kd e s ch = Inr (q, k')"
      by (auto simp: perform_def perform_course_def rbind_Inr_iff)
    from version_of_author_owned [OF x(1)] ecrire_question_draft [OF x(2) assms(2)] ecrire_question_sound [OF x(2) assms(2)] le
    show ?thesis by (intro studio_step.written [of x]) auto
  next
    case (Delete_question v i)
    with assms(1) obtain x where x: "version_of_author k a v = Inr x" "supprimer_question k x i = Inr k'"
      by (auto simp: perform_def perform_course_def rbind_Inr_iff)
    from version_of_author_owned [OF x(1)] supprimer_question_draft [OF x(2) assms(2)] supprimer_question_sound [OF x(2) assms(2)]
    show ?thesis by (intro studio_step.written [of x]) auto
  qed
qed

lemma studio_call_step:
  assumes "studio_call slugify now d a actor k rq = Inr k'" and "ids_ok k"
  shows "studio_step now (client_of a) k k'"
  using assms perform_step by (auto simp: studio_call_def rbind_Inr_iff split: if_splits)

section \<open>What every step keeps\<close>

lemma version_ids: "ids_ok k \<Longrightarrow> v \<in> set (kt_versions k) \<Longrightarrow> w \<in> set (kt_versions k) \<Longrightarrow> cv_id v = cv_id w \<Longrightarrow> v = w"
  by (rule distinct_map_eq [of cv_id "kt_versions k"]) (simp_all add: ids_ok_def)

lemma owner_unique:
  "ids_ok k \<Longrightarrow> c \<in> set (kt_courses k) \<Longrightarrow> owned k own (co_id c) \<Longrightarrow> co_owner c = own"
  unfolding owned_def ids_ok_def using distinct_map_eq [of co_id "kt_courses k"] by blast

lemma step_ids: "studio_step now own k k' \<Longrightarrow> ids_ok k \<Longrightarrow> ids_ok k'"
proof (induction rule: studio_step.induct)
  case (published v k k')
  have "map cv_id (kt_versions k') = map cv_id (kt_versions k)"
    unfolding published(5) by (simp, rule map_upd_same) simp
  with published show ?case by (auto simp: ids_ok_def set_upd_where)
qed

lemma step_frozen:
  assumes "studio_step now own k k'" and "ids_ok k" and "v \<in> set (kt_versions k)" and "cv_published_at v \<noteq> None"
  shows "v \<in> set (kt_versions k') \<and> content k' (cv_id v) = content k (cv_id v)"
  using assms(1)
proof (cases rule: studio_step_cases)
  case (written w)
  with assms(4) version_ids [OF assms(2,3), of w] have "cv_id v \<noteq> cv_id w" by auto
  from same_except_content [OF written(4) this] assms(3) written(4) show ?thesis by (simp add: same_except_def)
next
  case (published w)
  with assms version_ids [OF assms(2,3), of w] show ?thesis
    by (force simp: set_upd_where content_def screens_of_def questions_of_def)
next
  case (added k1 cs w)
  with assms(2,3) have "cv_id v \<noteq> cv_id w" by (auto simp: ids_ok_def)
  with added assms(3) show ?thesis
    using same_except_content [of "cv_id w" k1 k' "cv_id v"] content_frame [of k1 k "cv_id v"] by (simp add: same_except_def)
qed

lemma step_isolated:
  assumes "studio_step now own k k'" and "ids_ok k" and "c \<in> set (kt_courses k)" and "co_owner c \<noteq> own"
  shows "c \<in> set (kt_courses k')"
    and "filter (\<lambda>v. cv_course v = co_id c) (kt_versions k') = filter (\<lambda>v. cv_course v = co_id c) (kt_versions k)"
    and "v \<in> set (kt_versions k) \<Longrightarrow> cv_course v = co_id c \<Longrightarrow> content k' (cv_id v) = content k (cv_id v)"
proof -
  have other: "cv_course w \<noteq> co_id c" if "owned k own (cv_course w)" for w
    using owner_unique [OF assms(2,3), of own] assms(4) that by metis
  have "c \<in> set (kt_courses k') \<and>
    filter (\<lambda>v. cv_course v = co_id c) (kt_versions k') = filter (\<lambda>v. cv_course v = co_id c) (kt_versions k) \<and>
    (v \<in> set (kt_versions k) \<longrightarrow> cv_course v = co_id c \<longrightarrow> content k' (cv_id v) = content k (cv_id v))" for v
    using assms(1)
  proof (cases rule: studio_step_cases)
    case (written w)
    have "content k' (cv_id v) = content k (cv_id v)" if v: "v \<in> set (kt_versions k)" "cv_course v = co_id c"
    proof -
      from v other [OF written(3)] version_ids [OF assms(2) written(1) v(1)] have "cv_id v \<noteq> cv_id w" by auto
      from same_except_content [OF written(4) this] show ?thesis .
    qed
    with assms(3) written(4) show ?thesis by (simp add: same_except_def)
  next
    case (published w)
    have "filter (\<lambda>v. cv_course v = co_id c) (kt_versions k') = filter (\<lambda>v. cv_course v = co_id c) (kt_versions k)"
    proof -
      have "filter (\<lambda>v. cv_course v = co_id c) (upd_where (\<lambda>r. cv_id r = cv_id w) (\<lambda>r. r\<lparr>cv_published_at := Some now\<rparr>) vs) =
          filter (\<lambda>v. cv_course v = co_id c) vs" if "set vs \<subseteq> set (kt_versions k)" for vs
        using that
      proof (induction vs)
        case (Cons x vs)
        then have x: "x \<in> set (kt_versions k)" by simp
        show ?case
        proof (cases "cv_id x = cv_id w")
          case True
          with version_ids [OF assms(2) x published(2)] other [OF published(4)] Cons show ?thesis by simp
        next
          case False
          with Cons show ?thesis by simp
        qed
      qed simp
      then show ?thesis by (simp add: published(1))
    qed
    moreover have "content k' (cv_id v) = content k (cv_id v)" by (rule content_frame) (simp_all add: published(1))
    ultimately show ?thesis using assms(3) published(1) by simp
  next
    case (added k1 cs w)
    from added(8) assms(2,3) other [of w] have "cv_course w \<noteq> co_id c" by (force simp: ids_ok_def)
    moreover have "cv_id v \<noteq> cv_id w" if "v \<in> set (kt_versions k)" using that assms(2) added(5) by (auto simp: ids_ok_def)
    ultimately show ?thesis using added assms(3) same_except_content [of "cv_id w" k1 k' "cv_id v"] content_frame [of k1 k "cv_id v"]
      by (auto simp: same_except_def)
  qed
  then show "c \<in> set (kt_courses k')"
    and "filter (\<lambda>v. cv_course v = co_id c) (kt_versions k') = filter (\<lambda>v. cv_course v = co_id c) (kt_versions k)"
    and "v \<in> set (kt_versions k) \<Longrightarrow> cv_course v = co_id c \<Longrightarrow> content k' (cv_id v) = content k (cv_id v)" by blast+
qed

definition studio_ok :: "catalogue \<Rightarrow> bool" where
  "studio_ok k \<longleftrightarrow>
     ids_ok k \<and>
     (\<forall>v \<in> set (kt_versions k). sound_version k (cv_id v) \<and>
        (cv_published_at v \<noteq> None \<longrightarrow> screens_of k (cv_id v) \<noteq> [] \<and> questions_of k (cv_id v) \<noteq> [])) \<and>
     distinct (map (\<lambda>v. (cv_course v, cv_number v)) (kt_versions k)) \<and>
     at_most_one (\<lambda>v. cv_published_at v = None) cv_course (kt_versions k)"

lemma publishable: "fst (controles_avant_publication k v) = [] \<Longrightarrow> screens_of k (cv_id v) \<noteq> [] \<and> questions_of k (cv_id v) \<noteq> []"
  by (auto simp: controles_avant_publication_def Let_def split: if_splits)

lemma step_sound:
  assumes "studio_step now own k k'" and "studio_ok k"
  shows "studio_ok k'"
proof -
  have i: "ids_ok k" and S: "\<And>v. v \<in> set (kt_versions k) \<Longrightarrow> sound_version k (cv_id v)"
    and P: "\<And>v. v \<in> set (kt_versions k) \<Longrightarrow> cv_published_at v \<noteq> None \<Longrightarrow> screens_of k (cv_id v) \<noteq> [] \<and> questions_of k (cv_id v) \<noteq> []"
    and N: "distinct (map (\<lambda>v. (cv_course v, cv_number v)) (kt_versions k))"
    and D: "at_most_one (\<lambda>v. cv_published_at v = None) cv_course (kt_versions k)"
    using assms(2) by (auto simp: studio_ok_def)
  note ids = step_ids [OF assms(1) i]
  have same: "content k' (cv_id v) = content k (cv_id v) \<Longrightarrow> v \<in> set (kt_versions k) \<Longrightarrow>
      sound_version k' (cv_id v) \<and> (cv_published_at v \<noteq> None \<longrightarrow> screens_of k' (cv_id v) \<noteq> [] \<and> questions_of k' (cv_id v) \<noteq> [])" for v
    using sound_version_content S P by (simp add: content_def)
  show ?thesis using assms(1)
  proof (cases rule: studio_step_cases)
    case (written w)
    have "sound_version k' (cv_id v) \<and> (cv_published_at v \<noteq> None \<longrightarrow> screens_of k' (cv_id v) \<noteq> [] \<and> questions_of k' (cv_id v) \<noteq> [])"
      if v: "v \<in> set (kt_versions k)" for v
    proof (cases "v = w")
      case True
      with written S show ?thesis by simp
    next
      case False
      with version_ids [OF i v written(1)] same_except_content [OF written(4)] same [OF _ v] show ?thesis by blast
    qed
    moreover have "kt_versions k' = kt_versions k" using written(4) by (simp add: same_except_def)
    ultimately show ?thesis unfolding studio_ok_def using ids N D by metis
  next
    case (published w)
    have c: "content k' v = content k v" for v by (rule content_frame) (simp_all add: published(1))
    have "map (\<lambda>v. (cv_course v, cv_number v)) (kt_versions k') = map (\<lambda>v. (cv_course v, cv_number v)) (kt_versions k)"
      unfolding published(1) by (simp, rule map_upd_same) simp
    moreover have "at_most_one (\<lambda>v. cv_published_at v = None) cv_course (kt_versions k')"
      unfolding published(1) by (simp, rule at_most_one_upd [OF _ D]) simp
    moreover have "sound_version k' (cv_id v) \<and> (cv_published_at v \<noteq> None \<longrightarrow> screens_of k' (cv_id v) \<noteq> [] \<and> questions_of k' (cv_id v) \<noteq> [])"
      if "v \<in> set (kt_versions k')" for v
    proof -
      from that obtain r where r: "r \<in> set (kt_versions k)" "v = (if cv_id r = cv_id w then r\<lparr>cv_published_at := Some now\<rparr> else r)"
        by (auto simp: published(1) set_upd_where)
      show ?thesis
      proof (cases "cv_id r = cv_id w")
        case True
        with r(2) have "cv_id v = cv_id w" by simp
        with S [OF published(2)] sound_version_content [OF c] publishable [OF published(5)] c [of "cv_id w"]
        show ?thesis by (simp add: content_def)
      next
        case False
        with r(2) same [OF c r(1)] show ?thesis by simp
      qed
    qed
    ultimately show ?thesis using ids N by (simp add: studio_ok_def)
  next
    case (added k1 cs w)
    have V: "kt_versions k' = w # kt_versions k" using added(2,9) by (simp add: same_except_def)
    have "sound_version k' (cv_id v) \<and> (cv_published_at v \<noteq> None \<longrightarrow> screens_of k' (cv_id v) \<noteq> [] \<and> questions_of k' (cv_id v) \<noteq> [])"
      if v: "v \<in> set (kt_versions k)" for v
    proof -
      have "cv_id v \<noteq> cv_id w" using v i added(5) by (auto simp: ids_ok_def)
      from same_except_content [OF added(9) this] content_frame [OF added(3,4), of "cv_id v"] same [OF _ v] show ?thesis by simp
    qed
    moreover have "(cv_course w, cv_number w) \<notin> (\<lambda>v. (cv_course v, cv_number v)) ` set (kt_versions k)"
      using added(11) by fastforce
    moreover have "at_most_one (\<lambda>v. cv_published_at v = None) cv_course (w # kt_versions k)"
    proof (rule at_most_one_Cons [OF D])
      have "cv_published_at x \<noteq> None" if x: "x \<in> set (kt_versions k)" "cv_course x = cv_course w" for x
        using added(8)
      proof (elim disjE exE conjE)
        fix c assume "co_id c = cv_course w" "kt_seq k < co_id c"
        with x i show ?thesis by (auto simp: ids_ok_def)
      next
        assume "draft_version k (cv_course w) = None"
        with x show ?thesis by (auto simp: draft_version_def latest_None_iff filter_empty_conv)
      qed
      then show "\<not> (cv_published_at w = None \<and> (\<exists>x \<in> set (kt_versions k). cv_published_at x = None \<and> cv_course x = cv_course w))" by blast
    qed
    moreover have "sound_version k' (cv_id w)" by (rule added(12)) (rule S)
    ultimately show ?thesis using ids N added(6) by (simp add: studio_ok_def V)
  qed
qed

section \<open>Histories\<close>

definition empty_catalogue :: catalogue where
  "empty_catalogue = \<lparr>kt_seq = 0, kt_courses = [], kt_versions = [], kt_screens = [], kt_questions = []\<rparr>"

text \<open>Requests one after the other; a refused one changes nothing.\<close>

fun studio_run ::
  "(string \<Rightarrow> string) \<Rightarrow> catalogue \<Rightarrow> (time \<times> db \<times> author \<times> int option \<times> studio_request) list \<Rightarrow> catalogue" where
  "studio_run slugify k [] = k"
| "studio_run slugify k ((now, d, a, actor, rq) # calls) =
     studio_run slugify (case studio_call slugify now d a actor k rq of Inl e \<Rightarrow> k | Inr k' \<Rightarrow> k') calls"

lemma run_induct:
  assumes "P k" and "\<And>now own k k'. P k \<Longrightarrow> ids_ok k \<Longrightarrow> studio_step now own k k' \<Longrightarrow> P k'" and "ids_ok k"
  shows "P (studio_run slugify k calls) \<and> ids_ok (studio_run slugify k calls)"
  using assms(1,3)
proof (induction slugify k calls rule: studio_run.induct)
  case (2 slugify k now d a actor rq calls)
  show ?case
  proof (cases "studio_call slugify now d a actor k rq")
    case (Inr k')
    from studio_call_step [OF Inr 2(3)] assms(2) [OF 2(2,3)] step_ids [OF _ 2(3)] 2(1) Inr show ?thesis by simp
  qed (use 2 in simp)
qed simp

lemma empty_ok: "studio_ok empty_catalogue"
  by (simp add: studio_ok_def ids_ok_def empty_catalogue_def)

lemma run_frozen:
  assumes "ids_ok k" and "v \<in> set (kt_versions k)" and "cv_published_at v \<noteq> None"
  shows "v \<in> set (kt_versions (studio_run slugify k calls)) \<and> content (studio_run slugify k calls) (cv_id v) = content k (cv_id v)"
  using run_induct [of "\<lambda>r. v \<in> set (kt_versions r) \<and> content r (cv_id v) = content k (cv_id v)" k slugify calls]
    step_frozen assms by (metis (no_types, lifting))

lemma run_ok:
  assumes "studio_ok k"
  shows "studio_ok (studio_run slugify k calls) \<and> ids_ok (studio_run slugify k calls)"
proof (rule run_induct)
  show "studio_ok k'" if "studio_ok r" and "studio_step now own r k'" for now own r k'
    using that(2,1) by (rule step_sound)
  show "studio_ok k" by (rule assms)
  show "ids_ok k" using assms by (simp add: studio_ok_def)
qed

definition demo_content :: json where
  "demo_content = JArr [JObj [(''type'', JStr ''paragraphe''), (''texte'', JStr ''Bonjour'')]]"

definition demo_calls :: "(time \<times> db \<times> author \<times> int option \<times> studio_request) list" where
  "demo_calls =
     [(0, empty_db, Exploitant, None, Create ''Mots'' []),
      (1, empty_db, Exploitant, None, Write_screen 2 None ''Un'' demo_content 60),
      (2, empty_db, Exploitant, None, Write_question 2 None ''Q'' Single ''E'' 3 [(''a'', True), (''b'', False)]),
      (3, empty_db, Exploitant, None, Publish 2)]"

definition demo_course :: course where
  "demo_course = \<lparr>co_id = 1, co_slug = ''mots'', co_title = ''Mots'', co_summary = [], co_is_active = True, co_owner = None,
     co_derived_from = None, co_created_by = None\<rparr>"

definition demo_version :: course_version where
  "demo_version = (new_version 2 1 1 70 3 (''Premi'' @ [CHR 0xE8] @ ''re version.''))\<lparr>cv_published_at := Some 3\<rparr>"

definition demo_catalogue :: catalogue where
  "demo_catalogue =
     \<lparr>kt_seq = 6, kt_courses = [demo_course], kt_versions = [demo_version],
      kt_screens = [\<lparr>sn_id = 3, sn_version = 2, sn_order = 1, sn_title = ''Un'', sn_content = demo_content, sn_seconds = 60\<rparr>],
      kt_questions = [\<lparr>qn_id = 4, qn_version = 2, qn_order = 1, qn_text = ''Q'', qn_kind = Single, qn_explanation = ''E'', qn_screen = 3,
        qn_choices = [\<lparr>ch_id = 5, ch_order = 1, ch_text = ''a'', ch_correct = True\<rparr>,
                      \<lparr>ch_id = 6, ch_order = 2, ch_text = ''b'', ch_correct = False\<rparr>]\<rparr>]\<rparr>"

lemma studied_demo: "studio_run lower empty_catalogue demo_calls = demo_catalogue"
  by code_simp

lemma demo_ok: "studio_ok demo_catalogue"
  using run_ok [OF empty_ok, of lower demo_calls] by (simp only: studied_demo)

section \<open>Properties\<close>

text \<open>
  C30: from an empty catalogue, whatever the authors ask in whatever order, the catalogue stays sound: the versions of a
  course have distinct numbers and at most one is a draft, every screen holds a valid content, the ranks of the
  screens and of the questions of a version are distinct, every question belongs to a screen of its own version, has
  an explanation, two choices and a right answer (only one when it is single), and a published version has screens
  and questions.
\<close>

theorem courses_stay_sound: "studio_ok (studio_run slugify empty_catalogue calls)"
  using run_ok [OF empty_ok] by blast

text \<open>
  C31: a published version never changes: whatever is asked afterwards, by whomever, the version, its screens and its
  questions stay what they were.
\<close>

theorem published_never_changes:
  assumes "k = studio_run slugify empty_catalogue calls" and "v \<in> set (kt_versions k)" and "cv_published_at v \<noteq> None"
  shows "v \<in> set (kt_versions (studio_run slugify k later)) \<and>
    screens_of (studio_run slugify k later) (cv_id v) = screens_of k (cv_id v) \<and>
    questions_of (studio_run slugify k later) (cv_id v) = questions_of k (cv_id v)"
proof -
  have "ids_ok k" using run_ok [OF empty_ok, of slugify calls] unfolding assms(1) by blast
  from run_frozen [OF this assms(2,3), of slugify later] show ?thesis by (simp add: content_def)
qed

lemma published_never_changes_witness:
  "demo_version \<in> set (kt_versions (studio_run lower demo_catalogue
     [(4, empty_db, Exploitant, None, Write_screen 2 (Some 3) ''Autre'' demo_content 90),
      (5, empty_db, Exploitant, None, Open_version 1 ''Suite'')])) \<and>
   length (screens_of (studio_run lower demo_catalogue
     [(4, empty_db, Exploitant, None, Write_screen 2 (Some 3) ''Autre'' demo_content 90),
      (5, empty_db, Exploitant, None, Open_version 1 ''Suite'')]) 2) = 1"
proof -
  have v: "demo_version \<in> set (kt_versions demo_catalogue)" "cv_published_at demo_version \<noteq> None" "cv_id demo_version = 2"
    "length (screens_of demo_catalogue 2) = 1"
    by (simp_all add: demo_catalogue_def demo_version_def new_version_def screens_of_def)
  from published_never_changes [OF studied_demo [symmetric] v(1,2)] v(3,4) show ?thesis by (simp del: studio_run.simps)
qed

text \<open>
  C32: only an author writes, and only at home: a request that succeeds comes from the operator or from an administrator of
  a company whose offer has the studio, and a course of anybody else, the library included for a company, keeps its
  versions, their screens and their questions.
\<close>

theorem authors_are_isolated:
  assumes "studio_ok k" and "studio_call slugify now d a actor k rq = Inr k'"
    and "c \<in> set (kt_courses k)" and "co_owner c \<noteq> client_of a"
  shows "may_compose a \<and> (client_of a = Some t \<longrightarrow> has_feature d t TRAINING_STUDIO) \<and>
    c \<in> set (kt_courses k') \<and>
    filter (\<lambda>v. cv_course v = co_id c) (kt_versions k') = filter (\<lambda>v. cv_course v = co_id c) (kt_versions k) \<and>
    (\<forall>v \<in> set (kt_versions k). cv_course v = co_id c \<longrightarrow>
      screens_of k' (cv_id v) = screens_of k (cv_id v) \<and> questions_of k' (cv_id v) = questions_of k (cv_id v))"
proof (intro conjI)
  have i: "ids_ok k" using assms(1) by (simp add: studio_ok_def)
  note st = studio_call_step [OF assms(2) i]
  from assms(2) show "may_compose a" by (auto simp: studio_call_def split: if_splits)
  from assms(2) show "client_of a = Some t \<longrightarrow> has_feature d t TRAINING_STUDIO"
    by (auto simp: studio_call_def rbind_Inr_iff garde_de_production_def ensure_feature_def split: if_splits)
  from step_isolated [OF st i assms(3,4)] show "c \<in> set (kt_courses k')"
    and "filter (\<lambda>v. cv_course v = co_id c) (kt_versions k') = filter (\<lambda>v. cv_course v = co_id c) (kt_versions k)"
    and "\<forall>v \<in> set (kt_versions k). cv_course v = co_id c \<longrightarrow>
      screens_of k' (cv_id v) = screens_of k (cv_id v) \<and> questions_of k' (cv_id v) = questions_of k (cv_id v)"
    by (auto simp: content_def)
qed

definition demo_two :: catalogue where
  "demo_two = (case dupliquer lower cles_connues demo_catalogue demo_course (Some 9) None [] of Inr (c, k) \<Rightarrow> k | Inl _ \<Rightarrow> demo_catalogue)"

lemma demo_two_ok: "studio_ok demo_two"
proof (cases "dupliquer lower cles_connues demo_catalogue demo_course (Some 9) None []")
  case (Inr x)
  obtain c k where x: "x = (c, k)" by (cases x)
  have "ids_ok demo_catalogue" using demo_ok by (simp add: studio_ok_def)
  from step_sound [OF dupliquer_step [OF Inr [unfolded x] this] demo_ok] show ?thesis by (simp add: demo_two_def Inr x)
qed (simp add: demo_two_def demo_ok)

lemma authors_are_isolated_witness:
  "\<exists>c k'. co_owner c = Some 9 \<and> studio_call lower 4 empty_db Exploitant None demo_two (Open_version 1 ''Suite'') = Inr k' \<and>
     c \<in> set (kt_courses k') \<and>
     filter (\<lambda>v. cv_course v = co_id c) (kt_versions k') = filter (\<lambda>v. cv_course v = co_id c) (kt_versions demo_two)"
proof -
  have "is_ok (studio_call lower 4 empty_db Exploitant None demo_two (Open_version 1 ''Suite''))" by code_simp
  then obtain k' where k': "studio_call lower 4 empty_db Exploitant None demo_two (Open_version 1 ''Suite'') = Inr k'"
    by (auto simp: is_ok_iff)
  have "list_ex (\<lambda>c. co_owner c = Some 9) (kt_courses demo_two)" by code_simp
  then obtain c where c: "c \<in> set (kt_courses demo_two)" "co_owner c = Some 9" by (auto simp: list_ex_iff)
  then have "co_owner c \<noteq> client_of Exploitant" by (simp add: client_of_def)
  from authors_are_isolated [OF demo_two_ok k' c(1) this] k' c(2) show ?thesis by blast
qed

text \<open>
  C33: a copy is complete and its own. A new version, when one is made, reads like the published one it
  starts from, and carries the next number; a course derived from any course, published, with a draft
  open or draft only, belongs to the one who derives it and opens with a draft that reads like the
  published version of its source or, when it has none, like its draft. A copy reads like its source
  screen by screen and question by question, each question pointing to the screen of the copy that has the
  rank of the original's.
\<close>

theorem copy_is_complete:
  assumes "studio_ok k" and "c \<in> set (kt_courses k)"
  shows "(nouvelle_version cles_connues k (co_id c) note = Inr (v, k') \<longrightarrow>
      (\<exists>source. published_version k (co_id c) = Some source \<and> reading k' (cv_id v) = reading k (cv_id source) \<and>
         cv_number v = cv_number source + 1 \<and> cv_published_at v = None \<and> sound_version k' (cv_id v))) \<and>
    (dupliquer slugify cles_connues k c owner actor titre = Inr (c2, k2) \<longrightarrow>
      (\<exists>source v2. (published_version k (co_id c) = Some source \<or>
            published_version k (co_id c) = None \<and> draft_version k (co_id c) = Some source) \<and>
         co_owner c2 = owner \<and> cv_course v2 = co_id c2 \<and> v2 \<in> set (kt_versions k2) \<and>
         cv_published_at v2 = None \<and> reading k2 (cv_id v2) = reading k (cv_id source)))"
proof (rule conjI; rule impI)
  have i: "ids_ok k" and S: "\<And>w. w \<in> set (kt_versions k) \<Longrightarrow> sound_version k (cv_id w)"
    using assms(1) by (auto simp: studio_ok_def)
  have le: "co_id c \<le> kt_seq k" using i assms(2) by (auto simp: ids_ok_def)
  show "\<exists>source. published_version k (co_id c) = Some source \<and> reading k' (cv_id v) = reading k (cv_id source) \<and>
      cv_number v = cv_number source + 1 \<and> cv_published_at v = None \<and> sound_version k' (cv_id v)"
    if made: "nouvelle_version cles_connues k (co_id c) note = Inr (v, k')"
    using made i le
  proof (rule nouvelle_version_cases)
    fix source
    let ?k = "k\<lparr>kt_seq := kt_seq k + 1, kt_versions := v # kt_versions k\<rparr>"
    assume "published_version k (co_id c) = Some source" "source \<in> set (kt_versions k)" "cv_id v = kt_seq k + 1"
      "cv_published_at v = None" "cv_number v = cv_number source + 1" "ids_ok ?k"
      "recopier_contenu cles_connues ?k (cv_id source) (cv_id v) = Inr k'"
    with copied(3) [of ?k "cv_id source" v k' k] S i show ?thesis by simp
  qed
  show "\<exists>source v2. (published_version k (co_id c) = Some source \<or>
          published_version k (co_id c) = None \<and> draft_version k (co_id c) = Some source) \<and>
       co_owner c2 = owner \<and> cv_course v2 = co_id c2 \<and> v2 \<in> set (kt_versions k2) \<and>
       cv_published_at v2 = None \<and> reading k2 (cv_id v2) = reading k (cv_id source)"
    if derived: "dupliquer slugify cles_connues k c owner actor titre = Inr (c2, k2)"
    using derived i
  proof (rule dupliquer_cases)
    fix source v2
    let ?k = "k\<lparr>kt_seq := kt_seq k + 2, kt_courses := c2 # kt_courses k, kt_versions := v2 # kt_versions k\<rparr>"
    assume a: "source \<in> set (kt_versions k)" "co_id c2 = kt_seq k + 1" "co_owner c2 = owner"
      "(case published_version k (co_id c) of Some v \<Rightarrow> Some v | None \<Rightarrow> draft_version k (co_id c)) = Some source"
      "cv_id v2 = kt_seq k + 2" "cv_course v2 = kt_seq k + 1" "cv_published_at v2 = None" "ids_ok ?k"
      "recopier_contenu cles_connues ?k (cv_id source) (cv_id v2) = Inr k2"
    with copied [of ?k "cv_id source" v2 k2 k] S i have "same_except (cv_id v2) ?k k2" "reading k2 (cv_id v2) = reading k (cv_id source)"
      by simp_all
    with a show ?thesis
      by (intro exI [of _ source] exI [of _ v2]) (auto simp: same_except_def split: option.splits)
  qed
qed

lemma copy_is_complete_witness:
  "(\<exists>v k'. nouvelle_version cles_connues demo_catalogue 1 ''Suite'' = Inr (v, k') \<and>
     reading k' (cv_id v) = reading demo_catalogue 2 \<and> sound_version k' (cv_id v)) \<and>
   (\<exists>c2 k2 v2. dupliquer lower cles_connues demo_catalogue demo_course (Some 9) None [] = Inr (c2, k2) \<and>
     v2 \<in> set (kt_versions k2) \<and> cv_course v2 = co_id c2 \<and> reading k2 (cv_id v2) = reading demo_catalogue 2)"
proof -
  have c: "demo_course \<in> set (kt_courses demo_catalogue)" "co_id demo_course = 1" by (simp_all add: demo_catalogue_def demo_course_def)
  have "is_ok (nouvelle_version cles_connues demo_catalogue 1 ''Suite'')"
    and "is_ok (dupliquer lower cles_connues demo_catalogue demo_course (Some 9) None [])" by code_simp+
  then obtain v k' c2 k2 where n: "nouvelle_version cles_connues demo_catalogue (co_id demo_course) ''Suite'' = Inr (v, k')"
    and d: "dupliquer lower cles_connues demo_catalogue demo_course (Some 9) None [] = Inr (c2, k2)"
    by (auto simp: is_ok_iff c(2))
  have pub: "map_option cv_id (published_version demo_catalogue 1) = Some 2" by code_simp
  note both = copy_is_complete [OF demo_ok c(1)]
  from both [THEN conjunct1, rule_format, OF n] pub n c(2)
  have "\<exists>v k'. nouvelle_version cles_connues demo_catalogue 1 ''Suite'' = Inr (v, k') \<and>
     reading k' (cv_id v) = reading demo_catalogue 2 \<and> sound_version k' (cv_id v)" by auto
  moreover from both [THEN conjunct2, rule_format, OF d] pub d c(2)
  have "\<exists>c2 k2 v2. dupliquer lower cles_connues demo_catalogue demo_course (Some 9) None [] = Inr (c2, k2) \<and>
     v2 \<in> set (kt_versions k2) \<and> cv_course v2 = co_id c2 \<and> reading k2 (cv_id v2) = reading demo_catalogue 2" by auto
  ultimately show ?thesis by blast
qed

end
