(* ===== verification/Training.thy ===== *)
theory Training
  imports Studio Assessments Inbox
begin

text \<open>
  Following a course (training/services.py and the tables of training/models.py on the side of the companies):
  the learners, the enrolments and their personal link, the progression, the quiz and its correction, the
  certificate. The context of isolation is the argument \<open>t\<close>; SHA-256, the drawing of tokens and serials, the
  end of a local day and the figures of a company are parameters. An identifier is a number, ordered as its
  text is. Tables hold their newest row first.
\<close>

section \<open>Data\<close>

record course_assignment =
  ca_tenant :: int
  ca_course :: int
  ca_assigned_by :: "int option"

record learner =
  ln_id :: int
  ln_tenant :: int
  ln_full_name :: string
  ln_email :: string
  ln_user :: "int option"
  ln_is_active :: bool
  ln_created_by :: "int option"

record enrollment =
  en_id :: int
  en_tenant :: int
  en_learner :: int
  en_version :: int
  en_due_date :: date
  en_token_hash :: string
  en_token_issued_at :: time
  en_first_opened_at :: "time option"
  en_revoked_at :: "time option"
  en_revoked_by :: "int option"
  en_access_requested_at :: "time option"
  en_extra_attempts :: int
  en_attempts_granted_by :: "int option"
  en_attempts_granted_at :: "time option"
  en_created_by :: "int option"
  en_created_at :: time

record screen_progress =
  sp_tenant :: int
  sp_enrollment :: int
  sp_screen :: int
  sp_completed_at :: time

record attempt =
  at_id :: int
  at_tenant :: int
  at_enrollment :: int
  at_number :: int
  at_score :: int
  at_passed :: bool
  at_submitted_at :: time

record attempt_answer =
  an_tenant :: int
  an_attempt :: int
  an_question :: int
  an_selected :: "int list"
  an_is_correct :: bool

record course_certificate =
  ce_tenant :: int
  ce_enrollment :: int
  ce_serial :: string
  ce_issued_at :: time
  ce_learner_name :: string
  ce_course_title :: string
  ce_course_version :: int
  ce_company_name :: string
  ce_score :: int

datatype reminder_kind = Mid | Before | After

datatype training_mail =
    Invitation_mail int string
  | Reminder_mail int reminder_kind string
  | Access_mail int "string list"

record school =
  sc_seq :: int
  sc_catalogue :: catalogue
  sc_assignments :: "course_assignment list"
  sc_learners :: "learner list"
  sc_enrollments :: "enrollment list"
  sc_progress :: "screen_progress list"
  sc_attempts :: "attempt list"
  sc_answers :: "attempt_answer list"
  sc_certificates :: "course_certificate list"
  sc_mails :: "training_mail list"

text \<open>What a call sees of its surroundings.\<close>

record lesson_env =
  lv_now :: time
  lv_day_end :: "date \<Rightarrow> time"
  lv_hash :: "string \<Rightarrow> string"
  lv_base_url :: string
  lv_mail_ok :: "string list \<Rightarrow> bool"
  lv_company :: "int \<Rightarrow> string"
  lv_values :: "int \<Rightarrow> string \<Rightarrow> int option"

datatype training_error =
    Session_not_found
  | Learner_known
  | Learner_inactive
  | Course_not_offered
  | No_published_version
  | Already_enrolled date
  | Access_revoked
  | Bad_count
  | Screen_of_another_course
  | No_quiz
  | Already_passed
  | Screens_left
  | No_attempt_left
  | Unanswered nat
  | Mail_failed
  | Row_missing
  | Content_unreadable
  | Already_taken

section \<open>The personal link\<close>

definition lien_de_session :: "lesson_env \<Rightarrow> string \<Rightarrow> string" where
  "lien_de_session e token = rev (dropWhile (\<lambda>c. c = CHR ''/'') (rev (lv_base_url e))) @ ''/formation/'' @ token"

definition learner_of :: "school \<Rightarrow> enrollment \<Rightarrow> learner option" where
  "learner_of s x = find (\<lambda>l. ln_id l = en_learner x) (sc_learners s)"

definition version_of :: "school \<Rightarrow> enrollment \<Rightarrow> course_version option" where
  "version_of s x = find (\<lambda>v. cv_id v = en_version x) (kt_versions (sc_catalogue s))"

definition course_of :: "school \<Rightarrow> enrollment \<Rightarrow> course option" where
  "course_of s x = (case version_of s x of None \<Rightarrow> None | Some v \<Rightarrow> find (\<lambda>c. co_id c = cv_course v) (kt_courses (sc_catalogue s)))"

definition learner_active :: "school \<Rightarrow> enrollment \<Rightarrow> bool" where
  "learner_active s x = (case learner_of s x of None \<Rightarrow> False | Some l \<Rightarrow> ln_is_active l)"

definition expires_at :: "lesson_env \<Rightarrow> enrollment \<Rightarrow> time" where
  "expires_at e x = lv_day_end e (en_due_date x + MARGE_APRES_ECHEANCE_JOURS)"

definition is_revoked :: "enrollment \<Rightarrow> bool" where
  "is_revoked x = (en_revoked_at x \<noteq> None)"

definition is_expired :: "lesson_env \<Rightarrow> enrollment \<Rightarrow> bool" where
  "is_expired e x = (expires_at e x < lv_now e)"

definition is_usable :: "lesson_env \<Rightarrow> school \<Rightarrow> enrollment \<Rightarrow> bool" where
  "is_usable e s x = (\<not> is_revoked x \<and> \<not> is_expired e x \<and> learner_active s x)"

definition attempts_allowed :: "school \<Rightarrow> enrollment \<Rightarrow> int" where
  "attempts_allowed s x = (case version_of s x of None \<Rightarrow> 0 | Some v \<Rightarrow> cv_max_attempts v) + en_extra_attempts x"

definition put_enrollment :: "enrollment \<Rightarrow> school \<Rightarrow> school" where
  "put_enrollment x s = s\<lparr>sc_enrollments := upd_where (\<lambda>r. en_id r = en_id x) (\<lambda>r. x) (sc_enrollments s)\<rparr>"

definition by_token :: "lesson_env \<Rightarrow> school \<Rightarrow> string \<Rightarrow> enrollment option" where
  "by_token e s token = find (\<lambda>x. en_token_hash x = lv_hash e token) (sc_enrollments s)"

definition resoudre_session :: "lesson_env \<Rightarrow> school \<Rightarrow> string \<Rightarrow> training_error + enrollment \<times> school" where
  "resoudre_session e s token =
     (if token = [] then Inl Session_not_found
      else case by_token e s token of
             None \<Rightarrow> Inl Session_not_found
           | Some x \<Rightarrow>
               if \<not> is_usable e s x then Inl Session_not_found
               else if en_first_opened_at x = None
                 then (let x' = x\<lparr>en_first_opened_at := Some (lv_now e)\<rparr> in Inr (x', put_enrollment x' s))
                 else Inr (x, s))"

text \<open>Asking for access again: a mail to the administrators, once a day, never a link.\<close>

definition admin_emails :: "db \<Rightarrow> int \<Rightarrow> string list" where
  "admin_emails d t =
     concat (map (\<lambda>m. case find (\<lambda>u. us_id u = me_user m) (d_users d) of None \<Rightarrow> [] | Some u \<Rightarrow> [us_email u])
       (filter (\<lambda>m. me_tenant m = t \<and> me_role m = Admin) (d_memberships d)))"

definition envoyer_demande_dacces :: "lesson_env \<Rightarrow> db \<Rightarrow> enrollment \<Rightarrow> school \<Rightarrow> training_error + school" where
  "envoyer_demande_dacces e d x s =
     (let dest = admin_emails d (en_tenant x)
      in if dest = [] then Inr s
         else if lv_mail_ok e dest then Inr (s\<lparr>sc_mails := Access_mail (en_id x) dest # sc_mails s\<rparr>) else Inl Mail_failed)"

definition demander_un_acces :: "lesson_env \<Rightarrow> db \<Rightarrow> school \<Rightarrow> string \<Rightarrow> training_error + bool \<times> school" where
  "demander_un_acces e d s token =
     (case by_token e s token of
        None \<Rightarrow> Inl Session_not_found
      | Some x \<Rightarrow>
          if is_revoked x \<or> \<not> learner_active s x then Inl Session_not_found
          else if (case en_access_requested_at x of None \<Rightarrow> False | Some w \<Rightarrow> date_of w = date_of (lv_now e)) then Inr (False, s)
          else rbind (envoyer_demande_dacces e d x s) (\<lambda>s'.
                 Inr (True, put_enrollment (x\<lparr>en_access_requested_at := Some (lv_now e)\<rparr>) s')))"

section \<open>Organising a campaign\<close>

definition creer_apprenant ::
  "school \<Rightarrow> int \<Rightarrow> string \<Rightarrow> string \<Rightarrow> int option \<Rightarrow> int option \<Rightarrow> training_error + learner \<times> school" where
  "creer_apprenant s t full_name email actor user =
     (let m = lower (strip email)
      in if \<exists>l \<in> set (sc_learners s). ln_tenant l = t \<and> ln_email l = m then Inl Learner_known
         else (let l = \<lparr>ln_id = sc_seq s + 1, ln_tenant = t, ln_full_name = strip full_name, ln_email = m, ln_user = user,
                        ln_is_active = True, ln_created_by = actor\<rparr>
               in Inr (l, s\<lparr>sc_seq := sc_seq s + 1, sc_learners := l # sc_learners s\<rparr>)))"

definition is_assigned :: "school \<Rightarrow> int \<Rightarrow> int \<Rightarrow> bool" where
  "is_assigned s t c = (\<exists>a \<in> set (sc_assignments s). ca_tenant a = t \<and> ca_course a = c)"

definition attribuer_cours :: "school \<Rightarrow> int \<Rightarrow> int \<Rightarrow> int option \<Rightarrow> school" where
  "attribuer_cours s t c actor =
     (if is_assigned s t c then s
      else s\<lparr>sc_assignments := \<lparr>ca_tenant = t, ca_course = c, ca_assigned_by = actor\<rparr> # sc_assignments s\<rparr>)"

definition is_published :: "school \<Rightarrow> course \<Rightarrow> bool" where
  "is_published s c = (published_version (sc_catalogue s) (co_id c) \<noteq> None)"

text \<open>\<open>order_by("course__title")\<close>: \<open>coll\<close> is the rank the collation gives a title.\<close>

definition cours_attribues :: "(string \<Rightarrow> nat) \<Rightarrow> school \<Rightarrow> int \<Rightarrow> course list" where
  "cours_attribues coll s t =
     sort_key (coll \<circ> co_title)
       (filter (\<lambda>c. is_assigned s t (co_id c) \<and> co_is_active c \<and> is_published s c) (kt_courses (sc_catalogue s)))"

definition bibliotheque :: "(string \<Rightarrow> nat) \<Rightarrow> school \<Rightarrow> course list" where
  "bibliotheque coll s =
     sort_key (coll \<circ> co_title)
       (filter (\<lambda>c. co_owner c = None \<and> co_is_active c \<and> is_published s c) (kt_courses (sc_catalogue s)))"

definition cours_attribuables :: "(string \<Rightarrow> nat) \<Rightarrow> school \<Rightarrow> int \<Rightarrow> course list" where
  "cours_attribuables coll s t = filter (\<lambda>c. \<not> is_assigned s t (co_id c)) (bibliotheque coll s)"

definition retirer_cours :: "school \<Rightarrow> int \<Rightarrow> int \<Rightarrow> bool \<times> school" where
  "retirer_cours s t c =
     (is_assigned s t c, s\<lparr>sc_assignments := filter (\<lambda>a. \<not> (ca_tenant a = t \<and> ca_course a = c)) (sc_assignments s)\<rparr>)"

definition versions_of_course :: "school \<Rightarrow> int \<Rightarrow> int set" where
  "versions_of_course s c = cv_id ` set (filter (\<lambda>v. cv_course v = c) (kt_versions (sc_catalogue s)))"

definition inscriptions_en_cours :: "school \<Rightarrow> int \<Rightarrow> int \<Rightarrow> nat" where
  "inscriptions_en_cours s t c =
     length (filter (\<lambda>x. en_tenant x = t \<and> en_version x \<in> versions_of_course s c \<and> en_revoked_at x = None) (sc_enrollments s))"

definition live_enrollment :: "school \<Rightarrow> int \<Rightarrow> int \<Rightarrow> int \<Rightarrow> enrollment option" where
  "live_enrollment s t l v =
     find (\<lambda>x. en_tenant x = t \<and> en_learner x = l \<and> en_version x = v \<and> en_revoked_at x = None) (sc_enrollments s)"

text \<open>A unique column that repeats (the digest of a token, a serial, the number of an attempt) is \<open>Already_taken\<close>.\<close>

definition inscrire ::
  "lesson_env \<Rightarrow> string \<Rightarrow> school \<Rightarrow> int \<Rightarrow> learner \<Rightarrow> course \<Rightarrow> date \<Rightarrow> int option \<Rightarrow> training_error + enrollment \<times> school" where
  "inscrire e token s t l c due actor =
     rbind (ensure (ln_is_active l) Learner_inactive) (\<lambda>_.
     rbind (ensure (is_assigned s t (co_id c)) Course_not_offered) (\<lambda>_.
       case published_version (sc_catalogue s) (co_id c) of
         None \<Rightarrow> Inl No_published_version
       | Some v \<Rightarrow>
           (case live_enrollment s t (ln_id l) (cv_id v) of
              Some x \<Rightarrow> Inl (Already_enrolled (en_due_date x))
            | None \<Rightarrow>
                rbind (ensure (list_all (\<lambda>y. en_token_hash y \<noteq> lv_hash e token) (sc_enrollments s)) Already_taken) (\<lambda>_.
                 let x = \<lparr>en_id = sc_seq s + 1, en_tenant = t, en_learner = ln_id l, en_version = cv_id v, en_due_date = due,
                          en_token_hash = lv_hash e token, en_token_issued_at = lv_now e, en_first_opened_at = None,
                          en_revoked_at = None, en_revoked_by = None, en_access_requested_at = None, en_extra_attempts = 0,
                          en_attempts_granted_by = None, en_attempts_granted_at = None, en_created_by = actor,
                          en_created_at = lv_now e\<rparr>
                 in Inr (x, s\<lparr>sc_seq := sc_seq s + 1, sc_enrollments := x # sc_enrollments s\<rparr>)))))"

definition renouveler_le_lien :: "lesson_env \<Rightarrow> string \<Rightarrow> school \<Rightarrow> enrollment \<Rightarrow> training_error + enrollment \<times> school" where
  "renouveler_le_lien e token s x =
     (if is_revoked x then Inl Access_revoked
      else if list_ex (\<lambda>y. en_token_hash y = lv_hash e token \<and> en_id y \<noteq> en_id x) (sc_enrollments s) then Inl Already_taken
      else (let x' = x\<lparr>en_token_hash := lv_hash e token, en_token_issued_at := lv_now e\<rparr> in Inr (x', put_enrollment x' s)))"

definition revoquer :: "lesson_env \<Rightarrow> school \<Rightarrow> enrollment \<Rightarrow> int option \<Rightarrow> enrollment \<times> school" where
  "revoquer e s x actor =
     (if is_revoked x then (x, s)
      else (let x' = x\<lparr>en_revoked_at := Some (lv_now e), en_revoked_by := actor\<rparr> in (x', put_enrollment x' s)))"

definition accorder_des_essais :: "lesson_env \<Rightarrow> school \<Rightarrow> enrollment \<Rightarrow> int \<Rightarrow> int option \<Rightarrow> training_error + enrollment \<times> school" where
  "accorder_des_essais e s x nombre actor =
     (if nombre < 1 then Inl Bad_count
      else (let x' = x\<lparr>en_extra_attempts := en_extra_attempts x + nombre, en_attempts_granted_by := actor,
                       en_attempts_granted_at := Some (lv_now e)\<rparr>
            in Inr (x', put_enrollment x' s)))"

section \<open>Following the course\<close>

definition ecrans_vus :: "school \<Rightarrow> enrollment \<Rightarrow> int list" where
  "ecrans_vus s x = remdups (map sp_screen (filter (\<lambda>p. sp_tenant p = en_tenant x \<and> sp_enrollment p = en_id x) (sc_progress s)))"

definition essais :: "school \<Rightarrow> enrollment \<Rightarrow> attempt list" where
  "essais s x = sort_key at_number (filter (\<lambda>a. at_tenant a = en_tenant x \<and> at_enrollment a = en_id x) (sc_attempts s))"

definition attestation_de :: "school \<Rightarrow> enrollment \<Rightarrow> course_certificate option" where
  "attestation_de s x = find (\<lambda>c. ce_tenant c = en_tenant x \<and> ce_enrollment c = en_id x) (sc_certificates s)"

text \<open>The first screen not seen, the last one when all are.\<close>

definition index_de_reprise :: "screen list \<Rightarrow> int list \<Rightarrow> nat" where
  "index_de_reprise ss seen =
     (let k = length (takeWhile (\<lambda>s. sn_id s \<in> set seen) ss) in if k < length ss then k else length ss - 1)"

record shown_question =
  sq_id :: int
  sq_order :: int
  sq_text :: string
  sq_kind :: question_kind
  sq_choices :: "(int \<times> string) list"

definition questions_du_quiz :: "school \<Rightarrow> enrollment \<Rightarrow> shown_question list" where
  "questions_du_quiz s x =
     map (\<lambda>q. \<lparr>sq_id = qn_id q, sq_order = qn_order q, sq_text = qn_text q, sq_kind = qn_kind q,
                sq_choices = map (\<lambda>c. (ch_id c, ch_text c)) (choices_of q)\<rparr>)
       (questions_of (sc_catalogue s) (en_version x))"

record session_state =
  se_learner :: string
  se_company :: string
  se_title :: string
  se_summary :: string
  se_number :: int
  se_minutes :: int
  se_due_date :: date
  se_expires_at :: time
  se_screens :: "(int \<times> int \<times> string \<times> payload list \<times> bool) list"
  se_screens_total :: nat
  se_screens_completed :: nat
  se_resume :: nat
  se_quiz_unlocked :: bool
  se_threshold :: int
  se_attempts_used :: nat
  se_attempts_allowed :: int
  se_passed :: bool
  se_certificate :: "course_certificate option"
  se_quiz :: "shown_question list"

fun shown_screens :: "(string \<Rightarrow> int option) \<Rightarrow> int list \<Rightarrow> screen list \<Rightarrow> (int \<times> int \<times> string \<times> payload list \<times> bool) list option" where
  "shown_screens val seen [] = Some []"
| "shown_screens val seen (s # ss) =
     (case contextualiser val (sn_content s) of
        None \<Rightarrow> None
      | Some bs \<Rightarrow>
          (case shown_screens val seen ss of
             None \<Rightarrow> None | Some r \<Rightarrow> Some ((sn_id s, sn_order s, sn_title s, bs, sn_id s \<in> set seen) # r)))"

definition etat_de_session :: "lesson_env \<Rightarrow> school \<Rightarrow> enrollment \<Rightarrow> training_error + session_state" where
  "etat_de_session e s x =
     (case (learner_of s x, version_of s x, course_of s x) of
        (Some l, Some v, Some c) \<Rightarrow>
          (let ss = screens_of (sc_catalogue s) (cv_id v); seen = ecrans_vus s x; tries = essais s x
           in case shown_screens (lv_values e (en_tenant x)) seen ss of
                None \<Rightarrow> Inl Content_unreadable
              | Some texts \<Rightarrow>
                  Inr \<lparr>se_learner = ln_full_name l, se_company = lv_company e (en_tenant x), se_title = co_title c,
                       se_summary = co_summary c, se_number = cv_number v, se_minutes = estimated_minutes (sc_catalogue s) (cv_id v),
                       se_due_date = en_due_date x, se_expires_at = expires_at e x, se_screens = texts,
                       se_screens_total = length ss, se_screens_completed = length seen, se_resume = index_de_reprise ss seen,
                       se_quiz_unlocked = (ss \<noteq> [] \<and> length ss \<le> length seen), se_threshold = cv_pass_threshold v,
                       se_attempts_used = length tries, se_attempts_allowed = attempts_allowed s x,
                       se_passed = list_ex at_passed tries, se_certificate = attestation_de s x,
                       se_quiz = questions_du_quiz s x\<rparr>)
      | _ \<Rightarrow> Inl Row_missing)"

definition marquer_ecran_vu :: "lesson_env \<Rightarrow> school \<Rightarrow> enrollment \<Rightarrow> int \<Rightarrow> (training_error + session_state) \<times> school" where
  "marquer_ecran_vu e s x screen_id =
     (case find (\<lambda>r. sn_version r = en_version x \<and> sn_id r = screen_id) (kt_screens (sc_catalogue s)) of
        None \<Rightarrow> (Inl Screen_of_another_course, s)
      | Some r \<Rightarrow>
          (let s' = (if \<exists>p \<in> set (sc_progress s). sp_tenant p = en_tenant x \<and> sp_enrollment p = en_id x \<and> sp_screen p = screen_id then s
                     else s\<lparr>sc_progress := \<lparr>sp_tenant = en_tenant x, sp_enrollment = en_id x, sp_screen = screen_id,
                              sp_completed_at = lv_now e\<rparr> # sc_progress s\<rparr>)
           in (etat_de_session e s' x, s')))"

section \<open>The quiz\<close>

definition corriger :: "question \<Rightarrow> int set \<Rightarrow> int set \<Rightarrow> bool" where
  "corriger q chosen expected =
     (if qn_kind q = Single \<and> card chosen \<noteq> 1 then False else chosen \<noteq> {} \<and> chosen = expected)"

definition chosen_of :: "(int \<times> int list) list \<Rightarrow> question \<Rightarrow> int list" where
  "chosen_of reponses q = (case map_of reponses (qn_id q) of None \<Rightarrow> [] | Some ids \<Rightarrow> sort (remdups ids))"

definition is_right :: "(int \<times> int list) list \<Rightarrow> question \<Rightarrow> bool" where
  "is_right reponses q = corriger q (set (chosen_of reponses q)) (correct_choice_ids q)"

text \<open>The screens of the wrong answers, each once, in the order of the course.\<close>

definition ecrans_a_revoir :: "catalogue \<Rightarrow> question list \<Rightarrow> screen list" where
  "ecrans_a_revoir k wrong =
     sort_key sn_order
       (concat (map (\<lambda>i. case find (\<lambda>s. sn_id s = i) (kt_screens k) of None \<Rightarrow> [] | Some s \<Rightarrow> [s])
         (rev (remdups (rev (map qn_screen wrong))))))"

definition delivrer_lattestation ::
  "lesson_env \<Rightarrow> string \<Rightarrow> school \<Rightarrow> enrollment \<Rightarrow> session_state \<Rightarrow> int \<Rightarrow> course_certificate \<times> school" where
  "delivrer_lattestation e serial s x st score =
     (case attestation_de s x of
        Some c \<Rightarrow> (c, s)
      | None \<Rightarrow>
          (let c = \<lparr>ce_tenant = en_tenant x, ce_enrollment = en_id x, ce_serial = serial, ce_issued_at = lv_now e,
                    ce_learner_name = se_learner st, ce_course_title = se_title st, ce_course_version = se_number st,
                    ce_company_name = se_company st, ce_score = score\<rparr>
           in (c, s\<lparr>sc_certificates := c # sc_certificates s\<rparr>)))"

record quiz_result =
  qr_score :: int
  qr_passed :: bool
  qr_threshold :: int
  qr_number :: int
  qr_allowed :: int
  qr_questions :: "(question \<times> bool \<times> int list) list"
  qr_review :: "screen list"
  qr_certificate :: "course_certificate option"

text \<open>The attempt and its answers, question by question.\<close>

definition new_attempt :: "lesson_env \<Rightarrow> school \<Rightarrow> enrollment \<Rightarrow> session_state \<Rightarrow> question list \<Rightarrow> (int \<times> int list) list \<Rightarrow> attempt" where
  "new_attempt e s x st qs reponses =
     (let score = py_round (of_int (100 * int (length (filter (is_right reponses) qs))) / of_int (int (length qs)))
      in \<lparr>at_id = sc_seq s + 1, at_tenant = en_tenant x, at_enrollment = en_id x, at_number = int (se_attempts_used st) + 1,
          at_score = score, at_passed = (se_threshold st \<le> score), at_submitted_at = lv_now e\<rparr>)"

definition attempt_answers :: "school \<Rightarrow> enrollment \<Rightarrow> question list \<Rightarrow> (int \<times> int list) list \<Rightarrow> attempt_answer list" where
  "attempt_answers s x qs reponses =
     map (\<lambda>q. \<lparr>an_tenant = en_tenant x, an_attempt = sc_seq s + 1, an_question = qn_id q,
               an_selected = chosen_of reponses q, an_is_correct = is_right reponses q\<rparr>) qs"

definition grade ::
  "lesson_env \<Rightarrow> string \<Rightarrow> school \<Rightarrow> enrollment \<Rightarrow> session_state \<Rightarrow> question list \<Rightarrow> (int \<times> int list) list \<Rightarrow> training_error + quiz_result \<times> school" where
  "grade e serial s x st qs reponses =
     (let a = new_attempt e s x st qs reponses;
          s1 = s\<lparr>sc_seq := sc_seq s + 1, sc_attempts := a # sc_attempts s, sc_answers := attempt_answers s x qs reponses @ sc_answers s\<rparr>;
          (cert, s2) = (if at_passed a then (case delivrer_lattestation e serial s1 x st (at_score a) of (c, s') \<Rightarrow> (Some c, s'))
                        else (None, s1))
      in if at_number a \<in> set (map at_number (essais s x)) \<or>
            (at_passed a \<and> attestation_de s x = None \<and>
             list_ex (\<lambda>c. ce_tenant c = en_tenant x \<and> ce_serial c = serial) (sc_certificates s)) then Inl Already_taken
         else Inr (\<lparr>qr_score = at_score a, qr_passed = at_passed a, qr_threshold = se_threshold st, qr_number = at_number a,
                    qr_allowed = se_attempts_allowed st,
                    qr_questions = map (\<lambda>q. (q, is_right reponses q, chosen_of reponses q)) qs,
                    qr_review = ecrans_a_revoir (sc_catalogue s) (filter (\<lambda>q. \<not> is_right reponses q) qs),
                    qr_certificate = cert\<rparr>, s2))"

definition soumettre_le_quiz ::
  "lesson_env \<Rightarrow> string \<Rightarrow> school \<Rightarrow> enrollment \<Rightarrow> (int \<times> int list) list \<Rightarrow> training_error + quiz_result \<times> school" where
  "soumettre_le_quiz e serial s x reponses =
     (let qs = questions_of (sc_catalogue s) (en_version x)
      in if qs = [] then Inl No_quiz
         else rbind (etat_de_session e s x) (\<lambda>st.
           if se_passed st then Inl Already_passed
           else if \<not> se_quiz_unlocked st then Inl Screens_left
           else if se_attempts_allowed st \<le> int (se_attempts_used st) then Inl No_attempt_left
           else (let missing = filter (\<lambda>q. chosen_of reponses q = []) qs
                 in if missing \<noteq> [] then Inl (Unanswered (length missing)) else grade e serial s x st qs reponses)))"

text \<open>The certificate is served to who holds the link of the enrolment.\<close>

definition certificate_view :: "lesson_env \<Rightarrow> school \<Rightarrow> string \<Rightarrow> training_error + course_certificate option \<times> school" where
  "certificate_view e s token = rbind (resoudre_session e s token) (\<lambda>(x, s'). Inr (attestation_de s' x, s'))"

end
