(* ===== verification/Campaigns.thy ===== *)
theory Campaigns
  imports Training "HOL-Library.Char_ord" "HOL-Library.List_Lexorder" "HOL-Library.Product_Lexorder"
begin

text \<open>
  Running a campaign (training/campagnes.py, rapports.py, preuves.py, tasks.py): importing learners, inviting,
  reminding, what the company may read of it, and the proposal to answer a measure of the assessment with its
  figures. The CSV reader, the printed dates and the collation of the database are parameters.
\<close>

section \<open>Data\<close>

record reminder_policy =
  rp_tenant :: int
  rp_enabled :: bool
  rp_mid_course :: bool
  rp_before_due_days :: int
  rp_after_due_days :: int
  rp_updated_by :: "int option"

record reminder_log =
  rl_tenant :: int
  rl_enrollment :: int
  rl_kind :: reminder_kind
  rl_sent_at :: time

record access_log =
  xl_tenant :: int
  xl_actor :: "int option"
  xl_course :: "int option"
  xl_rows :: nat
  xl_created_at :: time

datatype suggestion_status = Pending_suggestion | Accepted_suggestion | Dismissed_suggestion

record suggestion =
  sg_id :: int
  sg_tenant :: int
  sg_course :: int
  sg_referential_slug :: string
  sg_measure_code :: string
  sg_measure_title :: string
  sg_learners_total :: nat
  sg_learners_done :: nat
  sg_participation_rate :: int
  sg_success_rate :: int
  sg_period_start :: date
  sg_period_end :: date
  sg_status :: suggestion_status
  sg_decided_by :: "int option"
  sg_decided_at :: "time option"

record campaign =
  cg_school :: school
  cg_policies :: "reminder_policy list"
  cg_reminders :: "reminder_log list"
  cg_accesses :: "access_log list"
  cg_suggestions :: "suggestion list"
  cg_quiz :: quiz
  cg_box :: box

record campaign_env =
  ce_lesson :: lesson_env
  ce_db :: db
  ce_today :: date
  ce_token :: "nat \<Rightarrow> string"
  ce_coll :: "string \<Rightarrow> nat"
  ce_day :: "date \<Rightarrow> string"
  ce_iso :: "date \<Rightarrow> string"
  ce_csv :: "char \<Rightarrow> string \<Rightarrow> string list list"

section \<open>The pace of the reminders\<close>

definition default_policy :: "int \<Rightarrow> reminder_policy" where
  "default_policy t =
     \<lparr>rp_tenant = t, rp_enabled = True, rp_mid_course = True, rp_before_due_days = 3, rp_after_due_days = 2, rp_updated_by = None\<rparr>"

definition politique :: "campaign \<Rightarrow> int \<Rightarrow> reminder_policy \<times> campaign" where
  "politique g t =
     (case find (\<lambda>p. rp_tenant p = t) (cg_policies g) of
        Some p \<Rightarrow> (p, g)
      | None \<Rightarrow> (default_policy t, g\<lparr>cg_policies := default_policy t # cg_policies g\<rparr>))"

text \<open>\<open>None\<close> is a field left out.\<close>

definition regler_la_politique ::
  "campaign \<Rightarrow> int \<Rightarrow> int option \<Rightarrow> bool option \<Rightarrow> bool option \<Rightarrow> int option \<Rightarrow> int option \<Rightarrow> reminder_policy \<times> campaign" where
  "regler_la_politique g t actor enabled mid bef aft =
     (case politique g t of (p, g1) \<Rightarrow>
        (let keep = (\<lambda>old new. case new of None \<Rightarrow> old | Some v \<Rightarrow> v);
             p' = p\<lparr>rp_enabled := (case enabled of None \<Rightarrow> rp_enabled p | Some b \<Rightarrow> b),
                    rp_mid_course := (case mid of None \<Rightarrow> rp_mid_course p | Some b \<Rightarrow> b),
                    rp_before_due_days := keep (rp_before_due_days p) bef,
                    rp_after_due_days := keep (rp_after_due_days p) aft, rp_updated_by := actor\<rparr>
         in (p', g1\<lparr>cg_policies := upd_where (\<lambda>r. rp_tenant r = t) (\<lambda>r. p') (cg_policies g1)\<rparr>)))"

section \<open>Importing a list\<close>

datatype import_error = Empty_file | No_column

datatype import_line = Created int | Present string | Missing_column nat | Bad_address nat | No_name nat

definition SEPARATEURS :: "char list" where "SEPARATEURS = [CHR '';'', CHR '','', CHR 0x09]"

text \<open>\<open>max(SEPARATEURS, key=premiere.count)\<close>: the first one that is most frequent.\<close>

definition best_separator :: "string \<Rightarrow> char" where
  "best_separator line =
     fold (\<lambda>c best. if count_list line best < count_list line c then c else best) (tl SEPARATEURS) (hd SEPARATEURS)"

definition lignes_du_fichier :: "campaign_env \<Rightarrow> string \<Rightarrow> import_error + string list list" where
  "lignes_du_fichier e contenu =
     (let txt = strip (replace_str [CHR 0x0D, CHR 0x0A] [CHR 0x0A] contenu)
      in if txt = [] then Inl Empty_file
         else (let first = takeWhile (\<lambda>c. c \<noteq> CHR 0x0A) txt; sep = best_separator first
               in if count_list first sep = 0 then Inl No_column else Inr (ce_csv e sep txt)))"

definition after_at :: "string \<Rightarrow> string" where
  "after_at m = rev (takeWhile (\<lambda>c. c \<noteq> CHR 0x40) (rev m))"

definition looks_like_email :: "string \<Rightarrow> bool" where
  "looks_like_email m = (CHR 0x40 \<in> set m \<and> CHR ''.'' \<in> set (after_at m))"

definition is_header :: "string list \<Rightarrow> bool" where
  "is_header cells = (\<exists>c \<in> set cells. lower c \<in> {''nom'', ''name'', ''email'', ''adresse'', ''courriel''})"

fun import_lines :: "int \<Rightarrow> int option \<Rightarrow> nat \<Rightarrow> string list list \<Rightarrow> school \<Rightarrow> import_line list \<times> school" where
  "import_lines t actor n [] s = ([], s)"
| "import_lines t actor n (row # rows) s =
     (let cells = map strip row
      in if list_all (\<lambda>c. c = []) cells then import_lines t actor (n + 1) rows s
         else if n = 1 \<and> is_header cells then import_lines t actor (n + 1) rows s
         else if length cells < 2
           then (case import_lines t actor (n + 1) rows s of (ls, s') \<Rightarrow> (Missing_column n # ls, s'))
         else (let nom = cells ! 0; m = lower (cells ! 1)
               in if \<not> looks_like_email m then (case import_lines t actor (n + 1) rows s of (ls, s') \<Rightarrow> (Bad_address n # ls, s'))
                  else if nom = [] then (case import_lines t actor (n + 1) rows s of (ls, s') \<Rightarrow> (No_name n # ls, s'))
                  else case creer_apprenant s t nom m actor None of
                         Inl e \<Rightarrow> (case import_lines t actor (n + 1) rows s of (ls, s') \<Rightarrow> (Present m # ls, s'))
                       | Inr (l, s1) \<Rightarrow> (case import_lines t actor (n + 1) rows s1 of (ls, s') \<Rightarrow> (Created (ln_id l) # ls, s'))))"

definition importer_des_salaries ::
  "campaign_env \<Rightarrow> school \<Rightarrow> int \<Rightarrow> string \<Rightarrow> int option \<Rightarrow> import_error + import_line list \<times> school" where
  "importer_des_salaries e s t contenu actor =
     rbind (lignes_du_fichier e contenu) (\<lambda>rows. Inr (import_lines t actor 1 rows s))"

section \<open>Inviting and reminding\<close>

definition mail_learner :: "lesson_env \<Rightarrow> school \<Rightarrow> enrollment \<Rightarrow> training_mail \<Rightarrow> training_error + school" where
  "mail_learner e s x m =
     (case learner_of s x of
        None \<Rightarrow> Inl Row_missing
      | Some l \<Rightarrow> if lv_mail_ok e [ln_email l] then Inr (s\<lparr>sc_mails := m # sc_mails s\<rparr>) else Inl Mail_failed)"

text \<open>One transaction: without the mail there is no enrolment.\<close>

definition inscrire_et_inviter ::
  "lesson_env \<Rightarrow> string \<Rightarrow> school \<Rightarrow> int \<Rightarrow> learner \<Rightarrow> course \<Rightarrow> date \<Rightarrow> int option \<Rightarrow> training_error + enrollment \<times> school" where
  "inscrire_et_inviter e token s t l c due actor =
     rbind (inscrire e token s t l c due actor) (\<lambda>(x, s1).
     rbind (mail_learner e s1 x (Invitation_mail (en_id x) (lien_de_session e token))) (\<lambda>s2. Inr (x, s2)))"

definition a_termine :: "school \<Rightarrow> enrollment \<Rightarrow> bool" where
  "a_termine s x = (\<exists>c \<in> set (sc_certificates s). ce_enrollment c = en_id x)"

definition already_sent :: "campaign \<Rightarrow> enrollment \<Rightarrow> reminder_kind set" where
  "already_sent g x = rl_kind ` set (filter (\<lambda>r. rl_enrollment r = en_id x) (cg_reminders g))"

text \<open>The moments of an enrolment, the latest first, each with whether the company wants it.\<close>

definition moments :: "reminder_policy option \<Rightarrow> enrollment \<Rightarrow> (reminder_kind \<times> date \<times> bool) list" where
  "moments p x =
     (let start = date_of (en_created_at x); due = en_due_date x;
          bef = (case p of Some r \<Rightarrow> rp_before_due_days r | None \<Rightarrow> 3);
          aft = (case p of Some r \<Rightarrow> rp_after_due_days r | None \<Rightarrow> 2)
      in [(After, due + aft, 0 < aft), (Before, due - bef, 0 < bef),
          (Mid, start + max 1 ((due - start) div 2), case p of Some r \<Rightarrow> rp_mid_course r | None \<Rightarrow> True)])"

definition reminder_due :: "lesson_env \<Rightarrow> campaign \<Rightarrow> enrollment \<Rightarrow> reminder_kind option" where
  "reminder_due e g x =
     (let p = find (\<lambda>r. rp_tenant r = en_tenant x) (cg_policies g)
      in if (case p of Some r \<Rightarrow> \<not> rp_enabled r | None \<Rightarrow> False) then None
         else if \<not> is_usable e (cg_school g) x then None
         else if a_termine (cg_school g) x then None
         else map_option fst
           (find (\<lambda>(kind, day, wanted). kind \<notin> already_sent g x \<and> wanted \<and> day \<le> date_of (lv_now e)) (moments p x)))"

definition relances_du_jour :: "lesson_env \<Rightarrow> campaign \<Rightarrow> (enrollment \<times> reminder_kind) list" where
  "relances_du_jour e g =
     concat (map (\<lambda>x. case reminder_due e g x of None \<Rightarrow> [] | Some kind \<Rightarrow> [(x, kind)])
       (filter (\<lambda>x. en_revoked_at x = None \<and> learner_active (cg_school g) x) (sc_enrollments (cg_school g))))"

text \<open>
  One reminder: the link is renewed and stored, then the mail leaves, then the journal is written; nothing takes
  back the link when the mail fails. The last component tells whether the loop goes on.
\<close>

definition send_reminder ::
  "lesson_env \<Rightarrow> string \<Rightarrow> campaign \<Rightarrow> enrollment \<Rightarrow> reminder_kind \<Rightarrow> campaign \<times> bool" where
  "send_reminder e token g x kind =
     (case renouveler_le_lien e token (cg_school g) x of
        Inl err \<Rightarrow> (g, False)
      | Inr (x', s1) \<Rightarrow>
          (case mail_learner e s1 x' (Reminder_mail (en_id x) kind (lien_de_session e token)) of
             Inl err \<Rightarrow> (g\<lparr>cg_school := s1\<rparr>, False)
           | Inr s2 \<Rightarrow>
               (g\<lparr>cg_school := s2,
                  cg_reminders := \<lparr>rl_tenant = en_tenant x, rl_enrollment = en_id x, rl_kind = kind, rl_sent_at = lv_now e\<rparr> # cg_reminders g\<rparr>,
                True)))"

fun send_reminders ::
  "lesson_env \<Rightarrow> (nat \<Rightarrow> string) \<Rightarrow> nat \<Rightarrow> (enrollment \<times> reminder_kind) list \<Rightarrow> campaign \<Rightarrow> nat \<times> campaign \<times> bool" where
  "send_reminders e tok n [] g = (n, g, True)"
| "send_reminders e tok n ((x, kind) # rest) g =
     (case send_reminder e (tok n) g x kind of (g', ok) \<Rightarrow>
        if ok then send_reminders e tok (n + 1) rest g' else (n, g', False))"

definition envoyer_les_relances :: "campaign_env \<Rightarrow> campaign \<Rightarrow> nat \<times> campaign \<times> bool" where
  "envoyer_les_relances e g = send_reminders (ce_lesson e) (ce_token e) 0 (relances_du_jour (ce_lesson e) g) g"

definition salaries_sans_inscription :: "school \<Rightarrow> int \<Rightarrow> learner list" where
  "salaries_sans_inscription s t =
     filter (\<lambda>l. ln_tenant l = t \<and> ln_is_active l \<and>
         \<not> (\<exists>x \<in> set (sc_enrollments s). en_tenant x = t \<and> en_revoked_at x = None \<and> en_learner x = ln_id l)) (sc_learners s)"

section \<open>What a company reads\<close>

definition course_id_of :: "school \<Rightarrow> enrollment \<Rightarrow> int option" where
  "course_id_of s x = map_option cv_course (version_of s x)"

definition inscriptions :: "school \<Rightarrow> int \<Rightarrow> int option \<Rightarrow> enrollment list" where
  "inscriptions s t c =
     filter (\<lambda>x. en_tenant x = t \<and> en_revoked_at x = None \<and> (c = None \<or> course_id_of s x = c)) (sc_enrollments s)"

definition pourcent :: "nat \<Rightarrow> nat \<Rightarrow> int" where
  "pourcent part whole = (if whole = 0 then 0 else py_round (of_int (100 * int part) / of_int (int whole)))"

record aggregates =
  sy_learners_total :: nat
  sy_not_started :: int
  sy_in_progress :: nat
  sy_completed :: nat
  sy_participation_rate :: int
  sy_success_rate :: int
  sy_average_score :: "int option"
  sy_attempts_total :: nat

definition commences :: "school \<Rightarrow> int \<Rightarrow> int list \<Rightarrow> int list" where
  "commences s t ids = remdups (filter (\<lambda>i. i \<in> set ids) (map sp_enrollment (filter (\<lambda>p. sp_tenant p = t) (sc_progress s))))"

definition reussis :: "school \<Rightarrow> int \<Rightarrow> int list \<Rightarrow> int list" where
  "reussis s t ids = remdups (filter (\<lambda>i. i \<in> set ids) (map ce_enrollment (filter (\<lambda>c. ce_tenant c = t) (sc_certificates s))))"

definition agregats :: "school \<Rightarrow> int \<Rightarrow> int option \<Rightarrow> aggregates" where
  "agregats s t c =
     (let xs = inscriptions s t c; ids = map en_id xs; whole = length xs; begun = commences s t ids; done' = reussis s t ids;
          tries = filter (\<lambda>a. at_tenant a = t \<and> at_enrollment a \<in> set ids) (sc_attempts s); scores = map at_score tries
      in \<lparr>sy_learners_total = whole, sy_not_started = int whole - int (length begun),
          sy_in_progress = length (filter (\<lambda>i. i \<notin> set done') begun), sy_completed = length done',
          sy_participation_rate = pourcent (length begun) whole, sy_success_rate = pourcent (length done') whole,
          sy_average_score = (if scores = [] then None else Some (py_round (of_int (sum_list scores) / of_int (int (length scores))))),
          sy_attempts_total = length tries\<rparr>)"

record hard_question =
  hq_question :: question
  hq_answers :: nat
  hq_failed :: nat
  hq_rate :: int

definition answer_course :: "school \<Rightarrow> attempt_answer \<Rightarrow> int option" where
  "answer_course s w =
     (case find (\<lambda>a. at_id a = an_attempt w) (sc_attempts s) of
        None \<Rightarrow> None
      | Some a \<Rightarrow> (case find (\<lambda>x. en_id x = at_enrollment a) (sc_enrollments s) of None \<Rightarrow> None | Some x \<Rightarrow> course_id_of s x))"

definition questions_les_plus_ratees :: "school \<Rightarrow> int \<Rightarrow> int option \<Rightarrow> nat \<Rightarrow> hard_question list" where
  "questions_les_plus_ratees s t c limite =
     (let ws = filter (\<lambda>w. an_tenant w = t \<and> (c = None \<or> answer_course s w = c)) (sc_answers s);
          row = (\<lambda>q. let mine = filter (\<lambda>w. an_question w = qn_id q) ws; bad = filter (\<lambda>w. \<not> an_is_correct w) mine
                     in \<lparr>hq_question = q, hq_answers = length mine, hq_failed = length bad, hq_rate = pourcent (length bad) (length mine)\<rparr>)
      in take limite (sort_key (\<lambda>h. (- hq_rate h, - int (hq_answers h)))
           (filter (\<lambda>h. 3 \<le> hq_answers h)
             (map row (sort_key (\<lambda>q. (qn_version q, qn_order q)) (kt_questions (sc_catalogue s)))))))"

record campaign_line =
  cl_course :: int
  cl_due_date :: date
  cl_learners_total :: nat
  cl_participation_rate :: int
  cl_success_rate :: int

definition campaign_keys :: "school \<Rightarrow> int \<Rightarrow> (int \<times> date) list" where
  "campaign_keys s t =
     rev (remdups (rev (concat (map (\<lambda>x. case course_id_of s x of None \<Rightarrow> [] | Some c \<Rightarrow> [(c, en_due_date x)]) (inscriptions s t None)))))"

definition campagnes :: "school \<Rightarrow> int \<Rightarrow> campaign_line list" where
  "campagnes s t =
     sort_key cl_due_date
       (map (\<lambda>(c, due).
          let ids = map en_id (filter (\<lambda>x. course_id_of s x = Some c \<and> en_due_date x = due) (inscriptions s t None));
              begun = length (commences s t ids);
              passed = length (filter (\<lambda>k. ce_tenant k = t \<and> ce_enrollment k \<in> set ids) (sc_certificates s))
          in \<lparr>cl_course = c, cl_due_date = due, cl_learners_total = length ids,
              cl_participation_rate = pourcent begun (length ids), cl_success_rate = pourcent passed (length ids)\<rparr>)
        (campaign_keys s t))"

datatype follow_state = Pas_commence | En_cours | Termine

fun state_rank :: "follow_state \<Rightarrow> nat" where
  "state_rank Pas_commence = 0"
| "state_rank En_cours = 1"
| "state_rank Termine = 2"

text \<open>A line of the nominative follow-up: no score.\<close>

record follow_line =
  fw_enrollment :: int
  fw_full_name :: string
  fw_email :: string
  fw_course_title :: string
  fw_due_date :: date
  fw_state :: follow_state
  fw_overdue :: bool

definition follow_up :: "school \<Rightarrow> date \<Rightarrow> int list \<Rightarrow> int list \<Rightarrow> enrollment \<Rightarrow> follow_line" where
  "follow_up s today begun passed x =
     (let st = (if en_id x \<in> set passed then Termine else if en_id x \<in> set begun then En_cours else Pas_commence)
      in \<lparr>fw_enrollment = en_id x, fw_full_name = (case learner_of s x of Some l \<Rightarrow> ln_full_name l | None \<Rightarrow> []),
          fw_email = (case learner_of s x of Some l \<Rightarrow> ln_email l | None \<Rightarrow> []),
          fw_course_title = (case course_of s x of Some c \<Rightarrow> co_title c | None \<Rightarrow> []), fw_due_date = en_due_date x, fw_state = st,
          fw_overdue = (en_due_date x < today \<and> st \<noteq> Termine)\<rparr>)"

definition suivi_nominatif :: "campaign_env \<Rightarrow> campaign \<Rightarrow> int \<Rightarrow> int option \<Rightarrow> int option \<Rightarrow> follow_line list \<times> campaign" where
  "suivi_nominatif e g t actor c =
     (let s = cg_school g; xs = inscriptions s t c; ids = map en_id xs;
          rows = map (follow_up s (ce_today e) (commences s t ids) (reussis s t ids)) xs;
          g' = g\<lparr>cg_accesses := \<lparr>xl_tenant = t, xl_actor = actor, xl_course = c, xl_rows = length rows,
                                 xl_created_at = lv_now (ce_lesson e)\<rparr> # cg_accesses g\<rparr>
      in (sort_key (\<lambda>w. (state_rank (fw_state w), fw_full_name w)) rows, g'))"

record report =
  rt_course_title :: string
  rt_generated_at :: time
  rt_summary :: aggregates
  rt_hardest :: "hard_question list"
  rt_campaigns :: "campaign_line list"

definition rapport_complet :: "campaign_env \<Rightarrow> school \<Rightarrow> int \<Rightarrow> course option \<Rightarrow> report" where
  "rapport_complet e s t c =
     \<lparr>rt_course_title = (case c of Some k \<Rightarrow> co_title k | None \<Rightarrow> ''Tous les cours''), rt_generated_at = lv_now (ce_lesson e),
      rt_summary = agregats s t (map_option co_id c), rt_hardest = questions_les_plus_ratees s t (map_option co_id c) 5,
      rt_campaigns = campagnes s t\<rparr>"

section \<open>Evidence for the assessment\<close>

definition REFERENTIEL :: string where "REFERENTIEL = ''anssi-hygiene-informatique''"
definition MESURE :: string where "MESURE = ''2''"
definition SEUIL_REUSSITE :: int where "SEUIL_REUSSITE = 80"
definition MINIMUM_SALARIES :: nat where "MINIMUM_SALARIES = 3"

datatype evidence_error = Already_decided | No_assessment | Measure_absent | Answer_refused assessments_error

definition courses_followed :: "campaign_env \<Rightarrow> school \<Rightarrow> int \<Rightarrow> course list" where
  "courses_followed e s t =
     sort_key (ce_coll e \<circ> co_title)
       (filter (\<lambda>c. \<exists>x \<in> set (inscriptions s t None). course_id_of s x = Some (co_id c)) (kt_courses (sc_catalogue s)))"

definition periode :: "school \<Rightarrow> int \<Rightarrow> int \<Rightarrow> date \<times> date" where
  "periode s t c = (let ds = map en_due_date (inscriptions s t (Some c)) in (Min (set ds), Max (set ds)))"

definition campagnes_probantes :: "campaign_env \<Rightarrow> school \<Rightarrow> int \<Rightarrow> (course \<times> aggregates \<times> date \<times> date) list" where
  "campagnes_probantes e s t =
     map (\<lambda>c. (c, agregats s t (Some (co_id c)), periode s t (co_id c)))
       (filter (\<lambda>c. let k = agregats s t (Some (co_id c))
                    in MINIMUM_SALARIES \<le> sy_learners_total k \<and> SEUIL_REUSSITE \<le> sy_success_rate k)
         (courses_followed e s t))"

definition default_measure_title :: string where
  "default_measure_title = ''Sensibiliser les utilisateurs aux bonnes pratiques '' @ [CHR 0xE9] @ ''l'' @ [CHR 0xE9] @ ''mentaires''"

definition titre_de_la_mesure :: "quiz \<Rightarrow> int \<Rightarrow> string" where
  "titre_de_la_mesure q t =
     (case (case get_current_assessment q t None of Some a \<Rightarrow> Some a | None \<Rightarrow> get_latest_completed_assessment q t None) of
        None \<Rightarrow> default_measure_title
      | Some a \<Rightarrow> (case find (\<lambda>m. ms_code m = MESURE) (get_assessment_measures q a) of
                     Some m \<Rightarrow> ms_title m | None \<Rightarrow> default_measure_title))"

text \<open>A proposal that waits or was dismissed is not made again.\<close>

definition proposed :: "campaign \<Rightarrow> int \<Rightarrow> int \<Rightarrow> bool" where
  "proposed g t c =
     (\<exists>x \<in> set (cg_suggestions g). sg_tenant x = t \<and> sg_course x = c \<and> sg_measure_code x = MESURE \<and> sg_status x \<noteq> Accepted_suggestion)"

fun propose_all :: "int \<Rightarrow> (course \<times> aggregates \<times> date \<times> date) list \<Rightarrow> campaign \<Rightarrow> suggestion list \<times> campaign" where
  "propose_all t [] g = ([], g)"
| "propose_all t ((c, k, d1, d2) # rest) g =
     (if proposed g t (co_id c) then propose_all t rest g
      else (let i = sc_seq (cg_school g) + 1;
                x = \<lparr>sg_id = i, sg_tenant = t, sg_course = co_id c, sg_referential_slug = REFERENTIEL, sg_measure_code = MESURE,
                     sg_measure_title = titre_de_la_mesure (cg_quiz g) t, sg_learners_total = sy_learners_total k,
                     sg_learners_done = sy_completed k, sg_participation_rate = sy_participation_rate k,
                     sg_success_rate = sy_success_rate k, sg_period_start = d1, sg_period_end = d2,
                     sg_status = Pending_suggestion, sg_decided_by = None, sg_decided_at = None\<rparr>
            in case propose_all t rest (g\<lparr>cg_school := (cg_school g)\<lparr>sc_seq := i\<rparr>, cg_suggestions := x # cg_suggestions g\<rparr>) of
                 (xs, g') \<Rightarrow> (x # xs, g')))"

definition proposer :: "campaign_env \<Rightarrow> campaign \<Rightarrow> int \<Rightarrow> suggestion list \<times> campaign" where
  "proposer e g t = propose_all t (campagnes_probantes e (cg_school g) t) g"

definition course_title_of :: "campaign \<Rightarrow> int \<Rightarrow> string" where
  "course_title_of g c = (case find (\<lambda>k. co_id k = c) (kt_courses (sc_catalogue (cg_school g))) of Some k \<Rightarrow> co_title k | None \<Rightarrow> [])"

definition texte_de_preuve :: "campaign_env \<Rightarrow> campaign \<Rightarrow> suggestion \<Rightarrow> string" where
  "texte_de_preuve e g x =
     ''Campagne de formation '' @ [CHR 0xAB] @ '' '' @ course_title_of g (sg_course x) @ '' '' @ [CHR 0xBB] @ '', du '' @ ce_day e (sg_period_start x) @ '' au '' @
     ce_day e (sg_period_end x) @ '' : '' @ show_nat (sg_learners_done x) @ '' salari'' @ [CHR 0xE9] @ ''(s) sur '' @ show_nat (sg_learners_total x) @
     '' ont termin'' @ [CHR 0xE9] @ '' ('' @ show_int (sg_participation_rate x) @ '' % de participation, '' @
     show_int (sg_success_rate x) @ '' % de r'' @ [CHR 0xE9] @ ''ussite au questionnaire). Renseign'' @ [CHR 0xE9] @
        '' depuis le module de formation, confirm'' @ [CHR 0xE9] @ '' par un administrateur.''"

definition decide :: "campaign_env \<Rightarrow> campaign \<Rightarrow> suggestion \<Rightarrow> suggestion_status \<Rightarrow> int option \<Rightarrow> suggestion \<times> campaign" where
  "decide e g x st actor =
     (let x' = x\<lparr>sg_status := st, sg_decided_by := actor, sg_decided_at := Some (lv_now (ce_lesson e))\<rparr>
      in (x', g\<lparr>cg_suggestions := upd_where (\<lambda>r. sg_id r = sg_id x) (\<lambda>r. x') (cg_suggestions g)\<rparr>))"

definition confirmer :: "campaign_env \<Rightarrow> campaign \<Rightarrow> suggestion \<Rightarrow> int option \<Rightarrow> evidence_error + suggestion \<times> campaign" where
  "confirmer e g x actor =
     (if sg_status x \<noteq> Pending_suggestion then Inl Already_decided
      else case get_current_assessment (cg_quiz g) (sg_tenant x) None of
             None \<Rightarrow> Inl No_assessment
           | Some a \<Rightarrow>
               (case find (\<lambda>m. ms_code m = MESURE) (get_assessment_measures (cg_quiz g) a) of
                  None \<Rightarrow> Inl Measure_absent
                | Some m \<Rightarrow>
                    (case submit_answer (cg_quiz g) a m Yes (texte_de_preuve e g x) of
                       Inl err \<Rightarrow> Inl (Answer_refused err)
                     | Inr (w, q') \<Rightarrow> Inr (decide e (g\<lparr>cg_quiz := q'\<rparr>) x Accepted_suggestion actor))))"

definition ecarter :: "campaign_env \<Rightarrow> campaign \<Rightarrow> suggestion \<Rightarrow> int option \<Rightarrow> evidence_error + suggestion \<times> campaign" where
  "ecarter e g x actor =
     (if sg_status x \<noteq> Pending_suggestion then Inl Already_decided else Inr (decide e g x Dismissed_suggestion actor))"

definition en_attente :: "campaign \<Rightarrow> int \<Rightarrow> suggestion list" where
  "en_attente g t = filter (\<lambda>x. sg_tenant x = t \<and> sg_status x = Pending_suggestion) (cg_suggestions g)"

section \<open>The nightly tasks\<close>

definition SEUIL_PARTICIPATION_FAIBLE :: int where "SEUIL_PARTICIPATION_FAIBLE = 50"

definition clients_actifs :: "db \<Rightarrow> int list" where
  "clients_actifs d = map te_id (filter (\<lambda>t. te_is_active t \<and> te_archived_at t = None) (d_tenants d))"

definition evidence_notice :: "campaign \<Rightarrow> suggestion \<Rightarrow> notice" where
  "evidence_notice g x =
     \<lparr>nc_kind = Training_measure_suggested,
      nc_title = ''Une formation peut renseigner votre diagnostic'',
      nc_body = ''La campagne '' @ [CHR 0xAB] @ '' '' @ course_title_of g (sg_course x) @ '' '' @ [CHR 0xBB] @ '' atteint '' @ show_int (sg_participation_rate x) @
        '' % de participation et '' @ show_int (sg_success_rate x) @
        '' % de r'' @ [CHR 0xE9] @ ''ussite. Elle peut servir de preuve pour la mesure '' @ [CHR 0xAB] @ '' '' @ sg_measure_title x @ '' '' @ [CHR 0xBB] @ ''. '' @ [CHR 0xC0] @ '' confirmer.'',
      nc_link = ''/formation'', nc_dedupe_key = ''preuve:'' @ show_int (sg_id x)\<rparr>"

fun notify_evidence :: "campaign_env \<Rightarrow> int \<Rightarrow> suggestion list \<Rightarrow> campaign \<Rightarrow> campaign" where
  "notify_evidence e t [] g = g"
| "notify_evidence e t (x # xs) g =
     notify_evidence e t xs
       (g\<lparr>cg_box := snd (notify_tenant_admins (lv_now (ce_lesson e)) (ce_db e) (cg_box g) t (evidence_notice g x))\<rparr>)"

fun propose_for :: "campaign_env \<Rightarrow> int list \<Rightarrow> nat \<Rightarrow> campaign \<Rightarrow> nat \<times> campaign" where
  "propose_for e [] n g = (n, g)"
| "propose_for e (t # ts) n g =
     (case proposer e g t of (xs, g1) \<Rightarrow> propose_for e ts (n + length xs) (notify_evidence e t xs g1))"

definition proposer_les_preuves :: "campaign_env \<Rightarrow> campaign \<Rightarrow> nat \<times> campaign" where
  "proposer_les_preuves e g = propose_for e (clients_actifs (ce_db e)) 0 g"

text \<open>What a campaign says to the administrators: at most one of three things.\<close>

definition campaign_notice :: "campaign_env \<Rightarrow> campaign \<Rightarrow> campaign_line \<Rightarrow> notice option" where
  "campaign_notice e g w =
     (let key = show_int (cl_course w) @ '':'' @ ce_iso e (cl_due_date w); title = course_title_of g (cl_course w)
      in if cl_success_rate w = 100
         then Some \<lparr>nc_kind = Training_campaign_done, nc_title = ''Formation termin'' @ [CHR 0xE9] @ ''e par tous : '' @ title,
                nc_body = ''Les '' @ show_nat (cl_learners_total w) @ '' salari'' @ [CHR 0xE9] @ ''s inscrits ont termin'' @ [CHR 0xE9] @ '' '' @
                  quoted title @ ''.'', nc_link = ''/formation'', nc_dedupe_key = ''campagne-finie:'' @ key\<rparr>
         else if cl_due_date w < ce_today e
         then Some \<lparr>nc_kind = Training_due_passed, nc_title = [CHR 0xC9] @ ''ch'' @ [CHR 0xE9] @ ''ance d'' @ [CHR 0xE9] @ ''pass'' @ [CHR 0xE9] @ ''e : '' @ title,
                nc_body = ''L'' @ [CHR 0x27] @ [CHR 0xE9] @ ''ch'' @ [CHR 0xE9] @ ''ance du '' @ ce_day e (cl_due_date w) @ '' est pass'' @ [CHR 0xE9] @ ''e et '' @
                  show_int (cl_success_rate w) @ '' % des salari'' @ [CHR 0xE9] @ ''s ont termin'' @ [CHR 0xE9] @ ''.'',
                nc_link = ''/formation'', nc_dedupe_key = ''echeance:'' @ key\<rparr>
         else if cl_participation_rate w < SEUIL_PARTICIPATION_FAIBLE
         then Some \<lparr>nc_kind = Training_low_participation, nc_title = ''Participation faible : '' @ title,
                nc_body = show_int (cl_participation_rate w) @ '' % des salari'' @ [CHR 0xE9] @ ''s ont commenc'' @ [CHR 0xE9] @ '', pour une '' @ [CHR 0xE9] @ ''ch'' @
                  [CHR 0xE9] @ ''ance au '' @
                  ce_day e (cl_due_date w) @ ''.'', nc_link = ''/formation'', nc_dedupe_key = ''participation:'' @ key\<rparr>
         else None)"

fun watch_lines :: "campaign_env \<Rightarrow> int \<Rightarrow> campaign_line list \<Rightarrow> int \<Rightarrow> campaign \<Rightarrow> int \<times> campaign" where
  "watch_lines e t [] n g = (n, g)"
| "watch_lines e t (w # ws) n g =
     (case campaign_notice e g w of
        None \<Rightarrow> watch_lines e t ws n g
      | Some nt \<Rightarrow>
          (case notify_tenant_admins (lv_now (ce_lesson e)) (ce_db e) (cg_box g) t nt of (k, b) \<Rightarrow>
             watch_lines e t ws (n + k) (g\<lparr>cg_box := b\<rparr>)))"

fun watch_for :: "campaign_env \<Rightarrow> int list \<Rightarrow> int \<Rightarrow> campaign \<Rightarrow> int \<times> campaign" where
  "watch_for e [] n g = (n, g)"
| "watch_for e (t # ts) n g =
     (case watch_lines e t (campagnes (cg_school g) t) n g of (n', g') \<Rightarrow> watch_for e ts n' g')"

definition surveiller_les_campagnes :: "campaign_env \<Rightarrow> campaign \<Rightarrow> int \<times> campaign" where
  "surveiller_les_campagnes e g = watch_for e (clients_actifs (ce_db e)) 0 g"

text \<open>The detailed results go after the months of retention, the certificates stay.\<close>

definition purger_les_resultats :: "time \<Rightarrow> int \<Rightarrow> school \<Rightarrow> nat \<times> school" where
  "purger_les_resultats now months s =
     (let old = filter (\<lambda>a. at_submitted_at a < now - days (months * 30)) (sc_attempts s)
      in (length old, s\<lparr>sc_attempts := filter (\<lambda>a. \<not> at_submitted_at a < now - days (months * 30)) (sc_attempts s),
                        sc_answers := filter (\<lambda>w. an_attempt w \<notin> at_id ` set old) (sc_answers s)\<rparr>))"

end
