(* ===== verification/Lessons.thy ===== *)
theory Lessons
  imports Campaigns
begin

text \<open>
  The requests of the training module (training/views.py, campagne_views.py, permissions.py, serializers.py): the
  learner, whom the link alone authorises, and the members of a company who run the campaigns. Whether an
  address is well formed is a parameter; the text of the answers and the printing of a PDF are left out.
\<close>

section \<open>The learner\<close>

datatype learner_request =
    Read_session
  | Finish_screen int
  | Submit_quiz "(int \<times> int list) list"
  | Read_certificate
  | Ask_access

datatype learner_reply =
    Too_many_requests
  | Link_dead
  | State_of session_state
  | Screen_refused
  | Bad_answers
  | Graded quiz_result
  | Quiz_refused training_error
  | Certificate_of course_certificate
  | No_certificate
  | Access_transmitted
  | Server_error training_error

fun quiz_refus :: "training_error \<Rightarrow> bool" where
  "quiz_refus No_quiz = True"
| "quiz_refus Already_passed = True"
| "quiz_refus Screens_left = True"
| "quiz_refus No_attempt_left = True"
| "quiz_refus (Unanswered n) = True"
| "quiz_refus err = False"

definition valid_answers :: "(int \<times> int list) list \<Rightarrow> bool" where
  "valid_answers reponses = (reponses \<noteq> [] \<and> list_all (\<lambda>r. snd r \<noteq> []) reponses)"

definition session_view :: "lesson_env \<Rightarrow> enrollment \<Rightarrow> school \<Rightarrow> learner_reply \<times> school" where
  "session_view e x s = ((case etat_de_session e s x of Inl err \<Rightarrow> Server_error err | Inr st \<Rightarrow> State_of st), s)"

definition screen_done_view :: "lesson_env \<Rightarrow> enrollment \<Rightarrow> int \<Rightarrow> school \<Rightarrow> learner_reply \<times> school" where
  "screen_done_view e x i s =
     (case marquer_ecran_vu e s x i of
        (r, s') \<Rightarrow> ((case r of Inl Screen_of_another_course \<Rightarrow> Screen_refused | Inl err \<Rightarrow> Server_error err | Inr st \<Rightarrow> State_of st), s'))"

definition quiz_view :: "lesson_env \<Rightarrow> string \<Rightarrow> enrollment \<Rightarrow> (int \<times> int list) list \<Rightarrow> school \<Rightarrow> learner_reply \<times> school" where
  "quiz_view e serial x reponses s =
     (if \<not> valid_answers reponses then (Bad_answers, s)
      else case soumettre_le_quiz e serial s x reponses of
             Inl err \<Rightarrow> (if quiz_refus err then Quiz_refused err else Server_error err, s)
           | Inr (r, s') \<Rightarrow> (Graded r, s'))"

definition access_request_view :: "lesson_env \<Rightarrow> db \<Rightarrow> string \<Rightarrow> school \<Rightarrow> learner_reply \<times> school" where
  "access_request_view e d token s =
     (case demander_un_acces e d s token of
        Inl Session_not_found \<Rightarrow> (Link_dead, s)
      | Inl err \<Rightarrow> (Server_error err, s)
      | Inr (b, s') \<Rightarrow> (Access_transmitted, s'))"

text \<open>
  \<open>VueApprenant\<close>: anyone may ask, as often as \<open>SessionFormationThrottle\<close> lets through (\<open>throttled\<close> is its
  refusal); past it the token names the enrolment, whatever the request.
\<close>

definition learner_call ::
  "lesson_env \<Rightarrow> db \<Rightarrow> bool \<Rightarrow> string \<Rightarrow> string \<Rightarrow> learner_request \<Rightarrow> school \<Rightarrow> learner_reply \<times> school" where
  "learner_call e d throttled serial token rq s =
     (if throttled then (Too_many_requests, s)
      else if rq = Ask_access then access_request_view e d token s
      else case resoudre_session e s token of
             Inl err \<Rightarrow> (Link_dead, s)
           | Inr (x, s1) \<Rightarrow>
               (case rq of
                  Finish_screen i \<Rightarrow> screen_done_view e x i s1
                | Submit_quiz reponses \<Rightarrow> quiz_view e serial x reponses s1
                | Read_certificate \<Rightarrow>
                    ((case attestation_de s1 x of None \<Rightarrow> No_certificate | Some c \<Rightarrow> Certificate_of c), s1)
                | _ \<Rightarrow> session_view e x s1))"

section \<open>Running a campaign\<close>

datatype pilot_request =
    List_courses
  | List_learners
  | Add_learner string string
  | List_enrollments
  | Enroll int string date
  | Revoke int
  | Renew int
  | Grant int int
  | Read_policy
  | Set_policy "bool option" "bool option" "int option" "int option"
  | Import string
  | Read_report "string option"
  | Follow_up "string option"
  | List_suggestions
  | Confirm int
  | Dismiss int

fun method_of :: "pilot_request \<Rightarrow> string" where
  "method_of List_courses = ''GET''"
| "method_of List_learners = ''GET''"
| "method_of (Add_learner n m) = ''POST''"
| "method_of List_enrollments = ''GET''"
| "method_of (Enroll l c due) = ''POST''"
| "method_of (Revoke i) = ''DELETE''"
| "method_of (Renew i) = ''POST''"
| "method_of (Grant i n) = ''POST''"
| "method_of Read_policy = ''GET''"
| "method_of (Set_policy a b c f) = ''PUT''"
| "method_of (Import x) = ''POST''"
| "method_of (Read_report c) = ''GET''"
| "method_of (Follow_up c) = ''GET''"
| "method_of List_suggestions = ''GET''"
| "method_of (Confirm i) = ''POST''"
| "method_of (Dismiss i) = ''DELETE''"

text \<open>\<open>IsTenantAdminForWrites\<close>, and \<open>IsTenantAdmin\<close> on the nominative list and on the decision about a proposal.\<close>

definition admin_for_writes :: "string \<Rightarrow> membership option \<Rightarrow> bool" where
  "admin_for_writes verb m =
     (case m of None \<Rightarrow> False | Some x \<Rightarrow> verb \<in> set SAFE_METHODS \<or> me_role x = Admin)"

fun permitted :: "pilot_request \<Rightarrow> membership option \<Rightarrow> bool" where
  "permitted (Follow_up c) m = is_tenant_admin m"
| "permitted (Confirm i) m = is_tenant_admin m"
| "permitted (Dismiss i) m = is_tenant_admin m"
| "permitted rq m = admin_for_writes (method_of rq) m"

fun needs_feature :: "pilot_request \<Rightarrow> bool" where
  "needs_feature (Add_learner n m) = True"
| "needs_feature (Enroll l c due) = True"
| "needs_feature (Renew i) = True"
| "needs_feature (Grant i n) = True"
| "needs_feature (Set_policy a b c f) = True"
| "needs_feature (Import x) = True"
| "needs_feature (Confirm i) = True"
| "needs_feature rq = False"

definition in_bounds :: "int \<Rightarrow> int \<Rightarrow> int option \<Rightarrow> bool" where
  "in_bounds low high n = (case n of None \<Rightarrow> True | Some k \<Rightarrow> low \<le> k \<and> k \<le> high)"

text \<open>The serializers: the form of a request, \<open>email_ok\<close> being the form of an address.\<close>

fun well_formed :: "(string \<Rightarrow> bool) \<Rightarrow> pilot_request \<Rightarrow> bool" where
  "well_formed email_ok (Add_learner n m) = (strip n \<noteq> [] \<and> length (strip n) \<le> 150 \<and> email_ok m)"
| "well_formed email_ok (Set_policy a b c f) = (in_bounds 0 15 c \<and> in_bounds 0 7 f)"
| "well_formed email_ok (Import x) = (strip x \<noteq> [] \<and> length (strip x) \<le> 200000)"
| "well_formed email_ok rq = True"

record enrollment_view =
  ev_id :: int
  ev_learner :: int
  ev_full_name :: string
  ev_email :: string
  ev_course_title :: string
  ev_version :: int
  ev_due_date :: date
  ev_expires_at :: time
  ev_first_opened_at :: "time option"
  ev_revoked_at :: "time option"
  ev_attempts_allowed :: int
  ev_serial :: string
  ev_passed :: bool
  ev_link :: "string option"

text \<open>The link appears in the answer that issues it, nowhere else.\<close>

definition inscription_en_clair :: "lesson_env \<Rightarrow> school \<Rightarrow> enrollment \<Rightarrow> string option \<Rightarrow> enrollment_view" where
  "inscription_en_clair e s x link =
     (let cert = find (\<lambda>c. ce_enrollment c = en_id x) (sc_certificates s)
      in \<lparr>ev_id = en_id x, ev_learner = en_learner x,
          ev_full_name = (case learner_of s x of Some l \<Rightarrow> ln_full_name l | None \<Rightarrow> []),
          ev_email = (case learner_of s x of Some l \<Rightarrow> ln_email l | None \<Rightarrow> []),
          ev_course_title = (case course_of s x of Some c \<Rightarrow> co_title c | None \<Rightarrow> []),
          ev_version = (case version_of s x of Some v \<Rightarrow> cv_number v | None \<Rightarrow> 0),
          ev_due_date = en_due_date x, ev_expires_at = expires_at e x, ev_first_opened_at = en_first_opened_at x,
          ev_revoked_at = en_revoked_at x, ev_attempts_allowed = attempts_allowed s x,
          ev_serial = (case cert of Some c \<Rightarrow> ce_serial c | None \<Rightarrow> []), ev_passed = (cert \<noteq> None), ev_link = link\<rparr>)"

record offered_course =
  oc_slug :: string
  oc_title :: string
  oc_summary :: string
  oc_minutes :: int
  oc_threshold :: int
  oc_attempts :: int
  oc_screens :: nat
  oc_questions :: nat

definition offered :: "catalogue \<Rightarrow> course \<Rightarrow> offered_course list" where
  "offered k c =
     (case published_version k (co_id c) of
        None \<Rightarrow> []
      | Some v \<Rightarrow>
          [\<lparr>oc_slug = co_slug c, oc_title = co_title c, oc_summary = co_summary c, oc_minutes = estimated_minutes k (cv_id v),
            oc_threshold = cv_pass_threshold v, oc_attempts = cv_max_attempts v, oc_screens = length (screens_of k (cv_id v)),
            oc_questions = length (questions_of k (cv_id v))\<rparr>])"

datatype pilot_refusal =
    Denied
  | Offer_lacks entitlement_error
  | Malformed
  | Unknown_row
  | Refusal training_error
  | Import_refusal import_error
  | Evidence_refusal evidence_error

datatype pilot_reply =
    Courses "offered_course list"
  | Learners "learner list"
  | Learner_created learner
  | Enrollments "enrollment_view list"
  | One_enrollment enrollment_view
  | Policy reminder_policy
  | Imported "import_line list"
  | Report_of report
  | Follow_list "follow_line list"
  | Suggestions "(suggestion \<times> string) list"
  | One_suggestion suggestion string

definition on_school ::
  "campaign \<Rightarrow> ('a \<Rightarrow> school \<Rightarrow> pilot_reply) \<Rightarrow> training_error + 'a \<times> school \<Rightarrow> (pilot_refusal + pilot_reply) \<times> campaign" where
  "on_school g reply r =
     (case r of Inl err \<Rightarrow> (Inl (Refusal err), g) | Inr (x, s) \<Rightarrow> (Inr (reply x s), g\<lparr>cg_school := s\<rparr>))"

definition on_enrollment ::
  "campaign \<Rightarrow> int \<Rightarrow> int \<Rightarrow> (enrollment \<Rightarrow> (pilot_refusal + pilot_reply) \<times> campaign) \<Rightarrow> (pilot_refusal + pilot_reply) \<times> campaign" where
  "on_enrollment g t i k =
     (case find (\<lambda>x. en_tenant x = t \<and> en_id x = i) (sc_enrollments (cg_school g)) of None \<Rightarrow> (Inl Unknown_row, g) | Some x \<Rightarrow> k x)"

definition on_course ::
  "campaign \<Rightarrow> string option \<Rightarrow> (course option \<Rightarrow> (pilot_refusal + pilot_reply) \<times> campaign) \<Rightarrow> (pilot_refusal + pilot_reply) \<times> campaign" where
  "on_course g slug k =
     (case slug of
        None \<Rightarrow> k None
      | Some w \<Rightarrow>
          if w = [] then k None
          else (case find (\<lambda>c. co_slug c = w) (kt_courses (sc_catalogue (cg_school g))) of
                  None \<Rightarrow> (Inl Unknown_row, g) | Some c \<Rightarrow> k (Some c)))"

definition on_suggestion ::
  "campaign_env \<Rightarrow> campaign \<Rightarrow> int \<Rightarrow> int \<Rightarrow> (suggestion \<Rightarrow> evidence_error + suggestion \<times> campaign) \<Rightarrow> (pilot_refusal + pilot_reply) \<times> campaign" where
  "on_suggestion e g t i k =
     (case find (\<lambda>x. sg_tenant x = t \<and> sg_id x = i) (cg_suggestions g) of
        None \<Rightarrow> (Inl Unknown_row, g)
      | Some x \<Rightarrow>
          (case k x of
             Inl err \<Rightarrow> (Inl (Evidence_refusal err), g)
           | Inr (x', g') \<Rightarrow> (Inr (One_suggestion x' (texte_de_preuve e g' x')), g')))"

text \<open>
  The views of campagne_views.py: the nominative follow-up and the proposals for the assessment, then the pace of the
  reminders, the import and the report.
\<close>

definition evidence_view ::
  "campaign_env \<Rightarrow> int \<Rightarrow> int option \<Rightarrow> pilot_request \<Rightarrow> campaign \<Rightarrow> (pilot_refusal + pilot_reply) \<times> campaign" where
  "evidence_view e t actor rq g =
     (case rq of
        Follow_up slug \<Rightarrow>
          on_course g slug (\<lambda>c. case suivi_nominatif e g t actor (map_option co_id c) of (ls, g') \<Rightarrow> (Inr (Follow_list ls), g'))
      | List_suggestions \<Rightarrow> (Inr (Suggestions (map (\<lambda>x. (x, texte_de_preuve e g x)) (en_attente g t))), g)
      | Confirm i \<Rightarrow> on_suggestion e g t i (\<lambda>x. confirmer e g x actor)
      | Dismiss i \<Rightarrow> on_suggestion e g t i (\<lambda>x. ecarter e g x actor)
      | _ \<Rightarrow> (Inl Unknown_row, g))"

definition campaign_view ::
  "campaign_env \<Rightarrow> int \<Rightarrow> int option \<Rightarrow> pilot_request \<Rightarrow> campaign \<Rightarrow> (pilot_refusal + pilot_reply) \<times> campaign" where
  "campaign_view e t actor rq g =
     (let s = cg_school g
      in case rq of
        Read_policy \<Rightarrow> (case politique g t of (p, g') \<Rightarrow> (Inr (Policy p), g'))
      | Set_policy on mid bef aft \<Rightarrow> (case regler_la_politique g t actor on mid bef aft of (p, g') \<Rightarrow> (Inr (Policy p), g'))
      | Import x \<Rightarrow>
          (case importer_des_salaries e s t (strip x) actor of
             Inl err \<Rightarrow> (Inl (Import_refusal err), g) | Inr (ls, s') \<Rightarrow> (Inr (Imported ls), g\<lparr>cg_school := s'\<rparr>))
      | Read_report slug \<Rightarrow> on_course g slug (\<lambda>c. (Inr (Report_of (rapport_complet e s t c)), g))
      | _ \<Rightarrow> evidence_view e t actor rq g)"

text \<open>Past the permission, the offer and (the grant apart, whose row is looked for first) the form.\<close>

definition handle ::
  "campaign_env \<Rightarrow> string \<Rightarrow> int \<Rightarrow> int option \<Rightarrow> pilot_request \<Rightarrow> campaign \<Rightarrow> (pilot_refusal + pilot_reply) \<times> campaign" where
  "handle e token t actor rq g =
     (let le = ce_lesson e; s = cg_school g; view = (\<lambda>x s'. One_enrollment (inscription_en_clair le s' x None));
          issued = (\<lambda>x s'. One_enrollment (inscription_en_clair le s' x (Some (lien_de_session le token))))
      in case rq of
        List_courses \<Rightarrow> (Inr (Courses (concat (map (offered (sc_catalogue s)) (cours_attribues (ce_coll e) s t)))), g)
      | List_learners \<Rightarrow>
          (Inr (Learners (sort_key (ce_coll e \<circ> ln_full_name) (filter (\<lambda>l. ln_tenant l = t) (sc_learners s)))), g)
      | Add_learner n m \<Rightarrow> on_school g (\<lambda>l s'. Learner_created l) (creer_apprenant s t n m actor None)
      | List_enrollments \<Rightarrow>
          (Inr (Enrollments (map (\<lambda>x. inscription_en_clair le s x None) (filter (\<lambda>x. en_tenant x = t) (sc_enrollments s)))), g)
      | Enroll l slug due \<Rightarrow>
          (case find (\<lambda>x. ln_tenant x = t \<and> ln_id x = l) (sc_learners s) of
             None \<Rightarrow> (Inl Unknown_row, g)
           | Some lr \<Rightarrow>
               (case find (\<lambda>c. co_slug c = slug) (kt_courses (sc_catalogue s)) of
                  None \<Rightarrow> (Inl Unknown_row, g)
                | Some c \<Rightarrow> on_school g issued (inscrire_et_inviter le token s t lr c due actor)))
      | Revoke i \<Rightarrow> on_enrollment g t i (\<lambda>x. on_school g view (Inr (revoquer le s x actor)))
      | Renew i \<Rightarrow> on_enrollment g t i (\<lambda>x. on_school g issued (renouveler_le_lien le token s x))
      | Grant i n \<Rightarrow> on_enrollment g t i (\<lambda>x. if in_bounds 1 5 (Some n) then on_school g view (accorder_des_essais le s x n actor) else (Inl Malformed, g))
      | _ \<Rightarrow> campaign_view e t actor rq g)"

definition pilot_call ::
  "campaign_env \<Rightarrow> (string \<Rightarrow> bool) \<Rightarrow> membership option \<Rightarrow> string \<Rightarrow> pilot_request \<Rightarrow> campaign \<Rightarrow> (pilot_refusal + pilot_reply) \<times> campaign" where
  "pilot_call e email_ok m token rq g =
     (case m of
        None \<Rightarrow> (Inl Denied, g)
      | Some mb \<Rightarrow>
          if \<not> permitted rq m then (Inl Denied, g)
          else case (if needs_feature rq then ensure_feature (ce_db e) (me_tenant mb) TRAINING else Inr ()) of
                 Inl err \<Rightarrow> (Inl (Offer_lacks err), g)
               | Inr u \<Rightarrow>
                   if \<not> well_formed email_ok rq then (Inl Malformed, g)
                   else handle e token (me_tenant mb) (Some (me_user mb)) rq g)"

end
