(* ===== verification/TrainingSafety.thy ===== *)
theory TrainingSafety
  imports Lessons StudioSafety Uniqueness
begin

text \<open>
  What the training module keeps, whoever asks and whatever the night does: the links and the enrolments stay
  unique, a certificate is earned, the figures of a company add up.
\<close>

section \<open>A sound school\<close>

definition mark :: "enrollment \<Rightarrow> int \<times> int \<times> int" where
  "mark x = (en_id x, en_tenant x, en_version x)"

definition person :: "enrollment \<Rightarrow> int \<times> int \<times> int" where
  "person x = (en_tenant x, en_learner x, en_version x)"

definition alive :: "enrollment \<Rightarrow> bool" where
  "alive x = (en_revoked_at x = None)"

definition address :: "learner \<Rightarrow> int \<times> string" where
  "address l = (ln_tenant l, ln_email l)"

definition try_key :: "attempt \<Rightarrow> int \<times> int" where
  "try_key a = (at_enrollment a, at_number a)"

definition people_ok :: "school \<Rightarrow> bool" where
  "people_ok s \<longleftrightarrow>
     distinct (map en_id (sc_enrollments s)) \<and> (\<forall>x \<in> set (sc_enrollments s). en_id x \<le> sc_seq s) \<and>
     distinct (map en_token_hash (sc_enrollments s)) \<and> at_most_one alive person (sc_enrollments s) \<and>
     distinct (map ln_id (sc_learners s)) \<and> (\<forall>l \<in> set (sc_learners s). ln_id l \<le> sc_seq s) \<and>
     distinct (map address (sc_learners s))"

definition seen :: "school \<Rightarrow> int \<Rightarrow> int \<Rightarrow> int \<Rightarrow> bool" where
  "seen s t i r \<longleftrightarrow> (\<exists>p \<in> set (sc_progress s). sp_tenant p = t \<and> sp_enrollment p = i \<and> sp_screen p = r)"

text \<open>The enrolment of the certificate exists, every screen of its version was seen, the score reaches the threshold.\<close>

definition earned :: "school \<Rightarrow> course_certificate \<Rightarrow> bool" where
  "earned s c \<longleftrightarrow>
     (\<exists>v \<in> set (kt_versions (sc_catalogue s)).
        (ce_enrollment c, ce_tenant c, cv_id v) \<in> mark ` set (sc_enrollments s) \<and> cv_published_at v \<noteq> None \<and>
        cv_pass_threshold v \<le> ce_score c \<and> screens_of (sc_catalogue s) (cv_id v) \<noteq> [] \<and>
        (\<forall>r \<in> set (screens_of (sc_catalogue s) (cv_id v)). seen s (ce_tenant c) (ce_enrollment c) (sn_id r)))"

definition followed :: "school \<Rightarrow> screen_progress \<Rightarrow> bool" where
  "followed s p \<longleftrightarrow>
     (\<exists>v \<in> set (kt_versions (sc_catalogue s)).
        (sp_enrollment p, sp_tenant p, cv_id v) \<in> mark ` set (sc_enrollments s) \<and> cv_published_at v \<noteq> None \<and>
        sp_screen p \<in> sn_id ` set (screens_of (sc_catalogue s) (cv_id v)))"

lemma earnedE:
  assumes "earned s c"
  obtains v where "v \<in> set (kt_versions (sc_catalogue s))" "(ce_enrollment c, ce_tenant c, cv_id v) \<in> mark ` set (sc_enrollments s)"
    "cv_published_at v \<noteq> None" "cv_pass_threshold v \<le> ce_score c" "screens_of (sc_catalogue s) (cv_id v) \<noteq> []"
    "\<forall>r \<in> set (screens_of (sc_catalogue s) (cv_id v)). seen s (ce_tenant c) (ce_enrollment c) (sn_id r)"
  using assms by (auto simp: earned_def)

lemma earnedI:
  "v \<in> set (kt_versions (sc_catalogue s)) \<Longrightarrow> (ce_enrollment c, ce_tenant c, cv_id v) \<in> mark ` set (sc_enrollments s) \<Longrightarrow>
   cv_published_at v \<noteq> None \<Longrightarrow> cv_pass_threshold v \<le> ce_score c \<Longrightarrow> screens_of (sc_catalogue s) (cv_id v) \<noteq> [] \<Longrightarrow>
   \<forall>r \<in> set (screens_of (sc_catalogue s) (cv_id v)). seen s (ce_tenant c) (ce_enrollment c) (sn_id r) \<Longrightarrow> earned s c"
  unfolding earned_def by (rule bexI [of _ v]) simp_all

lemma followedE:
  assumes "followed s p"
  obtains v where "v \<in> set (kt_versions (sc_catalogue s))" "(sp_enrollment p, sp_tenant p, cv_id v) \<in> mark ` set (sc_enrollments s)"
    "cv_published_at v \<noteq> None" "sp_screen p \<in> sn_id ` set (screens_of (sc_catalogue s) (cv_id v))"
  using assms by (auto simp: followed_def)

lemma followedI:
  "v \<in> set (kt_versions (sc_catalogue s)) \<Longrightarrow> (sp_enrollment p, sp_tenant p, cv_id v) \<in> mark ` set (sc_enrollments s) \<Longrightarrow>
   cv_published_at v \<noteq> None \<Longrightarrow> sp_screen p \<in> sn_id ` set (screens_of (sc_catalogue s) (cv_id v)) \<Longrightarrow> followed s p"
  unfolding followed_def by (rule bexI [of _ v]) simp_all

definition on_published :: "school \<Rightarrow> enrollment \<Rightarrow> bool" where
  "on_published s x \<longleftrightarrow> (\<exists>v \<in> set (kt_versions (sc_catalogue s)). cv_id v = en_version x \<and> cv_published_at v \<noteq> None)"

definition belongs :: "school \<Rightarrow> attempt \<Rightarrow> bool" where
  "belongs s a \<longleftrightarrow> (\<exists>m \<in> mark ` set (sc_enrollments s). fst m = at_enrollment a \<and> fst (snd m) = at_tenant a)"

definition trace_ok :: "school \<Rightarrow> bool" where
  "trace_ok s \<longleftrightarrow>
     (\<forall>x \<in> set (sc_enrollments s). on_published s x) \<and> (\<forall>p \<in> set (sc_progress s). followed s p) \<and>
     (\<forall>c \<in> set (sc_certificates s). earned s c) \<and> distinct (map ce_enrollment (sc_certificates s)) \<and>
     (\<forall>a \<in> set (sc_attempts s). belongs s a) \<and> distinct (map try_key (sc_attempts s))"

definition school_ok :: "school \<Rightarrow> bool" where
  "school_ok s \<longleftrightarrow> studio_ok (sc_catalogue s) \<and> people_ok s \<and> trace_ok s"

section \<open>The steps of a school\<close>

definition same_row :: "enrollment \<Rightarrow> enrollment \<Rightarrow> bool" where
  "same_row x x' \<longleftrightarrow> mark x' = mark x \<and> person x' = person x \<and> (alive x' \<longrightarrow> alive x) \<and> en_due_date x' = en_due_date x"

definition hashes :: "school \<Rightarrow> string set" where
  "hashes s = en_token_hash ` set (sc_enrollments s)"

inductive school_step :: "school \<Rightarrow> school \<Rightarrow> bool" where
  aside: "sc_seq s \<le> n \<Longrightarrow>
    school_step s (s\<lparr>sc_seq := n, sc_assignments := as, sc_attempts := filter keep (sc_attempts s), sc_answers := ws, sc_mails := ms\<rparr>)"
| edited: "x \<in> set (sc_enrollments s) \<Longrightarrow> same_row x x' \<Longrightarrow>
    en_token_hash x' = en_token_hash x \<or> en_token_hash x' \<notin> hashes s \<Longrightarrow> school_step s (put_enrollment x' s)"
| enrolled: "en_id x = sc_seq s + 1 \<Longrightarrow> en_token_hash x \<notin> hashes s \<Longrightarrow> on_published s x \<Longrightarrow>
    (\<And>y. y \<in> set (sc_enrollments s) \<Longrightarrow> alive y \<Longrightarrow> person y \<noteq> person x) \<Longrightarrow>
    school_step s (s\<lparr>sc_seq := sc_seq s + 1, sc_enrollments := x # sc_enrollments s\<rparr>)"
| declared: "ln_id l = sc_seq s + 1 \<Longrightarrow> address l \<notin> address ` set (sc_learners s) \<Longrightarrow>
    school_step s (s\<lparr>sc_seq := sc_seq s + 1, sc_learners := l # sc_learners s\<rparr>)"
| looked: "followed s p \<Longrightarrow> school_step s (s\<lparr>sc_progress := p # sc_progress s\<rparr>)"
| graded: "belongs s a \<Longrightarrow> try_key a \<notin> try_key ` set (sc_attempts s) \<Longrightarrow>
    school_step s (s\<lparr>sc_seq := sc_seq s + 1, sc_attempts := a # sc_attempts s, sc_answers := ws\<rparr>)"
| certified: "earned s c \<Longrightarrow> ce_enrollment c \<notin> ce_enrollment ` set (sc_certificates s) \<Longrightarrow>
    school_step s (s\<lparr>sc_certificates := c # sc_certificates s\<rparr>)"
| studied: "studio_step now own (sc_catalogue s) k \<Longrightarrow> school_step s (s\<lparr>sc_catalogue := k\<rparr>)"

lemma put_enrollment_map:
  assumes "distinct (map en_id (sc_enrollments s))" and "x \<in> set (sc_enrollments s)" and "en_id x' = en_id x" and "f x' = f x"
  shows "map f (sc_enrollments (put_enrollment x' s)) = map f (sc_enrollments s)"
  unfolding put_enrollment_def using assms
  by simp (rule map_upd_same, metis distinct_map_eq)

lemma put_enrollment_frame [simp]:
  "sc_catalogue (put_enrollment x s) = sc_catalogue s" "sc_learners (put_enrollment x s) = sc_learners s"
  "sc_progress (put_enrollment x s) = sc_progress s" "sc_attempts (put_enrollment x s) = sc_attempts s"
  "sc_certificates (put_enrollment x s) = sc_certificates s" "sc_seq (put_enrollment x s) = sc_seq s"
  "sc_answers (put_enrollment x s) = sc_answers s" "sc_mails (put_enrollment x s) = sc_mails s"
  "sc_assignments (put_enrollment x s) = sc_assignments s"
  by (simp_all add: put_enrollment_def)

lemma mark_eq: "mark x' = mark x \<longleftrightarrow> en_id x' = en_id x \<and> en_tenant x' = en_tenant x \<and> en_version x' = en_version x"
  by (auto simp: mark_def)

lemma same_row_id: "same_row x x' \<Longrightarrow> en_id x' = en_id x"
  by (simp add: same_row_def mark_eq)

lemma put_marks:
  assumes "distinct (map en_id (sc_enrollments s))" and "x \<in> set (sc_enrollments s)" and "same_row x x'"
  shows "mark ` set (sc_enrollments (put_enrollment x' s)) = mark ` set (sc_enrollments s)"
  using put_enrollment_map [OF assms(1,2) same_row_id [OF assms(3)], of mark] assms(3)
  by (metis list.set_map same_row_def)

text \<open>The trace only depends on the catalogue, the marks and the progression.\<close>

lemma trace_frame:
  assumes "sc_catalogue s' = sc_catalogue s" and "mark ` set (sc_enrollments s) \<subseteq> mark ` set (sc_enrollments s')"
    and "set (sc_progress s) \<subseteq> set (sc_progress s')"
  shows "earned s c \<Longrightarrow> earned s' c" and "followed s p \<Longrightarrow> followed s' p" and "on_published s x \<Longrightarrow> on_published s' x"
    and "belongs s a \<Longrightarrow> belongs s' a"
proof -
  have "seen s t i r \<Longrightarrow> seen s' t i r" for t i r using assms(3) by (auto simp: seen_def)
  note seen = this
  show "earned s c \<Longrightarrow> earned s' c"
  proof (elim earnedE)
    fix v
    assume "v \<in> set (kt_versions (sc_catalogue s))" "(ce_enrollment c, ce_tenant c, cv_id v) \<in> mark ` set (sc_enrollments s)"
      "cv_published_at v \<noteq> None" "cv_pass_threshold v \<le> ce_score c" "screens_of (sc_catalogue s) (cv_id v) \<noteq> []"
      "\<forall>r \<in> set (screens_of (sc_catalogue s) (cv_id v)). seen s (ce_tenant c) (ce_enrollment c) (sn_id r)"
    then show "earned s' c" by (intro earnedI [of v]) (use assms seen in \<open>simp_all add: subset_iff\<close>)
  qed
  show "followed s p \<Longrightarrow> followed s' p"
  proof (elim followedE)
    fix v
    assume "v \<in> set (kt_versions (sc_catalogue s))" "(sp_enrollment p, sp_tenant p, cv_id v) \<in> mark ` set (sc_enrollments s)"
      "cv_published_at v \<noteq> None" "sp_screen p \<in> sn_id ` set (screens_of (sc_catalogue s) (cv_id v))"
    then show "followed s' p" by (intro followedI [of v]) (use assms in \<open>simp_all add: subset_iff\<close>)
  qed
  show "on_published s x \<Longrightarrow> on_published s' x" unfolding on_published_def assms(1) .
  show "belongs s a \<Longrightarrow> belongs s' a" unfolding belongs_def using assms(2) by (meson subsetD)
qed

lemma studio_keeps_trace:
  assumes "studio_step now own (sc_catalogue s) k" and "studio_ok (sc_catalogue s)"
  shows "earned s c \<Longrightarrow> earned (s\<lparr>sc_catalogue := k\<rparr>) c" and "followed s p \<Longrightarrow> followed (s\<lparr>sc_catalogue := k\<rparr>) p"
    and "on_published s x \<Longrightarrow> on_published (s\<lparr>sc_catalogue := k\<rparr>) x"
proof -
  have i: "ids_ok (sc_catalogue s)" using assms(2) by (simp add: studio_ok_def)
  have fr: "v \<in> set (kt_versions k) \<and> screens_of k (cv_id v) = screens_of (sc_catalogue s) (cv_id v)"
    if "v \<in> set (kt_versions (sc_catalogue s))" "cv_published_at v \<noteq> None" for v
    using step_frozen [OF assms(1) i that] by (simp add: content_def)
  show "on_published s x \<Longrightarrow> on_published (s\<lparr>sc_catalogue := k\<rparr>) x" unfolding on_published_def using fr by auto
  show "followed (s\<lparr>sc_catalogue := k\<rparr>) p" if f: "followed s p"
  proof -
    from f obtain v where v: "v \<in> set (kt_versions (sc_catalogue s))" "cv_published_at v \<noteq> None"
      "(sp_enrollment p, sp_tenant p, cv_id v) \<in> mark ` set (sc_enrollments s)"
      "sp_screen p \<in> sn_id ` set (screens_of (sc_catalogue s) (cv_id v))"
      by (auto simp: followed_def)
    from fr [OF v(1,2)] v show ?thesis unfolding followed_def by (intro bexI [of _ v]) simp_all
  qed
  show "earned (s\<lparr>sc_catalogue := k\<rparr>) c" if e: "earned s c"
  proof -
    from e obtain v where v: "v \<in> set (kt_versions (sc_catalogue s))" "cv_published_at v \<noteq> None"
      "(ce_enrollment c, ce_tenant c, cv_id v) \<in> mark ` set (sc_enrollments s)" "cv_pass_threshold v \<le> ce_score c"
      "screens_of (sc_catalogue s) (cv_id v) \<noteq> []"
      "\<forall>r \<in> set (screens_of (sc_catalogue s) (cv_id v)). seen s (ce_tenant c) (ce_enrollment c) (sn_id r)"
      by (auto simp: earned_def)
    from fr [OF v(1,2)] v show ?thesis unfolding earned_def by (intro bexI [of _ v]) (simp_all add: seen_def)
  qed
qed


lemma put_people:
  assumes "people_ok s" and "x \<in> set (sc_enrollments s)" and "same_row x x'"
    and h: "en_token_hash x' = en_token_hash x \<or> en_token_hash x' \<notin> hashes s"
  shows "people_ok (put_enrollment x' s)"
proof -
  have d: "distinct (map en_id (sc_enrollments s))" "distinct (map en_token_hash (sc_enrollments s))"
    "at_most_one alive person (sc_enrollments s)" using assms(1) by (simp_all add: people_ok_def)
  have r: "r = x" if "r \<in> set (sc_enrollments s)" "en_id r = en_id x'" for r
    using that distinct_map_eq [OF d(1) that(1) assms(2)] same_row_id [OF assms(3)] by simp
  have "distinct (map en_token_hash (sc_enrollments (put_enrollment x' s)))"
  proof (cases "en_token_hash x' = en_token_hash x")
    case True
    from put_enrollment_map [where f = en_token_hash, OF d(1) assms(2) same_row_id [OF assms(3)] True] d(2) show ?thesis by simp
  next
    case False
    with h have n: "en_token_hash x' \<notin> en_token_hash ` set (sc_enrollments s)" by (simp add: hashes_def)
    have "distinct (map en_token_hash (upd_where (\<lambda>r. en_id r = en_id x') (\<lambda>r. x') ys))"
      if "distinct (map en_token_hash ys)" "distinct (map en_id ys)" "en_token_hash x' \<notin> en_token_hash ` set ys" for ys
      using that by (induction ys) (auto simp: set_upd_where image_iff)
    from this [OF d(2,1) n] show ?thesis by (simp add: put_enrollment_def)
  qed
  moreover have "at_most_one alive person (sc_enrollments (put_enrollment x' s))"
    unfolding put_enrollment_def using d(3) r assms(3)
    by simp (rule at_most_one_upd, auto simp: same_row_def)
  moreover have "map en_id (sc_enrollments (put_enrollment x' s)) = map en_id (sc_enrollments s)"
    by (rule put_enrollment_map [where f = en_id, OF d(1) assms(2)]) (rule same_row_id [OF assms(3)])+
  moreover have "\<forall>y \<in> set (sc_enrollments (put_enrollment x' s)). en_id y \<le> sc_seq s"
    using assms(1,2) same_row_id [OF assms(3)] by (auto simp: people_ok_def put_enrollment_def set_upd_where)
  ultimately show ?thesis using assms(1) d(1) by (simp add: people_ok_def)
qed

lemma step_people:
  assumes "school_step s s'" and "people_ok s"
  shows "people_ok s'"
  using assms
proof (induction rule: school_step.induct)
  case (edited x s x')
  then show ?case by (intro put_people)
next
  case (enrolled x s)
  then have "at_most_one alive person (x # sc_enrollments s)"
    by (intro at_most_one_Cons) (auto simp: people_ok_def)
  with enrolled show ?case by (fastforce simp: people_ok_def hashes_def)
next
  case (declared l s)
  then show ?case by (fastforce simp: people_ok_def)
qed (force simp: people_ok_def)+

lemma trace_by_frame:
  assumes "trace_ok s" and "sc_catalogue s' = sc_catalogue s" and "mark ` set (sc_enrollments s) \<subseteq> mark ` set (sc_enrollments s')"
    and "set (sc_progress s) \<subseteq> set (sc_progress s')"
    and "\<And>x. x \<in> set (sc_enrollments s') \<Longrightarrow> mark x \<notin> mark ` set (sc_enrollments s) \<Longrightarrow> on_published s' x"
    and "\<And>p. p \<in> set (sc_progress s') \<Longrightarrow> p \<notin> set (sc_progress s) \<Longrightarrow> followed s' p"
    and "\<And>c. c \<in> set (sc_certificates s') \<Longrightarrow> c \<notin> set (sc_certificates s) \<Longrightarrow> earned s' c"
    and "distinct (map ce_enrollment (sc_certificates s'))" and "distinct (map try_key (sc_attempts s'))"
    and "\<And>a. a \<in> set (sc_attempts s') \<Longrightarrow> a \<notin> set (sc_attempts s) \<Longrightarrow> belongs s' a"
  shows "trace_ok s'"
proof -
  note f = trace_frame [OF assms(2-4)]
  have "on_published s' x" if x: "x \<in> set (sc_enrollments s')" for x
  proof (cases "mark x \<in> mark ` set (sc_enrollments s)")
    case True
    then obtain y where "y \<in> set (sc_enrollments s)" "mark x = mark y" by auto
    with assms(1,2) show ?thesis by (auto simp: trace_ok_def on_published_def mark_eq)
  qed (use assms(5) x in blast)
  moreover have "followed s' p" if "p \<in> set (sc_progress s')" for p
    using f(2) assms(1,6) that by (cases "p \<in> set (sc_progress s)") (auto simp: trace_ok_def)
  moreover have "earned s' c" if "c \<in> set (sc_certificates s')" for c
    using f(1) assms(1,7) that by (cases "c \<in> set (sc_certificates s)") (auto simp: trace_ok_def)
  moreover have "belongs s' a" if "a \<in> set (sc_attempts s')" for a
    using f(4) assms(1,10) that by (cases "a \<in> set (sc_attempts s)") (auto simp: trace_ok_def)
  ultimately show ?thesis using assms(8,9) by (simp add: trace_ok_def)
qed

lemma step_trace:
  assumes "school_step s s'" and "school_ok s"
  shows "trace_ok s'"
  using assms
proof (induction rule: school_step.induct)
  case (aside s n as keep ws ms)
  show ?case
    by (rule trace_by_frame [of s]) (use aside in \<open>auto simp: school_ok_def trace_ok_def distinct_map_filter\<close>)
next
  case (edited x s x')
  from edited.prems have d: "distinct (map en_id (sc_enrollments s))" by (simp add: school_ok_def people_ok_def)
  show ?case
    by (rule trace_by_frame [of s])
      (use edited put_marks [OF d edited(1,2)] in \<open>auto simp: school_ok_def trace_ok_def\<close>)
next
  case (enrolled x s)
  show ?case
    by (rule trace_by_frame [of s]) (use enrolled in \<open>auto simp: school_ok_def trace_ok_def on_published_def mark_eq\<close>)
next
  case (declared l s)
  show ?case by (rule trace_by_frame [of s]) (use declared in \<open>auto simp: school_ok_def trace_ok_def\<close>)
next
  case (looked s p)
  show ?case
    by (rule trace_by_frame [of s]) (use looked in \<open>auto simp: school_ok_def trace_ok_def followed_def\<close>)
next
  case (graded s a ws)
  show ?case by (rule trace_by_frame [of s]) (use graded in \<open>auto simp: school_ok_def trace_ok_def belongs_def\<close>)
next
  case (certified s c)
  show ?case
    by (rule trace_by_frame [of s]) (use certified in \<open>auto simp: school_ok_def trace_ok_def earned_def seen_def\<close>)
next
  case (studied now own s k)
  then have k: "studio_ok (sc_catalogue s)" by (simp add: school_ok_def)
  from studio_keeps_trace [OF studied(1) k] studied.prems show ?case by (simp add: school_ok_def trace_ok_def belongs_def)
qed

lemma step_school:
  assumes "school_step s s'" and "school_ok s"
  shows "school_ok s'"
proof -
  have "studio_ok (sc_catalogue s')"
    using assms by (induction rule: school_step.induct) (auto simp: school_ok_def intro: step_sound)
  with step_people [OF assms(1)] step_trace [OF assms] assms(2) show ?thesis by (simp add: school_ok_def)
qed


section \<open>What every operation does to a school\<close>

abbreviation school_steps :: "school \<Rightarrow> school \<Rightarrow> bool" where
  "school_steps \<equiv> rtranclp school_step"

lemma steps_school: "school_steps s s' \<Longrightarrow> school_ok s \<Longrightarrow> school_ok s'"
  by (induction rule: rtranclp_induct) (auto intro: step_school)

lemma aside_mails: "school_step s (s\<lparr>sc_mails := ms\<rparr>)"
  using aside [where s = s and n = "sc_seq s" and as = "sc_assignments s" and keep = "\<lambda>_. True" and ws = "sc_answers s" and ms = ms] by simp

lemma aside_assignments: "school_step s (s\<lparr>sc_assignments := as\<rparr>)"
  using aside [where s = s and n = "sc_seq s" and as = as and keep = "\<lambda>_. True" and ws = "sc_answers s" and ms = "sc_mails s"] by simp

lemma aside_seq: "school_step s (s\<lparr>sc_seq := sc_seq s + 1\<rparr>)"
  using aside [where s = s and n = "sc_seq s + 1" and as = "sc_assignments s" and keep = "\<lambda>_. True" and ws = "sc_answers s" and ms = "sc_mails s"] by simp

lemma purge_step: "school_step s (snd (purger_les_resultats now months s))"
  using aside [where s = s and n = "sc_seq s" and as = "sc_assignments s" and keep = "\<lambda>a. \<not> at_submitted_at a < now - days (months * 30)"
    and ms = "sc_mails s" and ws = "filter (\<lambda>w. an_attempt w \<notin> at_id ` set (filter (\<lambda>a. at_submitted_at a < now - days (months * 30)) (sc_attempts s))) (sc_answers s)"]
  by (simp add: purger_les_resultats_def Let_def)

lemma put_in: "x \<in> set (sc_enrollments s) \<Longrightarrow> en_id x' = en_id x \<Longrightarrow> x' \<in> set (sc_enrollments (put_enrollment x' s))"
  by (auto simp: put_enrollment_def set_upd_where intro!: image_eqI [of _ _ x])

lemma resoudre_cases:
  assumes "resoudre_session e s token = Inr (x, s')"
  obtains y where "by_token e s token = Some y" "y \<in> set (sc_enrollments s)" "is_usable e s y" "token \<noteq> []"
    "x \<in> set (sc_enrollments s')" "school_steps s s'" "mark x = mark y"
    "x = y \<and> s' = s \<or> x = y\<lparr>en_first_opened_at := Some (lv_now e)\<rparr> \<and> s' = put_enrollment x s"
proof -
  from assms obtain y where y: "by_token e s token = Some y" "is_usable e s y" "token \<noteq> []"
    and c: "x = y \<and> s' = s \<or> x = y\<lparr>en_first_opened_at := Some (lv_now e)\<rparr> \<and> s' = put_enrollment x s"
    by (auto simp: resoudre_session_def Let_def split: if_splits option.splits)
  from y(1) have m: "y \<in> set (sc_enrollments s)" by (auto simp: by_token_def dest: find_SomeD)
  from c show thesis
  proof (elim disjE conjE)
    assume "x = y" "s' = s"
    with that [OF y(1) m y(2,3)] m show thesis by simp
  next
    assume x: "x = y\<lparr>en_first_opened_at := Some (lv_now e)\<rparr>" and s': "s' = put_enrollment x s"
    have "same_row y x" by (simp add: x same_row_def mark_def person_def alive_def)
    with edited [OF m this] x s' have "school_steps s s'" by auto
    with that [OF y(1) m y(2,3)] put_in [OF m, of x] x s' show thesis by (simp add: mark_def)
  qed
qed

lemma demander_steps:
  assumes "demander_un_acces e d s token = Inr (b, s')"
  shows "school_steps s s'"
  using assms
proof (cases "b")
  case True
  with assms obtain y s1 where y: "by_token e s token = Some y" and s1: "envoyer_demande_dacces e d y s = Inr s1"
    and s': "s' = put_enrollment (y\<lparr>en_access_requested_at := Some (lv_now e)\<rparr>) s1"
    by (auto simp: demander_un_acces_def rbind_Inr_iff split: option.splits if_splits)
  from s1 have e: "school_steps s s1" "sc_enrollments s1 = sc_enrollments s"
    by (auto simp: envoyer_demande_dacces_def Let_def split: if_splits intro: r_into_rtranclp aside_mails)
  from y e(2) have m: "y \<in> set (sc_enrollments s1)" by (auto simp: by_token_def dest: find_SomeD)
  have "school_step s1 s'" unfolding s'
    by (rule edited [OF m]) (simp_all add: same_row_def mark_def person_def alive_def)
  with e(1) show ?thesis by simp
qed (auto simp: demander_un_acces_def rbind_Inr_iff split: option.splits if_splits)

lemma creer_step:
  assumes "creer_apprenant s t n m actor u = Inr (l, s')"
  shows "school_step s s'"
proof -
  from assms have l: "\<forall>x \<in> set (sc_learners s). \<not> (ln_tenant x = t \<and> ln_email x = lower (strip m))"
    and e: "ln_id l = sc_seq s + 1" "ln_tenant l = t" "ln_email l = lower (strip m)"
      "s' = s\<lparr>sc_seq := sc_seq s + 1, sc_learners := l # sc_learners s\<rparr>"
    by (auto simp: creer_apprenant_def Let_def split: if_splits)
  from l e(2,3) have "address l \<notin> address ` set (sc_learners s)" by (auto simp: address_def)
  from declared [OF e(1) this] e(4) show ?thesis by simp
qed

lemma published_on: "published_version (sc_catalogue s) c = Some v \<Longrightarrow> en_version x = cv_id v \<Longrightarrow> on_published s x"
  by (auto simp: published_version_def on_published_def dest!: latest_SomeD)

lemma inscrire_cases:
  assumes "inscrire e token s t l c due actor = Inr (x, s')"
  obtains v where "published_version (sc_catalogue s) (co_id c) = Some v" "ln_is_active l" "is_assigned s t (co_id c)"
    "live_enrollment s t (ln_id l) (cv_id v) = None" "\<forall>y \<in> set (sc_enrollments s). en_token_hash y \<noteq> lv_hash e token"
    "en_id x = sc_seq s + 1" "en_tenant x = t" "en_learner x = ln_id l" "en_version x = cv_id v" "en_due_date x = due"
    "en_token_hash x = lv_hash e token" "en_revoked_at x = None" "en_created_at x = lv_now e"
    "s' = s\<lparr>sc_seq := sc_seq s + 1, sc_enrollments := x # sc_enrollments s\<rparr>"
  using assms
  by (auto simp: inscrire_def rbind_Inr_iff Let_def list_all_iff split: option.splits)

lemma inscrire_step:
  assumes "inscrire e token s t l c due actor = Inr (x, s')"
  shows "school_step s s'"
  using assms
proof (cases rule: inscrire_cases)
  case (1 v)
  have "person y \<noteq> person x" if "y \<in> set (sc_enrollments s)" "alive y" for y
    using 1(4) that 1(7-9) by (auto simp: live_enrollment_def find_None_iff person_def alive_def)
  moreover have "en_token_hash x \<notin> hashes s" using 1(5,11) by (auto simp: hashes_def)
  ultimately show ?thesis unfolding 1(14) using enrolled [OF 1(6) _ published_on [OF 1(1,9)]] by blast
qed

lemma renouveler_step:
  assumes "renouveler_le_lien e token s x = Inr (x', s')" and "x \<in> set (sc_enrollments s)" and "people_ok s"
  shows "school_step s s' \<and> x' \<in> set (sc_enrollments s') \<and> same_row x x' \<and> s' = put_enrollment x' s"
proof -
  from assms(1) have x': "x' = x\<lparr>en_token_hash := lv_hash e token, en_token_issued_at := lv_now e\<rparr>"
    and s': "s' = put_enrollment x' s" and a: "alive x"
    and h: "\<forall>y \<in> set (sc_enrollments s). en_token_hash y = lv_hash e token \<longrightarrow> en_id y = en_id x"
    by (auto simp: renouveler_le_lien_def Let_def alive_def is_revoked_def list_ex_iff split: if_splits)
  have "en_token_hash x' = en_token_hash x \<or> en_token_hash x' \<notin> hashes s"
  proof (cases "en_token_hash x' \<in> hashes s")
    case True
    then obtain y where y: "y \<in> set (sc_enrollments s)" "en_token_hash y = lv_hash e token" by (auto simp: hashes_def x')
    with h have "en_id y = en_id x" by blast
    with y(1) assms(2,3) have "y = x" using distinct_map_eq [of en_id "sc_enrollments s" y x] by (simp add: people_ok_def)
    with y(2) show ?thesis by (simp add: x')
  qed simp
  moreover have r: "same_row x x'" using a by (simp add: x' same_row_def mark_def person_def alive_def)
  ultimately have "school_step s s'" unfolding s' using assms(2) by (intro edited)
  with r put_in [OF assms(2), of x'] s' x' show ?thesis by simp
qed

lemma revoquer_steps:
  assumes "x \<in> set (sc_enrollments s)"
  shows "school_steps s (snd (revoquer e s x actor))"
proof (cases "is_revoked x")
  case False
  have "school_step s (put_enrollment (x\<lparr>en_revoked_at := Some (lv_now e), en_revoked_by := actor\<rparr>) s)"
    by (rule edited [OF assms]) (simp_all add: same_row_def mark_def person_def alive_def)
  with False show ?thesis by (simp add: revoquer_def Let_def r_into_rtranclp)
qed (simp add: revoquer_def)

lemma accorder_step:
  assumes "accorder_des_essais e s x n actor = Inr (x', s')" and "x \<in> set (sc_enrollments s)"
  shows "school_step s s'"
proof -
  from assms(1) have "s' = put_enrollment x' s" "same_row x x'" "en_token_hash x' = en_token_hash x"
    by (auto simp: accorder_des_essais_def Let_def same_row_def mark_def person_def alive_def split: if_splits)
  with edited [OF assms(2)] show ?thesis by simp
qed


section \<open>Following and grading\<close>

lemma etat_cases:
  assumes "etat_de_session e s x = Inr st"
  obtains l v c where "learner_of s x = Some l" "version_of s x = Some v" "course_of s x = Some c"
    "v \<in> set (kt_versions (sc_catalogue s))" "cv_id v = en_version x"
    "se_threshold st = cv_pass_threshold v" "se_attempts_used st = length (essais s x)"
    "se_attempts_allowed st = attempts_allowed s x" "se_passed st = list_ex at_passed (essais s x)"
    "se_quiz_unlocked st \<longleftrightarrow> screens_of (sc_catalogue s) (cv_id v) \<noteq> [] \<and>
       length (screens_of (sc_catalogue s) (cv_id v)) \<le> length (ecrans_vus s x)"
    "se_certificate st = attestation_de s x" "se_quiz st = questions_du_quiz s x"
proof -
  from assms obtain l v c where l: "learner_of s x = Some l" "version_of s x = Some v" "course_of s x = Some c"
    by (auto simp: etat_de_session_def split: option.splits)
  from l(2) have v: "v \<in> set (kt_versions (sc_catalogue s))" "cv_id v = en_version x"
    by (auto simp: version_of_def dest: find_SomeD)
  from l assms that [OF l v] show thesis by (auto simp: etat_de_session_def Let_def split: option.splits)
qed

lemma version_unique:
  "studio_ok k \<Longrightarrow> v \<in> set (kt_versions k) \<Longrightarrow> w \<in> set (kt_versions k) \<Longrightarrow> cv_id v = cv_id w \<Longrightarrow> v = w"
  by (rule version_ids) (simp_all add: studio_ok_def)

text \<open>As many screens seen as the course has: all of them were.\<close>

lemma all_seen:
  assumes "school_ok s" and "x \<in> set (sc_enrollments s)" and "v \<in> set (kt_versions (sc_catalogue s))" and "cv_id v = en_version x"
    and "length (screens_of (sc_catalogue s) (cv_id v)) \<le> length (ecrans_vus s x)"
    and "r \<in> set (screens_of (sc_catalogue s) (cv_id v))"
  shows "seen s (en_tenant x) (en_id x) (sn_id r)"
proof -
  let ?k = "sc_catalogue s" and ?ss = "screens_of (sc_catalogue s) (cv_id v)"
  have k: "studio_ok ?k" and d: "distinct (map en_id (sc_enrollments s))" and tr: "\<forall>p \<in> set (sc_progress s). followed s p"
    using assms(1) by (simp_all add: school_ok_def people_ok_def trace_ok_def)
  have "set (ecrans_vus s x) \<subseteq> sn_id ` set ?ss"
  proof
    fix i
    assume "i \<in> set (ecrans_vus s x)"
    then obtain p where p: "p \<in> set (sc_progress s)" "sp_enrollment p = en_id x" "sp_screen p = i"
      by (auto simp: ecrans_vus_def)
    from tr p(1) have "followed s p" by blast
    then show "i \<in> sn_id ` set ?ss"
    proof (cases rule: followedE)
      case (1 w)
      from 1(2) obtain y where y: "y \<in> set (sc_enrollments s)" "en_id y = sp_enrollment p" "en_version y = cv_id w"
        by (auto simp: mark_def)
      from distinct_map_eq [OF d y(1) assms(2)] y(2) p(2) have "y = x" by simp
      with y(3) version_unique [OF k 1(1) assms(3)] assms(4) have "w = v" by simp
      with 1(4) p(3) show ?thesis by simp
    qed
  qed
  moreover have "card (sn_id ` set ?ss) \<le> card (set (ecrans_vus s x))"
  proof -
    have "distinct (ecrans_vus s x)" by (simp add: ecrans_vus_def)
    then have "card (set (ecrans_vus s x)) = length (ecrans_vus s x)" by (rule distinct_card)
    moreover have "card (sn_id ` set ?ss) \<le> length ?ss" using card_length [of "map sn_id ?ss"] by simp
    ultimately show ?thesis using assms(5) by linarith
  qed
  ultimately have "set (ecrans_vus s x) = sn_id ` set ?ss" by (intro card_seteq) simp_all
  with assms(6) have "sn_id r \<in> set (ecrans_vus s x)" by simp
  then show ?thesis by (auto simp: ecrans_vus_def seen_def)
qed

lemma published_of:
  assumes "school_ok s" and "x \<in> set (sc_enrollments s)" and "v \<in> set (kt_versions (sc_catalogue s))" and "cv_id v = en_version x"
  shows "cv_published_at v \<noteq> None"
proof -
  from assms(1,2) obtain w where w: "w \<in> set (kt_versions (sc_catalogue s))" "cv_id w = en_version x" "cv_published_at w \<noteq> None"
    by (auto simp: school_ok_def trace_ok_def on_published_def)
  with version_unique [of "sc_catalogue s" w v] assms show ?thesis by (simp add: school_ok_def)
qed

lemma marquer_steps:
  assumes "school_ok s" and "x \<in> set (sc_enrollments s)"
  shows "school_steps s (snd (marquer_ecran_vu e s x i))"
proof (cases "find (\<lambda>r. sn_version r = en_version x \<and> sn_id r = i) (kt_screens (sc_catalogue s))")
  case None
  then show ?thesis by (simp add: marquer_ecran_vu_def)
next
  case (Some r)
  from find_SomeD [OF Some] have r: "r \<in> set (screens_of (sc_catalogue s) (en_version x))" "sn_id r = i" by simp_all
  from assms obtain v where v: "v \<in> set (kt_versions (sc_catalogue s))" "cv_id v = en_version x" "cv_published_at v \<noteq> None"
    by (auto simp: school_ok_def trace_ok_def on_published_def)
  let ?p = "\<lparr>sp_tenant = en_tenant x, sp_enrollment = en_id x, sp_screen = i, sp_completed_at = lv_now e\<rparr>"
  have "followed s ?p" by (rule followedI [OF v(1)]) (use v r assms(2) in \<open>auto simp: mark_def\<close>)
  from looked [OF this] show ?thesis by (auto simp: marquer_ecran_vu_def Some Let_def)
qed

lemma soumettre_cases:
  assumes "soumettre_le_quiz e serial s x reponses = Inr (q, s')"
  obtains st where "etat_de_session e s x = Inr st" "questions_of (sc_catalogue s) (en_version x) \<noteq> []"
    "\<not> se_passed st" "se_quiz_unlocked st" "int (se_attempts_used st) < se_attempts_allowed st"
    "\<forall>y \<in> set (questions_of (sc_catalogue s) (en_version x)). chosen_of reponses y \<noteq> []"
    "grade e serial s x st (questions_of (sc_catalogue s) (en_version x)) reponses = Inr (q, s')"
proof -
  from assms obtain st where "etat_de_session e s x = Inr st"
    by (auto simp: soumettre_le_quiz_def Let_def rbind_Inr_iff split: if_splits)
  with assms that [of st] show thesis
    by (auto simp: soumettre_le_quiz_def Let_def filter_empty_conv not_le split: if_splits)
qed

lemma grade_cases:
  assumes "grade e serial s x st qs reponses = Inr (q, s')"
  obtains a s1 where "a = new_attempt e s x st qs reponses" "at_number a \<notin> at_number ` set (essais s x)"
    "s1 = s\<lparr>sc_seq := sc_seq s + 1, sc_attempts := a # sc_attempts s, sc_answers := attempt_answers s x qs reponses @ sc_answers s\<rparr>"
    "s' = (if at_passed a then snd (delivrer_lattestation e serial s1 x st (at_score a)) else s1)"
    "qr_certificate q = (if at_passed a then Some (fst (delivrer_lattestation e serial s1 x st (at_score a))) else None)"
    "qr_score q = at_score a" "qr_passed q = at_passed a" "qr_threshold q = se_threshold st" "qr_number q = at_number a"
    "qr_allowed q = se_attempts_allowed st"
    "qr_review q = ecrans_a_revoir (sc_catalogue s) (filter (\<lambda>y. \<not> is_right reponses y) qs)"
    "qr_questions q = map (\<lambda>y. (y, is_right reponses y, chosen_of reponses y)) qs"
  using assms that [OF refl _ refl]
  by (auto simp: grade_def Let_def case_prod_beta split: if_splits)

lemma delivrer_cases:
  assumes "delivrer_lattestation e serial s x st score = (c, s')"
  obtains (held) "attestation_de s x = Some c" "s' = s"
    | (new) "attestation_de s x = None" "s' = s\<lparr>sc_certificates := c # sc_certificates s\<rparr>" "ce_tenant c = en_tenant x"
        "ce_enrollment c = en_id x" "ce_score c = score" "ce_serial c = serial" "ce_learner_name c = se_learner st"
        "ce_course_title c = se_title st" "ce_company_name c = se_company st" "ce_issued_at c = lv_now e"
  using assms by (auto simp: delivrer_lattestation_def Let_def split: option.splits)

lemma same_enrollment:
  assumes "people_ok s" and "x \<in> set (sc_enrollments s)" and "(en_id x, t, v) \<in> mark ` set (sc_enrollments s)"
  shows "t = en_tenant x \<and> v = en_version x"
proof -
  from assms(3) obtain y where "y \<in> set (sc_enrollments s)" "en_id y = en_id x" "t = en_tenant y" "v = en_version y"
    by (auto simp: mark_def)
  with assms(1,2) distinct_map_eq [of en_id "sc_enrollments s" y x] show ?thesis by (simp add: people_ok_def)
qed

lemma soumettre_steps:
  assumes "soumettre_le_quiz e serial s x reponses = Inr (q, s')" and "school_ok s" and "x \<in> set (sc_enrollments s)"
  shows "school_steps s s'"
  using assms(1)
proof (cases rule: soumettre_cases)
  case (1 st)
  from etat_cases [OF 1(1)] obtain v where v: "v \<in> set (kt_versions (sc_catalogue s))" "cv_id v = en_version x"
    and th: "se_threshold st = cv_pass_threshold v"
    and un: "se_quiz_unlocked st \<longleftrightarrow> screens_of (sc_catalogue s) (cv_id v) \<noteq> [] \<and>
       length (screens_of (sc_catalogue s) (cv_id v)) \<le> length (ecrans_vus s x)" by blast
  have p: "people_ok s" using assms(2) by (simp add: school_ok_def)
  from 1(7) show ?thesis
  proof (cases rule: grade_cases)
    case g: (1 a s1)
    have a: "at_enrollment a = en_id x" "at_tenant a = en_tenant x" "at_passed a \<longleftrightarrow> se_threshold st \<le> at_score a"
      by (simp_all add: g(1) new_attempt_def Let_def)
    have b: "belongs s a" using assms(3) a(1,2) by (auto simp: belongs_def mark_def intro!: bexI [of _ x])
    have "try_key a \<notin> try_key ` set (sc_attempts s)"
    proof
      assume "try_key a \<in> try_key ` set (sc_attempts s)"
      then obtain a' where a': "a' \<in> set (sc_attempts s)" "at_enrollment a' = en_id x" "at_number a' = at_number a"
        using a(1) by (auto simp: try_key_def)
      with assms(2) have "belongs s a'" by (simp add: school_ok_def trace_ok_def)
      then obtain m where m: "m \<in> set (sc_enrollments s)" "en_id m = at_enrollment a'" "en_tenant m = at_tenant a'"
        by (auto simp: belongs_def mark_def)
      with a'(2) p assms(3) distinct_map_eq [of en_id "sc_enrollments s" m x] have "at_tenant a' = en_tenant x"
        by (simp add: people_ok_def)
      with a'(1,2) have "at_number a' \<in> at_number ` set (essais s x)" by (intro imageI) (simp add: essais_def)
      with a'(3) g(2) show False by simp
    qed
    from graded [OF b this] g(3) have s1: "school_step s s1" by simp
    show ?thesis
    proof (cases "at_passed a")
      case True
      obtain c s2 where c: "delivrer_lattestation e serial s1 x st (at_score a) = (c, s2)" by fastforce
      from True g(4) c have s': "s' = s2" by simp
      from c show ?thesis
      proof (cases rule: delivrer_cases)
        case held
        with s1 s' show ?thesis by auto
      next
        case new
        have "earned s1 c"
        proof (rule earnedI)
          show "v \<in> set (kt_versions (sc_catalogue s1))" using v g(3) by simp
          show "(ce_enrollment c, ce_tenant c, cv_id v) \<in> mark ` set (sc_enrollments s1)"
            using assms(3) v(2) new(3,4) g(3) by (auto simp: mark_def)
          show "cv_published_at v \<noteq> None" by (rule published_of [OF assms(2,3) v])
          show "cv_pass_threshold v \<le> ce_score c" using True a(3) th new(5) by simp
          show "screens_of (sc_catalogue s1) (cv_id v) \<noteq> []" using un 1(4) g(3) by simp
          show "\<forall>r \<in> set (screens_of (sc_catalogue s1) (cv_id v)). seen s1 (ce_tenant c) (ce_enrollment c) (sn_id r)"
            using all_seen [OF assms(2,3) v] un 1(4) g(3) new(3,4) by (simp add: seen_def)
        qed
        moreover have "ce_enrollment c \<notin> ce_enrollment ` set (sc_certificates s1)"
        proof
          assume "ce_enrollment c \<in> ce_enrollment ` set (sc_certificates s1)"
          then obtain c' where c': "c' \<in> set (sc_certificates s)" "ce_enrollment c' = en_id x" using new(4) g(3) by auto
          with assms(2) have "earned s c'" by (simp add: school_ok_def trace_ok_def)
          then have "ce_tenant c' = en_tenant x"
          proof (cases rule: earnedE)
            case (1 w)
            with same_enrollment [OF p assms(3)] c'(2) show ?thesis by simp
          qed
          with new(1) c' g(3) show False by (auto simp: attestation_de_def find_None_iff)
        qed
        ultimately have "school_step s1 s'" using certified new(2) s' by simp
        with s1 show ?thesis by auto
      qed
    next
      case False
      with g(4) s1 show ?thesis by simp
    qed
  qed
qed


section \<open>The requests\<close>

lemma learner_call_steps:
  assumes "school_ok s"
  shows "school_steps s (snd (learner_call e d throttled serial token rq s))"
proof (cases "throttled \<or> rq = Ask_access")
  case True
  then show ?thesis
    by (auto simp: learner_call_def access_request_view_def split: sum.splits prod.splits training_error.splits dest: demander_steps)
next
  case other: False
  show ?thesis
  proof (cases "resoudre_session e s token")
    case (Inl err)
    with other show ?thesis by (simp add: learner_call_def)
  next
    case (Inr r)
    obtain x s1 where r: "r = (x, s1)" by fastforce
    from Inr r have "resoudre_session e s token = Inr (x, s1)" by simp
    then show ?thesis
    proof (cases rule: resoudre_cases)
      case (1 y)
      note k = steps_school [OF 1(6) assms]
      have "school_steps s1 (snd (screen_done_view e x i s1))" for i
        using marquer_steps [OF k 1(5), of e i] by (simp add: screen_done_view_def case_prod_beta)
      moreover have "school_steps s1 (snd (quiz_view e serial x reponses s1))" for reponses
        using soumettre_steps [OF _ k 1(5), of e serial reponses]
        by (auto simp: quiz_view_def split: sum.splits prod.splits)
      ultimately have "school_steps s1 (snd (learner_call e d throttled serial token rq s))"
        using Inr r other by (cases rq) (simp_all add: learner_call_def session_view_def)
      with 1(6) show ?thesis by auto
    qed
  qed
qed

lemma mail_step: "mail_learner e s x m = Inr s' \<Longrightarrow> school_step s s' \<and> sc_enrollments s' = sc_enrollments s"
  by (auto simp: mail_learner_def split: option.splits if_splits intro: aside_mails)

lemma inviter_steps:
  assumes "inscrire_et_inviter e token s t l c due actor = Inr (x, s')"
  shows "school_steps s s'"
  using assms inscrire_step mail_step
  by (auto simp: inscrire_et_inviter_def rbind_Inr_iff) (meson r_into_rtranclp rtranclp.rtrancl_into_rtrancl)

lemma import_lines_steps: "school_steps s (snd (import_lines t actor n rows s))"
proof (induction t actor n rows s rule: import_lines.induct)
  case (2 t actor n row rows s)
  let ?cells = "map strip row"
  show ?case
  proof (cases "list_all (\<lambda>c. c = []) ?cells \<or> n = 1 \<and> is_header ?cells \<or> length ?cells < 2 \<or>
      \<not> looks_like_email (lower (?cells ! 1)) \<or> ?cells ! 0 = []")
    case True
    with 2 show ?thesis by (auto simp: Let_def case_prod_beta simp del: nth_map)
  next
    case False
    show ?thesis
    proof (cases "creer_apprenant s t (?cells ! 0) (lower (?cells ! 1)) actor None")
      case (Inl err)
      with False 2 show ?thesis by (simp add: Let_def case_prod_beta del: nth_map)
    next
      case (Inr r)
      obtain l s1 where r: "r = (l, s1)" by fastforce
      with Inr have c: "creer_apprenant s t (?cells ! 0) (lower (?cells ! 1)) actor None = Inr (l, s1)" by simp
      from False c 2 have "school_steps s1 (snd (import_lines t actor (n + 1) rows s1))" by (simp add: Let_def del: nth_map)
      with creer_step [OF c] have "school_steps s (snd (import_lines t actor (n + 1) rows s1))" by simp
      with False c show ?thesis by (cases "n = 1") (simp_all add: Let_def case_prod_beta del: nth_map)
    qed
  qed
qed simp


lemma importer_steps: "importer_des_salaries e s t txt actor = Inr (ls, s') \<Longrightarrow> school_steps s s'"
  using import_lines_steps [of s t actor 1] by (auto simp: importer_des_salaries_def rbind_Inr_iff) (metis snd_conv)

section \<open>The requests of the companies\<close>

definition entry :: "reminder_log \<Rightarrow> int \<times> reminder_kind" where
  "entry r = (rl_enrollment r, rl_kind r)"

text \<open>What a call leaves alone, besides the school.\<close>

lemma find_in: "find p xs = Some x \<Longrightarrow> x \<in> set xs"
  by (auto dest: find_SomeD)

lemma on_school_ok:
  "(\<And>x s. r = Inr (x, s) \<Longrightarrow> school_steps (cg_school g) s) \<Longrightarrow> school_steps (cg_school g) (cg_school (snd (on_school g f r)))"
  by (auto simp: on_school_def split: sum.splits)

lemma on_enrollment_ok:
  "(\<And>x. x \<in> set (sc_enrollments (cg_school g)) \<Longrightarrow> school_steps (cg_school g) (cg_school (snd (k x)))) \<Longrightarrow>
   school_steps (cg_school g) (cg_school (snd (on_enrollment g t i k)))"
  by (auto simp: on_enrollment_def split: option.splits dest: find_in)

lemma handle_steps:
  assumes "school_ok (cg_school g)"
  shows "school_steps (cg_school g) (cg_school (snd (handle e token t actor rq g)))"
proof -
  let ?s = "cg_school g" and ?le = "ce_lesson e"
  have p: "people_ok ?s" using assms by (simp add: school_ok_def)
  show ?thesis
  proof (cases rq)
    case (Add_learner n m)
    show ?thesis unfolding Add_learner handle_def campaign_view_def evidence_view_def Let_def
      by (simp, rule on_school_ok) (blast intro: creer_step)
  next
    case (Enroll l slug due)
    show ?thesis unfolding Enroll handle_def campaign_view_def evidence_view_def Let_def
      by (auto split: option.splits intro!: on_school_ok intro: inviter_steps)
  next
    case (Revoke i)
    have "school_steps ?s s'" if "x \<in> set (sc_enrollments ?s)" "revoquer ?le ?s x actor = (y, s')" for x y s'
      using revoquer_steps [OF that(1), of ?le actor] that(2) by simp
    then show ?thesis unfolding Revoke handle_def campaign_view_def evidence_view_def Let_def
      by (simp, intro on_enrollment_ok on_school_ok) simp
  next
    case (Renew i)
    have "school_steps ?s s'" if "x \<in> set (sc_enrollments ?s)" "renouveler_le_lien ?le token ?s x = Inr (y, s')" for x y s'
      using renouveler_step [OF that(2,1) p] by blast
    then show ?thesis unfolding Renew handle_def campaign_view_def evidence_view_def Let_def
      by (simp, intro on_enrollment_ok on_school_ok) simp
  next
    case (Grant i n)
    have "school_steps ?s s'" if "x \<in> set (sc_enrollments ?s)" "accorder_des_essais ?le ?s x n actor = Inr (y, s')" for x y s'
      using accorder_step [OF that(2,1)] by blast
    then show ?thesis unfolding Grant handle_def campaign_view_def evidence_view_def Let_def
      by (auto intro!: on_enrollment_ok on_school_ok)
  next
    case (Import x)
    then show ?thesis using importer_steps [of e ?s t "strip x" actor]
      by (auto simp: handle_def campaign_view_def evidence_view_def Let_def split: sum.splits)
  next
    case (Set_policy a b c d)
    then show ?thesis by (auto simp: handle_def campaign_view_def evidence_view_def Let_def regler_la_politique_def politique_def split: option.splits prod.splits)
  next
    case Read_policy
    then show ?thesis by (auto simp: handle_def campaign_view_def evidence_view_def Let_def politique_def split: option.splits prod.splits)
  next
    case (Follow_up c)
    then show ?thesis by (auto simp: handle_def campaign_view_def evidence_view_def Let_def on_course_def suivi_nominatif_def split: option.splits)
  next
    case (Read_report c)
    then show ?thesis by (auto simp: handle_def campaign_view_def evidence_view_def Let_def on_course_def split: option.splits)
  next
    case (Confirm i)
    then show ?thesis
      by (auto simp: handle_def campaign_view_def evidence_view_def Let_def on_suggestion_def confirmer_def decide_def split: option.splits sum.splits if_splits)
  next
    case (Dismiss i)
    then show ?thesis
      by (auto simp: handle_def campaign_view_def evidence_view_def Let_def on_suggestion_def ecarter_def decide_def split: option.splits sum.splits if_splits)
  qed (simp_all add: handle_def campaign_view_def evidence_view_def Let_def)
qed

lemma pilot_cases:
  obtains "snd (pilot_call e email_ok m token rq g) = g"
  | mb where "m = Some mb" "permitted rq m" "needs_feature rq \<Longrightarrow> has_feature (ce_db e) (me_tenant mb) TRAINING"
      "well_formed email_ok rq"
      "pilot_call e email_ok m token rq g = handle e token (me_tenant mb) (Some (me_user mb)) rq g"
proof (cases "\<exists>mb. m = Some mb \<and> permitted rq m \<and> (needs_feature rq \<longrightarrow> has_feature (ce_db e) (me_tenant mb) TRAINING) \<and> well_formed email_ok rq")
  case True
  then obtain mb where mb: "m = Some mb" "permitted rq m" "needs_feature rq \<longrightarrow> has_feature (ce_db e) (me_tenant mb) TRAINING"
    "well_formed email_ok rq" by blast
  then have "pilot_call e email_ok m token rq g = handle e token (me_tenant mb) (Some (me_user mb)) rq g"
    by (auto simp: pilot_call_def ensure_feature_def)
  with mb that(2) show thesis by blast
next
  case False
  then have "snd (pilot_call e email_ok m token rq g) = g"
    by (auto simp: pilot_call_def ensure_feature_def split: option.splits)
  with that(1) show thesis .
qed

lemma pilot_call_steps: "school_ok (cg_school g) \<Longrightarrow> school_steps (cg_school g) (cg_school (snd (pilot_call e email_ok m token rq g)))"
  by (rule pilot_cases [of e email_ok m token rq g]) (use handle_steps in simp_all)

end
