(* ===== verification/CampaignSafety.thy ===== *)
theory CampaignSafety
  imports TrainingSafety AssessmentsSafety
begin

text \<open>
  Whole histories of the training module: the requests of the learners, of the companies and of the authors, the
  assignments of the operator and the nightly tasks, in any order.
\<close>

section \<open>The nights\<close>

lemma send_reminder_cases:
  assumes "send_reminder e token g x kind = (g', ok)" and "x \<in> set (sc_enrollments (cg_school g))" and "people_ok (cg_school g)"
  obtains "school_steps (cg_school g) (cg_school g')" "cg_quiz g' = cg_quiz g"
    "\<And>y. y \<in> set (sc_enrollments (cg_school g)) \<Longrightarrow> en_id y \<noteq> en_id x \<Longrightarrow> y \<in> set (sc_enrollments (cg_school g'))"
    "map entry (cg_reminders g') = (if ok then (en_id x, kind) # map entry (cg_reminders g) else map entry (cg_reminders g))"
proof (cases "renouveler_le_lien e token (cg_school g) x")
  case (Inl err)
  with assms(1) that show thesis by (simp add: send_reminder_def)
next
  case (Inr r)
  obtain x' s1 where r: "r = (x', s1)" by fastforce
  with Inr have "renouveler_le_lien e token (cg_school g) x = Inr (x', s1)" by simp
  from renouveler_step [OF this assms(2,3)]
  have s1: "school_step (cg_school g) s1" "same_row x x'" "s1 = put_enrollment x' (cg_school g)" by blast+
  have keep: "y \<in> set (sc_enrollments s1)" if "y \<in> set (sc_enrollments (cg_school g))" "en_id y \<noteq> en_id x" for y
    using that same_row_id [OF s1(2)] by (auto simp: s1(3) put_enrollment_def set_upd_where image_iff intro!: bexI [of _ y])
  show thesis
  proof (cases "mail_learner e s1 x' (Reminder_mail (en_id x) kind (lien_de_session e token))")
    case m: (Inl err)
    with assms(1) Inr r have g': "g' = g\<lparr>cg_school := s1\<rparr>" and "\<not> ok" by (auto simp: send_reminder_def)
    show thesis by (rule that) (use s1(1) keep \<open>\<not> ok\<close> in \<open>simp_all add: g' r_into_rtranclp\<close>)
  next
    case m: (Inr s2)
    from mail_step [OF m] s1(1) have "school_steps (cg_school g) s2" "sc_enrollments s2 = sc_enrollments s1" by auto
    moreover from assms(1) Inr r m have g': "cg_school g' = s2" "cg_quiz g' = cg_quiz g"
      "map entry (cg_reminders g') = (en_id x, kind) # map entry (cg_reminders g)" and "ok"
      by (auto simp: send_reminder_def entry_def)
    ultimately show thesis by (intro that) (use keep in simp_all)
  qed
qed

lemma send_reminders_ok:
  assumes "distinct (map (en_id \<circ> fst) l)" and "fst ` set l \<subseteq> set (sc_enrollments (cg_school g))" and "school_ok (cg_school g)"
    and "send_reminders e tok n l g = (k, g', ok)"
  shows "school_steps (cg_school g) (cg_school g') \<and> cg_quiz g' = cg_quiz g \<and> n \<le> k \<and> k \<le> n + length l \<and>
    map entry (cg_reminders g') = rev (take (k - n) (map (\<lambda>r. (en_id (fst r), snd r)) l)) @ map entry (cg_reminders g)"
  using assms
proof (induction l arbitrary: n g)
  case (Cons r l)
  obtain x kind where r: "r = (x, kind)" by fastforce
  obtain g1 ok1 where s: "send_reminder e (tok n) g x kind = (g1, ok1)" by fastforce
  have x: "x \<in> set (sc_enrollments (cg_school g))" and p: "people_ok (cg_school g)"
    using Cons.prems r by (auto simp: school_ok_def)
  from s x p show ?case
  proof (cases rule: send_reminder_cases)
    case 1
    show ?thesis
    proof (cases ok1)
      case True
      have "fst ` set l \<subseteq> set (sc_enrollments (cg_school g1))"
      proof
        fix y assume "y \<in> fst ` set l"
        with Cons.prems(1,2) r have "y \<in> set (sc_enrollments (cg_school g))" "en_id y \<noteq> en_id x" by (auto simp: image_iff)
        then show "y \<in> set (sc_enrollments (cg_school g1))" by (rule 1(3))
      qed
      moreover have "send_reminders e tok (n + 1) l g1 = (k, g', ok)" using Cons.prems(4) r s True by simp
      ultimately have "school_steps (cg_school g1) (cg_school g') \<and> cg_quiz g' = cg_quiz g1 \<and> n + 1 \<le> k \<and> k \<le> n + 1 + length l \<and>
        map entry (cg_reminders g') = rev (take (k - (n + 1)) (map (\<lambda>r. (en_id (fst r), snd r)) l)) @ map entry (cg_reminders g1)"
        using Cons.prems(1) steps_school [OF 1(1) Cons.prems(3)] by (intro Cons.IH) simp_all
      moreover from this have "k - n = Suc (k - (n + 1))" by linarith
      ultimately show ?thesis using 1 True r by auto
    next
      case False
      with Cons.prems(4) r s 1 show ?thesis by simp
    qed
  qed
qed simp

lemma send_reminder_mails:
  "send_reminder e token g x kind = (g', ok) \<Longrightarrow>
   sc_mails (cg_school g') = (if ok then [Reminder_mail (en_id x) kind (lien_de_session e token)] else []) @ sc_mails (cg_school g)"
  by (auto simp: send_reminder_def renouveler_le_lien_def mail_learner_def Let_def split: sum.splits option.splits if_splits prod.splits)

text \<open>The mails of the calls \<open>n\<close> to \<open>k\<close>, the last one first.\<close>

lemma send_reminders_mails:
  "send_reminders e tok n l g = (k, g', ok) \<Longrightarrow>
   n \<le> k \<and> (ok \<longleftrightarrow> k = n + length l) \<and> k \<le> n + length l \<and>
   sc_mails (cg_school g') =
     rev (map (\<lambda>i. Reminder_mail (en_id (fst (l ! (i - n)))) (snd (l ! (i - n))) (lien_de_session e (tok i))) [n..<k]) @ sc_mails (cg_school g)"
proof (induction l arbitrary: n g)
  case (Cons r l)
  obtain x kind where r: "r = (x, kind)" by fastforce
  obtain g1 ok1 where s: "send_reminder e (tok n) g x kind = (g1, ok1)" by fastforce
  note m = send_reminder_mails [OF s]
  show ?case
  proof (cases ok1)
    case True
    with Cons.prems r s have "send_reminders e tok (n + 1) l g1 = (k, g', ok)" by simp
    note ih = Cons.IH [OF this]
    then have up: "[n..<k] = n # [n + 1..<k]" by (simp add: upt_conv_Cons)
    have "map (\<lambda>i. Reminder_mail (en_id (fst ((r # l) ! (i - n)))) (snd ((r # l) ! (i - n))) (lien_de_session e (tok i))) [n + 1..<k] =
      map (\<lambda>i. Reminder_mail (en_id (fst (l ! (i - (n + 1))))) (snd (l ! (i - (n + 1)))) (lien_de_session e (tok i))) [n + 1..<k]"
      by (rule map_cong) (auto simp: nth_Cons')
    with ih m True r show ?thesis by (auto simp: up)
  qed (use Cons.prems r s m in auto)
qed simp

lemma relances_in:
  "(x, kind) \<in> set (relances_du_jour e g) \<Longrightarrow> x \<in> set (sc_enrollments (cg_school g)) \<and> reminder_due e g x = Some kind"
  by (auto simp: relances_du_jour_def split: option.splits)

lemma relances_distinct:
  assumes "distinct (map en_id (sc_enrollments (cg_school g)))"
  shows "distinct (map (en_id \<circ> fst) (relances_du_jour e g))"
proof -
  have "distinct (map (en_id \<circ> fst) (concat (map (\<lambda>x. case reminder_due e g x of None \<Rightarrow> [] | Some kind \<Rightarrow> [(x, kind)]) xs)))"
    if "distinct (map en_id xs)" for xs
    using that by (induction xs) (auto split: option.splits)
  with assms show ?thesis by (simp add: relances_du_jour_def distinct_map_filter)
qed

lemma reminder_dueD:
  assumes "reminder_due e g x = Some kind"
  shows "is_usable e (cg_school g) x" and "\<not> a_termine (cg_school g) x" and "kind \<notin> already_sent g x"
    and "find (\<lambda>r. rp_tenant r = en_tenant x) (cg_policies g) = Some p \<Longrightarrow> rp_enabled p"
  using assms by (auto simp: reminder_due_def Let_def dest!: find_SomeD split: if_splits option.splits)

text \<open>One night of reminders.\<close>

lemma relances_night:
  assumes "school_ok (cg_school g)" and "distinct (map entry (cg_reminders g))" and "envoyer_les_relances e g = (n, g', ok)"
  shows "school_steps (cg_school g) (cg_school g')" and "cg_quiz g' = cg_quiz g" and "distinct (map entry (cg_reminders g'))"
    and "n \<le> length (relances_du_jour (ce_lesson e) g)"
    and "map entry (cg_reminders g') = rev (take n (map (\<lambda>r. (en_id (fst r), snd r)) (relances_du_jour (ce_lesson e) g))) @ map entry (cg_reminders g)"
proof -
  let ?l = "relances_du_jour (ce_lesson e) g" and ?f = "\<lambda>r. (en_id (fst r), snd r)"
  have d: "distinct (map (en_id \<circ> fst) ?l)" using assms(1) by (intro relances_distinct) (simp add: school_ok_def people_ok_def)
  have i: "fst ` set ?l \<subseteq> set (sc_enrollments (cg_school g))" using relances_in by fastforce
  from send_reminders_ok [OF d i assms(1), of "ce_lesson e" "ce_token e" 0] assms(3)
  have r: "school_steps (cg_school g) (cg_school g') \<and> cg_quiz g' = cg_quiz g \<and> n \<le> length ?l \<and>
    map entry (cg_reminders g') = rev (take n (map ?f ?l)) @ map entry (cg_reminders g)"
    by (simp add: envoyer_les_relances_def)
  then show "school_steps (cg_school g) (cg_school g')" and "cg_quiz g' = cg_quiz g"
    and e: "map entry (cg_reminders g') = rev (take n (map ?f ?l)) @ map entry (cg_reminders g)" by simp_all
  show "n \<le> length ?l" using r by simp
  from d have "distinct (map fst (map ?f ?l))" by (simp add: comp_def)
  then have "distinct (map ?f ?l)" by (simp only: distinct_map)
  then have "distinct (take n (map ?f ?l))" by (rule distinct_take)
  moreover have "set (take n (map ?f ?l)) \<inter> set (map entry (cg_reminders g)) = {}"
  proof -
    have "?f r \<notin> set (map entry (cg_reminders g))" if "r \<in> set ?l" for r
    proof -
      obtain x kind where x: "r = (x, kind)" by fastforce
      with that relances_in reminder_dueD(3) have "kind \<notin> already_sent g x" by metis
      with x show ?thesis by (auto simp: entry_def already_sent_def)
    qed
    then show ?thesis using set_take_subset [of n "map ?f ?l"] by fastforce
  qed
  ultimately show "distinct (map entry (cg_reminders g'))" using e assms(2) by simp
qed


lemma notify_evidence_frame [simp]:
  "cg_school (notify_evidence e t xs g) = cg_school g" "cg_quiz (notify_evidence e t xs g) = cg_quiz g"
  "cg_reminders (notify_evidence e t xs g) = cg_reminders g" "cg_suggestions (notify_evidence e t xs g) = cg_suggestions g"
  by (induction xs arbitrary: g) simp_all

lemma watch_lines_frame [simp]:
  "cg_school (snd (watch_lines e t ws n g)) = cg_school g" "cg_quiz (snd (watch_lines e t ws n g)) = cg_quiz g"
  "cg_reminders (snd (watch_lines e t ws n g)) = cg_reminders g"
  by (induction ws arbitrary: n g) (simp_all split: option.splits prod.splits)

lemma watch_frame [simp]:
  "cg_school (snd (surveiller_les_campagnes e g)) = cg_school g" "cg_quiz (snd (surveiller_les_campagnes e g)) = cg_quiz g"
  "cg_reminders (snd (surveiller_les_campagnes e g)) = cg_reminders g"
proof -
  have "cg_school (snd (watch_for e ts n g)) = cg_school g \<and> cg_quiz (snd (watch_for e ts n g)) = cg_quiz g \<and>
    cg_reminders (snd (watch_for e ts n g)) = cg_reminders g" for ts n
  proof (induction ts arbitrary: n g)
    case (Cons t ts)
    obtain n1 g1 where w: "watch_lines e t (campagnes (cg_school g) t) n g = (n1, g1)" by fastforce
    with watch_lines_frame [of e t "campagnes (cg_school g) t" n g] Cons.IH [where n = n1 and g = g1] show ?case by simp
  qed simp
  then show "cg_school (snd (surveiller_les_campagnes e g)) = cg_school g" "cg_quiz (snd (surveiller_les_campagnes e g)) = cg_quiz g"
    "cg_reminders (snd (surveiller_les_campagnes e g)) = cg_reminders g"
    by (simp_all add: surveiller_les_campagnes_def)
qed

lemma propose_all_ok:
  "school_steps (cg_school g) (cg_school (snd (propose_all t ws g))) \<and> cg_quiz (snd (propose_all t ws g)) = cg_quiz g \<and>
   cg_reminders (snd (propose_all t ws g)) = cg_reminders g"
proof (induction t ws g rule: propose_all.induct)
  case (2 t c k d1 d2 rest g)
  show ?case
  proof (cases "proposed g t (co_id c)")
    case True
    with 2 show ?thesis by simp
  next
    case False
    with 2(2) [OF False refl refl] aside_seq [of "cg_school g"] show ?thesis
      by (auto simp: Let_def case_prod_beta intro: converse_rtranclp_into_rtranclp)
  qed
qed simp

lemma proposer_les_preuves_ok:
  "school_steps (cg_school g) (cg_school (snd (proposer_les_preuves e g))) \<and> cg_quiz (snd (proposer_les_preuves e g)) = cg_quiz g \<and>
   cg_reminders (snd (proposer_les_preuves e g)) = cg_reminders g"
proof -
  have "school_steps (cg_school g) (cg_school (snd (propose_for e ts n g))) \<and> cg_quiz (snd (propose_for e ts n g)) = cg_quiz g \<and>
    cg_reminders (snd (propose_for e ts n g)) = cg_reminders g" for ts n
  proof (induction ts arbitrary: n g)
    case (Cons t ts)
    obtain xs g1 where p: "proposer e g t = (xs, g1)" by fastforce
    with propose_all_ok [where t = t and g = g and ws = "campagnes_probantes e (cg_school g) t"]
    have "school_steps (cg_school g) (cg_school g1)" "cg_quiz g1 = cg_quiz g" "cg_reminders g1 = cg_reminders g"
      by (simp_all add: proposer_def)
    with Cons.IH [where n = "n + length xs" and g = "notify_evidence e t xs g1"] p show ?case by auto
  qed simp
  then show ?thesis by (simp add: proposer_les_preuves_def)
qed

section \<open>Histories\<close>

datatype training_event =
    By_learner bool string string learner_request
  | By_member "membership option" string pilot_request
  | By_author author "int option" studio_request
  | Offered int int "int option"
  | Withdrawn int int
  | Night_reminders
  | Night_evidence
  | Night_watch
  | Night_purge int

definition with_school :: "campaign \<Rightarrow> school \<Rightarrow> campaign" where
  "with_school g s = g\<lparr>cg_school := s\<rparr>"

text \<open>What an event makes of the module; \<open>slugify\<close> and \<open>email_ok\<close> are those of the requests.\<close>

definition happen ::
  "(string \<Rightarrow> string) \<Rightarrow> (string \<Rightarrow> bool) \<Rightarrow> campaign_env \<Rightarrow> training_event \<Rightarrow> campaign \<Rightarrow> campaign" where
  "happen slugify email_ok e ev g =
     (let s = cg_school g
      in case ev of
        By_learner throttled serial token rq \<Rightarrow> with_school g (snd (learner_call (ce_lesson e) (ce_db e) throttled serial token rq s))
      | By_member m token rq \<Rightarrow> snd (pilot_call e email_ok m token rq g)
      | By_author a actor rq \<Rightarrow>
          (case studio_call slugify (lv_now (ce_lesson e)) (ce_db e) a actor (sc_catalogue s) rq of
             Inl err \<Rightarrow> g | Inr k \<Rightarrow> with_school g (s\<lparr>sc_catalogue := k\<rparr>))
      | Offered t c actor \<Rightarrow> with_school g (attribuer_cours s t c actor)
      | Withdrawn t c \<Rightarrow> with_school g (snd (retirer_cours s t c))
      | Night_reminders \<Rightarrow> fst (snd (envoyer_les_relances e g))
      | Night_evidence \<Rightarrow> snd (proposer_les_preuves e g)
      | Night_watch \<Rightarrow> snd (surveiller_les_campagnes e g)
      | Night_purge months \<Rightarrow> with_school g (snd (purger_les_resultats (lv_now (ce_lesson e)) months s)))"

fun history ::
  "(string \<Rightarrow> string) \<Rightarrow> (string \<Rightarrow> bool) \<Rightarrow> campaign \<Rightarrow> (campaign_env \<times> training_event) list \<Rightarrow> campaign" where
  "history slugify email_ok g [] = g"
| "history slugify email_ok g ((e, ev) # evs) = history slugify email_ok (happen slugify email_ok e ev g) evs"

definition first_day :: "quiz \<Rightarrow> box \<Rightarrow> campaign" where
  "first_day q b =
     \<lparr>cg_school = \<lparr>sc_seq = 0, sc_catalogue = empty_catalogue, sc_assignments = [], sc_learners = [], sc_enrollments = [],
        sc_progress = [], sc_attempts = [], sc_answers = [], sc_certificates = [], sc_mails = []\<rparr>,
      cg_policies = [], cg_reminders = [], cg_accesses = [], cg_suggestions = [], cg_quiz = q, cg_box = b\<rparr>"

definition campaign_ok :: "campaign \<Rightarrow> bool" where
  "campaign_ok g \<longleftrightarrow> school_ok (cg_school g) \<and> distinct (map entry (cg_reminders g))"

lemma with_school_sel [simp]:
  "cg_school (with_school g s) = s" "cg_quiz (with_school g s) = cg_quiz g" "cg_reminders (with_school g s) = cg_reminders g"
  by (simp_all add: with_school_def)

lemma assign_step: "school_steps s (attribuer_cours s t c actor)"
  using aside_assignments [of s] by (auto simp: attribuer_cours_def)

lemma withdraw_step: "school_steps s (snd (retirer_cours s t c))"
  using aside_assignments [of s] by (auto simp: retirer_cours_def)

lemma pilot_reminders [simp]: "cg_reminders (snd (pilot_call e email_ok m token rq g)) = cg_reminders g"
proof (rule pilot_cases [of e email_ok m token rq g])
  fix mb
  assume h: "pilot_call e email_ok m token rq g = handle e token (me_tenant mb) (Some (me_user mb)) rq g"
  show ?thesis unfolding h
    by (auto simp: handle_def campaign_view_def evidence_view_def Let_def on_school_def on_enrollment_def on_course_def on_suggestion_def politique_def
          regler_la_politique_def suivi_nominatif_def confirmer_def ecarter_def decide_def
        split: pilot_request.splits option.splits sum.splits prod.splits if_splits)
qed simp

lemma happen_ok:
  assumes "campaign_ok g"
  shows "school_steps (cg_school g) (cg_school (happen slugify email_ok e ev g)) \<and> campaign_ok (happen slugify email_ok e ev g)"
proof -
  have k: "school_ok (cg_school g)" and d: "distinct (map entry (cg_reminders g))" using assms by (simp_all add: campaign_ok_def)
  have ids: "ids_ok (sc_catalogue (cg_school g))" using k by (simp add: school_ok_def studio_ok_def)
  have "school_steps (cg_school g) (cg_school (happen slugify email_ok e ev g)) \<and>
    distinct (map entry (cg_reminders (happen slugify email_ok e ev g)))"
  proof (cases ev)
    case (By_author a actor rq)
    then show ?thesis
      using d studied [OF studio_call_step [OF _ ids]] by (auto simp: happen_def Let_def split: sum.splits)
  next
    case Night_reminders
    obtain n g' ok where r: "envoyer_les_relances e g = (n, g', ok)" by (metis prod.collapse)
    from relances_night [OF k d r] r Night_reminders show ?thesis by (simp add: happen_def)
  next
    case Night_evidence
    with d proposer_les_preuves_ok [of g e] show ?thesis by (simp add: happen_def)
  qed (use d k in \<open>auto simp: happen_def Let_def learner_call_steps pilot_call_steps assign_step withdraw_step intro: r_into_rtranclp purge_step\<close>)
  with steps_school [OF _ k] show ?thesis by (simp add: campaign_ok_def)
qed

lemma history_ok:
  assumes "campaign_ok g"
  shows "school_steps (cg_school g) (cg_school (history slugify email_ok g evs)) \<and> campaign_ok (history slugify email_ok g evs)"
  using assms
proof (induction slugify email_ok g evs rule: history.induct)
  case (2 slugify email_ok g e ev evs)
  with happen_ok [OF 2(2), of slugify email_ok e ev] show ?case by auto
qed simp

lemma first_day_ok: "campaign_ok (first_day q b)"
  by (simp add: campaign_ok_def first_day_def school_ok_def people_ok_def trace_ok_def empty_ok)

section \<open>What the certificates and the figures rest on\<close>

lemma steps_certificates: "school_steps s s' \<Longrightarrow> set (sc_certificates s) \<subseteq> set (sc_certificates s')"
proof (induction rule: rtranclp_induct)
  case (step s1 s2)
  have "set (sc_certificates s1) \<subseteq> set (sc_certificates s2)" using step(2) by (cases rule: school_step.cases) auto
  with step.IH show ?case by blast
qed simp

lemma earned_progress:
  assumes "school_ok s" and "c \<in> set (sc_certificates s)"
  shows "\<exists>p \<in> set (sc_progress s). sp_tenant p = ce_tenant c \<and> sp_enrollment p = ce_enrollment c"
proof -
  from assms have "earned s c" by (simp add: school_ok_def trace_ok_def)
  then show ?thesis
  proof (cases rule: earnedE)
    case (1 v)
    from 1(5) obtain r where "r \<in> set (screens_of (sc_catalogue s) (cv_id v))" by (metis list.set_intros(1) neq_Nil_conv)
    with 1(6) show ?thesis by (auto simp: seen_def)
  qed
qed

lemma done_begun: "school_ok s \<Longrightarrow> set (reussis s t ids) \<subseteq> set (commences s t ids)"
proof
  fix i
  assume k: "school_ok s" and "i \<in> set (reussis s t ids)"
  then obtain c where c: "c \<in> set (sc_certificates s)" "ce_tenant c = t" "ce_enrollment c = i" "i \<in> set ids"
    by (auto simp: reussis_def)
  from earned_progress [OF k c(1)] c(2,3) obtain p where "p \<in> set (sc_progress s)" "sp_tenant p = t" "sp_enrollment p = i" by auto
  with c(4) show "i \<in> set (commences s t ids)" by (auto simp: commences_def)
qed

lemma pourcent_mono: "a \<le> b \<Longrightarrow> pourcent a n \<le> pourcent b n"
  by (auto simp: pourcent_def intro!: py_round_mono divide_right_mono)

lemma pourcent_range: "a \<le> n \<Longrightarrow> 0 \<le> pourcent a n \<and> pourcent a n \<le> 100"
proof (cases "n = 0")
  case False
  assume a: "a \<le> n"
  have "py_round (of_int 0) \<le> py_round (of_int (100 * int a) / of_int (int n))" by (intro py_round_mono) simp
  moreover have "py_round (of_int (100 * int a) / of_int (int n)) \<le> py_round (of_int 100)"
    using a False by (intro py_round_mono) (simp add: divide_le_eq)
  ultimately show ?thesis using False py_round_of_int [of 0] py_round_of_int [of 100] by (simp add: pourcent_def)
qed (simp add: pourcent_def)

lemma split_count:
  assumes "distinct xs" and "distinct ys" and "set ys \<subseteq> set xs"
  shows "length (filter (\<lambda>i. i \<notin> set ys) xs) + length ys = length xs"
proof -
  have "set (filter (\<lambda>i. i \<in> set ys) xs) = set ys" using assms(3) by auto
  then have "length (filter (\<lambda>i. i \<in> set ys) xs) = length ys"
    using assms(1,2) by (metis distinct_card distinct_filter)
  with sum_length_filter_compl [of "\<lambda>i. i \<in> set ys" xs] show ?thesis by simp
qed

lemma agregats_ok:
  fixes s t c
  defines "y \<equiv> agregats s t c"
  assumes "school_ok s"
  shows "sy_success_rate y \<le> sy_participation_rate y \<and> 0 \<le> sy_success_rate y \<and> sy_participation_rate y \<le> 100 \<and> 0 \<le> sy_not_started y \<and>
    sy_not_started y + int (sy_in_progress y) + int (sy_completed y) = int (sy_learners_total y)"
proof -
  let ?ids = "map en_id (inscriptions s t c)"
  let ?b = "commences s t ?ids" and ?d = "reussis s t ?ids"
  have d: "distinct ?b" "distinct ?d" by (simp_all add: commences_def reussis_def)
  note sub = done_begun [OF assms(2), of t ?ids]
  have "set ?b \<subseteq> set ?ids" by (auto simp: commences_def)
  then have "length ?b \<le> length ?ids" using d(1) by (metis card_length card_mono distinct_card le_trans List.finite_set)
  moreover have "length ?d \<le> length ?b" using sub d by (metis card_mono distinct_card List.finite_set)
  moreover note split_count [OF d sub]
  ultimately show ?thesis
    using pourcent_mono [of "length ?d" "length ?b" "length ?ids"] pourcent_range [of "length ?d" "length ?ids"]
      pourcent_range [of "length ?b" "length ?ids"]
    by (simp add: y_def agregats_def Let_def)
qed

lemma agregats_whole:
  "sy_learners_total (agregats s t c) =
   length (filter (\<lambda>x. en_tenant x = t \<and> en_revoked_at x = None \<and> (c = None \<or> map_option cv_course (version_of s x) = c)) (sc_enrollments s))"
  by (simp add: agregats_def Let_def inscriptions_def course_id_of_def)

section \<open>What a learner is shown\<close>

definition blank_question :: "question \<Rightarrow> question" where
  "blank_question q = q\<lparr>qn_explanation := [], qn_choices := map (\<lambda>c. c\<lparr>ch_correct := False\<rparr>) (qn_choices q)\<rparr>"

text \<open>The same school without its right answers and its explanations.\<close>

definition hide :: "school \<Rightarrow> school" where
  "hide s = s\<lparr>sc_catalogue := (sc_catalogue s)\<lparr>kt_questions := map blank_question (kt_questions (sc_catalogue s))\<rparr>\<rparr>"

lemma sort_key_map: "sort_key f (map g xs) = map g (sort_key (f \<circ> g) xs)"
proof -
  have "insort_key f (g x) (map g ys) = map g (insort_key (f \<circ> g) x ys)" for x ys
    by (induction ys) simp_all
  then show ?thesis by (induction xs) simp_all
qed

lemma hide_frame [simp]:
  "sc_enrollments (hide s) = sc_enrollments s" "sc_learners (hide s) = sc_learners s" "sc_progress (hide s) = sc_progress s"
  "sc_attempts (hide s) = sc_attempts s" "sc_certificates (hide s) = sc_certificates s"
  "kt_versions (sc_catalogue (hide s)) = kt_versions (sc_catalogue s)" "kt_courses (sc_catalogue (hide s)) = kt_courses (sc_catalogue s)"
  "kt_screens (sc_catalogue (hide s)) = kt_screens (sc_catalogue s)"
  by (simp_all add: hide_def)

lemma hide_questions: "questions_of (sc_catalogue (hide s)) v = map blank_question (questions_of (sc_catalogue s) v)"
proof -
  have "filter (\<lambda>x. qn_version x = v) (map blank_question qs) = map blank_question (filter (\<lambda>x. qn_version x = v) qs)" for qs
    by (induction qs) (simp_all add: blank_question_def)
  moreover have "qn_order \<circ> blank_question = qn_order" by (simp add: fun_eq_iff blank_question_def)
  ultimately show ?thesis by (simp add: questions_of_def hide_def sort_key_map)
qed

lemma blank_choices: "map (\<lambda>c. (ch_id c, ch_text c)) (choices_of (blank_question q)) = map (\<lambda>c. (ch_id c, ch_text c)) (choices_of q)"
proof -
  have "ch_order \<circ> (\<lambda>c. c\<lparr>ch_correct := False\<rparr>) = ch_order" by (simp add: fun_eq_iff)
  then show ?thesis by (simp add: choices_of_def blank_question_def sort_key_map comp_def)
qed

lemma hide_quiz: "questions_du_quiz (hide s) x = questions_du_quiz s x"
  by (simp add: questions_du_quiz_def hide_questions blank_choices) (simp add: blank_question_def)

lemma hide_reads [simp]:
  "learner_of (hide s) x = learner_of s x" "version_of (hide s) x = version_of s x"
  "learner_active (hide s) x = learner_active s x" "is_usable e (hide s) x = is_usable e s x" "by_token e (hide s) tok = by_token e s tok"
  "ecrans_vus (hide s) x = ecrans_vus s x" "essais (hide s) x = essais s x" "attestation_de (hide s) x = attestation_de s x"
  "attempts_allowed (hide s) x = attempts_allowed s x" "screens_of (sc_catalogue (hide s)) v = screens_of (sc_catalogue s) v"
  "put_enrollment x (hide s) = hide (put_enrollment x s)"
  by (simp_all add: learner_of_def version_of_def learner_active_def is_usable_def by_token_def ecrans_vus_def essais_def
      attestation_de_def attempts_allowed_def screens_of_def put_enrollment_def hide_def)

lemma hide_course [simp]: "course_of (hide s) x = course_of s x"
  by (simp add: course_of_def split: option.splits)

lemma hide_state [simp]: "etat_de_session e (hide s) x = etat_de_session e s x"
  unfolding etat_de_session_def hide_reads hide_course hide_quiz estimated_minutes_def ..

lemma hide_resolve: "resoudre_session e (hide s) tok = map_sum id (map_prod id hide) (resoudre_session e s tok)"
  by (auto simp: resoudre_session_def Let_def split: option.splits)

lemma hide_screen: "fst (marquer_ecran_vu e (hide s) x i) = fst (marquer_ecran_vu e s x i)"
proof -
  have "hide s\<lparr>sc_progress := ps\<rparr> = hide (s\<lparr>sc_progress := ps\<rparr>)" for ps by (simp add: hide_def)
  then show ?thesis by (auto simp: marquer_ecran_vu_def Let_def split: option.splits)
qed

lemma hide_access: "fst (access_request_view e d token (hide s)) = fst (access_request_view e d token s)"
proof -
  have m: "hide s\<lparr>sc_mails := ms\<rparr> = hide (s\<lparr>sc_mails := ms\<rparr>)" "sc_mails (hide s) = sc_mails s" for ms by (simp_all add: hide_def)
  have v: "envoyer_demande_dacces e d x (hide s) = map_sum id hide (envoyer_demande_dacces e d x s)" for x
    by (simp add: envoyer_demande_dacces_def Let_def m)
  have "demander_un_acces e d (hide s) token = map_sum id (map_prod id hide) (demander_un_acces e d s token)"
  proof (cases "by_token e s token")
    case None
    then show ?thesis by (simp add: demander_un_acces_def)
  next
    case (Some x)
    have "rbind (map_sum id hide r) (\<lambda>s'. Inr (True, put_enrollment y s')) =
        map_sum id (map_prod id hide) (rbind r (\<lambda>s'. Inr (True, put_enrollment y s')))" for r :: "training_error + school" and y
      by (cases r) simp_all
    with Some show ?thesis by (simp add: demander_un_acces_def v)
  qed
  then show ?thesis
    by (cases "demander_un_acces e d s token") (auto simp: access_request_view_def split: training_error.splits)
qed

lemma hide_call:
  assumes "\<And>answers. rq \<noteq> Submit_quiz answers"
  shows "fst (learner_call e d throttled serial token rq (hide s)) = fst (learner_call e d throttled serial token rq s)"
proof (cases "throttled \<or> rq = Ask_access")
  case True
  then show ?thesis by (auto simp: learner_call_def hide_access)
next
  case False
  show ?thesis
  proof (cases "resoudre_session e s token")
    case (Inl err)
    with False hide_resolve [of e s token] show ?thesis by (simp add: learner_call_def)
  next
    case (Inr r)
    obtain x s1 where r: "r = (x, s1)" by fastforce
    from Inr r hide_resolve [of e s token] have h: "resoudre_session e (hide s) token = Inr (x, hide s1)" by simp
    have "fst (screen_done_view e x i (hide s1)) = fst (screen_done_view e x i s1)" for i
      using hide_screen [of e s1 x i] by (simp add: screen_done_view_def case_prod_beta)
    then show ?thesis using False Inr r h assms [of "[]"]
    proof (cases rq)
      case (Submit_quiz answers)
      with assms show ?thesis by blast
    qed (simp_all add: learner_call_def session_view_def)
  qed
qed

section \<open>Who writes in the assessment\<close>

lemma send_reminders_quiz: "send_reminders e tok n l g = (k, g', ok) \<Longrightarrow> cg_quiz g' = cg_quiz g"
proof (induction e tok n l g rule: send_reminders.induct)
  case (2 e tok n x kind rest g)
  have "cg_quiz (fst (send_reminder e (tok n) g x kind)) = cg_quiz g"
    by (simp add: send_reminder_def split: sum.splits prod.splits)
  with 2 show ?case by (auto split: prod.splits if_splits)
qed simp

lemma handle_quiz:
  assumes "cg_quiz (snd (handle e token t actor rq g)) \<noteq> cg_quiz g"
  obtains i x a k w where "rq = Confirm i" "x \<in> set (cg_suggestions g)" "sg_tenant x = t" "sg_id x = i"
    "sg_status x = Pending_suggestion" "get_current_assessment (cg_quiz g) t None = Some a"
    "k \<in> set (get_assessment_measures (cg_quiz g) a)" "ms_code k = MESURE"
    "submit_answer (cg_quiz g) a k Yes (texte_de_preuve e g x) = Inr (w, cg_quiz (snd (handle e token t actor rq g)))"
proof (cases "\<exists>i. rq = Confirm i")
  case True
  then obtain i where rq: "rq = Confirm i" by blast
  let ?q = "cg_quiz (snd (handle e token t actor rq g))"
  from assms rq obtain x where x: "find (\<lambda>x. sg_tenant x = t \<and> sg_id x = i) (cg_suggestions g) = Some x"
    by (auto simp: handle_def campaign_view_def evidence_view_def Let_def on_suggestion_def split: option.splits)
  with assms rq have h: "cg_quiz (snd (on_suggestion e g t i (\<lambda>x. confirmer e g x actor))) \<noteq> cg_quiz g"
    and q: "?q = cg_quiz (snd (on_suggestion e g t i (\<lambda>x. confirmer e g x actor)))"
    by (simp_all add: handle_def campaign_view_def evidence_view_def Let_def)
  note xx = find_SomeD [OF x]
  from h x xx obtain a k w q' where c: "sg_status x = Pending_suggestion" "get_current_assessment (cg_quiz g) t None = Some a"
    "find (\<lambda>m. ms_code m = MESURE) (get_assessment_measures (cg_quiz g) a) = Some k"
    "submit_answer (cg_quiz g) a k Yes (texte_de_preuve e g x) = Inr (w, q')"
    by (auto simp: on_suggestion_def confirmer_def split: option.splits sum.splits prod.splits if_splits)
  have "?q = q'" unfolding q using x xx c by (simp add: on_suggestion_def confirmer_def decide_def Let_def)
  with that [OF rq _ _ _ c(1,2)] xx c(4) find_SomeD [OF c(3)] show thesis by blast
next
  case False
  then have "cg_quiz (snd (handle e token t actor rq g)) = cg_quiz g"
    by (cases rq)
      (auto simp: handle_def campaign_view_def evidence_view_def Let_def on_school_def on_enrollment_def on_course_def on_suggestion_def politique_def
          regler_la_politique_def suivi_nominatif_def ecarter_def decide_def
        split: option.splits sum.splits prod.splits if_splits)
  with assms show thesis by simp
qed

section \<open>An example\<close>

text \<open>A course is written, offered to the first company, and followed by one of its employees.\<close>

lemma is_tenant_admin_code [code]: "is_tenant_admin m = (case m of None \<Rightarrow> False | Some x \<Rightarrow> me_role x = Admin)"
  by (auto simp: is_tenant_admin_def is_tenant_member_def split: option.splits)

definition class_db :: db where
  "class_db = empty_db\<lparr>d_plans := [blank_plan\<lparr>pl_id := 1, pl_status := Published, pl_features := [TRAINING]\<rparr>],
     d_subs := [new_trial 3 1 1 0 14]\<rparr>"

definition class_env :: "time \<Rightarrow> campaign_env" where
  "class_env now =
     \<lparr>ce_lesson = \<lparr>lv_now = now, lv_day_end = (\<lambda>d. days (d + 1) - 1), lv_hash = (\<lambda>x. x), lv_base_url = ''https://x.fr'',
        lv_mail_ok = (\<lambda>_. True), lv_company = (\<lambda>_. ''Acme''), lv_values = (\<lambda>_ _. None)\<rparr>,
      ce_db = class_db, ce_today = date_of now, ce_token = (\<lambda>n. replicate (n + 1) CHR ''r''), ce_coll = length,
      ce_day = (\<lambda>_. []), ce_iso = (\<lambda>_. []), ce_csv = (\<lambda>_ _. [])\<rparr>"

definition class_admin :: membership where
  "class_admin = \<lparr>me_id = 1, me_tenant = 1, me_user = 5, me_role = Admin\<rparr>"

definition class_events :: "(campaign_env \<times> training_event) list" where
  "class_events =
     map (\<lambda>(now, d, a, actor, rq). (class_env now, By_author a actor rq)) demo_calls @
     [(class_env 4, Offered 1 1 None),
      (class_env 5, By_member (Some class_admin) ''t'' (Add_learner ''Ada'' ''ada@x.fr'')),
      (class_env 6, By_member (Some class_admin) ''lien'' (Enroll 1 ''mots'' 30))]"

definition class_lessons :: "(campaign_env \<times> training_event) list" where
  "class_lessons =
     [(class_env 7, By_learner False ''s'' ''lien'' (Finish_screen 3)),
      (class_env 8, By_learner False ''s'' ''lien'' (Submit_quiz [(4, [5])]))]"

definition class_study :: "(campaign_env \<times> training_event) list" where
  "class_study = class_events @ class_lessons"

definition class_quiz :: quiz where
  "class_quiz = demo_quiz\<lparr>qz_measures := [demo_measure 2 ''2''],
     qz_assessments := [demo_session\<lparr>ae_tenant := 1, ae_subset := None\<rparr>]\<rparr>"

definition class_start :: campaign where
  "class_start = first_day class_quiz \<lparr>bx_seq = 0, bx_rows = []\<rparr>"

definition class_certificate :: course_certificate where
  "class_certificate =
     \<lparr>ce_tenant = 1, ce_enrollment = 2, ce_serial = ''s'', ce_issued_at = 8, ce_learner_name = ''Ada'', ce_course_title = ''Mots'',
      ce_course_version = 1, ce_company_name = ''Acme'', ce_score = 100\<rparr>"

definition class_enrollment :: enrollment where
  "class_enrollment =
     \<lparr>en_id = 2, en_tenant = 1, en_learner = 1, en_version = 2, en_due_date = 30, en_token_hash = ''lien'', en_token_issued_at = 6,
      en_first_opened_at = None, en_revoked_at = None, en_revoked_by = None, en_access_requested_at = None, en_extra_attempts = 0,
      en_attempts_granted_by = None, en_attempts_granted_at = None, en_created_by = Some 5, en_created_at = 6\<rparr>"

lemma history_append: "history slugify email_ok g (evs @ later) = history slugify email_ok (history slugify email_ok g evs) later"
  by (induction slugify email_ok g evs rule: history.induct) simp_all

lemma class_days:
  "(let g = history lower (\<lambda>_. True) class_start class_events
    in (sc_certificates (cg_school (history lower (\<lambda>_. True) g class_lessons)), fst (envoyer_les_relances (class_env (days 15)) g),
        relances_du_jour (ce_lesson (class_env (days 15))) g)) =
   ([class_certificate], 1, [(class_enrollment, Mid)])"
  by code_simp

lemma class_certified: "sc_certificates (cg_school (history lower (\<lambda>_. True) class_start class_study)) = [class_certificate]"
  using class_days by (simp add: Let_def class_study_def history_append del: history.simps)

lemma class_reminded:
  "fst (envoyer_les_relances (class_env (days 15)) (history lower (\<lambda>_. True) class_start class_events)) = 1"
  "relances_du_jour (ce_lesson (class_env (days 15))) (history lower (\<lambda>_. True) class_start class_events) = [(class_enrollment, Mid)]"
  using class_days by (simp_all add: Let_def del: history.simps)

lemma graded_exact:
  assumes "soumettre_le_quiz e serial s x reponses = Inr (q, s')"
  defines "qs \<equiv> questions_of (sc_catalogue s) (en_version x)"
  shows "qs \<noteq> []"
    and "qr_score q = py_round (of_int (100 * int (length (filter (is_right reponses) qs))) / of_int (int (length qs)))"
    and "qr_passed q \<longleftrightarrow> qr_threshold q \<le> qr_score q"
    and "qr_number q = int (length (essais s x)) + 1 \<and> qr_number q \<le> attempts_allowed s x"
    and "list_ex at_passed (essais s x) = False"
    and "map (\<lambda>w. (an_question w, an_selected w, an_is_correct w)) (take (length qs) (sc_answers s')) =
      map (\<lambda>y. (qn_id y, chosen_of reponses y, is_right reponses y)) qs \<and> drop (length qs) (sc_answers s') = sc_answers s"
    and "qr_certificate q \<noteq> None \<longleftrightarrow> qr_passed q"
    and "\<exists>v. version_of s x = Some v \<and> qr_threshold q = cv_pass_threshold v"
proof -
  from assms(1) obtain st where st: "etat_de_session e s x = Inr st" and ne: "qs \<noteq> []" and np: "\<not> se_passed st"
    and lim: "int (se_attempts_used st) < se_attempts_allowed st" and gr: "grade e serial s x st qs reponses = Inr (q, s')"
    by (elim soumettre_cases) (simp add: qs_def)
  from etat_cases [OF st] have u: "se_attempts_used st = length (essais s x)" "se_attempts_allowed st = attempts_allowed s x"
    "se_passed st = list_ex at_passed (essais s x)" by blast+
  from gr obtain a s1 where a: "a = new_attempt e s x st qs reponses"
    and s1: "s1 = s\<lparr>sc_seq := sc_seq s + 1, sc_attempts := a # sc_attempts s, sc_answers := attempt_answers s x qs reponses @ sc_answers s\<rparr>"
    and s': "s' = (if at_passed a then snd (delivrer_lattestation e serial s1 x st (at_score a)) else s1)"
    and cert: "qr_certificate q = (if at_passed a then Some (fst (delivrer_lattestation e serial s1 x st (at_score a))) else None)"
    and q: "qr_score q = at_score a" "qr_passed q = at_passed a" "qr_threshold q = se_threshold st" "qr_number q = at_number a"
    by (elim grade_cases)
  have "sc_answers s' = attempt_answers s x qs reponses @ sc_answers s"
    unfolding s' by (auto simp: s1 delivrer_lattestation_def Let_def split: option.splits)
  then show "map (\<lambda>w. (an_question w, an_selected w, an_is_correct w)) (take (length qs) (sc_answers s')) =
      map (\<lambda>y. (qn_id y, chosen_of reponses y, is_right reponses y)) qs \<and> drop (length qs) (sc_answers s') = sc_answers s"
    by (simp add: attempt_answers_def)
  show "qs \<noteq> []" by (rule ne)
  show "qr_score q = py_round (of_int (100 * int (length (filter (is_right reponses) qs))) / of_int (int (length qs)))"
    and "qr_passed q \<longleftrightarrow> qr_threshold q \<le> qr_score q"
    and "qr_number q = int (length (essais s x)) + 1 \<and> qr_number q \<le> attempts_allowed s x"
    using lim u q by (simp_all add: a new_attempt_def Let_def)
  show "list_ex at_passed (essais s x) = False" using np u(3) by simp
  show "qr_certificate q \<noteq> None \<longleftrightarrow> qr_passed q" using cert q(2) by simp
  from etat_cases [OF st] show "\<exists>v. version_of s x = Some v \<and> qr_threshold q = cv_pass_threshold v" using q(3) by metis
qed

section \<open>Properties\<close>

text \<open>
  C35: a certificate is earned, is the only one of its enrolment and lasts: whatever learners, companies, authors, the operator
  and the nights do, a certificate belongs to an enrolment of its company on a published version, every screen of
  which the learner went through, with a score that reaches the threshold; and it is never lost nor changed afterwards.
\<close>

theorem certificates_are_earned:
  assumes "g = history slugify email_ok (first_day q b) evs" and "c \<in> set (sc_certificates (cg_school g))"
  shows "(\<exists>x \<in> set (sc_enrollments (cg_school g)). \<exists>v \<in> set (kt_versions (sc_catalogue (cg_school g))).
      en_id x = ce_enrollment c \<and> en_tenant x = ce_tenant c \<and> en_version x = cv_id v \<and> cv_published_at v \<noteq> None \<and>
      cv_pass_threshold v \<le> ce_score c \<and> screens_of (sc_catalogue (cg_school g)) (cv_id v) \<noteq> [] \<and>
      (\<forall>r \<in> set (screens_of (sc_catalogue (cg_school g)) (cv_id v)). \<exists>p \<in> set (sc_progress (cg_school g)).
         sp_tenant p = en_tenant x \<and> sp_enrollment p = en_id x \<and> sp_screen p = sn_id r)) \<and>
    (\<forall>c' \<in> set (sc_certificates (cg_school g)). ce_enrollment c' = ce_enrollment c \<longrightarrow> c' = c) \<and>
    c \<in> set (sc_certificates (cg_school (history slugify email_ok g later)))"
proof (rule conj3I)
  have ok: "campaign_ok g" using history_ok [OF first_day_ok] assms(1) by simp
  then have t: "trace_ok (cg_school g)" by (simp add: campaign_ok_def school_ok_def)
  with assms(2) have "earned (cg_school g) c" by (simp add: trace_ok_def)
  then show "\<exists>x \<in> set (sc_enrollments (cg_school g)). \<exists>v \<in> set (kt_versions (sc_catalogue (cg_school g))).
      en_id x = ce_enrollment c \<and> en_tenant x = ce_tenant c \<and> en_version x = cv_id v \<and> cv_published_at v \<noteq> None \<and>
      cv_pass_threshold v \<le> ce_score c \<and> screens_of (sc_catalogue (cg_school g)) (cv_id v) \<noteq> [] \<and>
      (\<forall>r \<in> set (screens_of (sc_catalogue (cg_school g)) (cv_id v)). \<exists>p \<in> set (sc_progress (cg_school g)).
         sp_tenant p = en_tenant x \<and> sp_enrollment p = en_id x \<and> sp_screen p = sn_id r)"
    by (elim earnedE) (force simp: mark_def seen_def)
  show "\<forall>c' \<in> set (sc_certificates (cg_school g)). ce_enrollment c' = ce_enrollment c \<longrightarrow> c' = c"
    using t distinct_map_eq [of ce_enrollment "sc_certificates (cg_school g)" _ c] assms(2) by (simp add: trace_ok_def)
  show "c \<in> set (sc_certificates (cg_school (history slugify email_ok g later)))"
    using history_ok [OF ok, of slugify email_ok later] steps_certificates assms(2) by blast
qed

lemma certificates_are_earned_witness:
  "class_certificate \<in> set (sc_certificates (cg_school (history lower (\<lambda>_. True)
     (history lower (\<lambda>_. True) class_start class_study) [(class_env (days 800), Night_purge 24)])))"
  using certificates_are_earned [where q = class_quiz and b = "\<lparr>bx_seq = 0, bx_rows = []\<rparr>", folded class_start_def, OF refl, THEN conjunct2, THEN conjunct2]
    class_certified by (simp del: history.simps)


text \<open>
  C37: a reminder of a kind goes out once per enrolment and only to who needs it: in any history no kind is sent twice to an
  enrolment; a night sends one mail, with the link renewed for it, and writes one line of the journal for each of the first
  enrolments of the list of the day, in its order, and reports their number; it goes through the whole list unless
  a call fails, where it stops; and who is on that list has a live link, has not finished, has not had that
  reminder, and works for a company that did not switch the reminders off.
\<close>

theorem reminders_are_spared:
  assumes "g = history slugify email_ok (first_day q b) evs" and "envoyer_les_relances e g = (n, g', ok)"
  shows "distinct (map (\<lambda>r. (rl_enrollment r, rl_kind r)) (cg_reminders g')) \<and>
    map (\<lambda>r. (rl_enrollment r, rl_kind r)) (cg_reminders g') =
      rev (take n (map (\<lambda>(x, kind). (en_id x, kind)) (relances_du_jour (ce_lesson e) g))) @
      map (\<lambda>r. (rl_enrollment r, rl_kind r)) (cg_reminders g) \<and>
    sc_mails (cg_school g') =
      rev (map (\<lambda>i. case relances_du_jour (ce_lesson e) g ! i of
          (x, kind) \<Rightarrow> Reminder_mail (en_id x) kind (lien_de_session (ce_lesson e) (ce_token e i))) [0..<n]) @
      sc_mails (cg_school g) \<and>
    n \<le> length (relances_du_jour (ce_lesson e) g) \<and>
    (ok \<longleftrightarrow> n = length (relances_du_jour (ce_lesson e) g)) \<and>
    (\<forall>(x, kind) \<in> set (relances_du_jour (ce_lesson e) g).
      is_usable (ce_lesson e) (cg_school g) x \<and> \<not> a_termine (cg_school g) x \<and>
      (en_id x, kind) \<notin> set (map (\<lambda>r. (rl_enrollment r, rl_kind r)) (cg_reminders g)) \<and>
      (\<forall>p. find (\<lambda>r. rp_tenant r = en_tenant x) (cg_policies g) = Some p \<longrightarrow> rp_enabled p))"
proof (intro conjI)
  have "campaign_ok g" using history_ok [OF first_day_ok] assms(1) by simp
  then have ok: "school_ok (cg_school g)" "distinct (map entry (cg_reminders g))" by (simp_all add: campaign_ok_def)
  have en: "entry = (\<lambda>r. (rl_enrollment r, rl_kind r))" by (simp add: fun_eq_iff entry_def)
  have pr: "(\<lambda>(x, kind). (en_id x, kind)) = (\<lambda>r. (en_id (fst r), snd r :: reminder_kind))" by (simp add: fun_eq_iff)
  from relances_night(3,5) [OF ok assms(2)]
  show "distinct (map (\<lambda>r. (rl_enrollment r, rl_kind r)) (cg_reminders g'))"
    and "map (\<lambda>r. (rl_enrollment r, rl_kind r)) (cg_reminders g') =
      rev (take n (map (\<lambda>(x, kind). (en_id x, kind)) (relances_du_jour (ce_lesson e) g))) @
      map (\<lambda>r. (rl_enrollment r, rl_kind r)) (cg_reminders g)"
    by (simp_all add: en pr)
  have "send_reminders (ce_lesson e) (ce_token e) 0 (relances_du_jour (ce_lesson e) g) g = (n, g', ok)"
    using assms(2) by (simp add: envoyer_les_relances_def)
  note m = send_reminders_mails [OF this]
  then show "sc_mails (cg_school g') =
      rev (map (\<lambda>i. case relances_du_jour (ce_lesson e) g ! i of
          (x, kind) \<Rightarrow> Reminder_mail (en_id x) kind (lien_de_session (ce_lesson e) (ce_token e i))) [0..<n]) @
      sc_mails (cg_school g)"
    and "n \<le> length (relances_du_jour (ce_lesson e) g)" and "ok \<longleftrightarrow> n = length (relances_du_jour (ce_lesson e) g)"
    by (simp_all add: case_prod_beta)
  have "is_usable (ce_lesson e) (cg_school g) x \<and> \<not> a_termine (cg_school g) x \<and>
      (en_id x, kind) \<notin> set (map (\<lambda>r. (rl_enrollment r, rl_kind r)) (cg_reminders g)) \<and>
      (\<forall>p. find (\<lambda>r. rp_tenant r = en_tenant x) (cg_policies g) = Some p \<longrightarrow> rp_enabled p)"
    if "(x, kind) \<in> set (relances_du_jour (ce_lesson e) g)" for x kind
    using relances_in [OF that] reminder_dueD [of "ce_lesson e" g x kind] by (auto simp: already_sent_def)
  then show "\<forall>(x, kind) \<in> set (relances_du_jour (ce_lesson e) g).
      is_usable (ce_lesson e) (cg_school g) x \<and> \<not> a_termine (cg_school g) x \<and>
      (en_id x, kind) \<notin> set (map (\<lambda>r. (rl_enrollment r, rl_kind r)) (cg_reminders g)) \<and>
      (\<forall>p. find (\<lambda>r. rp_tenant r = en_tenant x) (cg_policies g) = Some p \<longrightarrow> rp_enabled p)"
    unfolding Ball_def split_paired_All prod.case by blast
qed

lemma reminders_are_spared_witness:
  "is_usable (ce_lesson (class_env (days 15))) (cg_school (history lower (\<lambda>_. True) class_start class_events)) class_enrollment \<and>
   fst (envoyer_les_relances (class_env (days 15)) (history lower (\<lambda>_. True) class_start class_events)) = 1"
proof -
  obtain n g ok where r: "envoyer_les_relances (class_env (days 15)) (history lower (\<lambda>_. True) class_start class_events) = (n, g, ok)"
    by (metis prod.collapse)
  from reminders_are_spared [OF refl, where q = class_quiz and b = "\<lparr>bx_seq = 0, bx_rows = []\<rparr>", folded class_start_def, OF r]
    class_reminded r show ?thesis by simp
qed


definition class_school :: school where
  "class_school =
     (cg_school (first_day class_quiz \<lparr>bx_seq = 0, bx_rows = []\<rparr>))\<lparr>sc_seq := 2, sc_catalogue := demo_catalogue,
       sc_learners := [\<lparr>ln_id = 1, ln_tenant = 1, ln_full_name = ''Ada'', ln_email = ''ada@x.fr'', ln_user = None, ln_is_active = True,
         ln_created_by = Some 5\<rparr>], sc_enrollments := [class_enrollment],
       sc_progress := [\<lparr>sp_tenant = 1, sp_enrollment = 2, sp_screen = 3, sp_completed_at = 7\<rparr>]\<rparr>"

lemma class_graded:
  "(case soumettre_le_quiz (ce_lesson (class_env 8)) ''s'' class_school class_enrollment [(4, [6])] of
      Inl e \<Rightarrow> None | Inr (r, s) \<Rightarrow> Some (qr_passed r)) = Some False"
  by code_simp


text \<open>
  C39: the answers of a quiz stay at the server: whatever a learner asks other than to have a quiz graded, throttled or not, two catalogues that
  differ only by which choices are right and by the explanations give the same reply.
\<close>

theorem answers_stay_hidden:
  assumes "\<And>answers. rq \<noteq> Submit_quiz answers"
  shows "fst (learner_call e d throttled serial token rq (s\<lparr>sc_catalogue := (sc_catalogue s)\<lparr>kt_questions :=
      map (\<lambda>q. q\<lparr>qn_explanation := [], qn_choices := map (\<lambda>c. c\<lparr>ch_correct := False\<rparr>) (qn_choices q)\<rparr>)
        (kt_questions (sc_catalogue s))\<rparr>\<rparr>)) = fst (learner_call e d throttled serial token rq s)"
proof -
  have "blank_question = (\<lambda>q. q\<lparr>qn_explanation := [], qn_choices := map (\<lambda>c. c\<lparr>ch_correct := False\<rparr>) (qn_choices q)\<rparr>)"
    by (simp add: fun_eq_iff blank_question_def)
  with hide_call [OF assms, where s = s] show ?thesis by (simp add: hide_def)
qed

lemma answers_stay_hidden_witness:
  "fst (learner_call (ce_lesson (class_env 8)) class_db False ''s'' ''lien'' (Finish_screen 3) (class_school\<lparr>sc_catalogue :=
      (sc_catalogue class_school)\<lparr>kt_questions := map (\<lambda>q. q\<lparr>qn_explanation := [],
        qn_choices := map (\<lambda>c. c\<lparr>ch_correct := False\<rparr>) (qn_choices q)\<rparr>) (kt_questions (sc_catalogue class_school))\<rparr>\<rparr>)) =
   fst (learner_call (ce_lesson (class_env 8)) class_db False ''s'' ''lien'' (Finish_screen 3) class_school)"
  by (rule answers_stay_hidden) simp


definition class_proposal :: suggestion where
  "class_proposal =
     \<lparr>sg_id = 9, sg_tenant = 1, sg_course = 1, sg_referential_slug = REFERENTIEL, sg_measure_code = MESURE, sg_measure_title = ''Sensibiliser'',
      sg_learners_total = 4, sg_learners_done = 4, sg_participation_rate = 100, sg_success_rate = 100, sg_period_start = 0,
      sg_period_end = 30, sg_status = Pending_suggestion, sg_decided_by = None, sg_decided_at = None\<rparr>"

definition class_waiting :: campaign where
  "class_waiting = class_start\<lparr>cg_suggestions := [class_proposal]\<rparr>"

lemma class_confirmed:
  "map (\<lambda>w. (aw_assessment w, aw_measure w, aw_value w))
     (qz_answers (cg_quiz (happen lower (\<lambda>_. True) (class_env 9) (By_member (Some class_admin) ''t'' (Confirm 9)) class_waiting))) =
   [(5, 2, Yes)]"
  by code_simp


end
