(* ===== verification/Spec2Isabelle.thy ===== *)
theory Spec2Isabelle
  imports Entitlements BillingSafety TenantsSafety PlatformAdmins MonitoringSafety ActionsSafety SecretsSafety Throttle Access_Requests WatchedSafety StudioSafety CampaignSafety
begin

text \<open>
  A verification development for RSSI as a service, a Django platform (src/backend) sold by subscription to small
  companies: security diagnostics and the action plans they lead to, monitoring of what a company exposes, breach
  intelligence bought from a provider, training of the employees, all of it behind one catalogue of offers, one
  registry of features and a strict isolation of the companies.

  \<^bold>\<open>The parts, and where they are.\<close> Paths are under src/backend/apps; a definition has the name of the function it
  translates, without a leading underscore, unless that name is taken.

  \<^item> \<^bold>\<open>Shared ground.\<close> Prelude (time, refusals as sums, tables as lists, rounding), Py_Text (Python strings), Tables (one
    record per model of billing, tenants and accounts, and the database they live in), Uniqueness (rows of which one
    per key may be live, with its locale).
  \<^item> \<^bold>\<open>Offers and money\<close> (billing/). Features: features.py, the keys and \<open>sanitize\<close>. Settings: the registry of settings
    of platform_admin, read through a cache. Capacity: capacity.py, the caps of the whole platform. Entitlements:
    entitlements.py, the only place that says yes or no to a feature or a quota. Lifecycle: services.py, the life of a
    subscription. Catalogue: the administration of plans and trial_migration.py. BillingSafety: their step relation
    and invariant.
  \<^item> \<^bold>\<open>People\<close> (accounts/, tenants/, platform_admin/services.py). Accounts and AccountsSafety: lockout, second factor,
    recovery codes, one-time links. Tenants and TenantsSafety: companies, members, the middleware and the scoped
    manager. PlatformAdmins: the administrators of the console.
  \<^item> \<^bold>\<open>Diagnostics\<close> (assessments/, actions/). Referentials, Assessments and AssessmentsSafety: who may use a
    referential, the life of an assessment, the scores. Actions and ActionsSafety: the plan of a completed assessment.
  \<^item> \<^bold>\<open>Monitoring\<close> (monitoring/). Outbound: the guard against internal addresses and the probes behind it. Monitoring and
    MonitoringSafety: assets, proofs of ownership, checks and alerts.
  \<^item> \<^bold>\<open>Breach intelligence\<close> (threat_intelligence/). Normalizer: what becomes of a record of the provider, its secrets
    masked. Breach_Tables, Findings, FindingsSafety, SecretsSafety: the findings, their secrets and who sees one. Exposure:
    the score of an asset. Provider_Client and Throttle: the client, its pages and retries, the shared token bucket.
    Scans, ScansSafety, Pool: jobs, continuous monitoring and the places of the licence. Watched, WatchedSafety: the
    accounts outside of the domains of a company.
  \<^item> \<^bold>\<open>Messages and requests.\<close> Inbox: notifications/inbox.py. Access_Requests: access_requests/, what a company asks of the
    operator.
  \<^item> \<^bold>\<open>Training\<close> (training/). Blocks: blocks.py, variables.py and what a learner reads. Studio and StudioSafety:
    studio.py, studio_views.py and the catalogue. Training: services.py, learners, links, quiz and certificates.
    Campaigns: campagnes.py, rapports.py, preuves.py, tasks.py. Lessons: views.py and campagne_views.py. TrainingSafety
    and CampaignSafety: the steps of a school and whole histories of the module.

  \<^bold>\<open>How they interact.\<close> Nearly every operation that costs something asks Entitlements first, which reads the subscription
  and the plan; the operations that engage a monitoring slot ask Capacity, which reads Settings. Completing an
  assessment is what Actions builds on; Monitoring owns the assets that Pool registers at the provider and the alerts that
  Findings raises; SecretsSafety joins Findings, Accounts (the step-up) and Tenants (the membership). Training answers a
  measure of Assessments when an administrator confirms a proposal, and speaks to him through Inbox. A request takes the
  membership the middleware of Tenants resolved.

  \<^bold>\<open>Conventions.\<close> A model is a record, a table a list in the default order of the model (newest row first where it is
  ordered by creation), a foreign key the identifier it points to, an identifier an \<open>int\<close> drawn from a counter of the
  state. An operation takes the state and returns \<open>Inl\<close> the refusal, the state being that of before as the
  transaction is rolled back, or \<open>Inr\<close> the result with the new state; where the code keeps what it wrote before
  failing, the state is outside of the sum. A unique constraint the code relies on is a refusal of the operation or a
  proved invariant. Instants are microseconds as an \<open>int\<close>, dates are days; a float is an exact rational, \<open>round\<close> is
  Python's, ties to even (\<open>py_round\<close>). Text is a list of characters, an accented letter being its Latin-1 code.

  \<^bold>\<open>What the lemmas show.\<close> The theories named Safety hold a step relation or a run of requests, the elimination lemma of
  every operation (\<open>\<dots>_cases\<close>: what a success tells about its guards and its effect), the invariant and its preservation,
  and the properties, whose proofs are a few steps over them. The locales are the contracts several parts share:
  \<open>slot_guard\<close> (a guard keeps the total below the capacity; interpreted on the guard of Capacity, used by the billing
  operations), \<open>quota_gate\<close> (a guard by quota; interpreted on the five guards of Entitlements), \<open>override_store\<close>
  (read what was written, through a cache; interpreted on Settings), \<open>unique_live\<close> (closing and replacing keeps one live
  row per key; interpreted on alerts and on assessments). Each property has a witness that applies it to a concrete
  state where it has hypotheses. The functions are executable and the examples are evaluated by the simplifier.

  \<^bold>\<open>Bounds and fuel.\<close> No definition is partial. A redirect is followed five times at most, as in the code, so six hops
  (Outbound). The loop that looks for a free slug has a termination proof: every refused number is one of the finitely many
  slugs held. The daily series of a plan recurses on the number of days left. The pages and the tries of the provider
  are bounded by the constants of client.py, which gives the 720 tries of a scan. A task is delivered again as often as its
  \<open>max_retries\<close>. Renumbering, copying and sending loops recurse on their lists.

  \<^bold>\<open>Parameters.\<close> What is not code of this repository comes in as an argument: password hashing, TOTP, token signing and
  random draws (\<open>crypto\<close>), names, HTTP, DNS and TLS (\<open>net\<close>), the service of the provider, SHA-256, the cipher of the secrets,
  base64, Django's \<open>slugify\<close>, the printed form of JSON values and of dates, the calendar date of an instant, the collation
  of the database, the CSV reader, whether a mail leaves. Their documented behaviour is a named hypothesis where a
  property needs it.

  \<^bold>\<open>Not modelled.\<close> Interleavings inside one request (each operation is one step; the locks and unique indexes the code
  relies on are taken as the database gives them, except in Throttle, whose script Redis runs atomically). The AI assistant
  (ai_assistant/): it assembles prompts, calls a language model that is not in the repository and lays out documents.
  Reporting (reporting/), the certificate and the reports of the training module as PDF or CSV, the text of mails and
  messages (notifications/services.py): presentation of figures the modelled parts compute. Regulatory watch: feed
  retrieval and editorial review through a language model. Marketing: public pages and a contact form. The views of the
  console (platform_admin/console_views.py): serialisation over the services modelled here. The bulk importer of
  referentials, the seed catalogues and demonstration data: contents. The statistics of breaches for the dashboard (the
  last part of threat_intelligence/services.py) and correlation.py: read-only groupings, left out for want of time. The
  TypeScript interface (src/frontend).
\<close>

end
